(* ===== verification/Prelude.thy ===== *)
theory Prelude
  imports Main "HOL-Library.Word" "HOL-Library.Monad_Syntax"
begin

text \<open>
  What the components share: the C integer types, the fault monad, updating one element of a
  list in place, C strings, and the collections of rewrite rules the component proofs use.

  A C function that dereferences a null pointer, divides by zero or executes another
  undefined operation has no result: the model returns \<open>None\<close> there and \<open>Some\<close> otherwise,
  and sequences such steps with \<open>do { \<dots> }\<close> of \<open>Monad_Syntax\<close>.
\<close>

section \<open>C integer types\<close>

type_synonym u8 = "8 word"
type_synonym u16 = "16 word"
type_synonym u32 = "32 word"
type_synonym u64 = "64 word"

text \<open>\<open>xid\<close> is the protocol's 32-bit resource identifier (XID, Window, Atom).\<close>

type_synonym xid = u32

lemma unat_u8_less: "unat (b :: u8) < 256"
  using unsigned_less[of b, where ?'a = nat] by simp

section \<open>Rewrite collections\<close>

named_theorems ns_simps \<open>unfolding rules of the namespace components\<close>
named_theorems flag_simps \<open>reading and writing the flags of the emulated processor\<close>

section \<open>The fault monad\<close>

lemma bind_eq_Some [simp]:
  "(Option.bind m f = Some y) \<longleftrightarrow> (\<exists>x. m = Some x \<and> f x = Some y)"
  by (cases m) auto

lemma bind_eq_None:
  "(Option.bind m f = None) \<longleftrightarrow> (m = None \<or> (\<exists>x. m = Some x \<and> f x = None))"
  by (cases m) auto

section \<open>Updating one element of an array\<close>

definition upd_nth :: "nat \<Rightarrow> ('a \<Rightarrow> 'a) \<Rightarrow> 'a list \<Rightarrow> 'a list" where
  "upd_nth i f xs = xs[i := f (xs ! i)]"

lemma length_upd_nth [simp]: "length (upd_nth i f xs) = length xs"
  by (simp add: upd_nth_def)

lemma upd_nth_nth [simp]:
  "j < length xs \<Longrightarrow> upd_nth i f xs ! j = (if i = j then f (xs ! j) else xs ! j)"
  by (simp add: upd_nth_def nth_list_update)

lemma map_upd_nth:
  assumes "\<And>x. g (f x) = g x"
  shows "map g (upd_nth i f xs) = map g xs"
  by (rule nth_equalityI) (auto simp: assms)

lemma list_all_upd_nth:
  assumes "list_all P xs" and "\<And>x. P x \<Longrightarrow> P (f x)"
  shows "list_all P (upd_nth i f xs)"
  using assms by (auto simp: list_all_length)

section \<open>C strings\<close>

text \<open>The characters of a buffer up to its terminating NUL.\<close>

definition c_str :: "string \<Rightarrow> string" where
  "c_str buf = takeWhile (\<lambda>c. c \<noteq> CHR 0x00) buf"

lemma c_str_no_nul: "CHR 0x00 \<notin> set (c_str s)"
  by (auto simp: c_str_def dest: set_takeWhileD)

text \<open>
  \<open>strtok (str, delim)\<close>: skip leading delimiters; no token if nothing is left, otherwise the
  characters up to the next delimiter, which is consumed. The pair's second part is what the
  next call \<open>strtok (NULL, \<dots>)\<close> continues with.
\<close>

definition strtok :: "string \<Rightarrow> string \<Rightarrow> string option \<times> string" where
  "strtok delim s =
     (case dropWhile (\<lambda>c. c \<in> set delim) s of
        [] \<Rightarrow> (None, [])
      | t # ts \<Rightarrow> (Some (takeWhile (\<lambda>c. c \<notin> set delim) (t # ts)),
                   drop 1 (dropWhile (\<lambda>c. c \<notin> set delim) (t # ts))))"

lemma strtok_token_nonempty:
  assumes "strtok d s = (Some t, r)"
  shows "t \<noteq> []"
proof -
  obtain y ys where ys: "dropWhile (\<lambda>c. c \<in> set d) s = y # ys"
    and t: "t = takeWhile (\<lambda>c. c \<notin> set d) (y # ys)"
    using assms by (auto simp: strtok_def split: list.splits)
  have "y \<notin> set d"
    using ys by (metis (mono_tags, lifting) hd_dropWhile list.sel(1) list.distinct(1))
  with t show ?thesis by simp
qed

lemma strtok_rest_shorter:
  assumes "strtok d s = (Some t, r)"
  shows "length r < length s"
proof -
  obtain y ys where ys: "dropWhile (\<lambda>c. c \<in> set d) s = y # ys"
    and r: "r = drop 1 (dropWhile (\<lambda>c. c \<notin> set d) (y # ys))"
    using assms by (auto simp: strtok_def split: list.splits)
  have yd: "y \<notin> set d"
    using ys by (metis (mono_tags, lifting) hd_dropWhile list.sel(1) list.distinct(1))
  have "length (y # ys) \<le> length s"
    using ys length_dropWhile_le[of "\<lambda>c. c \<in> set d" s] by simp
  moreover have "length r \<le> length ys"
  proof -
    have "length (dropWhile (\<lambda>c. c \<notin> set d) (y # ys)) \<le> Suc (length ys)"
      using length_dropWhile_le[of "\<lambda>c. c \<notin> set d" "y # ys"] by simp
    then show ?thesis by (simp add: r)
  qed
  ultimately show ?thesis by simp
qed

end
