(* ===== verification/NsConfig.thy ===== *)
theory NsConfig
  imports Prelude
begin

text \<open>
  The namespace list and its configuration file: \<open>Xext/namespace/config.c\<close>,
  \<open>namespace.h\<close> and the lookup and assignment functions of \<open>namespace.c\<close>.

  A namespace is referred to by its position in \<open>ns_list\<close>: the list only grows at its end, so
  a position is as good as the C pointer. \<open>ns_root\<close> is position 0 and \<open>ns_anon\<close> position 1,
  the order in which \<open>XnsLoadConfig\<close> appends them.
\<close>

section \<open>State\<close>

record auth_token =
  authProto :: string
  authTokenData :: "u8 list"
  authTokenLen :: nat
  tokAuthId :: xid

record Xnamespace =
  ns_name :: string
  builtin :: bool
  allowMouseMotion :: bool
  allowShape :: bool
  allowTransparency :: bool
  allowXInput :: bool
  allowXKeyboard :: bool
  superPower :: bool
  auth_tokens :: "auth_token list"
  refcnt :: u64
  rootWindow :: "xid option"

record XnamespaceClientPriv =
  isServer :: bool
  privAuthId :: xid
  priv_ns :: "nat option"

text \<open>
  The state the extension owns: the namespace list, the private record embedded in each client
  (by client index) and the store of MIT-MAGIC-COOKIE-1 authorizations of \<open>os/mitauth.d\<close>, newest
  first. \<open>n_server_xids\<close> counts the identifiers drawn from \<open>dixAllocServerXID\<close>. \<open>null_name\<close> is the
  position of the namespace whose \<open>name\<close> is a null pointer, which a failed \<open>strdup\<close> leaves behind;
  there is at most one, since comparing with it ends the program.
\<close>

record xns_state =
  ns_list :: "Xnamespace list"
  privs :: "nat \<Rightarrow> XnamespaceClientPriv"
  mit_auth :: "(xid \<times> u8 list) list"
  n_server_xids :: nat
  null_name :: "nat option"

text \<open>
  What the code draws from outside: whether \<open>calloc\<close> and \<open>strdup\<close> can serve a request of a size
  while the extension starts, the sizes of the three structures it allocates, and the sequence
  of identifiers \<open>dixAllocServerXID\<close> hands out.
\<close>

record xns_env =
  calloc_ok :: "nat \<Rightarrow> bool"
  sizeof_Xnamespace :: nat
  sizeof_auth_token :: nat
  sizeof_auth :: nat
  server_xid :: "nat \<Rightarrow> xid"

definition NS_NAME_ROOT :: string where "NS_NAME_ROOT = ''root''"
definition NS_NAME_ANONYMOUS :: string where "NS_NAME_ANONYMOUS = ''anon''"

abbreviation (input) ns_root_idx :: nat where "ns_root_idx \<equiv> 0"
abbreviation (input) ns_anon_idx :: nat where "ns_anon_idx \<equiv> 1"

definition ns_root :: Xnamespace where
  "ns_root = \<lparr> ns_name = NS_NAME_ROOT, builtin = True, allowMouseMotion = True,
     allowShape = True, allowTransparency = True, allowXInput = True, allowXKeyboard = True,
     superPower = True, auth_tokens = [], refcnt = 1, rootWindow = None \<rparr>"

definition ns_anon :: Xnamespace where
  "ns_anon = \<lparr> ns_name = NS_NAME_ANONYMOUS, builtin = True, allowMouseMotion = False,
     allowShape = False, allowTransparency = False, allowXInput = False, allowXKeyboard = False,
     superPower = False, auth_tokens = [], refcnt = 1, rootWindow = None \<rparr>"

text \<open>The zeroed record that \<open>select_ns\<close> allocates, with its name filled in.\<close>

definition new_ns :: "string \<Rightarrow> Xnamespace" where
  "new_ns name = \<lparr> ns_name = name, builtin = False, allowMouseMotion = False,
     allowShape = False, allowTransparency = False, allowXInput = False, allowXKeyboard = False,
     superPower = False, auth_tokens = [], refcnt = 0, rootWindow = None \<rparr>"

definition no_priv :: XnamespaceClientPriv where
  "no_priv = \<lparr> isServer = False, privAuthId = 0, priv_ns = None \<rparr>"

definition xns_boot :: xns_state where
  "xns_boot = \<lparr> ns_list = [], privs = (\<lambda>_. no_priv), mit_auth = [], n_server_xids = 0,
     null_name = None \<rparr>"

definition upd_ns :: "nat \<Rightarrow> (Xnamespace \<Rightarrow> Xnamespace) \<Rightarrow> xns_state \<Rightarrow> xns_state" where
  "upd_ns i f st = st\<lparr> ns_list := upd_nth i f (ns_list st) \<rparr>"

section \<open>Lookup\<close>

text \<open>The list walk of \<open>XnsFindByName\<close> and \<open>select_ns\<close>: the first position with the name.\<close>

fun find_index :: "('a \<Rightarrow> bool) \<Rightarrow> 'a list \<Rightarrow> nat option" where
  "find_index P [] = None"
| "find_index P (x # xs) = (if P x then Some 0 else map_option Suc (find_index P xs))"

definition XnsFindByName :: "xns_state \<Rightarrow> string \<Rightarrow> nat option" where
  "XnsFindByName st name = find_index (\<lambda>ns. ns_name ns = name) (ns_list st)"

definition token_matches :: "string \<Rightarrow> u8 list \<Rightarrow> auth_token \<Rightarrow> bool" where
  "token_matches proto token at \<longleftrightarrow>
     length (authProto at) = length proto \<and> authTokenLen at = length token \<and>
     take (length token) (authTokenData at) = token \<and>
     take (length proto) (authProto at) = proto"

definition XnsFindByAuth :: "xns_state \<Rightarrow> string \<Rightarrow> u8 list \<Rightarrow> nat" where
  "XnsFindByAuth st proto token =
     (case find_index (\<lambda>ns. list_ex (token_matches proto token) (auth_tokens ns)) (ns_list st) of
        Some i \<Rightarrow> i
      | None \<Rightarrow> ns_anon_idx)"

text \<open>
  How the parser can end the program: a null pointer is dereferenced, or a failed allocation is
  checked and ends it with \<open>FatalError\<close>.
\<close>

datatype parse_error = NullDeref | AllocFatal

text \<open>
  \<open>select_ns\<close> compares the names in order, so a null name stops it unless a match comes first.
  Neither the record nor its name is checked: without a record the store into \<open>newns->name\<close>
  dereferences null, without a name the record is appended with a null one.
\<close>

definition named :: "xns_state \<Rightarrow> Xnamespace list" where
  "named st = (case null_name st of None \<Rightarrow> ns_list st | Some k \<Rightarrow> take k (ns_list st))"

definition select_ns :: "xns_env \<Rightarrow> string \<Rightarrow> xns_state \<Rightarrow> parse_error + nat \<times> xns_state" where
  "select_ns env name st =
     (case find_index (\<lambda>ns. ns_name ns = name) (named st) of
        Some i \<Rightarrow> Inr (i, st)
      | None \<Rightarrow>
          if null_name st \<noteq> None then Inl NullDeref
          else if \<not> calloc_ok env (sizeof_Xnamespace env) then Inl NullDeref
          else if \<not> calloc_ok env (Suc (length name)) then
            Inr (length (ns_list st),
                 st\<lparr> ns_list := ns_list st @ [new_ns []], null_name := Some (length (ns_list st)) \<rparr>)
          else Inr (length (ns_list st), st\<lparr> ns_list := ns_list st @ [new_ns name] \<rparr>))"

section \<open>Assigning a client\<close>

definition XnamespaceAssignClient :: "nat \<Rightarrow> nat option \<Rightarrow> xns_state \<Rightarrow> xns_state" where
  "XnamespaceAssignClient c newns st =
     (let st1 = (case priv_ns (privs st c) of
                   None \<Rightarrow> st
                 | Some old \<Rightarrow> upd_ns old (\<lambda>ns. ns\<lparr> refcnt := refcnt ns - 1 \<rparr>) st);
          st2 = st1\<lparr> privs := (privs st1)(c := (privs st1 c)\<lparr> priv_ns := newns \<rparr>) \<rparr>
      in case newns of
           None \<Rightarrow> st2
         | Some n \<Rightarrow> upd_ns n (\<lambda>ns. ns\<lparr> refcnt := refcnt ns + 1 \<rparr>) st2)"

definition XnamespaceAssignClientByName :: "nat \<Rightarrow> string \<Rightarrow> xns_state \<Rightarrow> xns_state" where
  "XnamespaceAssignClientByName c name st =
     XnamespaceAssignClient c
       (Some (case XnsFindByName st name of None \<Rightarrow> ns_anon_idx | Some i \<Rightarrow> i)) st"

section \<open>The authorization store\<close>

text \<open>
  \<open>AddAuthorization\<close> of \<open>os/auth.d\<close> with the one protocol of the build, MIT-MAGIC-COOKIE-1, and
  its \<open>MitAddCookie\<close>: an existing cookie keeps its identifier, a new one is put in front.
\<close>

definition MIT_PROTO :: string where "MIT_PROTO = ''MIT-MAGIC-COOKIE-1''"

definition MitAddCookie :: "xns_env \<Rightarrow> u8 list \<Rightarrow> xns_state \<Rightarrow> xid \<times> xns_state" where
  "MitAddCookie env data st =
     (case find (\<lambda>(i, d). d = data) (mit_auth st) of
        Some (i, _) \<Rightarrow> (i, st)
      | None \<Rightarrow>
          if \<not> calloc_ok env (sizeof_auth env) \<or> \<not> calloc_ok env (length data) then (0, st)
          else let i = server_xid env (n_server_xids st)
               in (i, st\<lparr> mit_auth := (i, data) # mit_auth st,
                          n_server_xids := Suc (n_server_xids st) \<rparr>))"

definition AddAuthorization :: "xns_env \<Rightarrow> string \<Rightarrow> u8 list \<Rightarrow> xns_state \<Rightarrow> xid \<times> xns_state" where
  "AddAuthorization env name data st =
     (if name = MIT_PROTO then MitAddCookie env (take (length data mod 65536) data) st
      else (0, st))"

definition AuthorizationFromID :: "xns_state \<Rightarrow> xid \<Rightarrow> (string \<times> u8 list) option" where
  "AuthorizationFromID st i =
     map_option (\<lambda>(_, d). (MIT_PROTO, d)) (find (\<lambda>(j, _). i = j) (mit_auth st))"

section \<open>Parsing the configuration file\<close>

definition atox :: "char \<Rightarrow> int" where
  "atox c = (let v = of_char c :: int
     in if of_char CHR ''0'' \<le> v \<and> v \<le> of_char CHR ''9'' then v - of_char CHR ''0''
        else if of_char CHR ''a'' \<le> v \<and> v \<le> of_char CHR ''f'' then v - of_char CHR ''a'' + 10
        else if of_char CHR ''A'' \<le> v \<and> v \<le> of_char CHR ''F'' then v - of_char CHR ''A'' + 10
        else - 1)"

text \<open>
  \<open>hex2bin\<close> reads pairs of digits until one of the two characters is the terminator. The result
  is the bytes stored through \<open>out\<close> and the return value.
\<close>

fun hex2bin :: "string \<Rightarrow> u8 list \<times> int" where
  "hex2bin (a # b # rest) =
     (let top = atox a in
      if top = - 1 then ([], 0)
      else let bottom = atox b in
        if bottom = - 1 then ([], 0)
        else (case hex2bin rest of
                (out, r) \<Rightarrow> (word_of_int (or (push_bit 4 top) bottom) # out, r)))"
| "hex2bin _ = ([], 1)"

text \<open>
  The \<open>auth\<close> branch of \<open>parseLine\<close>: \<open>rest\<close> is what \<open>strtok\<close> continues with, \<open>cur\<close> the namespace
  the token is added to. The token's allocation is checked and ends the server; a line with a
  protocol and no key calls \<open>strlen (NULL)\<close>; a failed allocation of the key drops the line; and the
  unchecked copy of the protocol name is passed to \<open>strlen\<close> after that. The key's buffer is zeroed
  before \<open>hex2bin\<close> fills it.
\<close>

definition parse_auth :: "xns_env \<Rightarrow> string \<Rightarrow> nat \<Rightarrow> xns_state \<Rightarrow> parse_error + xns_state" where
  "parse_auth env rest cur st =
     (case strtok [CHR '' '', CHR 0x09] rest of
        (None, _) \<Rightarrow> Inr st
      | (Some proto, rest1) \<Rightarrow>
          if \<not> calloc_ok env (sizeof_auth_token env) then Inl AllocFatal
          else (case fst (strtok [CHR '' ''] rest1) of
            None \<Rightarrow> Inl NullDeref
          | Some key \<Rightarrow>
               let len = length key div 2 in
               if \<not> calloc_ok env len then Inr st
               else if \<not> calloc_ok env (Suc (length proto)) then Inl NullDeref
               else
                 let out = fst (hex2bin key);
                     buf = out @ replicate (len - length out) 0;
                     (i, st1) = AddAuthorization env proto buf st;
                     tok = \<lparr> authProto = proto, authTokenData = buf,
                             authTokenLen = len, tokAuthId = i \<rparr>
                 in Inr (upd_ns cur (\<lambda>ns. ns\<lparr> auth_tokens := auth_tokens ns @ [tok] \<rparr>) st1)))"

text \<open>The chain of comparisons in the \<open>allow\<close> loop; an unknown word is only logged.\<close>

definition allow_token :: "string \<Rightarrow> Xnamespace \<Rightarrow> Xnamespace" where
  "allow_token token ns =
     (if token = ''mouse-motion'' then ns\<lparr> allowMouseMotion := True \<rparr>
      else if token = ''shape'' then ns\<lparr> allowShape := True \<rparr>
      else if token = ''transparency'' then ns\<lparr> allowTransparency := True \<rparr>
      else if token = ''xinput'' then ns\<lparr> allowXInput := True \<rparr>
      else if token = ''xkeyboard'' then ns\<lparr> allowXKeyboard := True \<rparr>
      else ns)"

text \<open>All further tokens of a line: \<open>while ((token = strtok (NULL, " \t")) != NULL)\<close>.\<close>

function strtok_all :: "string \<Rightarrow> string list" where
  "strtok_all s = (case strtok [CHR '' '', CHR 0x09] s of
                     (None, _) \<Rightarrow> []
                   | (Some t, r) \<Rightarrow> t # strtok_all r)"
  by pat_completeness auto
termination
  by (relation "measure length") (auto dest: strtok_rest_shorter[OF sym])

declare strtok_all.simps [simp del]

text \<open>The text of a line: up to the terminator, the first newline and the first \<open>#\<close>.\<close>

definition line_text :: "string \<Rightarrow> string" where
  "line_text line =
     takeWhile (\<lambda>c. c \<noteq> CHR ''#'') (takeWhile (\<lambda>c. c \<noteq> CHR 0x0A) (c_str line))"

definition parseLine ::
  "xns_env \<Rightarrow> string \<Rightarrow> xns_state \<times> nat option \<Rightarrow> parse_error + xns_state \<times> nat option" where
  "parseLine env line s =
     (case s of (st, walk_ns) \<Rightarrow>
       (case strtok [CHR '' '', CHR 0x09] (line_text line) of
          (None, _) \<Rightarrow> Inr (st, walk_ns)
        | (Some token, rest) \<Rightarrow>
            let cur = (case walk_ns of Some w \<Rightarrow> w | None \<Rightarrow> ns_root_idx) in
            if token = ''namespace'' \<or> token = ''container'' then
              (case fst (strtok [CHR '' ''] rest) of
                 None \<Rightarrow> Inr (st, walk_ns)
               | Some name \<Rightarrow> map_sum id (\<lambda>(i, st1). (st1, Some i)) (select_ns env name st))
            else if token = ''auth'' then map_sum id (\<lambda>st1. (st1, walk_ns)) (parse_auth env rest cur st)
            else if token = ''allow'' then
              Inr (upd_ns cur (fold allow_token (strtok_all rest)) st, walk_ns)
            else if token = ''superpower'' then
              Inr (upd_ns cur (\<lambda>ns. ns\<lparr> superPower := True \<rparr>) st, walk_ns)
            else Inr (st, walk_ns)))"

text \<open>
  The \<open>fgets\<close> loop with its buffer of 1024 characters: each call returns at most 1023
  characters and stops after a newline.
\<close>

definition fgets :: "nat \<Rightarrow> string \<Rightarrow> string \<times> string" where
  "fgets sz s =
     (let chunk = take (sz - 1) s; l = takeWhile (\<lambda>c. c \<noteq> CHR 0x0A) chunk
      in if length l < length chunk then (l @ [CHR 0x0A], drop (Suc (length l)) s)
         else (chunk, drop (sz - 1) s))"

function fgets_all :: "string \<Rightarrow> string list" where
  "fgets_all s = (if s = [] then []
                  else (case fgets 1024 s of (line, rest) \<Rightarrow> line # fgets_all rest))"
  by pat_completeness auto
termination
  by (relation "measure length") (auto simp: fgets_def Let_def split: if_splits)

declare fgets_all.simps [simp del]

fun parse_lines ::
  "xns_env \<Rightarrow> string list \<Rightarrow> xns_state \<times> nat option \<Rightarrow> parse_error + xns_state \<times> nat option" where
  "parse_lines env [] s = Inr s"
| "parse_lines env (l # ls) s =
     (case parseLine env l s of Inl e \<Rightarrow> Inl e | Inr s1 \<Rightarrow> parse_lines env ls s1)"

text \<open>
  \<open>namespaceConfigFile\<close>: not given, not readable, or a text. A file that cannot be opened ends
  the server (\<open>FatalError\<close>), a null dereference in a line is \<open>Fault\<close>, and so is the final log of
  the namespaces with a null name, which C leaves undefined: \<open>printf\<close> gets a null pointer for \<open>%s\<close>.
\<close>

datatype config_file = NoConfigFile | CannotOpen | Contents string
datatype load_result = Loaded bool xns_state | FatalError | Fault

definition append_ndup :: "nat \<Rightarrow> Xnamespace \<Rightarrow> xns_state \<Rightarrow> xns_state" where
  "append_ndup i ns st =
     (if i < length (ns_list st) then st else st\<lparr> ns_list := ns_list st @ [ns] \<rparr>)"

definition XnsLoadConfig :: "xns_env \<Rightarrow> config_file \<Rightarrow> xns_state \<Rightarrow> load_result" where
  "XnsLoadConfig env file st =
     (let st1 = append_ndup ns_anon_idx ns_anon (append_ndup ns_root_idx ns_root st)
      in case file of
           NoConfigFile \<Rightarrow> Loaded False st1
         | CannotOpen \<Rightarrow> FatalError
         | Contents txt \<Rightarrow>
             (case parse_lines env (fgets_all txt) (st1, None) of
                Inl NullDeref \<Rightarrow> Fault
              | Inl AllocFatal \<Rightarrow> FatalError
              | Inr (st2, _) \<Rightarrow> if null_name st2 \<noteq> None then Fault else Loaded True st2))"

section \<open>Positions and names\<close>

lemma find_index_Some:
  "find_index P xs = Some i \<Longrightarrow> i < length xs \<and> P (xs ! i) \<and> (\<forall>j<i. \<not> P (xs ! j))"
proof (induction xs arbitrary: i)
  case (Cons x xs)
  show ?case
  proof (cases "P x")
    case False
    with Cons.prems obtain k where k: "find_index P xs = Some k" "i = Suc k" by auto
    with Cons.IH[OF k(1)] False show ?thesis by (auto simp: less_Suc_eq_0_disj)
  qed (use Cons.prems in auto)
qed simp

lemma find_index_None: "find_index P xs = None \<longleftrightarrow> (\<forall>x\<in>set xs. \<not> P x)"
  by (induction xs) auto

lemma find_index_eqI:
  assumes "i < length xs" "P (xs ! i)" "\<And>j. j < i \<Longrightarrow> \<not> P (xs ! j)"
  shows "find_index P xs = Some i"
proof (cases "find_index P xs")
  case None
  with assms(1,2) show ?thesis by (auto simp: find_index_None)
next
  case (Some k)
  then have "k < length xs" "P (xs ! k)" "\<forall>j<k. \<not> P (xs ! j)"
    using find_index_Some by metis+
  with assms have "k = i" by (metis nat_neq_iff)
  with Some show ?thesis by simp
qed

lemma find_index_append:
  "find_index P (xs @ ys) =
     (case find_index P xs of Some i \<Rightarrow> Some i
      | None \<Rightarrow> map_option ((+) (length xs)) (find_index P ys))"
proof (induction xs)
  case Nil
  have "(+) (0 :: nat) = id" by auto
  then show ?case by (simp add: option.map_id)
next
  case (Cons x xs)
  have "Suc \<circ> (+) n = (+) (Suc n)" for n by auto
  with Cons show ?case by (auto simp: option.map_comp split: option.splits)
qed

lemma find_index_map: "find_index P (map f xs) = find_index (P \<circ> f) xs"
  by (induction xs) auto

text \<open>The namespace of a name, as the file describes it: a name not yet known is empty.\<close>

definition lookup_ns :: "xns_state \<Rightarrow> string \<Rightarrow> Xnamespace" where
  "lookup_ns st n = (case XnsFindByName st n of Some i \<Rightarrow> ns_list st ! i | None \<Rightarrow> new_ns n)"

definition ns_wf :: "xns_state \<Rightarrow> bool" where
  "ns_wf st \<longleftrightarrow> null_name st = None \<and> 2 \<le> length (ns_list st)
     \<and> ns_name (ns_list st ! ns_root_idx) = NS_NAME_ROOT
     \<and> ns_name (ns_list st ! ns_anon_idx) = NS_NAME_ANONYMOUS
     \<and> distinct (map ns_name (ns_list st))
     \<and> list_all (\<lambda>ns. list_all (\<lambda>t. length (authTokenData t) = authTokenLen t) (auth_tokens ns))
         (ns_list st)"

lemma ns_wf_find:
  assumes "distinct (map ns_name (ns_list st))" "i < length (ns_list st)"
  shows "XnsFindByName st (ns_name (ns_list st ! i)) = Some i"
  unfolding XnsFindByName_def
proof (rule find_index_eqI)
  fix j assume "j < i"
  with assms show "ns_name (ns_list st ! j) \<noteq> ns_name (ns_list st ! i)"
    using nth_eq_iff_index_eq[OF assms(1), of j i] by simp
qed (use assms in auto)

lemma upd_ns_ns_list [ns_simps]:
  "ns_list (upd_ns i f st) = upd_nth i f (ns_list st)" "null_name (upd_ns i f st) = null_name st"
  by (simp_all add: upd_ns_def)

lemma XnsFindByName_upd:
  assumes "\<And>ns. ns_name (f ns) = ns_name ns"
  shows "XnsFindByName (upd_ns i f st) n = XnsFindByName st n"
proof -
  have "map ns_name (ns_list (upd_ns i f st)) = map ns_name (ns_list st)"
    by (simp add: ns_simps map_upd_nth assms)
  then have "find_index (\<lambda>m. m = n) (map ns_name (ns_list (upd_ns i f st)))
      = find_index (\<lambda>m. m = n) (map ns_name (ns_list st))" by simp
  then show ?thesis
    by (simp add: XnsFindByName_def find_index_map comp_def)
qed

lemma lookup_ns_upd:
  assumes wf: "ns_wf st" and i: "i < length (ns_list st)"
    and f: "\<And>ns. ns_name (f ns) = ns_name ns"
  shows "lookup_ns (upd_ns i f st) n =
     (if n = ns_name (ns_list st ! i) then f (lookup_ns st n) else lookup_ns st n)"
proof (cases "XnsFindByName st n")
  case None
  with wf i show ?thesis
    using ns_wf_find[of st i] by (auto simp: lookup_ns_def XnsFindByName_upd[OF f] ns_wf_def)
next
  case (Some k)
  then have k: "k < length (ns_list st)" "ns_name (ns_list st ! k) = n"
    unfolding XnsFindByName_def by (auto dest: find_index_Some)
  have "XnsFindByName st (ns_name (ns_list st ! i)) = Some i"
    using wf i by (intro ns_wf_find) (simp_all add: ns_wf_def)
  with Some k(2) have "k = i \<longleftrightarrow> n = ns_name (ns_list st ! i)"
    by (metis option.inject)
  moreover have "lookup_ns (upd_ns i f st) n = (if k = i then f (ns_list st ! k) else ns_list st ! k)"
    using Some k(1) by (simp add: lookup_ns_def XnsFindByName_upd[OF f] ns_simps)
  moreover have "lookup_ns st n = ns_list st ! k"
    using Some by (simp add: lookup_ns_def)
  ultimately show ?thesis by presburger
qed

text \<open>The two built in namespaces are recognised by name.\<close>

lemma ns_wf_builtins:
  assumes "ns_wf st"
  shows "ns_root_idx < length (ns_list st)" "ns_anon_idx < length (ns_list st)"
    "ns_name (ns_list st ! ns_root_idx) = NS_NAME_ROOT"
    "ns_name (ns_list st ! ns_anon_idx) = NS_NAME_ANONYMOUS"
    "distinct (map ns_name (ns_list st))"
  using assms unfolding ns_wf_def by linarith+

lemma ns_wf_name_iff:
  assumes wf: "ns_wf st" and i: "i < length (ns_list st)"
  shows "ns_name (ns_list st ! i) = NS_NAME_ROOT \<longleftrightarrow> i = ns_root_idx"
    "ns_name (ns_list st ! i) = NS_NAME_ANONYMOUS \<longleftrightarrow> i = ns_anon_idx"
proof -
  note b = ns_wf_builtins[OF wf]
  have "ns_name (ns_list st ! i) = ns_name (ns_list st ! j) \<longleftrightarrow> i = j" if "j < length (ns_list st)" for j
    using nth_eq_iff_index_eq[OF b(5), of i j] i that by simp
  from this[OF b(1)] this[OF b(2)]
  show "ns_name (ns_list st ! i) = NS_NAME_ROOT \<longleftrightarrow> i = ns_root_idx"
    "ns_name (ns_list st ! i) = NS_NAME_ANONYMOUS \<longleftrightarrow> i = ns_anon_idx"
    unfolding b(3,4) by blast+
qed

end
