(* ===== verification/NsConfigSpec.thy ===== *)
theory NsConfigSpec
  imports NsConfig
begin

text \<open>
  What a configuration file means, as a list of directives grouped by namespace, and the proof
  that the line by line parser of \<open>config.c\<close> implements it.
\<close>

section \<open>What one line does\<close>

text \<open>
  The abstract reading of a line: a directive, with the words of the line that matter. The
  definitions below are the specification of the file format; \<open>parseLine\<close> is shown to implement it.
\<close>

datatype directive =
    DNone
  | DNamespace string
  | DAuth string string
  | DAuthNoKey
  | DAllow "string list"
  | DSuper

definition line_directive :: "string \<Rightarrow> directive" where
  "line_directive line =
     (case strtok [CHR '' '', CHR 0x09] (line_text line) of
        (None, _) \<Rightarrow> DNone
      | (Some token, rest) \<Rightarrow>
          if token = ''namespace'' \<or> token = ''container'' then
            (case fst (strtok [CHR '' ''] rest) of None \<Rightarrow> DNone | Some name \<Rightarrow> DNamespace name)
          else if token = ''auth'' then
            (case strtok [CHR '' '', CHR 0x09] rest of
               (None, _) \<Rightarrow> DNone
             | (Some proto, rest1) \<Rightarrow>
                 (case fst (strtok [CHR '' ''] rest1) of
                    None \<Rightarrow> DAuthNoKey | Some key \<Rightarrow> DAuth proto key))
          else if token = ''allow'' then DAllow (strtok_all rest)
          else if token = ''superpower'' then DSuper
          else DNone)"

text \<open>The token of a key, its identifier left out, and the effect of a directive on a namespace.\<close>

definition key_bytes :: "string \<Rightarrow> u8 list" where
  "key_bytes key = (let out = fst (hex2bin key)
     in out @ replicate (length key div 2 - length out) 0)"

definition anon_token :: "auth_token \<Rightarrow> auth_token" where
  "anon_token t = t\<lparr> tokAuthId := 0 \<rparr>"

definition forget_ids :: "Xnamespace \<Rightarrow> Xnamespace" where
  "forget_ids ns = ns\<lparr> auth_tokens := map anon_token (auth_tokens ns) \<rparr>"

fun apply_directive :: "xns_env \<Rightarrow> directive \<Rightarrow> Xnamespace \<Rightarrow> Xnamespace" where
  "apply_directive env (DAuth proto key) ns =
     (if calloc_ok env (length key div 2)
      then ns\<lparr> auth_tokens := auth_tokens ns @
             [\<lparr> authProto = proto, authTokenData = key_bytes key,
                authTokenLen = length key div 2, tokAuthId = 0 \<rparr>] \<rparr>
      else ns)"
| "apply_directive env (DAllow ws) ns = fold allow_token ws ns"
| "apply_directive env DSuper ns = ns\<lparr> superPower := True \<rparr>"
| "apply_directive env _ ns = ns"

text \<open>The directives of a file with the namespace each belongs to, and those of one namespace.\<close>

fun sections :: "string \<Rightarrow> directive list \<Rightarrow> (string \<times> directive) list" where
  "sections cur [] = []"
| "sections cur (DNamespace n # ds) = sections n ds"
| "sections cur (d # ds) = (cur, d) # sections cur ds"

definition section_of :: "string \<Rightarrow> directive list \<Rightarrow> directive list" where
  "section_of n ds = map snd (filter (\<lambda>(m, _). m = n) (sections NS_NAME_ROOT ds))"

definition file_directives :: "string \<Rightarrow> directive list" where
  "file_directives txt = map line_directive (fgets_all txt)"

subsection \<open>Frames of the helpers\<close>

lemma allow_token_frame [ns_simps]:
  "ns_name (allow_token t ns) = ns_name ns"
  "auth_tokens (allow_token t ns) = auth_tokens ns"
  "superPower (allow_token t ns) = superPower ns"
  "refcnt (allow_token t ns) = refcnt ns"
  "rootWindow (allow_token t ns) = rootWindow ns"
  by (auto simp: allow_token_def)

lemma fold_allow_frame [ns_simps]:
  "ns_name (fold allow_token ts ns) = ns_name ns"
  "auth_tokens (fold allow_token ts ns) = auth_tokens ns"
  "superPower (fold allow_token ts ns) = superPower ns"
  "refcnt (fold allow_token ts ns) = refcnt ns"
  "rootWindow (fold allow_token ts ns) = rootWindow ns"
  by (induction ts arbitrary: ns) (auto simp: ns_simps)

lemma allow_token_forget: "allow_token t (forget_ids ns) = forget_ids (allow_token t ns)"
  by (simp add: allow_token_def forget_ids_def)

lemma fold_allow_forget: "fold allow_token ts (forget_ids ns) = forget_ids (fold allow_token ts ns)"
  by (induction ts arbitrary: ns) (simp_all add: allow_token_forget)

lemma AddAuthorization_ns_list [ns_simps]:
  "AddAuthorization env n d st = (i, st1) \<Longrightarrow> ns_list st1 = ns_list st \<and> null_name st1 = null_name st"
  by (auto simp: AddAuthorization_def MitAddCookie_def Let_def split: if_splits option.splits)

lemma hex2bin_length: "length (fst (hex2bin s)) \<le> length s div 2"
  by (induction s rule: hex2bin.induct) (auto simp: Let_def split: prod.splits)

lemma length_key_bytes [simp]: "length (key_bytes key) = length key div 2"
  using hex2bin_length[of key] by (simp add: key_bytes_def Let_def)

subsection \<open>The invariant of the namespace list\<close>

lemma ns_wf_upd:
  assumes "ns_wf st" "\<And>ns. ns_name (f ns) = ns_name ns"
    "\<And>ns. list_all (\<lambda>t. length (authTokenData t) = authTokenLen t) (auth_tokens ns) \<Longrightarrow>
          list_all (\<lambda>t. length (authTokenData t) = authTokenLen t) (auth_tokens (f ns))"
  shows "ns_wf (upd_ns i f st)"
proof -
  have "ns_list st \<noteq> []" using assms(1) by (auto simp: ns_wf_def)
  with assms show ?thesis
    by (auto simp: ns_wf_def ns_simps map_upd_nth intro!: list_all_upd_nth)
qed

lemma ns_wf_cong: "ns_list st' = ns_list st \<Longrightarrow> null_name st' = null_name st \<Longrightarrow> ns_wf st' = ns_wf st"
  by (simp add: ns_wf_def)

lemma lookup_ns_cong: "ns_list st' = ns_list st \<Longrightarrow> lookup_ns st' n = lookup_ns st n"
  by (simp add: lookup_ns_def XnsFindByName_def split: option.split)

lemma ns_wf_append:
  assumes "ns_wf st" "n \<notin> ns_name ` set (ns_list st)"
  shows "ns_wf (st\<lparr> ns_list := ns_list st @ [new_ns n] \<rparr>)"
  using assms by (auto simp: ns_wf_def nth_append new_ns_def)

lemma lookup_ns_append:
  assumes "m \<notin> ns_name ` set (ns_list st)"
  shows "lookup_ns (st\<lparr> ns_list := ns_list st @ [new_ns m] \<rparr>) n = lookup_ns st n"
proof (cases "XnsFindByName st n")
  case None
  then show ?thesis
    by (auto simp: lookup_ns_def XnsFindByName_def find_index_append new_ns_def nth_append)
next
  case (Some i)
  moreover have "i < length (ns_list st)"
    using Some by (auto simp: XnsFindByName_def dest: find_index_Some)
  ultimately show ?thesis
    by (auto simp: lookup_ns_def XnsFindByName_def find_index_append nth_append)
qed

text \<open>
  \<open>select_ns\<close> finds or makes the namespace, and changes no other, as long as it leaves no null
  name behind; a null name stays.
\<close>

lemma select_ns_correct:
  assumes wf: "ns_wf st" and sel: "select_ns env n st = Inr (i, st1)" and nn: "null_name st1 = None"
  shows "ns_wf st1" "i < length (ns_list st1)" "ns_name (ns_list st1 ! i) = n"
    "lookup_ns st1 m = lookup_ns st m"
proof -
  have nd: "named st = ns_list st" and n0: "null_name st = None"
    using wf by (simp_all add: named_def ns_wf_def)
  have "ns_wf st1 \<and> i < length (ns_list st1) \<and> ns_name (ns_list st1 ! i) = n
      \<and> lookup_ns st1 m = lookup_ns st m"
  proof (cases "find_index (\<lambda>ns. ns_name ns = n) (ns_list st)")
    case None
    then have new: "n \<notin> ns_name ` set (ns_list st)" by (auto simp: find_index_None)
    have "ns_name (new_ns n) = n" by (simp add: new_ns_def)
    with None new sel nn wf show ?thesis
      by (auto simp: select_ns_def nd n0 ns_wf_append lookup_ns_append split: if_splits)
  next
    case (Some k)
    with sel wf find_index_Some[OF Some] show ?thesis by (auto simp: select_ns_def nd)
  qed
  then show "ns_wf st1" "i < length (ns_list st1)" "ns_name (ns_list st1 ! i) = n"
    "lookup_ns st1 m = lookup_ns st m" by blast+
qed

lemma select_ns_null_name: "select_ns env n st = Inr (i, st1) \<Longrightarrow> null_name st1 = None \<Longrightarrow> null_name st = None"
  by (auto simp: select_ns_def split: option.splits if_splits)

lemma map_sum_Inr_iff: "map_sum f g x = Inr y \<longleftrightarrow> (\<exists>z. x = Inr z \<and> g z = y)"
  by (cases x) auto

subsection \<open>One line\<close>

text \<open>The name of the namespace the parser is in.\<close>

definition cur_name :: "xns_state \<Rightarrow> nat option \<Rightarrow> string" where
  "cur_name st walk = ns_name (ns_list st ! (case walk of Some w \<Rightarrow> w | None \<Rightarrow> ns_root_idx))"

definition walk_ok :: "xns_state \<Rightarrow> nat option \<Rightarrow> bool" where
  "walk_ok st walk \<longleftrightarrow> (case walk of Some w \<Rightarrow> w < length (ns_list st) | None \<Rightarrow> True)"

definition parser_ok :: "xns_state \<times> nat option \<Rightarrow> bool" where
  "parser_ok s \<longleftrightarrow> ns_wf (fst s) \<and> walk_ok (fst s) (snd s)"

text \<open>An update of the current namespace, seen through the names.\<close>

lemma parser_update:
  assumes ok: "parser_ok (st, walk)"
    and cur: "cur = (case walk of Some w \<Rightarrow> w | None \<Rightarrow> ns_root_idx)"
    and f: "\<And>ns. ns_name (f ns) = ns_name ns"
      "\<And>ns. list_all (\<lambda>t. length (authTokenData t) = authTokenLen t) (auth_tokens ns) \<Longrightarrow>
          list_all (\<lambda>t. length (authTokenData t) = authTokenLen t) (auth_tokens (f ns))"
  shows "parser_ok (upd_ns cur f st, walk)"
    "cur_name (upd_ns cur f st) walk = cur_name st walk"
    "lookup_ns (upd_ns cur f st) n =
       (if n = cur_name st walk then f (lookup_ns st n) else lookup_ns st n)"
proof -
  have i: "cur < length (ns_list st)" and wf: "ns_wf st"
    using ok cur by (auto simp: parser_ok_def walk_ok_def ns_wf_def split: option.splits)
  show "parser_ok (upd_ns cur f st, walk)"
    using ok ns_wf_upd[OF wf f] by (auto simp: parser_ok_def walk_ok_def ns_simps split: option.splits)
  show "cur_name (upd_ns cur f st) walk = cur_name st walk"
    using i cur by (simp add: cur_name_def ns_simps f)
  show "lookup_ns (upd_ns cur f st) n =
       (if n = cur_name st walk then f (lookup_ns st n) else lookup_ns st n)"
    using lookup_ns_upd[OF wf i f(1)] cur by (simp add: cur_name_def)
qed

text \<open>The result of storing a token once its own record is allocated, as the \<open>auth\<close> branch leaves it.\<close>

definition store_token ::
  "xns_env \<Rightarrow> string \<Rightarrow> string \<Rightarrow> nat \<Rightarrow> xns_state \<Rightarrow> parse_error + xns_state" where
  "store_token env proto key cur st =
     (if \<not> calloc_ok env (length key div 2) then Inr st
      else if \<not> calloc_ok env (Suc (length proto)) then Inl NullDeref
      else case AddAuthorization env proto (key_bytes key) st of
        (i, st1) \<Rightarrow> Inr (upd_ns cur (\<lambda>ns. ns\<lparr> auth_tokens := auth_tokens ns @
           [\<lparr> authProto = proto, authTokenData = key_bytes key,
              authTokenLen = length key div 2, tokAuthId = i \<rparr>] \<rparr>) st1))"

lemma parse_auth_directive:
  "parse_auth env rest cur st =
     (case (case strtok [CHR '' '', CHR 0x09] rest of
              (None, _) \<Rightarrow> DNone
            | (Some proto, rest1) \<Rightarrow>
                (case fst (strtok [CHR '' ''] rest1) of
                   None \<Rightarrow> DAuthNoKey | Some key \<Rightarrow> DAuth proto key)) of
        DNone \<Rightarrow> Inr st
      | DAuth p k \<Rightarrow> if \<not> calloc_ok env (sizeof_auth_token env) then Inl AllocFatal
                    else store_token env p k cur st
      | _ \<Rightarrow> Inl (if \<not> calloc_ok env (sizeof_auth_token env) then AllocFatal else NullDeref))"
proof (cases "strtok [CHR '' '', CHR 0x09] rest")
  case (Pair tk rest1)
  then show ?thesis
    by (cases tk; cases "fst (strtok [CHR '' ''] rest1)")
      (simp_all add: parse_auth_def store_token_def key_bytes_def Let_def split: prod.splits)
qed

text \<open>One directive executed on the parser's state.\<close>

fun exec_directive ::
  "xns_env \<Rightarrow> directive \<Rightarrow> xns_state \<times> nat option \<Rightarrow> parse_error + xns_state \<times> nat option" where
  "exec_directive env d (st, walk) =
     (let cur = (case walk of Some w \<Rightarrow> w | None \<Rightarrow> ns_root_idx) in
      case d of
        DNone \<Rightarrow> Inr (st, walk)
      | DNamespace n \<Rightarrow> map_sum id (\<lambda>(i, st1). (st1, Some i)) (select_ns env n st)
      | DAuth p k \<Rightarrow>
          if \<not> calloc_ok env (sizeof_auth_token env) then Inl AllocFatal
          else map_sum id (\<lambda>st1. (st1, walk)) (store_token env p k cur st)
      | DAuthNoKey \<Rightarrow> Inl (if \<not> calloc_ok env (sizeof_auth_token env) then AllocFatal else NullDeref)
      | DAllow ws \<Rightarrow> Inr (upd_ns cur (fold allow_token ws) st, walk)
      | DSuper \<Rightarrow> Inr (upd_ns cur (\<lambda>ns. ns\<lparr> superPower := True \<rparr>) st, walk))"

lemma parseLine_exec:
  "parseLine env line (st, walk) = exec_directive env (line_directive line) (st, walk)"
proof (cases "strtok [CHR '' '', CHR 0x09] (line_text line)")
  case (Pair tk rest)
  show ?thesis
  proof (cases tk)
    case None
    with Pair show ?thesis by (simp add: parseLine_def line_directive_def)
  next
    case (Some token)
    note tok = Pair[unfolded Some]
    consider (ns) "token = ''namespace'' \<or> token = ''container''"
      | (auth) "token = ''auth''" | (allow) "token = ''allow''" | (super) "token = ''superpower''"
      | (other) "token \<notin> {''namespace'', ''container'', ''auth'', ''allow'', ''superpower''}"
      by auto
    then show ?thesis
    proof (cases)
      case ns
      then have l: "parseLine env line (st, walk) =
          (case fst (strtok [CHR '' ''] rest) of None \<Rightarrow> Inr (st, walk)
           | Some name \<Rightarrow> map_sum id (\<lambda>(i, st1). (st1, Some i)) (select_ns env name st))"
        and d: "line_directive line =
          (case fst (strtok [CHR '' ''] rest) of None \<Rightarrow> DNone | Some name \<Rightarrow> DNamespace name)"
        using tok by (simp_all add: parseLine_def line_directive_def)
      show ?thesis unfolding l d by (cases "fst (strtok [CHR '' ''] rest)") simp_all
    next
      case auth
      obtain tk2 r2 where t2: "strtok [CHR '' '', CHR 0x09] rest = (tk2, r2)" by fastforce
      with auth tok show ?thesis
        by (cases tk2; cases "fst (strtok [CHR '' ''] r2)")
          (simp_all add: parseLine_def line_directive_def parse_auth_directive)
    next
      case allow
      with tok show ?thesis by (simp add: parseLine_def line_directive_def Let_def)
    next
      case super
      with tok show ?thesis by (simp add: parseLine_def line_directive_def Let_def)
    next
      case other
      with tok show ?thesis by (simp add: parseLine_def line_directive_def Let_def)
    qed
  qed
qed

lemmas parseLine_directive = parseLine_exec[unfolded exec_directive.simps]

fun exec_directives ::
  "xns_env \<Rightarrow> directive list \<Rightarrow> xns_state \<times> nat option \<Rightarrow> parse_error + xns_state \<times> nat option" where
  "exec_directives env [] s = Inr s"
| "exec_directives env (d # ds) s =
     (case exec_directive env d s of Inl e \<Rightarrow> Inl e | Inr s1 \<Rightarrow> exec_directives env ds s1)"

lemma parse_lines_exec: "parse_lines env ls s = exec_directives env (map line_directive ls) s"
proof (induction ls arbitrary: s)
  case (Cons l ls)
  then have "parse_lines env ls = exec_directives env (map line_directive ls)" by blast
  then show ?case
    by (cases s) (simp add: parseLine_exec del: exec_directive.simps split: sum.split)
qed simp

lemma store_token_correct:
  assumes ok: "parser_ok (st, walk)"
    and cur: "cur = (case walk of Some w \<Rightarrow> w | None \<Rightarrow> ns_root_idx)"
    and store: "store_token env p k cur st = Inr st2"
  shows "parser_ok (st2, walk)" "cur_name st2 walk = cur_name st walk"
    "forget_ids (lookup_ns st2 n) =
       (if n = cur_name st walk then apply_directive env (DAuth p k) (forget_ids (lookup_ns st n))
        else forget_ids (lookup_ns st n))"
proof -
  obtain i st1 where add: "AddAuthorization env p (key_bytes k) st = (i, st1)" by fastforce
  have nl: "ns_list st1 = ns_list st" and nn: "null_name st1 = null_name st"
    using AddAuthorization_ns_list[OF add] by blast+
  have ok1: "parser_ok (st1, walk)"
    using ok ns_wf_cong[OF nl nn] unfolding parser_ok_def walk_ok_def fst_conv snd_conv nl by simp
  let ?f = "\<lambda>ns. ns\<lparr> auth_tokens := auth_tokens ns @
     [\<lparr> authProto = p, authTokenData = key_bytes k,
        authTokenLen = length k div 2, tokAuthId = i \<rparr>] \<rparr>"
  have st': "st2 = (if calloc_ok env (length k div 2) then upd_ns cur ?f st1 else st)"
    using add store by (auto simp: store_token_def split: if_splits)
  have cn: "cur_name st1 walk = cur_name st walk" using nl by (simp add: cur_name_def)
  have lk: "lookup_ns st1 n = lookup_ns st n" by (rule lookup_ns_cong[OF nl])
  have f: "\<And>ns. ns_name (?f ns) = ns_name ns"
    "\<And>ns. list_all (\<lambda>t. length (authTokenData t) = authTokenLen t) (auth_tokens ns) \<Longrightarrow>
      list_all (\<lambda>t. length (authTokenData t) = authTokenLen t) (auth_tokens (?f ns))"
    by simp_all
  note upd = parser_update[OF ok1 cur f]
  show "parser_ok (st2, walk)" using ok upd(1) st' by simp
  show "cur_name st2 walk = cur_name st walk" using upd(2) st' cn by simp
  show "forget_ids (lookup_ns st2 n) =
       (if n = cur_name st walk then apply_directive env (DAuth p k) (forget_ids (lookup_ns st n))
        else forget_ids (lookup_ns st n))"
  proof -
    have "lookup_ns st2 n =
        (if calloc_ok env (length k div 2) \<and> n = cur_name st walk then ?f (lookup_ns st n)
         else lookup_ns st n)"
      unfolding st' using upd(3)[of n, unfolded cn lk] lk by presburger
    then show ?thesis by (simp add: forget_ids_def anon_token_def)
  qed
qed

lemma store_token_null_name: "store_token env p k cur st = Inr st2 \<Longrightarrow> null_name st2 = null_name st"
  by (auto simp: store_token_def ns_simps dest: AddAuthorization_ns_list split: if_splits prod.splits)

lemma parseLine_null_name:
  "parseLine env line (st, walk) = Inr (st1, walk1) \<Longrightarrow> null_name st1 = None \<Longrightarrow> null_name st = None"
  by (auto simp: parseLine_directive ns_simps Let_def map_sum_Inr_iff
      dest: select_ns_null_name store_token_null_name split: directive.splits if_splits)

lemma parse_lines_null_name:
  "parse_lines env ls s = Inr s1 \<Longrightarrow> null_name (fst s1) = None \<Longrightarrow> null_name (fst s) = None"
proof (induction ls arbitrary: s)
  case (Cons l ls)
  then obtain s2 where p: "parseLine env l s = Inr s2" and r: "parse_lines env ls s2 = Inr s1"
    by (auto split: sum.splits)
  from Cons.IH[OF r Cons.prems(2)] p show ?case
    by (cases s; cases s2) (auto dest: parseLine_null_name)
qed simp

text \<open>The section a directive leaves the parser in.\<close>

fun next_section :: "directive \<Rightarrow> string \<Rightarrow> string" where
  "next_section (DNamespace n) cur = n"
| "next_section d cur = cur"

lemma parseLine_step:
  assumes ok: "parser_ok (st, walk)"
    and step: "parseLine env line (st, walk) = Inr (st1, walk1)" and nn: "null_name st1 = None"
  shows "parser_ok (st1, walk1)"
    "cur_name st1 walk1 = next_section (line_directive line) (cur_name st walk)"
    "forget_ids (lookup_ns st1 n) =
       (if n = cur_name st walk then apply_directive env (line_directive line) (forget_ids (lookup_ns st n))
        else forget_ids (lookup_ns st n))"
proof -
  let ?cur = "case walk of Some w \<Rightarrow> w | None \<Rightarrow> ns_root_idx"
  have "parser_ok (st1, walk1)
    \<and> cur_name st1 walk1 = next_section (line_directive line) (cur_name st walk)
    \<and> forget_ids (lookup_ns st1 n) =
       (if n = cur_name st walk then apply_directive env (line_directive line) (forget_ids (lookup_ns st n))
        else forget_ids (lookup_ns st n))"
  proof (cases "line_directive line")
    case (DNamespace m)
    obtain i where sel: "select_ns env m st = Inr (i, st1)" and w: "walk1 = Some i"
      using step DNamespace by (auto simp: parseLine_directive map_sum_Inr_iff)
    have "ns_wf st" using ok by (simp add: parser_ok_def)
    note c = select_ns_correct[OF this sel nn]
    show ?thesis using c w DNamespace by (simp add: parser_ok_def walk_ok_def cur_name_def)
  next
    case (DAuth p k)
    then have "store_token env p k ?cur st = Inr st1" "walk1 = walk"
      using step by (auto simp: parseLine_directive map_sum_Inr_iff split: if_splits)
    then show ?thesis using store_token_correct[OF ok refl] DAuth
      by (simp del: apply_directive.simps)
  next
    case (DAllow ws)
    then have "st1 = upd_ns ?cur (fold allow_token ws) st" "walk1 = walk"
      using step by (auto simp: parseLine_directive)
    then show ?thesis
      using parser_update[OF ok refl, of "fold allow_token ws"] DAllow
      by (simp add: ns_simps fold_allow_forget)
  next
    case DSuper
    then have "st1 = upd_ns ?cur (\<lambda>ns. ns\<lparr> superPower := True \<rparr>) st" "walk1 = walk"
      using step by (auto simp: parseLine_directive)
    then show ?thesis
      using parser_update[OF ok refl, of "\<lambda>ns. ns\<lparr> superPower := True \<rparr>"] DSuper
      by (simp add: forget_ids_def)
  qed (use step ok in \<open>simp_all add: parseLine_directive\<close>)
  then show "parser_ok (st1, walk1)"
    "cur_name st1 walk1 = next_section (line_directive line) (cur_name st walk)"
    "forget_ids (lookup_ns st1 n) =
       (if n = cur_name st walk then apply_directive env (line_directive line) (forget_ids (lookup_ns st n))
        else forget_ids (lookup_ns st n))"
    by blast+
qed

subsection \<open>The whole file\<close>

definition fold_section :: "xns_env \<Rightarrow> string \<Rightarrow> (string \<times> directive) list \<Rightarrow> Xnamespace \<Rightarrow> Xnamespace" where
  "fold_section env n sds ns = fold (apply_directive env) (map snd (filter (\<lambda>(m, _). m = n) sds)) ns"

lemma sections_step:
  "fold_section env n (sections cur (d # ds)) ns =
     fold_section env n (sections (next_section d cur) ds)
       (if n = cur then apply_directive env d ns else ns)"
  by (cases d) (auto simp: fold_section_def)

lemma parse_lines_sections:
  assumes "parser_ok (st, walk)" "parse_lines env ls (st, walk) = Inr (st1, walk1)" "null_name st1 = None"
  shows "parser_ok (st1, walk1) \<and>
    forget_ids (lookup_ns st1 n) =
      fold_section env n (sections (cur_name st walk) (map line_directive ls)) (forget_ids (lookup_ns st n))"
  using assms
proof (induction ls arbitrary: st walk)
  case Nil
  then show ?case by (simp add: fold_section_def)
next
  case (Cons l ls)
  obtain st2 walk2 where s: "parseLine env l (st, walk) = Inr (st2, walk2)"
    and r: "parse_lines env ls (st2, walk2) = Inr (st1, walk1)"
    using Cons.prems(2) by (auto split: sum.splits)
  have "null_name st2 = None" using parse_lines_null_name[OF r] Cons.prems(3) by simp
  note step = parseLine_step[OF Cons.prems(1) s this]
  show ?case
    using Cons.IH[OF step(1) r Cons.prems(3)] step(2,3) by (simp add: sections_step)
qed

section \<open>Loading a file\<close>

text \<open>The record a name starts from: one of the two built in namespaces, or an empty one.\<close>

definition initial_ns :: "string \<Rightarrow> Xnamespace" where
  "initial_ns n = (if n = NS_NAME_ROOT then ns_root
                   else if n = NS_NAME_ANONYMOUS then ns_anon else new_ns n)"

definition xns_builtin :: xns_state where
  "xns_builtin = append_ndup ns_anon_idx ns_anon (append_ndup ns_root_idx ns_root xns_boot)"

lemma xns_builtin_list: "ns_list xns_builtin = [ns_root, ns_anon]" "null_name xns_builtin = None"
  by (simp_all add: xns_builtin_def append_ndup_def xns_boot_def)

lemma ns_wf_builtin: "ns_wf xns_builtin"
  by (simp add: ns_wf_def xns_builtin_list ns_root_def ns_anon_def NS_NAME_ROOT_def NS_NAME_ANONYMOUS_def)

lemma lookup_builtin: "lookup_ns xns_builtin n = initial_ns n"
  by (auto simp: lookup_ns_def XnsFindByName_def xns_builtin_list initial_ns_def ns_root_def
      ns_anon_def NS_NAME_ROOT_def NS_NAME_ANONYMOUS_def)

lemma initial_forget: "forget_ids (initial_ns n) = initial_ns n"
  by (simp add: initial_ns_def forget_ids_def ns_root_def ns_anon_def new_ns_def)

lemma load_sections:
  assumes "XnsLoadConfig env (Contents txt) xns_boot = Loaded b st"
  shows "ns_wf st"
    "forget_ids (lookup_ns st n) =
       fold (apply_directive env) (section_of n (file_directives txt)) (initial_ns n)"
proof -
  obtain w where p: "parse_lines env (fgets_all txt) (xns_builtin, None) = Inr (st, w)"
    and nn: "null_name st = None"
    using assms
    by (auto simp: XnsLoadConfig_def xns_builtin_def Let_def split: sum.splits parse_error.splits if_splits)
  have ok: "parser_ok (xns_builtin, None)"
    by (simp add: parser_ok_def walk_ok_def ns_wf_builtin)
  have cur: "cur_name xns_builtin None = NS_NAME_ROOT"
    by (simp add: cur_name_def xns_builtin_list ns_root_def)
  note P = parse_lines_sections[OF ok p nn, of n, unfolded cur lookup_builtin initial_forget]
  from P show "ns_wf st" by (simp add: parser_ok_def)
  from P show "forget_ids (lookup_ns st n) =
      fold (apply_directive env) (section_of n (file_directives txt)) (initial_ns n)"
    by (simp add: fold_section_def section_of_def file_directives_def)
qed

text \<open>Every listed namespace is the one its name stands for.\<close>

lemma lookup_ns_nth:
  assumes "ns_wf st" "i < length (ns_list st)"
  shows "lookup_ns st (ns_name (ns_list st ! i)) = ns_list st ! i"
  using assms by (simp add: lookup_ns_def ns_wf_find ns_wf_def)

lemma lookup_ns_listed:
  assumes "lookup_ns st n \<noteq> new_ns n"
  obtains i where "i < length (ns_list st)" "ns_name (ns_list st ! i) = n" "ns_list st ! i = lookup_ns st n"
  using assms
  by (cases "XnsFindByName st n") (auto simp: lookup_ns_def XnsFindByName_def dest: find_index_Some)

lemma fold_directive_superPower:
  "superPower (fold (apply_directive env) ds ns) \<longleftrightarrow> superPower ns \<or> DSuper \<in> set ds"
proof (induction ds arbitrary: ns)
  case (Cons d ds)
  then show ?case by (cases d) (auto simp: ns_simps)
qed simp

text \<open>The tokens a list of directives leaves, identifiers left out.\<close>

lemma fold_directive_tokens:
  "auth_tokens (fold (apply_directive env) ds ns) =
     auth_tokens ns @
     concat (map (\<lambda>d. case d of
        DAuth p k \<Rightarrow> if calloc_ok env (length k div 2)
          then [\<lparr> authProto = p, authTokenData = key_bytes k,
                  authTokenLen = length k div 2, tokAuthId = 0 \<rparr>] else []
      | _ \<Rightarrow> []) ds)"
proof (induction ds arbitrary: ns)
  case (Cons d ds)
  then show ?case by (cases d) (auto simp: ns_simps)
qed simp

lemma forget_ids_frame [ns_simps]:
  "superPower (forget_ids ns) = superPower ns"
  "ns_name (forget_ids ns) = ns_name ns"
  "allowShape (forget_ids ns) = allowShape ns"
  "auth_tokens (forget_ids ns) = map anon_token (auth_tokens ns)"
  by (simp_all add: forget_ids_def)

lemma token_matches_iff:
  assumes "length (authTokenData t) = authTokenLen t"
  shows "token_matches proto token t \<longleftrightarrow> authProto t = proto \<and> authTokenData t = token"
  using assms by (auto simp: token_matches_def)

text \<open>Which credentials a namespace holds after loading, read off the file.\<close>

lemma load_tokens:
  assumes load: "XnsLoadConfig env (Contents txt) xns_boot = Loaded b st"
    and i: "i < length (ns_list st)"
  shows "list_ex (token_matches proto token) (auth_tokens (ns_list st ! i)) \<longleftrightarrow>
    (\<exists>k. DAuth proto k \<in> set (section_of (ns_name (ns_list st ! i)) (file_directives txt))
       \<and> calloc_ok env (length k div 2) \<and> key_bytes k = token)"
proof -
  let ?ns = "ns_list st ! i"
  let ?ds = "section_of (ns_name ?ns) (file_directives txt)"
  have wf: "ns_wf st" using load_sections(1)[OF load] .
  have lens: "length (authTokenData t) = authTokenLen t" if "t \<in> set (auth_tokens ?ns)" for t
    using wf i that by (auto simp: ns_wf_def list_all_iff)
  have "map anon_token (auth_tokens ?ns) =
      auth_tokens (fold (apply_directive env) ?ds (initial_ns (ns_name ?ns)))"
    using load_sections(2)[OF load, of "ns_name ?ns"] lookup_ns_nth[OF wf i]
    by (metis forget_ids_frame(4))
  then have toks: "map anon_token (auth_tokens ?ns) =
      auth_tokens (fold (apply_directive env) ?ds (initial_ns (ns_name ?ns)))" .
  have init: "auth_tokens (initial_ns (ns_name ?ns)) = []"
    by (simp add: initial_ns_def ns_root_def ns_anon_def new_ns_def)
  have "list_ex (token_matches proto token) (auth_tokens ?ns) \<longleftrightarrow>
      (\<exists>t \<in> set (map anon_token (auth_tokens ?ns)). authProto t = proto \<and> authTokenData t = token)"
    using lens by (auto simp: list_ex_iff token_matches_iff anon_token_def)
  also have "\<dots> \<longleftrightarrow> (\<exists>k. DAuth proto k \<in> set ?ds \<and> calloc_ok env (length k div 2) \<and> key_bytes k = token)"
    unfolding toks fold_directive_tokens init
    by (fastforce split: directive.splits if_splits)
  finally show ?thesis .
qed

section \<open>How loading ends\<close>

text \<open>
  The outcome of reading directives, from the names known so far and whether a null name has been
  left behind: \<open>None\<close> if reading goes through, otherwise how the first failing directive, or the
  final log of the names, ends the program.
\<close>

fun verdict :: "xns_env \<Rightarrow> string set \<Rightarrow> bool \<Rightarrow> directive list \<Rightarrow> parse_error option" where
  "verdict env known null [] = (if null then Some NullDeref else None)"
| "verdict env known null (DNamespace n # ds) =
     (if n \<in> known then verdict env known null ds
      else if null \<or> \<not> calloc_ok env (sizeof_Xnamespace env) then Some NullDeref
      else if calloc_ok env (Suc (length n)) then verdict env (insert n known) False ds
      else verdict env known True ds)"
| "verdict env known null (DAuth p k # ds) =
     (if \<not> calloc_ok env (sizeof_auth_token env) then Some AllocFatal
      else if calloc_ok env (length k div 2) \<and> \<not> calloc_ok env (Suc (length p)) then Some NullDeref
      else verdict env known null ds)"
| "verdict env known null (DAuthNoKey # ds) =
     Some (if calloc_ok env (sizeof_auth_token env) then NullDeref else AllocFatal)"
| "verdict env known null (_ # ds) = verdict env known null ds"

lemma named_upd_ns:
  assumes "\<And>ns. ns_name (f ns) = ns_name ns"
  shows "ns_name ` set (named (upd_ns i f st)) = ns_name ` set (named st)"
proof -
  have "map ns_name (upd_nth i f xs) = map ns_name xs" for xs by (simp add: map_upd_nth assms)
  then have "map ns_name (named (upd_ns i f st)) = map ns_name (named st)"
    by (simp add: named_def ns_simps take_map[symmetric] split: option.split)
  then show ?thesis by (metis list.set_map)
qed

lemma exec_directives_verdict:
  "(case exec_directives env ds (st, walk) of
      Inl e \<Rightarrow> Some e
    | Inr (st1, _) \<Rightarrow> if null_name st1 \<noteq> None then Some NullDeref else None)
   = verdict env (ns_name ` set (named st)) (null_name st \<noteq> None) ds"
proof (induction ds arbitrary: st walk)
  case (Cons d ds)
  let ?cur = "case walk of Some w \<Rightarrow> w | None \<Rightarrow> ns_root_idx"
  have upd: "verdict env (ns_name ` set (named (upd_ns ?cur f st))) (null_name (upd_ns ?cur f st) \<noteq> None) ds
      = verdict env (ns_name ` set (named st)) (null_name st \<noteq> None) ds"
    if "\<And>ns. ns_name (f ns) = ns_name ns" for f
    using named_upd_ns[of f ?cur st, OF that] by (simp add: ns_simps)
  show ?case
  proof (cases d)
    case (DNamespace n)
    show ?thesis
    proof (cases "find_index (\<lambda>ns. ns_name ns = n) (named st)")
      case None
      then have "n \<notin> ns_name ` set (named st)" by (auto simp: find_index_None)
      with None DNamespace show ?thesis
        by (auto simp: select_ns_def Cons.IH named_def new_ns_def)
    next
      case (Some i)
      then have "n \<in> ns_name ` set (named st)" using find_index_Some[OF Some] by (metis image_eqI nth_mem)
      with Some DNamespace show ?thesis by (simp add: select_ns_def Cons.IH)
    qed
  next
    case (DAuth p k)
    obtain i st1 where add: "AddAuthorization env p (key_bytes k) st = (i, st1)" by fastforce
    have nl: "ns_list st1 = ns_list st" and nn: "null_name st1 = null_name st"
      using AddAuthorization_ns_list[OF add] by blast+
    then have "named st1 = named st" by (simp add: named_def split: option.split)
    moreover have "ns_name ` set (named (upd_ns ?cur (\<lambda>ns. ns\<lparr> auth_tokens := auth_tokens ns @ [t] \<rparr>) st1))
        = ns_name ` set (named st1)" for t by (rule named_upd_ns) simp
    ultimately show ?thesis using add DAuth nn by (simp add: store_token_def Cons.IH ns_simps)
  next
    case (DAllow ws)
    then show ?thesis using upd[of "fold allow_token ws"] by (simp add: Cons.IH ns_simps)
  next
    case DSuper
    then show ?thesis using upd[of "\<lambda>ns. ns\<lparr> superPower := True \<rparr>"] by (simp add: Cons.IH)
  qed (simp_all add: Cons.IH)
qed simp

definition load_verdict :: "xns_env \<Rightarrow> string \<Rightarrow> parse_error option" where
  "load_verdict env txt =
     verdict env {NS_NAME_ROOT, NS_NAME_ANONYMOUS} False (file_directives txt)"

lemma load_verdict:
  "XnsLoadConfig env (Contents txt) xns_boot = Fault \<longleftrightarrow> load_verdict env txt = Some NullDeref"
  "XnsLoadConfig env (Contents txt) xns_boot = FatalError \<longleftrightarrow> load_verdict env txt = Some AllocFatal"
  "(\<exists>st. XnsLoadConfig env (Contents txt) xns_boot = Loaded True st) \<longleftrightarrow> load_verdict env txt = None"
proof -
  have "ns_name ` set (named xns_builtin) = {NS_NAME_ROOT, NS_NAME_ANONYMOUS}"
    by (simp add: named_def xns_builtin_list ns_root_def ns_anon_def)
  note v = exec_directives_verdict[of env "file_directives txt" xns_builtin None, unfolded this,
      folded load_verdict_def]
  have "load_verdict env txt =
      (case parse_lines env (fgets_all txt) (xns_builtin, None) of
         Inl e \<Rightarrow> Some e
       | Inr (st1, _) \<Rightarrow> if null_name st1 \<noteq> None then Some NullDeref else None)"
    using v by (simp add: parse_lines_exec file_directives_def load_verdict_def xns_builtin_list)
  then show "XnsLoadConfig env (Contents txt) xns_boot = Fault \<longleftrightarrow> load_verdict env txt = Some NullDeref"
    "XnsLoadConfig env (Contents txt) xns_boot = FatalError \<longleftrightarrow> load_verdict env txt = Some AllocFatal"
    "(\<exists>st. XnsLoadConfig env (Contents txt) xns_boot = Loaded True st) \<longleftrightarrow> load_verdict env txt = None"
    by (auto simp: XnsLoadConfig_def xns_builtin_def Let_def split: sum.splits parse_error.splits)
qed

text \<open>When a directive is executed without harm, whatever stands around it.\<close>

fun directive_ok :: "xns_env \<Rightarrow> directive \<Rightarrow> bool" where
  "directive_ok env (DNamespace n) \<longleftrightarrow> n \<in> {NS_NAME_ROOT, NS_NAME_ANONYMOUS} \<or>
     calloc_ok env (sizeof_Xnamespace env) \<and> calloc_ok env (Suc (length n))"
| "directive_ok env (DAuth p k) \<longleftrightarrow> calloc_ok env (sizeof_auth_token env) \<and>
     (\<not> calloc_ok env (length k div 2) \<or> calloc_ok env (Suc (length p)))"
| "directive_ok env DAuthNoKey \<longleftrightarrow> False"
| "directive_ok env _ \<longleftrightarrow> True"

lemma verdict_null: "verdict env known True ds \<noteq> None"
  by (induction ds) (simp, case_tac a, auto)

lemma verdict_None:
  assumes "{NS_NAME_ROOT, NS_NAME_ANONYMOUS} \<subseteq> known"
    and "\<And>n. n \<in> known \<Longrightarrow> directive_ok env (DNamespace n)"
  shows "verdict env known False ds = None \<longleftrightarrow> list_all (directive_ok env) ds"
  using assms
proof (induction ds arbitrary: known)
  case (Cons d ds)
  show ?case
  proof (cases d)
    case (DNamespace n)
    then show ?thesis 
      using Cons.IH[of known] Cons.IH[of "insert n known"] Cons.prems verdict_null[of env known ds]
      by (cases "n \<in> known"; cases "calloc_ok env (Suc (length n))") auto
  next
    case (DAuth p k)
    then show ?thesis using Cons.IH[of known] Cons.prems by auto
  qed (use Cons.IH[of known] Cons.prems in auto)
qed simp

lemma load_verdict_None: "load_verdict env txt = None \<longleftrightarrow> list_all (directive_ok env) (file_directives txt)"
  unfolding load_verdict_def by (rule verdict_None) auto

lemma verdict_all_ok:
  assumes "\<And>n. calloc_ok env n"
  shows "verdict env known False ds = (if DAuthNoKey \<in> set ds then Some NullDeref else None)"
proof (induction ds arbitrary: known)
  case (Cons d ds)
  then show ?case by (cases d) (simp_all add: assms)
qed simp

lemma load_ok:
  assumes "list_all (directive_ok env) (file_directives txt)"
  obtains st where "XnsLoadConfig env (Contents txt) xns_boot = Loaded True st"
  using assms load_verdict(3) load_verdict_None by blast

section \<open>Hexadecimal keys\<close>

text \<open>The lower case rendering of a key, as \<open>xauth\<close> prints one.\<close>

definition hex_digit :: "nat \<Rightarrow> char" where
  "hex_digit n = (if n < 10 then char_of (48 + n) else char_of (87 + n))"

fun hex_of :: "u8 list \<Rightarrow> string" where
  "hex_of [] = []"
| "hex_of (b # bs) = hex_digit (unat b div 16) # hex_digit (unat b mod 16) # hex_of bs"

lemma atox_hex_digit: "n < 16 \<Longrightarrow> atox (hex_digit n) = int n"
proof -
  have "\<forall>n\<in>set [0..<16]. atox (hex_digit n) = int n" by code_simp
  then show "n < 16 \<Longrightarrow> atox (hex_digit n) = int n" by simp
qed

lemma nibbles_of_byte: "word_of_int (or (push_bit 4 (int (unat b div 16))) (int (unat b mod 16))) = (b :: u8)"
proof -
  have "\<forall>n\<in>set [0..<256]. or (push_bit 4 (int (n div 16))) (int (n mod 16)) = int n" by code_simp
  moreover have "unat b < 256" by (rule unat_u8_less)
  ultimately have "or (push_bit 4 (int (unat b div 16))) (int (unat b mod 16)) = int (unat b)" by simp
  then show ?thesis by (metis word_of_int_uint uint_nat)
qed

lemma hex2bin_hex_of: "hex2bin (hex_of bs) = (bs, 1)"
proof (induction bs)
  case (Cons b bs)
  have "unat b < 256" by (rule unat_u8_less)
  then have "unat b div 16 < 16" "unat b mod 16 < 16" by simp_all
  then show ?case by (simp only: hex_of.simps hex2bin.simps atox_hex_digit Let_def Cons.IH nibbles_of_byte) simp
qed simp

lemma length_hex_of: "length (hex_of bs) = 2 * length bs"
  by (induction bs) simp_all

lemma XnsFindByAuth_assigned_lemma:
  assumes load: "XnsLoadConfig env (Contents txt) xns_boot = Loaded b st"
    and auth: "DAuth proto key \<in> set (section_of n (file_directives txt))"
    and mem: "calloc_ok env (length key div 2)"
    and uniq: "\<forall>m k. DAuth proto k \<in> set (section_of m (file_directives txt)) \<and>
                  key_bytes k = key_bytes key \<longrightarrow> m = n"
  shows "XnsFindByAuth st proto (key_bytes key) < length (ns_list st) \<and>
    ns_name (ns_list st ! XnsFindByAuth st proto (key_bytes key)) = n"
proof -
  let ?P = "\<lambda>ns. list_ex (token_matches proto (key_bytes key)) (auth_tokens ns)"
  have wf: "ns_wf st" using load_sections(1)[OF load] .
  have "auth_tokens (forget_ids (lookup_ns st n)) \<noteq> []"
    unfolding load_sections(2)[OF load] fold_directive_tokens
    by (auto intro!: bexI[OF _ auth] simp: mem)
  then have "lookup_ns st n \<noteq> new_ns n" by (auto simp: forget_ids_def new_ns_def)
  then obtain i where i: "i < length (ns_list st)" "ns_name (ns_list st ! i) = n"
    by (rule lookup_ns_listed)
  have hit: "?P (ns_list st ! i)"
    using load_tokens[OF load i(1), of proto "key_bytes key"] auth mem i(2) by blast
  then obtain j where j: "find_index ?P (ns_list st) = Some j"
    using i(1) find_index_None[of ?P "ns_list st"] by (metis nth_mem option.exhaust)
  then have jl: "j < length (ns_list st)" and jP: "?P (ns_list st ! j)"
    using find_index_Some by metis+
  have "ns_name (ns_list st ! j) = n"
    using load_tokens[OF load jl, of proto "key_bytes key"] jP uniq by blast
  with j jl show ?thesis by (simp add: XnsFindByAuth_def)
qed

section \<open>Properties\<close>

text \<open>
  C4. A loaded configuration is what the file says: after \<open>XnsLoadConfig\<close> the namespace list is
  well formed (root and anon in front, names distinct, every key as long as its recorded
  length), and the record under each name is the built in or empty record of that name with the
  directives of its own sections applied in file order, whatever lines of other namespaces stand
  between them.
\<close>

theorem XnsLoadConfig_sections:
  assumes "XnsLoadConfig env (Contents txt) xns_boot = Loaded b st"
  shows "ns_wf st \<and> forget_ids (lookup_ns st n) =
    fold (apply_directive env) (section_of n (file_directives txt)) (initial_ns n)"
  using load_sections[OF assms] by blast

definition demo_env :: xns_env where
  "demo_env = \<lparr> calloc_ok = (\<lambda>_. True), sizeof_Xnamespace = 96, sizeof_auth_token = 48,
     sizeof_auth = 32, server_xid = of_nat \<rparr>"

definition demo_file :: string where
  "demo_file = ''namespace a # first'' @ [CHR 0x0A] @ ''auth MIT-MAGIC-COOKIE-1 00ff7a''
     @ [CHR 0x0A] @ ''namespace b'' @ [CHR 0x0A] @ ''allow shape xinput'' @ [CHR 0x0A]
     @ ''container a'' @ [CHR 0x0A] @ ''superpower'' @ [CHR 0x0A]"

lemma demo_directives:
  "file_directives demo_file =
     [DNamespace ''a'', DAuth ''MIT-MAGIC-COOKIE-1'' ''00ff7a'', DNamespace ''b'',
      DAllow [''shape'', ''xinput''], DNamespace ''a'', DSuper]"
  by code_simp

lemma demo_loads: "\<exists>st. XnsLoadConfig demo_env (Contents demo_file) xns_boot = Loaded True st"
proof -
  have "list_all (directive_ok demo_env) (file_directives demo_file)"
    by (simp add: demo_directives demo_env_def)
  from load_ok[OF this] show ?thesis by metis
qed

theorem XnsLoadConfig_sections_witness:
  "\<exists>st. XnsLoadConfig demo_env (Contents demo_file) xns_boot = Loaded True st
     \<and> ns_wf st \<and> superPower (lookup_ns st ''a'') \<and> \<not> superPower (lookup_ns st ''b'')"
proof -
  obtain st where st: "XnsLoadConfig demo_env (Contents demo_file) xns_boot = Loaded True st"
    using demo_loads by blast
  note P = XnsLoadConfig_sections[OF st]
  have a: "superPower (fold (apply_directive demo_env) (section_of ''a'' (file_directives demo_file))
      (initial_ns ''a''))"
    unfolding demo_directives by code_simp
  have b: "\<not> superPower (fold (apply_directive demo_env) (section_of ''b'' (file_directives demo_file))
      (initial_ns ''b''))"
    unfolding demo_directives by code_simp
  show ?thesis
    using st P[of "''a''"] P[of "''b''"] a b by (metis forget_ids_frame(1))
qed

text \<open>
  Least privilege: after loading, a namespace has super power exactly if it is the built in
  root namespace or the file has a \<open>superpower\<close> line in a section of that very name.
\<close>

theorem XnsLoadConfig_superpower:
  assumes "XnsLoadConfig env (Contents txt) xns_boot = Loaded b st" and "i < length (ns_list st)"
  shows "superPower (ns_list st ! i) \<longleftrightarrow>
    i = ns_root_idx \<or> DSuper \<in> set (section_of (ns_name (ns_list st ! i)) (file_directives txt))"
proof -
  let ?n = "ns_name (ns_list st ! i)"
  have wf: "ns_wf st" using load_sections(1)[OF assms(1)] .
  have "superPower (ns_list st ! i) \<longleftrightarrow> superPower (lookup_ns st ?n)"
    using lookup_ns_nth[OF wf assms(2)] by simp
  also have "\<dots> \<longleftrightarrow> superPower (initial_ns ?n) \<or> DSuper \<in> set (section_of ?n (file_directives txt))"
    using load_sections(2)[OF assms(1), of ?n] by (metis fold_directive_superPower forget_ids_frame(1))
  also have "superPower (initial_ns ?n) \<longleftrightarrow> ?n = NS_NAME_ROOT"
    by (simp add: initial_ns_def ns_root_def ns_anon_def new_ns_def)
  also have "?n = NS_NAME_ROOT \<longleftrightarrow> i = ns_root_idx"
    by (rule ns_wf_name_iff(1)[OF wf assms(2)])
  finally show ?thesis .
qed

theorem XnsLoadConfig_superpower_witness:
  "\<exists>st. XnsLoadConfig demo_env (Contents demo_file) xns_boot = Loaded True st
     \<and> superPower (ns_list st ! ns_root_idx) \<and> \<not> superPower (ns_list st ! ns_anon_idx)"
proof -
  obtain st where st: "XnsLoadConfig demo_env (Contents demo_file) xns_boot = Loaded True st"
    using demo_loads by blast
  have wf: "ns_wf st" using load_sections(1)[OF st] .
  then have l: "ns_root_idx < length (ns_list st)" "ns_anon_idx < length (ns_list st)"
    and nm: "ns_name (ns_list st ! ns_anon_idx) = NS_NAME_ANONYMOUS"
    unfolding ns_wf_def by linarith+
  have "DSuper \<notin> set (section_of NS_NAME_ANONYMOUS (file_directives demo_file))"
    unfolding demo_directives by code_simp
  with XnsLoadConfig_superpower[OF st l(1)] XnsLoadConfig_superpower[OF st l(2)] st nm
  show ?thesis by auto
qed

text \<open>
  C40. How loading a readable file at start ends, when allocations fail by their size as \<open>calloc_ok\<close> says. It dereferences a
  null pointer or ends with \<open>FatalError\<close> exactly where the scan \<open>verdict\<close> of the file's directives
  says so; it succeeds exactly if every directive is harmless by itself: no \<open>auth\<close> line has a
  protocol and no key, every name that is not built in gets its record and its copy, and every
  token gets its record and, unless its key is dropped, its copy of the protocol name. Without
  allocation failures the one fault left is the \<open>auth\<close> line with no key.
\<close>

theorem XnsLoadConfig_outcome:
  "(XnsLoadConfig env (Contents txt) xns_boot = Fault \<longleftrightarrow> load_verdict env txt = Some NullDeref)
   \<and> (XnsLoadConfig env (Contents txt) xns_boot = FatalError \<longleftrightarrow> load_verdict env txt = Some AllocFatal)
   \<and> ((\<exists>st. XnsLoadConfig env (Contents txt) xns_boot = Loaded True st)
        \<longleftrightarrow> list_all (directive_ok env) (file_directives txt))
   \<and> (calloc_ok env = (\<lambda>_. True) \<longrightarrow>
        XnsLoadConfig env (Contents txt) xns_boot \<noteq> FatalError
        \<and> (XnsLoadConfig env (Contents txt) xns_boot = Fault \<longleftrightarrow> DAuthNoKey \<in> set (file_directives txt)))"
proof -
  have "load_verdict env txt = (if DAuthNoKey \<in> set (file_directives txt) then Some NullDeref else None)"
    if "calloc_ok env = (\<lambda>_. True)" using verdict_all_ok[of env] that by (simp add: load_verdict_def)
  then show ?thesis unfolding load_verdict load_verdict_None by auto
qed

text \<open>The example file, and one whose second name cannot be copied before a key is read.\<close>

theorem XnsLoadConfig_outcome_witness:
  "XnsLoadConfig demo_env (Contents ''auth a'') xns_boot = Fault
   \<and> XnsLoadConfig demo_env (Contents demo_file) xns_boot \<noteq> Fault
   \<and> XnsLoadConfig (demo_env\<lparr> calloc_ok := \<lambda>n. n = 96 \<rparr>) (Contents demo_file) xns_boot = FatalError"
proof -
  have ok: "calloc_ok demo_env = (\<lambda>_. True)" by (simp add: demo_env_def)
  have d: "file_directives ''auth a'' = [DAuthNoKey]" by code_simp
  have v: "load_verdict (demo_env\<lparr> calloc_ok := \<lambda>n. n = 96 \<rparr>) demo_file = Some AllocFatal"
    by (simp add: load_verdict_def demo_directives demo_env_def NS_NAME_ROOT_def NS_NAME_ANONYMOUS_def)
  have v2: "load_verdict demo_env demo_file = None"
    by (simp add: load_verdict_def demo_directives demo_env_def)
  show ?thesis
    using XnsLoadConfig_outcome[of demo_env "''auth a''"] XnsLoadConfig_outcome[of demo_env demo_file]
      XnsLoadConfig_outcome[of "demo_env\<lparr> calloc_ok := \<lambda>n. n = 96 \<rparr>" demo_file] ok d v v2
    by (simp add: demo_directives)
qed

text \<open>
  Keys survive the file: \<open>hex2bin\<close> applied to the hexadecimal rendering of a key gives back
  the key, reports success, and fills the buffer of half the text's length exactly.
\<close>

theorem hex2bin_roundtrip:
  "hex2bin (hex_of key) = (key, 1) \<and> key_bytes (hex_of key) = key"
  by (simp add: hex2bin_hex_of key_bytes_def length_hex_of)

text \<open>
  Credentials select their namespace: if a key is configured for a namespace and for no other
  namespace under the same protocol, a client presenting it is put in that namespace.
\<close>

theorem XnsFindByAuth_assigned:
  assumes load: "XnsLoadConfig env (Contents txt) xns_boot = Loaded b st"
    and auth: "DAuth proto key \<in> set (section_of n (file_directives txt))"
    and mem: "calloc_ok env (length key div 2)"
    and uniq: "\<forall>m k. DAuth proto k \<in> set (section_of m (file_directives txt)) \<and>
                  key_bytes k = key_bytes key \<longrightarrow> m = n"
  shows "XnsFindByAuth st proto (key_bytes key) < length (ns_list st) \<and>
    ns_name (ns_list st ! XnsFindByAuth st proto (key_bytes key)) = n"
  by (rule XnsFindByAuth_assigned_lemma[OF load auth mem uniq])

theorem XnsFindByAuth_assigned_witness:
  "\<exists>st. XnsLoadConfig demo_env (Contents demo_file) xns_boot = Loaded True st
     \<and> ns_name (ns_list st ! XnsFindByAuth st MIT_PROTO [0, 255, 122]) = ''a''"
proof -
  obtain st where st: "XnsLoadConfig demo_env (Contents demo_file) xns_boot = Loaded True st"
    using demo_loads by blast
  have secs: "section_of m (file_directives demo_file) =
      (if m = ''a'' then [DAuth ''MIT-MAGIC-COOKIE-1'' ''00ff7a'', DSuper]
       else if m = ''b'' then [DAllow [''shape'', ''xinput'']] else [])" for m
    by (auto simp: demo_directives section_of_def NS_NAME_ROOT_def)
  have key: "key_bytes ''00ff7a'' = [0, 255, 122]" by code_simp
  have h1: "DAuth MIT_PROTO ''00ff7a'' \<in> set (section_of ''a'' (file_directives demo_file))"
    by (simp add: secs MIT_PROTO_def)
  have h2: "calloc_ok demo_env (length ''00ff7a'' div 2)" by (simp add: demo_env_def)
  have h3: "\<forall>m k. DAuth MIT_PROTO k \<in> set (section_of m (file_directives demo_file)) \<and>
      key_bytes k = key_bytes ''00ff7a'' \<longrightarrow> m = ''a''" by (simp add: secs)
  show ?thesis
    using st XnsFindByAuth_assigned[OF st h1 h2 h3] unfolding key by blast
qed

text \<open>
  Unknown credentials are anonymous: if no line of the file configures the presented key under
  the presented protocol, the client is put in the anonymous namespace.
\<close>

theorem XnsFindByAuth_unknown:
  assumes load: "XnsLoadConfig env (Contents txt) xns_boot = Loaded b st"
    and none: "\<forall>k. DAuth proto k \<in> set (file_directives txt) \<longrightarrow> key_bytes k \<noteq> token"
  shows "XnsFindByAuth st proto token = ns_anon_idx"
proof -
  have sub: "snd ` set (sections c ds) \<subseteq> set ds" for c ds
    by (induction c ds rule: sections.induct) auto
  then have "set (section_of n (file_directives txt)) \<subseteq> set (file_directives txt)" for n
    using sub[of NS_NAME_ROOT "file_directives txt"] by (auto simp: section_of_def)
  then have "\<not> list_ex (token_matches proto token) (auth_tokens (ns_list st ! i))"
    if "i < length (ns_list st)" for i
    using load_tokens[OF load that] none by blast
  then have "find_index (\<lambda>ns. list_ex (token_matches proto token) (auth_tokens ns)) (ns_list st) = None"
    by (auto simp: find_index_None in_set_conv_nth)
  then show ?thesis by (simp add: XnsFindByAuth_def)
qed

theorem XnsFindByAuth_unknown_witness:
  "\<exists>st. XnsLoadConfig demo_env (Contents demo_file) xns_boot = Loaded True st
     \<and> XnsFindByAuth st MIT_PROTO [1, 2] = ns_anon_idx"
proof -
  obtain st where st: "XnsLoadConfig demo_env (Contents demo_file) xns_boot = Loaded True st"
    using demo_loads by blast
  have "key_bytes ''00ff7a'' = [0, 255, 122]" by code_simp
  with st XnsFindByAuth_unknown[OF st, of MIT_PROTO "[1, 2]"] show ?thesis
    by (auto simp: demo_directives MIT_PROTO_def)
qed

end
