(* ===== verification/NsClients.thy ===== *)
theory NsClients
  imports NsConfigSpec
begin

text \<open>
  The life of a client in the namespace extension: \<open>NamespaceExtensionInit\<close> of \<open>namespace.c\<close> and
  the callbacks of \<open>hook-clientstate.c\<close>, with their state machine and the reference counts.
\<close>

section \<open>Operations\<close>

datatype ClientState =
  ClientStateInitial | ClientStateRunning | ClientStateRetained | ClientStateGone

text \<open>
  \<open>hookClientState\<close>: \<open>auth_id\<close> is \<open>AuthorizationIDOfClient (client)\<close>, the identifier of the
  credentials the connection was accepted with.
\<close>

definition set_auth_id :: "nat \<Rightarrow> xid \<Rightarrow> xns_state \<Rightarrow> xns_state" where
  "set_auth_id c i st = st\<lparr> privs := (privs st)(c := (privs st c)\<lparr> privAuthId := i \<rparr>) \<rparr>"

definition hookClientState :: "nat \<Rightarrow> ClientState \<Rightarrow> xid \<Rightarrow> xns_state \<Rightarrow> xns_state" where
  "hookClientState c cs auth_id st =
     (case cs of
        ClientStateInitial \<Rightarrow> XnamespaceAssignClient c (Some ns_anon_idx) st
      | ClientStateRunning \<Rightarrow>
          (let st1 = set_auth_id c auth_id st
           in case AuthorizationFromID st1 auth_id of
                Some (name, data) \<Rightarrow> XnamespaceAssignClient c (Some (XnsFindByAuth st1 name data)) st1
              | None \<Rightarrow> st1)
      | ClientStateRetained \<Rightarrow> st
      | ClientStateGone \<Rightarrow> st)"

definition hookClientDestroy :: "nat \<Rightarrow> xns_state \<Rightarrow> xns_state" where
  "hookClientDestroy c st = XnamespaceAssignClient c None st"

text \<open>
  \<open>NamespaceExtensionInit\<close>: without a configuration file the extension stays disabled; otherwise
  the hooks are registered and the server's own client (index 0) is put in the root namespace.
\<close>

datatype init_result = Enabled xns_state | Disabled xns_state | InitFatal | InitFault

definition NamespaceExtensionInit :: "xns_env \<Rightarrow> config_file \<Rightarrow> xns_state \<Rightarrow> init_result" where
  "NamespaceExtensionInit env file st =
     (case XnsLoadConfig env file st of
        FatalError \<Rightarrow> InitFatal
      | Fault \<Rightarrow> InitFault
      | Loaded ok st1 \<Rightarrow>
          if \<not> ok then Disabled st1
          else Enabled (XnamespaceAssignClient 0 (Some ns_root_idx)
                 (st1\<lparr> privs := (privs st1)(0 := no_priv\<lparr> isServer := True \<rparr>) \<rparr>)))"

section \<open>What assigning a client changes\<close>

lemma assign_privs [ns_simps]:
  "privs (XnamespaceAssignClient c n st) = (privs st)(c := (privs st c)\<lparr> priv_ns := n \<rparr>)"
  by (auto simp: XnamespaceAssignClient_def upd_ns_def Let_def split: option.splits)

lemma assign_auth [ns_simps]:
  "mit_auth (XnamespaceAssignClient c n st) = mit_auth st"
  "n_server_xids (XnamespaceAssignClient c n st) = n_server_xids st"
  by (auto simp: XnamespaceAssignClient_def upd_ns_def Let_def split: option.splits)

lemma assign_length [ns_simps]:
  "length (ns_list (XnamespaceAssignClient c n st)) = length (ns_list st)"
  by (auto simp: XnamespaceAssignClient_def upd_ns_def Let_def split: option.splits)

text \<open>Only the reference count of a namespace can change.\<close>

definition sans_refs :: "Xnamespace \<Rightarrow> Xnamespace" where
  "sans_refs ns = ns\<lparr> refcnt := 0 \<rparr>"

lemma assign_sans_refs:
  "map sans_refs (ns_list (XnamespaceAssignClient c n st)) = map sans_refs (ns_list st)"
proof -
  have [simp]: "map sans_refs (upd_nth i (\<lambda>ns. ns\<lparr> refcnt := g ns \<rparr>) xs) = map sans_refs xs" for i g xs
    by (rule map_upd_nth) (simp add: sans_refs_def)
  show ?thesis
    by (auto simp: XnamespaceAssignClient_def upd_ns_def Let_def split: option.splits)
qed

text \<open>The count of one namespace after the decrement and the increment.\<close>

lemma assign_refcnt:
  assumes "i < length (ns_list st)"
  shows "refcnt (ns_list (XnamespaceAssignClient c n st) ! i) =
    refcnt (ns_list st ! i) - (if priv_ns (privs st c) = Some i then 1 else 0)
                            + (if n = Some i then 1 else 0)"
  using assms
  by (auto simp: XnamespaceAssignClient_def upd_ns_def Let_def split: option.splits)

lemma find_index_cong_map:
  assumes "map f xs = map f ys" "\<And>x y. f x = f y \<Longrightarrow> P x = P y"
  shows "find_index P xs = find_index P ys"
  using assms(1)
proof (induction xs arbitrary: ys)
  case (Cons x xs)
  then obtain y ys' where y: "ys = y # ys'" "f x = f y" "map f xs = map f ys'" by (cases ys) auto
  have "P x = P y" by (rule assms(2)[OF y(2)])
  with Cons.IH[OF y(3)] y(1) show ?case by simp
qed simp

lemma XnsFindByAuth_cong:
  assumes "map sans_refs (ns_list st) = map sans_refs (ns_list st')"
  shows "XnsFindByAuth st p t = XnsFindByAuth st' p t"
proof -
  have "find_index (\<lambda>ns. list_ex (token_matches p t) (auth_tokens ns)) (ns_list st)
      = find_index (\<lambda>ns. list_ex (token_matches p t) (auth_tokens ns)) (ns_list st')"
  proof (rule find_index_cong_map[OF assms])
    fix x y
    assume "sans_refs x = sans_refs y"
    then have "auth_tokens (sans_refs x) = auth_tokens (sans_refs y)" by simp
    then have "auth_tokens x = auth_tokens y" by (simp add: sans_refs_def)
    then show "list_ex (token_matches p t) (auth_tokens x) = list_ex (token_matches p t) (auth_tokens y)"
      by simp
  qed
  then show ?thesis by (simp add: XnsFindByAuth_def)
qed

section \<open>The state machine\<close>

text \<open>
  A run of the server after initialisation: the clients that exist (\<open>live\<close>), each announced by
  its initial callback, then any sequence of state callbacks for live clients, and its
  destruction. Index 0 is the server's own client, which is never announced or destroyed.
\<close>

inductive xns_step :: "xns_state \<times> nat set \<Rightarrow> xns_state \<times> nat set \<Rightarrow> bool" where
  connect: "c \<notin> live \<Longrightarrow> c \<noteq> 0 \<Longrightarrow>
     xns_step (st, live) (hookClientState c ClientStateInitial a st, insert c live)"
| state_change: "c \<in> live \<Longrightarrow> c \<noteq> 0 \<Longrightarrow>
     xns_step (st, live) (hookClientState c cs a st, live)"
| destroy: "c \<in> live \<Longrightarrow> c \<noteq> 0 \<Longrightarrow>
     xns_step (st, live) (hookClientDestroy c st, live - {c})"

inductive_cases xns_stepE: "xns_step (st, live) s'"

inductive xns_reachable :: "xns_env \<Rightarrow> string \<Rightarrow> xns_state \<times> nat set \<Rightarrow> bool"
  for env :: xns_env and cfg :: string where
  init: "NamespaceExtensionInit env (Contents cfg) xns_boot = Enabled st \<Longrightarrow>
     xns_reachable env cfg (st, {0})"
| step: "xns_reachable env cfg s \<Longrightarrow> xns_step s s' \<Longrightarrow> xns_reachable env cfg s'"

text \<open>The clients in a namespace, and the references that are not clients: the two built in records.\<close>

definition members :: "xns_state \<Rightarrow> nat \<Rightarrow> nat set" where
  "members st i = {c. priv_ns (privs st c) = Some i}"

definition static_refs :: "nat \<Rightarrow> u64" where
  "static_refs i = (if i < 2 then 1 else 0)"

definition refs_inv :: "xns_state \<times> nat set \<Rightarrow> bool" where
  "refs_inv s \<longleftrightarrow> (case s of (st, live) \<Rightarrow>
     2 \<le> length (ns_list st) \<and> finite live
     \<and> (\<forall>c. c \<in> live \<longleftrightarrow> priv_ns (privs st c) \<noteq> None)
     \<and> (\<forall>c i. priv_ns (privs st c) = Some i \<longrightarrow> i < length (ns_list st))
     \<and> (\<forall>i < length (ns_list st).
          refcnt (ns_list st ! i) = static_refs i + of_nat (card (members st i)))
     \<and> priv_ns (privs st 0) = Some ns_root_idx \<and> isServer (privs st 0))"

lemma members_assign:
  "members (XnamespaceAssignClient c n st) i =
     (if n = Some i then insert c (members st i) else members st i - {c})"
  by (auto simp: members_def ns_simps)

lemma card_members_assign:
  assumes "finite (members st i)"
  shows "(of_nat (card (members (XnamespaceAssignClient c n st) i)) :: u64) =
    of_nat (card (members st i)) - (if priv_ns (privs st c) = Some i then 1 else 0)
                                 + (if n = Some i then 1 else 0)"
proof -
  have mem: "priv_ns (privs st c) = Some i \<longleftrightarrow> c \<in> members st i" by (simp add: members_def)
  show ?thesis
  proof (cases "c \<in> members st i")
    case True
    then have "insert c (members st i) = members st i" by blast
    moreover from True have "card (members st i) = Suc (card (members st i - {c}))"
      by (rule card.remove[OF assms])
    ultimately show ?thesis using True by (simp add: members_assign mem)
  next
    case False
    then have "members st i - {c} = members st i" by blast
    with False assms show ?thesis by (simp add: members_assign mem)
  qed
qed

lemma finite_members:
  assumes "refs_inv (st, live)"
  shows "finite (members st i)"
  using assms by (auto simp: refs_inv_def members_def intro: finite_subset[of _ live])

text \<open>Assigning a client to a listed namespace, or to none, keeps the counts right.\<close>

lemma refs_inv_assign:
  assumes inv: "refs_inv (st, live)" and c: "c \<noteq> 0"
    and n: "\<And>i. n = Some i \<Longrightarrow> i < length (ns_list st)"
  shows "refs_inv (XnamespaceAssignClient c n st, if n = None then live - {c} else insert c live)"
proof -
  let ?st = "XnamespaceAssignClient c n st"
  have "refcnt (ns_list ?st ! i) = static_refs i + of_nat (card (members ?st i))"
    if i: "i < length (ns_list st)" for i
  proof -
    have "refcnt (ns_list st ! i) = static_refs i + of_nat (card (members st i))"
      using inv i by (simp add: refs_inv_def)
    then show ?thesis
      using assign_refcnt[OF i] card_members_assign[OF finite_members[OF inv]] by simp
  qed
  then show ?thesis
    using inv c n by (auto simp: refs_inv_def ns_simps)
qed

lemma refs_inv_set_auth: "refs_inv (set_auth_id c i st, live) = refs_inv (st, live)"
proof -
  have "priv_ns (privs (set_auth_id c i st) d) = priv_ns (privs st d)"
    and "isServer (privs (set_auth_id c i st) d) = isServer (privs st d)" for d
    by (simp_all add: set_auth_id_def)
  moreover have "members (set_auth_id c i st) j = members st j" for j
    by (simp add: members_def calculation)
  moreover have "ns_list (set_auth_id c i st) = ns_list st" by (simp add: set_auth_id_def)
  ultimately show ?thesis by (simp add: refs_inv_def)
qed

lemma XnsFindByAuth_less:
  assumes "2 \<le> length (ns_list st)"
  shows "XnsFindByAuth st p t < length (ns_list st)"
  using assms by (auto simp: XnsFindByAuth_def split: option.splits dest: find_index_Some)

lemma refs_inv_step:
  assumes "refs_inv s" "xns_step s s'"
  shows "refs_inv s'"
  using assms(2,1)
proof (induction rule: xns_step.induct)
  case (connect c live st a)
  then have "ns_anon_idx < length (ns_list st)" by (simp add: refs_inv_def)
  with refs_inv_assign[OF connect.prems connect.hyps(2), of "Some ns_anon_idx"] show ?case
    by (simp add: hookClientState_def)
next
  case (state_change c live st cs a)
  let ?st1 = "set_auth_id c a st"
  have inv1: "refs_inv (?st1, live)" using state_change.prems by (simp add: refs_inv_set_auth)
  then have len: "2 \<le> length (ns_list ?st1)" by (simp add: refs_inv_def)
  have live: "insert c live = live" using state_change.hyps(1) by blast
  have anon: "ns_anon_idx < length (ns_list st)" using state_change.prems by (simp add: refs_inv_def)
  show ?case
    using state_change.prems inv1 live anon
      refs_inv_assign[OF state_change.prems state_change.hyps(2), of "Some ns_anon_idx"]
      refs_inv_assign[OF inv1 state_change.hyps(2), of "Some (XnsFindByAuth ?st1 p t)" for p t]
      XnsFindByAuth_less[OF len]
    by (auto simp: hookClientState_def Let_def split: ClientState.splits option.splits)
next
  case (destroy c live st)
  with refs_inv_assign[OF destroy.prems destroy.hyps(2), of None] show ?case
    by (simp add: hookClientDestroy_def)
qed

section \<open>The initial state\<close>

lemma AddAuthorization_privs [ns_simps]:
  "AddAuthorization env n d st = (i, st1) \<Longrightarrow> privs st1 = privs st"
  by (auto simp: AddAuthorization_def MitAddCookie_def Let_def split: if_splits option.splits)

lemma parseLine_privs:
  assumes "parseLine env line (st, walk) = Inr (st1, walk1)"
  shows "privs st1 = privs st"
  using assms
  by (auto simp: parseLine_directive Let_def select_ns_def store_token_def upd_ns_def map_sum_Inr_iff
      dest!: AddAuthorization_privs split: directive.splits prod.splits option.splits if_splits)

lemma parse_lines_privs:
  "parse_lines env ls (st, walk) = Inr (st1, walk1) \<Longrightarrow> privs st1 = privs st"
proof (induction ls arbitrary: st walk)
  case (Cons l ls)
  then obtain st2 walk2 where "parseLine env l (st, walk) = Inr (st2, walk2)"
    "parse_lines env ls (st2, walk2) = Inr (st1, walk1)" by (auto split: sum.splits)
  with Cons.IH parseLine_privs show ?case by metis
qed simp

lemma load_privs:
  assumes "XnsLoadConfig env (Contents cfg) xns_boot = Loaded b st"
  shows "privs st = (\<lambda>_. no_priv)"
  using assms
  by (auto simp: XnsLoadConfig_def append_ndup_def Let_def xns_boot_def
      dest!: parse_lines_privs split: sum.splits parse_error.splits if_splits)

lemma fold_directive_refcnt: "refcnt (fold (apply_directive env) ds ns) = refcnt ns"
proof (induction ds arbitrary: ns)
  case (Cons d ds)
  then show ?case by (cases d) (auto simp: ns_simps)
qed simp

lemma load_refcnt:
  assumes load: "XnsLoadConfig env (Contents cfg) xns_boot = Loaded b st" and i: "i < length (ns_list st)"
  shows "refcnt (ns_list st ! i) = static_refs i"
proof -
  let ?n = "ns_name (ns_list st ! i)"
  have wf: "ns_wf st" by (rule load_sections(1)[OF load])
  have "refcnt (forget_ids (lookup_ns st ?n)) = refcnt (initial_ns ?n)"
    unfolding load_sections(2)[OF load] by (rule fold_directive_refcnt)
  then have "refcnt (ns_list st ! i) = refcnt (initial_ns ?n)"
    using lookup_ns_nth[OF wf i] by (simp add: forget_ids_def)
  then show ?thesis
    using ns_wf_name_iff[OF wf i]
    by (auto simp: initial_ns_def static_refs_def ns_root_def ns_anon_def new_ns_def)
qed

lemma init_enabled:
  assumes "NamespaceExtensionInit env (Contents cfg) xns_boot = Enabled st"
  obtains st0 where "XnsLoadConfig env (Contents cfg) xns_boot = Loaded True st0"
    "st = XnamespaceAssignClient 0 (Some ns_root_idx)
            (st0\<lparr> privs := (\<lambda>_. no_priv)(0 := no_priv\<lparr> isServer := True \<rparr>) \<rparr>)"
  using assms load_privs[of env cfg]
  by (auto simp: NamespaceExtensionInit_def split: load_result.splits if_splits)

lemma refs_inv_init:
  assumes "NamespaceExtensionInit env (Contents cfg) xns_boot = Enabled st"
  shows "refs_inv (st, {0})"
proof -
  obtain st0 where load: "XnsLoadConfig env (Contents cfg) xns_boot = Loaded True st0"
    and st: "st = XnamespaceAssignClient 0 (Some ns_root_idx)
            (st0\<lparr> privs := (\<lambda>_. no_priv)(0 := no_priv\<lparr> isServer := True \<rparr>) \<rparr>)"
    by (rule init_enabled[OF assms])
  let ?st1 = "st0\<lparr> privs := (\<lambda>_. no_priv)(0 := no_priv\<lparr> isServer := True \<rparr>) \<rparr>"
  have two: "2 \<le> length (ns_list st0)" using load_sections(1)[OF load] by (simp add: ns_wf_def)
  have none: "priv_ns (privs ?st1 c) = None" for c by (simp add: no_priv_def)
  then have empty: "members ?st1 i = {}" for i by (simp add: members_def)
  have "refcnt (ns_list st ! i) = static_refs i + of_nat (card (members st i))"
    if i: "i < length (ns_list st0)" for i
  proof -
    have "priv_ns (privs ?st1 0) = None" by (rule none)
    then show ?thesis
      using assign_refcnt[of i ?st1 0 "Some ns_root_idx"] load_refcnt[OF load i] i
        card_members_assign[of ?st1 i 0 "Some ns_root_idx"] empty[of i]
      unfolding st by simp
  qed
  then show ?thesis
    using two by (auto simp: refs_inv_def ns_simps st no_priv_def)
qed

lemma reachable_refs_inv: "xns_reachable env cfg s \<Longrightarrow> refs_inv s"
  by (induction rule: xns_reachable.induct) (blast intro: refs_inv_init refs_inv_step)+

text \<open>Apart from the reference counts, the namespaces stay as the file describes them.\<close>

lemma hook_sans_refs:
  "map sans_refs (ns_list (hookClientState c cs a st)) = map sans_refs (ns_list st)"
  "map sans_refs (ns_list (hookClientDestroy c st)) = map sans_refs (ns_list st)"
  by (auto simp: hookClientState_def hookClientDestroy_def set_auth_id_def assign_sans_refs Let_def
      split: ClientState.splits option.splits)

lemma step_sans_refs:
  "xns_step s s' \<Longrightarrow> map sans_refs (ns_list (fst s')) = map sans_refs (ns_list (fst s))"
  by (induction rule: xns_step.induct) (simp_all add: hook_sans_refs)

lemma reachable_loaded:
  assumes "xns_reachable env cfg s"
  shows "\<exists>st0. XnsLoadConfig env (Contents cfg) xns_boot = Loaded True st0
     \<and> map sans_refs (ns_list (fst s)) = map sans_refs (ns_list st0)"
  using assms
proof (induction rule: xns_reachable.induct)
  case (init st)
  then show ?case by (auto elim!: init_enabled simp: assign_sans_refs)
next
  case (step s s')
  then show ?case using step_sans_refs by metis
qed

lemma nth_sans_refs:
  assumes "map sans_refs xs = map sans_refs ys" "i < length xs"
  shows "ns_name (xs ! i) = ns_name (ys ! i)" "superPower (xs ! i) = superPower (ys ! i)"
    "length xs = length ys"
proof -
  have "sans_refs (xs ! i) = sans_refs (ys ! i)" and len: "length xs = length ys"
    using assms by (metis nth_map length_map)+
  then have "ns_name (sans_refs (xs ! i)) = ns_name (sans_refs (ys ! i))"
    "superPower (sans_refs (xs ! i)) = superPower (sans_refs (ys ! i))" by simp_all
  with len show "ns_name (xs ! i) = ns_name (ys ! i)" "superPower (xs ! i) = superPower (ys ! i)"
    "length xs = length ys" by (simp_all add: sans_refs_def)
qed

section \<open>Properties\<close>

text \<open>
  C7. Reference counts are exact and no live client lacks a namespace: in every state reachable by
  connecting, authenticating and destroying clients, the count of a namespace is its static
  reference (one for each built in record) plus the number of clients assigned to it, modulo the
  width of \<open>size_t\<close>, and every live client's namespace is a listed one.
\<close>

theorem namespace_refcounts:
  assumes "xns_reachable env cfg (st, live)"
  shows "(\<forall>i < length (ns_list st).
            refcnt (ns_list st ! i) = static_refs i + of_nat (card (members st i)))
       \<and> (\<forall>c \<in> live. \<exists>k < length (ns_list st). priv_ns (privs st c) = Some k)
       \<and> priv_ns (privs st 0) = Some ns_root_idx"
  using reachable_refs_inv[OF assms] by (fastforce simp: refs_inv_def)

lemma demo_enabled:
  obtains st where "NamespaceExtensionInit demo_env (Contents demo_file) xns_boot = Enabled st"
proof -
  obtain st where "XnsLoadConfig demo_env (Contents demo_file) xns_boot = Loaded True st"
    using demo_loads by blast
  then show ?thesis using that by (simp add: NamespaceExtensionInit_def)
qed

lemma demo_connected:
  obtains st where "xns_reachable demo_env demo_file (hookClientState 1 ClientStateInitial 0 st, {0, 1})"
proof -
  obtain st where "NamespaceExtensionInit demo_env (Contents demo_file) xns_boot = Enabled st"
    by (rule demo_enabled)
  then have "xns_reachable demo_env demo_file (st, {0})" by (rule xns_reachable.init)
  moreover have "xns_step (st, {0}) (hookClientState 1 ClientStateInitial 0 st, insert 1 {0})"
    by (rule xns_step.connect) simp_all
  ultimately have "xns_reachable demo_env demo_file (hookClientState 1 ClientStateInitial 0 st, insert 1 {0})"
    by (rule xns_reachable.step)
  then show ?thesis using that by (simp add: insert_commute)
qed

theorem namespace_refcounts_witness:
  "\<exists>st. xns_reachable demo_env demo_file (st, {0, 1}) \<and>
     (\<exists>k < length (ns_list st). priv_ns (privs st 1) = Some k)"
proof -
  obtain st where "xns_reachable demo_env demo_file (hookClientState 1 ClientStateInitial 0 st, {0, 1})"
    by (rule demo_connected)
  from namespace_refcounts[OF this] this show ?thesis by blast
qed

text \<open>
  C34. Authentication decides the namespace: in any reachable state, a client that enters the
  running state with the identifier of a cookie the file gives to namespace \<open>n\<close> alone is assigned
  to \<open>n\<close>, and a client whose identifier resolves to no credentials keeps the namespace it had.
\<close>

theorem running_client_namespace:
  assumes reach: "xns_reachable env cfg (st, live)"
    and auth: "DAuth MIT_PROTO key \<in> set (section_of n (file_directives cfg))"
    and mem: "calloc_ok env (length key div 2)"
    and uniq: "\<forall>m k. DAuth MIT_PROTO k \<in> set (section_of m (file_directives cfg)) \<and>
                  key_bytes k = key_bytes key \<longrightarrow> m = n"
    and known: "AuthorizationFromID st a = Some (MIT_PROTO, key_bytes key)"
    and unknown: "AuthorizationFromID st u = None"
  shows "(\<exists>i < length (ns_list st). ns_name (ns_list st ! i) = n
            \<and> priv_ns (privs (hookClientState c ClientStateRunning a st) c) = Some i)
       \<and> priv_ns (privs (hookClientState c ClientStateRunning u st) c) = priv_ns (privs st c)"
proof -
  obtain st0 where load: "XnsLoadConfig env (Contents cfg) xns_boot = Loaded True st0"
    and eq: "map sans_refs (ns_list st) = map sans_refs (ns_list st0)"
    using reachable_loaded[OF reach] by auto
  let ?i = "XnsFindByAuth st0 MIT_PROTO (key_bytes key)"
  have i: "?i < length (ns_list st0)" "ns_name (ns_list st0 ! ?i) = n"
    using XnsFindByAuth_assigned_lemma[OF load auth mem uniq] by blast+
  have eqs: "map sans_refs (ns_list (set_auth_id c a st)) = map sans_refs (ns_list st0)"
    using eq by (simp add: set_auth_id_def)
  have len: "length (ns_list st) = length (ns_list st0)" using eq by (rule map_eq_imp_length_eq)
  have nm: "ns_name (ns_list st ! ?i) = n" using nth_sans_refs(1)[OF eq] i len by simp
  have "AuthorizationFromID (set_auth_id c x st) y = AuthorizationFromID st y" for x y
    by (simp add: AuthorizationFromID_def set_auth_id_def)
  then have "priv_ns (privs (hookClientState c ClientStateRunning a st) c) = Some ?i"
    and "priv_ns (privs (hookClientState c ClientStateRunning u st) c) = priv_ns (privs st c)"
    using known unknown XnsFindByAuth_cong[OF eqs]
    by (simp_all add: hookClientState_def Let_def ns_simps) (simp add: set_auth_id_def)
  with i(1) nm len show ?thesis by auto
qed

lemma demo_mit_auth:
  assumes "XnsLoadConfig demo_env (Contents demo_file) xns_boot = Loaded b st"
  shows "mit_auth st = [(0, [0, 255, 122])]"
proof -
  have key: "key_bytes ''00ff7a'' = [0, 255, 122]" by code_simp
  have "exec_directives demo_env (file_directives demo_file) (xns_builtin, None) = Inr (st, w) \<Longrightarrow>
      mit_auth st = [(0, [0, 255, 122])]" for w
    by (auto simp: demo_directives store_token_def select_ns_def named_def upd_ns_def xns_builtin_list Let_def
        key demo_env_def AddAuthorization_def MIT_PROTO_def MitAddCookie_def xns_builtin_def
        append_ndup_def xns_boot_def upd_nth_def ns_root_def ns_anon_def new_ns_def
        NS_NAME_ROOT_def NS_NAME_ANONYMOUS_def)
  moreover obtain w where "exec_directives demo_env (file_directives demo_file) (xns_builtin, None) = Inr (st, w)"
    using assms by (auto simp: XnsLoadConfig_def xns_builtin_def parse_lines_exec
        file_directives_def Let_def split: sum.splits parse_error.splits if_splits)
  ultimately show ?thesis by blast
qed

theorem running_client_namespace_witness:
  "\<exists>st i. xns_reachable demo_env demo_file (st, {0}) \<and> ns_name (ns_list st ! i) = ''a''
     \<and> priv_ns (privs (hookClientState 1 ClientStateRunning 0 st) 1) = Some i"
proof -
  obtain st where e: "NamespaceExtensionInit demo_env (Contents demo_file) xns_boot = Enabled st"
    by (rule demo_enabled)
  then obtain st0 where "XnsLoadConfig demo_env (Contents demo_file) xns_boot = Loaded True st0"
    "mit_auth st = mit_auth st0" by (rule init_enabled) (simp add: ns_simps)
  then have mit: "mit_auth st = [(0, [0, 255, 122])]" by (metis demo_mit_auth)
  have reach: "xns_reachable demo_env demo_file (st, {0})" using e by (rule xns_reachable.init)
  have secs: "section_of m (file_directives demo_file) =
      (if m = ''a'' then [DAuth ''MIT-MAGIC-COOKIE-1'' ''00ff7a'', DSuper]
       else if m = ''b'' then [DAllow [''shape'', ''xinput'']] else [])" for m
    by (auto simp: demo_directives section_of_def NS_NAME_ROOT_def)
  have key: "key_bytes ''00ff7a'' = [0, 255, 122]" by code_simp
  have h1: "DAuth MIT_PROTO ''00ff7a'' \<in> set (section_of ''a'' (file_directives demo_file))"
    by (simp add: secs MIT_PROTO_def)
  have h2: "calloc_ok demo_env (length ''00ff7a'' div 2)" by (simp add: demo_env_def)
  have h3: "\<forall>m k. DAuth MIT_PROTO k \<in> set (section_of m (file_directives demo_file)) \<and>
      key_bytes k = key_bytes ''00ff7a'' \<longrightarrow> m = ''a''" by (simp add: secs)
  have h4: "AuthorizationFromID st 0 = Some (MIT_PROTO, key_bytes ''00ff7a'')"
    "AuthorizationFromID st 7 = None"
    by (simp_all add: AuthorizationFromID_def mit key)
  show ?thesis
    using reach running_client_namespace[OF reach h1 h2 h3 h4, of 1] by blast
qed

lemma find_key:
  "(x, d) \<in> set ps \<Longrightarrow> distinct (map fst ps) \<Longrightarrow> find (\<lambda>(j, _). x = j) ps = Some (x, d)"
  by (induction ps) (auto simp: rev_image_eqI)

text \<open>
  The cookie store is read back: adding a key under MIT-MAGIC-COOKIE-1 yields an identifier that
  resolves to exactly that protocol and key, and every identifier resolved before still resolves
  to the same key, provided the new identifier is not in use.
\<close>

theorem AddAuthorization_FromID:
  assumes add: "AddAuthorization env MIT_PROTO key st = (i, st1)"
    and len: "length key < 65536"
    and mem: "calloc_ok env (sizeof_auth env)" "calloc_ok env (length key)"
    and fresh: "server_xid env (n_server_xids st) \<notin> fst ` set (mit_auth st)"
    and dist: "distinct (map fst (mit_auth st))"
  shows "AuthorizationFromID st1 i = Some (MIT_PROTO, key) \<and> distinct (map fst (mit_auth st1))
    \<and> (\<forall>j r. AuthorizationFromID st j = Some r \<longrightarrow> AuthorizationFromID st1 j = Some r)"
proof (cases "find (\<lambda>(i, d). d = key) (mit_auth st)")
  case None
  then have "i = server_xid env (n_server_xids st)" "mit_auth st1 = (i, key) # mit_auth st"
    using add len mem by (auto simp: AddAuthorization_def MitAddCookie_def Let_def)
  then show ?thesis
    using fresh dist by (force simp: AuthorizationFromID_def find_Some_iff in_set_conv_nth)
next
  case (Some p)
  then have "p \<in> set (mit_auth st)" by (auto simp: find_Some_iff in_set_conv_nth)
  moreover have "snd p = key" using Some by (auto simp: find_Some_iff)
  moreover have "i = fst p" "st1 = st"
    using add len Some by (auto simp: AddAuthorization_def MitAddCookie_def split: prod.splits)
  ultimately have p: "(i, key) \<in> set (mit_auth st)" "st1 = st"
    by (metis prod.collapse) (fact \<open>st1 = st\<close>)
  with dist find_key[OF p(1) dist] show ?thesis by (simp add: AuthorizationFromID_def)
qed

theorem AddAuthorization_FromID_witness:
  "AuthorizationFromID (snd (AddAuthorization demo_env MIT_PROTO [1, 2] xns_boot)) 0 = Some (MIT_PROTO, [1, 2])"
  using AddAuthorization_FromID[of demo_env "[1, 2]" xns_boot 0]
  by (auto simp: demo_env_def xns_boot_def AddAuthorization_def MitAddCookie_def)

end
