(* ===== verification/NsHooks.thy ===== *)
theory NsHooks
  imports NsClients
begin

unbundle bit_operations_syntax

text \<open>
  The access hooks of \<open>Xext/namespace\<close>: one definition per \<open>hook-*.c\<close> file. Each hook receives
  the callback's parameters and the status the caller put in them (the server starts every access
  check with \<open>Success\<close>), and returns the status it leaves; \<open>None\<close> is the dereference of a null
  pointer. Log output is left out, but a pointer only a log line dereferences is dereferenced in
  the model too.
\<close>

section \<open>Protocol constants\<close>

datatype x_status = Success | BadValue | BadWindow | BadAccess | BadAlloc | BadAtom | BadMatch

abbreviation (input) X_CreateWindow :: nat where "X_CreateWindow \<equiv> 1"
abbreviation (input) X_ChangeWindowAttributes :: nat where "X_ChangeWindowAttributes \<equiv> 2"
abbreviation (input) X_DestroyWindow :: nat where "X_DestroyWindow \<equiv> 4"
abbreviation (input) X_QueryTree :: nat where "X_QueryTree \<equiv> 15"
abbreviation (input) X_ChangeProperty :: nat where "X_ChangeProperty \<equiv> 18"
abbreviation (input) X_DeleteProperty :: nat where "X_DeleteProperty \<equiv> 19"
abbreviation (input) X_GetProperty :: nat where "X_GetProperty \<equiv> 20"
abbreviation (input) X_SendEvent :: nat where "X_SendEvent \<equiv> 25"
abbreviation (input) X_GrabButton :: nat where "X_GrabButton \<equiv> 28"
abbreviation (input) X_GrabServer :: nat where "X_GrabServer \<equiv> 36"
abbreviation (input) X_QueryPointer :: nat where "X_QueryPointer \<equiv> 38"
abbreviation (input) X_TranslateCoords :: nat where "X_TranslateCoords \<equiv> 40"
abbreviation (input) X_GetInputFocus :: nat where "X_GetInputFocus \<equiv> 43"
abbreviation (input) X_ListFonts :: nat where "X_ListFonts \<equiv> 49"
abbreviation (input) X_ListFontsWithInfo :: nat where "X_ListFontsWithInfo \<equiv> 50"
abbreviation (input) X_CreatePixmap :: nat where "X_CreatePixmap \<equiv> 53"
abbreviation (input) X_CreateGC :: nat where "X_CreateGC \<equiv> 55"
abbreviation (input) X_GetKeyboardMapping :: nat where "X_GetKeyboardMapping \<equiv> 101"
abbreviation (input) X_RotateProperties :: nat where "X_RotateProperties \<equiv> 114"
abbreviation (input) X_GetModifierMapping :: nat where "X_GetModifierMapping \<equiv> 119"

abbreviation (input) EXTENSION_BASE :: nat where "EXTENSION_BASE \<equiv> 128"
abbreviation (input) EXTENSION_MAJOR_BIG_REQUESTS :: nat where "EXTENSION_MAJOR_BIG_REQUESTS \<equiv> 130"
abbreviation (input) EXTENSION_MAJOR_DAMAGE :: nat where "EXTENSION_MAJOR_DAMAGE \<equiv> 132"
abbreviation (input) EXTENSION_MAJOR_DOUBLE_BUFFER :: nat where "EXTENSION_MAJOR_DOUBLE_BUFFER \<equiv> 133"
abbreviation (input) EXTENSION_MAJOR_GENERIC_EVENT :: nat where "EXTENSION_MAJOR_GENERIC_EVENT \<equiv> 137"
abbreviation (input) EXTENSION_MAJOR_MIT_SCREEN_SAVER :: nat where "EXTENSION_MAJOR_MIT_SCREEN_SAVER \<equiv> 139"
abbreviation (input) EXTENSION_MAJOR_PRESENT :: nat where "EXTENSION_MAJOR_PRESENT \<equiv> 141"
abbreviation (input) EXTENSION_MAJOR_RECORD :: nat where "EXTENSION_MAJOR_RECORD \<equiv> 143"
abbreviation (input) EXTENSION_MAJOR_SECURITY :: nat where "EXTENSION_MAJOR_SECURITY \<equiv> 145"
abbreviation (input) EXTENSION_MAJOR_SHAPE :: nat where "EXTENSION_MAJOR_SHAPE \<equiv> 147"
abbreviation (input) EXTENSION_MAJOR_SYNC :: nat where "EXTENSION_MAJOR_SYNC \<equiv> 149"
abbreviation (input) EXTENSION_MAJOR_XFIXES :: nat where "EXTENSION_MAJOR_XFIXES \<equiv> 151"
abbreviation (input) EXTENSION_MAJOR_XC_MISC :: nat where "EXTENSION_MAJOR_XC_MISC \<equiv> 155"
abbreviation (input) EXTENSION_MAJOR_XINPUT :: nat where "EXTENSION_MAJOR_XINPUT \<equiv> 156"
abbreviation (input) EXTENSION_MAJOR_XKEYBOARD :: nat where "EXTENSION_MAJOR_XKEYBOARD \<equiv> 158"
abbreviation (input) EXTENSION_MAJOR_XRESOURCE :: nat where "EXTENSION_MAJOR_XRESOURCE \<equiv> 159"
abbreviation (input) EXTENSION_MAJOR_XTEST :: nat where "EXTENSION_MAJOR_XTEST \<equiv> 160"
abbreviation (input) EXTENSION_MAJOR_XVIDEO :: nat where "EXTENSION_MAJOR_XVIDEO \<equiv> 161"

abbreviation (input) X_kbUseExtension :: nat where "X_kbUseExtension \<equiv> 0"
abbreviation (input) X_kbSelectEvents :: nat where "X_kbSelectEvents \<equiv> 1"
abbreviation (input) X_kbBell :: nat where "X_kbBell \<equiv> 3"
abbreviation (input) X_kbGetState :: nat where "X_kbGetState \<equiv> 4"
abbreviation (input) X_kbGetControls :: nat where "X_kbGetControls \<equiv> 6"
abbreviation (input) X_kbGetMap :: nat where "X_kbGetMap \<equiv> 8"
abbreviation (input) X_kbGetNames :: nat where "X_kbGetNames \<equiv> 17"
abbreviation (input) X_kbPerClientFlags :: nat where "X_kbPerClientFlags \<equiv> 21"
abbreviation (input) X_ListInputDevices :: nat where "X_ListInputDevices \<equiv> 2"
abbreviation (input) X_XISelectEvents :: nat where "X_XISelectEvents \<equiv> 46"
abbreviation (input) X_XIQueryDevice :: nat where "X_XIQueryDevice \<equiv> 48"
abbreviation (input) X_XFixesQueryVersion :: nat where "X_XFixesQueryVersion \<equiv> 0"
abbreviation (input) X_XFixesSelectSelectionInput :: nat where "X_XFixesSelectSelectionInput \<equiv> 2"
abbreviation (input) X_XFixesCreateRegion :: nat where "X_XFixesCreateRegion \<equiv> 5"
abbreviation (input) X_XFixesSetCursorName :: nat where "X_XFixesSetCursorName \<equiv> 23"
abbreviation (input) X_SyncInitialize :: nat where "X_SyncInitialize \<equiv> 0"
abbreviation (input) X_SyncCreateCounter :: nat where "X_SyncCreateCounter \<equiv> 2"
abbreviation (input) X_SyncSetCounter :: nat where "X_SyncSetCounter \<equiv> 3"
abbreviation (input) X_SyncDestroyCounter :: nat where "X_SyncDestroyCounter \<equiv> 6"

abbreviation (input) GenericEvent :: nat where "GenericEvent \<equiv> 35"
abbreviation (input) XI_RawKeyPress :: nat where "XI_RawKeyPress \<equiv> 13"
abbreviation (input) XI_RawKeyRelease :: nat where "XI_RawKeyRelease \<equiv> 14"
abbreviation (input) XI_RawMotion :: nat where "XI_RawMotion \<equiv> 17"

text \<open>Access mode bits of \<open>include/dixaccess.d\<close>, and the two resource types the hooks name.\<close>

abbreviation (input) DixReadAccess :: u32 where "DixReadAccess \<equiv> 1"
abbreviation (input) DixCreateAccess :: u32 where "DixCreateAccess \<equiv> 8"
abbreviation (input) DixGetAttrAccess :: u32 where "DixGetAttrAccess \<equiv> 16"
abbreviation (input) DixGetPropAccess :: u32 where "DixGetPropAccess \<equiv> 128"
abbreviation (input) DixAddAccess :: u32 where "DixAddAccess \<equiv> 4096"
abbreviation (input) DixRemoveAccess :: u32 where "DixRemoveAccess \<equiv> 8192"
abbreviation (input) DixUseAccess :: u32 where "DixUseAccess \<equiv> 16777216"

datatype restype = RT_Window | RT_Colormap | RT_Other nat

section \<open>Clients, windows, and whose namespace they are in\<close>

record xns_client =
  cl_index :: nat
  majorOp :: nat
  minorOp :: nat

record xwindow =
  wid :: xid
  win_parent :: "xid option"
  win_owner :: "xns_client option"
  win_screen_root :: xid
  forcedBG :: bool

definition is_serverClient :: "xns_client option \<Rightarrow> bool" where
  "is_serverClient c \<longleftrightarrow> (case c of Some cl \<Rightarrow> cl_index cl = 0 | None \<Rightarrow> False)"

definition XnsClientPriv :: "xns_state \<Rightarrow> xns_client option \<Rightarrow> XnamespaceClientPriv option" where
  "XnsClientPriv st c = map_option (\<lambda>cl. privs st (cl_index cl)) c"

definition XnsClientSameNS ::
  "XnamespaceClientPriv option \<Rightarrow> XnamespaceClientPriv option \<Rightarrow> bool" where
  "XnsClientSameNS p1 p2 =
     (case (p1, p2) of
        (None, None) \<Rightarrow> True
      | (Some a, Some b) \<Rightarrow> priv_ns a = priv_ns b
      | _ \<Rightarrow> False)"

text \<open>\<open>*priv->ns\<close>: faults on a null private record and on a null namespace.\<close>

definition ns_of :: "xns_state \<Rightarrow> xns_client option \<Rightarrow> Xnamespace option" where
  "ns_of st c = do { p \<leftarrow> XnsClientPriv st c; i \<leftarrow> priv_ns p; Some (ns_list st ! i) }"

section \<open>Hooks that look at the request only\<close>

text \<open>The case labels of the hooks' switches that share a jump.\<close>

definition device_xkb_whitelist :: "nat set" where
  "device_xkb_whitelist =
    {X_kbSelectEvents, X_kbGetMap, X_kbBell, X_kbPerClientFlags, X_kbGetState, X_kbGetNames,
    X_kbGetControls}"

definition ext_query_whitelist :: "nat set" where
  "ext_query_whitelist =
    {EXTENSION_MAJOR_BIG_REQUESTS, EXTENSION_MAJOR_DAMAGE, EXTENSION_MAJOR_DOUBLE_BUFFER,
    EXTENSION_MAJOR_GENERIC_EVENT, EXTENSION_MAJOR_PRESENT, EXTENSION_MAJOR_SYNC,
    EXTENSION_MAJOR_XC_MISC, EXTENSION_MAJOR_XFIXES, EXTENSION_MAJOR_XKEYBOARD,
    EXTENSION_MAJOR_XRESOURCE}"

definition ext_query_blacklist :: "nat set" where
  "ext_query_blacklist =
    {EXTENSION_MAJOR_MIT_SCREEN_SAVER, EXTENSION_MAJOR_RECORD, EXTENSION_MAJOR_SECURITY,
    EXTENSION_MAJOR_XTEST, EXTENSION_MAJOR_XVIDEO}"

definition ext_dispatch_whitelist :: "nat set" where
  "ext_dispatch_whitelist =
    {EXTENSION_MAJOR_BIG_REQUESTS, EXTENSION_MAJOR_DAMAGE, EXTENSION_MAJOR_DOUBLE_BUFFER,
    EXTENSION_MAJOR_GENERIC_EVENT, EXTENSION_MAJOR_PRESENT, EXTENSION_MAJOR_XC_MISC,
    EXTENSION_MAJOR_XRESOURCE}"

definition dispatch_xkb_whitelist :: "nat set" where
  "dispatch_xkb_whitelist =
    {X_kbUseExtension, X_kbGetMap, X_kbSelectEvents, X_kbGetState, X_kbGetNames,
    X_kbGetControls, X_kbPerClientFlags}"

definition dispatch_xfixes_whitelist :: "nat set" where
  "dispatch_xfixes_whitelist =
    {X_XFixesQueryVersion, X_XFixesCreateRegion, X_XFixesSetCursorName,
    X_XFixesSelectSelectionInput}"

definition dispatch_sync_whitelist :: "nat set" where
  "dispatch_sync_whitelist =
    {X_SyncCreateCounter, X_SyncDestroyCounter, X_SyncInitialize, X_SyncSetCounter}"

definition ext_dispatch_blacklist :: "nat set" where
  "ext_dispatch_blacklist =
    {EXTENSION_MAJOR_MIT_SCREEN_SAVER, EXTENSION_MAJOR_RECORD, EXTENSION_MAJOR_SECURITY,
    EXTENSION_MAJOR_XTEST}"

text \<open>\<open>hookServerAccess\<close>, \<open>hookDevice\<close>, \<open>hookExtAccess\<close> and \<open>hookExtDispatch\<close>: the decisions.\<close>

definition server_access :: "Xnamespace \<Rightarrow> nat \<Rightarrow> x_status \<Rightarrow> x_status" where
  "server_access ns major status =
     (if superPower ns then Success
      else if major = X_ListFonts \<or> major = X_ListFontsWithInfo then Success
      else if major = X_GrabServer then BadAccess
      else BadAccess)"

definition device_access :: "Xnamespace \<Rightarrow> nat \<times> nat \<Rightarrow> x_status \<Rightarrow> x_status" where
  "device_access ns req status =
     (case req of (major, minor) \<Rightarrow>
        if superPower ns then Success
        else if major = X_QueryPointer \<or> major = X_GetInputFocus \<or> major = X_GetKeyboardMapping
             \<or> major = X_GetModifierMapping \<or> major = X_GrabButton then Success
        else if major = EXTENSION_MAJOR_XKEYBOARD then
          (if minor \<in> device_xkb_whitelist
           then Success else BadAccess)
        else if major = EXTENSION_MAJOR_XINPUT then
          (if minor = X_ListInputDevices \<or> minor = X_XIQueryDevice then Success else BadAccess)
        else BadAccess)"

definition ext_access :: "Xnamespace \<Rightarrow> nat \<Rightarrow> x_status \<Rightarrow> x_status" where
  "ext_access ns ext status =
     (if superPower ns then Success
      else if ext \<in> ext_query_whitelist then Success
      else if ext \<in> ext_query_blacklist then BadAccess
      else if ext = EXTENSION_MAJOR_SHAPE then (if allowShape ns then Success else BadAccess)
      else if ext = EXTENSION_MAJOR_XINPUT then (if allowXInput ns then Success else BadAccess)
      else status)"

definition ext_dispatch :: "Xnamespace \<Rightarrow> nat \<times> nat \<Rightarrow> x_status \<Rightarrow> x_status" where
  "ext_dispatch ns req status =
     (case req of (major, minor) \<Rightarrow>
        if superPower ns then Success
        else if major \<in> ext_dispatch_whitelist
        then Success
        else if major = EXTENSION_MAJOR_XKEYBOARD then
          (if allowXKeyboard ns then Success
           else if minor \<in> dispatch_xkb_whitelist
           then Success else BadAccess)
        else if major = EXTENSION_MAJOR_SHAPE then (if allowShape ns then Success else status)
        else if major = EXTENSION_MAJOR_XINPUT then
          (if allowXInput ns then Success
           else if minor = X_ListInputDevices then Success else status)
        else if major = EXTENSION_MAJOR_XFIXES then
          (if minor \<in> dispatch_xfixes_whitelist
           then Success else BadAccess)
        else if major = EXTENSION_MAJOR_SYNC then
          (if minor \<in> dispatch_sync_whitelist
           then Success else BadAccess)
        else if major \<in> ext_dispatch_blacklist then BadAccess
        else status)"

text \<open>The hooks themselves: \<open>subj->ns\<close> is dereferenced first, and with it \<open>client\<close>.\<close>

definition hookServerAccess :: "xns_state \<Rightarrow> xns_client option \<Rightarrow> x_status \<Rightarrow> x_status option" where
  "hookServerAccess st client status =
     do { ns \<leftarrow> ns_of st client; cl \<leftarrow> client; Some (server_access ns (majorOp cl) status) }"

definition hookDevice :: "xns_state \<Rightarrow> xns_client option \<Rightarrow> x_status \<Rightarrow> x_status option" where
  "hookDevice st client status =
     do { ns \<leftarrow> ns_of st client; cl \<leftarrow> client;
          Some (device_access ns (majorOp cl, minorOp cl) status) }"

definition hookExtAccess :: "xns_state \<Rightarrow> xns_client option \<Rightarrow> nat \<Rightarrow> x_status \<Rightarrow> x_status option" where
  "hookExtAccess st client ext_index status =
     do { ns \<leftarrow> ns_of st client; Some (ext_access ns (ext_index + EXTENSION_BASE) status) }"

definition hookExtDispatch :: "xns_state \<Rightarrow> xns_client option \<Rightarrow> x_status \<Rightarrow> x_status option" where
  "hookExtDispatch st client status =
     do { ns \<leftarrow> ns_of st client; cl \<leftarrow> client;
          Some (ext_dispatch ns (majorOp cl, minorOp cl) status) }"

section \<open>Hooks about another client\<close>

definition hookClient ::
  "xns_state \<Rightarrow> xns_client option \<Rightarrow> xns_client option \<Rightarrow> x_status \<Rightarrow> x_status option" where
  "hookClient st client target status =
     do { ns \<leftarrow> ns_of st client;
          if superPower ns \<or> XnsClientSameNS (XnsClientPriv st client) (XnsClientPriv st target)
          then Some status
          else do { _ \<leftarrow> target; Some BadValue } }"

text \<open>
  \<open>hookSend\<close>. A null client is the server itself. Before refusing, the hook logs the name of the
  target's namespace; a window without a live owner has none.
\<close>

definition clientAllowedOnClient ::
  "xns_state \<Rightarrow> xns_client option \<Rightarrow> xns_client option \<Rightarrow> bool option" where
  "clientAllowedOnClient st subj obj =
     (case XnsClientPriv st subj of
        None \<Rightarrow> Some (XnsClientSameNS None (XnsClientPriv st obj))
      | Some p \<Rightarrow>
          do { ns \<leftarrow> ns_of st subj;
               if superPower ns then Some True
               else Some (XnsClientSameNS (Some p) (XnsClientPriv st obj)) })"

definition hookSend :: "xns_state \<Rightarrow> xns_client option \<Rightarrow> xwindow \<Rightarrow> x_status \<Rightarrow> x_status option" where
  "hookSend st client pWin status =
     (if client = None then Some Success
      else do { ok \<leftarrow> clientAllowedOnClient st client (win_owner pWin);
                if ok then Some Success
                else do { _ \<leftarrow> ns_of st (win_owner pWin); Some BadAccess } })"

text \<open>\<open>hookReceive\<close> walks the event array; \<open>True\<close> is the \<open>pass\<close> label, \<open>False\<close> the \<open>reject\<close> label.\<close>

record xevent =
  ev_type :: nat
  ge_extension :: nat
  ge_evtype :: nat

definition isRootWin :: "xwindow \<Rightarrow> bool" where
  "isRootWin pWin \<longleftrightarrow> win_parent pWin = None \<and> is_serverClient (win_owner pWin)"

fun receive_events :: "Xnamespace option \<Rightarrow> xwindow \<Rightarrow> xevent list \<Rightarrow> bool option" where
  "receive_events subj_ns pWin [] = Some True"
| "receive_events subj_ns pWin (ev # evs) =
     (if ev_type ev = GenericEvent then
        (if ge_extension ev = EXTENSION_MAJOR_XINPUT then
           (if ge_evtype ev = XI_RawMotion then
              do { ns \<leftarrow> subj_ns;
                   if \<not> allowMouseMotion ns \<or> \<not> isRootWin pWin then Some False
                   else receive_events subj_ns pWin evs }
            else if ge_evtype ev = XI_RawKeyPress \<or> ge_evtype ev = XI_RawKeyRelease then Some False
            else Some False)
         else Some False)
      else Some False)"

definition hookReceive ::
  "xns_state \<Rightarrow> xns_client option \<Rightarrow> xwindow \<Rightarrow> xevent list \<Rightarrow> x_status \<Rightarrow> x_status option" where
  "hookReceive st client pWin events status =
     (if XnsClientSameNS (XnsClientPriv st client) (XnsClientPriv st (win_owner pWin)) then Some status
      else do { pass \<leftarrow> receive_events (ns_of st client) pWin events;
                if pass then Some status
                else do { _ \<leftarrow> ns_of st client; _ \<leftarrow> ns_of st (win_owner pWin); Some BadAccess } })"

text \<open>\<open>hookPropertyAccess\<close> only logs: it never changes the status.\<close>

definition hookPropertyAccess ::
  "xns_state \<Rightarrow> xns_client option \<Rightarrow> xwindow \<Rightarrow> x_status \<Rightarrow> x_status option" where
  "hookPropertyAccess st client pWin status =
     (if XnsClientSameNS (XnsClientPriv st client) (XnsClientPriv st (win_owner pWin)) then Some status
      else do { ns \<leftarrow> ns_of st client;
                if Some (wid pWin) = rootWindow ns then Some status
                else do { _ \<leftarrow> win_owner pWin; Some status } })"

section \<open>Resource access\<close>

text \<open>
  \<open>hookResourceAccess\<close>. \<open>owner\<close> is \<open>dixLookupXIDOwner (param->id)\<close>, \<open>res\<close> is \<open>param->res\<close> when the
  resource is a window. The switches jump to \<open>pass\<close> or \<open>reject\<close>, or fall out of the statement. The
  result is the status and the window, whose background the hook may force.
\<close>

definition checkAllowed :: "u32 \<Rightarrow> u32 \<Rightarrow> bool" where
  "checkAllowed requested allowed \<longleftrightarrow> requested AND allowed = requested"

datatype verdict = Pass | Reject | FallOut

definition own_root_verdict :: "Xnamespace \<Rightarrow> nat \<Rightarrow> xwindow option \<Rightarrow> verdict option" where
  "own_root_verdict ns major pWindow =
     (if map_option wid pWindow = rootWindow ns then
        (if major = X_DeleteProperty \<or> major = X_ChangeProperty \<or> major = X_GetProperty
          \<or> major = X_RotateProperties \<or> major = X_QueryTree then Some Pass
         else do { _ \<leftarrow> pWindow; Some FallOut })
      else Some FallOut)"

definition real_root_verdict :: "xns_client \<Rightarrow> u32 \<Rightarrow> xwindow option \<Rightarrow> verdict" where
  "real_root_verdict client mode pWindow =
     (case pWindow of
        None \<Rightarrow> FallOut
      | Some w \<Rightarrow>
          if wid w \<noteq> win_screen_root w then FallOut
          else if majorOp client = X_CreateWindow then
            (if checkAllowed mode DixAddAccess then Pass else FallOut)
          else if majorOp client = X_CreateGC \<or> majorOp client = X_CreatePixmap then
            (if checkAllowed mode DixGetAttrAccess then Pass else FallOut)
          else if majorOp client = X_DestroyWindow then
            (if mode = DixRemoveAccess then Pass else FallOut)
          else if majorOp client = X_TranslateCoords \<or> majorOp client = X_QueryTree then Pass
          else if majorOp client = X_ChangeWindowAttributes \<or> majorOp client = X_QueryPointer
          then Reject
          else if majorOp client = X_SendEvent then Pass
          else if majorOp client = EXTENSION_MAJOR_XINPUT then
            (if minorOp client = X_XISelectEvents then Pass else Reject)
          else FallOut)"

definition server_verdict :: "restype \<Rightarrow> u32 \<Rightarrow> xwindow option \<Rightarrow> verdict option" where
  "server_verdict rtype mode pWindow =
     (if rtype = RT_Colormap
         \<and> checkAllowed mode (DixReadAccess OR DixGetPropAccess OR DixUseAccess
                              OR DixGetAttrAccess OR DixAddAccess) then Some Pass
      else if rtype = RT_Window then do { _ \<leftarrow> pWindow; Some Reject }
      else if checkAllowed mode DixReadAccess then Some Pass
      else Some FallOut)"

text \<open>The tests between the namespace comparison and the \<open>reject\<close> label, in their order.\<close>

definition foreign_verdict ::
  "Xnamespace \<Rightarrow> XnamespaceClientPriv option \<Rightarrow> xns_client \<Rightarrow> restype \<Rightarrow> u32 \<Rightarrow> xwindow option
   \<Rightarrow> verdict option" where
  "foreign_verdict ns obj client rtype mode pWindow =
     do { v1 \<leftarrow> (if rtype = RT_Window then own_root_verdict ns (majorOp client) pWindow
                else Some FallOut);
          if v1 \<noteq> FallOut then Some v1
          else
            let v2 = (if rtype = RT_Window then real_root_verdict client mode pWindow else FallOut)
            in if v2 \<noteq> FallOut then Some v2
               else do { o1 \<leftarrow> obj;
                         if isServer o1 then server_verdict rtype mode pWindow
                         else Some FallOut } }"

definition forced_background ::
  "Xnamespace \<Rightarrow> restype \<Rightarrow> u32 \<Rightarrow> xwindow option \<Rightarrow> xwindow option option" where
  "forced_background ns rtype mode pWindow =
     (if rtype = RT_Window \<and> mode AND DixCreateAccess \<noteq> 0 \<and> \<not> allowTransparency ns
      then do { w \<leftarrow> pWindow; Some (Some (w\<lparr> forcedBG := True \<rparr>)) }
      else Some pWindow)"

definition hookResourceAccess ::
  "xns_state \<Rightarrow> xns_client option \<Rightarrow> xns_client option \<Rightarrow> restype \<Rightarrow> u32 \<Rightarrow> xwindow option
   \<Rightarrow> (x_status \<times> xwindow option) option" where
  "hookResourceAccess st client owner rtype mode res =
     (if is_serverClient client then Some (Success, res)
      else do { ns \<leftarrow> ns_of st client;
                cl \<leftarrow> client;
                win \<leftarrow> forced_background ns rtype mode res;
                if XnsClientSameNS (XnsClientPriv st client) (XnsClientPriv st owner)
                then Some (Success, win)
                else do { v \<leftarrow> foreign_verdict ns (XnsClientPriv st owner) cl rtype mode win;
                          if v = Pass then Some (Success, win)
                          else do { _ \<leftarrow> ns_of st owner; Some (BadAccess, win) } } })"

section \<open>Window properties and root windows\<close>

text \<open>
  \<open>hookWindowProperty\<close>: the window the property request is carried out on, or a status with the
  request skipped. \<open>owner_of\<close> is \<open>dixLookupXIDOwner\<close>, \<open>is_root\<close> is \<open>dixWindowIsRoot\<close>.
\<close>

datatype property_target = On_window xid | Skipped x_status

definition hookWindowProperty ::
  "(xid \<Rightarrow> xns_client option) \<Rightarrow> (xid \<Rightarrow> bool) \<Rightarrow> xns_state \<Rightarrow> xns_client option \<Rightarrow> xid
   \<Rightarrow> property_target option" where
  "hookWindowProperty owner_of is_root st client window =
     do { ns \<leftarrow> ns_of st client;
          if superPower ns then Some (On_window window)
          else (case owner_of window of
              None \<Rightarrow> Some (Skipped BadWindow)
            | Some owner \<Rightarrow>
                if XnsClientSameNS (XnsClientPriv st client) (XnsClientPriv st (Some owner))
                then Some (On_window window)
                else do { vroot \<leftarrow> rootWindow ns;
                          if window = vroot then Some (On_window window)
                          else if is_root window then Some (On_window vroot)
                          else Some (On_window window) }) }"

text \<open>
  \<open>hookInitRootWindow\<close> on a screen with number \<open>myNum\<close> and root window \<open>realRoot\<close>. \<open>new_window\<close> is
  the sequence of identifiers the created windows get; the failures of \<open>dixCreateWindow\<close> and
  \<open>AddResource\<close> end the server. The result is the state, the WM_NAME property of each created
  window, and how many windows were created.
\<close>

fun init_roots ::
  "(nat \<Rightarrow> xid) \<Rightarrow> xid \<Rightarrow> Xnamespace list \<Rightarrow> nat \<Rightarrow> Xnamespace list \<times> (xid \<times> string) list \<times> nat" where
  "init_roots new_window realRoot [] k = ([], [], k)"
| "init_roots new_window realRoot (walk # rest) k =
     (if ns_name walk = NS_NAME_ROOT then
        (case init_roots new_window realRoot rest k of
           (nss, props, k') \<Rightarrow> (walk\<lparr> rootWindow := Some realRoot \<rparr> # nss, props, k'))
      else
        (case init_roots new_window realRoot rest (Suc k) of
           (nss, props, k') \<Rightarrow>
             (walk\<lparr> rootWindow := Some (new_window k) \<rparr> # nss,
              (new_window k, take 4094 (''XNS-ROOT:'' @ ns_name walk)) # props, k')))"

definition hookInitRootWindow ::
  "(nat \<Rightarrow> xid) \<Rightarrow> nat \<Rightarrow> xid \<Rightarrow> nat \<Rightarrow> xns_state \<Rightarrow> xns_state \<times> (xid \<times> string) list \<times> nat" where
  "hookInitRootWindow new_window myNum realRoot k st =
     (if myNum \<noteq> 0 then (st, [], k)
      else (case init_roots new_window realRoot (ns_list st) k of
              (nss, props, k') \<Rightarrow> (st\<lparr> ns_list := nss \<rparr>, props, k')))"

end
