(* ===== verification/NsAccess.thy ===== *)
theory NsAccess
  imports NsHooks
begin

unbundle bit_operations_syntax

text \<open>
  What the access hooks guarantee. The permission flags of a namespace form an order, the
  decisions that look only at the request share one contract (\<open>access_policy\<close>: superpower passes,
  and more flags never refuse more), and the hooks that look at another client or a resource keep
  namespaces apart.
\<close>

section \<open>The order of the permission flags\<close>

datatype perms = Perms (p_motion: bool) (p_shape: bool) (p_transp: bool) (p_xinput: bool)
  (p_xkb: bool) (p_super: bool)

definition perms_of :: "Xnamespace \<Rightarrow> perms" where
  "perms_of ns = Perms (allowMouseMotion ns) (allowShape ns) (allowTransparency ns)
     (allowXInput ns) (allowXKeyboard ns) (superPower ns)"

instantiation perms :: "{order_bot, order_top}"
begin

definition less_eq_perms :: "perms \<Rightarrow> perms \<Rightarrow> bool" where
  "less_eq_perms p q \<longleftrightarrow> p_motion p \<le> p_motion q \<and> p_shape p \<le> p_shape q \<and> p_transp p \<le> p_transp q
     \<and> p_xinput p \<le> p_xinput q \<and> p_xkb p \<le> p_xkb q \<and> p_super p \<le> p_super q"

definition less_perms :: "perms \<Rightarrow> perms \<Rightarrow> bool" where
  "less_perms p q \<longleftrightarrow> p \<le> q \<and> \<not> q \<le> p"

definition bot_perms :: perms where "bot_perms = Perms False False False False False False"
definition top_perms :: perms where "top_perms = Perms True True True True True True"

instance
proof
  fix p q r :: perms
  show "p < q \<longleftrightarrow> p \<le> q \<and> \<not> q \<le> p" by (rule less_perms_def)
  show "p \<le> p" by (simp add: less_eq_perms_def)
  show "p \<le> q \<Longrightarrow> q \<le> r \<Longrightarrow> p \<le> r" by (simp add: less_eq_perms_def)
  show "p \<le> q \<Longrightarrow> q \<le> p \<Longrightarrow> p = q" by (cases p; cases q) (auto simp: less_eq_perms_def)
  show "bot \<le> p" by (simp add: less_eq_perms_def bot_perms_def)
  show "p \<le> top" by (simp add: less_eq_perms_def top_perms_def)
qed

end

lemma perms_of_anon [simp]: "perms_of ns_anon = bot"
  by (simp add: perms_of_def ns_anon_def bot_perms_def)

lemma perms_of_root [simp]: "perms_of ns_root = top"
  by (simp add: perms_of_def ns_root_def top_perms_def)

lemma perms_of_le_iff:
  "perms_of a \<le> perms_of b \<longleftrightarrow>
     (allowMouseMotion a \<longrightarrow> allowMouseMotion b) \<and> (allowShape a \<longrightarrow> allowShape b)
   \<and> (allowTransparency a \<longrightarrow> allowTransparency b) \<and> (allowXInput a \<longrightarrow> allowXInput b)
   \<and> (allowXKeyboard a \<longrightarrow> allowXKeyboard b) \<and> (superPower a \<longrightarrow> superPower b)"
  by (simp add: less_eq_perms_def perms_of_def le_bool_def)

section \<open>The contract of a request-only hook\<close>

locale access_policy =
  fixes decide :: "Xnamespace \<Rightarrow> 'req \<Rightarrow> x_status \<Rightarrow> x_status"
  assumes superpower: "superPower ns \<Longrightarrow> decide ns r s = Success"
    and decided: "decide ns r s = Success \<or> decide ns r s = BadAccess \<or> decide ns r s = s"
    and mono: "perms_of a \<le> perms_of b \<Longrightarrow> decide a r Success = Success \<Longrightarrow> decide b r Success = Success"
begin

lemma two_valued: "decide ns r Success \<noteq> Success \<longleftrightarrow> decide ns r Success = BadAccess"
  using decided[of ns r Success] by auto

lemma flags_only:
  assumes "perms_of a = perms_of b"
  shows "decide a r Success = decide b r Success"
  using mono[of a b r] mono[of b a r] assms two_valued by (metis order_refl)

lemma antimono: "perms_of a \<le> perms_of b \<Longrightarrow> decide b r Success = BadAccess \<Longrightarrow> decide a r Success = BadAccess"
  using mono[of a b r] two_valued[of b r] two_valued[of a r] by auto

lemma anon_least: "decide ns_anon r Success = Success \<Longrightarrow> decide ns r Success = Success"
  using mono[of ns_anon ns r] by simp

end

interpretation server_policy: access_policy server_access
  by unfold_locales (auto simp: server_access_def perms_of_le_iff split: if_splits)

interpretation device_policy: access_policy device_access
  by unfold_locales (auto simp: device_access_def perms_of_le_iff split: if_splits)

interpretation ext_query_policy: access_policy ext_access
  by unfold_locales
    (auto simp: ext_access_def perms_of_le_iff split: if_splits)

lemma ext_dispatch_mono:
  assumes le: "perms_of a \<le> perms_of b" and a: "ext_dispatch a (major, minor) Success = Success"
  shows "ext_dispatch b (major, minor) Success = Success"
proof (cases "superPower b \<or> major \<in> ext_dispatch_whitelist")
  case False
  with le have sp: "\<not> superPower a" "\<not> superPower b" "major \<notin> ext_dispatch_whitelist"
    by (auto simp: perms_of_le_iff)
  have flags: "allowXKeyboard a \<longrightarrow> allowXKeyboard b" using le by (simp add: perms_of_le_iff)
  show ?thesis
  proof (cases "major = EXTENSION_MAJOR_XKEYBOARD \<and> allowXKeyboard b")
    case False
    with flags have "\<not> (major = EXTENSION_MAJOR_XKEYBOARD \<and> allowXKeyboard a)" by blast
    with False a sp show ?thesis by (simp add: ext_dispatch_def cong: if_cong)
  qed (use sp in \<open>simp add: ext_dispatch_def\<close>)
qed (auto simp: ext_dispatch_def)

interpretation ext_dispatch_policy: access_policy ext_dispatch
proof
  fix ns r s
  show "superPower ns \<Longrightarrow> ext_dispatch ns r s = Success"
    by (cases r) (simp add: ext_dispatch_def)
  show "ext_dispatch ns r s = Success \<or> ext_dispatch ns r s = BadAccess \<or> ext_dispatch ns r s = s"
    by (cases r) (simp add: ext_dispatch_def)
next
  fix a b r
  show "perms_of a \<le> perms_of b \<Longrightarrow> ext_dispatch a r Success = Success \<Longrightarrow> ext_dispatch b r Success = Success"
    using ext_dispatch_mono by (cases r) blast
qed

section \<open>Reading a client's namespace\<close>

lemma ns_of_Some [ns_simps]:
  "priv_ns (privs st (cl_index cl)) = Some i \<Longrightarrow> ns_of st (Some cl) = Some (ns_list st ! i)"
  by (simp add: ns_of_def XnsClientPriv_def)

lemma priv_Some [simp]: "XnsClientPriv st (Some cl) = Some (privs st (cl_index cl))"
  by (simp add: XnsClientPriv_def)

lemma priv_None [simp]: "XnsClientPriv st None = None"
  by (simp add: XnsClientPriv_def)

lemma same_ns_simps [simp]:
  "XnsClientSameNS None None" "\<not> XnsClientSameNS (Some a) None" "\<not> XnsClientSameNS None (Some a)"
  "XnsClientSameNS (Some a) (Some b) \<longleftrightarrow> priv_ns a = priv_ns b"
  by (simp_all add: XnsClientSameNS_def)

text \<open>A state with one client in each of two namespaces besides the server, for the examples.\<close>

definition demo_st :: xns_state where
  "demo_st = \<lparr> ns_list = [ns_root\<lparr> rootWindow := Some 1 \<rparr>, ns_anon\<lparr> rootWindow := Some 2 \<rparr>,
                          (new_ns ''foo'')\<lparr> rootWindow := Some 3 \<rparr>],
     privs = (\<lambda>_. no_priv)(0 := \<lparr> isServer = True, privAuthId = 0, priv_ns = Some 0 \<rparr>,
                          1 := \<lparr> isServer = False, privAuthId = 0, priv_ns = Some 1 \<rparr>,
                          2 := \<lparr> isServer = False, privAuthId = 0, priv_ns = Some 2 \<rparr>),
     mit_auth = [], n_server_xids = 0, null_name = None \<rparr>"

definition demo_client :: "nat \<Rightarrow> nat \<Rightarrow> xns_client" where
  "demo_client i major = \<lparr> cl_index = i, majorOp = major, minorOp = 0 \<rparr>"

definition demo_window :: "xid \<Rightarrow> nat \<Rightarrow> xwindow" where
  "demo_window w c = \<lparr> wid = w, win_parent = Some 1, win_owner = Some (demo_client c 0),
     win_screen_root = 1, forcedBG = False \<rparr>"

lemmas demo_ns_defs = demo_st_def demo_client_def demo_window_def no_priv_def

section \<open>Properties\<close>

text \<open>
  The request filters are monotone in the permissions: if one namespace has at least the
  permission flags of another, every server, device, extension query and extension request that
  a client of the weaker namespace may make is also allowed to a client of the stronger one.
\<close>

theorem request_hooks_monotone:
  assumes "ns_of st c = Some a" "ns_of st' c' = Some b" "perms_of a \<le> perms_of b"
    and "c = Some cl" "c' = Some cl'" "majorOp cl' = majorOp cl" "minorOp cl' = minorOp cl"
  shows "(hookServerAccess st c Success = Some Success \<longrightarrow> hookServerAccess st' c' Success = Some Success)
       \<and> (hookDevice st c Success = Some Success \<longrightarrow> hookDevice st' c' Success = Some Success)
       \<and> (hookExtAccess st c e Success = Some Success \<longrightarrow> hookExtAccess st' c' e Success = Some Success)
       \<and> (hookExtDispatch st c Success = Some Success \<longrightarrow> hookExtDispatch st' c' Success = Some Success)"
  using assms server_policy.mono[OF assms(3)] device_policy.mono[OF assms(3)]
    ext_query_policy.mono[OF assms(3)] ext_dispatch_policy.mono[OF assms(3)]
  by (auto simp: hookServerAccess_def hookDevice_def hookExtAccess_def hookExtDispatch_def)

theorem request_hooks_monotone_witness:
  "hookDevice demo_st (Some (demo_client 1 X_QueryPointer)) Success = Some Success \<and>
   hookDevice demo_st (Some (demo_client 2 X_QueryPointer)) Success = Some Success"
proof -
  have "hookDevice demo_st (Some (demo_client 1 X_QueryPointer)) Success = Some Success"
    by (simp add: hookDevice_def ns_of_def demo_ns_defs device_access_def)
  moreover from this have "hookDevice demo_st (Some (demo_client 2 X_QueryPointer)) Success = Some Success"
    using request_hooks_monotone[of demo_st "Some (demo_client 1 38)" "ns_list demo_st ! 1" demo_st
        "Some (demo_client 2 38)" "ns_list demo_st ! 2" "demo_client 1 38" "demo_client 2 38" 0]
    by (simp add: ns_of_def demo_ns_defs perms_of_le_iff ns_anon_def new_ns_def)
  ultimately show ?thesis by simp
qed

text \<open>
  C39. Hiding an extension and refusing its requests are not the same set: for a client without
  superpower, some request of an extension is let through by the dispatch hook although the
  extension is hidden from the client exactly for XVIDEO, for SHAPE without the shape
  permission and for XINPUT without the xinput permission.
\<close>

theorem hidden_but_dispatched:
  assumes "ns_of st (Some cl) = Some ns" "\<not> superPower ns"
    and "majorOp cl = ext + EXTENSION_BASE"
  shows "hookExtAccess st (Some cl) ext Success = Some BadAccess \<and>
         hookExtDispatch st (Some cl) Success = Some Success \<longleftrightarrow>
           majorOp cl = EXTENSION_MAJOR_XVIDEO
         \<or> majorOp cl = EXTENSION_MAJOR_SHAPE \<and> \<not> allowShape ns
         \<or> majorOp cl = EXTENSION_MAJOR_XINPUT \<and> \<not> allowXInput ns"
proof -
  have "ext_access ns (majorOp cl) Success = BadAccess \<longleftrightarrow>
      majorOp cl \<in> ext_query_blacklist \<or> majorOp cl = EXTENSION_MAJOR_SHAPE \<and> \<not> allowShape ns
      \<or> majorOp cl = EXTENSION_MAJOR_XINPUT \<and> \<not> allowXInput ns"
    using assms(2) by (auto simp: ext_access_def ext_query_whitelist_def ext_query_blacklist_def)
  moreover have "hookExtAccess st (Some cl) ext Success = Some (ext_access ns (majorOp cl) Success)"
    "hookExtDispatch st (Some cl) Success = Some (ext_dispatch ns (majorOp cl, minorOp cl) Success)"
    using assms by (simp_all add: hookExtAccess_def hookExtDispatch_def)
  moreover have "ext_dispatch ns (m, n) Success = BadAccess" if "m \<in> ext_dispatch_blacklist" for m n
    using assms(2) that
    by (auto simp: ext_dispatch_def ext_dispatch_blacklist_def ext_dispatch_whitelist_def)
  moreover have "ext_dispatch ns (m, n) Success = Success"
    if "m = EXTENSION_MAJOR_XVIDEO \<or> m = EXTENSION_MAJOR_SHAPE \<or> m = EXTENSION_MAJOR_XINPUT" for m n
    using that by (auto simp: ext_dispatch_def ext_dispatch_blacklist_def ext_dispatch_whitelist_def)
  moreover have "ext_query_blacklist = insert EXTENSION_MAJOR_XVIDEO ext_dispatch_blacklist"
    by (auto simp: ext_query_blacklist_def ext_dispatch_blacklist_def)
  ultimately show ?thesis by auto
qed

theorem hidden_but_dispatched_witness:
  "hookExtAccess demo_st (Some (demo_client 2 EXTENSION_MAJOR_SHAPE)) 19 Success = Some BadAccess \<and>
   hookExtDispatch demo_st (Some (demo_client 2 EXTENSION_MAJOR_SHAPE)) Success = Some Success"
proof -
  have "ns_of demo_st (Some (demo_client 2 147)) = Some (ns_list demo_st ! 2)"
    "\<not> superPower (ns_list demo_st ! 2)" "\<not> allowShape (ns_list demo_st ! 2)"
    "majorOp (demo_client 2 147) = 19 + EXTENSION_BASE"
    by (simp_all add: ns_of_def demo_ns_defs new_ns_def)
  then show ?thesis
    using hidden_but_dispatched[of demo_st "demo_client 2 147" "ns_list demo_st ! 2" 19] by simp
qed

text \<open>Facts on the window a resource check is about.\<close>

lemma forced_background_same:
  "forced_background ns rtype mode (Some w) = Some (Some w') \<Longrightarrow>
     wid w' = wid w \<and> win_screen_root w' = win_screen_root w"
  by (auto simp: forced_background_def split: if_splits)

lemma forced_background_Some:
  obtains w' where "forced_background ns rtype mode (Some w) = Some (Some w')"
  by (cases "rtype = RT_Window \<and> mode AND DixCreateAccess \<noteq> 0 \<and> \<not> allowTransparency ns")
    (auto simp: forced_background_def)

lemma forced_background_other:
  "rtype \<noteq> RT_Window \<Longrightarrow> forced_background ns rtype mode res = Some res"
  by (simp add: forced_background_def)

text \<open>
  The decision on a resource of a client in another namespace, for any caller but the server's own
  client: the superpower flag is never looked at.
\<close>

lemma foreign_resource_BadAccess:
  assumes "cl_index cl \<noteq> 0" "priv_ns (privs st (cl_index cl)) = Some i"
    and "priv_ns (privs st (cl_index owner)) = Some j" "i \<noteq> j" "\<not> isServer (privs st (cl_index owner))"
    and "rtype = RT_Window \<Longrightarrow>
           res = Some w \<and> rootWindow (ns_list st ! i) \<noteq> Some (wid w) \<and> wid w \<noteq> win_screen_root w"
  shows "hookResourceAccess st (Some cl) (Some owner) rtype mode res =
    Some (BadAccess, the (forced_background (ns_list st ! i) rtype mode res))"
proof (cases "rtype = RT_Window")
  case True
  with assms(6) have res: "res = Some w" "rootWindow (ns_list st ! i) \<noteq> Some (wid w)"
    "wid w \<noteq> win_screen_root w" by simp_all
  obtain w' where w': "forced_background (ns_list st ! i) rtype mode (Some w) = Some (Some w')"
    by (rule forced_background_Some)
  with res show ?thesis
    using assms(1-5) forced_background_same[OF w']
    by (auto simp: hookResourceAccess_def is_serverClient_def ns_simps foreign_verdict_def
        own_root_verdict_def real_root_verdict_def)
next
  case False
  then show ?thesis
    using assms(1-5)
    by (auto simp: hookResourceAccess_def is_serverClient_def ns_simps foreign_verdict_def
        forced_background_other)
qed

text \<open>
  C1. Confined clients cannot reach the resources of other namespaces: an access by a client of a
  namespace other than the root namespace and without superpower, to a resource of a client in a
  different namespace, is refused with BadAccess, whatever the access mode, the request and the
  other permission flags, unless the resource is the caller's own virtual root window or the
  screen's root window; and all it does to the resource is to force a new window's background when
  the namespace has no transparency permission.
\<close>

theorem foreign_resource_denied:
  assumes "i \<noteq> ns_root_idx" "\<not> superPower (ns_list st ! i)"
    and "cl_index cl \<noteq> 0" "priv_ns (privs st (cl_index cl)) = Some i"
    and "priv_ns (privs st (cl_index owner)) = Some j" "i \<noteq> j" "\<not> isServer (privs st (cl_index owner))"
    and "rtype = RT_Window \<Longrightarrow>
           res = Some w \<and> rootWindow (ns_list st ! i) \<noteq> Some (wid w) \<and> wid w \<noteq> win_screen_root w"
  shows "hookResourceAccess st (Some cl) (Some owner) rtype mode res =
    Some (BadAccess,
      if rtype = RT_Window \<and> mode AND DixCreateAccess \<noteq> 0 \<and> \<not> allowTransparency (ns_list st ! i)
      then Some (w\<lparr> forcedBG := True \<rparr>) else res)"
  using foreign_resource_BadAccess[OF assms(3-8)] assms(8)
  by (auto simp: forced_background_def)

theorem foreign_resource_denied_witness:
  "hookResourceAccess demo_st (Some (demo_client 1 X_ChangeProperty))
      (Some (demo_client 2 0)) RT_Window DixReadAccess (Some (demo_window 77 2))
    = Some (BadAccess, Some (demo_window 77 2))"
  by (subst foreign_resource_denied[where i = 1 and j = 2 and w = "demo_window 77 2"])
    (simp_all add: demo_ns_defs ns_anon_def)

text \<open>
  Where the code departs from \<open>doc/Xnamespace.md\<close>, which calls the root namespace unrestricted: a
  client of the root namespace, with its superpower, is refused the same resources.
\<close>

theorem root_resource_denied:
  assumes "cl_index cl \<noteq> 0" "priv_ns (privs st (cl_index cl)) = Some ns_root_idx"
    and "superPower (ns_list st ! ns_root_idx)"
    and "priv_ns (privs st (cl_index owner)) = Some j" "j \<noteq> ns_root_idx"
    and "\<not> isServer (privs st (cl_index owner))" "rtype \<noteq> RT_Window"
  shows "hookResourceAccess st (Some cl) (Some owner) rtype mode res = Some (BadAccess, res)"
  using foreign_resource_BadAccess[OF assms(1,2,4) assms(5)[symmetric] assms(6), of rtype res] assms(7)
  by (simp add: forced_background_other)

theorem root_resource_denied_witness:
  "hookResourceAccess (demo_st\<lparr> privs := (privs demo_st)(5 := \<lparr> isServer = False, privAuthId = 0,
       priv_ns = Some 0 \<rparr>) \<rparr>) (Some (demo_client 5 X_CreateGC)) (Some (demo_client 2 0)) RT_Colormap
     DixReadAccess None = Some (BadAccess, None)"
  by (rule root_resource_denied[where j = 2]) (simp_all add: demo_ns_defs ns_root_def)

text \<open>
  C37. What a namespace may do with the screen's root window, owned by the server in the root
  namespace: only create a window on it, create a GC or pixmap for it, remove a top level window
  from it (with exactly the matching access mode), translate coordinates, query the tree, send an
  event to it, or select XI2 events on it.
\<close>

theorem real_root_access:
  assumes "cl_index cl \<noteq> 0" "priv_ns (privs st (cl_index cl)) = Some i" "i \<noteq> ns_root_idx"
    and "priv_ns (privs st 0) = Some ns_root_idx" "isServer (privs st 0)" "cl_index server = 0"
    and "wid w = win_screen_root w" "rootWindow (ns_list st ! i) = Some v" "v \<noteq> wid w"
  shows "map_option fst (hookResourceAccess st (Some cl) (Some server) RT_Window mode (Some w)) =
     Some (if majorOp cl = X_CreateWindow \<and> checkAllowed mode DixAddAccess
            \<or> majorOp cl \<in> {X_CreateGC, X_CreatePixmap} \<and> checkAllowed mode DixGetAttrAccess
            \<or> majorOp cl = X_DestroyWindow \<and> mode = DixRemoveAccess
            \<or> majorOp cl \<in> {X_TranslateCoords, X_QueryTree, X_SendEvent}
            \<or> majorOp cl = EXTENSION_MAJOR_XINPUT \<and> minorOp cl = X_XISelectEvents
           then Success else BadAccess)"
proof -
  obtain w' where w': "forced_background (ns_list st ! i) RT_Window mode (Some w) = Some (Some w')"
    by (rule forced_background_Some)
  have "own_root_verdict (ns_list st ! i) m (Some w') = Some FallOut" for m
    using assms(7-9) forced_background_same[OF w'] by (simp add: own_root_verdict_def)
  with w' show ?thesis
    using assms forced_background_same[OF w']
    by (simp add: hookResourceAccess_def is_serverClient_def ns_simps foreign_verdict_def
        real_root_verdict_def server_verdict_def Let_def)
qed

theorem real_root_access_witness:
  "map_option fst (hookResourceAccess demo_st (Some (demo_client 2 X_ChangeProperty))
      (Some (demo_client 0 0)) RT_Window DixReadAccess (Some (demo_window 1 0))) = Some BadAccess"
  by (subst real_root_access[where i = 2 and v = 3]) (simp_all add: demo_ns_defs)

text \<open>
  Windows of a namespace without the transparency permission are opaque: whenever creating a
  window succeeds for a client other than the server, the window's background is forced unless
  the namespace has the permission; no other access changes the window.
\<close>

theorem transparency_blocked:
  assumes "cl_index cl \<noteq> 0" "ns_of st (Some cl) = Some ns"
    and "hookResourceAccess st (Some cl) owner RT_Window mode (Some w) = Some (s, res)"
  shows "res = Some (if mode AND DixCreateAccess \<noteq> 0 \<and> \<not> allowTransparency ns
                     then w\<lparr> forcedBG := True \<rparr> else w)"
  using assms
  by (auto simp: hookResourceAccess_def is_serverClient_def forced_background_def split: if_splits)

theorem transparency_blocked_witness:
  "hookResourceAccess demo_st (Some (demo_client 2 X_CreateWindow)) (Some (demo_client 2 0)) RT_Window
      DixCreateAccess (Some (demo_window 9 2)) = Some (Success, Some ((demo_window 9 2)\<lparr> forcedBG := True \<rparr>))"
proof -
  obtain res where r: "hookResourceAccess demo_st (Some (demo_client 2 1)) (Some (demo_client 2 0)) RT_Window
      DixCreateAccess (Some (demo_window 9 2)) = Some (Success, res)"
    by (simp add: hookResourceAccess_def is_serverClient_def demo_ns_defs ns_of_def forced_background_def new_ns_def)
  have "ns_of demo_st (Some (demo_client 2 1)) = Some (ns_list demo_st ! 2)"
    "\<not> allowTransparency (ns_list demo_st ! 2)" "cl_index (demo_client 2 1) \<noteq> 0"
    by (simp_all add: demo_ns_defs ns_of_def new_ns_def)
  with r transparency_blocked[OF _ _ r, of "ns_list demo_st ! 2"] show ?thesis by simp
qed

text \<open>
  Superpower gives no access to resources: the decision on a resource does not depend on any
  namespace's superpower flag.
\<close>

theorem resource_ignores_superpower:
  "hookResourceAccess (upd_ns k (\<lambda>ns. ns\<lparr> superPower := b \<rparr>) st) client owner rtype mode res =
   hookResourceAccess st client owner rtype mode res"
proof -
  let ?st = "upd_ns k (\<lambda>ns. ns\<lparr> superPower := b \<rparr>) st"
  have priv: "privs ?st = privs st" by (simp add: upd_ns_def)
  have nth: "ns_list ?st ! j = (if j = k \<and> k < length (ns_list st)
      then (ns_list st ! j)\<lparr> superPower := b \<rparr> else ns_list st ! j)" for j
    by (auto simp: upd_ns_def upd_nth_def list_update_beyond)
  have x: "XnsClientPriv ?st c = XnsClientPriv st c" for c by (simp add: XnsClientPriv_def priv)
  have of: "\<exists>f. ns_of ?st c = map_option (superPower_update f) (ns_of st c)" for c
  proof (cases "XnsClientPriv st c \<bind> priv_ns")
    case (Some j)
    then have "ns_of st c = Some (ns_list st ! j)" "ns_of ?st c = Some (ns_list ?st ! j)"
      by (auto simp: ns_of_def x)
    moreover have "ns_list ?st ! j = superPower_update (\<lambda>p. if j = k \<and> k < length (ns_list st) then b else p)
        (ns_list st ! j)" by (simp add: nth)
    ultimately show ?thesis by auto
  qed (auto simp: ns_of_def x bind_eq_None)
  have fb: "forced_background (superPower_update f ns) = forced_background ns" for f ns
    by (intro ext) (simp add: forced_background_def)
  have fv: "foreign_verdict (superPower_update f ns) = foreign_verdict ns" for f ns
    by (intro ext) (simp add: foreign_verdict_def own_root_verdict_def)
  obtain f g where f: "ns_of ?st client = map_option (superPower_update f) (ns_of st client)"
    and g: "ns_of ?st owner = map_option (superPower_update g) (ns_of st owner)"
    using of by blast
  show ?thesis
    by (cases "ns_of st client"; cases "ns_of st owner") (simp_all add: hookResourceAccess_def x f g fb fv cong: if_cong)
qed

end
