(* ===== verification/NsIsolation.thy ===== *)
theory NsIsolation
  imports NsAccess
begin

unbundle bit_operations_syntax

text \<open>
  Isolation across clients and windows: sending and receiving events, window properties, and the
  virtual root windows \<open>hookInitRootWindow\<close> gives each namespace.
\<close>

section \<open>Events\<close>

definition raw_motion :: "xevent \<Rightarrow> bool" where
  "raw_motion ev \<longleftrightarrow> ev_type ev = GenericEvent \<and> ge_extension ev = EXTENSION_MAJOR_XINPUT
     \<and> ge_evtype ev = XI_RawMotion"

lemma receive_events_iff:
  "receive_events (Some ns) pWin evs =
     Some (list_all raw_motion evs \<and> (evs \<noteq> [] \<longrightarrow> allowMouseMotion ns \<and> isRootWin pWin))"
proof (induction evs)
  case (Cons ev evs)
  show ?case
  proof (cases "raw_motion ev")
    case True
    with Cons show ?thesis by (auto simp: raw_motion_def)
  next
    case False
    then have "receive_events (Some ns) pWin (ev # evs) = Some False"
      by (auto simp: raw_motion_def)
    with False show ?thesis by simp
  qed
qed simp

text \<open>The decisions of the two event hooks, for any two clients with a namespace.\<close>

lemma hookSend_iff:
  assumes "priv_ns (privs st (cl_index cl)) = Some i" "win_owner pWin = Some o1"
    and "priv_ns (privs st (cl_index o1)) = Some j"
  shows "hookSend st (Some cl) pWin Success =
    Some (if superPower (ns_list st ! i) \<or> i = j then Success else BadAccess)"
proof -
  have "ns_of st (Some cl) = Some (ns_list st ! i)" "ns_of st (win_owner pWin) = Some (ns_list st ! j)"
    using assms by (simp_all add: ns_simps)
  with assms show ?thesis by (auto simp: hookSend_def clientAllowedOnClient_def)
qed

lemma hookReceive_iff:
  assumes "priv_ns (privs st (cl_index cl)) = Some i" "win_owner pWin = Some o1"
    and "priv_ns (privs st (cl_index o1)) = Some j"
  shows "hookReceive st (Some cl) pWin evs Success =
    Some (if i = j \<or> evs = []
            \<or> list_all raw_motion evs \<and> allowMouseMotion (ns_list st ! i) \<and> isRootWin pWin
          then Success else BadAccess)"
proof -
  have "ns_of st (Some cl) = Some (ns_list st ! i)" "ns_of st (win_owner pWin) = Some (ns_list st ! j)"
    using assms by (simp_all add: ns_simps)
  with assms show ?thesis by (auto simp: hookReceive_def receive_events_iff)
qed

text \<open>
  C36. Events of confined clients cross a namespace boundary only as the configuration allows. A
  client, in namespace \<open>i\<close>, may send an event to a window of a client in namespace \<open>j\<close> exactly if
  the namespaces are the same or its own has superpower. A client that is confined, that is
  neither in the root namespace nor in one with superpower, gets the events delivered from such a
  window exactly if the namespaces are the same, if there are none, or if all are raw pointer
  motion on the root window and its namespace has the mouse-motion permission; otherwise it gets
  BadAccess.
\<close>

theorem events_isolated:
  assumes "priv_ns (privs st (cl_index cl)) = Some i" "win_owner pWin = Some o1"
    and "priv_ns (privs st (cl_index o1)) = Some j"
  shows "hookSend st (Some cl) pWin Success =
           Some (if superPower (ns_list st ! i) \<or> i = j then Success else BadAccess)
       \<and> (i \<noteq> ns_root_idx \<and> \<not> superPower (ns_list st ! i) \<longrightarrow>
           hookReceive st (Some cl) pWin evs Success =
             Some (if i = j \<or> evs = []
                     \<or> list_all raw_motion evs \<and> allowMouseMotion (ns_list st ! i) \<and> isRootWin pWin
                   then Success else BadAccess))"
  using hookSend_iff[OF assms] hookReceive_iff[OF assms, of evs] by blast

theorem events_isolated_witness:
  "hookSend demo_st (Some (demo_client 1 X_SendEvent)) (demo_window 9 2) Success = Some BadAccess \<and>
   hookReceive demo_st (Some (demo_client 1 0)) (demo_window 9 2)
     [\<lparr> ev_type = 2, ge_extension = 0, ge_evtype = 0 \<rparr>] Success = Some BadAccess \<and>
   hookReceive demo_st (Some (demo_client 2 0)) (demo_window 9 2) [] Success = Some Success"
  using events_isolated[of demo_st "demo_client 1 25" 1 "demo_window 9 2" "demo_client 2 0" 2]
    events_isolated[of demo_st "demo_client 1 0" 1 "demo_window 9 2" "demo_client 2 0" 2
      "[\<lparr> ev_type = 2, ge_extension = 0, ge_evtype = 0 \<rparr>]"]
    events_isolated[of demo_st "demo_client 2 0" 2 "demo_window 9 2" "demo_client 2 0" 2 "[]"]
  by (simp add: demo_ns_defs ns_anon_def new_ns_def raw_motion_def)

text \<open>
  Where the code departs from \<open>doc/Xnamespace.md\<close>: a client of the root namespace does not get the
  events of another namespace's windows either, other than raw pointer motion.
\<close>

theorem root_receive_denied:
  assumes "priv_ns (privs st (cl_index cl)) = Some ns_root_idx" "win_owner pWin = Some own"
    and "priv_ns (privs st (cl_index own)) = Some j" "j \<noteq> ns_root_idx" "ev \<in> set evs" "\<not> raw_motion ev"
  shows "hookReceive st (Some cl) pWin evs Success = Some BadAccess"
  using hookReceive_iff[OF assms(1-3), of evs] assms(4-6) by (auto simp: list_all_iff)

theorem root_receive_denied_witness:
  "hookReceive (demo_st\<lparr> privs := (privs demo_st)(5 := \<lparr> isServer = False, privAuthId = 0,
       priv_ns = Some 0 \<rparr>) \<rparr>) (Some (demo_client 5 0)) (demo_window 9 2)
     [\<lparr> ev_type = 2, ge_extension = 0, ge_evtype = 0 \<rparr>] Success = Some BadAccess"
  by (rule root_receive_denied[where j = 2 and own = "demo_client 2 0" and
        ev = "\<lparr> ev_type = 2, ge_extension = 0, ge_evtype = 0 \<rparr>"])
    (simp_all add: demo_ns_defs raw_motion_def)

section \<open>Window properties\<close>









text \<open>
  A client without superpower that names a root window it has no part in reads and writes
  the properties of its namespace's virtual root instead, and a window without a live owner is
  refused with BadWindow; with superpower no request is redirected.
\<close>

theorem root_property_redirected:
  assumes "priv_ns (privs st (cl_index cl)) = Some i" "rootWindow (ns_list st ! i) = Some vroot"
  shows "hookWindowProperty owner_of is_root st (Some cl) window = Some (
     if superPower (ns_list st ! i) then On_window window
     else case owner_of window of
            None \<Rightarrow> Skipped BadWindow
          | Some own \<Rightarrow> if is_root window \<and> priv_ns (privs st (cl_index own)) \<noteq> Some i
                        then On_window vroot else On_window window)"
  using assms by (auto simp: hookWindowProperty_def ns_simps split: option.splits)

theorem root_property_redirected_witness:
  "hookWindowProperty (\<lambda>_. None) (\<lambda>x. x = 1) demo_st (Some (demo_client 2 X_ChangeProperty)) 77
     = Some (Skipped BadWindow)"
  using root_property_redirected[of demo_st "demo_client 2 18" 2 3 "\<lambda>_. None" "\<lambda>x. x = 1" 77]
  by (simp add: demo_ns_defs new_ns_def)

section \<open>Virtual root windows\<close>

lemma init_roots_fst:
  "init_roots nw rr nss k = (nss', props, k') \<Longrightarrow>
     map (\<lambda>ns. ns\<lparr> rootWindow := None \<rparr>) nss' = map (\<lambda>ns. ns\<lparr> rootWindow := None \<rparr>) nss"
  by (induction nss arbitrary: k nss' props k') (fastforce split: if_splits prod.splits)+

lemma init_roots_spec:
  "init_roots nw rr nss k = (nss', props, k') \<Longrightarrow>
     length nss' = length nss \<and> k' = k + length (filter (\<lambda>ns. ns_name ns \<noteq> NS_NAME_ROOT) nss)
   \<and> map (\<lambda>ns. rootWindow ns) (filter (\<lambda>ns. ns_name ns \<noteq> NS_NAME_ROOT) nss') = map (Some \<circ> nw) [k..<k']
   \<and> (\<forall>ns \<in> set nss'. ns_name ns = NS_NAME_ROOT \<longrightarrow> rootWindow ns = Some rr)
   \<and> map fst props = map nw [k..<k']"
proof (induction nss arbitrary: k nss' props k')
  case (Cons ns nss)
  show ?case
  proof (cases "ns_name ns = NS_NAME_ROOT")
    case True
    with Cons.prems Cons.IH[of k] show ?thesis by (auto split: prod.splits)
  next
    case False
    then obtain nss1 props1 where e: "init_roots nw rr nss (Suc k) = (nss1, props1, k')"
      "nss' = ns\<lparr> rootWindow := Some (nw k) \<rparr> # nss1"
      "props = (nw k, take 4094 (''XNS-ROOT:'' @ ns_name ns)) # props1"
      using Cons.prems by (auto split: prod.splits)
    from Cons.IH[OF e(1)] have "k < k'" by simp
    then have "[k..<k'] = k # [Suc k..<k']" by (rule upt_conv_Cons)
    with Cons.IH[OF e(1)] e(2,3) False show ?thesis by simp
  qed
qed simp

text \<open>
  Every namespace gets a root window of its own on the first screen: after the hook the root
  namespace has the real root window and every other namespace a window created for it alone, no
  two of them the same, and nothing else of a namespace changes. Other screens change nothing.
\<close>

theorem virtual_roots:
  assumes "distinct (map ns_name (ns_list st))"
    and "inj_on nw {k..<k + length (ns_list st)}" "realRoot \<notin> nw ` {k..<k + length (ns_list st)}"
    and "hookInitRootWindow nw 0 realRoot k st = (st', props, k')"
  shows "map (\<lambda>ns. ns\<lparr> rootWindow := None \<rparr>) (ns_list st') = map (\<lambda>ns. ns\<lparr> rootWindow := None \<rparr>) (ns_list st)
       \<and> (\<forall>ns \<in> set (ns_list st'). ns_name ns = NS_NAME_ROOT \<longleftrightarrow> rootWindow ns = Some realRoot)
       \<and> distinct (map rootWindow (ns_list st')) \<and> None \<notin> set (map rootWindow (ns_list st'))
       \<and> hookInitRootWindow nw (Suc n) realRoot k st = (st, [], k)"
proof -
  let ?P = "\<lambda>ns. ns_name ns \<noteq> NS_NAME_ROOT"
  obtain nss where nss: "init_roots nw realRoot (ns_list st) k = (nss, props, k')" "ns_list st' = nss"
    using assms(4) by (auto simp: hookInitRootWindow_def split: prod.splits)
  note same = init_roots_fst[OF nss(1)]
  note spec = init_roots_spec[OF nss(1)]
  have others: "map rootWindow (filter ?P nss) = map (Some \<circ> nw) [k..<k']"
    and roots: "\<forall>ns \<in> set nss. ns_name ns = NS_NAME_ROOT \<longrightarrow> rootWindow ns = Some realRoot"
    using spec by simp_all
  have "map ns_name nss = map ns_name (map (\<lambda>ns. ns\<lparr> rootWindow := None \<rparr>) nss)" by simp
  also have "\<dots> = map ns_name (ns_list st)" unfolding same by simp
  finally have dist: "distinct (map ns_name nss)" using assms(1) by simp
  have "k' \<le> k + length (ns_list st)" using spec by simp
  then have inj: "inj_on nw {k..<k'}" and fresh: "realRoot \<notin> nw ` {k..<k'}"
    using assms(2,3) by (auto simp: inj_on_def)
  have new: "\<exists>n \<in> {k..<k'}. rootWindow ns = Some (nw n)" if "ns \<in> set nss" "?P ns" for ns
  proof -
    have "rootWindow ns \<in> set (map rootWindow (filter ?P nss))" using that by simp
    then show ?thesis unfolding others by auto
  qed
  have iff: "\<forall>ns \<in> set nss. ns_name ns = NS_NAME_ROOT \<longleftrightarrow> rootWindow ns = Some realRoot"
    using roots new fresh by (metis option.inject imageI)
  have "inj_on rootWindow {ns \<in> set nss. ?P ns}"
  proof -
    have "distinct (map rootWindow (filter ?P nss))"
      unfolding others using inj by (simp add: distinct_map inj_on_def)
    then have "inj_on rootWindow (set (filter ?P nss))" by (simp add: distinct_map)
    then show ?thesis by simp
  qed
  moreover have "a = b" if "a \<in> set nss" "b \<in> set nss" "\<not> ?P a" "\<not> ?P b" for a b
    using dist that by (auto simp: distinct_map inj_on_def)
  ultimately have "inj_on rootWindow (set nss)"
    using iff by (simp add: inj_on_def) metis
  then have "distinct (map rootWindow nss)"
    using dist by (simp add: distinct_map)
  moreover have "None \<notin> set (map rootWindow nss)"
    using new roots by fastforce
  ultimately show ?thesis
    using same iff nss(2) by (simp add: hookInitRootWindow_def)
qed

theorem virtual_roots_witness:
  "distinct (map rootWindow (ns_list (fst (hookInitRootWindow (\<lambda>n. of_nat n + 2) 0 1 0 demo_st))))"
proof -
  obtain st' props k' where h: "hookInitRootWindow (\<lambda>n. of_nat n + 2) 0 1 0 demo_st = (st', props, k')"
    by (metis prod_cases3)
  have three: "{0..<0 + length (ns_list demo_st)} = {0, 1, 2}" by (auto simp: demo_st_def)
  have "distinct (map ns_name (ns_list demo_st))"
    by (simp add: demo_st_def ns_root_def ns_anon_def new_ns_def NS_NAME_ROOT_def NS_NAME_ANONYMOUS_def)
  from virtual_roots[OF this _ _ h] have "distinct (map rootWindow (ns_list st'))"
    unfolding three by (simp add: inj_on_def)
  with h show ?thesis by simp
qed

end
