(* ===== verification/NsAtoms.thy ===== *)
theory NsAtoms
  imports Prelude "HOL-Library.List_Lexorder" "HOL-Library.Char_ord"
begin

text \<open>
  The atom table of \<open>dix/atom.d\<close>, which the selection hook renames selections through: a binary
  search tree from names to atoms, ordered by fingerprint and name, and the array from atoms back
  to names. The contract its clients use is the locale \<open>atom_table\<close>.
\<close>

section \<open>The contract\<close>

locale atom_table =
  fixes inv :: "'s \<Rightarrow> bool"
    and add :: "string \<Rightarrow> 's \<Rightarrow> nat \<times> 's"
    and name :: "'s \<Rightarrow> nat \<Rightarrow> string option"
  assumes inv_add: "inv st \<Longrightarrow> inv (snd (add s st))"
    and name_add: "inv st \<Longrightarrow> name (snd (add s st)) (fst (add s st)) = Some s"
    and name_mono: "inv st \<Longrightarrow> name st a = Some t \<Longrightarrow> name (snd (add s st)) a = Some t"
    and add_known: "inv st \<Longrightarrow> name st a = Some s \<Longrightarrow> add s st = (a, st)"
begin

lemma name_inj: "inv st \<Longrightarrow> name st a = Some s \<Longrightarrow> name st b = Some s \<Longrightarrow> a = b"
  using add_known[of st a s] add_known[of st b s] by simp

lemma add_again: "inv st \<Longrightarrow> add s (snd (add s st)) = add s st"
  using add_known[OF inv_add name_add] by simp

text \<open>Two names interned one after the other get the same atom only if they are equal.\<close>

lemma add_inj:
  assumes "inv st"
  shows "fst (add t (snd (add s st))) = fst (add s st) \<longleftrightarrow> s = t"
proof
  let ?st1 = "snd (add s st)"
  assume eq: "fst (add t ?st1) = fst (add s st)"
  have inv1: "inv ?st1" using assms by (rule inv_add)
  have "name (snd (add t ?st1)) (fst (add s st)) = Some s"
    by (rule name_mono[OF inv1 name_add[OF assms]])
  moreover have "name (snd (add t ?st1)) (fst (add t ?st1)) = Some t" by (rule name_add[OF inv1])
  ultimately show "s = t" using eq by simp
qed (simp add: add_again[OF assms])

end

section \<open>The order of the tree\<close>

datatype atom_key = AtomKey (fingerPrint: u32) (key_string: string)

instantiation atom_key :: linorder
begin

definition less_eq_atom_key :: "atom_key \<Rightarrow> atom_key \<Rightarrow> bool" where
  "less_eq_atom_key k l \<longleftrightarrow> fingerPrint k < fingerPrint l
     \<or> fingerPrint k = fingerPrint l \<and> key_string k \<le> key_string l"

definition less_atom_key :: "atom_key \<Rightarrow> atom_key \<Rightarrow> bool" where
  "less_atom_key k l \<longleftrightarrow> fingerPrint k < fingerPrint l
     \<or> fingerPrint k = fingerPrint l \<and> key_string k < key_string l"

instance
  by standard (auto simp: less_eq_atom_key_def less_atom_key_def intro: atom_key.expand)

end

text \<open>
  \<open>MakeAtom\<close>'s fingerprint loop and its string comparison. \<open>strncmp s t\<close> is the sign of
  \<open>strncmp (s, t, strlen (s))\<close>; a string ends where its list does.
\<close>

definition char_uint :: "char \<Rightarrow> u32" where
  "char_uint c = of_char c"

fun fingerprint_from :: "string \<Rightarrow> nat list \<Rightarrow> u32 \<Rightarrow> u32" where
  "fingerprint_from s [] fp = fp"
| "fingerprint_from s (i # is) fp =
     fingerprint_from s is
       ((fp * 27 + char_uint (s ! i)) * 27 + char_uint (s ! (length s - 1 - i)))"

definition fingerprint :: "string \<Rightarrow> u32" where
  "fingerprint s = fingerprint_from s [0..<(length s + 1) div 2] 0"

fun strncmp :: "string \<Rightarrow> string \<Rightarrow> int" where
  "strncmp [] t = 0"
| "strncmp (c # cs) [] = 1"
| "strncmp (c # cs) (d # ds) = (if c < d then - 1 else if d < c then 1 else strncmp cs ds)"

section \<open>The table\<close>

datatype atom_tree = ATip | ANode (aleft: atom_tree) u32 string nat (aright: atom_tree)

record atom_state =
  atomRoot :: atom_tree
  nodeTable :: "string list"

definition lastAtom :: "atom_state \<Rightarrow> nat" where
  "lastAtom st = length (nodeTable st)"

text \<open>The descent of \<open>MakeAtom\<close>, once looking for the name and once for the empty slot.\<close>

fun atom_find :: "u32 \<Rightarrow> string \<Rightarrow> atom_tree \<Rightarrow> nat option" where
  "atom_find fp s ATip = None"
| "atom_find fp s (ANode l nfp ns a r) =
     (if fp < nfp then atom_find fp s l
      else if nfp < fp then atom_find fp s r
      else let comp = strncmp s ns in
        if comp < 0 \<or> comp = 0 \<and> length s < length ns then atom_find fp s l
        else if comp > 0 then atom_find fp s r
        else Some a)"

fun atom_place :: "u32 \<Rightarrow> string \<Rightarrow> nat \<Rightarrow> atom_tree \<Rightarrow> atom_tree" where
  "atom_place fp s new ATip = ANode ATip fp s new ATip"
| "atom_place fp s new (ANode l nfp ns a r) =
     (if fp < nfp then ANode (atom_place fp s new l) nfp ns a r
      else if nfp < fp then ANode l nfp ns a (atom_place fp s new r)
      else let comp = strncmp s ns in
        if comp < 0 \<or> comp = 0 \<and> length s < length ns then ANode (atom_place fp s new l) nfp ns a r
        else if comp > 0 then ANode l nfp ns a (atom_place fp s new r)
        else ANode l nfp ns a r)"

text \<open>
  \<open>mem\<close>: whether the allocations a call makes (the node, the copy of the name, the larger table)
  succeed. If one fails the call returns \<open>BAD_RESOURCE\<close> and has changed nothing.
\<close>

definition BAD_RESOURCE :: nat where "BAD_RESOURCE = 0xE0000000"

definition MakeAtom :: "bool \<Rightarrow> string \<Rightarrow> bool \<Rightarrow> atom_state \<Rightarrow> nat \<times> atom_state" where
  "MakeAtom mem s makeit st =
     (case atom_find (fingerprint s) s (atomRoot st) of
        Some a \<Rightarrow> (a, st)
      | None \<Rightarrow>
          if \<not> makeit then (0, st)
          else if \<not> mem then (BAD_RESOURCE, st)
          else
            (Suc (lastAtom st),
             \<lparr> atomRoot = atom_place (fingerprint s) s (Suc (lastAtom st)) (atomRoot st),
               nodeTable = nodeTable st @ [s] \<rparr>))"

definition dixAddAtom :: "bool \<Rightarrow> string \<Rightarrow> atom_state \<Rightarrow> nat \<times> atom_state" where
  "dixAddAtom mem s st = MakeAtom mem s True st"

definition NameForAtom :: "atom_state \<Rightarrow> nat \<Rightarrow> string option" where
  "NameForAtom st a =
     (if a > lastAtom st then None else if a = 0 then None else Some (nodeTable st ! (a - 1)))"

definition ValidAtom :: "atom_state \<Rightarrow> nat \<Rightarrow> bool" where
  "ValidAtom st a \<longleftrightarrow> a \<noteq> 0 \<and> a \<le> lastAtom st"

section \<open>The tree is a search tree\<close>

lemma Nil_less: "[] < t \<longleftrightarrow> t \<noteq> []" for t :: string
  by (cases t) auto

lemma strncmp_less: "strncmp s t < 0 \<or> strncmp s t = 0 \<and> length s < length t \<longleftrightarrow> s < t"
  by (induction s t rule: strncmp.induct) (auto simp: Nil_less)

lemma strncmp_greater: "\<not> s < t \<Longrightarrow> strncmp s t > 0 \<longleftrightarrow> t < s"
  by (induction s t rule: strncmp.induct) auto

fun atom_nodes :: "atom_tree \<Rightarrow> (atom_key \<times> nat) set" where
  "atom_nodes ATip = {}"
| "atom_nodes (ANode l fp s a r) = insert (AtomKey fp s, a) (atom_nodes l \<union> atom_nodes r)"

fun atom_bst :: "atom_tree \<Rightarrow> bool" where
  "atom_bst ATip = True"
| "atom_bst (ANode l fp s a r) \<longleftrightarrow> atom_bst l \<and> atom_bst r
     \<and> (\<forall>(k, _) \<in> atom_nodes l. k < AtomKey fp s) \<and> (\<forall>(k, _) \<in> atom_nodes r. AtomKey fp s < k)"

text \<open>The code's comparison of a name with a node is the order of the keys.\<close>

lemma atom_find_key:
  "atom_find fp s (ANode l nfp ns a r) =
     (if AtomKey fp s < AtomKey nfp ns then atom_find fp s l
      else if AtomKey nfp ns < AtomKey fp s then atom_find fp s r else Some a)"
  using strncmp_less[of s ns] strncmp_greater[of s ns] by (auto simp: less_atom_key_def Let_def)

lemma atom_place_key:
  "atom_place fp s new (ANode l nfp ns a r) =
     (if AtomKey fp s < AtomKey nfp ns then ANode (atom_place fp s new l) nfp ns a r
      else if AtomKey nfp ns < AtomKey fp s then ANode l nfp ns a (atom_place fp s new r)
      else ANode l nfp ns a r)"
  using strncmp_less[of s ns] strncmp_greater[of s ns] by (auto simp: less_atom_key_def Let_def)

lemma key_eq: "\<not> k < l \<Longrightarrow> \<not> l < k \<Longrightarrow> k = l" for k l :: atom_key
  by simp

lemma atom_find_iff:
  "atom_bst t \<Longrightarrow> atom_find fp s t = Some a \<longleftrightarrow> (AtomKey fp s, a) \<in> atom_nodes t"
proof (induction t)
  case (ANode l nfp ns b r)
  let ?k = "AtomKey fp s" and ?n = "AtomKey nfp ns"
  consider "?k < ?n" | "?n < ?k" | "?k = ?n" by (metis key_eq)
  then show ?case
  proof cases
    case 1
    then have "(?k, a) \<notin> atom_nodes r" "?k \<noteq> ?n" using ANode.prems by fastforce+
    with 1 ANode show ?thesis unfolding atom_find_key by auto
  next
    case 2
    then have "(?k, a) \<notin> atom_nodes l" "?k \<noteq> ?n" "\<not> ?k < ?n" using ANode.prems by fastforce+
    with 2 ANode show ?thesis unfolding atom_find_key by auto
  next
    case 3
    then have "(?k, a) \<notin> atom_nodes l" "(?k, a) \<notin> atom_nodes r" using ANode.prems by fastforce+
    with 3 show ?thesis unfolding atom_find_key by auto
  qed
qed simp

lemma atom_place_nodes:
  "atom_bst t \<Longrightarrow> atom_find fp s t = None \<Longrightarrow>
     atom_nodes (atom_place fp s new t) = insert (AtomKey fp s, new) (atom_nodes t)
     \<and> atom_bst (atom_place fp s new t)"
proof (induction t)
  case (ANode l nfp ns b r)
  let ?k = "AtomKey fp s" and ?n = "AtomKey nfp ns"
  consider "?k < ?n" | "?n < ?k" | "?k = ?n" by (metis key_eq)
  then show ?case
  proof cases
    case 1
    with ANode show ?thesis unfolding atom_find_key atom_place_key by auto
  next
    case 2
    then have "\<not> ?k < ?n" by simp
    with 2 ANode show ?thesis unfolding atom_find_key atom_place_key by auto
  next
    case 3
    with ANode.prems show ?thesis unfolding atom_find_key by auto
  qed
qed simp

section \<open>The table implements the contract\<close>

definition atoms_wf :: "atom_state \<Rightarrow> bool" where
  "atoms_wf st \<longleftrightarrow> atom_bst (atomRoot st) \<and>
     atom_nodes (atomRoot st) =
       {(AtomKey (fingerprint s) s, a) | s a. NameForAtom st a = Some s}"

definition no_atoms :: atom_state where
  "no_atoms = \<lparr> atomRoot = ATip, nodeTable = [] \<rparr>"

lemma atoms_wf_empty: "atoms_wf no_atoms"
  by (auto simp: atoms_wf_def no_atoms_def NameForAtom_def lastAtom_def)

lemma atom_find_name:
  "atoms_wf st \<Longrightarrow> atom_find (fingerprint s) s (atomRoot st) = Some a \<longleftrightarrow> NameForAtom st a = Some s"
  by (auto simp: atoms_wf_def atom_find_iff)

lemma NameForAtom_append:
  "nodeTable st' = nodeTable st @ [s] \<Longrightarrow> NameForAtom st' a =
     (if a = Suc (lastAtom st) then Some s else NameForAtom st a)"
  by (auto simp: NameForAtom_def lastAtom_def nth_append)

lemma MakeAtom_new:
  assumes wf: "atoms_wf st" and new: "atom_find (fingerprint s) s (atomRoot st) = None"
  shows "\<exists>st'. dixAddAtom True s st = (Suc (lastAtom st), st') \<and> nodeTable st' = nodeTable st @ [s] \<and> atoms_wf st'"
proof -
  let ?t = "atom_place (fingerprint s) s (Suc (lastAtom st)) (atomRoot st)"
  let ?st' = "\<lparr> atomRoot = ?t, nodeTable = nodeTable st @ [s] \<rparr>"
  have bst: "atom_bst (atomRoot st)" using wf by (simp add: atoms_wf_def)
  have names: "NameForAtom ?st' a = (if a = Suc (lastAtom st) then Some s else NameForAtom st a)" for a
    by (rule NameForAtom_append) simp
  have old: "NameForAtom st (Suc (lastAtom st)) = None" by (simp add: NameForAtom_def)
  have "atom_nodes ?t = insert (AtomKey (fingerprint s) s, Suc (lastAtom st)) (atom_nodes (atomRoot st))"
    using atom_place_nodes[OF bst new] by blast
  also have "\<dots> = {(AtomKey (fingerprint t) t, a) | t a. NameForAtom ?st' a = Some t}"
  proof -
    have "NameForAtom ?st' a = Some t \<longleftrightarrow> a = Suc (lastAtom st) \<and> t = s \<or> NameForAtom st a = Some t" for a t
      using old by (auto simp: names)
    then show ?thesis using wf unfolding atoms_wf_def by auto
  qed
  finally have "atoms_wf ?st'" using atom_place_nodes[OF bst new] by (simp add: atoms_wf_def)
  then show ?thesis using new by (simp add: dixAddAtom_def MakeAtom_def)
qed

lemma dixAddAtom_known:
  "atom_find (fingerprint s) s (atomRoot st) = Some a \<Longrightarrow> dixAddAtom mem s st = (a, st)"
  by (simp add: dixAddAtom_def MakeAtom_def)

text \<open>
  A known name needs no memory; with too little memory for a new one the call gives
  \<open>BAD_RESOURCE\<close> for it, whatever the name.
\<close>

definition atom_known :: "atom_state \<Rightarrow> string \<Rightarrow> bool" where
  "atom_known st s \<longleftrightarrow> s \<in> set (nodeTable st)"

lemma atom_known_iff: "atom_known st s \<longleftrightarrow> (\<exists>a. NameForAtom st a = Some s)"
proof
  assume "atom_known st s"
  then obtain i where "i < length (nodeTable st)" "nodeTable st ! i = s"
    by (auto simp: atom_known_def in_set_conv_nth)
  then have "NameForAtom st (Suc i) = Some s" by (simp add: NameForAtom_def lastAtom_def)
  then show "\<exists>a. NameForAtom st a = Some s" ..
qed (auto simp: atom_known_def NameForAtom_def lastAtom_def split: if_splits)

lemma dixAddAtom_mem:
  assumes "atoms_wf st"
  shows "dixAddAtom mem s st =
    (if mem \<or> atom_known st s then dixAddAtom True s st else (BAD_RESOURCE, st))"
proof (cases "atom_find (fingerprint s) s (atomRoot st)")
  case None
  then have "\<not> atom_known st s" using atom_find_name[OF assms, of s] by (simp add: atom_known_iff)
  with None show ?thesis by (simp add: dixAddAtom_def MakeAtom_def)
next
  case (Some a)
  then have "atom_known st s" using atom_find_name[OF assms, of s a] by (auto simp: atom_known_iff)
  with Some show ?thesis by (simp add: dixAddAtom_known)
qed

interpretation atoms: atom_table atoms_wf "dixAddAtom True" NameForAtom
proof
  fix st s t a
  assume wf: "atoms_wf st"
  show "atoms_wf (snd (dixAddAtom True s st))"
    and "NameForAtom (snd (dixAddAtom True s st)) (fst (dixAddAtom True s st)) = Some s"
    and "NameForAtom st a = Some t \<Longrightarrow> NameForAtom (snd (dixAddAtom True s st)) a = Some t"
  proof (atomize (full), cases "atom_find (fingerprint s) s (atomRoot st)")
    case None
    then obtain st' where st': "dixAddAtom True s st = (Suc (lastAtom st), st')"
      "nodeTable st' = nodeTable st @ [s]" "atoms_wf st'"
      using MakeAtom_new[OF wf] by blast
    then show "atoms_wf (snd (dixAddAtom True s st)) \<and>
        NameForAtom (snd (dixAddAtom True s st)) (fst (dixAddAtom True s st)) = Some s \<and>
        (NameForAtom st a = Some t \<longrightarrow> NameForAtom (snd (dixAddAtom True s st)) a = Some t)"
      using NameForAtom_append[OF st'(2)] by (auto simp: NameForAtom_def split: if_splits)
  next
    case (Some b)
    then show "atoms_wf (snd (dixAddAtom True s st)) \<and>
        NameForAtom (snd (dixAddAtom True s st)) (fst (dixAddAtom True s st)) = Some s \<and>
        (NameForAtom st a = Some t \<longrightarrow> NameForAtom (snd (dixAddAtom True s st)) a = Some t)"
      using wf atom_find_name[OF wf] by (simp add: dixAddAtom_known)
  qed
next
  fix st a s
  assume "atoms_wf st" "NameForAtom st a = Some s"
  then show "dixAddAtom True s st = (a, st)" by (simp add: dixAddAtom_known atom_find_name)
qed

text \<open>
  C38. While its allocations succeed the atom table is a bijection between the names added to it
  and their atoms: from any well-formed table, adding a name gives a valid atom whose name it is,
  keeps the name of every atom handed out before, gives the same atom when the name is added again
  and, to another name, a different one; and the table stays well-formed. When an allocation fails
  a name already in the table still gets its atom and every other name gets \<open>BAD_RESOURCE\<close>, with
  the table left as it was.
\<close>

theorem atom_table_bijection:
  assumes "atoms_wf st" "dixAddAtom True s st = (a, st1)" "dixAddAtom True t st1 = (b, st2)"
  shows "atoms_wf st2 \<and> ValidAtom st1 a \<and> NameForAtom st2 a = Some s \<and> NameForAtom st2 b = Some t
       \<and> (a = b \<longleftrightarrow> s = t) \<and> (s = t \<longrightarrow> st2 = st1)
       \<and> (\<forall>c n. NameForAtom st c = Some n \<longrightarrow> NameForAtom st2 c = Some n)
       \<and> dixAddAtom False u st =
           (if atom_known st u then dixAddAtom True u st else (BAD_RESOURCE, st))"
proof -
  have wf1: "atoms_wf st1" using atoms.inv_add[OF assms(1), of s] assms(2) by simp
  have n1: "NameForAtom st1 a = Some s" using atoms.name_add[OF assms(1), of s] assms(2) by simp
  have "atoms_wf st2" "NameForAtom st2 b = Some t" "NameForAtom st2 a = Some s"
    using atoms.inv_add[OF wf1, of t] atoms.name_add[OF wf1, of t] atoms.name_mono[OF wf1 n1, of t] assms(3)
    by simp_all
  moreover have "ValidAtom st1 a" using n1 by (auto simp: NameForAtom_def ValidAtom_def split: if_splits)
  moreover have "a = b \<longleftrightarrow> s = t" using atoms.add_inj[OF assms(1), of t s] assms(2,3) by auto
  moreover have "s = t \<longrightarrow> st2 = st1" using atoms.add_known[OF wf1 n1] assms(3) by auto
  moreover have "NameForAtom st c = Some n \<Longrightarrow> NameForAtom st2 c = Some n" for c n
    using atoms.name_mono[OF assms(1), of c n s] atoms.name_mono[OF wf1, of c n t] assms(2,3) by simp
  moreover note dixAddAtom_mem[OF assms(1), of False u]
  ultimately show ?thesis by simp
qed

theorem atom_table_bijection_witness:
  "\<exists>st1 st2. dixAddAtom True ''PRIMARY'' no_atoms = (1, st1) \<and> dixAddAtom True ''CLIPBOARD'' st1 = (2, st2)
     \<and> NameForAtom st2 1 = Some ''PRIMARY'' \<and> NameForAtom st2 2 = Some ''CLIPBOARD''
     \<and> dixAddAtom False ''PRIMARY'' no_atoms = (BAD_RESOURCE, no_atoms)"
proof -
  obtain st1 where 1: "dixAddAtom True ''PRIMARY'' no_atoms = (1, st1)" "nodeTable st1 = [''PRIMARY'']"
    by (simp add: dixAddAtom_def MakeAtom_def no_atoms_def lastAtom_def)
  obtain b st2 where 2: "dixAddAtom True ''CLIPBOARD'' st1 = (b, st2)"
    by (cases "dixAddAtom True ''CLIPBOARD'' st1")
  note t = atom_table_bijection[OF atoms_wf_empty 1(1) 2, of "''PRIMARY''"]
  have unknown: "\<not> atom_known no_atoms ''PRIMARY''" by (simp add: atom_known_def no_atoms_def)
  have "NameForAtom no_atoms c = None" for c by (simp add: NameForAtom_def no_atoms_def lastAtom_def)
  have "atoms_wf st1" using atoms.inv_add[OF atoms_wf_empty, of "''PRIMARY''"] 1(1) by simp
  have "b = 2"
  proof (cases "atom_find (fingerprint ''CLIPBOARD'') ''CLIPBOARD'' (atomRoot st1)")
    case None
    with MakeAtom_new[OF \<open>atoms_wf st1\<close> None] 1(2) 2 show ?thesis by (simp add: lastAtom_def)
  next
    case (Some c)
    then have "NameForAtom st1 c = Some ''CLIPBOARD''" using atom_find_name[OF \<open>atoms_wf st1\<close>] by simp
    with 1(2) show ?thesis by (auto simp: NameForAtom_def lastAtom_def split: if_splits)
  qed
  with t 1 2 unknown show ?thesis by auto
qed

end
