(* ===== verification/NsSelection.thy ===== *)
theory NsSelection
  imports NsIsolation NsAtoms
begin

text \<open>
  \<open>hook-selection.c\<close>: selections are renamed per namespace. What a client of namespace \<open>foo\<close> calls
  \<open>PRIMARY\<close> is the selection \<open><foo>PRIMARY\<close> inside the server.
\<close>

section \<open>The hook\<close>

datatype filter_op =
    SELECTION_FILTER_GETOWNER | SELECTION_FILTER_SETOWNER | SELECTION_FILTER_CONVERT
  | SELECTION_FILTER_LISTEN | SELECTION_FILTER_EV_REQUEST | SELECTION_FILTER_EV_CLEAR
  | SELECTION_FILTER_NOTIFY

definition stripNS :: "string \<Rightarrow> string" where
  "stripNS name =
     (case name of
        [] \<Rightarrow> name
      | c # _ \<Rightarrow>
          if c \<noteq> CHR ''<'' then name
          else (case dropWhile (\<lambda>d. d \<noteq> CHR ''>'') name of
                  [] \<Rightarrow> name
                | _ # got \<Rightarrow> got))"

definition ns_selname :: "Xnamespace \<Rightarrow> string \<Rightarrow> string" where
  "ns_selname ns orig = take 4094 (''<'' @ ns_name ns @ ''>'' @ orig)"

text \<open>
  The result is the selection the request is carried out with. Formatting the name of an atom that
  does not exist passes a null pointer to \<open>snprintf\<close>'s \<open>%s\<close>, which is undefined. \<open>m1\<close> and \<open>m2\<close> say
  whether there is memory for a new atom in the first and the second call of \<open>dixAddAtom\<close>; the hook
  does not check the results.
\<close>

definition hookSelectionFilter ::
  "bool \<Rightarrow> bool \<Rightarrow> xns_state \<Rightarrow> xns_client option \<Rightarrow> filter_op \<Rightarrow> nat \<Rightarrow> atom_state \<Rightarrow>
     (nat \<times> atom_state) option" where
  "hookSelectionFilter m1 m2 st client fop selection at =
     do { ns \<leftarrow> ns_of st client;
          if superPower ns then Some (selection, at)
          else do {
            orig \<leftarrow> NameForAtom at selection;
            (case dixAddAtom m1 (ns_selname ns orig) at of
               (realSelection, at1) \<Rightarrow>
                 Some (case fop of
                     SELECTION_FILTER_GETOWNER \<Rightarrow> (realSelection, at1)
                   | SELECTION_FILTER_SETOWNER \<Rightarrow> (realSelection, at1)
                   | SELECTION_FILTER_CONVERT \<Rightarrow> (realSelection, at1)
                   | SELECTION_FILTER_LISTEN \<Rightarrow> (realSelection, at1)
                   | SELECTION_FILTER_NOTIFY \<Rightarrow> dixAddAtom m2 (stripNS orig) at1
                   | SELECTION_FILTER_EV_REQUEST \<Rightarrow> (selection, at1)
                   | SELECTION_FILTER_EV_CLEAR \<Rightarrow> (selection, at1))) } }"


section \<open>Names\<close>





section \<open>Properties\<close>










text \<open>
  The filter is only defined on atoms that exist: for a client without superpower, the hook
  formats a null name exactly when the request's selection is not a valid atom. The check against
  the list of atoms comes only after the hook, in the request's handler.
\<close>

theorem selection_filter_fault_iff:
  "hookSelectionFilter m1 m2 st (Some cl) fop sel at = None \<longleftrightarrow>
     priv_ns (privs st (cl_index cl)) = None
   \<or> \<not> superPower (ns_list st ! the (priv_ns (privs st (cl_index cl)))) \<and> \<not> ValidAtom at sel"
proof (cases "priv_ns (privs st (cl_index cl))")
  case (Some i)
  have "NameForAtom at sel = None \<longleftrightarrow> \<not> ValidAtom at sel"
    by (auto simp: NameForAtom_def ValidAtom_def)
  then show ?thesis
    using Some
    by (cases "NameForAtom at sel")
      (simp_all add: hookSelectionFilter_def ns_simps split: prod.split)
qed (simp add: hookSelectionFilter_def ns_of_def)

end
