(* ===== verification/X86Regs.thy ===== *)
theory X86Regs
  imports Prelude
begin

unbundle bit_operations_syntax

text \<open>
  The register file of the x86 emulator of \<open>hw/xfree86\<close> (\<open>x86emu/regs.h\<close>): the general registers
  with their 16 and 8 bit parts, the flags, and the macros that read and write a flag. The parts
  are those of the little endian layout of the register unions.
\<close>

section \<open>Registers\<close>

record x86_regs =
  R_EAX :: u32
  R_EBX :: u32
  R_ECX :: u32
  R_EDX :: u32
  R_ESP :: u32
  R_EBP :: u32
  R_ESI :: u32
  R_EDI :: u32
  R_EIP :: u32
  R_FLG :: u32
  R_CS :: u16
  R_DS :: u16
  R_SS :: u16
  R_ES :: u16
  R_FS :: u16
  R_GS :: u16
  x86_mode :: u32
  x86_intr :: u32
  x86_intno :: u8
  x86_debug :: u32
  x86_tsc :: u32

text \<open>
  \<open>x86_tsc\<close> is the static counter of the RDTSC handler, kept with the registers here.
\<close>

text \<open>The members \<open>x_reg\<close>, \<open>l_reg\<close> and \<open>h_reg\<close> of a register union.\<close>

definition x_reg :: "u32 \<Rightarrow> u16" where "x_reg r = ucast r"
definition l_reg :: "u32 \<Rightarrow> u8" where "l_reg r = ucast r"
definition h_reg :: "u32 \<Rightarrow> u8" where "h_reg r = ucast (drop_bit 8 r)"

definition set_x_reg :: "u16 \<Rightarrow> u32 \<Rightarrow> u32" where
  "set_x_reg v r = (r AND 0xFFFF0000) OR ucast v"

definition set_l_reg :: "u8 \<Rightarrow> u32 \<Rightarrow> u32" where
  "set_l_reg v r = (r AND 0xFFFFFF00) OR ucast v"

definition set_h_reg :: "u8 \<Rightarrow> u32 \<Rightarrow> u32" where
  "set_h_reg v r = (r AND 0xFFFF00FF) OR push_bit 8 (ucast v)"

definition R_AX :: "x86_regs \<Rightarrow> u16" where "R_AX st = x_reg (R_EAX st)"
definition R_AL :: "x86_regs \<Rightarrow> u8" where "R_AL st = l_reg (R_EAX st)"
definition R_AH :: "x86_regs \<Rightarrow> u8" where "R_AH st = h_reg (R_EAX st)"
definition R_CL :: "x86_regs \<Rightarrow> u8" where "R_CL st = l_reg (R_ECX st)"
definition R_CH :: "x86_regs \<Rightarrow> u8" where "R_CH st = h_reg (R_ECX st)"
definition R_DL :: "x86_regs \<Rightarrow> u8" where "R_DL st = l_reg (R_EDX st)"
definition R_DH :: "x86_regs \<Rightarrow> u8" where "R_DH st = h_reg (R_EDX st)"
definition R_BL :: "x86_regs \<Rightarrow> u8" where "R_BL st = l_reg (R_EBX st)"
definition R_BH :: "x86_regs \<Rightarrow> u8" where "R_BH st = h_reg (R_EBX st)"
definition R_CX :: "x86_regs \<Rightarrow> u16" where "R_CX st = x_reg (R_ECX st)"
definition R_DX :: "x86_regs \<Rightarrow> u16" where "R_DX st = x_reg (R_EDX st)"
definition R_BX :: "x86_regs \<Rightarrow> u16" where "R_BX st = x_reg (R_EBX st)"
definition R_BP :: "x86_regs \<Rightarrow> u16" where "R_BP st = x_reg (R_EBP st)"
definition R_SP :: "x86_regs \<Rightarrow> u16" where "R_SP st = x_reg (R_ESP st)"
definition R_SI :: "x86_regs \<Rightarrow> u16" where "R_SI st = x_reg (R_ESI st)"
definition R_DI :: "x86_regs \<Rightarrow> u16" where "R_DI st = x_reg (R_EDI st)"
definition R_IP :: "x86_regs \<Rightarrow> u16" where "R_IP st = x_reg (R_EIP st)"

definition set_AX :: "u16 \<Rightarrow> x86_regs \<Rightarrow> x86_regs" where
  "set_AX v st = st\<lparr> R_EAX := set_x_reg v (R_EAX st) \<rparr>"
definition set_AL :: "u8 \<Rightarrow> x86_regs \<Rightarrow> x86_regs" where
  "set_AL v st = st\<lparr> R_EAX := set_l_reg v (R_EAX st) \<rparr>"
definition set_AH :: "u8 \<Rightarrow> x86_regs \<Rightarrow> x86_regs" where
  "set_AH v st = st\<lparr> R_EAX := set_h_reg v (R_EAX st) \<rparr>"
definition set_BX :: "u16 \<Rightarrow> x86_regs \<Rightarrow> x86_regs" where
  "set_BX v st = st\<lparr> R_EBX := set_x_reg v (R_EBX st) \<rparr>"
definition set_BP :: "u16 \<Rightarrow> x86_regs \<Rightarrow> x86_regs" where
  "set_BP v st = st\<lparr> R_EBP := set_x_reg v (R_EBP st) \<rparr>"
definition set_BL :: "u8 \<Rightarrow> x86_regs \<Rightarrow> x86_regs" where
  "set_BL v st = st\<lparr> R_EBX := set_l_reg v (R_EBX st) \<rparr>"
definition set_BH :: "u8 \<Rightarrow> x86_regs \<Rightarrow> x86_regs" where
  "set_BH v st = st\<lparr> R_EBX := set_h_reg v (R_EBX st) \<rparr>"
definition set_CL :: "u8 \<Rightarrow> x86_regs \<Rightarrow> x86_regs" where
  "set_CL v st = st\<lparr> R_ECX := set_l_reg v (R_ECX st) \<rparr>"
definition set_CH :: "u8 \<Rightarrow> x86_regs \<Rightarrow> x86_regs" where
  "set_CH v st = st\<lparr> R_ECX := set_h_reg v (R_ECX st) \<rparr>"
definition set_DL :: "u8 \<Rightarrow> x86_regs \<Rightarrow> x86_regs" where
  "set_DL v st = st\<lparr> R_EDX := set_l_reg v (R_EDX st) \<rparr>"
definition set_DH :: "u8 \<Rightarrow> x86_regs \<Rightarrow> x86_regs" where
  "set_DH v st = st\<lparr> R_EDX := set_h_reg v (R_EDX st) \<rparr>"
definition set_CX :: "u16 \<Rightarrow> x86_regs \<Rightarrow> x86_regs" where
  "set_CX v st = st\<lparr> R_ECX := set_x_reg v (R_ECX st) \<rparr>"
definition set_DX :: "u16 \<Rightarrow> x86_regs \<Rightarrow> x86_regs" where
  "set_DX v st = st\<lparr> R_EDX := set_x_reg v (R_EDX st) \<rparr>"
definition set_SP :: "u16 \<Rightarrow> x86_regs \<Rightarrow> x86_regs" where
  "set_SP v st = st\<lparr> R_ESP := set_x_reg v (R_ESP st) \<rparr>"
definition set_SI :: "u16 \<Rightarrow> x86_regs \<Rightarrow> x86_regs" where
  "set_SI v st = st\<lparr> R_ESI := set_x_reg v (R_ESI st) \<rparr>"
definition set_DI :: "u16 \<Rightarrow> x86_regs \<Rightarrow> x86_regs" where
  "set_DI v st = st\<lparr> R_EDI := set_x_reg v (R_EDI st) \<rparr>"
definition set_IP :: "u16 \<Rightarrow> x86_regs \<Rightarrow> x86_regs" where
  "set_IP v st = st\<lparr> R_EIP := set_x_reg v (R_EIP st) \<rparr>"

section \<open>Bits of words\<close>

text \<open>A mask of one bit tests, sets and clears exactly that bit.\<close>

lemma word_eq_bits: "(a :: 'a::len word) = b \<longleftrightarrow> (\<forall>n < LENGTH('a). bit a n = bit b n)"
  by (auto intro: bit_word_eqI)

lemma and_push_bit_nonzero:
  fixes x :: "'a::len word"
  assumes "n < LENGTH('a)"
  shows "x AND push_bit n 1 \<noteq> 0 \<longleftrightarrow> bit x n"
  using assms by (auto simp: word_eq_bits bit_simps)

lemma and_push_bit_zero:
  fixes x :: "'a::len word"
  assumes "n < LENGTH('a)"
  shows "x AND push_bit n 1 = 0 \<longleftrightarrow> \<not> bit x n"
  using and_push_bit_nonzero[OF assms, of x] by blast

text \<open>The masks of \<open>regs.h\<close> and \<open>prim_ops.c\<close> as bits.\<close>

lemma byte_mask: "(0xFF :: u32) = mask 8" "(0xFFFF :: u32) = mask 16" "(0xFFFFFFFF :: u32) = mask 32"
  by (simp_all add: mask_eq_exp_minus_1)

lemma reg_masks:
  "(0xFFFF0000 :: u32) = NOT (mask 16)" "(0xFFFFFF00 :: u32) = NOT (mask 8)"
  "(0xFFFF00FF :: u32) = NOT (push_bit 8 (mask 8))"
  by (simp_all add: mask_eq_exp_minus_1 push_bit_eq_mult)

lemma bit_numerals:
  "(1 :: u32) = push_bit 0 1" "(2 :: u32) = push_bit 1 1" "(4 :: u32) = push_bit 2 1"
  "(8 :: u32) = push_bit 3 1" "(0x10 :: u32) = push_bit 4 1" "(0x40 :: u32) = push_bit 6 1"
  "(0x80 :: u32) = push_bit 7 1" "(0x100 :: u32) = push_bit 8 1" "(0x200 :: u32) = push_bit 9 1"
  "(0x400 :: u32) = push_bit 10 1" "(0x800 :: u32) = push_bit 11 1"
  "(0x8000 :: u32) = push_bit 15 1" "(0x10000 :: u32) = push_bit 16 1"
  "(0x80000000 :: u32) = push_bit 31 1"
  by (simp_all add: push_bit_eq_mult)

section \<open>Partial registers\<close>

lemma x_reg_set [simp]: "x_reg (set_x_reg v r) = v"
  by (rule bit_word_eqI) (auto simp: x_reg_def set_x_reg_def reg_masks bit_simps)

lemma l_reg_set [simp]: "l_reg (set_l_reg v r) = v"
  by (rule bit_word_eqI) (auto simp: l_reg_def set_l_reg_def reg_masks bit_simps)

lemma h_reg_set [simp]: "h_reg (set_h_reg v r) = v"
  by (rule bit_word_eqI) (auto simp: h_reg_def set_h_reg_def reg_masks bit_simps)

lemma l_reg_set_h [simp]: "l_reg (set_h_reg v r) = l_reg r"
  by (rule bit_word_eqI) (auto simp: l_reg_def set_h_reg_def reg_masks bit_simps)

lemma h_reg_set_l [simp]: "h_reg (set_l_reg v r) = h_reg r"
  by (rule bit_word_eqI)
    (auto simp: h_reg_def set_l_reg_def reg_masks bit_simps dest: bit_imp_le_length)

lemma x_reg_bytes: "x_reg r = word_cat (h_reg r) (l_reg r)"
  by (rule bit_word_eqI) (auto simp: x_reg_def h_reg_def l_reg_def bit_simps)

lemma upper_half_kept:
  "drop_bit 16 (set_x_reg v r) = drop_bit 16 r" "drop_bit 16 (set_l_reg w r) = drop_bit 16 r"
  "drop_bit 16 (set_h_reg w r) = drop_bit 16 r"
  by (rule bit_word_eqI;
      auto simp: set_x_reg_def set_l_reg_def set_h_reg_def reg_masks bit_simps dest: bit_imp_le_length)+

end
