(* ===== verification/X86Flags.thy ===== *)
theory X86Flags
  imports X86Regs
begin

unbundle bit_operations_syntax

text \<open>
  The flags of the emulated processor: the macros of \<open>x86emu/regs.h\<close>, the parity table and the
  carry chain of \<open>prim_ops.c\<close>, and what they compute.
\<close>

section \<open>Flag macros\<close>

abbreviation (input) F_CF :: u32 where "F_CF \<equiv> 0x0001"
abbreviation (input) F_PF :: u32 where "F_PF \<equiv> 0x0004"
abbreviation (input) F_AF :: u32 where "F_AF \<equiv> 0x0010"
abbreviation (input) F_ZF :: u32 where "F_ZF \<equiv> 0x0040"
abbreviation (input) F_SF :: u32 where "F_SF \<equiv> 0x0080"
abbreviation (input) F_TF :: u32 where "F_TF \<equiv> 0x0100"
abbreviation (input) F_IF :: u32 where "F_IF \<equiv> 0x0200"
abbreviation (input) F_DF :: u32 where "F_DF \<equiv> 0x0400"
abbreviation (input) F_OF :: u32 where "F_OF \<equiv> 0x0800"

definition TOGGLE_FLAG :: "u32 \<Rightarrow> x86_regs \<Rightarrow> x86_regs" where
  "TOGGLE_FLAG f st = st\<lparr> R_FLG := R_FLG st XOR f \<rparr>"

definition SET_FLAG :: "u32 \<Rightarrow> x86_regs \<Rightarrow> x86_regs" where
  "SET_FLAG f st = st\<lparr> R_FLG := R_FLG st OR f \<rparr>"

definition CLEAR_FLAG :: "u32 \<Rightarrow> x86_regs \<Rightarrow> x86_regs" where
  "CLEAR_FLAG f st = st\<lparr> R_FLG := R_FLG st AND NOT f \<rparr>"

definition ACCESS_FLAG :: "u32 \<Rightarrow> x86_regs \<Rightarrow> bool" where
  "ACCESS_FLAG f st \<longleftrightarrow> R_FLG st AND f \<noteq> 0"

definition CONDITIONAL_SET_FLAG :: "bool \<Rightarrow> u32 \<Rightarrow> x86_regs \<Rightarrow> x86_regs" where
  "CONDITIONAL_SET_FLAG c f st = (if c then SET_FLAG f st else CLEAR_FLAG f st)"

definition x86emu_parity_tab :: "u32 list" where
  "x86emu_parity_tab =
     [0x96696996, 0x69969669, 0x69969669, 0x96696996,
      0x69969669, 0x96696996, 0x96696996, 0x69969669]"

definition PARITY :: "u32 \<Rightarrow> bool" where
  "PARITY x \<longleftrightarrow> drop_bit (unat (x mod 32)) (x86emu_parity_tab ! unat (x div 32)) AND 1 = 0"

definition XOR2 :: "u32 \<Rightarrow> bool" where
  "XOR2 x \<longleftrightarrow> (x XOR drop_bit 1 x) AND 1 \<noteq> 0"

section \<open>Reading flags back\<close>

definition is_flag :: "u32 \<Rightarrow> bool" where
  "is_flag f \<longleftrightarrow> f \<in> {F_CF, F_PF, F_AF, F_ZF, F_SF, F_TF, F_IF, F_DF, F_OF}"

lemma is_flag_consts [simp]:
  "is_flag F_CF" "is_flag F_PF" "is_flag F_AF" "is_flag F_ZF" "is_flag F_SF"
  "is_flag F_TF" "is_flag F_IF" "is_flag F_DF" "is_flag F_OF"
  by (simp_all add: is_flag_def)

lemma is_flag_bit:
  assumes "is_flag f"
  obtains n where "n < 32" "f = push_bit n 1"
proof -
  have "\<exists>n \<in> set [0, 2, 4, 6, 7, 8, 9, 10, 11]. f = push_bit n 1"
    using assms by (simp add: is_flag_def push_bit_eq_mult)
  then obtain n where "n \<in> set [0, 2, 4, 6, 7, 8, 9, 10, 11]" "f = push_bit n 1" by blast
  moreover from this(1) have "n < 32" by auto
  ultimately show ?thesis using that by blast
qed

lemma ACCESS_FLAG_set [flag_simps]:
  assumes "is_flag f" "is_flag g"
  shows "ACCESS_FLAG f (SET_FLAG g st) \<longleftrightarrow> f = g \<or> ACCESS_FLAG f st"
    and "ACCESS_FLAG f (CLEAR_FLAG g st) \<longleftrightarrow> f \<noteq> g \<and> ACCESS_FLAG f st"
    and "ACCESS_FLAG f (CONDITIONAL_SET_FLAG c g st) \<longleftrightarrow> (if f = g then c else ACCESS_FLAG f st)"
    and "ACCESS_FLAG f (TOGGLE_FLAG g st) \<longleftrightarrow> ACCESS_FLAG f st \<noteq> (f = g)"
proof -
  obtain m where m: "m < 32" "f = push_bit m 1" using assms(1) by (rule is_flag_bit)
  obtain n where n: "n < 32" "g = push_bit n 1" using assms(2) by (rule is_flag_bit)
  have fg: "f = g \<longleftrightarrow> m = n"
    using m n by (auto simp: word_eq_bits bit_simps)
  have b: "ACCESS_FLAG f s \<longleftrightarrow> bit (R_FLG s) m" for s
    unfolding ACCESS_FLAG_def m(2) by (rule and_push_bit_nonzero) (use m in simp)
  show "ACCESS_FLAG f (SET_FLAG g st) \<longleftrightarrow> f = g \<or> ACCESS_FLAG f st"
    using m n(1) unfolding b fg by (auto simp: SET_FLAG_def n(2) bit_simps)
  show "ACCESS_FLAG f (CLEAR_FLAG g st) \<longleftrightarrow> f \<noteq> g \<and> ACCESS_FLAG f st"
    using m n(1) unfolding b fg by (auto simp: CLEAR_FLAG_def n(2) bit_simps)
  then show "ACCESS_FLAG f (CONDITIONAL_SET_FLAG c g st) \<longleftrightarrow> (if f = g then c else ACCESS_FLAG f st)"
    using \<open>ACCESS_FLAG f (SET_FLAG g st) \<longleftrightarrow> f = g \<or> ACCESS_FLAG f st\<close>
    by (auto simp: CONDITIONAL_SET_FLAG_def)
  show "ACCESS_FLAG f (TOGGLE_FLAG g st) \<longleftrightarrow> ACCESS_FLAG f st \<noteq> (f = g)"
    using m n(1) unfolding b fg by (auto simp: TOGGLE_FLAG_def n(2) bit_simps)
qed

text \<open>
  \<open>flags_frame M\<close>: nothing but the flags of the mask \<open>M\<close> changes. \<open>0x8D5\<close> is the mask of the six
  arithmetic flags.
\<close>

definition flags_frame :: "u32 \<Rightarrow> x86_regs \<Rightarrow> x86_regs \<Rightarrow> bool" where
  "flags_frame M st st' \<longleftrightarrow>
     st' = st\<lparr> R_FLG := R_FLG st' \<rparr> \<and> R_FLG st' AND NOT M = R_FLG st AND NOT M"

lemma flags_frame_refl [simp]: "flags_frame M st st"
  by (simp add: flags_frame_def)

lemma flags_frame_trans: "flags_frame M a b \<Longrightarrow> flags_frame M b c \<Longrightarrow> flags_frame M a c"
  by (auto simp: flags_frame_def) (metis x86_regs.surjective x86_regs.update_convs(10))

lemma mask_and_not:
  fixes f :: u32
  assumes "f AND M = f"
  shows "(x OR f) AND NOT M = x AND NOT M" "(x AND NOT f) AND NOT M = x AND NOT M"
proof -
  have "bit f n \<Longrightarrow> bit M n" for n using assms by (metis bit_and_iff)
  then show "(x OR f) AND NOT M = x AND NOT M" "(x AND NOT f) AND NOT M = x AND NOT M"
    by (auto intro!: bit_word_eqI simp: bit_simps)
qed

lemma flags_frame_flag [flag_simps]:
  assumes "f AND M = f"
  shows "flags_frame M st (SET_FLAG f st') \<longleftrightarrow> flags_frame M st st'"
    and "flags_frame M st (CLEAR_FLAG f st') \<longleftrightarrow> flags_frame M st st'"
    and "flags_frame M st (CONDITIONAL_SET_FLAG c f st') \<longleftrightarrow> flags_frame M st st'"
proof -
  have upd: "st'\<lparr> R_FLG := v \<rparr> = st\<lparr> R_FLG := v \<rparr> \<longleftrightarrow> st' = st\<lparr> R_FLG := R_FLG st' \<rparr>" for v
    by (cases st; cases st') auto
  show "flags_frame M st (SET_FLAG f st') \<longleftrightarrow> flags_frame M st st'"
    and "flags_frame M st (CLEAR_FLAG f st') \<longleftrightarrow> flags_frame M st st'"
    by (simp_all add: flags_frame_def SET_FLAG_def CLEAR_FLAG_def mask_and_not[OF assms] upd)
  then show "flags_frame M st (CONDITIONAL_SET_FLAG c f st') \<longleftrightarrow> flags_frame M st st'"
    by (simp add: CONDITIONAL_SET_FLAG_def)
qed

lemma flags_frame_regs:
  assumes "flags_frame M st st'"
  shows "R_EAX st' = R_EAX st" "R_EDX st' = R_EDX st" "R_ECX st' = R_ECX st" "R_ESP st' = R_ESP st"
proof -
  have eq: "st' = st\<lparr> R_FLG := R_FLG st' \<rparr>" using assms by (simp add: flags_frame_def)
  show "R_EAX st' = R_EAX st" by (subst eq) simp
  show "R_EDX st' = R_EDX st" by (subst eq) simp
  show "R_ECX st' = R_ECX st" by (subst eq) simp
  show "R_ESP st' = R_ESP st" by (subst eq) simp
qed

section \<open>Parity\<close>

definition popcount8 :: "'a::len word \<Rightarrow> nat" where
  "popcount8 x = length (filter (bit x) [0..<8])"

lemma upt_8: "[0..<8] = [0, 1, 2, 3, 4, 5, 6, 7 :: nat]"
  by (simp add: upt_rec)

lemma PARITY_bits:
  "PARITY (horner_sum of_bool 2 [b0, b1, b2, b3, b4, b5, b6, b7]) \<longleftrightarrow>
     even (length (filter id [b0, b1, b2, b3, b4, b5, b6, b7]))"
  unfolding PARITY_def x86emu_parity_tab_def
  by (cases b0; cases b1; cases b2; cases b3; cases b4; cases b5; cases b6; cases b7; simp)

lemma PARITY_popcount:
  fixes x :: u32
  shows "PARITY (x AND 0xFF) \<longleftrightarrow> even (popcount8 x)"
proof -
  have "x AND 0xFF = horner_sum of_bool 2 (map (bit x) [0..<8])"
    by (simp add: byte_mask horner_sum_bit_eq_take_bit take_bit_eq_mask)
  moreover have "popcount8 x = length (filter id (map (bit x) [0..<8]))"
    by (simp add: popcount8_def filter_map comp_def)
  ultimately show ?thesis unfolding upt_8 list.map by (simp only: PARITY_bits)
qed

lemma popcount8_ucast:
  "8 \<le> LENGTH('a::len) \<Longrightarrow> popcount8 (ucast (x :: 'a word) :: u32) = popcount8 x"
proof -
  assume "8 \<le> LENGTH('a)"
  then have "filter (bit (ucast x :: u32)) [0..<8] = filter (bit x) [0..<8]"
    by (intro filter_cong) (auto simp: bit_simps)
  then show ?thesis by (simp add: popcount8_def)
qed

lemma popcount8_down:
  "8 \<le> LENGTH('a::len) \<Longrightarrow> popcount8 (ucast (x :: u32) :: 'a word) = popcount8 x"
proof -
  assume "8 \<le> LENGTH('a)"
  then have "filter (bit (ucast x :: 'a word)) [0..<8] = filter (bit x) [0..<8]"
    by (intro filter_cong) (auto simp: bit_simps)
  then show ?thesis by (simp add: popcount8_def)
qed

lemma XOR2_bits:
  "n < 31 \<Longrightarrow> XOR2 (drop_bit n x) \<longleftrightarrow> bit x n \<noteq> bit x (Suc n)"
proof -
  assume "n < 31"
  have "(y :: u32) AND 1 \<noteq> 0 \<longleftrightarrow> bit y 0" for y
    using and_push_bit_nonzero[of 0 y] by simp
  then show ?thesis using \<open>n < 31\<close> by (auto simp: XOR2_def bit_simps)
qed

end
