(* ===== verification/X86Carry.thy ===== *)
theory X86Carry
  imports X86Flags
begin

unbundle bit_operations_syntax

text \<open>
  The carry and borrow chains of \<open>prim_ops.c\<close> (see the note at the top of that file): the word
  \<open>cc = (s AND d) OR (NOT res AND (s OR d))\<close> has bit \<open>n\<close> set exactly if adding carries out of bit
  \<open>n\<close>, whatever the width of the operands inside the 32 bit arithmetic.
\<close>

section \<open>Carries of a sum\<close>

definition carry_into :: "nat \<Rightarrow> nat \<Rightarrow> nat \<Rightarrow> nat \<Rightarrow> bool" where
  "carry_into n a b c \<longleftrightarrow> 2 ^ n \<le> a mod 2 ^ n + b mod 2 ^ n + c"

lemma mod_Suc_bit: "(a :: nat) mod 2 ^ Suc n = a mod 2 ^ n + 2 ^ n * of_bool (bit a n)"
proof -
  have "a mod 2 ^ Suc n = a mod (2 ^ n * 2)" by (simp only: power_Suc2)
  also have "\<dots> = 2 ^ n * (a div 2 ^ n mod 2) + a mod 2 ^ n" by (rule mod_mult2_eq)
  finally show ?thesis by (simp add: bit_iff_odd mod2_eq_if)
qed

lemma mod_add3: "(x + y + c) mod p = (x mod p + y mod p + c) mod p" for p :: nat
  using mod_add_left_eq[of x p "y + c"] mod_add_left_eq[of y p "x mod p + c"] by (simp add: ac_simps)

lemma carry_bound:
  assumes "c \<le> 1"
  shows "(a :: nat) mod 2 ^ n + b mod 2 ^ n + c < 2 * 2 ^ n"
proof -
  have "a mod 2 ^ n < 2 ^ n" "b mod 2 ^ n < 2 ^ n" by simp_all
  with assms show ?thesis by linarith
qed

lemma carry_Suc:
  assumes "c \<le> 1"
  shows "carry_into (Suc n) a b c \<longleftrightarrow>
     bit a n \<and> bit b n \<or> (bit a n \<or> bit b n) \<and> carry_into n a b c"
proof -
  have "carry_into (Suc n) a b c \<longleftrightarrow> 2 * 2 ^ n \<le>
      a mod 2 ^ n + 2 ^ n * of_bool (bit a n) + (b mod 2 ^ n + 2 ^ n * of_bool (bit b n)) + c"
    unfolding carry_into_def mod_Suc_bit by (simp only: power_Suc)
  then show ?thesis
    using carry_bound[OF assms, of a n b]
    by (cases "bit a n"; cases "bit b n") (auto simp: carry_into_def)
qed

lemma sum_bit:
  assumes "c \<le> 1"
  shows "bit (a + b + c) n \<longleftrightarrow> (bit a n \<noteq> bit b n) \<noteq> carry_into n a b c"
proof -
  let ?L = "a mod 2 ^ n + b mod 2 ^ n + c"
  have "a + b + c = (a div 2 ^ n + b div 2 ^ n) * 2 ^ n + ?L"
    using div_mult_mod_eq[of a "2 ^ n"] div_mult_mod_eq[of b "2 ^ n"] by (simp add: algebra_simps)
  then have "(a + b + c) div 2 ^ n = ((a div 2 ^ n + b div 2 ^ n) * 2 ^ n + ?L) div 2 ^ n"
    by (rule arg_cong)
  also have "\<dots> = a div 2 ^ n + b div 2 ^ n + ?L div 2 ^ n" by (rule div_mult_self3) simp
  finally have "(a + b + c) div 2 ^ n = a div 2 ^ n + b div 2 ^ n + ?L div 2 ^ n" .
  moreover have "?L div 2 ^ n = of_bool (carry_into n a b c)"
  proof (cases "carry_into n a b c")
    case True
    then have "?L div 2 ^ n = Suc ((?L - 2 ^ n) div 2 ^ n)"
      unfolding carry_into_def by (simp add: le_div_geq)
    then show ?thesis using True carry_bound[OF assms, of a n b] by simp
  next
    case False
    then show ?thesis by (simp add: carry_into_def)
  qed
  ultimately show ?thesis by (auto simp: bit_iff_odd)
qed

lemma carry_chain_nat:
  assumes "c \<le> 1"
  shows "(bit b n \<and> bit a n \<or> \<not> bit (a + b + c) n \<and> (bit b n \<or> bit a n)) \<longleftrightarrow> carry_into (Suc n) a b c"
  unfolding carry_Suc[OF assms] sum_bit[OF assms] by blast

text \<open>The word computed from operands and result.\<close>

definition carry_chain :: "u32 \<Rightarrow> u32 \<Rightarrow> u32 \<Rightarrow> u32" where
  "carry_chain d s res = (s AND d) OR (NOT res AND (s OR d))"

definition borrow_chain :: "u32 \<Rightarrow> u32 \<Rightarrow> u32 \<Rightarrow> u32" where
  "borrow_chain d s res = (res AND (NOT d OR s)) OR (NOT d AND s)"

lemma bit_unat: "bit (x :: 'a::len word) n \<longleftrightarrow> bit (unat x) n"
  by (auto simp: bit_unsigned_iff dest: bit_imp_le_length)

lemma carry_chain_bit:
  assumes "c \<le> 1" "res = d + s + of_nat c" "n < 32"
  shows "bit (carry_chain d s res) n \<longleftrightarrow> carry_into (Suc n) (unat d) (unat s) c"
proof -
  have "unat res = (unat d + unat s + c) mod 2 ^ 32"
    unfolding assms(2) by (simp add: unat_word_ariths unat_of_nat mod_simps)
  then have "bit res n \<longleftrightarrow> bit (unat d + unat s + c) n"
    using assms(3) by (metis bit_take_bit_iff bit_unat take_bit_eq_mod)
  then show ?thesis
    using carry_chain_nat[OF assms(1), of "unat s" n "unat d"] assms(3)
    by (simp add: carry_chain_def bit_simps bit_unat[symmetric])
qed

text \<open>A difference read as a sum: the borrow chain of \<open>d - s\<close> is the carry chain of \<open>res + s\<close>.\<close>

lemma borrow_chain_carry: "borrow_chain d s res = carry_chain res s d"
  by (rule bit_word_eqI) (auto simp: borrow_chain_def carry_chain_def bit_simps)

lemma borrow_chain_bit:
  assumes "c \<le> 1" "res = d - s - of_nat c" "n < 32"
  shows "bit (borrow_chain d s res) n \<longleftrightarrow> unat d mod 2 ^ Suc n < unat s mod 2 ^ Suc n + c"
proof -
  have d: "d = res + s + of_nat c" using assms(2) by simp
  let ?P = "2 ^ Suc n :: nat"
  have "bit (borrow_chain d s res) n \<longleftrightarrow> carry_into (Suc n) (unat res) (unat s) c"
    unfolding borrow_chain_carry using carry_chain_bit[OF assms(1) d] assms(3) by simp
  also have "\<dots> \<longleftrightarrow> ?P \<le> unat res mod ?P + unat s mod ?P + c" by (simp add: carry_into_def)
  also have "\<dots> \<longleftrightarrow> unat d mod ?P < unat s mod ?P + c"
  proof -
    let ?L = "unat res mod ?P + unat s mod ?P + c"
    have "?P dvd 2 ^ 32" by (rule le_imp_power_dvd) (use assms(3) in simp)
    then have "unat d mod ?P = (unat res + unat s + c) mod ?P"
      unfolding d by (simp add: unat_word_ariths unat_of_nat mod_simps mod_mod_cancel)
    also have "\<dots> = ?L mod ?P" by (rule mod_add3)
    finally have m: "unat d mod ?P = ?L mod ?P" .
    have r: "unat res mod ?P < ?P" and L: "?L < 2 * ?P"
      using carry_bound[OF assms(1), of "unat res" "Suc n" "unat s"] by simp_all
    show ?thesis
    proof (cases "?P \<le> ?L")
      case True
      then have "?L mod ?P = ?L - ?P" using L by (simp add: le_mod_geq)
      then show ?thesis using m True r by linarith
    next
      case False
      then have "?L mod ?P = ?L" by simp
      then show ?thesis using m False by linarith
    qed
  qed
  finally show ?thesis .
qed

end
