(* ===== verification/X86Prim.thy ===== *)
theory X86Prim
  imports X86Carry
begin

unbundle bit_operations_syntax

text \<open>
  The arithmetic and logic primitives of \<open>prim_ops.c\<close>. Every function computes in 32 bit unsigned
  arithmetic as the C code does after the integer promotions, and returns its result together
  with the registers, of which it changes the flags.
\<close>

section \<open>Decimal adjustment\<close>

definition aaa_word :: "u16 \<Rightarrow> x86_regs \<Rightarrow> u16 \<times> x86_regs" where
  "aaa_word d st =
     (let (d, st) = (if d AND 0xf > 0x9 \<or> ACCESS_FLAG F_AF st
                     then (d + 0x6 + 0x100, SET_FLAG F_CF (SET_FLAG F_AF st))
                     else (d, CLEAR_FLAG F_AF (CLEAR_FLAG F_CF st)));
          res = d AND 0xFF0F;
          st = CLEAR_FLAG F_SF st;
          st = CONDITIONAL_SET_FLAG (res = 0) F_ZF st;
          st = CONDITIONAL_SET_FLAG (PARITY (ucast res AND 0xff)) F_PF st
      in (res, st))"

definition aas_word :: "u16 \<Rightarrow> x86_regs \<Rightarrow> u16 \<times> x86_regs" where
  "aas_word d st =
     (let (d, st) = (if d AND 0xf > 0x9 \<or> ACCESS_FLAG F_AF st
                     then (d - 0x6 - 0x100, SET_FLAG F_CF (SET_FLAG F_AF st))
                     else (d, CLEAR_FLAG F_AF (CLEAR_FLAG F_CF st)));
          res = d AND 0xFF0F;
          st = CLEAR_FLAG F_SF st;
          st = CONDITIONAL_SET_FLAG (res = 0) F_ZF st;
          st = CONDITIONAL_SET_FLAG (PARITY (ucast res AND 0xff)) F_PF st
      in (res, st))"

definition aad_word :: "u16 \<Rightarrow> x86_regs \<Rightarrow> u16 \<times> x86_regs" where
  "aad_word d st =
     (let hb = ucast (drop_bit 8 d AND 0xff) :: u8;
          lb = ucast (d AND 0xff) :: u8;
          l = ucast ((ucast lb + 10 * ucast hb :: u32) AND 0xFF) :: u16;
          st = CLEAR_FLAG F_CF st;
          st = CLEAR_FLAG F_AF st;
          st = CLEAR_FLAG F_OF st;
          st = CONDITIONAL_SET_FLAG (l AND 0x80 \<noteq> 0) F_SF st;
          st = CONDITIONAL_SET_FLAG (l = 0) F_ZF st;
          st = CONDITIONAL_SET_FLAG (PARITY (ucast l AND 0xff)) F_PF st
      in (l, st))"

definition aam_word :: "u8 \<Rightarrow> x86_regs \<Rightarrow> u16 \<times> x86_regs" where
  "aam_word d st =
     (let h = ucast (d div 10) :: u16;
          l = ucast (d mod 10) :: u16;
          l = l OR push_bit 8 h;
          st = CLEAR_FLAG F_CF st;
          st = CLEAR_FLAG F_AF st;
          st = CLEAR_FLAG F_OF st;
          st = CONDITIONAL_SET_FLAG (l AND 0x80 \<noteq> 0) F_SF st;
          st = CONDITIONAL_SET_FLAG (l = 0) F_ZF st;
          st = CONDITIONAL_SET_FLAG (PARITY (ucast l AND 0xff)) F_PF st
      in (l, st))"

definition daa_byte :: "u8 \<Rightarrow> x86_regs \<Rightarrow> u8 \<times> x86_regs" where
  "daa_byte d st =
     (let res = ucast d :: u32;
          (res, st) = (if d AND 0xf > 9 \<or> ACCESS_FLAG F_AF st then (res + 6, SET_FLAG F_AF st)
                       else (res, st));
          (res, st) = (if res > 0x9F \<or> ACCESS_FLAG F_CF st then (res + 0x60, SET_FLAG F_CF st)
                       else (res, st));
          st = CONDITIONAL_SET_FLAG (res AND 0x80 \<noteq> 0) F_SF st;
          st = CONDITIONAL_SET_FLAG (res AND 0xFF = 0) F_ZF st;
          st = CONDITIONAL_SET_FLAG (PARITY (res AND 0xff)) F_PF st
      in (ucast res, st))"

definition das_byte :: "u8 \<Rightarrow> x86_regs \<Rightarrow> u8 \<times> x86_regs" where
  "das_byte d st =
     (let (d, st) = (if d AND 0xf > 9 \<or> ACCESS_FLAG F_AF st then (d - 6, SET_FLAG F_AF st)
                     else (d, st));
          (d, st) = (if d > 0x9F \<or> ACCESS_FLAG F_CF st then (d - 0x60, SET_FLAG F_CF st)
                     else (d, st));
          st = CONDITIONAL_SET_FLAG (d AND 0x80 \<noteq> 0) F_SF st;
          st = CONDITIONAL_SET_FLAG (d = 0) F_ZF st;
          st = CONDITIONAL_SET_FLAG (PARITY (ucast d AND 0xff)) F_PF st
      in (d, st))"

section \<open>Addition\<close>

definition adc_byte :: "u8 \<Rightarrow> u8 \<Rightarrow> x86_regs \<Rightarrow> u8 \<times> x86_regs" where
  "adc_byte d s st =
     (let d = ucast d :: u32;
          s = ucast s :: u32;
          res = (if ACCESS_FLAG F_CF st then 1 + d + s else d + s);
          cc = (s AND d) OR (NOT res AND (s OR d));
          st = CONDITIONAL_SET_FLAG (res AND 0x100 \<noteq> 0) F_CF st;
          st = CONDITIONAL_SET_FLAG (res AND 0xff = 0) F_ZF st;
          st = CONDITIONAL_SET_FLAG (res AND 0x80 \<noteq> 0) F_SF st;
          st = CONDITIONAL_SET_FLAG (PARITY (res AND 0xff)) F_PF st;
          st = CONDITIONAL_SET_FLAG (XOR2 (drop_bit 6 cc)) F_OF st;
          st = CONDITIONAL_SET_FLAG (cc AND 0x8 \<noteq> 0) F_AF st
      in (ucast res, st))"

definition add_byte :: "u8 \<Rightarrow> u8 \<Rightarrow> x86_regs \<Rightarrow> u8 \<times> x86_regs" where
  "add_byte d s st =
     (let d = ucast d :: u32;
          s = ucast s :: u32;
          res = d + s;
          cc = (s AND d) OR (NOT res AND (s OR d));
          st = CONDITIONAL_SET_FLAG (res AND 0x100 \<noteq> 0) F_CF st;
          st = CONDITIONAL_SET_FLAG (res AND 0xff = 0) F_ZF st;
          st = CONDITIONAL_SET_FLAG (res AND 0x80 \<noteq> 0) F_SF st;
          st = CONDITIONAL_SET_FLAG (PARITY (res AND 0xff)) F_PF st;
          st = CONDITIONAL_SET_FLAG (XOR2 (drop_bit 6 cc)) F_OF st;
          st = CONDITIONAL_SET_FLAG (cc AND 0x8 \<noteq> 0) F_AF st
      in (ucast res, st))"

definition inc_byte :: "u8 \<Rightarrow> x86_regs \<Rightarrow> u8 \<times> x86_regs" where
  "inc_byte d st =
     (let d = ucast d :: u32;
          res = d + 1;
          cc = ((1 AND d) OR NOT res) AND (1 OR d);
          st = CONDITIONAL_SET_FLAG (res AND 0xff = 0) F_ZF st;
          st = CONDITIONAL_SET_FLAG (res AND 0x80 \<noteq> 0) F_SF st;
          st = CONDITIONAL_SET_FLAG (PARITY (res AND 0xff)) F_PF st;
          st = CONDITIONAL_SET_FLAG (XOR2 (drop_bit 6 cc)) F_OF st;
          st = CONDITIONAL_SET_FLAG (cc AND 0x8 \<noteq> 0) F_AF st
      in (ucast res, st))"

definition adc_word :: "u16 \<Rightarrow> u16 \<Rightarrow> x86_regs \<Rightarrow> u16 \<times> x86_regs" where
  "adc_word d s st =
     (let d = ucast d :: u32;
          s = ucast s :: u32;
          res = (if ACCESS_FLAG F_CF st then 1 + d + s else d + s);
          cc = (s AND d) OR (NOT res AND (s OR d));
          st = CONDITIONAL_SET_FLAG (res AND 0x10000 \<noteq> 0) F_CF st;
          st = CONDITIONAL_SET_FLAG (res AND 0xffff = 0) F_ZF st;
          st = CONDITIONAL_SET_FLAG (res AND 0x8000 \<noteq> 0) F_SF st;
          st = CONDITIONAL_SET_FLAG (PARITY (res AND 0xff)) F_PF st;
          st = CONDITIONAL_SET_FLAG (XOR2 (drop_bit 14 cc)) F_OF st;
          st = CONDITIONAL_SET_FLAG (cc AND 0x8 \<noteq> 0) F_AF st
      in (ucast res, st))"

definition add_word :: "u16 \<Rightarrow> u16 \<Rightarrow> x86_regs \<Rightarrow> u16 \<times> x86_regs" where
  "add_word d s st =
     (let d = ucast d :: u32;
          s = ucast s :: u32;
          res = d + s;
          cc = (s AND d) OR (NOT res AND (s OR d));
          st = CONDITIONAL_SET_FLAG (res AND 0x10000 \<noteq> 0) F_CF st;
          st = CONDITIONAL_SET_FLAG (res AND 0xffff = 0) F_ZF st;
          st = CONDITIONAL_SET_FLAG (res AND 0x8000 \<noteq> 0) F_SF st;
          st = CONDITIONAL_SET_FLAG (PARITY (res AND 0xff)) F_PF st;
          st = CONDITIONAL_SET_FLAG (XOR2 (drop_bit 14 cc)) F_OF st;
          st = CONDITIONAL_SET_FLAG (cc AND 0x8 \<noteq> 0) F_AF st
      in (ucast res, st))"

definition inc_word :: "u16 \<Rightarrow> x86_regs \<Rightarrow> u16 \<times> x86_regs" where
  "inc_word d st =
     (let d = ucast d :: u32;
          res = d + 1;
          cc = (1 AND d) OR (NOT res AND (1 OR d));
          st = CONDITIONAL_SET_FLAG (res AND 0xffff = 0) F_ZF st;
          st = CONDITIONAL_SET_FLAG (res AND 0x8000 \<noteq> 0) F_SF st;
          st = CONDITIONAL_SET_FLAG (PARITY (res AND 0xff)) F_PF st;
          st = CONDITIONAL_SET_FLAG (XOR2 (drop_bit 14 cc)) F_OF st;
          st = CONDITIONAL_SET_FLAG (cc AND 0x8 \<noteq> 0) F_AF st
      in (ucast res, st))"

definition adc_long :: "u32 \<Rightarrow> u32 \<Rightarrow> x86_regs \<Rightarrow> u32 \<times> x86_regs" where
  "adc_long d s st =
     (let (lo, res) = (if ACCESS_FLAG F_CF st
                       then (1 + (d AND 0xFFFF) + (s AND 0xFFFF), 1 + d + s)
                       else ((d AND 0xFFFF) + (s AND 0xFFFF), d + s));
          hi = drop_bit 16 lo + drop_bit 16 d + drop_bit 16 s;
          cc = (s AND d) OR (NOT res AND (s OR d));
          st = CONDITIONAL_SET_FLAG (hi AND 0x10000 \<noteq> 0) F_CF st;
          st = CONDITIONAL_SET_FLAG (res AND 0xffffffff = 0) F_ZF st;
          st = CONDITIONAL_SET_FLAG (res AND 0x80000000 \<noteq> 0) F_SF st;
          st = CONDITIONAL_SET_FLAG (PARITY (res AND 0xff)) F_PF st;
          st = CONDITIONAL_SET_FLAG (XOR2 (drop_bit 30 cc)) F_OF st;
          st = CONDITIONAL_SET_FLAG (cc AND 0x8 \<noteq> 0) F_AF st
      in (res, st))"

definition add_long :: "u32 \<Rightarrow> u32 \<Rightarrow> x86_regs \<Rightarrow> u32 \<times> x86_regs" where
  "add_long d s st =
     (let lo = (d AND 0xFFFF) + (s AND 0xFFFF);
          res = d + s;
          hi = drop_bit 16 lo + drop_bit 16 d + drop_bit 16 s;
          cc = (s AND d) OR (NOT res AND (s OR d));
          st = CONDITIONAL_SET_FLAG (hi AND 0x10000 \<noteq> 0) F_CF st;
          st = CONDITIONAL_SET_FLAG (res AND 0xffffffff = 0) F_ZF st;
          st = CONDITIONAL_SET_FLAG (res AND 0x80000000 \<noteq> 0) F_SF st;
          st = CONDITIONAL_SET_FLAG (PARITY (res AND 0xff)) F_PF st;
          st = CONDITIONAL_SET_FLAG (XOR2 (drop_bit 30 cc)) F_OF st;
          st = CONDITIONAL_SET_FLAG (cc AND 0x8 \<noteq> 0) F_AF st
      in (res, st))"

definition inc_long :: "u32 \<Rightarrow> x86_regs \<Rightarrow> u32 \<times> x86_regs" where
  "inc_long d st =
     (let res = d + 1;
          cc = (1 AND d) OR (NOT res AND (1 OR d));
          st = CONDITIONAL_SET_FLAG (res AND 0xffffffff = 0) F_ZF st;
          st = CONDITIONAL_SET_FLAG (res AND 0x80000000 \<noteq> 0) F_SF st;
          st = CONDITIONAL_SET_FLAG (PARITY (res AND 0xff)) F_PF st;
          st = CONDITIONAL_SET_FLAG (XOR2 (drop_bit 30 cc)) F_OF st;
          st = CONDITIONAL_SET_FLAG (cc AND 0x8 \<noteq> 0) F_AF st
      in (res, st))"

section \<open>Subtraction\<close>

definition sbb_byte :: "u8 \<Rightarrow> u8 \<Rightarrow> x86_regs \<Rightarrow> u8 \<times> x86_regs" where
  "sbb_byte d s st =
     (let d = ucast d :: u32;
          s = ucast s :: u32;
          res = (if ACCESS_FLAG F_CF st then d - s - 1 else d - s);
          bc = (res AND (NOT d OR s)) OR (NOT d AND s);
          st = CONDITIONAL_SET_FLAG (res AND 0x80 \<noteq> 0) F_SF st;
          st = CONDITIONAL_SET_FLAG (res AND 0xff = 0) F_ZF st;
          st = CONDITIONAL_SET_FLAG (PARITY (res AND 0xff)) F_PF st;
          st = CONDITIONAL_SET_FLAG (bc AND 0x80 \<noteq> 0) F_CF st;
          st = CONDITIONAL_SET_FLAG (XOR2 (drop_bit 6 bc)) F_OF st;
          st = CONDITIONAL_SET_FLAG (bc AND 0x8 \<noteq> 0) F_AF st
      in (ucast res, st))"

definition sub_byte :: "u8 \<Rightarrow> u8 \<Rightarrow> x86_regs \<Rightarrow> u8 \<times> x86_regs" where
  "sub_byte d s st =
     (let d = ucast d :: u32;
          s = ucast s :: u32;
          res = d - s;
          bc = (res AND (NOT d OR s)) OR (NOT d AND s);
          st = CONDITIONAL_SET_FLAG (res AND 0x80 \<noteq> 0) F_SF st;
          st = CONDITIONAL_SET_FLAG (res AND 0xff = 0) F_ZF st;
          st = CONDITIONAL_SET_FLAG (PARITY (res AND 0xff)) F_PF st;
          st = CONDITIONAL_SET_FLAG (bc AND 0x80 \<noteq> 0) F_CF st;
          st = CONDITIONAL_SET_FLAG (XOR2 (drop_bit 6 bc)) F_OF st;
          st = CONDITIONAL_SET_FLAG (bc AND 0x8 \<noteq> 0) F_AF st
      in (ucast res, st))"

definition cmp_byte :: "u8 \<Rightarrow> u8 \<Rightarrow> x86_regs \<Rightarrow> u8 \<times> x86_regs" where
  "cmp_byte d s st =
     (let d0 = d;
          d = ucast d :: u32;
          s = ucast s :: u32;
          res = d - s;
          bc = (res AND (NOT d OR s)) OR (NOT d AND s);
          st = CLEAR_FLAG F_CF st;
          st = CONDITIONAL_SET_FLAG (res AND 0x80 \<noteq> 0) F_SF st;
          st = CONDITIONAL_SET_FLAG (res AND 0xff = 0) F_ZF st;
          st = CONDITIONAL_SET_FLAG (PARITY (res AND 0xff)) F_PF st;
          st = CONDITIONAL_SET_FLAG (bc AND 0x80 \<noteq> 0) F_CF st;
          st = CONDITIONAL_SET_FLAG (XOR2 (drop_bit 6 bc)) F_OF st;
          st = CONDITIONAL_SET_FLAG (bc AND 0x8 \<noteq> 0) F_AF st
      in (d0, st))"

definition dec_byte :: "u8 \<Rightarrow> x86_regs \<Rightarrow> u8 \<times> x86_regs" where
  "dec_byte d st =
     (let d = ucast d :: u32;
          res = d - 1;
          bc = (res AND (NOT d OR 1)) OR (NOT d AND 1);
          st = CONDITIONAL_SET_FLAG (res AND 0x80 \<noteq> 0) F_SF st;
          st = CONDITIONAL_SET_FLAG (res AND 0xff = 0) F_ZF st;
          st = CONDITIONAL_SET_FLAG (PARITY (res AND 0xff)) F_PF st;
          st = CONDITIONAL_SET_FLAG (XOR2 (drop_bit 6 bc)) F_OF st;
          st = CONDITIONAL_SET_FLAG (bc AND 0x8 \<noteq> 0) F_AF st
      in (ucast res, st))"

definition neg_byte :: "u8 \<Rightarrow> x86_regs \<Rightarrow> u8 \<times> x86_regs" where
  "neg_byte s st =
     (let res = - s;
          bc = res OR s;
          st = CONDITIONAL_SET_FLAG (s \<noteq> 0) F_CF st;
          st = CONDITIONAL_SET_FLAG (res AND 0xff = 0) F_ZF st;
          st = CONDITIONAL_SET_FLAG (res AND 0x80 \<noteq> 0) F_SF st;
          st = CONDITIONAL_SET_FLAG (PARITY (ucast res)) F_PF st;
          st = CONDITIONAL_SET_FLAG (XOR2 (drop_bit 6 (ucast bc))) F_OF st;
          st = CONDITIONAL_SET_FLAG (bc AND 0x8 \<noteq> 0) F_AF st
      in (res, st))"

definition sbb_word :: "u16 \<Rightarrow> u16 \<Rightarrow> x86_regs \<Rightarrow> u16 \<times> x86_regs" where
  "sbb_word d s st =
     (let d = ucast d :: u32;
          s = ucast s :: u32;
          res = (if ACCESS_FLAG F_CF st then d - s - 1 else d - s);
          bc = (res AND (NOT d OR s)) OR (NOT d AND s);
          st = CONDITIONAL_SET_FLAG (res AND 0x8000 \<noteq> 0) F_SF st;
          st = CONDITIONAL_SET_FLAG (res AND 0xffff = 0) F_ZF st;
          st = CONDITIONAL_SET_FLAG (PARITY (res AND 0xff)) F_PF st;
          st = CONDITIONAL_SET_FLAG (bc AND 0x8000 \<noteq> 0) F_CF st;
          st = CONDITIONAL_SET_FLAG (XOR2 (drop_bit 14 bc)) F_OF st;
          st = CONDITIONAL_SET_FLAG (bc AND 0x8 \<noteq> 0) F_AF st
      in (ucast res, st))"

definition sub_word :: "u16 \<Rightarrow> u16 \<Rightarrow> x86_regs \<Rightarrow> u16 \<times> x86_regs" where
  "sub_word d s st =
     (let d = ucast d :: u32;
          s = ucast s :: u32;
          res = d - s;
          bc = (res AND (NOT d OR s)) OR (NOT d AND s);
          st = CONDITIONAL_SET_FLAG (res AND 0x8000 \<noteq> 0) F_SF st;
          st = CONDITIONAL_SET_FLAG (res AND 0xffff = 0) F_ZF st;
          st = CONDITIONAL_SET_FLAG (PARITY (res AND 0xff)) F_PF st;
          st = CONDITIONAL_SET_FLAG (bc AND 0x8000 \<noteq> 0) F_CF st;
          st = CONDITIONAL_SET_FLAG (XOR2 (drop_bit 14 bc)) F_OF st;
          st = CONDITIONAL_SET_FLAG (bc AND 0x8 \<noteq> 0) F_AF st
      in (ucast res, st))"

definition cmp_word :: "u16 \<Rightarrow> u16 \<Rightarrow> x86_regs \<Rightarrow> u16 \<times> x86_regs" where
  "cmp_word d s st =
     (let d0 = d;
          d = ucast d :: u32;
          s = ucast s :: u32;
          res = d - s;
          bc = (res AND (NOT d OR s)) OR (NOT d AND s);
          st = CONDITIONAL_SET_FLAG (res AND 0x8000 \<noteq> 0) F_SF st;
          st = CONDITIONAL_SET_FLAG (res AND 0xffff = 0) F_ZF st;
          st = CONDITIONAL_SET_FLAG (PARITY (res AND 0xff)) F_PF st;
          st = CONDITIONAL_SET_FLAG (bc AND 0x8000 \<noteq> 0) F_CF st;
          st = CONDITIONAL_SET_FLAG (XOR2 (drop_bit 14 bc)) F_OF st;
          st = CONDITIONAL_SET_FLAG (bc AND 0x8 \<noteq> 0) F_AF st
      in (d0, st))"

definition dec_word :: "u16 \<Rightarrow> x86_regs \<Rightarrow> u16 \<times> x86_regs" where
  "dec_word d st =
     (let d = ucast d :: u32;
          res = d - 1;
          bc = (res AND (NOT d OR 1)) OR (NOT d AND 1);
          st = CONDITIONAL_SET_FLAG (res AND 0x8000 \<noteq> 0) F_SF st;
          st = CONDITIONAL_SET_FLAG (res AND 0xffff = 0) F_ZF st;
          st = CONDITIONAL_SET_FLAG (PARITY (res AND 0xff)) F_PF st;
          st = CONDITIONAL_SET_FLAG (XOR2 (drop_bit 14 bc)) F_OF st;
          st = CONDITIONAL_SET_FLAG (bc AND 0x8 \<noteq> 0) F_AF st
      in (ucast res, st))"

definition neg_word :: "u16 \<Rightarrow> x86_regs \<Rightarrow> u16 \<times> x86_regs" where
  "neg_word s st =
     (let res = - s;
          bc = res OR s;
          st = CONDITIONAL_SET_FLAG (s \<noteq> 0) F_CF st;
          st = CONDITIONAL_SET_FLAG (res AND 0xffff = 0) F_ZF st;
          st = CONDITIONAL_SET_FLAG (res AND 0x8000 \<noteq> 0) F_SF st;
          st = CONDITIONAL_SET_FLAG (PARITY (ucast res AND 0xff)) F_PF st;
          st = CONDITIONAL_SET_FLAG (XOR2 (drop_bit 14 (ucast bc))) F_OF st;
          st = CONDITIONAL_SET_FLAG (bc AND 0x8 \<noteq> 0) F_AF st
      in (res, st))"

definition sbb_long :: "u32 \<Rightarrow> u32 \<Rightarrow> x86_regs \<Rightarrow> u32 \<times> x86_regs" where
  "sbb_long d s st =
     (let res = (if ACCESS_FLAG F_CF st then d - s - 1 else d - s);
          bc = (res AND (NOT d OR s)) OR (NOT d AND s);
          st = CONDITIONAL_SET_FLAG (res AND 0x80000000 \<noteq> 0) F_SF st;
          st = CONDITIONAL_SET_FLAG (res AND 0xffffffff = 0) F_ZF st;
          st = CONDITIONAL_SET_FLAG (PARITY (res AND 0xff)) F_PF st;
          st = CONDITIONAL_SET_FLAG (bc AND 0x80000000 \<noteq> 0) F_CF st;
          st = CONDITIONAL_SET_FLAG (XOR2 (drop_bit 30 bc)) F_OF st;
          st = CONDITIONAL_SET_FLAG (bc AND 0x8 \<noteq> 0) F_AF st
      in (res, st))"

definition sub_long :: "u32 \<Rightarrow> u32 \<Rightarrow> x86_regs \<Rightarrow> u32 \<times> x86_regs" where
  "sub_long d s st =
     (let res = d - s;
          bc = (res AND (NOT d OR s)) OR (NOT d AND s);
          st = CONDITIONAL_SET_FLAG (res AND 0x80000000 \<noteq> 0) F_SF st;
          st = CONDITIONAL_SET_FLAG (res AND 0xffffffff = 0) F_ZF st;
          st = CONDITIONAL_SET_FLAG (PARITY (res AND 0xff)) F_PF st;
          st = CONDITIONAL_SET_FLAG (bc AND 0x80000000 \<noteq> 0) F_CF st;
          st = CONDITIONAL_SET_FLAG (XOR2 (drop_bit 30 bc)) F_OF st;
          st = CONDITIONAL_SET_FLAG (bc AND 0x8 \<noteq> 0) F_AF st
      in (res, st))"

definition cmp_long :: "u32 \<Rightarrow> u32 \<Rightarrow> x86_regs \<Rightarrow> u32 \<times> x86_regs" where
  "cmp_long d s st =
     (let res = d - s;
          bc = (res AND (NOT d OR s)) OR (NOT d AND s);
          st = CONDITIONAL_SET_FLAG (res AND 0x80000000 \<noteq> 0) F_SF st;
          st = CONDITIONAL_SET_FLAG (res AND 0xffffffff = 0) F_ZF st;
          st = CONDITIONAL_SET_FLAG (PARITY (res AND 0xff)) F_PF st;
          st = CONDITIONAL_SET_FLAG (bc AND 0x80000000 \<noteq> 0) F_CF st;
          st = CONDITIONAL_SET_FLAG (XOR2 (drop_bit 30 bc)) F_OF st;
          st = CONDITIONAL_SET_FLAG (bc AND 0x8 \<noteq> 0) F_AF st
      in (d, st))"

definition dec_long :: "u32 \<Rightarrow> x86_regs \<Rightarrow> u32 \<times> x86_regs" where
  "dec_long d st =
     (let res = d - 1;
          bc = (res AND (NOT d OR 1)) OR (NOT d AND 1);
          st = CONDITIONAL_SET_FLAG (res AND 0x80000000 \<noteq> 0) F_SF st;
          st = CONDITIONAL_SET_FLAG (res AND 0xffffffff = 0) F_ZF st;
          st = CONDITIONAL_SET_FLAG (PARITY (res AND 0xff)) F_PF st;
          st = CONDITIONAL_SET_FLAG (XOR2 (drop_bit 30 bc)) F_OF st;
          st = CONDITIONAL_SET_FLAG (bc AND 0x8 \<noteq> 0) F_AF st
      in (res, st))"

definition neg_long :: "u32 \<Rightarrow> x86_regs \<Rightarrow> u32 \<times> x86_regs" where
  "neg_long s st =
     (let res = - s;
          bc = res OR s;
          st = CONDITIONAL_SET_FLAG (s \<noteq> 0) F_CF st;
          st = CONDITIONAL_SET_FLAG (res AND 0xffffffff = 0) F_ZF st;
          st = CONDITIONAL_SET_FLAG (res AND 0x80000000 \<noteq> 0) F_SF st;
          st = CONDITIONAL_SET_FLAG (PARITY (res AND 0xff)) F_PF st;
          st = CONDITIONAL_SET_FLAG (XOR2 (drop_bit 30 bc)) F_OF st;
          st = CONDITIONAL_SET_FLAG (bc AND 0x8 \<noteq> 0) F_AF st
      in (res, st))"

section \<open>Logic\<close>

definition and_byte :: "u8 \<Rightarrow> u8 \<Rightarrow> x86_regs \<Rightarrow> u8 \<times> x86_regs" where
  "and_byte d s st =
     (let res = d AND s;
          st = CLEAR_FLAG F_OF st;
          st = CLEAR_FLAG F_CF st;
          st = CLEAR_FLAG F_AF st;
          st = CONDITIONAL_SET_FLAG (res AND 0x80 \<noteq> 0) F_SF st;
          st = CONDITIONAL_SET_FLAG (res = 0) F_ZF st;
          st = CONDITIONAL_SET_FLAG (PARITY (ucast res)) F_PF st
      in (res, st))"

definition or_byte :: "u8 \<Rightarrow> u8 \<Rightarrow> x86_regs \<Rightarrow> u8 \<times> x86_regs" where
  "or_byte d s st =
     (let res = d OR s;
          st = CLEAR_FLAG F_OF st;
          st = CLEAR_FLAG F_CF st;
          st = CLEAR_FLAG F_AF st;
          st = CONDITIONAL_SET_FLAG (res AND 0x80 \<noteq> 0) F_SF st;
          st = CONDITIONAL_SET_FLAG (res = 0) F_ZF st;
          st = CONDITIONAL_SET_FLAG (PARITY (ucast res)) F_PF st
      in (res, st))"

definition xor_byte :: "u8 \<Rightarrow> u8 \<Rightarrow> x86_regs \<Rightarrow> u8 \<times> x86_regs" where
  "xor_byte d s st =
     (let res = d XOR s;
          st = CLEAR_FLAG F_OF st;
          st = CONDITIONAL_SET_FLAG (res AND 0x80 \<noteq> 0) F_SF st;
          st = CONDITIONAL_SET_FLAG (res = 0) F_ZF st;
          st = CONDITIONAL_SET_FLAG (PARITY (ucast res)) F_PF st;
          st = CLEAR_FLAG F_CF st;
          st = CLEAR_FLAG F_AF st
      in (res, st))"

definition test_byte :: "u8 \<Rightarrow> u8 \<Rightarrow> x86_regs \<Rightarrow> x86_regs" where
  "test_byte d s st =
     (let res = ucast d AND ucast s :: u32;
          st = CLEAR_FLAG F_OF st;
          st = CONDITIONAL_SET_FLAG (res AND 0x80 \<noteq> 0) F_SF st;
          st = CONDITIONAL_SET_FLAG (res = 0) F_ZF st;
          st = CONDITIONAL_SET_FLAG (PARITY (res AND 0xff)) F_PF st;
          st = CLEAR_FLAG F_CF st
      in st)"

definition not_byte :: "u8 \<Rightarrow> u8" where
  "not_byte s = NOT s"

definition and_word :: "u16 \<Rightarrow> u16 \<Rightarrow> x86_regs \<Rightarrow> u16 \<times> x86_regs" where
  "and_word d s st =
     (let res = d AND s;
          st = CLEAR_FLAG F_OF st;
          st = CLEAR_FLAG F_CF st;
          st = CLEAR_FLAG F_AF st;
          st = CONDITIONAL_SET_FLAG (res AND 0x8000 \<noteq> 0) F_SF st;
          st = CONDITIONAL_SET_FLAG (res = 0) F_ZF st;
          st = CONDITIONAL_SET_FLAG (PARITY (ucast res AND 0xff)) F_PF st
      in (res, st))"

definition or_word :: "u16 \<Rightarrow> u16 \<Rightarrow> x86_regs \<Rightarrow> u16 \<times> x86_regs" where
  "or_word d s st =
     (let res = d OR s;
          st = CLEAR_FLAG F_OF st;
          st = CLEAR_FLAG F_CF st;
          st = CLEAR_FLAG F_AF st;
          st = CONDITIONAL_SET_FLAG (res AND 0x8000 \<noteq> 0) F_SF st;
          st = CONDITIONAL_SET_FLAG (res = 0) F_ZF st;
          st = CONDITIONAL_SET_FLAG (PARITY (ucast res AND 0xff)) F_PF st
      in (res, st))"

definition xor_word :: "u16 \<Rightarrow> u16 \<Rightarrow> x86_regs \<Rightarrow> u16 \<times> x86_regs" where
  "xor_word d s st =
     (let res = d XOR s;
          st = CLEAR_FLAG F_OF st;
          st = CONDITIONAL_SET_FLAG (res AND 0x8000 \<noteq> 0) F_SF st;
          st = CONDITIONAL_SET_FLAG (res = 0) F_ZF st;
          st = CONDITIONAL_SET_FLAG (PARITY (ucast res AND 0xff)) F_PF st;
          st = CLEAR_FLAG F_CF st;
          st = CLEAR_FLAG F_AF st
      in (res, st))"

definition test_word :: "u16 \<Rightarrow> u16 \<Rightarrow> x86_regs \<Rightarrow> x86_regs" where
  "test_word d s st =
     (let res = ucast d AND ucast s :: u32;
          st = CLEAR_FLAG F_OF st;
          st = CONDITIONAL_SET_FLAG (res AND 0x8000 \<noteq> 0) F_SF st;
          st = CONDITIONAL_SET_FLAG (res = 0) F_ZF st;
          st = CONDITIONAL_SET_FLAG (PARITY (res AND 0xff)) F_PF st;
          st = CLEAR_FLAG F_CF st
      in st)"

definition not_word :: "u16 \<Rightarrow> u16" where
  "not_word s = NOT s"

definition and_long :: "u32 \<Rightarrow> u32 \<Rightarrow> x86_regs \<Rightarrow> u32 \<times> x86_regs" where
  "and_long d s st =
     (let res = d AND s;
          st = CLEAR_FLAG F_OF st;
          st = CLEAR_FLAG F_CF st;
          st = CLEAR_FLAG F_AF st;
          st = CONDITIONAL_SET_FLAG (res AND 0x80000000 \<noteq> 0) F_SF st;
          st = CONDITIONAL_SET_FLAG (res = 0) F_ZF st;
          st = CONDITIONAL_SET_FLAG (PARITY (res AND 0xff)) F_PF st
      in (res, st))"

definition or_long :: "u32 \<Rightarrow> u32 \<Rightarrow> x86_regs \<Rightarrow> u32 \<times> x86_regs" where
  "or_long d s st =
     (let res = d OR s;
          st = CLEAR_FLAG F_OF st;
          st = CLEAR_FLAG F_CF st;
          st = CLEAR_FLAG F_AF st;
          st = CONDITIONAL_SET_FLAG (res AND 0x80000000 \<noteq> 0) F_SF st;
          st = CONDITIONAL_SET_FLAG (res = 0) F_ZF st;
          st = CONDITIONAL_SET_FLAG (PARITY (res AND 0xff)) F_PF st
      in (res, st))"

definition xor_long :: "u32 \<Rightarrow> u32 \<Rightarrow> x86_regs \<Rightarrow> u32 \<times> x86_regs" where
  "xor_long d s st =
     (let res = d XOR s;
          st = CLEAR_FLAG F_OF st;
          st = CONDITIONAL_SET_FLAG (res AND 0x80000000 \<noteq> 0) F_SF st;
          st = CONDITIONAL_SET_FLAG (res = 0) F_ZF st;
          st = CONDITIONAL_SET_FLAG (PARITY (res AND 0xff)) F_PF st;
          st = CLEAR_FLAG F_CF st;
          st = CLEAR_FLAG F_AF st
      in (res, st))"

definition test_long :: "u32 \<Rightarrow> u32 \<Rightarrow> x86_regs \<Rightarrow> x86_regs" where
  "test_long d s st =
     (let res = d AND s;
          st = CLEAR_FLAG F_OF st;
          st = CONDITIONAL_SET_FLAG (res AND 0x80000000 \<noteq> 0) F_SF st;
          st = CONDITIONAL_SET_FLAG (res = 0) F_ZF st;
          st = CONDITIONAL_SET_FLAG (PARITY (res AND 0xff)) F_PF st;
          st = CLEAR_FLAG F_CF st
      in st)"

definition not_long :: "u32 \<Rightarrow> u32" where
  "not_long s = NOT s"

end
