(* ===== verification/X86Alu.thy ===== *)
theory X86Alu
  imports X86Prim
begin

unbundle bit_operations_syntax

text \<open>
  What the arithmetic primitives promise, as contracts over words of any width: the result, and
  each flag as a statement on the numbers the operands stand for. The contracts are locales; the
  byte, word and long functions of \<open>prim_ops.c\<close> are shown to satisfy them.
\<close>

section \<open>Numbers\<close>

definition fits_signed :: "'a::len itself \<Rightarrow> int \<Rightarrow> bool" where
  "fits_signed _ i \<longleftrightarrow> - (2 ^ (LENGTH('a) - 1)) \<le> i \<and> i < 2 ^ (LENGTH('a) - 1)"

lemma word_parts:
  fixes x :: "'a::len word"
  assumes m: "LENGTH('a) = Suc m"
  obtains A where "A < 2 ^ m" "unat x mod 2 ^ m = A" "unat x = A + 2 ^ m * of_bool (bit x m)"
    "sint x = int A - int (2 ^ m) * of_bool (bit x m)"
proof -
  let ?A = "unat x mod 2 ^ m" and ?b = "of_bool (bit x m)"
  have "unat x = unat x mod 2 ^ Suc m" using unsigned_less[of x, where ?'a = nat] by (simp add: m)
  also have "\<dots> = ?A + 2 ^ m * ?b" unfolding mod_Suc_bit by (simp add: bit_unat)
  finally have full: "unat x = ?A + 2 ^ m * ?b" .
  have "sint x = signed_take_bit m (uint x)" by (simp add: sint_uint m)
  also have "\<dots> = take_bit (Suc m) (uint x) - 2 ^ Suc m * of_bool (bit (uint x) m)"
    by (rule signed_take_bit_eq_take_bit_minus)
  also have "take_bit (Suc m) (uint x) = uint x"
    by (rule bintr_uint) (simp add: m)
  also have "bit (uint x) m = bit x m" by (simp add: bit_uint_iff m)
  also have "uint x = int (unat x)" by simp
  also have "\<dots> = int ?A + int (2 ^ m) * ?b" using full by (metis of_nat_add of_nat_mult of_nat_of_bool)
  finally have "sint x = int ?A - int (2 ^ m) * ?b" by simp
  with full show ?thesis by (intro that[of ?A]) simp_all
qed

lemma fits_signed_int:
  assumes "LENGTH('a::len) = Suc m"
  shows "fits_signed TYPE('a) i \<longleftrightarrow> - int (2 ^ m) \<le> i \<and> i < int (2 ^ m)"
  by (simp add: fits_signed_def assms)

text \<open>A signed sum or difference overflows exactly if the last two carries differ.\<close>

lemma signed_add_overflow:
  fixes d s :: "'a::len word"
  assumes "c \<le> 1"
  shows "carry_into (LENGTH('a) - 1) (unat d) (unat s) c \<noteq> carry_into LENGTH('a) (unat d) (unat s) c
     \<longleftrightarrow> \<not> fits_signed TYPE('a) (sint d + sint s + int c)"
proof -
  obtain m where m: "LENGTH('a) = Suc m" by (metis len_not_eq_0 not0_implies_Suc)
  obtain P where P: "P = (2 :: nat) ^ m" by simp
  obtain A where A: "A < P" "unat d mod P = A" "sint d = int A - int P * of_bool (bit d m)"
    using word_parts[OF m, of d] P by metis
  obtain B where B: "B < P" "unat s mod P = B" "sint s = int B - int P * of_bool (bit s m)"
    using word_parts[OF m, of s] P by metis
  have c0: "carry_into m (unat d) (unat s) c \<longleftrightarrow> P \<le> A + B + c"
    by (simp add: carry_into_def A(2) B(2) flip: P)
  show ?thesis
    unfolding m diff_Suc_1 carry_Suc[OF assms] c0 bit_unat[symmetric] A(3) B(3)
      fits_signed_int[OF m] P[symmetric]
    using A(1) B(1) assms by (cases "bit d m"; cases "bit s m") (simp_all, linarith+)
qed

lemma signed_sub_overflow:
  fixes d s :: "'a::len word"
  assumes "c \<le> 1"
  shows "(unat d mod 2 ^ (LENGTH('a) - 1) < unat s mod 2 ^ (LENGTH('a) - 1) + c) \<noteq> (unat d < unat s + c)
     \<longleftrightarrow> \<not> fits_signed TYPE('a) (sint d - sint s - int c)"
proof -
  obtain m where m: "LENGTH('a) = Suc m" by (metis len_not_eq_0 not0_implies_Suc)
  obtain P where P: "P = (2 :: nat) ^ m" by simp
  obtain A where A: "A < P" "unat d mod P = A" "unat d = A + P * of_bool (bit d m)"
      "sint d = int A - int P * of_bool (bit d m)"
    using word_parts[OF m, of d] P by metis
  obtain B where B: "B < P" "unat s mod P = B" "unat s = B + P * of_bool (bit s m)"
      "sint s = int B - int P * of_bool (bit s m)"
    using word_parts[OF m, of s] P by metis
  show ?thesis
    unfolding m diff_Suc_1 P[symmetric] A(2) B(2) A(4) B(4) fits_signed_int[OF m]
    unfolding A(3) B(3)
    using A(1) B(1) assms by (cases "bit d m"; cases "bit s m") (simp_all, linarith+)
qed

section \<open>The contracts\<close>

text \<open>
  Adding with a carry \<open>c\<close> in, and subtracting with a borrow \<open>c\<close> in: the result, the six arithmetic
  flags, and that nothing else changes. \<open>inc\<close> and \<open>dec\<close> keep the carry flag, so the contracts of the
  flags other than CF are separate.
\<close>

definition result_flags :: "'a::len word \<Rightarrow> x86_regs \<Rightarrow> bool" where
  "result_flags res st \<longleftrightarrow> (ACCESS_FLAG F_ZF st \<longleftrightarrow> res = 0) \<and> (ACCESS_FLAG F_SF st \<longleftrightarrow> sint res < 0)
     \<and> (ACCESS_FLAG F_PF st \<longleftrightarrow> even (popcount8 res))"

definition add_flags :: "'a::len word \<Rightarrow> 'a word \<Rightarrow> nat \<Rightarrow> x86_regs \<Rightarrow> bool" where
  "add_flags d s c st \<longleftrightarrow>
     (ACCESS_FLAG F_OF st \<longleftrightarrow> \<not> fits_signed TYPE('a) (sint d + sint s + int c))
   \<and> (ACCESS_FLAG F_AF st \<longleftrightarrow> 16 \<le> unat d mod 16 + unat s mod 16 + c)"

definition sub_flags :: "'a::len word \<Rightarrow> 'a word \<Rightarrow> nat \<Rightarrow> x86_regs \<Rightarrow> bool" where
  "sub_flags d s c st \<longleftrightarrow>
     (ACCESS_FLAG F_OF st \<longleftrightarrow> \<not> fits_signed TYPE('a) (sint d - sint s - int c))
   \<and> (ACCESS_FLAG F_AF st \<longleftrightarrow> unat d mod 16 < unat s mod 16 + c)"

abbreviation (input) ARITH_FLAGS :: u32 where "ARITH_FLAGS \<equiv> 0x8D5"

definition add_spec ::
  "'a::len word \<Rightarrow> 'a word \<Rightarrow> nat \<Rightarrow> x86_regs \<Rightarrow> 'a word \<times> x86_regs \<Rightarrow> bool" where
  "add_spec d s c st r \<longleftrightarrow> (case r of (res, st') \<Rightarrow>
     res = d + s + of_nat c \<and> (ACCESS_FLAG F_CF st' \<longleftrightarrow> 2 ^ LENGTH('a) \<le> unat d + unat s + c)
   \<and> result_flags res st' \<and> add_flags d s c st' \<and> flags_frame ARITH_FLAGS st st')"

definition sub_spec ::
  "'a::len word \<Rightarrow> 'a word \<Rightarrow> nat \<Rightarrow> x86_regs \<Rightarrow> 'a word \<times> x86_regs \<Rightarrow> bool" where
  "sub_spec d s c st r \<longleftrightarrow> (case r of (res, st') \<Rightarrow>
     res = d - s - of_nat c \<and> (ACCESS_FLAG F_CF st' \<longleftrightarrow> unat d < unat s + c)
   \<and> result_flags res st' \<and> sub_flags d s c st' \<and> flags_frame ARITH_FLAGS st st')"

section \<open>From 32 bit arithmetic to the contracts\<close>

text \<open>The tests of single bits, and of the low bytes, of a 32 bit word.\<close>

lemma mask_test:
  fixes x :: u32
  shows "x AND 0x8 = 0 \<longleftrightarrow> \<not> bit x 3" "x AND 0x80 = 0 \<longleftrightarrow> \<not> bit x 7" "x AND 0x100 = 0 \<longleftrightarrow> \<not> bit x 8"
    "x AND 0x8000 = 0 \<longleftrightarrow> \<not> bit x 15" "x AND 0x10000 = 0 \<longleftrightarrow> \<not> bit x 16"
    "x AND 0x80000000 = 0 \<longleftrightarrow> \<not> bit x 31"
  using and_push_bit_zero[of 3 x] and_push_bit_zero[of 7 x] and_push_bit_zero[of 8 x]
    and_push_bit_zero[of 15 x] and_push_bit_zero[of 16 x] and_push_bit_zero[of 31 x]
  by (simp_all add: push_bit_eq_mult)

lemma ucast_down_bits:
  fixes x :: u32
  assumes "LENGTH('a::len) \<le> 32"
  shows "(ucast x :: 'a word) = 0 \<longleftrightarrow> x AND mask LENGTH('a) = 0"
    and "sint (ucast x :: 'a word) < 0 \<longleftrightarrow> bit x (LENGTH('a) - 1)"
proof -
  show "(ucast x :: 'a word) = 0 \<longleftrightarrow> x AND mask LENGTH('a) = 0"
    using assms by (auto simp: word_eq_bits bit_simps dest: less_le_trans)
  have "sint (ucast x :: 'a word) < 0 \<longleftrightarrow> bit (ucast x :: 'a word) (LENGTH('a) - 1)"
    by (simp add: bit_last_iff)
  then show "sint (ucast x :: 'a word) < 0 \<longleftrightarrow> bit x (LENGTH('a) - 1)"
    using assms by (simp add: bit_simps)
qed

lemma ucast_of_int:
  assumes "LENGTH('a::len) \<le> 32"
  shows "(ucast (word_of_int i :: u32) :: 'a word) = word_of_int i"
  by (rule bit_word_eqI) (use assms in \<open>auto simp: bit_simps\<close>)

lemma ucast_hom:
  fixes x y :: u32
  assumes "LENGTH('a::len) \<le> 32"
  shows "(ucast (x + y) :: 'a word) = ucast x + ucast y"
    and "(ucast (x - y) :: 'a word) = ucast x - ucast y"
    and "(ucast (of_nat c :: u32) :: 'a word) = of_nat c"
proof -
  note low = ucast_of_int[OF assms]
  have x: "word_of_int (uint z) = (ucast z :: 'a word)" for z :: u32
    using low[of "uint z"] by simp
  have "x + y = word_of_int (uint x + uint y)" "x - y = word_of_int (uint x - uint y)" by simp_all
  then have "(ucast (x + y) :: 'a word) = word_of_int (uint x + uint y)"
    "(ucast (x - y) :: 'a word) = word_of_int (uint x - uint y)"
    by (simp_all only: low)
  then show "(ucast (x + y) :: 'a word) = ucast x + ucast y"
    and "(ucast (x - y) :: 'a word) = ucast x - ucast y"
    by (simp_all only: of_int_add of_int_diff x)
  show "(ucast (of_nat c :: u32) :: 'a word) = of_nat c"
    using low[of "int c"] by simp
qed

lemma ucast_up_down:
  assumes "LENGTH('a::len) \<le> 32"
  shows "(ucast (ucast d :: u32) :: 'a word) = (d :: 'a word)"
  by (rule bit_word_eqI) (use assms in \<open>auto simp: bit_simps\<close>)

text \<open>The result of a computation, and its three flags, at a width of at most 32 bits.\<close>

lemma result_bridge:
  fixes res :: u32
  assumes "8 \<le> LENGTH('a::len)" "LENGTH('a) \<le> 32"
  shows "res AND mask LENGTH('a) = 0 \<longleftrightarrow> (ucast res :: 'a word) = 0"
    and "bit res (LENGTH('a) - 1) \<longleftrightarrow> sint (ucast res :: 'a word) < 0"
    and "PARITY (res AND 0xFF) \<longleftrightarrow> even (popcount8 (ucast res :: 'a word))"
  using ucast_down_bits[OF assms(2), of res] popcount8_down[OF assms(1), of res] PARITY_popcount[of res]
  by simp_all

lemma unat_up: "LENGTH('a::len) \<le> 32 \<Longrightarrow> unat (ucast d :: u32) = unat (d :: 'a word)"
proof -
  assume "LENGTH('a) \<le> 32"
  then have "(2 :: nat) ^ LENGTH('a) \<le> 2 ^ 32" by (rule power_increasing) simp
  then have "unat d < 2 ^ 32" by (rule less_le_trans[OF unsigned_less])
  then show ?thesis by (simp add: unsigned_ucast_eq take_bit_nat_eq_self)
qed

lemma add_bridge:
  fixes d s :: "'a::len word"
  assumes w: "8 \<le> LENGTH('a)" "LENGTH('a) \<le> 32" and c: "c \<le> 1"
    and res: "res = ucast d + ucast s + of_nat c"
  shows "(ucast res :: 'a word) = d + s + of_nat c"
    and "bit (carry_chain (ucast d) (ucast s) res) 3 \<longleftrightarrow> 16 \<le> unat d mod 16 + unat s mod 16 + c"
    and "bit (carry_chain (ucast d) (ucast s) res) (LENGTH('a) - 2)
         \<noteq> bit (carry_chain (ucast d) (ucast s) res) (LENGTH('a) - 1)
         \<longleftrightarrow> \<not> fits_signed TYPE('a) (sint d + sint s + int c)"
    and "LENGTH('a) < 32 \<Longrightarrow> bit res LENGTH('a) \<longleftrightarrow> 2 ^ LENGTH('a) \<le> unat d + unat s + c"
proof -
  note chain = carry_chain_bit[OF c res]
  have d: "unat d mod 2 ^ LENGTH('a) = unat d" "unat s mod 2 ^ LENGTH('a) = unat s"
    using unsigned_less[of d, where ?'a = nat] unsigned_less[of s, where ?'a = nat] by simp_all
  show "(ucast res :: 'a word) = d + s + of_nat c"
    unfolding res by (simp add: ucast_hom[OF w(2)] ucast_up_down[OF w(2)])
  show "bit (carry_chain (ucast d) (ucast s) res) 3 \<longleftrightarrow> 16 \<le> unat d mod 16 + unat s mod 16 + c"
    by (subst chain) (simp_all add: carry_into_def unat_up[OF w(2)])
  have "bit (carry_chain (ucast d) (ucast s) res) (LENGTH('a) - 2)
      \<longleftrightarrow> carry_into (LENGTH('a) - 1) (unat d) (unat s) c"
    using w by (subst chain) (simp_all add: unat_up Suc_diff_Suc numeral_2_eq_2)
  moreover have "bit (carry_chain (ucast d) (ucast s) res) (LENGTH('a) - 1)
      \<longleftrightarrow> carry_into LENGTH('a) (unat d) (unat s) c"
    using w by (subst chain) (simp_all add: unat_up)
  ultimately show "bit (carry_chain (ucast d) (ucast s) res) (LENGTH('a) - 2)
         \<noteq> bit (carry_chain (ucast d) (ucast s) res) (LENGTH('a) - 1)
         \<longleftrightarrow> \<not> fits_signed TYPE('a) (sint d + sint s + int c)"
    using signed_add_overflow[OF c, of d s] by simp
  assume short: "LENGTH('a) < 32"
  have "unat res = (unat d + unat s + c) mod 2 ^ 32"
    unfolding res using w by (simp add: unat_word_ariths unat_of_nat mod_simps unat_up)
  then have "bit res LENGTH('a) \<longleftrightarrow> bit (unat d + unat s + c) LENGTH('a)"
    using short by (metis bit_take_bit_iff bit_unat take_bit_eq_mod)
  also have "\<dots> \<longleftrightarrow> 2 ^ LENGTH('a) \<le> unat d + unat s + c"
    using sum_bit[OF c, of "unat d" "unat s" "LENGTH('a)"] bit_unat[of d] bit_unat[of s]
    by (auto simp: carry_into_def d dest: bit_imp_le_length)
  finally show "bit res LENGTH('a) \<longleftrightarrow> 2 ^ LENGTH('a) \<le> unat d + unat s + c" .
qed

lemma sub_bridge:
  fixes d s :: "'a::len word"
  assumes w: "8 \<le> LENGTH('a)" "LENGTH('a) \<le> 32" and c: "c \<le> 1"
    and res: "res = ucast d - ucast s - of_nat c"
  shows "(ucast res :: 'a word) = d - s - of_nat c"
    and "bit (borrow_chain (ucast d) (ucast s) res) 3 \<longleftrightarrow> unat d mod 16 < unat s mod 16 + c"
    and "bit (borrow_chain (ucast d) (ucast s) res) (LENGTH('a) - 2)
         \<noteq> bit (borrow_chain (ucast d) (ucast s) res) (LENGTH('a) - 1)
         \<longleftrightarrow> \<not> fits_signed TYPE('a) (sint d - sint s - int c)"
    and "bit (borrow_chain (ucast d) (ucast s) res) (LENGTH('a) - 1) \<longleftrightarrow> unat d < unat s + c"
proof -
  note chain = borrow_chain_bit[OF c res]
  have d: "unat d mod 2 ^ LENGTH('a) = unat d" "unat s mod 2 ^ LENGTH('a) = unat s"
    using unsigned_less[of d, where ?'a = nat] unsigned_less[of s, where ?'a = nat] by simp_all
  show "(ucast res :: 'a word) = d - s - of_nat c"
    unfolding res by (simp add: ucast_hom[OF w(2)] ucast_up_down[OF w(2)])
  show "bit (borrow_chain (ucast d) (ucast s) res) 3 \<longleftrightarrow> unat d mod 16 < unat s mod 16 + c"
    by (subst chain) (simp_all add: unat_up[OF w(2)])
  have "bit (borrow_chain (ucast d) (ucast s) res) (LENGTH('a) - 2)
      \<longleftrightarrow> unat d mod 2 ^ (LENGTH('a) - 1) < unat s mod 2 ^ (LENGTH('a) - 1) + c"
  proof -
    have "Suc (LENGTH('a) - 2) = LENGTH('a) - 1" using w by simp
    with chain[of "LENGTH('a) - 2"] w show ?thesis by (simp add: unat_up)
  qed
  moreover show last: "bit (borrow_chain (ucast d) (ucast s) res) (LENGTH('a) - 1) \<longleftrightarrow> unat d < unat s + c"
  proof -
    have "Suc (LENGTH('a) - 1) = LENGTH('a)" using w by simp
    with chain[of "LENGTH('a) - 1"] w d show ?thesis by (simp add: unat_up)
  qed
  ultimately show "bit (borrow_chain (ucast d) (ucast s) res) (LENGTH('a) - 2)
         \<noteq> bit (borrow_chain (ucast d) (ucast s) res) (LENGTH('a) - 1)
         \<longleftrightarrow> \<not> fits_signed TYPE('a) (sint d - sint s - int c)"
    using signed_sub_overflow[OF c, of d s] by simp
qed

text \<open>The carry of the 32 bit functions, computed in two halves.\<close>

definition add_halves :: "u32 \<Rightarrow> u32 \<Rightarrow> nat \<Rightarrow> u32" where
  "add_halves d s c =
     drop_bit 16 (of_nat c + (d AND 0xFFFF) + (s AND 0xFFFF)) + drop_bit 16 d + drop_bit 16 s"

lemma add_halves_carry:
  assumes "c \<le> 1"
  shows "bit (add_halves d s c) 16 \<longleftrightarrow> 2 ^ 32 \<le> unat d + unat s + c"
proof -
  let ?T = "unat d + unat s + c"
  have low: "unat (x AND 0xFFFF) = unat x mod 2 ^ 16" for x :: u32
    by (simp add: byte_mask take_bit_eq_mask[symmetric] unsigned_take_bit_eq take_bit_eq_mod unat_mod_distrib)
  have b: "unat d mod 2 ^ 16 < 2 ^ 16" "unat s mod 2 ^ 16 < 2 ^ 16" by simp_all
  have lo: "unat (of_nat c + (d AND 0xFFFF) + (s AND 0xFFFF)) = c + unat d mod 2 ^ 16 + unat s mod 2 ^ 16"
    using b assms by (simp add: unat_word_ariths low unat_of_nat)
  have hd: "unat (drop_bit 16 x) = unat x div 2 ^ 16" for x :: u32
    by (simp add: drop_bit_eq_div unat_div_distrib)
  have "unat d < 2 ^ 32" "unat s < 2 ^ 32" using unsigned_less[of d, where ?'a = nat] unsigned_less[of s, where ?'a = nat] by simp_all
  then have sum: "unat (drop_bit 16 l + drop_bit 16 d + drop_bit 16 s)
      = unat l div 2 ^ 16 + unat d div 2 ^ 16 + unat s div 2 ^ 16" if "unat l < 2 ^ 18" for l :: u32
    using that by (simp add: unat_word_ariths hd)
  have "unat (add_halves d s c) = (c + unat d mod 2 ^ 16 + unat s mod 2 ^ 16) div 2 ^ 16
      + unat d div 2 ^ 16 + unat s div 2 ^ 16"
    unfolding add_halves_def by (subst sum) (use assms b lo in simp_all)
  also have "\<dots> = ?T div 2 ^ 16"
  proof -
    have "(c + a mod p + b mod p) div p + a div p + b div p = (a + b + c) div p" if "0 < p" for a b p :: nat
    proof -
      have "a + b + c = (a div p + b div p) * p + (c + a mod p + b mod p)"
        using div_mult_mod_eq[of a p] div_mult_mod_eq[of b p] by (simp add: algebra_simps)
      then have "(a + b + c) div p = ((a div p + b div p) * p + (c + a mod p + b mod p)) div p"
        by (rule arg_cong)
      also have "\<dots> = a div p + b div p + (c + a mod p + b mod p) div p"
        by (rule div_mult_self3) (use that in simp)
      finally show ?thesis by simp
    qed
    then show ?thesis by simp
  qed
  finally have "unat (add_halves d s c) div 2 ^ 16 = ?T div 2 ^ 32" by (simp add: div_mult2_eq[symmetric])
  moreover have "bit (add_halves d s c) 16 \<longleftrightarrow> odd (unat (add_halves d s c) div 2 ^ 16)"
    by (simp add: bit_unat bit_iff_odd)
  moreover have "?T div 2 ^ 32 = of_bool (2 ^ 32 \<le> ?T)"
    using \<open>unat d < 2 ^ 32\<close> \<open>unat s < 2 ^ 32\<close> assms by (auto simp: div_nat_eqI)
  ultimately show ?thesis by simp
qed

section \<open>The byte, word and long functions\<close>

lemmas alu_flags_defs = add_spec_def sub_spec_def result_flags_def add_flags_def sub_flags_def

lemmas alu_simps = Let_def alu_flags_defs flag_simps mask_test XOR2_bits
  carry_chain_def[symmetric] borrow_chain_def[symmetric] mask_eq_exp_minus_1

lemma one_first: "1 + d + s = d + s + (1 :: u32)"
  by simp

lemma add_byte_spec: "add_spec d s 0 st (add_byte d s st)"
  using add_bridge[of 0 "ucast d + ucast s" d s] result_bridge[where ?'a = 8, of "ucast d + ucast s"]
  by (simp add: add_byte_def alu_simps)

lemma add_word_spec: "add_spec d s 0 st (add_word d s st)"
  using add_bridge[of 0 "ucast d + ucast s" d s] result_bridge[where ?'a = 16, of "ucast d + ucast s"]
  by (simp add: add_word_def alu_simps)

lemma add_long_spec: "add_spec d s 0 st (add_long d s st)"
  using add_bridge[of 0 "d + s" d s] result_bridge[where ?'a = 32, of "d + s"]
    add_halves_carry[of 0 d s]
  by (simp add: add_long_def alu_simps add_halves_def)

lemma adc_byte_spec: "add_spec d s (of_bool (ACCESS_FLAG F_CF st)) st (adc_byte d s st)"
  using add_bridge[of 0 "ucast d + ucast s" d s] result_bridge[where ?'a = 8, of "ucast d + ucast s"]
    add_bridge[of 1 "ucast d + ucast s + 1" d s] result_bridge[where ?'a = 8, of "ucast d + ucast s + 1"]
  by (simp add: adc_byte_def alu_simps one_first)

lemma adc_word_spec: "add_spec d s (of_bool (ACCESS_FLAG F_CF st)) st (adc_word d s st)"
  using add_bridge[of 0 "ucast d + ucast s" d s] result_bridge[where ?'a = 16, of "ucast d + ucast s"]
    add_bridge[of 1 "ucast d + ucast s + 1" d s] result_bridge[where ?'a = 16, of "ucast d + ucast s + 1"]
  by (simp add: adc_word_def alu_simps one_first)

lemma adc_long_spec: "add_spec d s (of_bool (ACCESS_FLAG F_CF st)) st (adc_long d s st)"
  using add_bridge[of 0 "d + s" d s] result_bridge[where ?'a = 32, of "d + s"]
    add_bridge[of 1 "d + s + 1" d s] result_bridge[where ?'a = 32, of "d + s + 1"]
    add_halves_carry[of 0 d s] add_halves_carry[of 1 d s]
  by (simp add: adc_long_def alu_simps add_halves_def one_first)

lemma sub_byte_spec: "sub_spec d s 0 st (sub_byte d s st)"
  using sub_bridge[of 0 "ucast d - ucast s" d s] result_bridge[where ?'a = 8, of "ucast d - ucast s"]
  by (simp add: sub_byte_def alu_simps)

lemma sub_word_spec: "sub_spec d s 0 st (sub_word d s st)"
  using sub_bridge[of 0 "ucast d - ucast s" d s] result_bridge[where ?'a = 16, of "ucast d - ucast s"]
  by (simp add: sub_word_def alu_simps)

lemma sub_long_spec: "sub_spec d s 0 st (sub_long d s st)"
  using sub_bridge[of 0 "d - s" d s] result_bridge[where ?'a = 32, of "d - s"]
  by (simp add: sub_long_def alu_simps)

lemma sbb_byte_spec: "sub_spec d s (of_bool (ACCESS_FLAG F_CF st)) st (sbb_byte d s st)"
  using sub_bridge[of 0 "ucast d - ucast s" d s] result_bridge[where ?'a = 8, of "ucast d - ucast s"]
    sub_bridge[of 1 "ucast d - ucast s - 1" d s] result_bridge[where ?'a = 8, of "ucast d - ucast s - 1"]
  by (simp add: sbb_byte_def alu_simps)

lemma sbb_word_spec: "sub_spec d s (of_bool (ACCESS_FLAG F_CF st)) st (sbb_word d s st)"
  using sub_bridge[of 0 "ucast d - ucast s" d s] result_bridge[where ?'a = 16, of "ucast d - ucast s"]
    sub_bridge[of 1 "ucast d - ucast s - 1" d s] result_bridge[where ?'a = 16, of "ucast d - ucast s - 1"]
  by (simp add: sbb_word_def alu_simps)

lemma sbb_long_spec: "sub_spec d s (of_bool (ACCESS_FLAG F_CF st)) st (sbb_long d s st)"
  using sub_bridge[of 0 "d - s" d s] result_bridge[where ?'a = 32, of "d - s"]
    sub_bridge[of 1 "d - s - 1" d s] result_bridge[where ?'a = 32, of "d - s - 1"]
  by (simp add: sbb_long_def alu_simps)

text \<open>Comparison is subtraction without the result; increment and decrement keep the carry flag.\<close>

definition cmp_spec ::
  "'a::len word \<Rightarrow> 'a word \<Rightarrow> x86_regs \<Rightarrow> 'a word \<times> x86_regs \<Rightarrow> bool" where
  "cmp_spec d s st r \<longleftrightarrow> (case r of (v, st') \<Rightarrow>
     v = d \<and> (ACCESS_FLAG F_CF st' \<longleftrightarrow> unat d < unat s)
   \<and> result_flags (d - s) st' \<and> sub_flags d s 0 st' \<and> flags_frame ARITH_FLAGS st st')"

definition step_spec ::
  "'a::len word \<Rightarrow> x86_regs \<Rightarrow> 'a word \<times> x86_regs \<Rightarrow> 'a word \<times> x86_regs \<Rightarrow> bool" where
  "step_spec d st i c \<longleftrightarrow>
     fst i = d + 1 \<and> result_flags (d + 1) (snd i) \<and> add_flags d 1 0 (snd i) \<and> flags_frame 0x8D4 st (snd i)
   \<and> fst c = d - 1 \<and> result_flags (d - 1) (snd c) \<and> sub_flags d 1 0 (snd c) \<and> flags_frame 0x8D4 st (snd c)"

definition neg_spec :: "'a::len word \<Rightarrow> x86_regs \<Rightarrow> 'a word \<times> x86_regs \<Rightarrow> bool" where
  "neg_spec s st r \<longleftrightarrow> (case r of (res, st') \<Rightarrow>
     res = - s \<and> (ACCESS_FLAG F_CF st' \<longleftrightarrow> s \<noteq> 0)
   \<and> result_flags res st' \<and> sub_flags 0 s 0 st' \<and> flags_frame ARITH_FLAGS st st')"

lemmas step_defs = cmp_spec_def step_spec_def neg_spec_def

lemma cmp_byte_spec: "cmp_spec d s st (cmp_byte d s st)"
  using sub_bridge[of 0 "ucast d - ucast s" d s] result_bridge[where ?'a = 8, of "ucast d - ucast s"]
  by (simp add: cmp_byte_def alu_simps step_defs)

lemma cmp_word_spec: "cmp_spec d s st (cmp_word d s st)"
  using sub_bridge[of 0 "ucast d - ucast s" d s] result_bridge[where ?'a = 16, of "ucast d - ucast s"]
  by (simp add: cmp_word_def alu_simps step_defs)

lemma cmp_long_spec: "cmp_spec d s st (cmp_long d s st)"
  using sub_bridge[of 0 "d - s" d s] result_bridge[where ?'a = 32, of "d - s"]
  by (simp add: cmp_long_def alu_simps step_defs)

lemma inc_chain:
  "((1 AND d) OR NOT res) AND (1 OR d) = carry_chain d 1 res"
  "(1 AND d) OR (NOT res AND (1 OR d)) = carry_chain d 1 res"
  "(res AND (NOT d OR 1)) OR (NOT d AND 1) = borrow_chain d 1 res"
  by (rule bit_word_eqI; auto simp: carry_chain_def borrow_chain_def bit_simps)+

lemma step_byte_spec: "step_spec d st (inc_byte d st) (dec_byte d st)"
  using add_bridge[of 0 "ucast d + 1" d 1] result_bridge[where ?'a = 8, of "ucast d + 1"]
    sub_bridge[of 0 "ucast d - 1" d 1] result_bridge[where ?'a = 8, of "ucast d - 1"]
  by (simp add: inc_byte_def dec_byte_def alu_simps step_defs inc_chain)

lemma step_word_spec: "step_spec d st (inc_word d st) (dec_word d st)"
  using add_bridge[of 0 "ucast d + 1" d 1] result_bridge[where ?'a = 16, of "ucast d + 1"]
    sub_bridge[of 0 "ucast d - 1" d 1] result_bridge[where ?'a = 16, of "ucast d - 1"]
  by (simp add: inc_word_def dec_word_def alu_simps step_defs inc_chain)

lemma step_long_spec: "step_spec d st (inc_long d st) (dec_long d st)"
  using add_bridge[of 0 "d + 1" d 1] result_bridge[where ?'a = 32, of "d + 1"]
    sub_bridge[of 0 "d - 1" d 1] result_bridge[where ?'a = 32, of "d - 1"]
  by (simp add: inc_long_def dec_long_def alu_simps step_defs inc_chain)

lemma and_bit_zero:
  "(x :: u8) AND 0x8 = 0 \<longleftrightarrow> \<not> bit x 3" "x AND 0x80 = 0 \<longleftrightarrow> \<not> bit x 7"
  "(y :: u16) AND 0x8 = 0 \<longleftrightarrow> \<not> bit y 3" "y AND 0x8000 = 0 \<longleftrightarrow> \<not> bit y 15"
  "y AND 0x80 = 0 \<longleftrightarrow> \<not> bit y 7"
  using and_push_bit_zero[of 3 x] and_push_bit_zero[of 7 x] and_push_bit_zero[of 3 y]
    and_push_bit_zero[of 15 y] and_push_bit_zero[of 7 y]
  by (simp_all add: push_bit_eq_mult)

lemma and_push_bit_self:
  "n < LENGTH('a) \<Longrightarrow> (x :: 'a::len word) AND push_bit n 1 = push_bit n 1 \<longleftrightarrow> bit x n"
  by (auto simp: word_eq_bits bit_simps)

lemma and_sign:
  fixes x :: u32
  shows "x AND 0x80 = 0x80 \<longleftrightarrow> bit x 7" "x AND 0x8000 = 0x8000 \<longleftrightarrow> bit x 15"
    "x AND 0x80000000 = 0x80000000 \<longleftrightarrow> bit x 31"
  using and_push_bit_self[of 7 x] and_push_bit_self[of 15 x] and_push_bit_self[of 31 x]
  by (simp_all add: push_bit_eq_mult)

lemma and_full: "(x :: u8) AND 0xff = x" "(y :: u16) AND 0xffff = y" "(z :: u32) AND 0xffffffff = z"
  "(ucast x :: u32) AND 0xff = ucast x"
proof -
  have "(0xff :: u8) = - 1" "(0xffff :: u16) = - 1" "(0xffffffff :: u32) = - 1" by simp_all
  then show "x AND 0xff = x" "y AND 0xffff = y" "z AND 0xffffffff = z"
    by (simp_all only: and.right_neutral)
  show "(ucast x :: u32) AND 0xff = ucast x"
    by (rule bit_word_eqI) (auto simp: byte_mask bit_simps dest: bit_imp_le_length)
qed

lemma sign_bit: "sint (x :: 'a::len word) < 0 \<longleftrightarrow> bit x (LENGTH('a) - 1)"
  by (simp add: bit_last_iff)

lemma neg_bridge:
  fixes s :: "'a::len word"
  assumes w: "8 \<le> LENGTH('a)" "LENGTH('a) \<le> 32"
  shows "bit (- s OR s) 3 \<longleftrightarrow> 0 < unat s mod 16"
    and "bit (- s OR s) (LENGTH('a) - 2) \<noteq> bit (- s OR s) (LENGTH('a) - 1)
         \<longleftrightarrow> \<not> fits_signed TYPE('a) (- sint s)"
proof -
  let ?R = "ucast (0 :: 'a word) - ucast s - of_nat 0 :: u32"
  have r: "(ucast ?R :: 'a word) = - s"
    using sub_bridge(1)[OF w _ refl, of 0 0 s] by simp
  have bit: "bit (- s OR s) n \<longleftrightarrow> bit (borrow_chain (ucast (0 :: 'a word)) (ucast s) ?R) n" if "n < LENGTH('a)" for n
  proof -
    have "bit ?R n \<longleftrightarrow> bit (- s) n" using that w by (simp add: r[symmetric] bit_simps)
    then show ?thesis using that w by (auto simp: borrow_chain_def bit_simps)
  qed
  show "bit (- s OR s) 3 \<longleftrightarrow> 0 < unat s mod 16"
    using sub_bridge(2)[OF w _ refl, of 0 0 s] bit[of 3] w by simp
  show "bit (- s OR s) (LENGTH('a) - 2) \<noteq> bit (- s OR s) (LENGTH('a) - 1)
         \<longleftrightarrow> \<not> fits_signed TYPE('a) (- sint s)"
    using sub_bridge(3)[OF w _ refl, of 0 0 s] bit[of "LENGTH('a) - 2"] bit[of "LENGTH('a) - 1"] w by simp
qed

lemma neg_byte_spec: "neg_spec s st (neg_byte s st)"
  using neg_bridge[of s] PARITY_popcount[of "ucast (- s)"] popcount8_ucast[of "- s"]
  by (simp add: neg_byte_def alu_simps step_defs and_bit_zero and_full sign_bit bit_simps)

lemma neg_word_spec: "neg_spec s st (neg_word s st)"
  using neg_bridge[of s] PARITY_popcount[of "ucast (- s)"] popcount8_ucast[of "- s"]
  by (simp add: neg_word_def alu_simps step_defs and_bit_zero and_full sign_bit bit_simps)

lemma neg_long_spec: "neg_spec s st (neg_long s st)"
  using neg_bridge[of s] PARITY_popcount[of "- s"]
  by (simp add: neg_long_def alu_simps step_defs and_full sign_bit bit_simps)

end
