(* ===== verification/X86Cond.thy ===== *)
theory X86Cond
  imports X86Alu
begin

unbundle bit_operations_syntax

text \<open>
  The contracts of the arithmetic primitives as interfaces, and what their clients get from them:
  multi-word addition and subtraction, and the conditions of the conditional jumps and of SETcc
  (\<open>ops2.c\<close>) after a comparison.
\<close>

section \<open>Interfaces\<close>

locale adder =
  fixes add adc :: "'a::len word \<Rightarrow> 'a word \<Rightarrow> x86_regs \<Rightarrow> 'a word \<times> x86_regs"
  assumes add: "add_spec d s 0 st (add d s st)"
    and adc: "add_spec d s (of_bool (ACCESS_FLAG F_CF st)) st (adc d s st)"
begin

lemma unat_sum_carry:
  fixes d s :: "'a word"
  assumes "c \<le> 1"
  shows "unat (d + s + of_nat c) + 2 ^ LENGTH('a) * of_bool (2 ^ LENGTH('a) \<le> unat d + unat s + c)
    = unat d + unat s + c"
proof -
  let ?P = "2 ^ LENGTH('a) :: nat"
  have "unat d < ?P" "unat s < ?P" by (rule unsigned_less)+
  then have "unat d + unat s + c < 2 * ?P" using assms by linarith
  moreover have "unat (d + s + of_nat c) = (unat d + unat s + c) mod ?P"
    by (simp add: unat_word_ariths unat_of_nat mod_simps)
  ultimately show ?thesis
    by (cases "?P \<le> unat d + unat s + c") (simp_all add: le_mod_geq)
qed

text \<open>Adding the low halves and then, with the carry, the high halves adds the numbers.\<close>

lemma double_add:
  assumes "add dl sl st = (lo, st1)" "adc dh sh st1 = (hi, st2)"
  shows "unat lo + 2 ^ LENGTH('a) * (unat hi + 2 ^ LENGTH('a) * of_bool (ACCESS_FLAG F_CF st2))
    = unat dl + unat sl + 2 ^ LENGTH('a) * (unat dh + unat sh)"
proof -
  let ?P = "2 ^ LENGTH('a) :: nat" and ?c = "of_bool (ACCESS_FLAG F_CF st1) :: nat"
  have lo: "lo = dl + sl + of_nat 0" "ACCESS_FLAG F_CF st1 \<longleftrightarrow> ?P \<le> unat dl + unat sl + 0"
    using add[of dl sl st] assms(1) by (auto simp: add_spec_def)
  have hi: "hi = dh + sh + of_nat ?c" "ACCESS_FLAG F_CF st2 \<longleftrightarrow> ?P \<le> unat dh + unat sh + ?c"
    using adc[of dh sh st1] assms(2) by (auto simp: add_spec_def)
  have "unat hi + ?P * of_bool (ACCESS_FLAG F_CF st2) = unat dh + unat sh + ?c"
    unfolding hi by (rule unat_sum_carry) simp
  moreover have "unat lo + ?P * ?c = unat dl + unat sl"
    using unat_sum_carry[of 0 dl sl] unfolding lo by simp
  ultimately have "unat lo + ?P * (unat hi + ?P * of_bool (ACCESS_FLAG F_CF st2))
      = unat dl + unat sl - ?P * ?c + ?P * (unat dh + unat sh + ?c)" "?P * ?c \<le> unat dl + unat sl"
    by (metis diff_add_inverse2) (metis \<open>unat lo + ?P * ?c = unat dl + unat sl\<close> le_add2)
  then show ?thesis by (simp add: algebra_simps)
qed

end

locale comparer =
  fixes cmp :: "'a::len word \<Rightarrow> 'a word \<Rightarrow> x86_regs \<Rightarrow> 'a word \<times> x86_regs"
  assumes cmp: "cmp_spec d s st (cmp d s st)"
begin

lemma signed_less:
  "(sint (d - s :: 'a word) < 0) \<noteq> (\<not> fits_signed TYPE('a) (sint d - sint s)) \<longleftrightarrow> sint d < sint s"
proof -
  obtain m where m: "LENGTH('a) = Suc m" by (metis len_not_eq_0 not0_implies_Suc)
  obtain P where P: "P = (2 :: int) ^ m" by simp
  let ?i = "sint d - sint s"
  have range: "- P \<le> sint d" "sint d < P" "- P \<le> sint s" "sint s < P"
    using sint_range_size[of d] sint_range_size[of s] by (simp_all add: m word_size P)
  have diff: "sint (d - s) = (?i + P) mod (2 * P) - P"
    by (simp add: sint_word_ariths m signed_take_bit_eq_take_bit_shift take_bit_eq_mod P)
  have "(?i + P) mod (2 * P) = (if ?i < - P then ?i + 3 * P else if ?i < P then ?i + P else ?i - P)"
  proof -
    consider "?i < - P" | "- P \<le> ?i" "?i < P" | "P \<le> ?i" by linarith
    then show ?thesis
    proof cases
      case 1
      have "(?i + P) mod (2 * P) = (?i + P + 2 * P) mod (2 * P)" by (rule mod_add_self2[symmetric])
      also have "\<dots> = ?i + P + 2 * P" using 1 range by (intro mod_pos_pos_trivial) linarith+
      finally show ?thesis using 1 by simp
    next
      case 2
      then show ?thesis by (simp add: mod_pos_pos_trivial)
    next
      case 3
      have "(?i + P - 2 * P + 2 * P) mod (2 * P) = (?i + P - 2 * P) mod (2 * P)" by (rule mod_add_self2)
      then have "(?i + P) mod (2 * P) = (?i + P - 2 * P) mod (2 * P)" by (simp only: diff_add_cancel)
      also have "\<dots> = ?i + P - 2 * P" using 3 range by (intro mod_pos_pos_trivial) linarith+
      finally show ?thesis using 3 range by simp
    qed
  qed
  then show ?thesis
    unfolding diff fits_signed_def m diff_Suc_1 P[symmetric] using range by auto
qed

text \<open>The flags after a comparison, read as comparisons of the operands.\<close>

lemma flags_after:
  assumes "cmp d s st = (v, st')"
  shows "ACCESS_FLAG F_CF st' \<longleftrightarrow> unat d < unat s"
    and "ACCESS_FLAG F_ZF st' \<longleftrightarrow> d = s"
    and "(ACCESS_FLAG F_SF st' \<noteq> ACCESS_FLAG F_OF st') \<longleftrightarrow> sint d < sint s"
    and "ACCESS_FLAG F_SF st' \<longleftrightarrow> sint (d - s) < 0"
    and "ACCESS_FLAG F_OF st' \<longleftrightarrow> \<not> fits_signed TYPE('a) (sint d - sint s)"
    and "v = d"
proof -
  have spec: "cmp_spec d s st (v, st')" using cmp[of d s st] assms by simp
  show "ACCESS_FLAG F_CF st' \<longleftrightarrow> unat d < unat s" "ACCESS_FLAG F_ZF st' \<longleftrightarrow> d = s" "v = d"
    and sf: "ACCESS_FLAG F_SF st' \<longleftrightarrow> sint (d - s) < 0"
    and of: "ACCESS_FLAG F_OF st' \<longleftrightarrow> \<not> fits_signed TYPE('a) (sint d - sint s)"
    using spec by (simp_all add: cmp_spec_def result_flags_def sub_flags_def)
  show "(ACCESS_FLAG F_SF st' \<noteq> ACCESS_FLAG F_OF st') \<longleftrightarrow> sint d < sint s"
    unfolding sf of by (rule signed_less)
qed

end

section \<open>Conditions\<close>

text \<open>
  The switches of \<open>x86emuOp2_long_jump\<close> (\<open>0x0f 0x80\<close> to \<open>0x8f\<close>) and \<open>x86emuOp2_set_byte\<close>
  (\<open>0x0f 0x90\<close> to \<open>0x9f\<close>): \<open>cond\<close> is 0 for any other opcode.
\<close>

definition xorl :: "bool \<Rightarrow> bool \<Rightarrow> bool" where
  "xorl a b \<longleftrightarrow> a \<and> \<not> b \<or> \<not> a \<and> b"

definition long_jump_cond :: "u8 \<Rightarrow> x86_regs \<Rightarrow> bool" where
  "long_jump_cond op2 st =
     (if op2 = 0x80 then ACCESS_FLAG F_OF st
      else if op2 = 0x81 then \<not> ACCESS_FLAG F_OF st
      else if op2 = 0x82 then ACCESS_FLAG F_CF st
      else if op2 = 0x83 then \<not> ACCESS_FLAG F_CF st
      else if op2 = 0x84 then ACCESS_FLAG F_ZF st
      else if op2 = 0x85 then \<not> ACCESS_FLAG F_ZF st
      else if op2 = 0x86 then ACCESS_FLAG F_CF st \<or> ACCESS_FLAG F_ZF st
      else if op2 = 0x87 then \<not> (ACCESS_FLAG F_CF st \<or> ACCESS_FLAG F_ZF st)
      else if op2 = 0x88 then ACCESS_FLAG F_SF st
      else if op2 = 0x89 then \<not> ACCESS_FLAG F_SF st
      else if op2 = 0x8a then ACCESS_FLAG F_PF st
      else if op2 = 0x8b then \<not> ACCESS_FLAG F_PF st
      else if op2 = 0x8c then xorl (ACCESS_FLAG F_SF st) (ACCESS_FLAG F_OF st)
      else if op2 = 0x8d then \<not> xorl (ACCESS_FLAG F_SF st) (ACCESS_FLAG F_OF st)
      else if op2 = 0x8e then xorl (ACCESS_FLAG F_SF st) (ACCESS_FLAG F_OF st) \<or> ACCESS_FLAG F_ZF st
      else if op2 = 0x8f then
        \<not> (xorl (ACCESS_FLAG F_SF st) (ACCESS_FLAG F_OF st) \<or> ACCESS_FLAG F_ZF st)
      else False)"

definition set_byte_cond :: "u8 \<Rightarrow> x86_regs \<Rightarrow> bool" where
  "set_byte_cond op2 st =
     (if op2 = 0x90 then ACCESS_FLAG F_OF st
      else if op2 = 0x91 then \<not> ACCESS_FLAG F_OF st
      else if op2 = 0x92 then ACCESS_FLAG F_CF st
      else if op2 = 0x93 then \<not> ACCESS_FLAG F_CF st
      else if op2 = 0x94 then ACCESS_FLAG F_ZF st
      else if op2 = 0x95 then \<not> ACCESS_FLAG F_ZF st
      else if op2 = 0x96 then ACCESS_FLAG F_CF st \<or> ACCESS_FLAG F_ZF st
      else if op2 = 0x97 then \<not> (ACCESS_FLAG F_CF st \<or> ACCESS_FLAG F_ZF st)
      else if op2 = 0x98 then ACCESS_FLAG F_SF st
      else if op2 = 0x99 then \<not> ACCESS_FLAG F_SF st
      else if op2 = 0x9a then ACCESS_FLAG F_PF st
      else if op2 = 0x9b then \<not> ACCESS_FLAG F_PF st
      else if op2 = 0x9c then xorl (ACCESS_FLAG F_SF st) (ACCESS_FLAG F_OF st)
      else if op2 = 0x9d then xorl (ACCESS_FLAG F_SF st) (ACCESS_FLAG F_OF st)
      else if op2 = 0x9e then xorl (ACCESS_FLAG F_SF st) (ACCESS_FLAG F_OF st) \<or> ACCESS_FLAG F_ZF st
      else if op2 = 0x9f then
        \<not> (xorl (ACCESS_FLAG F_SF st) (ACCESS_FLAG F_OF st) \<or> ACCESS_FLAG F_ZF st)
      else False)"

lemma xorl_iff: "xorl a b \<longleftrightarrow> a \<noteq> b"
  by (auto simp: xorl_def)

text \<open>The relations the mnemonics of the ten comparing conditions name.\<close>

definition relations_hold :: "(u8 \<Rightarrow> bool) \<Rightarrow> 'a::len word \<Rightarrow> 'a word \<Rightarrow> bool" where
  "relations_hold taken d s \<longleftrightarrow>
     (taken 2 \<longleftrightarrow> unat d < unat s) \<and> (taken 3 \<longleftrightarrow> unat s \<le> unat d)
   \<and> (taken 4 \<longleftrightarrow> d = s) \<and> (taken 5 \<longleftrightarrow> d \<noteq> s)
   \<and> (taken 6 \<longleftrightarrow> unat d \<le> unat s) \<and> (taken 7 \<longleftrightarrow> unat s < unat d)
   \<and> (taken 12 \<longleftrightarrow> sint d < sint s) \<and> (taken 13 \<longleftrightarrow> sint s \<le> sint d)
   \<and> (taken 14 \<longleftrightarrow> sint d \<le> sint s) \<and> (taken 15 \<longleftrightarrow> sint s < sint d)"

context comparer
begin

lemma jump_relations:
  assumes "cmp d s st = (v, st')"
  shows "relations_hold (\<lambda>n. long_jump_cond (0x80 + n) st') d s"
proof -
  note f = flags_after(1,2,3)[OF assms]
  have u: "unat d \<le> unat s \<longleftrightarrow> unat d < unat s \<or> d = s"
    by (metis le_eq_less_or_eq word_unat_eq_iff)
  have i: "sint d \<le> sint s \<longleftrightarrow> sint d < sint s \<or> d = s"
    by (metis le_less signed_word_eqI)
  have j: "xorl (ACCESS_FLAG F_SF st') (ACCESS_FLAG F_OF st') \<longleftrightarrow> sint d < sint s"
    unfolding xorl_iff by (rule f(3))
  show ?thesis
    unfolding relations_hold_def using u i by (simp add: long_jump_cond_def j f(1,2)) linarith
qed

lemma set_relations:
  assumes "cmp d s st = (v, st')"
  shows "relations_hold (\<lambda>n. if n = 13 then \<not> set_byte_cond 0x9d st' else set_byte_cond (0x90 + n) st') d s"
proof -
  have "set_byte_cond 0x92 st' = long_jump_cond 0x82 st'" "set_byte_cond 0x93 st' = long_jump_cond 0x83 st'"
    "set_byte_cond 0x94 st' = long_jump_cond 0x84 st'" "set_byte_cond 0x95 st' = long_jump_cond 0x85 st'"
    "set_byte_cond 0x96 st' = long_jump_cond 0x86 st'" "set_byte_cond 0x97 st' = long_jump_cond 0x87 st'"
    "set_byte_cond 0x9c st' = long_jump_cond 0x8c st'" "(\<not> set_byte_cond 0x9d st') = long_jump_cond 0x8d st'"
    "set_byte_cond 0x9e st' = long_jump_cond 0x8e st'" "set_byte_cond 0x9f st' = long_jump_cond 0x8f st'"
    by (simp_all add: set_byte_cond_def long_jump_cond_def)
  then show ?thesis
    using jump_relations[OF assms] by (simp add: relations_hold_def)
qed

end

interpretation byte_add: adder add_byte adc_byte
  by unfold_locales (rule add_byte_spec adc_byte_spec)+

interpretation word_add: adder add_word adc_word
  by unfold_locales (rule add_word_spec adc_word_spec)+

interpretation long_add: adder add_long adc_long
  by unfold_locales (rule add_long_spec adc_long_spec)+

interpretation byte_cmp: comparer cmp_byte
  by unfold_locales (rule cmp_byte_spec)

interpretation word_cmp: comparer cmp_word
  by unfold_locales (rule cmp_word_spec)

interpretation long_cmp: comparer cmp_long
  by unfold_locales (rule cmp_long_spec)

end
