(* ===== verification/X86Arith.thy ===== *)
theory X86Arith
  imports X86Cond
begin

unbundle bit_operations_syntax

text \<open>
  Properties of the arithmetic and logic primitives: exactness of addition, subtraction and
  comparison with all their flags, the conditions after a comparison, logic, and the decimal
  adjustments.
\<close>

section \<open>Binary arithmetic\<close>

text \<open>
  C20. Addition is exact at every width, flags included: ADD and ADC of bytes, words and longs
  return the sum modulo the width, set CF exactly if the sum of the unsigned operands and the
  carry does not fit, OF exactly if the signed sum does not fit, AF exactly on a carry out of the
  low nibble, and ZF, SF and PF from the result; no other flag and no register changes.
\<close>

theorem addition_exact:
  "add_spec d8 s8 0 st (add_byte d8 s8 st)
   \<and> add_spec d8 s8 (of_bool (ACCESS_FLAG F_CF st)) st (adc_byte d8 s8 st)
   \<and> add_spec d16 s16 0 st (add_word d16 s16 st)
   \<and> add_spec d16 s16 (of_bool (ACCESS_FLAG F_CF st)) st (adc_word d16 s16 st)
   \<and> add_spec d32 s32 0 st (add_long d32 s32 st)
   \<and> add_spec d32 s32 (of_bool (ACCESS_FLAG F_CF st)) st (adc_long d32 s32 st)"
  by (intro conjI byte_add.add byte_add.adc word_add.add word_add.adc long_add.add long_add.adc)

text \<open>
  C24. Subtraction is exact at every width, flags included: SUB, SBB, CMP and NEG return the
  difference modulo the width (CMP its first operand), set CF exactly on an unsigned borrow and OF
  exactly on a signed overflow, AF on a borrow from the low nibble; no other flag and no register
  changes.
\<close>

theorem subtraction_exact:
  "sub_spec d8 s8 0 st (sub_byte d8 s8 st)
   \<and> sub_spec d8 s8 (of_bool (ACCESS_FLAG F_CF st)) st (sbb_byte d8 s8 st)
   \<and> cmp_spec d8 s8 st (cmp_byte d8 s8 st) \<and> neg_spec s8 st (neg_byte s8 st)
   \<and> sub_spec d16 s16 0 st (sub_word d16 s16 st)
   \<and> sub_spec d16 s16 (of_bool (ACCESS_FLAG F_CF st)) st (sbb_word d16 s16 st)
   \<and> cmp_spec d16 s16 st (cmp_word d16 s16 st) \<and> neg_spec s16 st (neg_word s16 st)
   \<and> sub_spec d32 s32 0 st (sub_long d32 s32 st)
   \<and> sub_spec d32 s32 (of_bool (ACCESS_FLAG F_CF st)) st (sbb_long d32 s32 st)
   \<and> cmp_spec d32 s32 st (cmp_long d32 s32 st) \<and> neg_spec s32 st (neg_long s32 st)"
  by (intro conjI sub_byte_spec sbb_byte_spec byte_cmp.cmp neg_byte_spec sub_word_spec
      sbb_word_spec word_cmp.cmp neg_word_spec sub_long_spec sbb_long_spec long_cmp.cmp neg_long_spec)

text \<open>
  INC and DEC add and subtract one with exact OF, AF, ZF, SF and PF, and keep the carry flag
  with every other flag and register.
\<close>

theorem inc_dec_exact:
  "step_spec d8 st (inc_byte d8 st) (dec_byte d8 st)
   \<and> step_spec d16 st (inc_word d16 st) (dec_word d16 st)
   \<and> step_spec d32 st (inc_long d32 st) (dec_long d32 st)"
  by (intro conjI step_byte_spec step_word_spec step_long_spec)

text \<open>
  Wide addition: ADD of the low longs followed by ADC of the high longs adds 64 bit numbers
  exactly, the final carry flag being bit 64 of the sum.
\<close>

theorem double_long_addition:
  assumes "add_long dl sl st = (lo, st1)" "adc_long dh sh st1 = (hi, st2)"
  shows "unat lo + 2 ^ 32 * unat hi + 2 ^ 64 * of_bool (ACCESS_FLAG F_CF st2)
    = (unat dl + 2 ^ 32 * unat dh) + (unat sl + 2 ^ 32 * unat sh)"
proof -
  obtain p where p: "(2 :: nat) ^ 32 = p" by blast
  have pp: "(2 :: nat) ^ 64 = p * p" by (simp flip: p)
  have "(2 :: nat) ^ LENGTH(32) = p" by (simp flip: p)
  from long_add.double_add[OF assms, unfolded this] show ?thesis
    unfolding p pp by (simp only: algebra_simps)
qed

definition reset_regs :: x86_regs where
  "reset_regs = \<lparr> R_EAX = 0, R_EBX = 0, R_ECX = 0, R_EDX = 0, R_ESP = 0, R_EBP = 0, R_ESI = 0,
     R_EDI = 0, R_EIP = 0, R_FLG = 2, R_CS = 0, R_DS = 0, R_SS = 0, R_ES = 0, R_FS = 0, R_GS = 0,
     x86_mode = 0, x86_intr = 0, x86_intno = 0, x86_debug = 0, x86_tsc = 0 \<rparr>"

theorem double_long_addition_witness:
  "\<exists>lo hi st1 st2. add_long 0xFFFFFFFF 1 reset_regs = (lo, st1) \<and> adc_long 2 3 st1 = (hi, st2)
     \<and> unat lo + 2 ^ 32 * unat hi + 2 ^ 64 * of_bool (ACCESS_FLAG F_CF st2) = (6 * 2 ^ 32 :: nat)"
proof -
  obtain lo st1 where a: "add_long 0xFFFFFFFF 1 reset_regs = (lo, st1)" by (cases "add_long 0xFFFFFFFF 1 reset_regs")
  obtain hi st2 where b: "adc_long 2 3 st1 = (hi, st2)" by (cases "adc_long 2 3 st1")
  have "(unat (0xFFFFFFFF :: u32) + 2 ^ 32 * unat (2 :: u32)) + (unat (1 :: u32) + 2 ^ 32 * unat (3 :: u32))
      = 6 * 2 ^ 32" by simp
  with double_long_addition[OF a b] a b show ?thesis by (intro exI conjI) simp_all
qed

text \<open>
  After a comparison of any width, the ten comparing conditional jumps are taken exactly if
  their relation holds between the operands: JB, JNB, JZ, JNZ, JBE, JNBE for the unsigned and JL,
  JNL, JLE, JNLE for the signed numbers.
\<close>

theorem jumps_after_compare:
  "relations_hold (\<lambda>n. long_jump_cond (0x80 + n) (snd (cmp_byte d8 s8 st))) d8 s8
   \<and> relations_hold (\<lambda>n. long_jump_cond (0x80 + n) (snd (cmp_word d16 s16 st))) d16 s16
   \<and> relations_hold (\<lambda>n. long_jump_cond (0x80 + n) (snd (cmp_long d32 s32 st))) d32 s32"
  by (intro conjI byte_cmp.jump_relations[OF prod.collapse[symmetric]]
      word_cmp.jump_relations[OF prod.collapse[symmetric]]
      long_cmp.jump_relations[OF prod.collapse[symmetric]])

text \<open>
  SETcc after a comparison: nine of the ten comparing conditions store their relation, but
  SETNL (opcode 0x9d) stores the same value as SETL, which is the negation of what its name says.
\<close>

theorem setnl_is_setl:
  "relations_hold (\<lambda>n. if n = 13 then \<not> set_byte_cond 0x9d (snd (cmp_long d s st))
                       else set_byte_cond (0x90 + n) (snd (cmp_long d s st))) d s
   \<and> (\<forall>st'. set_byte_cond 0x9d st' = set_byte_cond 0x9c st')"
  by (intro conjI allI long_cmp.set_relations[OF prod.collapse[symmetric]])
    (simp add: set_byte_cond_def)

section \<open>Logic\<close>

definition logic_spec :: "'a::len word \<Rightarrow> x86_regs \<Rightarrow> x86_regs \<Rightarrow> bool" where
  "logic_spec res st st' \<longleftrightarrow> \<not> ACCESS_FLAG F_CF st' \<and> \<not> ACCESS_FLAG F_OF st'
     \<and> result_flags res st' \<and> flags_frame ARITH_FLAGS st st'"

lemma result_flags_bits:
  fixes x :: u8 and y :: u16 and z :: u32
  shows "PARITY (ucast x) \<longleftrightarrow> even (popcount8 x)" "PARITY (ucast y AND 0xff) \<longleftrightarrow> even (popcount8 y)"
    "PARITY (z AND 0xff) \<longleftrightarrow> even (popcount8 z)"
  using PARITY_popcount[of "ucast x"] PARITY_popcount[of "ucast y"] PARITY_popcount[of z]
    popcount8_ucast[of x] popcount8_ucast[of y] by (simp_all add: and_full)

lemma test_down:
  "(ucast d AND ucast s :: u32) = ucast (d AND s)" "(ucast (x :: u8) :: u32) = 0 \<longleftrightarrow> x = 0"
  "(ucast (y :: u16) :: u32) = 0 \<longleftrightarrow> y = 0"
  "bit (ucast x :: u32) 7 \<longleftrightarrow> bit x 7" "bit (ucast y :: u32) 15 \<longleftrightarrow> bit y 15"
  using ucast_up_down[of x] ucast_up_down[of y]
  by (auto simp: unsigned_and_eq bit_simps)

lemmas logic_simps = Let_def logic_spec_def result_flags_def flag_simps and_bit_zero mask_test
  sign_bit result_flags_bits

text \<open>
  AND, OR, XOR and TEST: the result is the bitwise one (TEST has none), CF and OF are
  cleared, ZF, SF and PF describe the result at its width, and nothing but arithmetic flags
  changes; NOT changes no flag at all.
\<close>

theorem logic_exact:
  "fst (and_byte d8 s8 st) = d8 AND s8 \<and> logic_spec (d8 AND s8) st (snd (and_byte d8 s8 st))
   \<and> fst (or_byte d8 s8 st) = d8 OR s8 \<and> logic_spec (d8 OR s8) st (snd (or_byte d8 s8 st))
   \<and> fst (xor_byte d8 s8 st) = d8 XOR s8 \<and> logic_spec (d8 XOR s8) st (snd (xor_byte d8 s8 st))
   \<and> fst (and_word d16 s16 st) = d16 AND s16 \<and> logic_spec (d16 AND s16) st (snd (and_word d16 s16 st))
   \<and> fst (or_word d16 s16 st) = d16 OR s16 \<and> logic_spec (d16 OR s16) st (snd (or_word d16 s16 st))
   \<and> fst (xor_word d16 s16 st) = d16 XOR s16 \<and> logic_spec (d16 XOR s16) st (snd (xor_word d16 s16 st))
   \<and> fst (and_long d32 s32 st) = d32 AND s32 \<and> logic_spec (d32 AND s32) st (snd (and_long d32 s32 st))
   \<and> fst (or_long d32 s32 st) = d32 OR s32 \<and> logic_spec (d32 OR s32) st (snd (or_long d32 s32 st))
   \<and> fst (xor_long d32 s32 st) = d32 XOR s32 \<and> logic_spec (d32 XOR s32) st (snd (xor_long d32 s32 st))
   \<and> logic_spec (d8 AND s8) st (test_byte d8 s8 st) \<and> logic_spec (d16 AND s16) st (test_word d16 s16 st)
   \<and> logic_spec (d32 AND s32) st (test_long d32 s32 st)
   \<and> not_byte s8 = NOT s8 \<and> not_word s16 = NOT s16 \<and> not_long s32 = NOT s32"
  by (intro conjI)
    (simp_all add: and_byte_def or_byte_def xor_byte_def and_word_def or_word_def xor_word_def
      and_long_def or_long_def xor_long_def test_long_def test_byte_def test_word_def
      not_byte_def not_word_def not_long_def logic_simps popcount8_ucast test_down)

section \<open>Decimal adjustment\<close>

lemma aam_parts:
  "ucast (drop_bit 8 (ucast (l :: u8) OR push_bit 8 (ucast (h :: u8)) :: u16) AND 0xff) = h"
  "ucast ((ucast l OR push_bit 8 (ucast h) :: u16) AND 0xff) = l"
proof -
  have m: "(0xff :: u16) = mask 8" by (simp add: mask_eq_exp_minus_1)
  show "ucast (drop_bit 8 (ucast l OR push_bit 8 (ucast h) :: u16) AND 0xff) = h"
    unfolding m by (rule bit_word_eqI) (auto simp: bit_simps dest: bit_imp_le_length)
  show "ucast ((ucast l OR push_bit 8 (ucast h) :: u16) AND 0xff) = l"
    unfolding m by (rule bit_word_eqI) (auto simp: bit_simps dest: bit_imp_le_length)
qed

text \<open>
  AAM and AAD are inverse: splitting any byte into its two decimal digits with AAM and joining
  them with AAD gives the byte back, with ZF set exactly if it is zero.
\<close>

theorem aam_aad_roundtrip:
  "fst (aad_word (fst (aam_word d st)) st') = ucast d
   \<and> (ACCESS_FLAG F_ZF (snd (aad_word (fst (aam_word d st)) st')) \<longleftrightarrow> d = 0)"
proof -
  let ?l = "d mod 10" and ?h = "d div 10"
  have aam: "fst (aam_word d st) = ucast ?l OR push_bit 8 (ucast ?h)"
    by (simp add: aam_word_def Let_def)
  have "(ucast ?l + 10 * ucast ?h :: u32) = ucast d"
  proof -
    have "unat ?l + 10 * unat ?h = unat d"
      by (simp add: unat_mod_distrib unat_div_distrib)
    moreover have "unat d < 256" by (rule unat_u8_less)
    ultimately show ?thesis
      by (intro word_unat_eq_iff[THEN iffD2]) (simp add: unat_word_ariths unat_up)
  qed
  moreover have "fst (aad_word w st') = ucast (ucast (ucast (w AND 0xff) :: u8)
      + 10 * ucast (ucast (drop_bit 8 w AND 0xff) :: u8) AND 0xFF :: u32)" for w
    by (simp add: aad_word_def Let_def)
  ultimately have "fst (aad_word (fst (aam_word d st)) st') = ucast (ucast d AND 0xFF :: u32)"
    unfolding aam by (simp only: aam_parts)
  then have res: "fst (aad_word (fst (aam_word d st)) st') = ucast d"
    by (simp add: and_full) (rule bit_word_eqI, auto simp: bit_simps dest: bit_imp_le_length)
  moreover have "ACCESS_FLAG F_ZF (snd (aad_word w st')) \<longleftrightarrow> fst (aad_word w st') = 0" for w
    by (simp add: aad_word_def Let_def flag_simps)
  moreover have "(ucast d :: u16) = 0 \<longleftrightarrow> d = 0"
  proof -
    have "unat (ucast d :: u16) = unat d"
      using unat_u8_less[of d] by (simp add: unsigned_ucast_eq take_bit_nat_eq_self)
    then show ?thesis by (metis unsigned_eq_0_iff)
  qed
  ultimately show ?thesis by simp
qed

lemma daa_nat:
  fixes d :: u8 and st :: x86_regs
  defines "c1 \<equiv> 9 < unat d mod 16 \<or> ACCESS_FLAG F_AF st"
  defines "y \<equiv> unat d + (if c1 then 6 else 0)"
  defines "c2 \<equiv> 0x9F < y \<or> ACCESS_FLAG F_CF st"
  shows "unat (fst (daa_byte d st)) = (y + (if c2 then 0x60 else 0)) mod 256"
    and "ACCESS_FLAG F_CF (snd (daa_byte d st)) \<longleftrightarrow> c2"
proof -
  have "d AND 0xf = take_bit 4 d" by (simp add: take_bit_eq_mask mask_eq_exp_minus_1)
  then have nib: "9 < d AND 0xf \<longleftrightarrow> 9 < unat d mod 16"
    by (simp add: word_less_nat_alt unsigned_take_bit_eq take_bit_eq_mod unat_mod_distrib)
  have small: "unat d < 256" by (rule unat_u8_less)
  have six: "unat (ucast d + 6 :: u32) = unat d + 6" "unat (ucast d :: u32) = unat d"
    using small by (simp_all add: unat_word_ariths unat_up)
  have big: "0x9F < (ucast d + 6 :: u32) \<longleftrightarrow> 0x9F < unat d + 6" "0x9F < (ucast d :: u32) \<longleftrightarrow> 0x9F < unat d"
    by (simp_all add: word_less_nat_alt six)
  have low: "unat (ucast w :: u8) = unat w mod 256" for w :: u32
    by (simp add: unsigned_ucast_eq take_bit_eq_mod)
  have sixty: "unat (ucast (ucast d + 0x60 :: u32) :: u8) = (unat d + 0x60) mod 256"
    "unat (ucast (ucast d + 6 :: u32) :: u8) = (unat d + 6) mod 256"
    "unat (ucast (0x66 + ucast d :: u32) :: u8) = (0x66 + unat d) mod 256"
    "unat (ucast (ucast d :: u32) :: u8) = unat d mod 256"
    using small by (simp_all add: low unat_word_ariths unat_up)
  have step: "daa_byte d st =
      (let r0 = (if c1 then ucast d + 6 else ucast d);
           st0 = (if c1 then SET_FLAG F_AF st else st);
           r = (if c2 then r0 + 0x60 else r0);
           st1 = (if c2 then SET_FLAG F_CF st0 else st0)
       in (ucast r, CONDITIONAL_SET_FLAG (PARITY (r AND 0xff)) F_PF
             (CONDITIONAL_SET_FLAG (r AND 0xFF = 0) F_ZF
               (CONDITIONAL_SET_FLAG (r AND 0x80 \<noteq> 0) F_SF st1))))"
    by (simp add: daa_byte_def Let_def nib big c1_def c2_def y_def flag_simps)
  show "unat (fst (daa_byte d st)) = (y + (if c2 then 0x60 else 0)) mod 256"
    unfolding step Let_def y_def by (cases c1; cases c2) (simp_all add: sixty)
  show "ACCESS_FLAG F_CF (snd (daa_byte d st)) \<longleftrightarrow> c2"
    unfolding step Let_def
    by (cases c2; cases c1) (simp_all add: flag_simps, simp_all add: c2_def)
qed

text \<open>The byte of a two digit decimal number in packed form.\<close>

definition bcd :: "nat \<Rightarrow> u8" where
  "bcd n = of_nat (16 * (n div 10) + n mod 10)"

lemma unat_bcd: "n < 100 \<Longrightarrow> unat (bcd n) = 16 * (n div 10) + n mod 10"
proof -
  assume "n < 100"
  then have "16 * (n div 10) + n mod 10 < 256" by simp
  then show ?thesis unfolding bcd_def unat_of_nat by simp
qed

text \<open>The adjustment on the sums \<open>t\<close> of the tens and \<open>u\<close> of the units.\<close>

definition daa_adjusts :: "nat \<Rightarrow> nat \<Rightarrow> bool" where
  "daa_adjusts t u \<longleftrightarrow>
     (let y = (16 * t + u) mod 256 + (if 10 \<le> u then 6 else 0);
          c = (0x9F < y \<or> 256 \<le> 16 * t + u);
          n = (10 * t + u) mod 100
      in (c \<longleftrightarrow> 100 \<le> 10 * t + u) \<and> (y + (if c then 0x60 else 0)) mod 256 = 16 * (n div 10) + n mod 10)"

lemma daa_adjusts_all: "t < 19 \<Longrightarrow> u < 19 \<Longrightarrow> daa_adjusts t u"
proof -
  have "list_all (\<lambda>t. list_all (daa_adjusts t) [0..<19]) [0..<19]" by code_simp
  then show "t < 19 \<Longrightarrow> u < 19 \<Longrightarrow> daa_adjusts t u" by (simp add: list_all_iff)
qed

text \<open>
  Decimal addition: adding two packed two digit decimal numbers with ADD and adjusting with
  DAA gives the packed sum modulo 100, and CF set exactly if the sum is at least 100.
\<close>

theorem daa_adds_decimal:
  assumes "a < 100" "b < 100" "add_byte (bcd a) (bcd b) st = (s, st1)" "daa_byte s st1 = (r, st2)"
  shows "r = bcd ((a + b) mod 100) \<and> (ACCESS_FLAG F_CF st2 \<longleftrightarrow> 100 \<le> a + b)"
proof -
  have add: "s = bcd a + bcd b" "ACCESS_FLAG F_CF st1 \<longleftrightarrow> 256 \<le> unat (bcd a) + unat (bcd b)"
    "ACCESS_FLAG F_AF st1 \<longleftrightarrow> 16 \<le> unat (bcd a) mod 16 + unat (bcd b) mod 16"
    using byte_add.add[of "bcd a" "bcd b" st] assms(3) by (auto simp: add_spec_def add_flags_def)
  obtain a1 a0 b1 b0 where d: "a = 10 * a1 + a0" "b = 10 * b1 + b0" "a0 < 10" "b0 < 10" "a1 < 10" "b1 < 10"
  proof
    show "a = 10 * (a div 10) + a mod 10" "b = 10 * (b div 10) + b mod 10" by simp_all
    show "a mod 10 < 10" "b mod 10 < 10" "a div 10 < 10" "b div 10 < 10" using assms(1,2) by simp_all
  qed
  have ua: "unat (bcd a) = 16 * a1 + a0" and ub: "unat (bcd b) = 16 * b1 + b0"
    using d assms(1,2) by (simp_all add: unat_bcd)
  have us: "unat s = (16 * (a1 + b1) + (a0 + b0)) mod 256"
    using add(1) by (simp add: unat_word_ariths ua ub algebra_simps)
  have r: "unat r = (unat s + (if 9 < unat s mod 16 \<or> ACCESS_FLAG F_AF st1 then 6 else 0) +
      (if 0x9F < unat s + (if 9 < unat s mod 16 \<or> ACCESS_FLAG F_AF st1 then 6 else 0)
          \<or> ACCESS_FLAG F_CF st1 then 0x60 else 0)) mod 256"
    and cf: "ACCESS_FLAG F_CF st2 \<longleftrightarrow> 0x9F < unat s + (if 9 < unat s mod 16 \<or> ACCESS_FLAG F_AF st1 then 6 else 0)
          \<or> ACCESS_FLAG F_CF st1"
    using daa_nat[of s st1] assms(4) by simp_all
  have "unat s mod 16 = (a0 + b0) mod 16"
  proof -
    have "(16 * (a1 + b1) + (a0 + b0)) mod 256 mod 16 = (16 * (a1 + b1) + (a0 + b0)) mod 16"
      by (rule mod_mod_cancel) simp
    also have "\<dots> = (a0 + b0) mod 16" by (rule mod_mult_self4)
    finally show ?thesis by (simp only: us)
  qed
  moreover have "ACCESS_FLAG F_AF st1 \<longleftrightarrow> 16 \<le> a0 + b0"
    using d(3,4) by (simp add: add(3) ua ub)
  moreover have "9 < (a0 + b0) mod 16 \<or> 16 \<le> a0 + b0 \<longleftrightarrow> 10 \<le> a0 + b0"
    using d by (cases "a0 + b0 < 16") auto
  ultimately have nib: "9 < unat s mod 16 \<or> ACCESS_FLAG F_AF st1 \<longleftrightarrow> 10 \<le> a0 + b0" by simp
  have cf1: "ACCESS_FLAG F_CF st1 \<longleftrightarrow> 256 \<le> 16 * (a1 + b1) + (a0 + b0)"
    by (simp add: add(2) ua ub algebra_simps)
  define t where "t = a1 + b1"
  define u where "u = a0 + b0"
  have "daa_adjusts t u" using d by (intro daa_adjusts_all) (simp_all add: t_def u_def)
  then have adj: "(0x9F < (16 * t + u) mod 256 + (if 10 \<le> u then 6 else 0) \<or> 256 \<le> 16 * t + u)
        \<longleftrightarrow> 100 \<le> 10 * t + u"
    "((16 * t + u) mod 256 + (if 10 \<le> u then 6 else 0)
       + (if 0x9F < (16 * t + u) mod 256 + (if 10 \<le> u then 6 else 0) \<or> 256 \<le> 16 * t + u then 0x60 else 0)) mod 256
     = 16 * ((10 * t + u) mod 100 div 10) + (10 * t + u) mod 100 mod 10"
    unfolding daa_adjusts_def Let_def by (rule conjunct1, rule conjunct2)
  have ab: "10 * t + u = a + b" using d by (simp add: t_def u_def)
  have "ACCESS_FLAG F_CF st2 \<longleftrightarrow> 100 \<le> a + b"
    using cf[unfolded nib, unfolded us cf1, folded t_def u_def] adj(1) unfolding ab by (rule trans)
  moreover have "unat r = 16 * ((a + b) mod 100 div 10) + (a + b) mod 100 mod 10"
    using r[unfolded nib, unfolded us cf1, folded t_def u_def] adj(2) unfolding ab by (rule trans)
  moreover from this have "r = bcd ((a + b) mod 100)"
    by (intro word_unat_eq_iff[THEN iffD2]) (simp add: unat_bcd)
  ultimately show ?thesis by simp
qed

theorem daa_adds_decimal_witness:
  "\<exists>s st1 r st2. add_byte (bcd 58) (bcd 67) reset_regs = (s, st1) \<and> daa_byte s st1 = (r, st2)
     \<and> r = bcd 25 \<and> ACCESS_FLAG F_CF st2"
proof -
  obtain s st1 where a: "add_byte (bcd 58) (bcd 67) reset_regs = (s, st1)"
    by (cases "add_byte (bcd 58) (bcd 67) reset_regs")
  obtain r st2 where b: "daa_byte s st1 = (r, st2)" by (cases "daa_byte s st1")
  from daa_adds_decimal[OF _ _ a b] have "r = bcd 25" "ACCESS_FLAG F_CF st2" by simp_all
  with a b show ?thesis by blast
qed

end
