(* ===== verification/X86Shift.thy ===== *)
theory X86Shift
  imports X86Arith
begin

unbundle bit_operations_syntax

text \<open>
  The rotates and shifts of \<open>prim_ops.c\<close>. The distance is any byte. A C shift whose distance is
  not below the 32 bits of the (promoted) operand is undefined: the functions in which that can
  happen return \<open>None\<close> then. A left shift into or past the sign bit of an \<open>int\<close> is the shift of
  the bits, and \<open>(1 << 31) - 1\<close> wraps, as compilers define them.
\<close>

section \<open>Shifts of C\<close>

definition c_shl :: "u32 \<Rightarrow> nat \<Rightarrow> u32 option" where
  "c_shl x n = (if n < 32 then Some (push_bit n x) else None)"

definition c_shr :: "u32 \<Rightarrow> nat \<Rightarrow> u32 option" where
  "c_shr x n = (if n < 32 then Some (drop_bit n x) else None)"

section \<open>Rotates through the carry\<close>

definition rcl_byte ::
  "u8 \<Rightarrow> u8 \<Rightarrow> x86_regs \<Rightarrow> u8 \<times> x86_regs" where
  "rcl_byte d s st =
     (let d = ucast d :: u32;
          res = d;
          cnt = unat s mod 9
      in if cnt \<noteq> 0 then
           let cf = drop_bit (8 - cnt) d AND 0x1;
               res = push_bit cnt d AND 0xff;
               msk = push_bit (cnt - 1) 1 - 1;
               res = res OR (drop_bit (9 - cnt) d AND msk);
               res = (if ACCESS_FLAG F_CF st then res OR push_bit (cnt - 1) 1 else res);
               st = CONDITIONAL_SET_FLAG (cf \<noteq> 0) F_CF st;
               st = CONDITIONAL_SET_FLAG (cnt = 1 \<and> XOR2 (cf + (drop_bit 6 res AND 0x2))) F_OF st
           in (ucast res, st)
       else (ucast res, st))"

definition rcl_word ::
  "u16 \<Rightarrow> u8 \<Rightarrow> x86_regs \<Rightarrow> u16 \<times> x86_regs" where
  "rcl_word d s st =
     (let d = ucast d :: u32;
          res = d;
          cnt = unat s mod 17
      in if cnt \<noteq> 0 then
           let cf = drop_bit (16 - cnt) d AND 0x1;
               res = push_bit cnt d AND 0xffff;
               msk = push_bit (cnt - 1) 1 - 1;
               res = res OR (drop_bit (17 - cnt) d AND msk);
               res = (if ACCESS_FLAG F_CF st then res OR push_bit (cnt - 1) 1 else res);
               st = CONDITIONAL_SET_FLAG (cf \<noteq> 0) F_CF st;
               st = CONDITIONAL_SET_FLAG (cnt = 1 \<and> XOR2 (cf + (drop_bit 14 res AND 0x2))) F_OF st
           in (ucast res, st)
       else (ucast res, st))"

definition rcl_long ::
  "u32 \<Rightarrow> u8 \<Rightarrow> x86_regs \<Rightarrow> (u32 \<times> x86_regs) option" where
  "rcl_long d s st =
     (let d = d;
          res = d;
          cnt = unat s mod 33
      in if cnt \<noteq> 0 then
        do { hi \<leftarrow> c_shr d (33 - cnt);
           let cf = drop_bit (32 - cnt) d AND 0x1;
               res = push_bit cnt d AND 0xffffffff;
               msk = push_bit (cnt - 1) 1 - 1;
               res = res OR (hi AND msk);
               res = (if ACCESS_FLAG F_CF st then res OR push_bit (cnt - 1) 1 else res);
               st = CONDITIONAL_SET_FLAG (cf \<noteq> 0) F_CF st;
               st = CONDITIONAL_SET_FLAG (cnt = 1 \<and> XOR2 (cf + (drop_bit 30 res AND 0x2))) F_OF st
           in Some (res, st) }
       else Some (res, st))"

definition rcr_byte ::
  "u8 \<Rightarrow> u8 \<Rightarrow> x86_regs \<Rightarrow> u8 \<times> x86_regs" where
  "rcr_byte d s st =
     (let d = ucast d :: u32;
          res = d;
          cnt = unat s mod 9
      in if cnt \<noteq> 0 then
           let cf = (if cnt = 1 then d AND 0x1 else drop_bit (cnt - 1) d AND 0x1);
               ocf = (if cnt = 1 \<and> ACCESS_FLAG F_CF st then 1 else 0);
               msk = push_bit (8 - cnt) 1 - 1;
               res = drop_bit cnt d AND msk;
               res = res OR push_bit (9 - cnt) d;
               res = (if ACCESS_FLAG F_CF st then res OR push_bit (8 - cnt) 1 else res);
               st = CONDITIONAL_SET_FLAG (cf \<noteq> 0) F_CF st;
               st = (if cnt = 1
                     then CONDITIONAL_SET_FLAG (XOR2 (ocf + (drop_bit 6 d AND 0x2))) F_OF st else st)
           in (ucast res, st)
       else (ucast res, st))"

definition rcr_word ::
  "u16 \<Rightarrow> u8 \<Rightarrow> x86_regs \<Rightarrow> u16 \<times> x86_regs" where
  "rcr_word d s st =
     (let d = ucast d :: u32;
          res = d;
          cnt = unat s mod 17
      in if cnt \<noteq> 0 then
           let cf = (if cnt = 1 then d AND 0x1 else drop_bit (cnt - 1) d AND 0x1);
               ocf = (if cnt = 1 \<and> ACCESS_FLAG F_CF st then 1 else 0);
               msk = push_bit (16 - cnt) 1 - 1;
               res = drop_bit cnt d AND msk;
               res = res OR push_bit (17 - cnt) d;
               res = (if ACCESS_FLAG F_CF st then res OR push_bit (16 - cnt) 1 else res);
               st = CONDITIONAL_SET_FLAG (cf \<noteq> 0) F_CF st;
               st = (if cnt = 1
                     then CONDITIONAL_SET_FLAG (XOR2 (ocf + (drop_bit 14 d AND 0x2))) F_OF st else st)
           in (ucast res, st)
       else (ucast res, st))"

definition rcr_long ::
  "u32 \<Rightarrow> u8 \<Rightarrow> x86_regs \<Rightarrow> (u32 \<times> x86_regs) option" where
  "rcr_long d s st =
     (let d = d;
          res = d;
          cnt = unat s mod 33
      in if cnt \<noteq> 0 then
        do { lo \<leftarrow> c_shr d cnt;
           let cf = (if cnt = 1 then d AND 0x1 else drop_bit (cnt - 1) d AND 0x1);
               ocf = (if cnt = 1 \<and> ACCESS_FLAG F_CF st then 1 else 0);
               msk = push_bit (32 - cnt) 1 - 1;
               res = lo AND msk;
               res = (if cnt \<noteq> 1 then res OR push_bit (33 - cnt) d else res);
               res = (if ACCESS_FLAG F_CF st then res OR push_bit (32 - cnt) 1 else res);
               st = CONDITIONAL_SET_FLAG (cf \<noteq> 0) F_CF st;
               st = (if cnt = 1
                     then CONDITIONAL_SET_FLAG (XOR2 (ocf + (drop_bit 30 d AND 0x2))) F_OF st else st)
           in Some (res, st) }
       else Some (res, st))"

section \<open>Rotates\<close>

definition rol_byte ::
  "u8 \<Rightarrow> u8 \<Rightarrow> x86_regs \<Rightarrow> u8 \<times> x86_regs" where
  "rol_byte d s st =
     (let d = ucast d :: u32;
          cnt = unat s mod 8;
          (res, st) =
            (if cnt \<noteq> 0 then
               let res = push_bit cnt d;
                   msk = push_bit cnt 1 - 1;
                   res = res OR (drop_bit (8 - cnt) d AND msk);
                   st = CONDITIONAL_SET_FLAG (res AND 0x1 \<noteq> 0) F_CF st;
                   st = CONDITIONAL_SET_FLAG
                          (s = 1 \<and> XOR2 ((res AND 0x1) + (drop_bit 6 res AND 0x2))) F_OF st
               in (res, st)
             else (d, st));
          st = (if s \<noteq> 0 then CONDITIONAL_SET_FLAG (res AND 0x1 \<noteq> 0) F_CF st else st)
      in (ucast res, st))"

definition rol_word ::
  "u16 \<Rightarrow> u8 \<Rightarrow> x86_regs \<Rightarrow> u16 \<times> x86_regs" where
  "rol_word d s st =
     (let d = ucast d :: u32;
          cnt = unat s mod 16;
          (res, st) =
            (if cnt \<noteq> 0 then
               let res = push_bit cnt d;
                   msk = push_bit cnt 1 - 1;
                   res = res OR (drop_bit (16 - cnt) d AND msk);
                   st = CONDITIONAL_SET_FLAG (res AND 0x1 \<noteq> 0) F_CF st;
                   st = CONDITIONAL_SET_FLAG
                          (s = 1 \<and> XOR2 ((res AND 0x1) + (drop_bit 14 res AND 0x2))) F_OF st
               in (res, st)
             else (d, st));
          st = (if s \<noteq> 0 then CONDITIONAL_SET_FLAG (res AND 0x1 \<noteq> 0) F_CF st else st)
      in (ucast res, st))"

definition rol_long ::
  "u32 \<Rightarrow> u8 \<Rightarrow> x86_regs \<Rightarrow> u32 \<times> x86_regs" where
  "rol_long d s st =
     (let d = d;
          cnt = unat s mod 32;
          (res, st) =
            (if cnt \<noteq> 0 then
               let res = push_bit cnt d;
                   msk = push_bit cnt 1 - 1;
                   res = res OR (drop_bit (32 - cnt) d AND msk);
                   st = CONDITIONAL_SET_FLAG (res AND 0x1 \<noteq> 0) F_CF st;
                   st = CONDITIONAL_SET_FLAG
                          (s = 1 \<and> XOR2 ((res AND 0x1) + (drop_bit 30 res AND 0x2))) F_OF st
               in (res, st)
             else (d, st));
          st = (if s \<noteq> 0 then CONDITIONAL_SET_FLAG (res AND 0x1 \<noteq> 0) F_CF st else st)
      in (res, st))"

definition ror_byte ::
  "u8 \<Rightarrow> u8 \<Rightarrow> x86_regs \<Rightarrow> u8 \<times> x86_regs" where
  "ror_byte d s st =
     (let d = ucast d :: u32;
          cnt = unat s mod 8;
          (res, st) =
            (if cnt \<noteq> 0 then
               let res = push_bit (8 - cnt) d;
                   msk = push_bit (8 - cnt) 1 - 1;
                   res = res OR (drop_bit cnt d AND msk);
                   st = CONDITIONAL_SET_FLAG (res AND 0x80 \<noteq> 0) F_CF st;
                   st = CONDITIONAL_SET_FLAG (s = 1 \<and> XOR2 (drop_bit 6 res)) F_OF st
               in (res, st)
             else if s \<noteq> 0 then (d, CONDITIONAL_SET_FLAG (d AND 0x80 \<noteq> 0) F_CF st)
             else (d, st))
      in (ucast res, st))"

definition ror_word ::
  "u16 \<Rightarrow> u8 \<Rightarrow> x86_regs \<Rightarrow> u16 \<times> x86_regs" where
  "ror_word d s st =
     (let d = ucast d :: u32;
          cnt = unat s mod 16;
          (res, st) =
            (if cnt \<noteq> 0 then
               let res = push_bit (16 - cnt) d;
                   msk = push_bit (16 - cnt) 1 - 1;
                   res = res OR (drop_bit cnt d AND msk);
                   st = CONDITIONAL_SET_FLAG (res AND 0x8000 \<noteq> 0) F_CF st;
                   st = CONDITIONAL_SET_FLAG (s = 1 \<and> XOR2 (drop_bit 14 res)) F_OF st
               in (res, st)
             else if s \<noteq> 0 then (d, CONDITIONAL_SET_FLAG (d AND 0x8000 \<noteq> 0) F_CF st)
             else (d, st))
      in (ucast res, st))"

definition ror_long ::
  "u32 \<Rightarrow> u8 \<Rightarrow> x86_regs \<Rightarrow> u32 \<times> x86_regs" where
  "ror_long d s st =
     (let d = d;
          cnt = unat s mod 32;
          (res, st) =
            (if cnt \<noteq> 0 then
               let res = push_bit (32 - cnt) d;
                   msk = push_bit (32 - cnt) 1 - 1;
                   res = res OR (drop_bit cnt d AND msk);
                   st = CONDITIONAL_SET_FLAG (res AND 0x80000000 \<noteq> 0) F_CF st;
                   st = CONDITIONAL_SET_FLAG (s = 1 \<and> XOR2 (drop_bit 30 res)) F_OF st
               in (res, st)
             else if s \<noteq> 0 then (d, CONDITIONAL_SET_FLAG (d AND 0x80000000 \<noteq> 0) F_CF st)
             else (d, st))
      in (res, st))"

section \<open>Shifts\<close>

definition shl_byte ::
  "u8 \<Rightarrow> u8 \<Rightarrow> x86_regs \<Rightarrow> (u8 \<times> x86_regs) option" where
  "shl_byte d s st =
     (let d = ucast d :: u32;
          n = unat s
      in if n < 8 then
           let cnt = n mod 8;
               (res, st) =
                 (if cnt > 0 then
                    let res = push_bit cnt d;
                        cf = d AND push_bit (8 - cnt) 1;
                        st = CONDITIONAL_SET_FLAG (cf \<noteq> 0) F_CF st;
                        st = CONDITIONAL_SET_FLAG (res AND 0xff = 0) F_ZF st;
                        st = CONDITIONAL_SET_FLAG (res AND 0x80 \<noteq> 0) F_SF st;
                        st = CONDITIONAL_SET_FLAG (PARITY (res AND 0xff)) F_PF st
                    in (res, st)
                  else (d, st));
               st = (if cnt = 1
                     then CONDITIONAL_SET_FLAG ((res AND 0x80 = 0x80) \<noteq> ACCESS_FLAG F_CF st) F_OF st
                     else CLEAR_FLAG F_OF st)
           in Some (ucast res, st)
         else
           do { out \<leftarrow> c_shl d (n - 1);
                let st = CONDITIONAL_SET_FLAG (out AND 0x80 \<noteq> 0) F_CF st;
                    st = CLEAR_FLAG F_OF st;
                    st = CLEAR_FLAG F_SF st;
                    st = SET_FLAG F_PF st;
                    st = SET_FLAG F_ZF st
                in Some (0, st) })"

definition shl_word ::
  "u16 \<Rightarrow> u8 \<Rightarrow> x86_regs \<Rightarrow> (u16 \<times> x86_regs) option" where
  "shl_word d s st =
     (let d = ucast d :: u32;
          n = unat s
      in if n < 16 then
           let cnt = n mod 16;
               (res, st) =
                 (if cnt > 0 then
                    let res = push_bit cnt d;
                        cf = d AND push_bit (16 - cnt) 1;
                        st = CONDITIONAL_SET_FLAG (cf \<noteq> 0) F_CF st;
                        st = CONDITIONAL_SET_FLAG (res AND 0xffff = 0) F_ZF st;
                        st = CONDITIONAL_SET_FLAG (res AND 0x8000 \<noteq> 0) F_SF st;
                        st = CONDITIONAL_SET_FLAG (PARITY (res AND 0xff)) F_PF st
                    in (res, st)
                  else (d, st));
               st = (if cnt = 1
                     then CONDITIONAL_SET_FLAG ((res AND 0x8000 = 0x8000) \<noteq> ACCESS_FLAG F_CF st) F_OF st
                     else CLEAR_FLAG F_OF st)
           in Some (ucast res, st)
         else
           do { out \<leftarrow> c_shl d (n - 1);
                let st = CONDITIONAL_SET_FLAG (out AND 0x8000 \<noteq> 0) F_CF st;
                    st = CLEAR_FLAG F_OF st;
                    st = CLEAR_FLAG F_SF st;
                    st = SET_FLAG F_PF st;
                    st = SET_FLAG F_ZF st
                in Some (0, st) })"

definition shld_word ::
  "u16 \<Rightarrow> u16 \<Rightarrow> u8 \<Rightarrow> x86_regs \<Rightarrow> (u16 \<times> x86_regs) option" where
  "shld_word d fill s st =
     (let d = ucast d :: u32;
          fill = ucast fill :: u32;
          n = unat s
      in if n < 16 then
           let cnt = n mod 16;
               (res, st) =
                 (if cnt > 0 then
                    let res = push_bit cnt d OR drop_bit (16 - cnt) fill;
                        cf = d AND push_bit (16 - cnt) 1;
                        st = CONDITIONAL_SET_FLAG (cf \<noteq> 0) F_CF st;
                        st = CONDITIONAL_SET_FLAG (res AND 0xffff = 0) F_ZF st;
                        st = CONDITIONAL_SET_FLAG (res AND 0x8000 \<noteq> 0) F_SF st;
                        st = CONDITIONAL_SET_FLAG (PARITY (res AND 0xff)) F_PF st
                    in (res, st)
                  else (d, st));
               st = (if cnt = 1
                     then CONDITIONAL_SET_FLAG ((res AND 0x8000 = 0x8000) \<noteq> ACCESS_FLAG F_CF st) F_OF st
                     else CLEAR_FLAG F_OF st)
           in Some (ucast res, st)
         else
           do { out \<leftarrow> c_shl d (n - 1);
                let st = CONDITIONAL_SET_FLAG (out AND 0x8000 \<noteq> 0) F_CF st;
                    st = CLEAR_FLAG F_OF st;
                    st = CLEAR_FLAG F_SF st;
                    st = SET_FLAG F_PF st;
                    st = SET_FLAG F_ZF st
                in Some (0, st) })"

definition shl_long ::
  "u32 \<Rightarrow> u8 \<Rightarrow> x86_regs \<Rightarrow> (u32 \<times> x86_regs) option" where
  "shl_long d s st =
     (let d = d;
          n = unat s
      in if n < 32 then
           let cnt = n mod 32;
               (res, st) =
                 (if cnt > 0 then
                    let res = push_bit cnt d;
                        cf = d AND push_bit (32 - cnt) 1;
                        st = CONDITIONAL_SET_FLAG (cf \<noteq> 0) F_CF st;
                        st = CONDITIONAL_SET_FLAG (res AND 0xffffffff = 0) F_ZF st;
                        st = CONDITIONAL_SET_FLAG (res AND 0x80000000 \<noteq> 0) F_SF st;
                        st = CONDITIONAL_SET_FLAG (PARITY (res AND 0xff)) F_PF st
                    in (res, st)
                  else (d, st));
               st = (if cnt = 1
                     then CONDITIONAL_SET_FLAG ((res AND 0x80000000 = 0x80000000) \<noteq> ACCESS_FLAG F_CF st) F_OF st
                     else CLEAR_FLAG F_OF st)
           in Some (res, st)
         else
           do { out \<leftarrow> c_shl d (n - 1);
                let st = CONDITIONAL_SET_FLAG (out AND 0x80000000 \<noteq> 0) F_CF st;
                    st = CLEAR_FLAG F_OF st;
                    st = CLEAR_FLAG F_SF st;
                    st = SET_FLAG F_PF st;
                    st = SET_FLAG F_ZF st
                in Some (0, st) })"

definition shld_long ::
  "u32 \<Rightarrow> u32 \<Rightarrow> u8 \<Rightarrow> x86_regs \<Rightarrow> (u32 \<times> x86_regs) option" where
  "shld_long d fill s st =
     (let d = d;
          fill = fill;
          n = unat s
      in if n < 32 then
           let cnt = n mod 32;
               (res, st) =
                 (if cnt > 0 then
                    let res = push_bit cnt d OR drop_bit (32 - cnt) fill;
                        cf = d AND push_bit (32 - cnt) 1;
                        st = CONDITIONAL_SET_FLAG (cf \<noteq> 0) F_CF st;
                        st = CONDITIONAL_SET_FLAG (res AND 0xffffffff = 0) F_ZF st;
                        st = CONDITIONAL_SET_FLAG (res AND 0x80000000 \<noteq> 0) F_SF st;
                        st = CONDITIONAL_SET_FLAG (PARITY (res AND 0xff)) F_PF st
                    in (res, st)
                  else (d, st));
               st = (if cnt = 1
                     then CONDITIONAL_SET_FLAG ((res AND 0x80000000 = 0x80000000) \<noteq> ACCESS_FLAG F_CF st) F_OF st
                     else CLEAR_FLAG F_OF st)
           in Some (res, st)
         else
           do { out \<leftarrow> c_shl d (n - 1);
                let st = CONDITIONAL_SET_FLAG (out AND 0x80000000 \<noteq> 0) F_CF st;
                    st = CLEAR_FLAG F_OF st;
                    st = CLEAR_FLAG F_SF st;
                    st = SET_FLAG F_PF st;
                    st = SET_FLAG F_ZF st
                in Some (0, st) })"

definition shr_byte ::
  "u8 \<Rightarrow> u8 \<Rightarrow> x86_regs \<Rightarrow> (u8 \<times> x86_regs) option" where
  "shr_byte d s st =
     (let d = ucast d :: u32;
          n = unat s
      in if n < 8 then
           let cnt = n mod 8;
               (res, st) =
                 (if cnt > 0 then
                    let cf = d AND push_bit (cnt - 1) 1;
                        res = drop_bit cnt d;
                        st = CONDITIONAL_SET_FLAG (cf \<noteq> 0) F_CF st;
                        st = CONDITIONAL_SET_FLAG (res AND 0xff = 0) F_ZF st;
                        st = CONDITIONAL_SET_FLAG (res AND 0x80 \<noteq> 0) F_SF st;
                        st = CONDITIONAL_SET_FLAG (PARITY (res AND 0xff)) F_PF st
                    in (res, st)
                  else (d, st));
               st = (if cnt = 1 then CONDITIONAL_SET_FLAG (XOR2 (drop_bit 6 res)) F_OF st
                     else CLEAR_FLAG F_OF st)
           in Some (ucast res, st)
         else
           do { out \<leftarrow> c_shr d (n - 1);
                let st = CONDITIONAL_SET_FLAG (out AND 0x1 \<noteq> 0) F_CF st;
                    st = CLEAR_FLAG F_OF st;
                    st = CLEAR_FLAG F_SF st;
                    st = SET_FLAG F_PF st;
                    st = SET_FLAG F_ZF st
                in Some (0, st) })"

definition shr_word ::
  "u16 \<Rightarrow> u8 \<Rightarrow> x86_regs \<Rightarrow> u16 \<times> x86_regs" where
  "shr_word d s st =
     (let d = ucast d :: u32;
          n = unat s
      in if n < 16 then
           let cnt = n mod 16;
               (res, st) =
                 (if cnt > 0 then
                    let cf = d AND push_bit (cnt - 1) 1;
                        res = drop_bit cnt d;
                        st = CONDITIONAL_SET_FLAG (cf \<noteq> 0) F_CF st;
                        st = CONDITIONAL_SET_FLAG (res AND 0xffff = 0) F_ZF st;
                        st = CONDITIONAL_SET_FLAG (res AND 0x8000 \<noteq> 0) F_SF st;
                        st = CONDITIONAL_SET_FLAG (PARITY (res AND 0xff)) F_PF st
                    in (res, st)
                  else (d, st));
               st = (if cnt = 1 then CONDITIONAL_SET_FLAG (XOR2 (drop_bit 14 res)) F_OF st
                     else CLEAR_FLAG F_OF st)
           in (ucast res, st)
         else
           let st = CLEAR_FLAG F_CF st;
               st = CLEAR_FLAG F_OF st;
               st = SET_FLAG F_ZF st;
               st = CLEAR_FLAG F_SF st;
               st = CLEAR_FLAG F_PF st
           in (0, st))"

definition shrd_word ::
  "u16 \<Rightarrow> u16 \<Rightarrow> u8 \<Rightarrow> x86_regs \<Rightarrow> u16 \<times> x86_regs" where
  "shrd_word d fill s st =
     (let d = ucast d :: u32;
          fill = ucast fill :: u32;
          n = unat s
      in if n < 16 then
           let cnt = n mod 16;
               (res, st) =
                 (if cnt > 0 then
                    let cf = d AND push_bit (cnt - 1) 1;
                        res = drop_bit cnt d OR push_bit (16 - cnt) fill;
                        st = CONDITIONAL_SET_FLAG (cf \<noteq> 0) F_CF st;
                        st = CONDITIONAL_SET_FLAG (res AND 0xffff = 0) F_ZF st;
                        st = CONDITIONAL_SET_FLAG (res AND 0x8000 \<noteq> 0) F_SF st;
                        st = CONDITIONAL_SET_FLAG (PARITY (res AND 0xff)) F_PF st
                    in (res, st)
                  else (d, st));
               st = (if cnt = 1 then CONDITIONAL_SET_FLAG (XOR2 (drop_bit 14 res)) F_OF st
                     else CLEAR_FLAG F_OF st)
           in (ucast res, st)
         else
           let st = CLEAR_FLAG F_CF st;
               st = CLEAR_FLAG F_OF st;
               st = SET_FLAG F_ZF st;
               st = CLEAR_FLAG F_SF st;
               st = CLEAR_FLAG F_PF st
           in (0, st))"

definition shr_long ::
  "u32 \<Rightarrow> u8 \<Rightarrow> x86_regs \<Rightarrow> u32 \<times> x86_regs" where
  "shr_long d s st =
     (let d = d;
          n = unat s
      in if n < 32 then
           let cnt = n mod 32;
               (res, st) =
                 (if cnt > 0 then
                    let cf = d AND push_bit (cnt - 1) 1;
                        res = drop_bit cnt d;
                        st = CONDITIONAL_SET_FLAG (cf \<noteq> 0) F_CF st;
                        st = CONDITIONAL_SET_FLAG (res AND 0xffffffff = 0) F_ZF st;
                        st = CONDITIONAL_SET_FLAG (res AND 0x80000000 \<noteq> 0) F_SF st;
                        st = CONDITIONAL_SET_FLAG (PARITY (res AND 0xff)) F_PF st
                    in (res, st)
                  else (d, st));
               st = (if cnt = 1 then CONDITIONAL_SET_FLAG (XOR2 (drop_bit 30 res)) F_OF st
                     else CLEAR_FLAG F_OF st)
           in (res, st)
         else
           let st = CLEAR_FLAG F_CF st;
               st = CLEAR_FLAG F_OF st;
               st = SET_FLAG F_ZF st;
               st = CLEAR_FLAG F_SF st;
               st = CLEAR_FLAG F_PF st
           in (0, st))"

definition shrd_long ::
  "u32 \<Rightarrow> u32 \<Rightarrow> u8 \<Rightarrow> x86_regs \<Rightarrow> u32 \<times> x86_regs" where
  "shrd_long d fill s st =
     (let d = d;
          fill = fill;
          n = unat s
      in if n < 32 then
           let cnt = n mod 32;
               (res, st) =
                 (if cnt > 0 then
                    let cf = d AND push_bit (cnt - 1) 1;
                        res = drop_bit cnt d OR push_bit (32 - cnt) fill;
                        st = CONDITIONAL_SET_FLAG (cf \<noteq> 0) F_CF st;
                        st = CONDITIONAL_SET_FLAG (res AND 0xffffffff = 0) F_ZF st;
                        st = CONDITIONAL_SET_FLAG (res AND 0x80000000 \<noteq> 0) F_SF st;
                        st = CONDITIONAL_SET_FLAG (PARITY (res AND 0xff)) F_PF st
                    in (res, st)
                  else (d, st));
               st = (if cnt = 1 then CONDITIONAL_SET_FLAG (XOR2 (drop_bit 30 res)) F_OF st
                     else CLEAR_FLAG F_OF st)
           in (res, st)
         else
           let st = CLEAR_FLAG F_CF st;
               st = CLEAR_FLAG F_OF st;
               st = SET_FLAG F_ZF st;
               st = CLEAR_FLAG F_SF st;
               st = CLEAR_FLAG F_PF st
           in (0, st))"

definition sar_byte ::
  "u8 \<Rightarrow> u8 \<Rightarrow> x86_regs \<Rightarrow> u8 \<times> x86_regs" where
  "sar_byte d s st =
     (let d = ucast d :: u32;
          sf = d AND 0x80;
          cnt = unat s mod 8;
          res = d
      in if cnt > 0 \<and> cnt < 8 then
           let msk = push_bit (8 - cnt) 1 - 1;
               cf = d AND push_bit (cnt - 1) 1;
               res = drop_bit cnt d AND msk;
               st = CONDITIONAL_SET_FLAG (cf \<noteq> 0) F_CF st;
               res = (if sf \<noteq> 0 then res OR NOT msk else res);
               st = CONDITIONAL_SET_FLAG (res AND 0xff = 0) F_ZF st;
               st = CONDITIONAL_SET_FLAG (PARITY (res AND 0xff)) F_PF st;
               st = CONDITIONAL_SET_FLAG (res AND 0x80 \<noteq> 0) F_SF st
           in (ucast res, st)
         else if cnt \<ge> 8 then
           (if sf \<noteq> 0 then
              (ucast (0xff :: u32), SET_FLAG F_PF (SET_FLAG F_SF (CLEAR_FLAG F_ZF (SET_FLAG F_CF st))))
            else
              (0, CLEAR_FLAG F_PF (CLEAR_FLAG F_SF (SET_FLAG F_ZF (CLEAR_FLAG F_CF st)))))
         else (ucast res, st))"

definition sar_word ::
  "u16 \<Rightarrow> u8 \<Rightarrow> x86_regs \<Rightarrow> u16 \<times> x86_regs" where
  "sar_word d s st =
     (let d = ucast d :: u32;
          sf = d AND 0x8000;
          cnt = unat s mod 16;
          res = d
      in if cnt > 0 \<and> cnt < 16 then
           let msk = push_bit (16 - cnt) 1 - 1;
               cf = d AND push_bit (cnt - 1) 1;
               res = drop_bit cnt d AND msk;
               st = CONDITIONAL_SET_FLAG (cf \<noteq> 0) F_CF st;
               res = (if sf \<noteq> 0 then res OR NOT msk else res);
               st = CONDITIONAL_SET_FLAG (res AND 0xffff = 0) F_ZF st;
               st = CONDITIONAL_SET_FLAG (res AND 0x8000 \<noteq> 0) F_SF st;
               st = CONDITIONAL_SET_FLAG (PARITY (res AND 0xff)) F_PF st
           in (ucast res, st)
         else if cnt \<ge> 16 then
           (if sf \<noteq> 0 then
              (ucast (0xffff :: u32), SET_FLAG F_PF (SET_FLAG F_SF (CLEAR_FLAG F_ZF (SET_FLAG F_CF st))))
            else
              (0, CLEAR_FLAG F_PF (CLEAR_FLAG F_SF (SET_FLAG F_ZF (CLEAR_FLAG F_CF st)))))
         else (ucast res, st))"

definition sar_long ::
  "u32 \<Rightarrow> u8 \<Rightarrow> x86_regs \<Rightarrow> u32 \<times> x86_regs" where
  "sar_long d s st =
     (let d = d;
          sf = d AND 0x80000000;
          cnt = unat s mod 32;
          res = d
      in if cnt > 0 \<and> cnt < 32 then
           let msk = push_bit (32 - cnt) 1 - 1;
               cf = d AND push_bit (cnt - 1) 1;
               res = drop_bit cnt d AND msk;
               st = CONDITIONAL_SET_FLAG (cf \<noteq> 0) F_CF st;
               res = (if sf \<noteq> 0 then res OR NOT msk else res);
               st = CONDITIONAL_SET_FLAG (res AND 0xffffffff = 0) F_ZF st;
               st = CONDITIONAL_SET_FLAG (res AND 0x80000000 \<noteq> 0) F_SF st;
               st = CONDITIONAL_SET_FLAG (PARITY (res AND 0xff)) F_PF st
           in (res, st)
         else if cnt \<ge> 32 then
           (if sf \<noteq> 0 then
              (ucast (0xffffffff :: u32), SET_FLAG F_PF (SET_FLAG F_SF (CLEAR_FLAG F_ZF (SET_FLAG F_CF st))))
            else
              (0, CLEAR_FLAG F_PF (CLEAR_FLAG F_SF (SET_FLAG F_ZF (CLEAR_FLAG F_CF st)))))
         else (res, st))"

end
