(* ===== verification/X86Rotate.thy ===== *)
theory X86Rotate
  imports X86Shift
begin

unbundle bit_operations_syntax

text \<open>
  What the rotates and shifts compute: rotation of the operand (\<open>word_rotl\<close>, \<open>word_rotr\<close>), rotation
  of the operand extended by the carry flag, and the three shifts, with their flags.
\<close>

section \<open>Rotates of any width\<close>

lemma exp_mask: "push_bit n 1 - 1 = (mask n :: 'a::len word)"
  by (simp add: mask_eq_exp_minus_1 push_bit_eq_mult)

lemma rotl_bits:
  fixes d :: "'a::len word"
  assumes "LENGTH('a) \<le> 32" "n < LENGTH('a)" "0 < n"
  shows "ucast (push_bit n (ucast d) OR (drop_bit (LENGTH('a) - n) (ucast d) AND (push_bit n 1 - 1)) :: u32)
     = word_rotl n d"
proof (rule bit_word_eqI)
  fix j assume j: "j < LENGTH('a)"
  have "(j + (LENGTH('a) - n)) mod LENGTH('a) = (if j < n then LENGTH('a) - n + j else j - n)"
    using j assms by (auto simp: mod_if)
  then show "bit (ucast (push_bit n (ucast d)
      OR (drop_bit (LENGTH('a) - n) (ucast d) AND (push_bit n 1 - 1)) :: u32) :: 'a word) j
    = bit (word_rotl n d) j"
    using j assms unfolding exp_mask
    by (auto simp: bit_simps ac_simps dest: bit_imp_le_length)
qed

lemma rotr_bits:
  fixes d :: "'a::len word"
  assumes "LENGTH('a) \<le> 32" "n < LENGTH('a)" "0 < n"
  shows "ucast (push_bit (LENGTH('a) - n) (ucast d)
       OR (drop_bit n (ucast d) AND (push_bit (LENGTH('a) - n) 1 - 1)) :: u32) = word_rotr n d"
proof (rule bit_word_eqI)
  fix j assume j: "j < LENGTH('a)"
  have "(j + n) mod LENGTH('a) = (if j < LENGTH('a) - n then j + n else j - (LENGTH('a) - n))"
    using j assms by (auto simp: mod_if)
  then show "bit (ucast (push_bit (LENGTH('a) - n) (ucast d)
      OR (drop_bit n (ucast d) AND (push_bit (LENGTH('a) - n) 1 - 1)) :: u32) :: 'a word) j
    = bit (word_rotr n d) j"
    using j assms unfolding exp_mask
    by (auto simp: bit_simps ac_simps dest: bit_imp_le_length)
qed

lemma word_rotl_mod: "word_rotl (n mod LENGTH('a)) d = word_rotl n (d :: 'a::len word)"
  by (rule bit_word_eqI) (simp add: bit_simps)

lemma word_rotr_mod: "word_rotr (n mod LENGTH('a)) d = word_rotr n (d :: 'a::len word)"
  by (rule bit_word_eqI) (simp add: bit_simps mod_add_right_eq)

text \<open>
  The contract of a left or right rotate: the rotated operand; unless the distance is zero CF is
  the bit that came around (\<open>cf\<close> of the result), and only CF and OF may change.
\<close>

definition rot_spec :: "nat \<Rightarrow> 'a::len word \<Rightarrow> nat \<Rightarrow> x86_regs \<Rightarrow> 'a word \<times> x86_regs \<Rightarrow> bool" where
  "rot_spec n res k st out \<longleftrightarrow>
     (case out of (r, st') \<Rightarrow>
        r = res
        \<and> (ACCESS_FLAG F_CF st' \<longleftrightarrow> (if n = 0 then ACCESS_FLAG F_CF st else bit res k))
        \<and> flags_frame 0x801 st st'
        \<and> (n = 1 \<longrightarrow> (ACCESS_FLAG F_OF st' \<longleftrightarrow>
              bit res (LENGTH('a) - 1) \<noteq> bit res (if k = 0 then 0 else k - 1))))"

lemma unat_one_iff:
  fixes s :: u8
  shows "unat s = 1 \<longleftrightarrow> s = 1" "unat s = Suc 0 \<longleftrightarrow> s = 1" "unat s = 0 \<longleftrightarrow> s = 0"
proof -
  show "unat s = 1 \<longleftrightarrow> s = 1" by (metis unat_1 word_unat_eq_iff)
  then show "unat s = Suc 0 \<longleftrightarrow> s = 1" by simp
qed (simp add: unsigned_eq_0_iff)

lemma and_exp_bit: "n < LENGTH('a::len) \<Longrightarrow> (x :: 'a word) AND 2 ^ n = 0 \<longleftrightarrow> \<not> bit x n"
  using and_push_bit_zero[of n x] by (simp add: push_bit_eq_mult)

lemma and_one: "(x :: u32) AND 1 = of_bool (bit x 0)"
  by (rule bit_word_eqI) (auto simp: bit_simps)

lemma XOR2_sum: "XOR2 (of_bool b + (drop_bit n x AND 2)) \<longleftrightarrow> b \<noteq> bit x (Suc n)" if "n < 31"
proof -
  have "drop_bit n x AND 2 = push_bit 1 (of_bool (bit x (Suc n)))"
    using bit_numerals(2) by (intro bit_word_eqI) (auto simp: bit_simps)
  then have 2: "drop_bit n x AND 2 = 2 * of_bool (bit x (Suc n))" by (simp add: push_bit_eq_mult)
  show ?thesis unfolding 2 by (cases b; cases "bit x (Suc n)"; simp add: XOR2_def)
qed

lemma XOR2_pair:
  fixes x :: u32
  shows "n < 31 \<Longrightarrow> XOR2 ((x AND 1) + (drop_bit n x AND 2)) \<longleftrightarrow> bit x 0 \<noteq> bit x (Suc n)"
  unfolding and_one by (rule XOR2_sum)

lemma and_one_bit: "(x :: u32) AND 1 = 0 \<longleftrightarrow> \<not> bit x 0"
  using and_push_bit_zero[of 0 x] by simp

lemma low_bits: "k < LENGTH('a::len) \<Longrightarrow> bit (x :: u32) k \<longleftrightarrow> bit (ucast x :: 'a word) k"
  by (auto simp: bit_simps dest: bit_imp_le_length)

text \<open>The code of the rotates at any width of at most 32 bits, with the masks as bits.\<close>

lemma rol_contract:
  fixes d :: "'a::len word" and s :: u8
  assumes w: "LENGTH('a) \<le> 32" "1 < LENGTH('a)"
  defines "n \<equiv> unat s mod LENGTH('a)"
  defines "R \<equiv> push_bit n (ucast d) OR (drop_bit (LENGTH('a) - n) (ucast d) AND (push_bit n 1 - 1)) :: u32"
  shows "rot_spec (unat s) (word_rotl (unat s) d) 0 st
    (if n \<noteq> 0 then
       (ucast R, CONDITIONAL_SET_FLAG (R AND 1 \<noteq> 0) F_CF
          (CONDITIONAL_SET_FLAG (s = 1 \<and> XOR2 ((R AND 1) + (drop_bit (LENGTH('a) - 2) R AND 2))) F_OF
            (CONDITIONAL_SET_FLAG (R AND 1 \<noteq> 0) F_CF st)))
     else (d, if s \<noteq> 0 then CONDITIONAL_SET_FLAG (ucast d AND (1 :: u32) \<noteq> 0) F_CF st else st))"
proof (cases "n = 0")
  case True
  have "word_rotl (unat s) d = d"
    using True by (intro bit_word_eqI) (simp add: n_def bit_simps)
  with True w show ?thesis
    by (auto simp: rot_spec_def flag_simps and_one_bit bit_simps unat_one_iff n_def)
next
  case False
  have n: "n < LENGTH('a)" "0 < n" "s \<noteq> 0" using False by (auto simp: n_def)
  have R: "ucast R = word_rotl (unat s) d"
    using rotl_bits[OF w(1) n(1,2), of d] word_rotl_mod[of "unat s" d] by (simp add: R_def n_def)
  have "bit R 0 = bit (word_rotl (unat s) d) 0"
    "bit R (Suc (LENGTH('a) - 2)) = bit (word_rotl (unat s) d) (LENGTH('a) - 1)"
    using w by (simp_all add: low_bits[where 'a = 'a] R Suc_diff_Suc numeral_2_eq_2)
  with False w n(3) show ?thesis
    by (auto simp: rot_spec_def flag_simps and_one_bit XOR2_pair unat_one_iff R)
qed

lemma ror_contract:
  fixes d :: "'a::len word" and s :: u8
  assumes w: "LENGTH('a) \<le> 32" "1 < LENGTH('a)"
  defines "n \<equiv> unat s mod LENGTH('a)"
  defines "R \<equiv> push_bit (LENGTH('a) - n) (ucast d)
     OR (drop_bit n (ucast d) AND (push_bit (LENGTH('a) - n) 1 - 1)) :: u32"
  shows "rot_spec (unat s) (word_rotr (unat s) d) (LENGTH('a) - 1) st
    (if n \<noteq> 0 then
       (ucast R, CONDITIONAL_SET_FLAG (s = 1 \<and> XOR2 (drop_bit (LENGTH('a) - 2) R)) F_OF
            (CONDITIONAL_SET_FLAG (R AND push_bit (LENGTH('a) - 1) 1 \<noteq> 0) F_CF st))
     else (d, if s \<noteq> 0 then CONDITIONAL_SET_FLAG (ucast d AND push_bit (LENGTH('a) - 1) (1 :: u32) \<noteq> 0) F_CF st
              else st))"
proof (cases "n = 0")
  case True
  have "word_rotr (unat s) d = d"
    using True by (intro bit_word_eqI) (metis bit_word_rotr_iff n_def mod_add_right_eq add_0_right mod_less)
  with True w show ?thesis
    by (auto simp: rot_spec_def flag_simps and_exp_bit bit_simps unat_one_iff n_def)
next
  case False
  have n: "n < LENGTH('a)" "0 < n" "s \<noteq> 0" using False by (auto simp: n_def)
  have R: "ucast R = word_rotr (unat s) d"
    using rotr_bits[OF w(1) n(1,2), of d] word_rotr_mod[of "unat s" d] by (simp add: R_def n_def)
  have "bit R (LENGTH('a) - 2) = bit (word_rotr (unat s) d) (LENGTH('a) - 2)"
    "bit R (LENGTH('a) - 1) = bit (word_rotr (unat s) d) (LENGTH('a) - 1)"
    using w by (simp_all add: low_bits[where 'a = 'a] R)
  moreover have "Suc (LENGTH('a) - 2) = LENGTH('a) - 1" "LENGTH('a) - 1 - 1 = LENGTH('a) - 2"
    using w by simp_all
  ultimately show ?thesis using False w n(3)
    by (auto simp: rot_spec_def flag_simps and_exp_bit XOR2_bits unat_one_iff R)
qed

lemma rol_byte_spec: "rot_spec (unat s) (word_rotl (unat s) d) 0 st (rol_byte d s st)"
  using rol_contract[of s d st] by (auto simp: rol_byte_def Let_def unat_one_iff ucast_up_down split: if_splits)

lemma rol_word_spec: "rot_spec (unat s) (word_rotl (unat s) d) 0 st (rol_word d s st)"
  using rol_contract[of s d st] by (auto simp: rol_word_def Let_def unat_one_iff ucast_up_down split: if_splits)

lemma rol_long_spec: "rot_spec (unat s) (word_rotl (unat s) d) 0 st (rol_long d s st)"
  using rol_contract[of s d st] by (auto simp: rol_long_def Let_def unat_one_iff ucast_up_down split: if_splits)

lemma ror_byte_spec: "rot_spec (unat s) (word_rotr (unat s) d) 7 st (ror_byte d s st)"
  using ror_contract[of s d st] by (auto simp: ror_byte_def Let_def unat_one_iff ucast_up_down split: if_splits)

lemma ror_word_spec: "rot_spec (unat s) (word_rotr (unat s) d) 15 st (ror_word d s st)"
  using ror_contract[of s d st] by (auto simp: ror_word_def Let_def unat_one_iff ucast_up_down split: if_splits)

lemma ror_long_spec: "rot_spec (unat s) (word_rotr (unat s) d) 31 st (ror_long d s st)"
  using ror_contract[of s d st] by (auto simp: ror_long_def Let_def unat_one_iff ucast_up_down split: if_splits)

section \<open>Rotates through the carry\<close>

text \<open>The operand extended by the carry as its highest bit: the quantity RCL and RCR rotate.\<close>

definition ring_bit :: "bool \<Rightarrow> 'a::len word \<Rightarrow> nat \<Rightarrow> bool" where
  "ring_bit c d j \<longleftrightarrow> (if j = LENGTH('a) then c else bit d j)"

definition rcl_spec :: "nat \<Rightarrow> 'a::len word \<Rightarrow> x86_regs \<Rightarrow> 'a word \<times> x86_regs \<Rightarrow> bool" where
  "rcl_spec n d st out \<longleftrightarrow>
     (\<forall>j \<le> LENGTH('a). ring_bit (ACCESS_FLAG F_CF (snd out)) (fst out) j
        = ring_bit (ACCESS_FLAG F_CF st) d
            ((j + (Suc LENGTH('a) - n mod Suc LENGTH('a))) mod Suc LENGTH('a)))
     \<and> flags_frame 0x801 st (snd out)"

definition rcr_spec :: "nat \<Rightarrow> 'a::len word \<Rightarrow> x86_regs \<Rightarrow> 'a word \<times> x86_regs \<Rightarrow> bool" where
  "rcr_spec n d st out \<longleftrightarrow>
     (\<forall>j \<le> LENGTH('a). ring_bit (ACCESS_FLAG F_CF (snd out)) (fst out) j
        = ring_bit (ACCESS_FLAG F_CF st) d ((j + n) mod Suc LENGTH('a)))
     \<and> flags_frame 0x801 st (snd out)"

lemma rcl_contract:
  fixes d :: "'a::len word" and st :: x86_regs
  assumes w: "LENGTH('a) \<le> 32" "1 < LENGTH('a)" and W: "W = LENGTH('a)" "V = Suc LENGTH('a)"
    and n: "n = c mod Suc LENGTH('a)" "0 < n"
  defines "R \<equiv> (push_bit n (ucast d) AND mask W)
     OR (drop_bit (V - n) (ucast d) AND (push_bit (n - 1) 1 - 1)) :: u32"
  defines "r \<equiv> (if ACCESS_FLAG F_CF st then R OR push_bit (n - 1) 1 else R)"
  assumes cf: "cf \<longleftrightarrow> bit d (W - n)"
  shows "rcl_spec c d st (ucast r, CONDITIONAL_SET_FLAG ov F_OF (CONDITIONAL_SET_FLAG cf F_CF st))"
proof -
  have le: "n \<le> LENGTH('a)" using n(1) by (simp add: less_Suc_eq_le)
  have bits: "bit r j \<longleftrightarrow> (if j < n - 1 then bit d (Suc LENGTH('a) - n + j)
      else if j = n - 1 then ACCESS_FLAG F_CF st else bit d (j - n))" if "j < LENGTH('a)" for j
    using that w le n(2) unfolding r_def R_def exp_mask W
    by (auto simp: bit_simps dest: bit_imp_le_length)
  have idx: "(j + (Suc LENGTH('a) - n)) mod Suc LENGTH('a)
      = (if j < n then Suc LENGTH('a) - n + j else j - n)" if "j \<le> LENGTH('a)" for j
    using that le n(2) by (auto simp: mod_if)
  show ?thesis unfolding rcl_spec_def n(1)[symmetric]
  proof (intro conjI allI impI)
    fix j assume j: "j \<le> LENGTH('a)"
    show "ring_bit (ACCESS_FLAG F_CF (snd (ucast r, CONDITIONAL_SET_FLAG ov F_OF (CONDITIONAL_SET_FLAG cf F_CF st))))
        (fst (ucast r :: 'a word, CONDITIONAL_SET_FLAG ov F_OF (CONDITIONAL_SET_FLAG cf F_CF st))) j
      = ring_bit (ACCESS_FLAG F_CF st) d ((j + (Suc LENGTH('a) - n)) mod Suc LENGTH('a))"
      unfolding idx[OF j] using j w le n(2) bits[of j]
      by (auto simp: ring_bit_def flag_simps cf W bit_simps)
  qed (simp add: flag_simps)
qed

lemma rcr_contract:
  fixes d :: "'a::len word" and st :: x86_regs
  assumes w: "LENGTH('a) \<le> 32" "1 < LENGTH('a)" and W: "W = LENGTH('a)" "V = Suc LENGTH('a)"
    and n: "n = c mod Suc LENGTH('a)" "0 < n"
  defines "R \<equiv> (drop_bit n (ucast d) AND (push_bit (W - n) 1 - 1))
     OR push_bit (V - n) (ucast d) :: u32"
  defines "r \<equiv> (if ACCESS_FLAG F_CF st then R OR push_bit (W - n) 1 else R)"
  assumes cf: "cf \<longleftrightarrow> bit d (n - 1)"
  shows "rcr_spec c d st (ucast r, if p then CONDITIONAL_SET_FLAG ov F_OF (CONDITIONAL_SET_FLAG cf F_CF st)
           else CONDITIONAL_SET_FLAG cf F_CF st)"
proof -
  have le: "n \<le> LENGTH('a)" using n(1) by (simp add: less_Suc_eq_le)
  have bits: "bit r j \<longleftrightarrow> (if j < LENGTH('a) - n then bit d (j + n)
      else if j = LENGTH('a) - n then ACCESS_FLAG F_CF st else bit d (j - (Suc LENGTH('a) - n)))"
    if "j < LENGTH('a)" for j
    using that w le n(2) unfolding r_def R_def exp_mask W
    by (auto simp: bit_simps ac_simps dest: bit_imp_le_length)
  have "(j + c) mod Suc LENGTH('a) = (j + n) mod Suc LENGTH('a)" for j
    by (simp add: n(1) mod_add_right_eq)
  then have idx: "(j + c) mod Suc LENGTH('a)
      = (if j \<le> LENGTH('a) - n then j + n else j - (Suc LENGTH('a) - n))" if "j \<le> LENGTH('a)" for j
    using that le n(2) by (auto simp: mod_if)
  show ?thesis unfolding rcr_spec_def
  proof (intro conjI allI impI)
    fix j assume j: "j \<le> LENGTH('a)"
    show "ring_bit (ACCESS_FLAG F_CF (snd (ucast r :: 'a word, if p then CONDITIONAL_SET_FLAG ov F_OF
            (CONDITIONAL_SET_FLAG cf F_CF st) else CONDITIONAL_SET_FLAG cf F_CF st)))
        (fst (ucast r :: 'a word, if p then CONDITIONAL_SET_FLAG ov F_OF
            (CONDITIONAL_SET_FLAG cf F_CF st) else CONDITIONAL_SET_FLAG cf F_CF st)) j
      = ring_bit (ACCESS_FLAG F_CF st) d ((j + c) mod Suc LENGTH('a))"
      unfolding idx[OF j] using j w le n(2) bits[of j]
      by (auto simp: ring_bit_def flag_simps cf W bit_simps)
  qed (simp add: flag_simps)
qed

lemma rcl_spec_zero: "c mod Suc LENGTH('a) = 0 \<Longrightarrow> rcl_spec c (d :: 'a::len word) st (d, st)"
  by (simp add: rcl_spec_def mod_less_divisor less_Suc_eq_le mod_if)

lemma rcr_spec_zero: "c mod Suc LENGTH('a) = 0 \<Longrightarrow> rcr_spec c (d :: 'a::len word) st (d, st)"
proof -
  assume c: "c mod Suc LENGTH('a) = 0"
  have "(j + c) mod Suc LENGTH('a) = j" if "j \<le> LENGTH('a)" for j
    using c that by (metis add_0_right mod_add_right_eq less_Suc_eq_le mod_less)
  then show ?thesis by (simp add: rcr_spec_def)
qed

lemma bit_test: "of_bool b \<noteq> (0 :: u32) \<longleftrightarrow> b" "drop_bit k x AND (1 :: u32) = of_bool (bit x k)"
  by (simp_all add: and_one bit_simps)

lemma mask_consts: "(0xff :: u32) = mask 8" "(0xffff :: u32) = mask 16" "(0xffffffff :: u32) = mask 32"
  by (simp_all add: mask_eq_exp_minus_1)

lemma rcl_byte_spec: "rcl_spec (unat s) d st (rcl_byte d s st)"
proof (cases "unat s mod 9 = 0")
  case False
  have "unat s mod 9 < 9" by simp
  with False show ?thesis
    unfolding rcl_byte_def Let_def mask_consts if_P[OF False]
    by (intro rcl_contract[where W = 8 and V = 9]) (auto simp: and_one bit_simps)
qed (simp add: rcl_byte_def Let_def rcl_spec_zero ucast_up_down)

lemma rcl_word_spec: "rcl_spec (unat s) d st (rcl_word d s st)"
proof (cases "unat s mod 17 = 0")
  case False
  have "unat s mod 17 < 17" by simp
  with False show ?thesis
    unfolding rcl_word_def Let_def mask_consts if_P[OF False]
    by (intro rcl_contract[where W = 16 and V = 17]) (auto simp: and_one bit_simps)
qed (simp add: rcl_word_def Let_def rcl_spec_zero ucast_up_down)

lemma rcr_byte_spec: "rcr_spec (unat s) d st (rcr_byte d s st)"
proof (cases "unat s mod 9 = 0")
  case False
  have "unat s mod 9 < 9" by simp
  with False show ?thesis
    unfolding rcr_byte_def Let_def mask_consts if_P[OF False]
    by (intro rcr_contract[where W = 8 and V = 9]) (auto simp: and_one bit_simps)
qed (simp add: rcr_byte_def Let_def rcr_spec_zero ucast_up_down)

lemma rcr_word_spec: "rcr_spec (unat s) d st (rcr_word d s st)"
proof (cases "unat s mod 17 = 0")
  case False
  have "unat s mod 17 < 17" by simp
  with False show ?thesis
    unfolding rcr_word_def Let_def mask_consts if_P[OF False]
    by (intro rcr_contract[where W = 16 and V = 17]) (auto simp: and_one bit_simps)
qed (simp add: rcr_word_def Let_def rcr_spec_zero ucast_up_down)

lemma rcl_long_spec:
  "if unat s mod 33 = 1 then rcl_long d s st = None
   else \<exists>out. rcl_long d s st = Some out \<and> rcl_spec (unat s) d st out"
proof (cases "unat s mod 33 = 0")
  case False
  have less: "unat s mod 33 < 33" by simp
  show ?thesis
  proof (cases "unat s mod 33 = 1")
    case True
    then show ?thesis by (simp add: rcl_long_def c_shr_def Let_def)
  next
    case nonone: False
    then have lt: "33 - unat s mod 33 < 32" using False by simp
    show ?thesis
      unfolding if_not_P[OF nonone] rcl_long_def Let_def mask_consts if_P[OF False] c_shr_def if_P[OF lt]
        Option.bind.bind_lunit
      by (intro exI conjI, rule refl,
          rule rcl_contract[where W = 32 and V = 33 and d = d, unfolded ucast_id])
        (use less False in \<open>auto simp: and_one bit_simps\<close>)
  qed
qed (simp add: rcl_long_def Let_def rcl_spec_zero)

lemma rcr_long_spec:
  "if unat s mod 33 = 32 then rcr_long d s st = None
   else \<exists>out. rcr_long d s st = Some out \<and> rcr_spec (unat s) d st out"
proof (cases "unat s mod 33 = 0")
  case False
  have less: "unat s mod 33 < 33" by simp
  show ?thesis
  proof (cases "unat s mod 33 = 32")
    case True
    then show ?thesis by (simp add: rcr_long_def c_shr_def Let_def)
  next
    case nonone: False
    then have lt: "unat s mod 33 < 32" using less by linarith
    have one: "(if unat s mod 33 \<noteq> 1 then r OR push_bit (33 - unat s mod 33) d else r)
        = r OR push_bit (33 - unat s mod 33) d" for r
      by (auto intro!: bit_word_eqI simp: bit_simps)
    show ?thesis
      unfolding if_not_P[OF nonone] rcr_long_def Let_def one if_P[OF False] c_shr_def if_P[OF lt]
        Option.bind.bind_lunit
      by (intro exI conjI, rule refl,
          rule rcr_contract[where W = 32 and V = 33 and d = d, unfolded ucast_id])
        (use less False in \<open>auto simp: and_one bit_simps\<close>)
  qed
qed (simp add: rcr_long_def Let_def rcr_spec_zero)

lemma ring_eq:
  fixes a b :: "'a::len word"
  assumes "\<And>j. j \<le> LENGTH('a) \<Longrightarrow> ring_bit c a j = ring_bit c' b j"
  shows "a = b" "c = c'"
proof -
  show "c = c'" using assms[of "LENGTH('a)"] by (simp add: ring_bit_def)
  show "a = b"
  proof (rule bit_word_eqI)
    fix n assume "n < LENGTH('a)"
    then show "bit a n = bit b n" using assms[of n] by (simp add: ring_bit_def)
  qed
qed

text \<open>Rotating right by the same distance undoes a rotation left, carry included.\<close>

lemma rcr_undoes_rcl:
  fixes d :: "'a::len word"
  assumes l: "rcl_spec n d st out" and r: "rcr_spec n (fst out) (snd out) out'"
  shows "fst out' = d \<and> ACCESS_FLAG F_CF (snd out') = ACCESS_FLAG F_CF st"
proof -
  have "ring_bit (ACCESS_FLAG F_CF (snd out')) (fst out') j = ring_bit (ACCESS_FLAG F_CF st) d j" if j: "j \<le> LENGTH('a)" for j
  proof -
    let ?V = "Suc LENGTH('a)"
    have k: "(j + n) mod ?V \<le> LENGTH('a)" by (simp add: less_Suc_eq_le flip: less_Suc_eq_le)
    have "((j + n) mod ?V + (?V - n mod ?V)) mod ?V = (j + n mod ?V + (?V - n mod ?V)) mod ?V"
      by (metis mod_add_left_eq mod_add_right_eq)
    also have "j + n mod ?V + (?V - n mod ?V) = j + ?V"
      using mod_less_divisor[of ?V n] by linarith
    also have "(j + ?V) mod ?V = j" using j by (simp only: mod_add_self2 mod_less less_Suc_eq_le)
    finally show ?thesis using l r k j by (simp add: rcl_spec_def rcr_spec_def)
  qed
  from ring_eq[OF this] show ?thesis by simp
qed

end
