(* ===== verification/X86ShiftSpec.thy ===== *)
theory X86ShiftSpec
  imports X86Rotate
begin

unbundle bit_operations_syntax

text \<open>
  What the shifts of \<open>prim_ops.c\<close> compute: the shifted operand, the bit shifted out last in CF and
  the flags of the result, for every distance, and the distances for which the C code has no
  defined result.
\<close>

section \<open>Contracts\<close>

text \<open>
  \<open>shift_spec n res cf ov\<close>: a shift by \<open>n\<close> with result \<open>res\<close>, last bit out \<open>cf\<close> and, for a distance
  of one, signed overflow \<open>ov\<close>. A distance of zero leaves all flags but OF, which every shift clears.
\<close>

definition shift_spec ::
  "nat \<Rightarrow> 'a::len word \<Rightarrow> bool \<Rightarrow> bool \<Rightarrow> x86_regs \<Rightarrow> 'a word \<times> x86_regs \<Rightarrow> bool" where
  "shift_spec n res cf ov st out \<longleftrightarrow>
     fst out = res
     \<and> (n = 0 \<longrightarrow> flags_frame 0x800 st (snd out))
     \<and> (0 < n \<longrightarrow> (ACCESS_FLAG F_CF (snd out) \<longleftrightarrow> cf) \<and> result_flags res (snd out)
          \<and> flags_frame 0x8C5 st (snd out))
     \<and> (ACCESS_FLAG F_OF (snd out) \<longleftrightarrow> n = 1 \<and> ov)"

text \<open>The flags the code leaves when everything is shifted out.\<close>

definition shifted_out :: "bool \<Rightarrow> bool \<Rightarrow> x86_regs \<Rightarrow> 'a::len word \<times> x86_regs \<Rightarrow> bool" where
  "shifted_out cf pf st out \<longleftrightarrow>
     fst out = 0 \<and> (ACCESS_FLAG F_CF (snd out) \<longleftrightarrow> cf) \<and> (ACCESS_FLAG F_PF (snd out) \<longleftrightarrow> pf)
     \<and> ACCESS_FLAG F_ZF (snd out) \<and> \<not> ACCESS_FLAG F_SF (snd out) \<and> \<not> ACCESS_FLAG F_OF (snd out)
     \<and> flags_frame 0x8C5 st (snd out)"

lemma shift_zero: "shift_spec 0 d cf ov st (d, CLEAR_FLAG F_OF st)"
  by (simp add: shift_spec_def flag_simps)

lemma shift_contract:
  fixes R :: u32
  assumes w: "8 \<le> LENGTH('a::len)" "LENGTH('a) \<le> 32"
    and n: "0 < n" "m = n" and R: "ucast R = (res :: 'a word)"
    and sf: "sf \<longleftrightarrow> bit R (LENGTH('a) - 1)" and zf: "zf \<longleftrightarrow> R AND mask LENGTH('a) = 0" and cf: "cf' \<longleftrightarrow> cf"
    and ov: "n = 1 \<Longrightarrow> ov' \<longleftrightarrow> ov"
  shows "shift_spec n res cf ov st
    (ucast R, if m = 1
       then CONDITIONAL_SET_FLAG ov' F_OF (CONDITIONAL_SET_FLAG (PARITY (R AND 0xff)) F_PF
              (CONDITIONAL_SET_FLAG sf F_SF (CONDITIONAL_SET_FLAG zf F_ZF (CONDITIONAL_SET_FLAG cf' F_CF st))))
       else CLEAR_FLAG F_OF (CONDITIONAL_SET_FLAG (PARITY (R AND 0xff)) F_PF
              (CONDITIONAL_SET_FLAG sf F_SF (CONDITIONAL_SET_FLAG zf F_ZF (CONDITIONAL_SET_FLAG cf' F_CF st)))))"
  using result_bridge[OF w, of R] n ov
  by (auto simp: shift_spec_def result_flags_def flag_simps sf zf cf R)

lemma and_bit: "n < 32 \<Longrightarrow> (x :: u32) AND push_bit n 1 \<noteq> 0 \<longleftrightarrow> bit x n"
  by (rule and_push_bit_nonzero) simp

lemmas shift_bits = and_one_bit and_exp_bit mask_test and_sign flag_simps mask_consts bit_simps

lemma XOR2_at:
  "XOR2 (drop_bit 6 x) \<longleftrightarrow> bit x 6 \<noteq> bit x 7" "XOR2 (drop_bit 14 x) \<longleftrightarrow> bit x 14 \<noteq> bit x 15"
  "XOR2 (drop_bit 30 x) \<longleftrightarrow> bit x 30 \<noteq> bit x 31"
  using XOR2_bits[of 6 x] XOR2_bits[of 14 x] XOR2_bits[of 30 x] by simp_all

section \<open>Each shift\<close>

text \<open>
  \<open>fault_spec w n\<close>: the outcome of a shift whose C code is defined for distances up to 32 only:
  below the width it is the contract \<open>small\<close>, up to 32 everything is shifted out, beyond there
  is no result.
\<close>

definition fault_spec ::
  "nat \<Rightarrow> nat \<Rightarrow> ('a::len word \<times> x86_regs \<Rightarrow> bool) \<Rightarrow> bool \<Rightarrow> x86_regs \<Rightarrow> ('a word \<times> x86_regs) option \<Rightarrow> bool"
  where
  "fault_spec w n small cf st r \<longleftrightarrow>
     (case r of None \<Rightarrow> 32 < n
      | Some out \<Rightarrow> n \<le> 32 \<and> (if n < w then small out else shifted_out cf True st out))"

lemma shl_byte_spec:
  "fault_spec 8 (unat s) (shift_spec (unat s) (push_bit (unat s) d) (bit d (8 - unat s)) (bit d 7 \<noteq> bit d 6) st) (unat s = 8 \<and> bit d 0) st (shl_byte d s st)"
proof (cases "unat s < 8")
  case less: True
  have n: "unat s mod 8 = unat s" using less by simp
  show ?thesis
  proof (cases "0 < unat s")
    case True
    show ?thesis
      unfolding shl_byte_def Let_def if_P[OF less] n if_P[OF True] prod.case XOR2_at fault_spec_def option.case
      by (intro conjI, use less in simp, rule shift_contract[where 'a = 8])
        (use True less in \<open>auto simp: shift_bits intro!: bit_word_eqI simp del: push_bit_Suc
           dest: bit_imp_le_length\<close>)
  qed (simp add: shl_byte_def Let_def shift_zero fault_spec_def ucast_up_down)
next
  case False
  then show ?thesis
    by (auto simp: fault_spec_def shifted_out_def shl_byte_def Let_def c_shl_def shift_bits
        simp del: push_bit_Suc)
qed

lemma shl_word_spec:
  "fault_spec 16 (unat s) (shift_spec (unat s) (push_bit (unat s) d) (bit d (16 - unat s)) (bit d 15 \<noteq> bit d 14) st) (unat s = 16 \<and> bit d 0) st (shl_word d s st)"
proof (cases "unat s < 16")
  case less: True
  have n: "unat s mod 16 = unat s" using less by simp
  show ?thesis
  proof (cases "0 < unat s")
    case True
    show ?thesis
      unfolding shl_word_def Let_def if_P[OF less] n if_P[OF True] prod.case XOR2_at fault_spec_def option.case
      by (intro conjI, use less in simp, rule shift_contract[where 'a = 16])
        (use True less in \<open>auto simp: shift_bits intro!: bit_word_eqI simp del: push_bit_Suc
           dest: bit_imp_le_length\<close>)
  qed (simp add: shl_word_def Let_def shift_zero fault_spec_def ucast_up_down)
next
  case False
  then show ?thesis
    by (auto simp: fault_spec_def shifted_out_def shl_word_def Let_def c_shl_def shift_bits
        simp del: push_bit_Suc)
qed

lemma shl_long_spec:
  "fault_spec 32 (unat s) (shift_spec (unat s) (push_bit (unat s) d) (bit d (32 - unat s)) (bit d 31 \<noteq> bit d 30) st) (unat s = 32 \<and> bit d 0) st (shl_long d s st)"
proof (cases "unat s < 32")
  case less: True
  have n: "unat s mod 32 = unat s" using less by simp
  show ?thesis
  proof (cases "0 < unat s")
    case True
    show ?thesis
      unfolding shl_long_def Let_def if_P[OF less] n if_P[OF True] prod.case XOR2_at fault_spec_def option.case
      by (intro conjI, use less in simp, rule shift_contract[where 'a = 32, unfolded ucast_id])
        (use True less in \<open>auto simp: shift_bits intro!: bit_word_eqI simp del: push_bit_Suc
           dest: bit_imp_le_length\<close>)
  qed (simp add: shl_long_def Let_def shift_zero fault_spec_def )
next
  case False
  then show ?thesis
    by (auto simp: fault_spec_def shifted_out_def shl_long_def Let_def c_shl_def shift_bits
        simp del: push_bit_Suc)
qed

lemma shld_word_spec:
  "fault_spec 16 (unat s) (shift_spec (unat s) (push_bit (unat s) d OR drop_bit (16 - unat s) fill) (bit d (16 - unat s)) (bit d 15 \<noteq> bit d 14) st) (unat s = 16 \<and> bit d 0) st (shld_word d fill s st)"
proof (cases "unat s < 16")
  case less: True
  have n: "unat s mod 16 = unat s" using less by simp
  show ?thesis
  proof (cases "0 < unat s")
    case True
    show ?thesis
      unfolding shld_word_def Let_def if_P[OF less] n if_P[OF True] prod.case XOR2_at fault_spec_def option.case
      by (intro conjI, use less in simp, rule shift_contract[where 'a = 16])
        (use True less in \<open>auto simp: shift_bits intro!: bit_word_eqI simp del: push_bit_Suc
           dest: bit_imp_le_length\<close>)
  qed (simp add: shld_word_def Let_def shift_zero fault_spec_def ucast_up_down)
next
  case False
  then show ?thesis
    by (auto simp: fault_spec_def shifted_out_def shld_word_def Let_def c_shl_def shift_bits
        simp del: push_bit_Suc)
qed

lemma shld_long_spec:
  "fault_spec 32 (unat s) (shift_spec (unat s) (push_bit (unat s) d OR drop_bit (32 - unat s) fill) (bit d (32 - unat s)) (bit d 31 \<noteq> bit d 30) st) (unat s = 32 \<and> bit d 0) st (shld_long d fill s st)"
proof (cases "unat s < 32")
  case less: True
  have n: "unat s mod 32 = unat s" using less by simp
  show ?thesis
  proof (cases "0 < unat s")
    case True
    show ?thesis
      unfolding shld_long_def Let_def if_P[OF less] n if_P[OF True] prod.case XOR2_at fault_spec_def option.case
      by (intro conjI, use less in simp, rule shift_contract[where 'a = 32, unfolded ucast_id])
        (use True less in \<open>auto simp: shift_bits intro!: bit_word_eqI simp del: push_bit_Suc
           dest: bit_imp_le_length\<close>)
  qed (simp add: shld_long_def Let_def shift_zero fault_spec_def )
next
  case False
  then show ?thesis
    by (auto simp: fault_spec_def shifted_out_def shld_long_def Let_def c_shl_def shift_bits
        simp del: push_bit_Suc)
qed

lemma shr_byte_spec:
  "fault_spec 8 (unat s) (shift_spec (unat s) (drop_bit (unat s) d) (bit d (unat s - 1)) (bit d 7) st) (bit d (unat s - 1)) st (shr_byte d s st)"
proof (cases "unat s < 8")
  case less: True
  have n: "unat s mod 8 = unat s" using less by simp
  show ?thesis
  proof (cases "0 < unat s")
    case True
    show ?thesis
      unfolding shr_byte_def Let_def if_P[OF less] n if_P[OF True] prod.case XOR2_at fault_spec_def option.case
      by (intro conjI, use less in simp, rule shift_contract[where 'a = 8])
        (use True less in \<open>auto simp: shift_bits intro!: bit_word_eqI simp del: push_bit_Suc
           dest: bit_imp_le_length\<close>)
  qed (simp add: shr_byte_def Let_def shift_zero fault_spec_def ucast_up_down)
next
  case False
  then show ?thesis
    by (auto simp: fault_spec_def shifted_out_def shr_byte_def Let_def c_shr_def shift_bits
        simp del: push_bit_Suc)
qed

lemma shr_word_spec:
  "if unat s < 16 then shift_spec (unat s) (drop_bit (unat s) d) (bit d (unat s - 1)) (bit d 15) st (shr_word d s st)
   else shifted_out False False st (shr_word d s st)"
proof (cases "unat s < 16")
  case less: True
  have n: "unat s mod 16 = unat s" using less by simp
  show ?thesis
  proof (cases "0 < unat s")
    case True
    show ?thesis
      unfolding shr_word_def Let_def if_P[OF less] n if_P[OF True] prod.case XOR2_at
      by (rule shift_contract[where 'a = 16])
        (use True less in \<open>auto simp: shift_bits intro!: bit_word_eqI simp del: push_bit_Suc
           dest: bit_imp_le_length\<close>)
  qed (simp add: shr_word_def Let_def shift_zero  ucast_up_down)
next
  case False
  then show ?thesis
    by (simp add: shifted_out_def shr_word_def Let_def flag_simps)
qed

lemma shr_long_spec:
  "if unat s < 32 then shift_spec (unat s) (drop_bit (unat s) d) (bit d (unat s - 1)) (bit d 31) st (shr_long d s st)
   else shifted_out False False st (shr_long d s st)"
proof (cases "unat s < 32")
  case less: True
  have n: "unat s mod 32 = unat s" using less by simp
  show ?thesis
  proof (cases "0 < unat s")
    case True
    show ?thesis
      unfolding shr_long_def Let_def if_P[OF less] n if_P[OF True] prod.case XOR2_at
      by (rule shift_contract[where 'a = 32, unfolded ucast_id])
        (use True less in \<open>auto simp: shift_bits intro!: bit_word_eqI simp del: push_bit_Suc
           dest: bit_imp_le_length\<close>)
  qed (simp add: shr_long_def Let_def shift_zero  )
next
  case False
  then show ?thesis
    by (simp add: shifted_out_def shr_long_def Let_def flag_simps)
qed

lemma shrd_word_spec:
  "if unat s < 16 then shift_spec (unat s) (drop_bit (unat s) d OR push_bit (16 - unat s) fill) (bit d (unat s - 1)) (bit d 15 \<noteq> bit fill 0) st (shrd_word d fill s st)
   else shifted_out False False st (shrd_word d fill s st)"
proof (cases "unat s < 16")
  case less: True
  have n: "unat s mod 16 = unat s" using less by simp
  show ?thesis
  proof (cases "0 < unat s")
    case True
    show ?thesis
      unfolding shrd_word_def Let_def if_P[OF less] n if_P[OF True] prod.case XOR2_at
      by (rule shift_contract[where 'a = 16])
        (use True less in \<open>auto simp: shift_bits intro!: bit_word_eqI simp del: push_bit_Suc
           dest: bit_imp_le_length\<close>)
  qed (simp add: shrd_word_def Let_def shift_zero  ucast_up_down)
next
  case False
  then show ?thesis
    by (simp add: shifted_out_def shrd_word_def Let_def flag_simps)
qed

lemma shrd_long_spec:
  "if unat s < 32 then shift_spec (unat s) (drop_bit (unat s) d OR push_bit (32 - unat s) fill) (bit d (unat s - 1)) (bit d 31 \<noteq> bit fill 0) st (shrd_long d fill s st)
   else shifted_out False False st (shrd_long d fill s st)"
proof (cases "unat s < 32")
  case less: True
  have n: "unat s mod 32 = unat s" using less by simp
  show ?thesis
  proof (cases "0 < unat s")
    case True
    show ?thesis
      unfolding shrd_long_def Let_def if_P[OF less] n if_P[OF True] prod.case XOR2_at
      by (rule shift_contract[where 'a = 32, unfolded ucast_id])
        (use True less in \<open>auto simp: shift_bits intro!: bit_word_eqI simp del: push_bit_Suc
           dest: bit_imp_le_length\<close>)
  qed (simp add: shrd_long_def Let_def shift_zero  )
next
  case False
  then show ?thesis
    by (simp add: shifted_out_def shrd_long_def Let_def flag_simps)
qed

section \<open>Arithmetic right shift\<close>

text \<open>The distance is taken modulo the width; OF is never written.\<close>

definition sar_spec :: "nat \<Rightarrow> 'a::len word \<Rightarrow> x86_regs \<Rightarrow> 'a word \<times> x86_regs \<Rightarrow> bool" where
  "sar_spec n d st out \<longleftrightarrow>
     sint (fst out) = sint d div 2 ^ n
     \<and> (n = 0 \<longrightarrow> snd out = st)
     \<and> (0 < n \<longrightarrow> (ACCESS_FLAG F_CF (snd out) \<longleftrightarrow> bit d (n - 1)) \<and> result_flags (fst out) (snd out)
          \<and> flags_frame 0xC5 st (snd out))"

lemma sar_bits:
  fixes d :: "'a::len word" and R :: u32
  assumes w: "LENGTH('a) \<le> 32" "0 < n" "n < LENGTH('a)"
    and R: "R = (if bit d (LENGTH('a) - 1)
      then (drop_bit n (ucast d) AND (push_bit (LENGTH('a) - n) 1 - 1)) OR NOT (push_bit (LENGTH('a) - n) 1 - 1)
      else drop_bit n (ucast d) AND (push_bit (LENGTH('a) - n) 1 - 1))"
  shows "ucast R = signed_drop_bit n d"
proof (rule bit_word_eqI)
  fix j assume j: "j < LENGTH('a)"
  then show "bit (ucast R :: 'a word) j = bit (signed_drop_bit n d) j"
    using w unfolding R exp_mask
    by (auto simp: bit_simps bit_signed_drop_bit_iff ac_simps dest: bit_imp_le_length)
qed

lemma sar_contract:
  fixes R :: u32 and d :: "'a::len word"
  assumes w: "8 \<le> LENGTH('a)" "LENGTH('a) \<le> 32" "0 < n"
    and R: "ucast R = signed_drop_bit n d"
    and flags: "cf \<longleftrightarrow> bit d (n - 1)" "zf \<longleftrightarrow> R AND mask LENGTH('a) = 0" "pf \<longleftrightarrow> PARITY (R AND 0xff)"
      "sf \<longleftrightarrow> bit R (LENGTH('a) - 1)"
    and st': "ACCESS_FLAG F_CF st' = cf" "ACCESS_FLAG F_ZF st' = zf" "ACCESS_FLAG F_PF st' = pf"
      "ACCESS_FLAG F_SF st' = sf" "flags_frame 0xC5 st st'"
  shows "sar_spec n d st (ucast R, st')"
proof -
  have "sint (signed_drop_bit n d) = sint d div 2 ^ n"
    by (simp add: sint_signed_drop_bit_eq flip: drop_bit_eq_div)
  then show ?thesis
    using result_bridge[OF w(1,2), of R] assms by (simp add: sar_spec_def result_flags_def)
qed

lemma sar_zero: "sar_spec 0 d st (d, st)"
  by (simp add: sar_spec_def)

lemma sar_byte_spec: "sar_spec (unat s mod 8) d st (sar_byte d s st)"
proof (cases "0 < unat s mod 8")
  case True
  then have pos: "0 < unat s mod 8 \<and> unat s mod 8 < 8" by simp
  show ?thesis
    unfolding sar_byte_def Let_def if_P[OF pos]
    by (rule sar_contract[where 'a = 8, OF _ _ True
          sar_bits[where 'a = 8, OF _ True]])
      (use pos in \<open>auto simp: shift_bits\<close>)
qed (simp add: sar_byte_def Let_def sar_zero ucast_up_down)

lemma sar_word_spec: "sar_spec (unat s mod 16) d st (sar_word d s st)"
proof (cases "0 < unat s mod 16")
  case True
  then have pos: "0 < unat s mod 16 \<and> unat s mod 16 < 16" by simp
  show ?thesis
    unfolding sar_word_def Let_def if_P[OF pos]
    by (rule sar_contract[where 'a = 16, OF _ _ True
          sar_bits[where 'a = 16, OF _ True]])
      (use pos in \<open>auto simp: shift_bits\<close>)
qed (simp add: sar_word_def Let_def sar_zero ucast_up_down)

lemma sar_long_spec: "sar_spec (unat s mod 32) d st (sar_long d s st)"
proof (cases "0 < unat s mod 32")
  case True
  then have pos: "0 < unat s mod 32 \<and> unat s mod 32 < 32" by simp
  show ?thesis
    unfolding sar_long_def Let_def if_P[OF pos]
    by (rule sar_contract[where 'a = 32, unfolded ucast_id, OF _ _ True
          sar_bits[where 'a = 32, unfolded ucast_id, OF _ True]])
      (use pos in \<open>auto simp: shift_bits\<close>)
qed (simp add: sar_long_def Let_def sar_zero )

section \<open>Properties\<close>

text \<open>
  ROL and ROR of any distance are the rotations of the operand at its width; unless the
  distance is zero CF is the bit that came around, for a distance of one OF is the exclusive or of
  the two highest bits (of the result and CF), and only CF and OF may change. ROR by the same
  distance undoes ROL.
\<close>

theorem rotates_exact:
  "rot_spec (unat s) (word_rotl (unat s) d8) 0 st (rol_byte d8 s st)
   \<and> rot_spec (unat s) (word_rotr (unat s) d8) 7 st (ror_byte d8 s st)
   \<and> rot_spec (unat s) (word_rotl (unat s) d16) 0 st (rol_word d16 s st)
   \<and> rot_spec (unat s) (word_rotr (unat s) d16) 15 st (ror_word d16 s st)
   \<and> rot_spec (unat s) (word_rotl (unat s) d32) 0 st (rol_long d32 s st)
   \<and> rot_spec (unat s) (word_rotr (unat s) d32) 31 st (ror_long d32 s st)
   \<and> fst (ror_long (fst (rol_long d32 s st)) s st') = d32"
proof (intro conjI rol_byte_spec ror_byte_spec rol_word_spec ror_word_spec rol_long_spec ror_long_spec)
  have "fst (rol_long d32 s st) = word_rotl (unat s) d32"
    using rol_long_spec[of s d32 st] by (simp add: rot_spec_def case_prod_beta)
  moreover have "fst (ror_long x s st') = word_rotr (unat s) x" for x
    using ror_long_spec[of s x st'] by (simp add: rot_spec_def case_prod_beta)
  ultimately show "fst (ror_long (fst (rol_long d32 s st)) s st') = d32"
    by simp
qed

text \<open>
  RCL and RCR rotate the operand extended by the carry flag, as one number of 9, 17 or 33
  bits, and RCR by the same distance undoes RCL, giving operand and carry back.
\<close>

theorem carry_rotates_roundtrip:
  "rcl_spec (unat s) d8 st (rcl_byte d8 s st) \<and> rcr_spec (unat s) d8 st (rcr_byte d8 s st)
   \<and> rcl_spec (unat s) d16 st (rcl_word d16 s st) \<and> rcr_spec (unat s) d16 st (rcr_word d16 s st)
   \<and> (case rcl_byte d8 s st of (r, st1) \<Rightarrow> case rcr_byte r s st1 of (d, st2) \<Rightarrow>
        d = d8 \<and> ACCESS_FLAG F_CF st2 = ACCESS_FLAG F_CF st)
   \<and> (case rcl_word d16 s st of (r, st1) \<Rightarrow> case rcr_word r s st1 of (d, st2) \<Rightarrow>
        d = d16 \<and> ACCESS_FLAG F_CF st2 = ACCESS_FLAG F_CF st)"
proof (intro conjI rcl_byte_spec rcr_byte_spec rcl_word_spec rcr_word_spec)
  show "case rcl_byte d8 s st of (r, st1) \<Rightarrow> case rcr_byte r s st1 of (d, st2) \<Rightarrow>
      d = d8 \<and> ACCESS_FLAG F_CF st2 = ACCESS_FLAG F_CF st"
    unfolding case_prod_beta
    by (rule rcr_undoes_rcl[OF rcl_byte_spec rcr_byte_spec])
  show "case rcl_word d16 s st of (r, st1) \<Rightarrow> case rcr_word r s st1 of (d, st2) \<Rightarrow>
      d = d16 \<and> ACCESS_FLAG F_CF st2 = ACCESS_FLAG F_CF st"
    unfolding case_prod_beta
    by (rule rcr_undoes_rcl[OF rcl_word_spec rcr_word_spec])
qed

text \<open>A shift that does not write OF keeps it.\<close>

lemma frame_bit:
  assumes "flags_frame m st st'" "NOT m AND f = f"
  shows "ACCESS_FLAG f st' = ACCESS_FLAG f st"
proof -
  have "R_FLG st' AND f = (R_FLG st' AND NOT m) AND f" by (metis and.assoc assms(2))
  also have "\<dots> = R_FLG st AND f" using assms(1) by (metis and.assoc assms(2) flags_frame_def)
  finally show ?thesis by (simp add: ACCESS_FLAG_def)
qed

lemma sar_keeps_OF:
  assumes "sar_spec n d st out"
  shows "ACCESS_FLAG F_OF (snd out) = ACCESS_FLAG F_OF st"
proof (cases "n = 0")
  case True
  with assms show ?thesis by (simp add: sar_spec_def)
next
  case False
  with assms have "flags_frame 0xC5 st (snd out)" by (simp add: sar_spec_def)
  then show ?thesis by (rule frame_bit) simp
qed

text \<open>
  C26. What the thirteen shifts compute, at every distance a byte can hold and without masking it.
  Below the width of the operand (\<open>shift_spec\<close>) the result is the shifted operand, for the double
  shifts filled from the other one, CF the last bit shifted out, ZF, SF and PF describe the
  result, OF is the change of sign for a distance of one and clear otherwise, and no other flag or
  register changes; a distance of zero clears OF and changes nothing else. From the width on the
  result is 0 with ZF set and SF and OF clear. SHL and SHLD and SHR of a byte (\<open>fault_spec\<close>) get there
  for distances up to 32, with CF the last bit that leaves and PF set, and execute an undefined
  shift, \<open>None\<close>, at every distance beyond 32. SHR of words and longs and SHRD are defined at every
  distance; from the width on they clear CF and also PF, although a zero result has even parity.
  SAR takes the distance modulo the width and divides by the power of two, rounding down, with CF,
  ZF, SF and PF as for the others (none written for a distance of zero); it never writes OF.
\<close>

theorem shifts_exact:
  "fault_spec 8 (unat s) (shift_spec (unat s) (push_bit (unat s) d8) (bit d8 (8 - unat s))
       (bit d8 7 \<noteq> bit d8 6) st) (unat s = 8 \<and> bit d8 0) st (shl_byte d8 s st)
   \<and> fault_spec 16 (unat s) (shift_spec (unat s) (push_bit (unat s) d16) (bit d16 (16 - unat s))
       (bit d16 15 \<noteq> bit d16 14) st) (unat s = 16 \<and> bit d16 0) st (shl_word d16 s st)
   \<and> fault_spec 32 (unat s) (shift_spec (unat s) (push_bit (unat s) d) (bit d (32 - unat s))
       (bit d 31 \<noteq> bit d 30) st) (unat s = 32 \<and> bit d 0) st (shl_long d s st)
   \<and> fault_spec 16 (unat s) (shift_spec (unat s) (push_bit (unat s) d16 OR drop_bit (16 - unat s) fill16)
       (bit d16 (16 - unat s)) (bit d16 15 \<noteq> bit d16 14) st) (unat s = 16 \<and> bit d16 0) st
       (shld_word d16 fill16 s st)
   \<and> fault_spec 32 (unat s) (shift_spec (unat s) (push_bit (unat s) d OR drop_bit (32 - unat s) fill)
       (bit d (32 - unat s)) (bit d 31 \<noteq> bit d 30) st) (unat s = 32 \<and> bit d 0) st (shld_long d fill s st)
   \<and> fault_spec 8 (unat s) (shift_spec (unat s) (drop_bit (unat s) d8) (bit d8 (unat s - 1)) (bit d8 7) st)
       (bit d8 (unat s - 1)) st (shr_byte d8 s st)
   \<and> (if unat s < 16
      then shift_spec (unat s) (drop_bit (unat s) d16) (bit d16 (unat s - 1)) (bit d16 15) st (shr_word d16 s st)
      else shifted_out False False st (shr_word d16 s st))
   \<and> (if unat s < 32
      then shift_spec (unat s) (drop_bit (unat s) d) (bit d (unat s - 1)) (bit d 31) st (shr_long d s st)
      else shifted_out False False st (shr_long d s st))
   \<and> (if unat s < 16
      then shift_spec (unat s) (drop_bit (unat s) d16 OR push_bit (16 - unat s) fill16) (bit d16 (unat s - 1))
             (bit d16 15 \<noteq> bit fill16 0) st (shrd_word d16 fill16 s st)
      else shifted_out False False st (shrd_word d16 fill16 s st))
   \<and> (if unat s < 32
      then shift_spec (unat s) (drop_bit (unat s) d OR push_bit (32 - unat s) fill) (bit d (unat s - 1))
             (bit d 31 \<noteq> bit fill 0) st (shrd_long d fill s st)
      else shifted_out False False st (shrd_long d fill s st))
   \<and> sar_spec (unat s mod 8) d8 st (sar_byte d8 s st) \<and> sar_spec (unat s mod 16) d16 st (sar_word d16 s st)
   \<and> sar_spec (unat s mod 32) d st (sar_long d s st)
   \<and> ACCESS_FLAG F_OF (snd (sar_byte d8 s st)) = ACCESS_FLAG F_OF st
   \<and> ACCESS_FLAG F_OF (snd (sar_word d16 s st)) = ACCESS_FLAG F_OF st
   \<and> ACCESS_FLAG F_OF (snd (sar_long d s st)) = ACCESS_FLAG F_OF st"
  by (intro conjI shl_byte_spec shl_word_spec shl_long_spec shld_word_spec shld_long_spec shr_byte_spec
      shr_word_spec shr_long_spec shrd_word_spec shrd_long_spec sar_byte_spec sar_word_spec sar_long_spec
      sar_keeps_OF[OF sar_byte_spec] sar_keeps_OF[OF sar_word_spec] sar_keeps_OF[OF sar_long_spec])

text \<open>
  The C code of the shifts is undefined exactly here: RCL of a long by a distance that is 1
  modulo 33 and RCR by one that is 32 modulo 33, and SHL, SHLD and SHR of a byte by more than 32;
  elsewhere it returns.
\<close>

theorem shift_fault_iff:
  "(rcl_long d s st = None \<longleftrightarrow> unat s mod 33 = 1) \<and> (rcr_long d s st = None \<longleftrightarrow> unat s mod 33 = 32)
   \<and> (shl_byte d8 s st = None \<longleftrightarrow> 32 < unat s) \<and> (shl_word d16 s st = None \<longleftrightarrow> 32 < unat s)
   \<and> (shl_long d s st = None \<longleftrightarrow> 32 < unat s) \<and> (shld_word d16 f16 s st = None \<longleftrightarrow> 32 < unat s)
   \<and> (shld_long d f s st = None \<longleftrightarrow> 32 < unat s) \<and> (shr_byte d8 s st = None \<longleftrightarrow> 32 < unat s)"
proof (intro conjI)
  show "rcl_long d s st = None \<longleftrightarrow> unat s mod 33 = 1"
    using rcl_long_spec[of s d st] by (auto split: if_splits)
  show "rcr_long d s st = None \<longleftrightarrow> unat s mod 33 = 32"
    using rcr_long_spec[of s d st] by (auto split: if_splits)
  have none: "fault_spec w n P cf st r \<Longrightarrow> r = None \<longleftrightarrow> 32 < n"
    for w n cf r and P :: "'a::len word \<times> x86_regs \<Rightarrow> bool"
    by (auto simp: fault_spec_def split: option.splits)
  show "shl_byte d8 s st = None \<longleftrightarrow> 32 < unat s" by (rule none[OF shl_byte_spec])
  show "shl_word d16 s st = None \<longleftrightarrow> 32 < unat s" by (rule none[OF shl_word_spec])
  show "shl_long d s st = None \<longleftrightarrow> 32 < unat s" by (rule none[OF shl_long_spec])
  show "shld_word d16 f16 s st = None \<longleftrightarrow> 32 < unat s" by (rule none[OF shld_word_spec])
  show "shld_long d f s st = None \<longleftrightarrow> 32 < unat s" by (rule none[OF shld_long_spec])
  show "shr_byte d8 s st = None \<longleftrightarrow> 32 < unat s" by (rule none[OF shr_byte_spec])
qed

end
