(* ===== verification/X86Mul.thy ===== *)
theory X86Mul
  imports X86Alu "HOL-Library.Signed_Division"
begin

unbundle bit_operations_syntax

text \<open>
  The multiplications and divisions of \<open>prim_ops.c\<close>. They read and write AX, DX and their longs in
  the register file; a division that fails raises interrupt 0 there instead. No build of the
  repository defines \<open>__HAS_LONG_LONG__\<close>, so the 64 bit operations are the fallbacks on 16 and 32
  bit parts. Signed products wrap around as compilers define it.
\<close>

section \<open>Raising an interrupt\<close>

definition INTR_SYNCH :: u32 where "INTR_SYNCH = 0x1"

definition x86emu_intr_raise :: "u8 \<Rightarrow> x86_regs \<Rightarrow> x86_regs" where
  "x86emu_intr_raise intrnum st = st\<lparr> x86_intno := intrnum, x86_intr := x86_intr st OR INTR_SYNCH \<rparr>"

section \<open>Multiplication\<close>

definition mul_byte :: "u8 \<Rightarrow> x86_regs \<Rightarrow> x86_regs" where
  "mul_byte s st =
     (let res = ucast (R_AL st) * ucast s :: u16;
          st = set_AX res st
      in if R_AH st = 0 then CLEAR_FLAG F_OF (CLEAR_FLAG F_CF st)
         else SET_FLAG F_OF (SET_FLAG F_CF st))"

definition mul_word :: "u16 \<Rightarrow> x86_regs \<Rightarrow> x86_regs" where
  "mul_word s st =
     (let res = ucast (R_AX st) * ucast s :: u32;
          st = set_AX (ucast res) st;
          st = set_DX (ucast (drop_bit 16 res)) st
      in if R_DX st = 0 then CLEAR_FLAG F_OF (CLEAR_FLAG F_CF st)
         else SET_FLAG F_OF (SET_FLAG F_CF st))"

definition mul_long :: "u32 \<Rightarrow> x86_regs \<Rightarrow> x86_regs" where
  "mul_long s st =
     (let a = R_EAX st;
          a_lo = a AND 0xFFFF;
          a_hi = drop_bit 16 a;
          s_lo = s AND 0xFFFF;
          s_hi = drop_bit 16 s;
          rlo_lo = a_lo * s_lo;
          rlo_hi = (a_hi * s_lo + a_lo * s_hi) + drop_bit 16 rlo_lo;
          rhi_lo = a_hi * s_hi + drop_bit 16 rlo_hi;
          st = st\<lparr> R_EAX := push_bit 16 rlo_hi OR (rlo_lo AND 0xFFFF) \<rparr>;
          st = st\<lparr> R_EDX := rhi_lo \<rparr>
      in if R_EDX st = 0 then CLEAR_FLAG F_OF (CLEAR_FLAG F_CF st)
         else SET_FLAG F_OF (SET_FLAG F_CF st))"

definition imul_byte :: "u8 \<Rightarrow> x86_regs \<Rightarrow> x86_regs" where
  "imul_byte s st =
     (let res = scast (R_AL st) * scast s :: u16;
          st = set_AX res st
      in if R_AL st AND 0x80 = 0 \<and> R_AH st = 0x00 \<or> R_AL st AND 0x80 \<noteq> 0 \<and> R_AH st = 0xFF
         then CLEAR_FLAG F_OF (CLEAR_FLAG F_CF st)
         else SET_FLAG F_OF (SET_FLAG F_CF st))"

definition imul_word :: "u16 \<Rightarrow> x86_regs \<Rightarrow> x86_regs" where
  "imul_word s st =
     (let res = scast (R_AX st) * scast s :: u32;
          st = set_AX (ucast res) st;
          st = set_DX (ucast (signed_drop_bit 16 res)) st
      in if R_AX st AND 0x8000 = 0 \<and> R_DX st = 0x00 \<or> R_AX st AND 0x8000 \<noteq> 0 \<and> R_DX st = 0xFF
         then CLEAR_FLAG F_OF (CLEAR_FLAG F_CF st)
         else SET_FLAG F_OF (SET_FLAG F_CF st))"

text \<open>The pair \<open>(*res_lo, *res_hi)\<close>.\<close>

definition imul_long_direct :: "u32 \<Rightarrow> u32 \<Rightarrow> u32 \<times> u32" where
  "imul_long_direct d s =
     (let d_sign = d AND 0x80000000;
          d = (if d_sign \<noteq> 0 then - d else d);
          d_lo = d AND 0xFFFF;
          d_hi = drop_bit 16 d;
          s_sign = s AND 0x80000000;
          s = (if s_sign \<noteq> 0 then - s else s);
          s_lo = s AND 0xFFFF;
          s_hi = drop_bit 16 s;
          rlo_lo = d_lo * s_lo;
          rlo_hi = (d_hi * s_lo + d_lo * s_hi) + drop_bit 16 rlo_lo;
          rhi_lo = d_hi * s_hi + drop_bit 16 rlo_hi;
          res_lo = push_bit 16 rlo_hi OR (rlo_lo AND 0xFFFF);
          res_hi = rhi_lo
      in if d_sign \<noteq> s_sign then
           let d = NOT res_lo;
               s = drop_bit 16 ((d AND 0xFFFF) + 1) + drop_bit 16 d;
               res_lo = NOT res_lo + 1;
               res_hi = NOT res_hi + drop_bit 16 s
           in (res_lo, res_hi)
         else (res_lo, res_hi))"

definition imul_long :: "u32 \<Rightarrow> x86_regs \<Rightarrow> x86_regs" where
  "imul_long s st =
     (let (res_lo, res_hi) = imul_long_direct (R_EAX st) s;
          st = st\<lparr> R_EAX := res_lo, R_EDX := res_hi \<rparr>
      in if R_EAX st AND 0x80000000 = 0 \<and> R_EDX st = 0x00 \<or> R_EAX st AND 0x80000000 \<noteq> 0 \<and> R_EDX st = 0xFF
         then CLEAR_FLAG F_OF (CLEAR_FLAG F_CF st)
         else SET_FLAG F_OF (SET_FLAG F_CF st))"

section \<open>Division\<close>

definition div_byte :: "u8 \<Rightarrow> x86_regs \<Rightarrow> x86_regs" where
  "div_byte s st =
     (let dividend = ucast (R_AX st) :: u32
      in if s = 0 then x86emu_intr_raise 0 st
         else
           let q = dividend div ucast s;
               r = dividend mod ucast s
           in if 0xff < q then x86emu_intr_raise 0 st
              else set_AH (ucast r) (set_AL (ucast q) st))"

definition div_word :: "u16 \<Rightarrow> x86_regs \<Rightarrow> x86_regs" where
  "div_word s st =
     (let dividend = push_bit 16 (ucast (R_DX st)) OR ucast (R_AX st) :: u32
      in if s = 0 then x86emu_intr_raise 0 st
         else
           let q = dividend div ucast s;
               r = dividend mod ucast s
           in if 0xffff < q then x86emu_intr_raise 0 st
              else
                let st = CLEAR_FLAG F_CF st;
                    st = CLEAR_FLAG F_SF st;
                    st = CONDITIONAL_SET_FLAG (q = 0) F_ZF st;
                    st = CONDITIONAL_SET_FLAG (PARITY (r AND 0xff)) F_PF st
                in set_DX (ucast r) (set_AX (ucast q) st))"

text \<open>
  One round of the loop of \<open>div_long\<close>, at the counter value \<open>counter\<close>, on \<open>div\<close>, \<open>h_dvd\<close>, \<open>l_dvd\<close>,
  \<open>h_s\<close>, \<open>l_s\<close>. The last round shifts by -1, which is undefined, but nothing reads the result:
  \<open>oob\<close> stands for it.
\<close>

definition div_long_round ::
  "u32 \<Rightarrow> u32 \<Rightarrow> nat \<Rightarrow> u32 \<times> u32 \<times> u32 \<times> u32 \<times> u32 \<Rightarrow> u32 \<times> u32 \<times> u32 \<times> u32 \<times> u32" where
  "div_long_round oob s counter = (\<lambda>(q, h_dvd, l_dvd, h_s, l_s).
     let q = push_bit 1 q;
         carry = (if l_s \<le> l_dvd then 0 else 1);
         next_l_s = (if counter = 0 then oob else push_bit (counter - 1) s)
     in if h_dvd < h_s + carry then (q, h_dvd, l_dvd, drop_bit 1 h_s, next_l_s)
        else (q OR 1, h_dvd - (h_s + carry),
              if carry \<noteq> 0 then (0xFFFFFFFF - l_s) + l_dvd + 1 else l_dvd - l_s,
              drop_bit 1 h_s, next_l_s))"

text \<open>\<open>do \<dots> while (counter > -1)\<close>, from a non-negative counter.\<close>

fun div_long_loop ::
  "u32 \<Rightarrow> u32 \<Rightarrow> nat \<Rightarrow> u32 \<times> u32 \<times> u32 \<times> u32 \<times> u32 \<Rightarrow> u32 \<times> u32 \<times> u32 \<times> u32 \<times> u32" where
  "div_long_loop oob s 0 x = div_long_round oob s 0 x"
| "div_long_loop oob s (Suc counter) x = div_long_loop oob s counter (div_long_round oob s (Suc counter) x)"

definition div_long :: "u32 \<Rightarrow> u32 \<Rightarrow> x86_regs \<Rightarrow> x86_regs" where
  "div_long oob s st =
     (if s = 0 then x86emu_intr_raise 0 st
      else case div_long_loop oob s 32 (0, R_EDX st, R_EAX st, s, 0) of (q, h_dvd, l_dvd, h_s, l_s) \<Rightarrow>
        if h_dvd \<noteq> 0 \<or> s < l_dvd then x86emu_intr_raise 0 st
        else
          let r = l_dvd;
              st = CLEAR_FLAG F_CF st;
              st = CLEAR_FLAG F_AF st;
              st = CLEAR_FLAG F_SF st;
              st = SET_FLAG F_ZF st;
              st = CONDITIONAL_SET_FLAG (PARITY (r AND 0xff)) F_PF st
          in st\<lparr> R_EAX := q, R_EDX := r \<rparr>)"

text \<open>Signed division of C truncates towards zero: \<open>sdiv\<close> and \<open>smod\<close> on numbers.\<close>

definition idiv_byte :: "u8 \<Rightarrow> x86_regs \<Rightarrow> x86_regs" where
  "idiv_byte s st =
     (let dividend = sint (R_AX st)
      in if s = 0 then x86emu_intr_raise 0 st
         else
           let q = dividend sdiv sint s;
               r = dividend smod sint s
           in if \<bar>q\<bar> > 0x7f then x86emu_intr_raise 0 st
              else set_AH (word_of_int r) (set_AL (word_of_int q) st))"

text \<open>The quotient of the least number by -1 does not fit an \<open>int\<close> and traps.\<close>

definition idiv_word :: "u16 \<Rightarrow> x86_regs \<Rightarrow> x86_regs option" where
  "idiv_word s st =
     (let dividend = sint (push_bit 16 (ucast (R_DX st)) OR ucast (R_AX st) :: u32)
      in if s = 0 then Some (x86emu_intr_raise 0 st)
         else if dividend = - (2 ^ 31) \<and> sint s = - 1 then None
         else
           let q = dividend sdiv sint s;
               r = dividend smod sint s
           in if \<bar>q\<bar> > 0x7fff then Some (x86emu_intr_raise 0 st)
              else
                let st = CLEAR_FLAG F_CF st;
                    st = CLEAR_FLAG F_SF st;
                    st = CONDITIONAL_SET_FLAG (q = 0) F_ZF st;
                    st = CONDITIONAL_SET_FLAG (PARITY (word_of_int r AND 0xff)) F_PF st
                in Some (set_DX (word_of_int r) (set_AX (word_of_int q) st)))"

text \<open>
  \<open>idiv_long\<close>: the loop starts at 31 and divides by \<open>abs_s\<close>; its rounds are those of \<open>div_long\<close> on
  \<open>abs_h_dvd\<close>.
\<close>

definition idiv_long :: "u32 \<Rightarrow> u32 \<Rightarrow> x86_regs \<Rightarrow> x86_regs" where
  "idiv_long oob s st =
     (let h_dvd = R_EDX st;
          abs_s = s AND 0x7FFFFFFF;
          abs_h_dvd = h_dvd AND 0x7FFFFFFF
      in if s = 0 then x86emu_intr_raise 0 st
         else case div_long_loop oob abs_s 31 (0, abs_h_dvd, R_EAX st, drop_bit 1 abs_s, push_bit 31 abs_s) of
           (q, abs_h_dvd, l_dvd, h_s, l_s) \<Rightarrow>
             if abs_h_dvd \<noteq> 0 \<or> abs_s < l_dvd then x86emu_intr_raise 0 st
             else
               let q = q OR ((h_dvd AND 0x10000000) XOR (s AND 0x10000000));
                   r = l_dvd;
                   st = CLEAR_FLAG F_CF st;
                   st = CLEAR_FLAG F_AF st;
                   st = CLEAR_FLAG F_SF st;
                   st = SET_FLAG F_ZF st;
                   st = CONDITIONAL_SET_FLAG (PARITY (r AND 0xff)) F_PF st
               in st\<lparr> R_EAX := q, R_EDX := r \<rparr>)"

end
