(* ===== verification/X86MulSpec.thy ===== *)
theory X86MulSpec
  imports X86Mul X86Arith
begin

unbundle bit_operations_syntax

text \<open>
  What the multiplications and divisions compute, on the numbers the registers stand for: exact
  products and quotients, the flags, the interrupt, and where the 64 bit fallback code differs.
\<close>

section \<open>Halves of a long\<close>

lemma unat_halves:
  fixes a :: u32
  shows "unat (a AND 0xFFFF) = unat a mod 65536" "unat (drop_bit 16 a) = unat a div 65536"
    "unat a div 65536 < 65536"
proof -
  show "unat (a AND 0xFFFF) = unat a mod 65536"
    by (simp add: byte_mask take_bit_eq_mod unat_mod_distrib flip: take_bit_eq_mask)
  show "unat (drop_bit 16 a) = unat a div 65536"
    by (simp add: drop_bit_eq_div unat_div_distrib)
  show "unat a div 65536 < 65536"
    using unsigned_less[of a, where ?'a = nat] by simp
qed

lemma unat_join:
  fixes x y :: u32
  shows "unat (push_bit 16 x OR (y AND 0xFFFF)) = unat x mod 65536 * 65536 + unat y mod 65536"
proof -
  have "push_bit 16 x AND (y AND 0xFFFF) = 0"
    by (rule bit_word_eqI) (auto simp: byte_mask bit_simps)
  then have "push_bit 16 x OR (y AND 0xFFFF) = push_bit 16 x + (y AND 0xFFFF)"
    by (simp add: disjunctive_add_eq_or)
  moreover have "unat (push_bit 16 x) = unat x mod 65536 * 65536"
  proof -
    have "unat (push_bit 16 x) = unat x * 65536 mod (65536 * 65536)"
      by (simp add: push_bit_eq_mult unat_word_ariths)
    then show ?thesis by (simp only: mod_mult_mult2)
  qed
  moreover have "unat x mod 65536 * 65536 + unat y mod 65536 < 2 ^ 32"
  proof -
    have "unat x mod 65536 \<le> 65535" "unat y mod 65536 \<le> 65535"
      using mod_less_divisor[of 65536 "unat x"] mod_less_divisor[of 65536 "unat y"] by simp_all
    then have "unat x mod 65536 * 65536 + unat y mod 65536 < 4294967296" by linarith
    then show ?thesis by simp
  qed
  ultimately show ?thesis by (simp add: unat_word_ariths unat_halves)
qed

text \<open>
  The schoolbook product of two longs on their halves, as the fallback code computes it. The sum of
  the two cross products is a long, whose carry is lost.
\<close>

definition halves_product :: "u32 \<Rightarrow> u32 \<Rightarrow> u32 \<times> u32" where
  "halves_product a s =
     (let rlo_lo = (a AND 0xFFFF) * (s AND 0xFFFF);
          rlo_hi = (drop_bit 16 a * (s AND 0xFFFF) + (a AND 0xFFFF) * drop_bit 16 s) + drop_bit 16 rlo_lo
      in (push_bit 16 rlo_hi OR (rlo_lo AND 0xFFFF), drop_bit 16 a * drop_bit 16 s + drop_bit 16 rlo_hi))"

definition cross_sum :: "u32 \<Rightarrow> u32 \<Rightarrow> nat" where
  "cross_sum a s = unat a div 65536 * (unat s mod 65536) + unat a mod 65536 * (unat s div 65536)
     + unat a mod 65536 * (unat s mod 65536) div 65536"

lemma product_bound: "x < 65536 \<Longrightarrow> y < 65536 \<Longrightarrow> x * y \<le> 65535 * (65535 :: nat)"
  by (rule mult_le_mono) simp_all

lemma cross_sum_bound: "cross_sum a s < 2 * 2 ^ 32"
proof -
  have "unat a div 65536 * (unat s mod 65536) \<le> 65535 * 65535"
    "unat a mod 65536 * (unat s div 65536) \<le> 65535 * 65535"
    "unat a mod 65536 * (unat s mod 65536) \<le> 65535 * 65535"
    by (intro product_bound; simp add: unat_halves)+
  moreover from div_le_mono[OF this(3), of 65536]
  have "unat a mod 65536 * (unat s mod 65536) div 65536 \<le> 65535" by simp
  ultimately have "cross_sum a s < 8589934592" unfolding cross_sum_def by linarith
  then show ?thesis by simp
qed

lemma halves_arith:
  fixes u B :: nat
  assumes "u * B + v = w" "p1 * B + p0 = A0 * S0" "w + B * B * c = A1 * S0 + A0 * S1 + p1"
  shows "(A1 * S1 + u) * (B * B) + (v * B + p0) + B * B * B * c = (A1 * B + A0) * (S1 * B + S0)"
proof -
  have "(w + B * B * c) * B = (A1 * S0 + A0 * S1 + p1) * B" using assms(3) by simp
  then show ?thesis using assms(2) unfolding assms(1)[symmetric] by (simp add: algebra_simps)
qed

lemma halves_product_exact:
  assumes "halves_product a s = (lo, hi)"
  shows "unat hi * 2 ^ 32 + unat lo + 2 ^ 48 * of_bool (2 ^ 32 \<le> cross_sum a s) = unat a * unat s"
proof -
  define A0 A1 S0 S1 where p: "A0 = unat a mod 65536" "A1 = unat a div 65536"
    "S0 = unat s mod 65536" "S1 = unat s div 65536"
  have b: "A0 < 65536" "A1 < 65536" "S0 < 65536" "S1 < 65536"
    by (simp_all add: p unat_halves)
  define P T where "P = A0 * S0" and "T = A1 * S0 + A0 * S1 + P div 65536"
  have T: "T = cross_sum a s" by (simp add: T_def P_def cross_sum_def p)
  have P: "P < 2 ^ 32" unfolding P_def using product_bound[OF b(1,3)] by simp
  define lolo where "lolo = (a AND 0xFFFF) * (s AND 0xFFFF)"
  define lohi where "lohi = (drop_bit 16 a * (s AND 0xFFFF) + (a AND 0xFFFF) * drop_bit 16 s) + drop_bit 16 lolo"
  have lolo: "unat lolo = P"
    using P by (simp add: lolo_def unat_word_ariths unat_halves P_def p)
  have lohi: "unat lohi = T mod 2 ^ 32"
    by (simp add: lohi_def unat_word_ariths unat_halves lolo T_def mod_simps flip: p)
  have out: "lo = push_bit 16 lohi OR (lolo AND 0xFFFF)" "hi = drop_bit 16 a * drop_bit 16 s + drop_bit 16 lohi"
    using assms by (simp_all add: halves_product_def Let_def lolo_def lohi_def)
  have lo: "unat lo = T mod 65536 * 65536 + P mod 65536"
    by (simp add: out unat_join lolo lohi mod_mod_cancel)
  have "A1 * S1 + T mod 2 ^ 32 div 65536 < 2 ^ 32"
  proof -
    have "T mod 2 ^ 32 div 65536 < 65536" by simp
    then show ?thesis using product_bound[OF b(2,4)] by simp
  qed
  then have hi: "unat hi = A1 * S1 + T mod 2 ^ 32 div 65536"
    by (simp add: out unat_word_ariths unat_halves lohi flip: p)
  have full: "unat a = A1 * 65536 + A0" "unat s = S1 * 65536 + S0" by (simp_all add: p)
  have "T < 2 * 2 ^ 32" using cross_sum_bound[of a s] by (simp add: T)
  then have split: "T mod 2 ^ 32 + 2 ^ 32 * of_bool (2 ^ 32 \<le> T) = T"
    by (cases "2 ^ 32 \<le> T") (simp_all add: le_mod_geq)
  have "T mod 2 ^ 32 div 65536 * 65536 + T mod 65536 = T mod 2 ^ 32"
    using div_mult_mod_eq[of "T mod 2 ^ 32" 65536] by (simp add: mod_mod_cancel)
  from halves_arith[OF this, of "P div 65536" "P mod 65536" A0 S0 "of_bool (2 ^ 32 \<le> T)" A1 S1]
  have "(A1 * S1 + T mod 2 ^ 32 div 65536) * 4294967296 + (T mod 65536 * 65536 + P mod 65536)
      + 281474976710656 * of_bool (2 ^ 32 \<le> T) = (A1 * 65536 + A0) * (S1 * 65536 + S0)"
    using split by (simp add: P_def T_def)
  then show ?thesis unfolding hi lo full T[symmetric] by simp
qed

section \<open>Signed numbers\<close>

lemma sint_nat:
  fixes x :: "'a::len word"
  assumes m: "LENGTH('a) = Suc m"
  shows "sint x = int (unat x) - (if unat x < 2 ^ m then 0 else 2 ^ Suc m)"
proof -
  obtain A where A: "A < 2 ^ m" "unat x = A + 2 ^ m * of_bool (bit x m)"
    "sint x = int A - int (2 ^ m) * of_bool (bit x m)"
    using word_parts[OF m] by metis
  then show ?thesis by (cases "bit x m") simp_all
qed

lemma sint_nat_8: "sint (x :: u8) = (if unat x < 128 then int (unat x) else int (unat x) - 256)"
  by (subst sint_nat[of 7]) simp_all

lemma sint_nat_16: "sint (x :: u16) = (if unat x < 32768 then int (unat x) else int (unat x) - 65536)"
  by (subst sint_nat[of 15]) simp_all

lemma sint_nat_32:
  "sint (x :: u32) = (if unat x < 2147483648 then int (unat x) else int (unat x) - 4294967296)"
  by (subst sint_nat[of 31]) simp_all

lemma scast_product:
  fixes a b :: "'a::len word"
  assumes "LENGTH('c::len) = 2 * LENGTH('a)"
  shows "sint (scast a * scast b :: 'c word) = sint a * sint b"
proof -
  obtain m where m: "LENGTH('a) = Suc m" by (metis len_not_eq_0 not0_implies_Suc)
  have ge: "- (2 ^ m) \<le> sint x" "sint x < 2 ^ m" for x :: "'a word"
    using sint_ge[of x] sint_lt[of x] by (simp_all add: m)
  have s: "\<bar>sint x\<bar> \<le> 2 ^ m" for x :: "'a word"
    using ge[of x] by linarith
  have c: "LENGTH('c) - 1 = 2 * m + 1" by (simp add: assms m)
  have pow: "(2 :: int) ^ m < 2 ^ (2 * m + 1)"
    by (rule power_strict_increasing) simp_all
  have up: "sint (scast x :: 'c word) = sint x" for x :: "'a word"
  proof -
    have "sint (scast x :: 'c word) = signed_take_bit (2 * m + 1) (sint x)"
      using c by (simp add: signed_scast_eq)
    also have "\<dots> = sint x"
      using ge[of x] pow by (intro signed_take_bit_int_eq_self) linarith+
    finally show ?thesis .
  qed
  have "\<bar>sint a * sint b\<bar> \<le> 2 ^ m * 2 ^ m"
    unfolding abs_mult by (intro mult_mono s) simp_all
  moreover have "(2 :: int) ^ m * 2 ^ m < 2 ^ (2 * m + 1)"
  proof -
    have "2 * m + 1 = Suc (m + m)" by simp
    then have "(2 :: int) ^ (2 * m + 1) = 2 * (2 ^ m * 2 ^ m)" by (simp only: power_Suc power_add)
    moreover have "0 < (2 :: int) ^ m * 2 ^ m" by simp
    ultimately show ?thesis by linarith
  qed
  ultimately have "- (2 ^ (2 * m + 1)) \<le> sint a * sint b" "sint a * sint b < 2 ^ (2 * m + 1)"
    by linarith+
  then show ?thesis unfolding sint_word_mult c up by (rule signed_take_bit_int_eq_self)
qed

section \<open>Multiplications\<close>

lemma low_high_x: "l_reg r = ucast (x_reg r)" "h_reg r = ucast (drop_bit 8 (x_reg r))"
  by (rule bit_word_eqI, auto simp: l_reg_def h_reg_def x_reg_def bit_simps)+

lemma x_reg_parts:
  "R_AX (set_AX v st) = v" "R_AX (set_DX v st) = R_AX st" "R_DX (set_DX v st) = v"
  "R_DX (set_AX v st) = R_DX st" "R_AL (set_AX v st) = ucast v" "R_AH (set_AX v st) = ucast (drop_bit 8 v)"
  by (simp_all add: R_AX_def R_DX_def R_AL_def R_AH_def set_AX_def set_DX_def low_high_x)

lemma word_zero_unat: "(x :: 'a::len word) = 0 \<longleftrightarrow> unat x = 0"
  by (simp add: unsigned_eq_0_iff)

lemma flag_regs:
  "R_EAX (SET_FLAG f st) = R_EAX st" "R_EAX (CLEAR_FLAG f st) = R_EAX st"
  "R_EDX (SET_FLAG f st) = R_EDX st" "R_EDX (CLEAR_FLAG f st) = R_EDX st"
  "R_AX (SET_FLAG f st) = R_AX st" "R_AX (CLEAR_FLAG f st) = R_AX st"
  "R_DX (SET_FLAG f st) = R_DX st" "R_DX (CLEAR_FLAG f st) = R_DX st"
  by (simp_all add: SET_FLAG_def CLEAR_FLAG_def R_AX_def R_DX_def)

lemma unat_split:
  fixes x :: u16 and y :: u32
  shows "unat (ucast x :: u8) = unat x mod 256" "unat (ucast (drop_bit 8 x) :: u8) = unat x div 256"
    "unat (ucast y :: u16) = unat y mod 65536" "unat (ucast (drop_bit 16 y) :: u16) = unat y div 65536"
proof -
  have "unat x div 256 < 256" "unat y div 65536 < 65536"
    using unsigned_less[of x, where ?'a = nat] unsigned_less[of y, where ?'a = nat] by simp_all
  then show "unat (ucast x :: u8) = unat x mod 256" "unat (ucast (drop_bit 8 x) :: u8) = unat x div 256"
    "unat (ucast y :: u16) = unat y mod 65536" "unat (ucast (drop_bit 16 y) :: u16) = unat y div 65536"
    by (simp_all add: unsigned_ucast_eq take_bit_eq_mod unat_div_distrib drop_bit_eq_div)
qed

lemma unat_up_product:
  fixes a b :: "'a::len word"
  assumes "LENGTH('c::len) = 2 * LENGTH('a)"
  shows "unat (ucast a * ucast b :: 'c word) = unat a * unat b"
proof -
  have up: "unat (ucast x :: 'c word) = unat x" for x :: "'a word"
  proof -
    have "unat x < 2 ^ LENGTH('c)"
      by (rule less_le_trans[OF unsigned_less]) (simp add: assms)
    then show ?thesis by (simp add: unsigned_ucast_eq take_bit_nat_eq_self)
  qed
  have "unat a * unat b < 2 ^ LENGTH('a) * 2 ^ LENGTH('a)"
    by (intro mult_strict_mono unsigned_less) simp_all
  then have "unat a * unat b < 2 ^ LENGTH('c)" by (simp add: assms mult_2 power_add)
  then show ?thesis by (simp add: unat_word_ariths up)
qed

lemma mul_byte_spec:
  "unat (R_AX (mul_byte s st)) = unat (R_AL st) * unat s"
  "ACCESS_FLAG F_CF (mul_byte s st) \<longleftrightarrow> 256 \<le> unat (R_AL st) * unat s"
  "ACCESS_FLAG F_OF (mul_byte s st) \<longleftrightarrow> 256 \<le> unat (R_AL st) * unat s"
proof -
  let ?p = "ucast (R_AL st) * ucast s :: u16"
  have p: "unat ?p = unat (R_AL st) * unat s" by (rule unat_up_product) simp
  have "ucast (drop_bit 8 ?p) = (0 :: u8) \<longleftrightarrow> unat (R_AL st) * unat s < 256"
    unfolding word_zero_unat unat_split(2) p by (simp add: div_eq_0_iff)
  then show "ACCESS_FLAG F_CF (mul_byte s st) \<longleftrightarrow> 256 \<le> unat (R_AL st) * unat s"
    "ACCESS_FLAG F_OF (mul_byte s st) \<longleftrightarrow> 256 \<le> unat (R_AL st) * unat s"
    by (auto simp: mul_byte_def Let_def x_reg_parts flag_simps)
  show "unat (R_AX (mul_byte s st)) = unat (R_AL st) * unat s"
    by (simp add: mul_byte_def Let_def flag_regs x_reg_parts p)
qed

lemma mul_word_spec:
  "unat (R_DX (mul_word s st)) * 65536 + unat (R_AX (mul_word s st)) = unat (R_AX st) * unat s"
  "ACCESS_FLAG F_CF (mul_word s st) \<longleftrightarrow> 65536 \<le> unat (R_AX st) * unat s"
  "ACCESS_FLAG F_OF (mul_word s st) \<longleftrightarrow> 65536 \<le> unat (R_AX st) * unat s"
proof -
  let ?p = "ucast (R_AX st) * ucast s :: u32"
  have p: "unat ?p = unat (R_AX st) * unat s" by (rule unat_up_product) simp
  have "ucast (drop_bit 16 ?p) = (0 :: u16) \<longleftrightarrow> unat (R_AX st) * unat s < 65536"
    unfolding word_zero_unat unat_split(4) p by (simp add: div_eq_0_iff)
  then show "ACCESS_FLAG F_CF (mul_word s st) \<longleftrightarrow> 65536 \<le> unat (R_AX st) * unat s"
    "ACCESS_FLAG F_OF (mul_word s st) \<longleftrightarrow> 65536 \<le> unat (R_AX st) * unat s"
    by (auto simp: mul_word_def Let_def x_reg_parts flag_simps)
  show "unat (R_DX (mul_word s st)) * 65536 + unat (R_AX (mul_word s st)) = unat (R_AX st) * unat s"
  proof -
    have "R_DX (mul_word s st) = ucast (drop_bit 16 ?p)" "R_AX (mul_word s st) = ucast ?p"
      by (simp_all add: mul_word_def Let_def flag_regs x_reg_parts)
    then show ?thesis by (simp only: unat_split(3)[of ?p] unat_split(4)[of ?p] p div_mult_mod_eq)
  qed
qed

lemma mul_long_spec:
  "unat (R_EDX (mul_long s st)) * 2 ^ 32 + unat (R_EAX (mul_long s st))
     + 2 ^ 48 * of_bool (2 ^ 32 \<le> cross_sum (R_EAX st) s) = unat (R_EAX st) * unat s"
proof -
  obtain lo hi where p: "halves_product (R_EAX st) s = (lo, hi)" by (cases "halves_product (R_EAX st) s")
  then have "R_EDX (mul_long s st) = hi" "R_EAX (mul_long s st) = lo"
    by (auto simp: mul_long_def halves_product_def Let_def flag_regs)
  then show ?thesis using halves_product_exact[OF p] by simp
qed

text \<open>The test of the code whether a product fits its low half.\<close>

lemma sign_bit_nat:
  "(x :: u8) AND 0x80 = 0 \<longleftrightarrow> unat x < 128" "(y :: u16) AND 0x8000 = 0 \<longleftrightarrow> unat y < 32768"
  "(z :: u32) AND 0x80000000 = 0 \<longleftrightarrow> unat z < 2147483648"
proof -
  have "sint x < 0 \<longleftrightarrow> bit x 7" "sint y < 0 \<longleftrightarrow> bit y 15" "sint z < 0 \<longleftrightarrow> bit z 31"
    by (simp_all add: sign_bit)
  moreover have "sint x < 0 \<longleftrightarrow> \<not> unat x < 128" "sint y < 0 \<longleftrightarrow> \<not> unat y < 32768"
    "sint z < 0 \<longleftrightarrow> \<not> unat z < 2147483648"
    unfolding sint_nat_8 sint_nat_16 sint_nat_32
    using unsigned_less[of x, where ?'a = nat] unsigned_less[of y, where ?'a = nat]
      unsigned_less[of z, where ?'a = nat] by (auto simp del: of_nat_unat)
  ultimately show "x AND 0x80 = 0 \<longleftrightarrow> unat x < 128" "y AND 0x8000 = 0 \<longleftrightarrow> unat y < 32768"
    "z AND 0x80000000 = 0 \<longleftrightarrow> unat z < 2147483648"
    unfolding and_bit_zero mask_test by blast+
qed

text \<open>The same test on the quotient \<open>q\<close> and remainder \<open>r\<close> of the product by its low half's range.\<close>

lemma low_half_8:
  fixes q r :: nat
  assumes "r < 256" "q < 256"
  shows "r < 128 \<and> q = 0 \<or> \<not> r < 128 \<and> q = 255
    \<longleftrightarrow> - 128 \<le> (if q * 256 + r < 32768 then int (q * 256 + r) else int (q * 256 + r) - 65536)
      \<and> (if q * 256 + r < 32768 then int (q * 256 + r) else int (q * 256 + r) - 65536) < 128"
  using assms by (cases "q * 256 + r < 32768") auto

lemma low_half_16:
  fixes q r :: nat
  assumes "r < 65536" "q < 65536"
    "p = (if q * 65536 + r < 2147483648 then int (q * 65536 + r) else int (q * 65536 + r) - 4294967296)"
  shows "r < 32768 \<and> q = 0 \<or> \<not> r < 32768 \<and> q = 255
      \<longleftrightarrow> 0 \<le> p \<and> p < 0x8000 \<or> 0xFF8000 \<le> p \<and> p \<le> 0xFFFFFF"
    and "(if q < 32768 then int q else int q - 65536) * 65536 + int r = p"
proof -
  show "(if q < 32768 then int q else int q - 65536) * 65536 + int r = p"
    using assms by (cases "q * 65536 + r < 2147483648") auto
  consider "q \<le> 254" | "q = 255" | "256 \<le> q" by linarith
  then show "r < 32768 \<and> q = 0 \<or> \<not> r < 32768 \<and> q = 255
      \<longleftrightarrow> 0 \<le> p \<and> p < 0x8000 \<or> 0xFF8000 \<le> p \<and> p \<le> 0xFFFFFF"
    using assms by cases (cases "q * 65536 + r < 2147483648"; auto)+
qed

lemma low_half_32:
  fixes q r :: nat
  assumes "r < 4294967296" "q < 4294967296"
    "p = (if q < 2147483648 then int q else int q - 4294967296) * 4294967296 + int r"
  shows "r < 2147483648 \<and> q = 0 \<or> \<not> r < 2147483648 \<and> q = 255
    \<longleftrightarrow> 0 \<le> p \<and> p < 0x80000000 \<or> 0xFF80000000 \<le> p \<and> p \<le> 0xFFFFFFFFFF"
proof -
  consider "q \<le> 254" | "q = 255" | "256 \<le> q" "q < 2147483648" | "2147483648 \<le> q" by linarith
  then show ?thesis using assms by cases auto
qed

lemma sign_extended_8:
  fixes x :: u16
  shows "(ucast x :: u8) AND 0x80 = 0 \<and> ucast (drop_bit 8 x) = (0x00 :: u8)
    \<or> (ucast x :: u8) AND 0x80 \<noteq> 0 \<and> ucast (drop_bit 8 x) = (0xFF :: u8) \<longleftrightarrow> fits_signed TYPE(8) (sint x)"
proof -
  have h: "ucast (drop_bit 8 x) = (0x00 :: u8) \<longleftrightarrow> unat x div 256 = 0"
    "ucast (drop_bit 8 x) = (0xFF :: u8) \<longleftrightarrow> unat x div 256 = 255"
    by (simp_all only: word_unat_eq_iff[of "ucast (drop_bit 8 x)"] unat_split(2)) simp_all
  have "unat x mod 256 < 256" "unat x div 256 < 256"
    using unsigned_less[of x, where ?'a = nat] by simp_all
  from low_half_8[OF this]
  show ?thesis unfolding h sign_bit_nat unat_split(1) sint_nat_16 fits_signed_def div_mult_mod_eq by simp
qed

lemma imul_byte_spec:
  "sint (R_AX (imul_byte s st)) = sint (R_AL st) * sint s"
  "ACCESS_FLAG F_CF (imul_byte s st) \<longleftrightarrow> \<not> fits_signed TYPE(8) (sint (R_AL st) * sint s)"
proof -
  let ?p = "scast (R_AL st) * scast s :: u16"
  have p: "sint ?p = sint (R_AL st) * sint s" by (rule scast_product) simp
  show "sint (R_AX (imul_byte s st)) = sint (R_AL st) * sint s"
    by (simp add: imul_byte_def Let_def flag_regs x_reg_parts p)
  show "ACCESS_FLAG F_CF (imul_byte s st) \<longleftrightarrow> \<not> fits_signed TYPE(8) (sint (R_AL st) * sint s)"
    unfolding imul_byte_def Let_def x_reg_parts sign_extended_8 p by (simp add: flag_simps)
qed

lemma imul_word_spec:
  fixes s :: u16 and st :: x86_regs
  defines "p \<equiv> sint (R_AX st) * sint s"
  shows "sint (R_DX (imul_word s st)) * 65536 + int (unat (R_AX (imul_word s st))) = p"
    "ACCESS_FLAG F_CF (imul_word s st) \<longleftrightarrow> \<not> (0 \<le> p \<and> p < 0x8000 \<or> 0xFF8000 \<le> p \<and> p \<le> 0xFFFFFF)"
proof -
  let ?p = "scast (R_AX st) * scast s :: u32"
  have p: "sint ?p = p" unfolding p_def by (rule scast_product) simp
  have hi: "ucast (signed_drop_bit 16 ?p) = (ucast (drop_bit 16 ?p) :: u16)"
    by (rule bit_word_eqI) (auto simp: bit_simps bit_signed_drop_bit_iff)
  have dx: "R_DX (imul_word s st) = ucast (drop_bit 16 ?p)" and ax: "R_AX (imul_word s st) = ucast ?p"
    by (simp_all add: imul_word_def Let_def flag_regs x_reg_parts hi)
  define q r where "q = unat ?p div 65536" and "r = unat ?p mod 65536"
  have n: "r < 65536" "q < 65536"
    using unsigned_less[of ?p, where ?'a = nat] by (simp_all add: q_def r_def)
  have "p = (if q * 65536 + r < 2147483648 then int (q * 65536 + r) else int (q * 65536 + r) - 4294967296)"
    unfolding p[symmetric] sint_nat_32 q_def r_def div_mult_mod_eq ..
  note half = low_half_16[OF n this]
  show "sint (R_DX (imul_word s st)) * 65536 + int (unat (R_AX (imul_word s st))) = p"
    using half(2) unfolding dx ax sint_nat_16 unat_split(3)[of ?p] unat_split(4)[of ?p] q_def r_def .
  have h: "ucast (drop_bit 16 ?p) = (0x00 :: u16) \<longleftrightarrow> q = 0"
    "ucast (drop_bit 16 ?p) = (0xFF :: u16) \<longleftrightarrow> q = 255"
    by (simp_all only: word_unat_eq_iff[of "ucast (drop_bit 16 ?p)"] unat_split(4) q_def) simp_all
  have "ACCESS_FLAG F_CF (imul_word s st) \<longleftrightarrow> \<not> (r < 32768 \<and> q = 0 \<or> \<not> r < 32768 \<and> q = 255)"
    unfolding imul_word_def Let_def x_reg_parts hi h sign_bit_nat unat_split(3) r_def[symmetric]
    by (simp add: flag_simps)
  then show "ACCESS_FLAG F_CF (imul_word s st)
    \<longleftrightarrow> \<not> (0 \<le> p \<and> p < 0x8000 \<or> 0xFF8000 \<le> p \<and> p \<le> 0xFFFFFF)"
    unfolding half(1) .
qed

text \<open>Negation of a number of two longs, as \<open>imul_long_direct\<close> does it.\<close>

definition neg_pair :: "u32 \<Rightarrow> u32 \<Rightarrow> u32 \<times> u32" where
  "neg_pair lo hi =
     (NOT lo + 1, NOT hi + drop_bit 16 (drop_bit 16 ((NOT lo AND 0xFFFF) + 1) + drop_bit 16 (NOT lo)))"

lemma unat_neg: "unat (- x) = (if x = 0 then 0 else 4294967296 - unat (x :: u32))"
  using unat_sub_if'[of 0 x] by (simp add: unsigned_eq_0_iff)

lemma unat_not: "unat (NOT x) = 4294967295 - unat (x :: u32)"
proof -
  have "x \<le> 0xFFFFFFFF" using unsigned_less[of x, where ?'a = nat] by (simp add: word_le_nat_alt)
  then have "unat (0xFFFFFFFF - x) = unat (0xFFFFFFFF :: u32) - unat x" by (rule unat_sub)
  moreover have "(0xFFFFFFFF :: u32) = - 1" by simp
  then have "NOT x = 0xFFFFFFFF - x" by (simp only: not_eq_complement minus_diff_commute)
  ultimately show ?thesis by simp
qed

lemma carry_of_negation:
  "drop_bit 16 (drop_bit 16 ((NOT lo AND 0xFFFF) + 1) + drop_bit 16 (NOT lo)) = (of_bool (lo = 0) :: u32)"
proof -
  define n where "n = unat (NOT lo)"
  have n: "n = 4294967295 - unat lo" "unat lo < 4294967296"
    using unsigned_less[of lo, where ?'a = nat] by (simp_all add: n_def unat_not)
  have "unat (drop_bit 16 (drop_bit 16 ((NOT lo AND 0xFFFF) + 1) + drop_bit 16 (NOT lo)))
      = ((n mod 65536 + 1) div 65536 + n div 65536) mod 4294967296 div 65536"
    by (simp add: unat_halves unat_word_ariths flip: n_def)
  also have "\<dots> = of_bool (n = 4294967295)"
  proof -
    have q: "n div 65536 \<le> 65535" using n by simp
    have r: "(n mod 65536 + 1) div 65536 = of_bool (n mod 65536 = 65535)"
      using mod_less_divisor[of 65536 n] by (cases "n mod 65536 = 65535") simp_all
    have "n mod 65536 = 65535 \<and> n div 65536 = 65535 \<longleftrightarrow> n = 4294967295"
    proof
      assume "n mod 65536 = 65535 \<and> n div 65536 = 65535"
      then show "n = 4294967295" using div_mult_mod_eq[of n 65536] by simp
    qed simp
    then show ?thesis using q unfolding r
      by (cases "n mod 65536 = 65535"; cases "n div 65536 = 65535") (auto simp: div_eq_0_iff)
  qed
  also have "n = 4294967295 \<longleftrightarrow> lo = 0"
    using n by (auto simp: word_zero_unat)
  finally show ?thesis by (simp add: word_unat_eq_iff)
qed

lemma neg_pair_exact:
  assumes "unat hi < 2147483648" "neg_pair lo hi = (lo', hi')"
  shows "sint hi' * 4294967296 + int (unat lo') = - (int (unat hi) * 4294967296 + int (unat lo))"
proof -
  have lo: "lo' = - lo" using assms(2) by (simp add: neg_pair_def minus_eq_not_plus_1)
  have hi: "hi' = NOT hi + of_bool (lo = 0)" using assms(2) by (simp add: neg_pair_def carry_of_negation)
  have "unat (NOT hi) = 4294967295 - unat hi"
    by (rule unat_not)
  moreover have "unat (- hi) = (if hi = 0 then 0 else 4294967296 - unat hi)" by (rule unat_neg)
  moreover have "lo = 0 \<Longrightarrow> hi' = - hi" "lo \<noteq> 0 \<Longrightarrow> hi' = NOT hi" by (simp_all add: hi minus_eq_not_plus_1)
  ultimately show ?thesis
    using assms(1) unat_neg[of lo] unsigned_less[of lo, where ?'a = nat] unfolding lo
    by (cases "lo = 0"; cases "hi = 0") (auto simp: sint_nat_32 of_nat_diff simp del: of_nat_unat)
qed

definition magnitude :: "u32 \<Rightarrow> u32" where
  "magnitude d = (if d AND 0x80000000 \<noteq> 0 then - d else d)"

lemma magnitude_sint: "int (unat (magnitude d)) = \<bar>sint d\<bar>" "unat (magnitude d) \<le> 2147483648"
proof -
  have d: "unat d < 4294967296" using unsigned_less[of d, where ?'a = nat] by simp
  show "int (unat (magnitude d)) = \<bar>sint d\<bar>" "unat (magnitude d) \<le> 2147483648"
    using d unfolding magnitude_def sign_bit_nat sint_nat_32 
    by (auto simp: unat_neg of_nat_diff simp del: of_nat_unat)
qed

lemma imul_long_direct_eq:
  "imul_long_direct d s =
     (case halves_product (magnitude d) (magnitude s) of (lo, hi) \<Rightarrow>
        if (sint d < 0) \<noteq> (sint s < 0) then neg_pair lo hi else (lo, hi))"
proof -
  have "sint x < 0 \<longleftrightarrow> x AND 0x80000000 = 0x80000000" "x AND 0x80000000 = 0 \<or> x AND 0x80000000 = 0x80000000"
    for x :: u32
    unfolding and_sign mask_test by (simp add: sign_bit, blast)
  from this(1) this(2)[of d] this(2)[of s] show ?thesis
    unfolding imul_long_direct_def halves_product_def neg_pair_def magnitude_def Let_def prod.case
    by (elim disjE) simp_all
qed

text \<open>The cross sum of two magnitudes fits a long.\<close>

lemma cross_sum_magnitudes:
  assumes "unat a \<le> 2147483648" "unat b \<le> 2147483648"
  shows "cross_sum a b < 4294967296"
proof -
  have half: "x div 65536 \<le> 32767 \<or> x div 65536 = 32768 \<and> x mod 65536 = 0" if "x \<le> 2147483648" for x :: nat
  proof (cases "x = 2147483648")
    case False
    then have "x div 65536 * 65536 < 2147483648" using that div_mult_mod_eq[of x 65536] by linarith
    then show ?thesis by linarith
  qed simp
  define A0 A1 B0 B1 where p: "A0 = unat a mod 65536" "A1 = unat a div 65536"
    "B0 = unat b mod 65536" "B1 = unat b div 65536"
  have low: "A0 \<le> 65535" "B0 \<le> 65535"
    using mod_less_divisor[of 65536 "unat a"] mod_less_divisor[of 65536 "unat b"] by (simp_all add: p)
  have h: "A1 \<le> 32767 \<or> A1 = 32768 \<and> A0 = 0" "B1 \<le> 32767 \<or> B1 = 32768 \<and> B0 = 0"
    using half[OF assms(1)] half[OF assms(2)] by (simp_all add: p)
  have "A0 * B0 \<le> 65535 * 65535" using low by (intro mult_le_mono)
  then have d: "A0 * B0 div 65536 \<le> 65534" using div_le_mono[of "A0 * B0" "65535 * 65535" 65536] by simp
  have "A1 * B0 + A0 * B1 \<le> 32767 * 65535 + 65535 * 32767 \<or> A0 = 0 \<and> A1 * B0 \<le> 32768 * 65535
      \<or> B0 = 0 \<and> A0 * B1 \<le> 65535 * 32768"
    using h
  proof (elim disjE)
    assume "A1 \<le> 32767" "B1 \<le> 32767"
    then have "A1 * B0 + A0 * B1 \<le> 32767 * 65535 + 65535 * 32767"
      using low by (intro add_mono mult_le_mono)
    then show ?thesis by (rule disjI1)
  qed (use low in \<open>auto intro!: mult_le_mono\<close>)
  then show ?thesis using d unfolding cross_sum_def by (auto simp flip: p)
qed

lemma imul_long_direct_exact:
  assumes "imul_long_direct d s = (lo, hi)"
  shows "sint hi * 4294967296 + int (unat lo) = sint d * sint s"
proof -
  obtain l h where p: "halves_product (magnitude d) (magnitude s) = (l, h)"
    by (cases "halves_product (magnitude d) (magnitude s)")
  note m = magnitude_sint(2)[of d] magnitude_sint(2)[of s]
  have "unat h * 4294967296 + unat l = unat (magnitude d) * unat (magnitude s)"
    using halves_product_exact[OF p] cross_sum_magnitudes[OF m] by simp
  then have "int (unat h * 4294967296 + unat l) = int (unat (magnitude d)) * int (unat (magnitude s))"
    by simp
  then have prod: "int (unat h) * 4294967296 + int (unat l) = \<bar>sint d\<bar> * \<bar>sint s\<bar>"
    unfolding magnitude_sint(1) by simp
  have "unat (magnitude d) * unat (magnitude s) \<le> 2147483648 * 2147483648"
    using m by (rule mult_le_mono)
  then have h: "unat h < 2147483648"
    using \<open>unat h * 4294967296 + unat l = _\<close> by linarith
  show ?thesis
  proof (cases "(sint d < 0) \<noteq> (sint s < 0)")
    case True
    then have "neg_pair l h = (lo, hi)" using assms by (simp add: imul_long_direct_eq p)
    from neg_pair_exact[OF h this] have "sint hi * 4294967296 + int (unat lo) = - (\<bar>sint d\<bar> * \<bar>sint s\<bar>)"
      using prod by simp
    then show ?thesis using True by (auto simp: abs_if)
  next
    case False
    then have "hi = h" "lo = l" using assms by (auto simp: imul_long_direct_eq p)
    moreover have "\<bar>sint d\<bar> * \<bar>sint s\<bar> = sint d * sint s"
      using False by (cases "sint d < 0") (simp_all add: abs_if)
    moreover have "sint h = int (unat h)" using h by (simp add: sint_nat_32 del: of_nat_unat)
    ultimately show ?thesis using prod by simp
  qed
qed

lemma imul_long_spec:
  fixes s :: u32 and st :: x86_regs
  defines "p \<equiv> sint (R_EAX st) * sint s"
  shows "sint (R_EDX (imul_long s st)) * 4294967296 + int (unat (R_EAX (imul_long s st))) = p"
    "ACCESS_FLAG F_CF (imul_long s st)
      \<longleftrightarrow> \<not> (0 \<le> p \<and> p < 0x80000000 \<or> 0xFF80000000 \<le> p \<and> p \<le> 0xFFFFFFFFFF)"
proof -
  obtain lo hi where d: "imul_long_direct (R_EAX st) s = (lo, hi)" by (cases "imul_long_direct (R_EAX st) s")
  have eq: "sint hi * 4294967296 + int (unat lo) = p"
    unfolding p_def by (rule imul_long_direct_exact[OF d])
  show "sint (R_EDX (imul_long s st)) * 4294967296 + int (unat (R_EAX (imul_long s st))) = p"
    using eq by (simp add: imul_long_def d Let_def flag_regs)
  have b: "unat lo < 4294967296" "unat hi < 4294967296"
    using unsigned_less[of lo, where ?'a = nat] unsigned_less[of hi, where ?'a = nat] by simp_all
  have h: "hi = 0x00 \<longleftrightarrow> unat hi = 0" "hi = 0xFF \<longleftrightarrow> unat hi = 255"
    by (simp_all add: word_unat_eq_iff)
  have "ACCESS_FLAG F_CF (imul_long s st)
      \<longleftrightarrow> \<not> (unat lo < 2147483648 \<and> unat hi = 0 \<or> \<not> unat lo < 2147483648 \<and> unat hi = 255)"
    by (simp add: imul_long_def d Let_def h sign_bit_nat flag_simps)
  moreover have "p = (if unat hi < 2147483648 then int (unat hi) else int (unat hi) - 4294967296) * 4294967296
      + int (unat lo)"
    using eq unfolding sint_nat_32 by (rule sym)
  ultimately show "ACCESS_FLAG F_CF (imul_long s st)
      \<longleftrightarrow> \<not> (0 \<le> p \<and> p < 0x80000000 \<or> 0xFF80000000 \<le> p \<and> p \<le> 0xFFFFFFFFFF)"
    using low_half_32[OF b, of p] by blast
qed

end
