(* ===== verification/X86DivSpec.thy ===== *)
theory X86DivSpec
  imports X86MulSpec
begin

unbundle bit_operations_syntax

text \<open>
  What the divisions compute. The quotient loop of \<open>div_long\<close> and \<open>idiv_long\<close> is shown to refine
  restoring division on numbers, for which the quotient has a closed form.
\<close>

section \<open>Restoring division\<close>

text \<open>
  One subtraction of \<open>2 ^ c * s\<close> per round: the state is the quotient so far and the rest.
\<close>

fun restoring :: "nat \<Rightarrow> nat \<Rightarrow> nat \<times> nat \<Rightarrow> nat \<times> nat" where
  "restoring s 0 (q, r) = (if s \<le> r then (2 * q + 1, r - s) else (2 * q, r))"
| "restoring s (Suc c) (q, r) =
     restoring s c (if 2 ^ Suc c * s \<le> r then (2 * q + 1, r - 2 ^ Suc c * s) else (2 * q, r))"

lemma restoring_closed:
  assumes "0 < s"
  shows "restoring s c (q, r)
    = (q * 2 ^ Suc c + min (r div s) (2 ^ Suc c - 1), r - min (r div s) (2 ^ Suc c - 1) * s)"
proof (induction c arbitrary: q r)
  case 0
  have "s \<le> r \<longleftrightarrow> 1 \<le> r div s" using assms by (simp add: Suc_le_eq div_greater_zero_iff)
  then show ?case by (auto simp: min_def)
next
  case (Suc c)
  let ?p = "2 ^ Suc c :: nat"
  show ?case
  proof (cases "?p * s \<le> r")
    case True
    then have ge: "?p \<le> r div s" using assms by (simp add: less_eq_div_iff_mult_less_eq)
    have "(r - ?p * s) div s = r div s - ?p"
      using assms True by (metis add_diff_cancel_left' div_mult_self3 le_add_diff_inverse less_not_refl mult.commute)
    moreover have M: "?p + min (r div s - ?p) (?p - 1) = min (r div s) (2 ^ Suc (Suc c) - 1)"
    proof -
      have p: "0 < ?p" and pp: "2 ^ Suc (Suc c) = 2 * ?p" by simp_all
      show ?thesis using ge p unfolding pp min_def by (auto split: if_splits)
    qed
    ultimately have "restoring s (Suc c) (q, r) =
        ((2 * q + 1) * ?p + min (r div s - ?p) (?p - 1), r - ?p * s - min (r div s - ?p) (?p - 1) * s)"
      using True Suc.IH[of "2 * q + 1" "r - ?p * s"] by (simp only: restoring.simps if_True)
    moreover have "(2 * q + 1) * ?p + m = q * 2 ^ Suc (Suc c) + (?p + m)" "r - ?p * s - m * s = r - (?p + m) * s" for m
      by (simp_all add: algebra_simps)
    ultimately show ?thesis by (simp only: M)
  next
    case False
    then have "r div s < ?p" using assms by (simp add: div_less_iff_less_mult)
    then have "min (r div s) (?p - 1) = r div s" "min (r div s) (2 ^ Suc (Suc c) - 1) = r div s"
      by (auto simp: min_def)
    then show ?thesis using False Suc.IH by simp
  qed
qed

section \<open>The loop of the code\<close>

text \<open>The divisor held in \<open>(h_s, l_s)\<close> at counter \<open>c\<close>.\<close>

definition divisor_at :: "u32 \<Rightarrow> nat \<Rightarrow> u32 \<Rightarrow> u32 \<Rightarrow> bool" where
  "divisor_at s c h_s l_s \<longleftrightarrow> unat h_s * 2 ^ 32 + unat l_s = unat s * 2 ^ c"

lemma u32_bound: "unat (x :: u32) \<le> 4294967295"
  using unsigned_less[of x, where ?'a = nat] by simp

lemma pair_less:
  fixes h l hs ls :: nat
  assumes "l \<le> 4294967295" "ls \<le> 4294967295"
  shows "hs * 4294967296 + ls \<le> h * 4294967296 + l \<longleftrightarrow> hs + (if ls \<le> l then 0 else 1) \<le> h"
  using assms by (cases "ls \<le> l") auto

text \<open>Comparison and subtraction of the two long numbers, with the borrow.\<close>

lemma round_arith:
  fixes h l hs ls :: u32
  assumes s: "unat hs * 4294967296 + unat ls \<le> 4294967295 * 4294967296"
  defines "carry \<equiv> (if ls \<le> l then 0 else 1)"
  shows "h < hs + carry \<longleftrightarrow> unat h * 4294967296 + unat l < unat hs * 4294967296 + unat ls"
    and "unat hs * 4294967296 + unat ls \<le> unat h * 4294967296 + unat l \<Longrightarrow>
      unat (h - (hs + carry)) * 4294967296
        + unat (if carry \<noteq> 0 then (0xFFFFFFFF - ls) + l + 1 else l - ls)
      = (unat h * 4294967296 + unat l) - (unat hs * 4294967296 + unat ls)"
proof -
  note b = u32_bound[of h] u32_bound[of l] u32_bound[of hs] u32_bound[of ls]
  have uc: "unat (hs + carry) = unat hs + (if unat ls \<le> unat l then 0 else 1)"
  proof (cases "ls \<le> l")
    case False
    then have "1 \<le> unat ls" by (simp add: word_le_nat_alt)
    then have "unat hs < 4294967295" using s b by linarith
    then show ?thesis using False by (simp add: carry_def unat_word_ariths word_le_nat_alt)
  qed (simp add: carry_def word_le_nat_alt)
  have ge: "unat hs * 4294967296 + unat ls \<le> unat h * 4294967296 + unat l \<longleftrightarrow> unat (hs + carry) \<le> unat h"
    unfolding uc by (rule pair_less) (use b in simp_all)
  then show "h < hs + carry \<longleftrightarrow> unat h * 4294967296 + unat l < unat hs * 4294967296 + unat ls"
    unfolding word_less_nat_alt by linarith
  assume "unat hs * 4294967296 + unat ls \<le> unat h * 4294967296 + unat l"
  then have le: "unat (hs + carry) \<le> unat h" using ge by simp
  have hi: "unat (h - (hs + carry)) = unat h - unat (hs + carry)"
    using le by (simp add: unat_sub word_le_nat_alt)
  show "unat (h - (hs + carry)) * 4294967296
        + unat (if carry \<noteq> 0 then (0xFFFFFFFF - ls) + l + 1 else l - ls)
      = (unat h * 4294967296 + unat l) - (unat hs * 4294967296 + unat ls)"
  proof (cases "ls \<le> l")
    case True
    then have "unat (l - ls) = unat l - unat ls" by (rule unat_sub)
    then show ?thesis using True le b uc unfolding hi
      by (simp add: carry_def word_le_nat_alt diff_mult_distrib)
  next
    case False
    then have gt: "unat l < unat ls" by (simp add: word_le_nat_alt)
    have "(- 1 - ls) + l + 1 = l - ls" by simp
    moreover have "(0xFFFFFFFF :: u32) = - 1" by simp
    ultimately have "(if carry \<noteq> 0 then (0xFFFFFFFF - ls) + l + 1 else l - ls) = l - ls"
      by (simp only: if_cancel)
    moreover have "unat (l - ls) = unat l + 4294967296 - unat ls"
      using gt by (simp add: unat_sub_if')
    ultimately have eq: "unat (if carry \<noteq> 0 then (0xFFFFFFFF - ls) + l + 1 else l - ls)
        = unat l + 4294967296 - unat ls" by (simp only:)
    show ?thesis using False le uc gt b unfolding hi eq
      by (simp add: carry_def diff_mult_distrib add_mult_distrib)
  qed
qed

text \<open>
  The states of the two loops correspond: the code's quotient is the low 32 bits of the number's,
  the long rest is the number, and the divisor is the one of the counter.
\<close>

definition loop_rel :: "u32 \<Rightarrow> nat \<Rightarrow> u32 \<times> u32 \<times> u32 \<times> u32 \<times> u32 \<Rightarrow> nat \<times> nat \<Rightarrow> bool" where
  "loop_rel s c x y \<longleftrightarrow> (case x of (q, h, l, h_s, l_s) \<Rightarrow>
     divisor_at s c h_s l_s \<and> unat q = fst y mod 2 ^ 32 \<and> unat h * 2 ^ 32 + unat l = snd y)"

lemma quotient_bit:
  fixes q :: u32
  assumes "unat q = n mod 4294967296"
  shows "unat (push_bit 1 q) = 2 * n mod 4294967296" "unat (push_bit 1 q OR 1) = (2 * n + 1) mod 4294967296"
proof -
  have "push_bit 1 q AND 1 = 0" by (rule bit_word_eqI) (auto simp: bit_simps simp del: push_bit_Suc)
  then have or: "push_bit 1 q OR 1 = push_bit 1 q + 1" by (simp add: disjunctive_add_eq_or)
  show p: "unat (push_bit 1 q) = 2 * n mod 4294967296"
    by (simp add: push_bit_eq_mult unat_word_ariths assms mod_simps mult.commute)
  show "unat (push_bit 1 q OR 1) = (2 * n + 1) mod 4294967296"
    unfolding or unat_word_ariths p by (simp add: mod_simps)
qed

lemma divisor_next:
  assumes "divisor_at s (Suc c) h_s l_s"
  shows "divisor_at s c (drop_bit 1 h_s) (push_bit c s)"
proof -
  define S where "S = unat s * 2 ^ c"
  have S2: "unat h_s * 4294967296 + unat l_s = 2 * S"
    using assms by (simp add: divisor_at_def S_def)
  have "unat l_s < 4294967296" using u32_bound[of l_s] by simp
  then have "unat h_s = 2 * S div 4294967296" unfolding S2[symmetric] by simp
  then have "unat h_s div 2 = 2 * S div (2 * 4294967296)"
    by (simp only: div_mult2_eq[symmetric] mult.commute)
  then have "unat (drop_bit 1 h_s) = S div 4294967296"
    by (simp add: drop_bit_eq_div unat_div_distrib)
  moreover have "unat (push_bit c s) = S mod 4294967296"
  proof -
    have "unat (push_bit c s) = take_bit 32 (push_bit c (unat s))" by (simp add: unsigned_push_bit_eq)
    then show ?thesis by (simp add: take_bit_eq_mod push_bit_eq_mult S_def)
  qed
  ultimately show ?thesis unfolding divisor_at_def S_def[symmetric] by simp
qed

lemma divisor_bound:
  assumes "divisor_at s c h_s l_s" "c \<le> 32"
  shows "unat h_s * 4294967296 + unat l_s \<le> 4294967295 * 4294967296"
proof -
  have "unat s * 2 ^ c \<le> 4294967295 * 2 ^ 32"
    using u32_bound[of s] assms(2) by (intro mult_le_mono power_increasing) simp_all
  then show ?thesis using assms(1) by (simp add: divisor_at_def)
qed

lemma round_sim:
  assumes rel: "loop_rel s c x (q, r)" and c: "c \<le> 32"
  defines "y \<equiv> (if 2 ^ c * unat s \<le> r then (2 * q + 1, r - 2 ^ c * unat s) else (2 * q, r))"
  shows "c = Suc c' \<Longrightarrow> loop_rel s c' (div_long_round oob s c x) y"
    and "case div_long_round oob s c x of (q', h, l, h_s, l_s) \<Rightarrow>
      unat q' = fst y mod 2 ^ 32 \<and> unat h * 2 ^ 32 + unat l = snd y"
proof -
  obtain w h l hs ls where x: "x = (w, h, l, hs, ls)" by (cases x)
  have d: "divisor_at s c hs ls" and w: "unat w = q mod 4294967296" and r: "unat h * 4294967296 + unat l = r"
    using rel by (simp_all add: loop_rel_def x)
  have div: "unat hs * 4294967296 + unat ls = 2 ^ c * unat s"
    using d by (simp add: divisor_at_def mult.commute)
  note arith = round_arith[OF divisor_bound[OF d c], of h l, unfolded div r]
  note bits = quotient_bit[OF w]
  have upd: "case div_long_round oob s c x of (q', h', l', h_s', l_s') \<Rightarrow>
      unat q' = fst y mod 4294967296 \<and> unat h' * 4294967296 + unat l' = snd y
      \<and> h_s' = drop_bit 1 hs \<and> l_s' = (if c = 0 then oob else push_bit (c - 1) s)"
  proof (cases "2 ^ c * unat s \<le> r")
    case True
    then have "\<not> h < hs + (if ls \<le> l then 0 else 1)" using arith(1) by simp
    then show ?thesis using True arith(2) bits
      by (simp add: div_long_round_def x y_def Let_def)
  next
    case False
    then have "h < hs + (if ls \<le> l then 0 else 1)" using arith(1) by simp
    then show ?thesis using False bits r by (simp add: div_long_round_def x y_def Let_def)
  qed
  then show "case div_long_round oob s c x of (q', h, l, h_s, l_s) \<Rightarrow>
      unat q' = fst y mod 2 ^ 32 \<and> unat h * 2 ^ 32 + unat l = snd y"
    by (auto split: prod.splits)
  assume "c = Suc c'"
  then show "loop_rel s c' (div_long_round oob s c x) y"
    using upd divisor_next[of s c' hs ls] d by (auto simp: loop_rel_def split: prod.splits)
qed

lemma loop_sim:
  assumes "loop_rel s c x y" "c \<le> 32"
  shows "case div_long_loop oob s c x of (q', h, l, h_s, l_s) \<Rightarrow>
    unat q' = fst (restoring (unat s) c y) mod 2 ^ 32 \<and> unat h * 2 ^ 32 + unat l = snd (restoring (unat s) c y)"
  using assms
proof (induction c arbitrary: x y)
  case 0
  obtain q r where y: "y = (q, r)" by (cases y)
  show ?case
    using round_sim(2)[OF 0(1)[unfolded y], of oob] by (simp add: y case_prod_beta)
next
  case (Suc c)
  obtain q r where y: "y = (q, r)" by (cases y)
  show ?case
    using Suc.IH[OF round_sim(1)[OF Suc.prems(1)[unfolded y] Suc.prems(2) refl]] Suc.prems(2)
    by (simp add: y)
qed

section \<open>Division of two longs by a long\<close>

definition dividend :: "x86_regs \<Rightarrow> nat" where
  "dividend st = unat (R_EDX st) * 2 ^ 32 + unat (R_EAX st)"

text \<open>The state \<open>div_long\<close> leaves with quotient \<open>q\<close> and remainder \<open>r\<close>.\<close>

definition divided :: "nat \<Rightarrow> nat \<Rightarrow> x86_regs \<Rightarrow> x86_regs" where
  "divided q r st =
     (CONDITIONAL_SET_FLAG (PARITY (of_nat r AND 0xff)) F_PF
       (SET_FLAG F_ZF (CLEAR_FLAG F_SF (CLEAR_FLAG F_AF (CLEAR_FLAG F_CF st)))))
     \<lparr> R_EAX := of_nat q, R_EDX := of_nat r \<rparr>"

lemma div_long_loop_result:
  assumes s: "s \<noteq> 0" and D: "D = dividend st"
  defines "m \<equiv> min (D div unat s) 8589934591"
  obtains q h l h_s l_s where
    "div_long_loop oob s 32 (0, R_EDX st, R_EAX st, s, 0) = (q, h, l, h_s, l_s)"
    "q = of_nat m" "unat h * 4294967296 + unat l = D - m * unat s"
proof -
  obtain q h l h_s l_s where loop: "div_long_loop oob s 32 (0, R_EDX st, R_EAX st, s, 0) = (q, h, l, h_s, l_s)"
    by (cases "div_long_loop oob s 32 (0, R_EDX st, R_EAX st, s, 0)")
  have "0 < unat s" using s by (simp add: unat_gt_0)
  from restoring_closed[OF this, of 32 0 D]
  have "restoring (unat s) 32 (0, D) = (m, D - m * unat s)" by (simp add: m_def)
  moreover have "loop_rel s 32 (0, R_EDX st, R_EAX st, s, 0) (0, D)"
    by (simp add: loop_rel_def divisor_at_def D dividend_def)
  ultimately have "unat q = m mod 4294967296" "unat h * 4294967296 + unat l = D - m * unat s"
    using loop_sim[of s 32 "(0, R_EDX st, R_EAX st, s, 0)" "(0, D)" oob] by (simp_all add: loop)
  moreover from this(1) have "q = of_nat m"
    by (intro word_unat_eq_iff[THEN iffD2]) (simp add: unat_of_nat)
  ultimately show ?thesis using that loop by blast
qed

lemma div_long_exact:
  assumes s: "s \<noteq> 0" and small: "dividend st < 2 ^ 33 * unat s"
  shows "div_long oob s st = divided (dividend st div unat s) (dividend st mod unat s) st"
proof -
  obtain q h l h_s l_s where loop:
    "div_long_loop oob s 32 (0, R_EDX st, R_EAX st, s, 0) = (q, h, l, h_s, l_s)"
    "q = of_nat (min (dividend st div unat s) 8589934591)"
    "unat h * 4294967296 + unat l = dividend st - min (dividend st div unat s) 8589934591 * unat s"
    using div_long_loop_result[OF s refl] by metis
  have pos: "0 < unat s" using s by (simp add: unat_gt_0)
  have "dividend st div unat s < 8589934592"
    using small pos by (simp add: div_less_iff_less_mult)
  then have m: "min (dividend st div unat s) 8589934591 = dividend st div unat s" by simp
  have hl: "unat h * 4294967296 + unat l = dividend st mod unat s"
    using loop(3) unfolding m by (simp add: minus_div_mult_eq_mod)
  have less: "dividend st mod unat s < unat s" using pos by simp
  with hl u32_bound[of s] have "unat h = 0" by (cases "unat h") simp_all
  with hl have l: "unat l = dividend st mod unat s" by simp
  have "h = 0" using \<open>unat h = 0\<close> by (simp add: unsigned_eq_0_iff)
  moreover have "\<not> s < l" using l less by (simp add: word_less_nat_alt)
  moreover have "l = of_nat (dividend st mod unat s)" by (simp flip: l)
  ultimately show ?thesis
    using s by (simp add: div_long_def loop(1,2) m divided_def Let_def)
qed

lemma div_long_large:
  assumes s: "s \<noteq> 0" and large: "2 ^ 33 * unat s < dividend st"
  shows "div_long oob s st = x86emu_intr_raise 0 st"
proof -
  obtain q h l h_s l_s where loop:
    "div_long_loop oob s 32 (0, R_EDX st, R_EAX st, s, 0) = (q, h, l, h_s, l_s)"
    "unat h * 4294967296 + unat l = dividend st - min (dividend st div unat s) 8589934591 * unat s"
    using div_long_loop_result[OF s refl] by metis
  have pos: "0 < unat s" using s by (simp add: unat_gt_0)
  have "8589934592 \<le> dividend st div unat s"
    using large pos by (simp add: less_eq_div_iff_mult_less_eq)
  then have "min (dividend st div unat s) 8589934591 = 8589934591" by simp
  then have "unat s < unat h * 4294967296 + unat l" using loop(2) large by simp
  then have "h \<noteq> 0 \<or> s < l" by (auto simp: word_less_nat_alt)
  then show ?thesis using s by (simp add: div_long_def loop(1))
qed

lemma div_long_boundary:
  assumes s: "s \<noteq> 0" and eq: "dividend st = 2 ^ 33 * unat s"
  shows "div_long oob s st = divided (2 ^ 33 - 1) (unat s) st"
proof -
  obtain q h l h_s l_s where loop:
    "div_long_loop oob s 32 (0, R_EDX st, R_EAX st, s, 0) = (q, h, l, h_s, l_s)"
    "q = of_nat (min (dividend st div unat s) 8589934591)"
    "unat h * 4294967296 + unat l = dividend st - min (dividend st div unat s) 8589934591 * unat s"
    using div_long_loop_result[OF s refl] by metis
  have "0 < unat s" using s by (simp add: unat_gt_0)
  then have "dividend st div unat s = 8589934592" using eq by simp
  then have m: "min (dividend st div unat s) 8589934591 = 8589934591" by simp
  have hl: "unat h * 4294967296 + unat l = unat s" using loop(3) eq unfolding m by simp
  with u32_bound[of s] have "unat h = 0" by (cases "unat h") simp_all
  from this have "h = 0" by (simp add: unsigned_eq_0_iff)
  moreover have "l = s" using hl \<open>unat h = 0\<close> by (intro word_unat_eq_iff[THEN iffD2]) simp
  ultimately show ?thesis using s by (simp add: div_long_def loop(1,2) m divided_def Let_def)
qed

section \<open>Division of a word by a byte, and of two words by a word\<close>

lemma div_byte_spec:
  "s = 0 \<or> 256 * unat s \<le> unat (R_AX st) \<Longrightarrow> div_byte s st = x86emu_intr_raise 0 st"
  "unat (R_AX st) < 256 * unat s \<Longrightarrow> div_byte s st
     = set_AH (of_nat (unat (R_AX st) mod unat s)) (set_AL (of_nat (unat (R_AX st) div unat s)) st)"
proof -
  have up: "unat (ucast (R_AX st) :: u32) = unat (R_AX st)" "unat (ucast s :: u32) = unat s"
    by (simp_all add: unat_up)
  have q: "unat (ucast (R_AX st) div ucast s :: u32) = unat (R_AX st) div unat s"
    "unat (ucast (R_AX st) mod ucast s :: u32) = unat (R_AX st) mod unat s"
    by (simp_all add: unat_div_distrib unat_mod_distrib up)
  have ov: "0xff < (ucast (R_AX st) div ucast s :: u32) \<longleftrightarrow> 256 \<le> unat (R_AX st) div unat s"
    by (auto simp: word_less_nat_alt q)
  show "s = 0 \<or> 256 * unat s \<le> unat (R_AX st) \<Longrightarrow> div_byte s st = x86emu_intr_raise 0 st"
  proof -
    assume a: "s = 0 \<or> 256 * unat s \<le> unat (R_AX st)"
    show ?thesis
    proof (cases "s = 0")
      case False
      then have "256 \<le> unat (R_AX st) div unat s"
        using a by (simp add: less_eq_div_iff_mult_less_eq unat_gt_0)
      then show ?thesis by (simp add: div_byte_def Let_def ov)
    qed (simp add: div_byte_def)
  qed
  assume a: "unat (R_AX st) < 256 * unat s"
  then have pos: "s \<noteq> 0" by auto
  then have "unat (R_AX st) div unat s < 256"
    using a by (simp add: div_less_iff_less_mult unat_gt_0)
  moreover have low: "ucast (x :: u32) = (of_nat (unat x) :: u8)" for x
    by (rule word_unat_eq_iff[THEN iffD2]) (simp add: unsigned_ucast_eq take_bit_eq_mod unat_of_nat)
  have "ucast (ucast (R_AX st) div ucast s :: u32) = (of_nat (unat (R_AX st) div unat s) :: u8)"
    "ucast (ucast (R_AX st) mod ucast s :: u32) = (of_nat (unat (R_AX st) mod unat s) :: u8)"
    unfolding low q by (rule refl)+
  ultimately show "div_byte s st
     = set_AH (of_nat (unat (R_AX st) mod unat s)) (set_AL (of_nat (unat (R_AX st) div unat s)) st)"
    using pos by (simp add: div_byte_def Let_def ov q)
qed

lemma unat_pair:
  "unat (push_bit 16 (ucast (d :: u16)) OR ucast (a :: u16) :: u32) = unat d * 65536 + unat a"
proof -
  have "(ucast a :: u32) = ucast a AND 0xFFFF"
    by (rule bit_word_eqI) (auto simp: byte_mask bit_simps dest: bit_imp_le_length)
  then have "unat (push_bit 16 (ucast d) OR ucast a :: u32)
      = unat (push_bit 16 (ucast d) OR (ucast a AND 0xFFFF) :: u32)"
    by (simp only:)
  also have "\<dots> = unat d * 65536 + unat a"
    using unsigned_less[of d, where ?'a = nat] unsigned_less[of a, where ?'a = nat]
    unfolding unat_join by (simp add: unat_up)
  finally show ?thesis .
qed

lemma div_word_spec:
  fixes s :: u16 and st :: x86_regs
  defines "n \<equiv> unat (R_DX st) * 65536 + unat (R_AX st)"
  shows "s = 0 \<or> 65536 * unat s \<le> n \<Longrightarrow> div_word s st = x86emu_intr_raise 0 st"
    and "n < 65536 * unat s \<Longrightarrow>
      R_AX (div_word s st) = of_nat (n div unat s) \<and> R_DX (div_word s st) = of_nat (n mod unat s)
      \<and> x86_intr (div_word s st) = x86_intr st"
proof -
  let ?D = "push_bit 16 (ucast (R_DX st)) OR ucast (R_AX st) :: u32"
  have D: "unat ?D = n" unfolding n_def by (rule unat_pair)
  have q: "unat (?D div ucast s) = n div unat s" "unat (?D mod ucast s) = n mod unat s"
    by (simp_all only: unat_div_distrib unat_mod_distrib D) (simp_all add: unat_up)
  have ov: "0xffff < ?D div ucast s \<longleftrightarrow> 65536 \<le> n div unat s"
    unfolding word_less_nat_alt q by auto
  show "s = 0 \<or> 65536 * unat s \<le> n \<Longrightarrow> div_word s st = x86emu_intr_raise 0 st"
  proof -
    assume a: "s = 0 \<or> 65536 * unat s \<le> n"
    show ?thesis
    proof (cases "s = 0")
      case False
      then have "65536 \<le> n div unat s"
        using a by (simp add: less_eq_div_iff_mult_less_eq unat_gt_0)
      then show ?thesis by (simp add: div_word_def Let_def ov)
    qed (simp add: div_word_def)
  qed
  assume a: "n < 65536 * unat s"
  then have pos: "s \<noteq> 0" by auto
  have small: "n div unat s < 65536"
    using a pos by (simp add: div_less_iff_less_mult unat_gt_0)
  have low: "ucast (x :: u32) = (of_nat (unat x) :: u16)" for x
    by (rule word_unat_eq_iff[THEN iffD2]) (simp add: unsigned_ucast_eq take_bit_eq_mod unat_of_nat)
  have "R_AX (div_word s st) = ucast (?D div ucast s) \<and> R_DX (div_word s st) = ucast (?D mod ucast s)
      \<and> x86_intr (div_word s st) = x86_intr st"
    using pos small by (simp add: div_word_def Let_def ov x_reg_parts) (simp add: set_AX_def set_DX_def
      CONDITIONAL_SET_FLAG_def SET_FLAG_def CLEAR_FLAG_def)
  then show "R_AX (div_word s st) = of_nat (n div unat s) \<and> R_DX (div_word s st) = of_nat (n mod unat s)
      \<and> x86_intr (div_word s st) = x86_intr st"
    unfolding low q .
qed

section \<open>Properties\<close>

text \<open>
  C31. MUL: bytes and words give the exact product in AX and DX:AX, with CF and OF set exactly if
  it does not fit the low half. For longs the fallback code loses the carry of the cross products:
  EDX:EAX is the product, less \<open>2 ^ 48\<close> exactly if their sum does not fit 32 bits.
\<close>

theorem multiplication_exact:
  "unat (R_AX (mul_byte s8 st)) = unat (R_AL st) * unat s8
   \<and> (ACCESS_FLAG F_CF (mul_byte s8 st) \<longleftrightarrow> 2 ^ 8 \<le> unat (R_AL st) * unat s8)
   \<and> (ACCESS_FLAG F_OF (mul_byte s8 st) \<longleftrightarrow> 2 ^ 8 \<le> unat (R_AL st) * unat s8)
   \<and> unat (R_DX (mul_word s16 st)) * 2 ^ 16 + unat (R_AX (mul_word s16 st)) = unat (R_AX st) * unat s16
   \<and> (ACCESS_FLAG F_CF (mul_word s16 st) \<longleftrightarrow> 2 ^ 16 \<le> unat (R_AX st) * unat s16)
   \<and> (ACCESS_FLAG F_OF (mul_word s16 st) \<longleftrightarrow> 2 ^ 16 \<le> unat (R_AX st) * unat s16)
   \<and> unat (R_EDX (mul_long s st)) * 2 ^ 32 + unat (R_EAX (mul_long s st))
       + 2 ^ 48 * of_bool (2 ^ 32 \<le> cross_sum (R_EAX st) s) = unat (R_EAX st) * unat s"
  using mul_word_spec[of s16 st] mul_byte_spec[of s8 st] mul_long_spec[of s st] by (intro conjI) simp_all

text \<open>
  IMUL gives the exact signed product at every width. CF is set exactly if a byte product
  does not fit a signed byte; for words and longs the code compares the high half with 0xFF, so CF
  is clear for the products from 0 to the signed maximum and for the large positive products whose
  high half is 0xFF, and set for all negative ones.
\<close>

theorem signed_multiplication:
  "sint (R_AX (imul_byte s8 st)) = sint (R_AL st) * sint s8
   \<and> (ACCESS_FLAG F_CF (imul_byte s8 st) \<longleftrightarrow> \<not> fits_signed TYPE(8) (sint (R_AL st) * sint s8))
   \<and> sint (R_DX (imul_word s16 st)) * 2 ^ 16 + int (unat (R_AX (imul_word s16 st)))
       = sint (R_AX st) * sint s16
   \<and> (ACCESS_FLAG F_CF (imul_word s16 st) \<longleftrightarrow>
        sint (R_AX st) * sint s16 \<notin> {0..<2 ^ 15} \<union> {0xFF8000..0xFFFFFF})
   \<and> sint (R_EDX (imul_long s st)) * 2 ^ 32 + int (unat (R_EAX (imul_long s st)))
       = sint (R_EAX st) * sint s
   \<and> (ACCESS_FLAG F_CF (imul_long s st) \<longleftrightarrow>
        sint (R_EAX st) * sint s \<notin> {0..<2 ^ 31} \<union> {0xFF80000000..0xFFFFFFFFFF})"
  using imul_word_spec[of s16 st] imul_long_spec[of s st] by (auto simp: imul_byte_spec)

text \<open>
  C16. DIV of EDX:EAX by a long, with the fallback code, for all operands: division by zero raises
  interrupt 0; a dividend below \<open>2 ^ 33\<close> times the divisor leaves the remainder in EDX and the
  quotient modulo \<open>2 ^ 32\<close> in EAX, which is exact when EDX is below the divisor but misses the
  overflow when it is not; at \<open>2 ^ 33\<close> times the divisor the overflow is missed once more, and a
  larger dividend raises interrupt 0. The shift by -1 of the last round has no effect.
\<close>

theorem long_division:
  "div_long oob s st =
     (if s = 0 then x86emu_intr_raise 0 st
      else if dividend st < 2 ^ 33 * unat s
        then divided (dividend st div unat s) (dividend st mod unat s) st
      else if dividend st = 2 ^ 33 * unat s then divided (2 ^ 33 - 1) (unat s) st
      else x86emu_intr_raise 0 st)"
proof (cases "s = 0")
  case False
  consider "dividend st < 2 ^ 33 * unat s" | "dividend st = 2 ^ 33 * unat s" | "2 ^ 33 * unat s < dividend st"
    by linarith
  then show ?thesis
  proof cases
    case 1
    then show ?thesis using False by (simp add: div_long_exact)
  next
    case 2
    then show ?thesis using False by (simp add: div_long_boundary)
  next
    case 3
    then show ?thesis using False by (simp add: div_long_large)
  qed
qed (simp add: div_long_def)

end
