(* ===== verification/X86Mem.thy ===== *)
theory X86Mem
  imports X86Mul
begin

unbundle bit_operations_syntax

text \<open>
  Memory, ports and the stack of the emulator: the default memory functions of \<open>sys.c\<close>, the
  function pointers through which the emulator reaches memory and ports, and the stack, string I/O
  and CPUID primitives of \<open>prim_ops.c\<close>. Little endian host, no \<open>DEBUG\<close>, no \<open>X86EMU_HAS_HW_CPUID\<close>.
\<close>

section \<open>The machine\<close>

text \<open>The registers and what the memory functions keep behind \<open>mem_base\<close>.\<close>

record 'm X86EMU =
  x86 :: x86_regs
  emu_mem :: 'm

text \<open>
  The pointers \<open>sys_rdb\<close> \<dots> \<open>sys_outl\<close> set by \<open>X86EMU_setupMemFuncs\<close> and \<open>X86EMU_setupPioFuncs\<close>.
  A call returns the new machine, or nothing if it faults.
\<close>

record 'm sys_funcs =
  sys_rdb :: "u32 \<Rightarrow> 'm X86EMU \<Rightarrow> (u8 \<times> 'm X86EMU) option"
  sys_rdw :: "u32 \<Rightarrow> 'm X86EMU \<Rightarrow> (u16 \<times> 'm X86EMU) option"
  sys_rdl :: "u32 \<Rightarrow> 'm X86EMU \<Rightarrow> (u32 \<times> 'm X86EMU) option"
  sys_wrb :: "u32 \<Rightarrow> u8 \<Rightarrow> 'm X86EMU \<Rightarrow> 'm X86EMU option"
  sys_wrw :: "u32 \<Rightarrow> u16 \<Rightarrow> 'm X86EMU \<Rightarrow> 'm X86EMU option"
  sys_wrl :: "u32 \<Rightarrow> u32 \<Rightarrow> 'm X86EMU \<Rightarrow> 'm X86EMU option"
  sys_inb :: "u32 \<Rightarrow> 'm X86EMU \<Rightarrow> (u8 \<times> 'm X86EMU) option"
  sys_inw :: "u32 \<Rightarrow> 'm X86EMU \<Rightarrow> (u16 \<times> 'm X86EMU) option"
  sys_inl :: "u32 \<Rightarrow> 'm X86EMU \<Rightarrow> (u32 \<times> 'm X86EMU) option"
  sys_outb :: "u32 \<Rightarrow> u8 \<Rightarrow> 'm X86EMU \<Rightarrow> 'm X86EMU option"
  sys_outw :: "u32 \<Rightarrow> u16 \<Rightarrow> 'm X86EMU \<Rightarrow> 'm X86EMU option"
  sys_outl :: "u32 \<Rightarrow> u32 \<Rightarrow> 'm X86EMU \<Rightarrow> 'm X86EMU option"

definition regs :: "(x86_regs \<Rightarrow> x86_regs) \<Rightarrow> 'm X86EMU \<Rightarrow> 'm X86EMU" where
  "regs f M = M\<lparr> x86 := f (x86 M) \<rparr>"

definition INTR_HALTED :: u32 where "INTR_HALTED = 0x4"

definition X86EMU_halt_sys :: "'m X86EMU \<Rightarrow> 'm X86EMU" where
  "X86EMU_halt_sys = regs (\<lambda>st. st\<lparr> x86_intr := x86_intr st OR INTR_HALTED \<rparr>)"

section \<open>The default memory\<close>

text \<open>
  The block of \<open>mem_size\<close> bytes at \<open>mem_base\<close>. The bounds check subtracts from an \<open>unsigned long\<close>,
  which wraps around; when it fails the function halts the system and still goes on to the access,
  which is outside the block.
\<close>

definition out_of_range :: "u64 \<Rightarrow> u32 \<Rightarrow> u8 list \<Rightarrow> bool" where
  "out_of_range n addr m \<longleftrightarrow> of_nat (length m) - n < (ucast addr :: u64)"

definition rdb :: "u32 \<Rightarrow> u8 list X86EMU \<Rightarrow> (u8 \<times> u8 list X86EMU) option" where
  "rdb addr M =
     (let M = (if out_of_range 1 addr (emu_mem M) then X86EMU_halt_sys M else M);
          m = emu_mem M;
          a = unat addr
      in if a < length m then Some (m ! a, M) else None)"

definition rdw :: "u32 \<Rightarrow> u8 list X86EMU \<Rightarrow> (u16 \<times> u8 list X86EMU) option" where
  "rdw addr M =
     (let M = (if out_of_range 2 addr (emu_mem M) then X86EMU_halt_sys M else M);
          m = emu_mem M;
          a = unat addr
      in if a + 1 < length m then Some (word_cat (m ! (a + 1)) (m ! a), M) else None)"

definition rdl :: "u32 \<Rightarrow> u8 list X86EMU \<Rightarrow> (u32 \<times> u8 list X86EMU) option" where
  "rdl addr M =
     (let M = (if out_of_range 4 addr (emu_mem M) then X86EMU_halt_sys M else M);
          m = emu_mem M;
          a = unat addr
      in if a + 3 < length m
         then Some (word_cat (word_cat (m ! (a + 3)) (m ! (a + 2)) :: u16)
                             (word_cat (m ! (a + 1)) (m ! a) :: u16), M)
         else None)"

definition wrb :: "u32 \<Rightarrow> u8 \<Rightarrow> u8 list X86EMU \<Rightarrow> u8 list X86EMU option" where
  "wrb addr val M =
     (let M = (if out_of_range 1 addr (emu_mem M) then X86EMU_halt_sys M else M);
          m = emu_mem M;
          a = unat addr
      in if a < length m then Some (M\<lparr> emu_mem := m[a := val] \<rparr>) else None)"

definition wrw :: "u32 \<Rightarrow> u16 \<Rightarrow> u8 list X86EMU \<Rightarrow> u8 list X86EMU option" where
  "wrw addr val M =
     (let M = (if out_of_range 2 addr (emu_mem M) then X86EMU_halt_sys M else M);
          m = emu_mem M;
          a = unat addr
      in if a + 1 < length m
         then Some (M\<lparr> emu_mem := m[a := ucast val, a + 1 := ucast (drop_bit 8 val)] \<rparr>) else None)"

definition wrl :: "u32 \<Rightarrow> u32 \<Rightarrow> u8 list X86EMU \<Rightarrow> u8 list X86EMU option" where
  "wrl addr val M =
     (let M = (if out_of_range 4 addr (emu_mem M) then X86EMU_halt_sys M else M);
          m = emu_mem M;
          a = unat addr
      in if a + 3 < length m
         then Some (M\<lparr> emu_mem := m[a := ucast val, a + 1 := ucast (drop_bit 8 val),
                a + 2 := ucast (drop_bit 16 val), a + 3 := ucast (drop_bit 24 val)] \<rparr>)
         else None)"

definition p_inb :: "u32 \<Rightarrow> 'm X86EMU \<Rightarrow> (u8 \<times> 'm X86EMU) option" where "p_inb addr M = Some (0, M)"
definition p_inw :: "u32 \<Rightarrow> 'm X86EMU \<Rightarrow> (u16 \<times> 'm X86EMU) option" where "p_inw addr M = Some (0, M)"
definition p_inl :: "u32 \<Rightarrow> 'm X86EMU \<Rightarrow> (u32 \<times> 'm X86EMU) option" where "p_inl addr M = Some (0, M)"
definition p_outb :: "u32 \<Rightarrow> u8 \<Rightarrow> 'm X86EMU \<Rightarrow> 'm X86EMU option" where "p_outb addr val M = Some M"
definition p_outw :: "u32 \<Rightarrow> u16 \<Rightarrow> 'm X86EMU \<Rightarrow> 'm X86EMU option" where "p_outw addr val M = Some M"
definition p_outl :: "u32 \<Rightarrow> u32 \<Rightarrow> 'm X86EMU \<Rightarrow> 'm X86EMU option" where "p_outl addr val M = Some M"

text \<open>The initial values of the function pointers.\<close>

definition default_funcs :: "u8 list sys_funcs" where
  "default_funcs = \<lparr> sys_rdb = rdb, sys_rdw = rdw, sys_rdl = rdl, sys_wrb = wrb, sys_wrw = wrw,
     sys_wrl = wrl, sys_inb = p_inb, sys_inw = p_inw, sys_inl = p_inl, sys_outb = p_outb,
     sys_outw = p_outw, sys_outl = p_outl \<rparr>"

section \<open>Segmented addresses and the stack\<close>

definition seg_addr :: "u16 \<Rightarrow> u32 \<Rightarrow> u32" where
  "seg_addr seg off = push_bit 4 (ucast seg) + off"

definition fetch_data_byte_abs :: "'m sys_funcs \<Rightarrow> u16 \<Rightarrow> u32 \<Rightarrow> 'm X86EMU \<Rightarrow> (u8 \<times> 'm X86EMU) option" where
  "fetch_data_byte_abs F segment offset = sys_rdb F (seg_addr segment offset)"
definition fetch_data_word_abs :: "'m sys_funcs \<Rightarrow> u16 \<Rightarrow> u32 \<Rightarrow> 'm X86EMU \<Rightarrow> (u16 \<times> 'm X86EMU) option" where
  "fetch_data_word_abs F segment offset = sys_rdw F (seg_addr segment offset)"
definition fetch_data_long_abs :: "'m sys_funcs \<Rightarrow> u16 \<Rightarrow> u32 \<Rightarrow> 'm X86EMU \<Rightarrow> (u32 \<times> 'm X86EMU) option" where
  "fetch_data_long_abs F segment offset = sys_rdl F (seg_addr segment offset)"
definition store_data_byte_abs :: "'m sys_funcs \<Rightarrow> u16 \<Rightarrow> u32 \<Rightarrow> u8 \<Rightarrow> 'm X86EMU \<Rightarrow> 'm X86EMU option" where
  "store_data_byte_abs F segment offset = sys_wrb F (seg_addr segment offset)"
definition store_data_word_abs :: "'m sys_funcs \<Rightarrow> u16 \<Rightarrow> u32 \<Rightarrow> u16 \<Rightarrow> 'm X86EMU \<Rightarrow> 'm X86EMU option" where
  "store_data_word_abs F segment offset = sys_wrw F (seg_addr segment offset)"
definition store_data_long_abs :: "'m sys_funcs \<Rightarrow> u16 \<Rightarrow> u32 \<Rightarrow> u32 \<Rightarrow> 'm X86EMU \<Rightarrow> 'm X86EMU option" where
  "store_data_long_abs F segment offset = sys_wrl F (seg_addr segment offset)"

definition mem_access_word :: "'m sys_funcs \<Rightarrow> u32 \<Rightarrow> 'm X86EMU \<Rightarrow> (u16 \<times> 'm X86EMU) option" where
  "mem_access_word F addr M = sys_rdw F addr M"

definition push_word :: "'m sys_funcs \<Rightarrow> u16 \<Rightarrow> 'm X86EMU \<Rightarrow> 'm X86EMU option" where
  "push_word F w M =
     (let M = regs (\<lambda>st. set_SP (R_SP st - 2) st) M
      in sys_wrw F (seg_addr (R_SS (x86 M)) (ucast (R_SP (x86 M)))) w M)"

definition push_long :: "'m sys_funcs \<Rightarrow> u32 \<Rightarrow> 'm X86EMU \<Rightarrow> 'm X86EMU option" where
  "push_long F w M =
     (let M = regs (\<lambda>st. set_SP (R_SP st - 4) st) M
      in sys_wrl F (seg_addr (R_SS (x86 M)) (ucast (R_SP (x86 M)))) w M)"

definition pop_word :: "'m sys_funcs \<Rightarrow> 'm X86EMU \<Rightarrow> (u16 \<times> 'm X86EMU) option" where
  "pop_word F M =
     do { (res, M) \<leftarrow> sys_rdw F (seg_addr (R_SS (x86 M)) (ucast (R_SP (x86 M)))) M;
          Some (res, regs (\<lambda>st. set_SP (R_SP st + 2) st) M) }"

definition pop_long :: "'m sys_funcs \<Rightarrow> 'm X86EMU \<Rightarrow> (u32 \<times> 'm X86EMU) option" where
  "pop_long F M =
     do { (res, M) \<leftarrow> sys_rdl F (seg_addr (R_SS (x86 M)) (ucast (R_SP (x86 M)))) M;
          Some (res, regs (\<lambda>st. set_SP (R_SP st + 4) st) M) }"

section \<open>Software interrupts\<close>

definition X86EMU_prepareForInt :: "'m sys_funcs \<Rightarrow> u32 \<Rightarrow> 'm X86EMU \<Rightarrow> 'm X86EMU option" where
  "X86EMU_prepareForInt F num M =
     do { M \<leftarrow> push_word F (ucast (R_FLG (x86 M))) M;
          let M = regs (CLEAR_FLAG F_IF) M;
          let M = regs (CLEAR_FLAG F_TF) M;
          M \<leftarrow> push_word F (R_CS (x86 M)) M;
          (cs, M) \<leftarrow> mem_access_word F (num * 4 + 2) M;
          let M = regs (\<lambda>st. st\<lparr> R_CS := cs \<rparr>) M;
          M \<leftarrow> push_word F (R_IP (x86 M)) M;
          (ip, M) \<leftarrow> mem_access_word F (num * 4) M;
          let M = regs (set_IP ip) M;
          Some (regs (\<lambda>st. st\<lparr> x86_intr := 0 \<rparr>) M) }"

text \<open>\<open>_X86EMU_intrTab\<close>: the handlers the client installed.\<close>

definition x86emu_intr_handle ::
  "'m sys_funcs \<Rightarrow> (u8 \<Rightarrow> (u8 \<Rightarrow> 'm X86EMU \<Rightarrow> 'm X86EMU option) option) \<Rightarrow> 'm X86EMU \<Rightarrow> 'm X86EMU option" where
  "x86emu_intr_handle F intrTab M =
     (if x86_intr (x86 M) AND INTR_SYNCH \<noteq> 0 then
        let intno = x86_intno (x86 M)
        in case intrTab intno of
             Some h \<Rightarrow> h intno M
           | None \<Rightarrow>
               do { M \<leftarrow> push_word F (ucast (R_FLG (x86 M))) M;
                    let M = regs (CLEAR_FLAG F_IF) M;
                    let M = regs (CLEAR_FLAG F_TF) M;
                    M \<leftarrow> push_word F (R_CS (x86 M)) M;
                    (cs, M) \<leftarrow> mem_access_word F (ucast intno * 4 + 2) M;
                    let M = regs (\<lambda>st. st\<lparr> R_CS := cs \<rparr>) M;
                    M \<leftarrow> push_word F (R_IP (x86 M)) M;
                    (ip, M) \<leftarrow> mem_access_word F (ucast intno * 4) M;
                    let M = regs (set_IP ip) M;
                    Some (regs (\<lambda>st. st\<lparr> x86_intr := 0 \<rparr>) M) }
      else Some M)"

end
