(* ===== verification/X86Io.thy ===== *)
theory X86Io
  imports X86Mem X86Arith
begin

unbundle bit_operations_syntax

text \<open>
  The string I/O instructions and CPUID of \<open>prim_ops.c\<close>, and the laws of the emulator's memory:
  an interface of cells that can be read and written, which the default bytes, words and longs
  satisfy, and what the stack and the interrupt entry promise over it.
\<close>

section \<open>Mode bits\<close>

definition SYSMODE_SEG_DS_SS :: u32 where "SYSMODE_SEG_DS_SS = 0x00000001"
definition SYSMODE_SEGOVR_CS :: u32 where "SYSMODE_SEGOVR_CS = 0x00000002"
definition SYSMODE_SEGOVR_DS :: u32 where "SYSMODE_SEGOVR_DS = 0x00000004"
definition SYSMODE_SEGOVR_ES :: u32 where "SYSMODE_SEGOVR_ES = 0x00000008"
definition SYSMODE_SEGOVR_FS :: u32 where "SYSMODE_SEGOVR_FS = 0x00000010"
definition SYSMODE_SEGOVR_GS :: u32 where "SYSMODE_SEGOVR_GS = 0x00000020"
definition SYSMODE_SEGOVR_SS :: u32 where "SYSMODE_SEGOVR_SS = 0x00000040"
definition SYSMODE_PREFIX_REPE :: u32 where "SYSMODE_PREFIX_REPE = 0x00000080"
definition SYSMODE_PREFIX_REPNE :: u32 where "SYSMODE_PREFIX_REPNE = 0x00000100"
definition SYSMODE_PREFIX_DATA :: u32 where "SYSMODE_PREFIX_DATA = 0x00000200"
definition SYSMODE_PREFIX_ADDR :: u32 where "SYSMODE_PREFIX_ADDR = 0x00000400"

definition rep_prefix :: "x86_regs \<Rightarrow> bool" where
  "rep_prefix st \<longleftrightarrow> x86_mode st AND (SYSMODE_PREFIX_REPE OR SYSMODE_PREFIX_REPNE) \<noteq> 0"

section \<open>String input\<close>

text \<open>One transfer of \<open>size\<close> bytes from port DX to ES:DI.\<close>

definition ins_transfer :: "'m sys_funcs \<Rightarrow> nat \<Rightarrow> 'm X86EMU \<Rightarrow> 'm X86EMU option" where
  "ins_transfer F sz M =
     (if sz = 1 then
        do { (v, M) \<leftarrow> sys_inb F (ucast (R_DX (x86 M))) M;
             store_data_byte_abs F (R_ES (x86 M)) (ucast (R_DI (x86 M))) v M }
      else if sz = 2 then
        do { (v, M) \<leftarrow> sys_inw F (ucast (R_DX (x86 M))) M;
             store_data_word_abs F (R_ES (x86 M)) (ucast (R_DI (x86 M))) v M }
      else if sz = 4 then
        do { (v, M) \<leftarrow> sys_inl F (ucast (R_DX (x86 M))) M;
             store_data_long_abs F (R_ES (x86 M)) (ucast (R_DI (x86 M))) v M }
      else Some M)"

fun ins_loop :: "'m sys_funcs \<Rightarrow> nat \<Rightarrow> u16 \<Rightarrow> nat \<Rightarrow> 'm X86EMU \<Rightarrow> 'm X86EMU option" where
  "ins_loop F sz inc 0 M = Some M"
| "ins_loop F sz inc (Suc count) M =
     do { M \<leftarrow> ins_transfer F sz M;
          ins_loop F sz inc count (regs (\<lambda>st. set_DI (R_DI st + inc) st) M) }"

definition rep_count :: "x86_regs \<Rightarrow> u32" where
  "rep_count st = (if x86_mode st AND SYSMODE_PREFIX_DATA \<noteq> 0 then R_ECX st else ucast (R_CX st))"

text \<open>What both instructions do after the repeated transfers.\<close>

definition rep_done :: "x86_regs \<Rightarrow> x86_regs" where
  "rep_done st =
     (let st = set_CX 0 st;
          st = (if x86_mode st AND SYSMODE_PREFIX_DATA \<noteq> 0 then st\<lparr> R_ECX := 0 \<rparr> else st)
      in st\<lparr> x86_mode := x86_mode st AND NOT (SYSMODE_PREFIX_REPE OR SYSMODE_PREFIX_REPNE) \<rparr>)"

definition ins :: "'m sys_funcs \<Rightarrow> nat \<Rightarrow> 'm X86EMU \<Rightarrow> 'm X86EMU option" where
  "ins F sz M =
     (let inc = (if ACCESS_FLAG F_DF (x86 M) then - of_nat sz else of_nat sz) :: u16
      in if rep_prefix (x86 M) then
           do { M \<leftarrow> (if sz \<in> {1, 2, 4} then ins_loop F sz inc (unat (rep_count (x86 M))) M
                      else Some M);
                Some (regs rep_done M) }
         else
           do { M \<leftarrow> ins_transfer F sz M;
                Some (regs (\<lambda>st. set_DI (R_DI st + inc) st) M) })"

section \<open>String output\<close>

text \<open>One transfer of \<open>size\<close> bytes from ES:SI to port DX.\<close>

definition outs_transfer :: "'m sys_funcs \<Rightarrow> nat \<Rightarrow> 'm X86EMU \<Rightarrow> 'm X86EMU option" where
  "outs_transfer F sz M =
     (if sz = 1 then
        do { (v, M) \<leftarrow> fetch_data_byte_abs F (R_ES (x86 M)) (ucast (R_SI (x86 M))) M;
             sys_outb F (ucast (R_DX (x86 M))) v M }
      else if sz = 2 then
        do { (v, M) \<leftarrow> fetch_data_word_abs F (R_ES (x86 M)) (ucast (R_SI (x86 M))) M;
             sys_outw F (ucast (R_DX (x86 M))) v M }
      else if sz = 4 then
        do { (v, M) \<leftarrow> fetch_data_long_abs F (R_ES (x86 M)) (ucast (R_SI (x86 M))) M;
             sys_outl F (ucast (R_DX (x86 M))) v M }
      else Some M)"

fun outs_loop :: "'m sys_funcs \<Rightarrow> nat \<Rightarrow> u16 \<Rightarrow> nat \<Rightarrow> 'm X86EMU \<Rightarrow> 'm X86EMU option" where
  "outs_loop F sz inc 0 M = Some M"
| "outs_loop F sz inc (Suc count) M =
     do { M \<leftarrow> outs_transfer F sz M;
          outs_loop F sz inc count (regs (\<lambda>st. set_SI (R_SI st + inc) st) M) }"

definition outs :: "'m sys_funcs \<Rightarrow> nat \<Rightarrow> 'm X86EMU \<Rightarrow> 'm X86EMU option" where
  "outs F sz M =
     (let inc = (if ACCESS_FLAG F_DF (x86 M) then - of_nat sz else of_nat sz) :: u16
      in if rep_prefix (x86 M) then
           do { M \<leftarrow> (if sz \<in> {1, 2, 4} then outs_loop F sz inc (unat (rep_count (x86 M))) M
                      else Some M);
                Some (regs rep_done M) }
         else
           do { M \<leftarrow> outs_transfer F sz M;
                Some (regs (\<lambda>st. set_SI (R_SI st + inc) st) M) })"

section \<open>CPUID\<close>

definition cpuid :: "x86_regs \<Rightarrow> x86_regs" where
  "cpuid st =
     (let feature = R_EAX st
      in if feature = 0 then
           st\<lparr> R_EAX := 1, R_EBX := 0x756e6547, R_EDX := 0x49656e69, R_ECX := 0x6c65746e \<rparr>
         else if feature = 1 then
           st\<lparr> R_EAX := 0x00000480, R_EBX := 0, R_ECX := 0, R_EDX := 0x00000002 \<rparr>
         else st\<lparr> R_EAX := 0, R_EBX := 0, R_ECX := 0, R_EDX := 0 \<rparr>)"

section \<open>Cells of memory\<close>

text \<open>
  \<open>cell m a\<close> is the value at address \<open>a\<close>, if the access is inside the block. Reading returns it and
  changes nothing; writing changes it and no cell whose address is at least \<open>width\<close> bytes away.
\<close>

locale cell_memory =
  fixes rd :: "u32 \<Rightarrow> 'm X86EMU \<Rightarrow> ('v \<times> 'm X86EMU) option"
    and wr :: "u32 \<Rightarrow> 'v \<Rightarrow> 'm X86EMU \<Rightarrow> 'm X86EMU option"
    and cell :: "'m \<Rightarrow> u32 \<Rightarrow> 'v option"
    and width :: nat
  assumes rd_cell: "cell (emu_mem M) a = Some v \<Longrightarrow> rd a M = Some (v, M)"
    and wr_cell: "cell (emu_mem M) a \<noteq> None \<Longrightarrow> \<exists>m. wr a v M = Some (M\<lparr> emu_mem := m \<rparr>) \<and> cell m a = Some v
      \<and> (\<forall>b. unat a + width \<le> unat b \<or> unat b + width \<le> unat a \<longrightarrow> cell m b = cell (emu_mem M) b)"
begin

lemma write_read:
  assumes "cell (emu_mem M) a \<noteq> None"
  obtains m where "wr a v M = Some (M\<lparr> emu_mem := m \<rparr>)" "cell m a = Some v"
    "rd a (M\<lparr> emu_mem := m \<rparr>) = Some (v, M\<lparr> emu_mem := m \<rparr>)"
    "\<And>b. unat a + width \<le> unat b \<or> unat b + width \<le> unat a \<Longrightarrow> cell m b = cell (emu_mem M) b"
proof -
  from wr_cell[OF assms, of v] obtain m where m: "wr a v M = Some (M\<lparr> emu_mem := m \<rparr>)" "cell m a = Some v"
    "\<And>b. unat a + width \<le> unat b \<or> unat b + width \<le> unat a \<Longrightarrow> cell m b = cell (emu_mem M) b"
    by blast
  moreover have "rd a (M\<lparr> emu_mem := m \<rparr>) = Some (v, M\<lparr> emu_mem := m \<rparr>)"
    using m(2) by (intro rd_cell) simp
  ultimately show ?thesis using that by blast
qed

end

text \<open>The default memory, at each width.\<close>

definition byte_at :: "u8 list \<Rightarrow> u32 \<Rightarrow> u8 option" where
  "byte_at m a = (if unat a < length m \<and> length m < 2 ^ 64 then Some (m ! unat a) else None)"

definition word_at :: "u8 list \<Rightarrow> u32 \<Rightarrow> u16 option" where
  "word_at m a = (if unat a + 1 < length m \<and> length m < 2 ^ 64
                  then Some (word_cat (m ! (unat a + 1)) (m ! unat a)) else None)"

definition long_at :: "u8 list \<Rightarrow> u32 \<Rightarrow> u32 option" where
  "long_at m a = (if unat a + 3 < length m \<and> length m < 2 ^ 64
                  then Some (word_cat (word_cat (m ! (unat a + 3)) (m ! (unat a + 2)) :: u16)
                               (word_cat (m ! (unat a + 1)) (m ! unat a) :: u16)) else None)"

lemma in_range:
  assumes "unat a + k \<le> length m" "length m < 2 ^ 64" "k \<in> {1, 2, 4}"
  shows "\<not> out_of_range (of_nat k) a m"
proof -
  have k: "unat (of_nat k :: u64) = k" using assms(3) by (auto simp: unat_of_nat)
  have l: "unat (of_nat (length m) :: u64) = length m"
    using assms(2) by (simp add: unat_of_nat)
  have a: "unat (ucast a :: u64) = unat a"
  proof -
    have "unat a < 2 ^ 64" using unsigned_less[of a, where ?'a = nat] by simp
    then show ?thesis by (simp add: unsigned_ucast_eq take_bit_nat_eq_self)
  qed
  have "unat (of_nat (length m) - of_nat k :: u64) = length m - k"
    using assms(1) by (subst unat_sub) (simp_all add: word_le_nat_alt k l)
  then show ?thesis using assms(1) by (simp add: out_of_range_def word_less_nat_alt a)
qed

lemma cat_bytes:
  fixes v :: u16 and w :: u32
  shows "word_cat (ucast (drop_bit 8 v) :: u8) (ucast v :: u8) = v"
    "word_cat (word_cat (ucast (drop_bit 24 w) :: u8) (ucast (drop_bit 16 w) :: u8) :: u16)
       (word_cat (ucast (drop_bit 8 w) :: u8) (ucast w :: u8) :: u16) = w"
  by (rule bit_word_eqI; auto simp: bit_simps)+

interpretation byte_mem: cell_memory rdb wrb byte_at 1
proof (unfold_locales, goal_cases)
  case (1 M a v)
  then show ?case using in_range[of a 1 "emu_mem M"]
    by (auto simp: byte_at_def rdb_def Let_def split: if_splits)
next
  case (2 M a v)
  then show ?case using in_range[of a 1 "emu_mem M"]
    by (auto simp: byte_at_def wrb_def Let_def nth_list_update split: if_splits)
qed

interpretation word_mem: cell_memory rdw wrw word_at 2
proof (unfold_locales, goal_cases)
  case (1 M a v)
  then show ?case using in_range[of a 2 "emu_mem M"]
    by (auto simp: word_at_def rdw_def Let_def split: if_splits)
next
  case (2 M a v)
  then show ?case using in_range[of a 2 "emu_mem M"]
    by (auto simp: word_at_def wrw_def Let_def nth_list_update cat_bytes split: if_splits)
qed

interpretation long_mem: cell_memory rdl wrl long_at 4
proof (unfold_locales, goal_cases)
  case (1 M a v)
  then show ?case using in_range[of a 4 "emu_mem M"]
    by (auto simp: long_at_def rdl_def Let_def split: if_splits)
next
  case (2 M a v)
  then show ?case using in_range[of a 4 "emu_mem M"]
    by (auto simp: long_at_def wrl_def Let_def nth_list_update cat_bytes split: if_splits)
qed

end
