(* ===== verification/X86Decode.thy ===== *)
theory X86Decode
  imports X86Io
begin

unbundle bit_operations_syntax

text \<open>
  Instruction decoding of \<open>decode.c\<close>: immediate fetches, the data segment of the instruction, the
  registers a ModRM byte names, and the effective addresses of the 16 and 32 bit addressing modes.
  A function that gives the machine back as well may fault in the memory functions.
\<close>

section \<open>Immediates\<close>

definition fetch_byte_imm :: "'m sys_funcs \<Rightarrow> 'm X86EMU \<Rightarrow> (u8 \<times> 'm X86EMU) option" where
  "fetch_byte_imm F M =
     (let ip = R_IP (x86 M)
      in sys_rdb F (seg_addr (R_CS (x86 M)) (ucast ip)) (regs (set_IP (ip + 1)) M))"

definition fetch_word_imm :: "'m sys_funcs \<Rightarrow> 'm X86EMU \<Rightarrow> (u16 \<times> 'm X86EMU) option" where
  "fetch_word_imm F M =
     do { (fetched, M) \<leftarrow> sys_rdw F (seg_addr (R_CS (x86 M)) (ucast (R_IP (x86 M)))) M;
          Some (fetched, regs (\<lambda>st. set_IP (R_IP st + 2) st) M) }"

definition fetch_long_imm :: "'m sys_funcs \<Rightarrow> 'm X86EMU \<Rightarrow> (u32 \<times> 'm X86EMU) option" where
  "fetch_long_imm F M =
     do { (fetched, M) \<leftarrow> sys_rdl F (seg_addr (R_CS (x86 M)) (ucast (R_IP (x86 M)))) M;
          Some (fetched, regs (\<lambda>st. set_IP (R_IP st + 4) st) M) }"

text \<open>The triple \<open>(*mod, *regh, *regl)\<close>.\<close>

definition fetch_decode_modrm :: "'m sys_funcs \<Rightarrow> 'm X86EMU \<Rightarrow> ((nat \<times> nat \<times> nat) \<times> 'm X86EMU) option" where
  "fetch_decode_modrm F M =
     (let ip = R_IP (x86 M)
      in do { (fetched, M) \<leftarrow> sys_rdb F (seg_addr (R_CS (x86 M)) (ucast ip)) (regs (set_IP (ip + 1)) M);
              Some ((unat (drop_bit 6 fetched AND 0x03), unat (drop_bit 3 fetched AND 0x07),
                     unat (fetched AND 0x07)), M) })"

section \<open>The data segment\<close>

definition SYSMODE_SEGMASK :: u32 where
  "SYSMODE_SEGMASK = SYSMODE_SEG_DS_SS OR SYSMODE_SEGOVR_CS OR SYSMODE_SEGOVR_DS OR SYSMODE_SEGOVR_ES
     OR SYSMODE_SEGOVR_FS OR SYSMODE_SEGOVR_GS OR SYSMODE_SEGOVR_SS"

definition get_data_segment :: "'m X86EMU \<Rightarrow> u32 \<times> 'm X86EMU" where
  "get_data_segment M =
     (let st = x86 M;
          seg = x86_mode st AND SYSMODE_SEGMASK
      in if seg = 0 \<or> seg = SYSMODE_SEGOVR_DS \<or> seg = SYSMODE_SEGOVR_DS OR SYSMODE_SEG_DS_SS
         then (ucast (R_DS st), M)
         else if seg = SYSMODE_SEG_DS_SS then (ucast (R_SS st), M)
         else if seg = SYSMODE_SEGOVR_CS \<or> seg = SYSMODE_SEGOVR_CS OR SYSMODE_SEG_DS_SS
         then (ucast (R_CS st), M)
         else if seg = SYSMODE_SEGOVR_ES \<or> seg = SYSMODE_SEGOVR_ES OR SYSMODE_SEG_DS_SS
         then (ucast (R_ES st), M)
         else if seg = SYSMODE_SEGOVR_FS \<or> seg = SYSMODE_SEGOVR_FS OR SYSMODE_SEG_DS_SS
         then (ucast (R_FS st), M)
         else if seg = SYSMODE_SEGOVR_GS \<or> seg = SYSMODE_SEGOVR_GS OR SYSMODE_SEG_DS_SS
         then (ucast (R_GS st), M)
         else if seg = SYSMODE_SEGOVR_SS \<or> seg = SYSMODE_SEGOVR_SS OR SYSMODE_SEG_DS_SS
         then (ucast (R_SS st), M)
         else (0, X86EMU_halt_sys M))"

definition fetch_data_byte :: "'m sys_funcs \<Rightarrow> u32 \<Rightarrow> 'm X86EMU \<Rightarrow> (u8 \<times> 'm X86EMU) option" where
  "fetch_data_byte F offset M =
     (case get_data_segment M of (seg, M) \<Rightarrow> sys_rdb F (push_bit 4 seg + offset) M)"

definition fetch_data_word :: "'m sys_funcs \<Rightarrow> u32 \<Rightarrow> 'm X86EMU \<Rightarrow> (u16 \<times> 'm X86EMU) option" where
  "fetch_data_word F offset M =
     (case get_data_segment M of (seg, M) \<Rightarrow> sys_rdw F (push_bit 4 seg + offset) M)"

definition fetch_data_long :: "'m sys_funcs \<Rightarrow> u32 \<Rightarrow> 'm X86EMU \<Rightarrow> (u32 \<times> 'm X86EMU) option" where
  "fetch_data_long F offset M =
     (case get_data_segment M of (seg, M) \<Rightarrow> sys_rdl F (push_bit 4 seg + offset) M)"

definition store_data_byte :: "'m sys_funcs \<Rightarrow> u32 \<Rightarrow> u8 \<Rightarrow> 'm X86EMU \<Rightarrow> 'm X86EMU option" where
  "store_data_byte F offset val M =
     (case get_data_segment M of (seg, M) \<Rightarrow> sys_wrb F (push_bit 4 seg + offset) val M)"

definition store_data_word :: "'m sys_funcs \<Rightarrow> u32 \<Rightarrow> u16 \<Rightarrow> 'm X86EMU \<Rightarrow> 'm X86EMU option" where
  "store_data_word F offset val M =
     (case get_data_segment M of (seg, M) \<Rightarrow> sys_wrw F (push_bit 4 seg + offset) val M)"

definition store_data_long :: "'m sys_funcs \<Rightarrow> u32 \<Rightarrow> u32 \<Rightarrow> 'm X86EMU \<Rightarrow> 'm X86EMU option" where
  "store_data_long F offset val M =
     (case get_data_segment M of (seg, M) \<Rightarrow> sys_wrl F (push_bit 4 seg + offset) val M)"

section \<open>Registers of the ModRM byte\<close>

text \<open>The C functions return a pointer into the register file: here the register's name.\<close>

datatype reg8 = AL | CL | DL | BL | AH | CH | DH | BH
datatype reg16 = AX | CX | DX | BX | SP | BP | SI | DI
datatype reg32 = EAX | ECX | EDX | EBX | ESP | EBP | ESI | EDI
datatype sreg = ES | CS | SS | DS | FS | GS

definition decode_rm_byte_register :: "nat \<Rightarrow> 'm X86EMU \<Rightarrow> reg8 option \<times> 'm X86EMU" where
  "decode_rm_byte_register r M =
     (if r = 0 then (Some AL, M) else if r = 1 then (Some CL, M) else if r = 2 then (Some DL, M) else 
      if r = 3 then (Some BL, M) else if r = 4 then (Some AH, M) else if r = 5 then (Some CH, M) else 
      if r = 6 then (Some DH, M) else if r = 7 then (Some BH, M) else (None, X86EMU_halt_sys M))"

definition decode_rm_word_register :: "nat \<Rightarrow> 'm X86EMU \<Rightarrow> reg16 option \<times> 'm X86EMU" where
  "decode_rm_word_register r M =
     (if r = 0 then (Some AX, M) else if r = 1 then (Some CX, M) else if r = 2 then (Some DX, M) else 
      if r = 3 then (Some BX, M) else if r = 4 then (Some SP, M) else if r = 5 then (Some BP, M) else 
      if r = 6 then (Some SI, M) else if r = 7 then (Some DI, M) else (None, X86EMU_halt_sys M))"

definition decode_rm_long_register :: "nat \<Rightarrow> 'm X86EMU \<Rightarrow> reg32 option \<times> 'm X86EMU" where
  "decode_rm_long_register r M =
     (if r = 0 then (Some EAX, M) else if r = 1 then (Some ECX, M) else if r = 2 then (Some EDX, M) else 
      if r = 3 then (Some EBX, M) else if r = 4 then (Some ESP, M) else if r = 5 then (Some EBP, M) else 
      if r = 6 then (Some ESI, M) else if r = 7 then (Some EDI, M) else (None, X86EMU_halt_sys M))"

definition decode_rm_seg_register :: "nat \<Rightarrow> 'm X86EMU \<Rightarrow> sreg option \<times> 'm X86EMU" where
  "decode_rm_seg_register r M =
     (if r = 0 then (Some ES, M) else if r = 1 then (Some CS, M) else if r = 2 then (Some SS, M) else 
      if r = 3 then (Some DS, M) else if r = 4 then (Some FS, M) else if r = 5 then (Some GS, M) else 
      (None, X86EMU_halt_sys M))"

section \<open>Effective addresses\<close>

text \<open>\<open>M.x86.mode |= SYSMODE_SEG_DS_SS\<close>\<close>

definition use_stack_segment :: "'m X86EMU \<Rightarrow> 'm X86EMU" where
  "use_stack_segment = regs (\<lambda>st. st\<lparr> x86_mode := x86_mode st OR SYSMODE_SEG_DS_SS \<rparr>)"

text \<open>The base and the index of a SIB byte.\<close>

definition sib_base :: "'m sys_funcs \<Rightarrow> nat \<Rightarrow> nat \<Rightarrow> 'm X86EMU \<Rightarrow> (u32 \<times> 'm X86EMU) option" where
  "sib_base F b md M =
     (if b = 0 then Some (R_EAX (x86 M), M)
      else if b = 1 then Some (R_ECX (x86 M), M)
      else if b = 2 then Some (R_EDX (x86 M), M)
      else if b = 3 then Some (R_EBX (x86 M), M)
      else if b = 4 then Some (R_ESP (x86 M), use_stack_segment M)
      else if b = 5 then
        (if md = 0 then fetch_long_imm F M else Some (R_ESP (x86 M), use_stack_segment M))
      else if b = 6 then Some (R_ESI (x86 M), M)
      else Some (R_EDI (x86 M), M))"

definition sib_index :: "nat \<Rightarrow> x86_regs \<Rightarrow> u32" where
  "sib_index i st =
     (if i = 0 then R_EAX st else if i = 1 then R_ECX st else if i = 2 then R_EDX st
      else if i = 3 then R_EBX st else if i = 4 then 0 else if i = 5 then R_EBP st
      else if i = 6 then R_ESI st else R_EDI st)"

definition decode_sib_address :: "'m sys_funcs \<Rightarrow> u8 \<Rightarrow> nat \<Rightarrow> 'm X86EMU \<Rightarrow> (u32 \<times> 'm X86EMU) option" where
  "decode_sib_address F sib md M =
     do { (base, M) \<leftarrow> sib_base F (unat (sib AND 0x07)) md M;
          let i = sib_index (unat (drop_bit 3 sib AND 0x07)) (x86 M);
          let scale = push_bit (unat (drop_bit 6 sib AND 0x03)) 1;
          Some (base + i * scale, M) }"

definition addr32 :: "x86_regs \<Rightarrow> bool" where
  "addr32 st \<longleftrightarrow> x86_mode st AND SYSMODE_PREFIX_ADDR \<noteq> 0"

definition decode_rm00_address :: "'m sys_funcs \<Rightarrow> nat \<Rightarrow> 'm X86EMU \<Rightarrow> (u32 \<times> 'm X86EMU) option" where
  "decode_rm00_address F rm M =
     (let st = x86 M
      in if addr32 st then
           (if rm = 0 then Some (R_EAX st, M)
            else if rm = 1 then Some (R_ECX st, M)
            else if rm = 2 then Some (R_EDX st, M)
            else if rm = 3 then Some (R_EBX st, M)
            else if rm = 4 then do { (sib, M) \<leftarrow> fetch_byte_imm F M; decode_sib_address F sib 0 M }
            else if rm = 5 then fetch_long_imm F M
            else if rm = 6 then Some (R_ESI st, M)
            else if rm = 7 then Some (R_EDI st, M)
            else Some (0, X86EMU_halt_sys M))
         else
           (if rm = 0 then Some ((ucast (R_BX st) + ucast (R_SI st)) AND 0xffff, M)
            else if rm = 1 then Some ((ucast (R_BX st) + ucast (R_DI st)) AND 0xffff, M)
            else if rm = 2 then Some ((ucast (R_BP st) + ucast (R_SI st)) AND 0xffff, use_stack_segment M)
            else if rm = 3 then Some ((ucast (R_BP st) + ucast (R_DI st)) AND 0xffff, use_stack_segment M)
            else if rm = 4 then Some (ucast (R_SI st), M)
            else if rm = 5 then Some (ucast (R_DI st), M)
            else if rm = 6 then do { (offset, M) \<leftarrow> fetch_word_imm F M; Some (ucast offset, M) }
            else if rm = 7 then Some (ucast (R_BX st), M)
            else Some (0, X86EMU_halt_sys M)))"

definition decode_rm01_address :: "'m sys_funcs \<Rightarrow> nat \<Rightarrow> 'm X86EMU \<Rightarrow> (u32 \<times> 'm X86EMU) option" where
  "decode_rm01_address F rm M =
     do { (displacement, M) \<leftarrow> (if addr32 (x86 M) \<and> rm = 4 then Some (0, M)
                               else do { (d, M) \<leftarrow> fetch_byte_imm F M; Some (scast d, M) });
          let st = x86 M;
          if addr32 st then
           (if rm = 0 then Some (R_EAX st + displacement, M)
            else if rm = 1 then Some (R_ECX st + displacement, M)
            else if rm = 2 then Some (R_EDX st + displacement, M)
            else if rm = 3 then Some (R_EBX st + displacement, M)
            else if rm = 4 then
              do { (sib, M) \<leftarrow> fetch_byte_imm F M;
                   (d, M) \<leftarrow> fetch_byte_imm F M;
                   let displacement = scast d;
                   (a, M) \<leftarrow> decode_sib_address F sib 1 M;
                   Some (a + displacement, M) }
            else if rm = 5 then Some (R_EBP st + displacement, M)
            else if rm = 6 then Some (R_ESI st + displacement, M)
            else if rm = 7 then Some (R_EDI st + displacement, M)
            else Some (0, X86EMU_halt_sys M))
          else
           (if rm = 0 then Some ((ucast (R_BX st) + ucast (R_SI st) + displacement) AND 0xffff, M)
            else if rm = 1 then Some ((ucast (R_BX st) + ucast (R_DI st) + displacement) AND 0xffff, M)
            else if rm = 2 then Some ((ucast (R_BP st) + ucast (R_SI st) + displacement) AND 0xffff, use_stack_segment M)
            else if rm = 3 then Some ((ucast (R_BP st) + ucast (R_DI st) + displacement) AND 0xffff, use_stack_segment M)
            else if rm = 4 then Some ((ucast (R_SI st) + displacement) AND 0xffff, M)
            else if rm = 5 then Some ((ucast (R_DI st) + displacement) AND 0xffff, M)
            else if rm = 6 then Some ((ucast (R_BP st) + displacement) AND 0xffff, use_stack_segment M)
            else if rm = 7 then Some ((ucast (R_BX st) + displacement) AND 0xffff, M)
            else Some (0, X86EMU_halt_sys M)) }"

definition decode_rm10_address :: "'m sys_funcs \<Rightarrow> nat \<Rightarrow> 'm X86EMU \<Rightarrow> (u32 \<times> 'm X86EMU) option" where
  "decode_rm10_address F rm M =
     do { (displacement, M) \<leftarrow> (if \<not> addr32 (x86 M)
                               then do { (d, M) \<leftarrow> fetch_word_imm F M; Some (ucast d, M) }
                               else if rm \<noteq> 4 then fetch_long_imm F M else Some (0, M));
          let st = x86 M;
          if addr32 st then
           (if rm = 0 then Some (R_EAX st + displacement, M)
            else if rm = 1 then Some (R_ECX st + displacement, M)
            else if rm = 2 then Some (R_EDX st + displacement, use_stack_segment M)
            else if rm = 3 then Some (R_EBX st + displacement, M)
            else if rm = 4 then
              do { (sib, M) \<leftarrow> fetch_byte_imm F M;
                   (displacement, M) \<leftarrow> fetch_long_imm F M;
                   (a, M) \<leftarrow> decode_sib_address F sib 2 M;
                   Some (a + displacement, M) }
            else if rm = 5 then Some (R_EBP st + displacement, M)
            else if rm = 6 then Some (R_ESI st + displacement, M)
            else if rm = 7 then Some (R_EDI st + displacement, M)
            else Some (0, X86EMU_halt_sys M))
          else
           (if rm = 0 then Some ((ucast (R_BX st) + ucast (R_SI st) + displacement) AND 0xffff, M)
            else if rm = 1 then Some ((ucast (R_BX st) + ucast (R_DI st) + displacement) AND 0xffff, M)
            else if rm = 2 then Some ((ucast (R_BP st) + ucast (R_SI st) + displacement) AND 0xffff, use_stack_segment M)
            else if rm = 3 then Some ((ucast (R_BP st) + ucast (R_DI st) + displacement) AND 0xffff, use_stack_segment M)
            else if rm = 4 then Some ((ucast (R_SI st) + displacement) AND 0xffff, M)
            else if rm = 5 then Some ((ucast (R_DI st) + displacement) AND 0xffff, M)
            else if rm = 6 then Some ((ucast (R_BP st) + displacement) AND 0xffff, use_stack_segment M)
            else if rm = 7 then Some ((ucast (R_BX st) + displacement) AND 0xffff, M)
            else Some (0, X86EMU_halt_sys M)) }"

end
