(* ===== verification/X86Stack.thy ===== *)
theory X86Stack
  imports X86Io
begin

unbundle bit_operations_syntax

text \<open>
  What the stack and the interrupt entry promise on the default memory: words come back in the
  opposite order, and the entry of an interrupt leaves the frame from which a return restores
  flags, CS and IP.
\<close>

section \<open>Addresses\<close>

lemma unat_seg_addr: "unat (seg_addr s (ucast p)) = unat s * 16 + unat (p :: u16)"
proof -
  have s: "unat s < 65536" "unat p < 65536"
    using unsigned_less[of s, where ?'a = nat] unsigned_less[of p, where ?'a = nat] by simp_all
  have "unat (push_bit 4 (ucast s) :: u32) = unat s * 16"
    using s by (simp add: push_bit_eq_mult unat_word_ariths unat_up)
  then show ?thesis using s by (simp add: seg_addr_def unat_word_ariths unat_up)
qed

text \<open>A block that covers the whole address space of real mode.\<close>

definition real_mode_block :: "u8 list \<Rightarrow> bool" where
  "real_mode_block m \<longleftrightarrow> 0x110000 \<le> length m \<and> length m < 2 ^ 64"

lemma word_at_real_mode:
  assumes "real_mode_block m"
  shows "word_at m (seg_addr s (ucast (p :: u16))) \<noteq> None"
    and "unat a < 0x10FFFF \<Longrightarrow> word_at m a \<noteq> None"
proof -
  have "unat s < 65536" "unat p < 65536"
    using unsigned_less[of s, where ?'a = nat] unsigned_less[of p, where ?'a = nat] by simp_all
  then show "word_at m (seg_addr s (ucast p)) \<noteq> None"
    using assms by (simp add: word_at_def real_mode_block_def unat_seg_addr)
qed (use assms in \<open>simp add: word_at_def real_mode_block_def\<close>)

text \<open>Slots of the stack two or four bytes apart do not overlap, also where SP wraps around.\<close>

lemma slots_apart:
  fixes p :: u16
  assumes "k \<in> {2, 4}"
  shows "unat (seg_addr s (ucast (p - k))) + 2 \<le> unat (seg_addr s (ucast p))
    \<or> unat (seg_addr s (ucast p)) + 2 \<le> unat (seg_addr s (ucast (p - k)))"
proof -
  have p: "unat p < 65536" using unsigned_less[of p, where ?'a = nat] by simp
  have "unat (p - k) = (if unat k \<le> unat p then unat p - unat k else unat p + 65536 - unat k)"
    using unat_sub_if'[of p k] by simp
  moreover have "unat k = 2 \<or> unat k = 4" using assms by auto
  ultimately show ?thesis using p unfolding unat_seg_addr by (auto split: if_splits)
qed

section \<open>Registers\<close>

lemma regs_simps [simp]:
  "x86 (regs f M) = f (x86 M)" "emu_mem (regs f M) = emu_mem M" "regs f (regs g M) = regs (\<lambda>st. f (g st)) M"
  "(regs f M)\<lparr> emu_mem := m \<rparr> = regs f (M\<lparr> emu_mem := m \<rparr>)"
  by (simp_all add: regs_def)

lemma sp_simps [simp]:
  "R_SP (set_SP v st) = v" "R_SS (set_SP v st) = R_SS st" "R_CS (set_SP v st) = R_CS st"
  "R_IP (set_SP v st) = R_IP st" "R_FLG (set_SP v st) = R_FLG st"
  by (simp_all add: R_SP_def set_SP_def R_IP_def)

lemma set_SP_same [simp]: "set_SP (R_SP st) st = st" "set_SP v (set_SP w st) = set_SP v st"
proof -
  have "set_x_reg (x_reg r) r = r" "set_x_reg v (set_x_reg w r) = set_x_reg v r" for r
    by (rule bit_word_eqI; auto simp: set_x_reg_def x_reg_def reg_masks bit_simps dest: bit_imp_le_length)+
  then show "set_SP (R_SP st) st = st" "set_SP v (set_SP w st) = set_SP v st"
    by (simp_all add: set_SP_def R_SP_def)
qed

lemma default_simps [simp]:
  "sys_rdw default_funcs = rdw" "sys_wrw default_funcs = wrw" "sys_rdl default_funcs = rdl"
  "sys_wrl default_funcs = wrl"
  by (simp_all add: default_funcs_def)

section \<open>The stack\<close>

lemma wrw_length: "wrw a w M = Some M' \<Longrightarrow> length (emu_mem M') = length (emu_mem M)"
  by (auto simp: wrw_def Let_def X86EMU_halt_sys_def regs_def split: if_splits)

lemma wrb_length: "wrb a v M = Some M' \<Longrightarrow> length (emu_mem M') = length (emu_mem M)"
  by (auto simp: wrb_def Let_def X86EMU_halt_sys_def regs_def split: if_splits)

lemma push_word_default:
  assumes "real_mode_block (emu_mem M)"
  defines "a \<equiv> seg_addr (R_SS (x86 M)) (ucast (R_SP (x86 M) - 2))"
  obtains m where "push_word default_funcs w M
      = Some (regs (\<lambda>st. set_SP (R_SP st - 2) st) (M\<lparr> emu_mem := m \<rparr>))"
    "word_at m a = Some w" "real_mode_block m"
    "\<And>b. unat a + 2 \<le> unat b \<or> unat b + 2 \<le> unat a \<Longrightarrow> word_at m b = word_at (emu_mem M) b"
proof -
  let ?M = "regs (\<lambda>st. set_SP (R_SP st - 2) st) M"
  have "word_at (emu_mem ?M) a \<noteq> None"
    unfolding a_def using word_at_real_mode(1)[OF assms(1)] by simp
  from word_mem.write_read[OF this, of w] obtain m where m:
    "wrw a w ?M = Some (?M\<lparr> emu_mem := m \<rparr>)" "word_at m a = Some w"
    "\<And>b. unat a + 2 \<le> unat b \<or> unat b + 2 \<le> unat a \<Longrightarrow> word_at m b = word_at (emu_mem M) b"
    by (auto simp: regs_def)
  have "length m = length (emu_mem M)"
    using wrw_length[OF m(1)] by simp
  then have "real_mode_block m" using assms(1) by (simp add: real_mode_block_def)
  moreover have "push_word default_funcs w M = Some (regs (\<lambda>st. set_SP (R_SP st - 2) st) (M\<lparr> emu_mem := m \<rparr>))"
    using m(1) by (simp add: push_word_def a_def)
  ultimately show ?thesis using that m(2,3) by blast
qed

lemma pop_word_default:
  assumes "word_at (emu_mem M) (seg_addr (R_SS (x86 M)) (ucast (R_SP (x86 M)))) = Some w"
  shows "pop_word default_funcs M = Some (w, regs (\<lambda>st. set_SP (R_SP st + 2) st) M)"
  using word_mem.rd_cell[OF assms] by (simp add: pop_word_def)

text \<open>
  The stack is last in, first out: on a block that covers real mode, two words pushed come
  back in the opposite order, and SS:SP and every other register are what they were, also when SP
  wraps around.
\<close>

theorem stack_lifo:
  assumes "real_mode_block (emu_mem M)"
  shows "\<exists>m. do { M \<leftarrow> push_word default_funcs v M; M \<leftarrow> push_word default_funcs w M;
               (x, M) \<leftarrow> pop_word default_funcs M; (y, M) \<leftarrow> pop_word default_funcs M;
               Some (x, y, M) } = Some (w, v, M\<lparr> emu_mem := m \<rparr>)"
proof -
  obtain m1 where m1: "push_word default_funcs v M
      = Some (regs (\<lambda>st. set_SP (R_SP st - 2) st) (M\<lparr> emu_mem := m1 \<rparr>))"
    "word_at m1 (seg_addr (R_SS (x86 M)) (ucast (R_SP (x86 M) - 2))) = Some v" "real_mode_block m1"
    using push_word_default[OF assms, of v] by blast
  let ?M1 = "regs (\<lambda>st. set_SP (R_SP st - 2) st) (M\<lparr> emu_mem := m1 \<rparr>)"
  have "real_mode_block (emu_mem ?M1)" using m1(3) by simp
  from push_word_default[OF this, of w] obtain m2 where m2: "push_word default_funcs w ?M1
      = Some (regs (\<lambda>st. set_SP (R_SP st - 2) st) (?M1\<lparr> emu_mem := m2 \<rparr>))"
    "word_at m2 (seg_addr (R_SS (x86 M)) (ucast (R_SP (x86 M) - 4))) = Some w"
    "\<And>b. unat (seg_addr (R_SS (x86 M)) (ucast (R_SP (x86 M) - 4))) + 2 \<le> unat b
       \<or> unat b + 2 \<le> unat (seg_addr (R_SS (x86 M)) (ucast (R_SP (x86 M) - 4))) \<Longrightarrow> word_at m2 b = word_at m1 b"
    by auto
  have "word_at m2 (seg_addr (R_SS (x86 M)) (ucast (R_SP (x86 M) - 2))) = Some v"
    using m2(3)[of "seg_addr (R_SS (x86 M)) (ucast (R_SP (x86 M) - 2))"]
      slots_apart[of 2 "R_SS (x86 M)" "R_SP (x86 M) - 2"] m1(2) by simp
  then have two: "pop_word default_funcs (regs (\<lambda>st. set_SP (R_SP st - 2) st) (M\<lparr> emu_mem := m2 \<rparr>))
      = Some (v, M\<lparr> emu_mem := m2 \<rparr>)"
    by (subst pop_word_default) (simp_all add: regs_def)
  have one: "pop_word default_funcs (regs (\<lambda>st. set_SP (R_SP st - 2) st) (?M1\<lparr> emu_mem := m2 \<rparr>))
      = Some (w, regs (\<lambda>st. set_SP (R_SP st - 2) st) (M\<lparr> emu_mem := m2 \<rparr>))"
    using m2(2) by (subst pop_word_default) (simp_all add: regs_def)
  show ?thesis by (intro exI[of _ m2]) (simp only: m1(1) m2(1) one two bind.bind_lunit prod.case)
qed

theorem stack_lifo_witness:
  "\<exists>m. do { M \<leftarrow> push_word default_funcs 7 \<lparr> x86 = reset_regs, emu_mem = replicate 0x110000 0 \<rparr>;
          M \<leftarrow> push_word default_funcs 9 M;
          (x, M) \<leftarrow> pop_word default_funcs M; (y, M) \<leftarrow> pop_word default_funcs M;
          Some (x, y, M) } = Some (9, 7, \<lparr> x86 = reset_regs, emu_mem = m \<rparr>)"
  using stack_lifo[of "\<lparr> x86 = reset_regs, emu_mem = replicate 0x110000 0 \<rparr>" 7 9]
  by (simp add: real_mode_block_def)

section \<open>Interrupt entry\<close>

lemma entry_simps [simp]:
  "R_SP (CLEAR_FLAG f st) = R_SP st" "R_SS (CLEAR_FLAG f st) = R_SS st" "R_CS (CLEAR_FLAG f st) = R_CS st"
  "R_IP (CLEAR_FLAG f st) = R_IP st" "R_SP (st\<lparr> R_CS := v \<rparr>) = R_SP st" "R_IP (st\<lparr> R_CS := v \<rparr>) = R_IP st"
  "R_SP (set_IP v st) = R_SP st" "R_SS (set_IP v st) = R_SS st" "R_CS (set_IP v st) = R_CS st"
  "R_IP (set_IP v st) = v" "R_SP (st\<lparr> x86_intr := i \<rparr>) = R_SP st" "R_IP (st\<lparr> x86_intr := i \<rparr>) = R_IP st"
  "R_FLG (set_IP v st) = R_FLG st"
  by (simp_all add: CLEAR_FLAG_def R_SP_def R_IP_def set_IP_def)

lemma access_simps [simp]:
  "ACCESS_FLAG f (set_SP v st) = ACCESS_FLAG f st" "ACCESS_FLAG f (set_IP v st) = ACCESS_FLAG f st"
  "ACCESS_FLAG f (st\<lparr> R_CS := c \<rparr>) = ACCESS_FLAG f st"
  "ACCESS_FLAG f (st\<lparr> x86_intr := i \<rparr>) = ACCESS_FLAG f st"
  by (simp_all add: ACCESS_FLAG_def set_IP_def set_SP_def)

text \<open>
  The memory of a frame of three words below \<open>a\<close>, over a memory \<open>m0\<close> unchanged below it.
\<close>

definition frame_at :: "nat \<Rightarrow> u8 list \<Rightarrow> u8 list \<Rightarrow> bool" where
  "frame_at low m0 m \<longleftrightarrow> real_mode_block m \<and> (\<forall>b. unat b + 2 \<le> low \<longrightarrow> word_at m b = word_at m0 b)"

lemma push_frame:
  assumes f: "frame_at low m0 (emu_mem M)"
    and s: "R_SS (x86 M) = s" and q: "R_SP (x86 M) - 2 = q" and a: "low \<le> unat (seg_addr s (ucast q))"
  obtains m where "push_word default_funcs w M
      = Some (regs (\<lambda>st. set_SP (R_SP st - 2) st) (M\<lparr> emu_mem := m \<rparr>))" "frame_at low m0 m"
    "word_at m (seg_addr s (ucast q)) = Some w"
    "word_at m (seg_addr s (ucast (q + 2))) = word_at (emu_mem M) (seg_addr s (ucast (q + 2)))"
    "word_at m (seg_addr s (ucast (q + 4))) = word_at (emu_mem M) (seg_addr s (ucast (q + 4)))"
proof -
  have rm: "real_mode_block (emu_mem M)" using f by (simp add: frame_at_def)
  obtain m where m: "push_word default_funcs w M
      = Some (regs (\<lambda>st. set_SP (R_SP st - 2) st) (M\<lparr> emu_mem := m \<rparr>))"
    "word_at m (seg_addr s (ucast q)) = Some w" "real_mode_block m"
    "\<And>b. unat (seg_addr s (ucast q)) + 2 \<le> unat b \<or> unat b + 2 \<le> unat (seg_addr s (ucast q))
      \<Longrightarrow> word_at m b = word_at (emu_mem M) b"
    using push_word_default[OF rm, of w] unfolding s q by blast
  have "frame_at low m0 m" using f a m(3,4) by (auto simp: frame_at_def)
  moreover have "word_at m (seg_addr s (ucast (q + k))) = word_at (emu_mem M) (seg_addr s (ucast (q + k)))"
    if "k \<in> {2, 4}" for k
    using slots_apart[OF that, of s "q + k"] by (intro m(4)) auto
  ultimately show ?thesis using that m(1,2) by blast
qed

text \<open>
  Entering an interrupt: with the stack above the vector table and no wrap-around, the entry
  loads CS:IP from the vector of the interrupt, clears IF, TF and the pending interrupt, and leaves
  the frame from which three pops return the old IP, CS and flags, and the old SP.
\<close>

theorem interrupt_entry:
  assumes mem: "real_mode_block (emu_mem M)" and num: "unat num < 256"
    and sp: "6 \<le> unat (R_SP (x86 M))" "0x406 \<le> unat (R_SS (x86 M)) * 16 + unat (R_SP (x86 M))"
  shows "\<exists>M'. X86EMU_prepareForInt default_funcs num M = Some M'
    \<and> word_at (emu_mem M) (num * 4 + 2) = Some (R_CS (x86 M')) \<and> word_at (emu_mem M) (num * 4) = Some (R_IP (x86 M'))
    \<and> x86_intr (x86 M') = 0 \<and> \<not> ACCESS_FLAG F_IF (x86 M') \<and> \<not> ACCESS_FLAG F_TF (x86 M')
    \<and> do { (ip, M) \<leftarrow> pop_word default_funcs M'; (cs, M) \<leftarrow> pop_word default_funcs M;
           (flags, M) \<leftarrow> pop_word default_funcs M; Some (ip, cs, flags, R_SP (x86 M)) }
       = Some (R_IP (x86 M), R_CS (x86 M), ucast (R_FLG (x86 M)), R_SP (x86 M))"
proof -
  define s p where "s = R_SS (x86 M)" and "p = R_SP (x86 M)"
  have low: "0x400 \<le> unat (seg_addr s (ucast (p - 2)))" "0x400 \<le> unat (seg_addr s (ucast (p - 4)))"
    "0x400 \<le> unat (seg_addr s (ucast (p - 6)))"
  proof -
    have "unat (p - 2) = unat p - 2" "unat (p - 4) = unat p - 4" "unat (p - 6) = unat p - 6"
      using sp(1) by (simp_all add: unat_sub word_le_nat_alt p_def)
    then show "0x400 \<le> unat (seg_addr s (ucast (p - 2)))" "0x400 \<le> unat (seg_addr s (ucast (p - 4)))"
      "0x400 \<le> unat (seg_addr s (ucast (p - 6)))"
      using sp by (simp_all add: unat_seg_addr s_def p_def)
  qed
  have vec: "unat (num * 4 + 2) + 2 \<le> 0x400" "unat (num * 4) + 2 \<le> 0x400"
    using num by (simp_all add: unat_word_ariths)
  obtain cs ip where v: "word_at (emu_mem M) (num * 4 + 2) = Some cs" "word_at (emu_mem M) (num * 4) = Some ip"
    using word_at_real_mode(2)[OF mem, of "num * 4 + 2"] word_at_real_mode(2)[OF mem, of "num * 4"] vec by force
  have f0: "frame_at 0x400 (emu_mem M) (emu_mem M)" using mem by (simp add: frame_at_def)
  obtain m1 where m1: "push_word default_funcs (ucast (R_FLG (x86 M))) M
      = Some (regs (\<lambda>st. set_SP (R_SP st - 2) st) (M\<lparr> emu_mem := m1 \<rparr>))" "frame_at 0x400 (emu_mem M) m1"
    "word_at m1 (seg_addr s (ucast (p - 2))) = Some (ucast (R_FLG (x86 M)))"
    by (rule push_frame[OF f0 _ _ low(1), of "ucast (R_FLG (x86 M))"]) (simp_all add: s_def p_def)
  define M1 where "M1 = regs (\<lambda>st. CLEAR_FLAG F_TF (CLEAR_FLAG F_IF (set_SP (R_SP st - 2) st))) (M\<lparr> emu_mem := m1 \<rparr>)"
  have r1: "R_SP (x86 M1) = p - 2" "R_SS (x86 M1) = s" "R_CS (x86 M1) = R_CS (x86 M)" "emu_mem M1 = m1"
    "R_IP (x86 M1) = R_IP (x86 M)"
    by (simp_all add: M1_def s_def p_def)
  obtain m2 where m2: "push_word default_funcs (R_CS (x86 M1)) M1
      = Some (regs (\<lambda>st. set_SP (R_SP st - 2) st) (M1\<lparr> emu_mem := m2 \<rparr>))" "frame_at 0x400 (emu_mem M) m2"
    "word_at m2 (seg_addr s (ucast (p - 4))) = Some (R_CS (x86 M))"
    "word_at m2 (seg_addr s (ucast (p - 2))) = Some (ucast (R_FLG (x86 M)))"
    by (rule push_frame[OF _ _ _ low(2), of "emu_mem M" M1 "R_CS (x86 M1)"]) (use m1(2,3) r1 in simp_all)
  define M2 where "M2 = regs (\<lambda>st. (set_SP (R_SP st - 2) st)\<lparr> R_CS := cs \<rparr>) (M1\<lparr> emu_mem := m2 \<rparr>)"
  have r2: "R_SP (x86 M2) = p - 4" "R_SS (x86 M2) = s" "R_IP (x86 M2) = R_IP (x86 M)" "emu_mem M2 = m2"
    by (simp_all add: M2_def M1_def s_def p_def)
  obtain m3 where m3: "push_word default_funcs (R_IP (x86 M2)) M2
      = Some (regs (\<lambda>st. set_SP (R_SP st - 2) st) (M2\<lparr> emu_mem := m3 \<rparr>))" "frame_at 0x400 (emu_mem M) m3"
    "word_at m3 (seg_addr s (ucast (p - 6))) = Some (R_IP (x86 M))"
    "word_at m3 (seg_addr s (ucast (p - 4))) = Some (R_CS (x86 M))"
    "word_at m3 (seg_addr s (ucast (p - 2))) = Some (ucast (R_FLG (x86 M)))"
    by (rule push_frame[OF _ _ _ low(3), of "emu_mem M" M2 "R_IP (x86 M2)"]) (use m2(2-4) r2 in simp_all)
  define M3 where "M3 = regs (\<lambda>st. (set_IP ip (set_SP (R_SP st - 2) st))\<lparr> x86_intr := 0 \<rparr>) (M2\<lparr> emu_mem := m3 \<rparr>)"
  have cs: "rdw (num * 4 + 2) (regs f (M1\<lparr> emu_mem := m2 \<rparr>)) = Some (cs, regs f (M1\<lparr> emu_mem := m2 \<rparr>))" for f
    using m2(2) vec(1) v(1) by (intro word_mem.rd_cell) (simp add: frame_at_def)
  have ip: "rdw (num * 4) (regs f (M2\<lparr> emu_mem := m3 \<rparr>)) = Some (ip, regs f (M2\<lparr> emu_mem := m3 \<rparr>))" for f
    using m3(2) vec(2) v(2) by (intro word_mem.rd_cell) (simp add: frame_at_def)
  have entry: "X86EMU_prepareForInt default_funcs num M = Some M3"
    using m1(1) m2(1)[unfolded r1(3)] m3(1)[unfolded r2(3)]
    unfolding X86EMU_prepareForInt_def mem_access_word_def
    by (simp add: cs ip r1 M1_def[symmetric] M2_def[symmetric] M3_def[symmetric])
  have r3: "R_SP (x86 M3) = p - 6" "R_SS (x86 M3) = s" "emu_mem M3 = m3"
    by (simp_all add: M3_def M2_def M1_def s_def p_def)
  have pops: "do { (ip, M) \<leftarrow> pop_word default_funcs M3; (cs, M) \<leftarrow> pop_word default_funcs M;
           (flags, M) \<leftarrow> pop_word default_funcs M; Some (ip, cs, flags, R_SP (x86 M)) }
       = Some (R_IP (x86 M), R_CS (x86 M), ucast (R_FLG (x86 M)), p)"
    using m3(3-5) by (simp add: pop_word_default r3)
  show ?thesis
    using entry pops v
    by (intro exI[of _ M3]) (simp add: M3_def M2_def M1_def p_def flag_simps)
qed

theorem interrupt_entry_witness:
  "\<exists>M'. X86EMU_prepareForInt default_funcs 0x10
       \<lparr> x86 = reset_regs\<lparr> R_SS := 0x1000, R_ESP := 0x100, R_CS := 0xC000, R_EIP := 3 \<rparr>,
         emu_mem = replicate 0x110000 0 \<rparr> = Some M' \<and> x86_intr (x86 M') = 0
     \<and> do { (ip, M) \<leftarrow> pop_word default_funcs M'; (cs, M) \<leftarrow> pop_word default_funcs M;
            (flags, M) \<leftarrow> pop_word default_funcs M; Some (ip, cs, flags, R_SP (x86 M)) }
        = Some (3, 0xC000, 2, 0x100)"
  using interrupt_entry[of "\<lparr> x86 = reset_regs\<lparr> R_SS := 0x1000, R_ESP := 0x100, R_CS := 0xC000, R_EIP := 3 \<rparr>,
      emu_mem = replicate 0x110000 0 \<rparr>" "0x10"]
  by (auto simp: real_mode_block_def reset_regs_def R_SP_def R_IP_def x_reg_def)

section \<open>Repeated string input\<close>

text \<open>Setting DI: the rest of the registers stays.\<close>

lemma di_simps [simp]:
  "R_DI (set_DI v st) = v" "R_ES (set_DI v st) = R_ES st" "set_DI v (set_DI w st) = set_DI v st"
  "set_DI (R_DI st) st = st" "R_ECX (set_DI v st) = R_ECX st" "x86_mode (set_DI v st) = x86_mode st"
proof -
  have "set_x_reg (x_reg r) r = r" "set_x_reg v (set_x_reg w r) = set_x_reg v r" for r
    by (rule bit_word_eqI; auto simp: set_x_reg_def x_reg_def reg_masks bit_simps dest: bit_imp_le_length)+
  then show "set_DI v (set_DI w st) = set_DI v st" "set_DI (R_DI st) st = st"
    by (simp_all add: set_DI_def R_DI_def)
qed (simp_all add: R_DI_def set_DI_def)

lemma ins_byte_step:
  assumes "real_mode_block (emu_mem M)"
  obtains m where "ins_transfer default_funcs 1 M = Some (M\<lparr> emu_mem := m \<rparr>)" "real_mode_block m"
proof -
  let ?a = "seg_addr (R_ES (x86 M)) (ucast (R_DI (x86 M)))"
  have "byte_at (emu_mem M) ?a \<noteq> None"
    using word_at_real_mode(1)[OF assms, of "R_ES (x86 M)" "R_DI (x86 M)"]
    by (auto simp: byte_at_def word_at_def split: if_splits)
  from byte_mem.write_read[OF this, of 0] obtain m where m: "wrb ?a 0 M = Some (M\<lparr> emu_mem := m \<rparr>)" by blast
  have "length (emu_mem (M\<lparr> emu_mem := m \<rparr>)) = length (emu_mem M)"
    by (rule wrb_length[OF m])
  then have "real_mode_block m" using assms by (simp add: real_mode_block_def)
  with m show ?thesis
    by (intro that) (simp_all add: ins_transfer_def default_funcs_def p_inb_def store_data_byte_abs_def)
qed

lemma ins_loop_bytes:
  assumes "real_mode_block (emu_mem M)"
  shows "\<exists>m. ins_loop default_funcs 1 inc n M
      = Some (regs (\<lambda>st. set_DI (R_DI st + of_nat n * inc) st) (M\<lparr> emu_mem := m \<rparr>)) \<and> real_mode_block m"
  using assms
proof (induction n arbitrary: M)
  case 0
  then show ?case by (intro exI[of _ "emu_mem M"]) (simp add: regs_def)
next
  case (Suc n)
  obtain m1 where m1: "ins_transfer default_funcs 1 M = Some (M\<lparr> emu_mem := m1 \<rparr>)" "real_mode_block m1"
    by (rule ins_byte_step[OF Suc.prems])
  let ?M1 = "regs (\<lambda>st. set_DI (R_DI st + inc) st) (M\<lparr> emu_mem := m1 \<rparr>)"
  from Suc.IH[of ?M1] m1(2) obtain m2 where m2: "ins_loop default_funcs 1 inc n ?M1
      = Some (regs (\<lambda>st. set_DI (R_DI st + of_nat n * inc) st) (?M1\<lparr> emu_mem := m2 \<rparr>))" "real_mode_block m2"
    by auto
  then show ?case using m1(1) by (intro exI[of _ m2]) (simp add: algebra_simps regs_def)
qed

text \<open>
  REP INSB always completes on the default machine: after as many transfers as the count
  register says DI has moved by the count, up or down by the direction flag and modulo \<open>2 ^ 16\<close>, the
  count is zero and the repeat prefix is gone.
\<close>

theorem rep_ins_completes:
  assumes "real_mode_block (emu_mem M)" "rep_prefix (x86 M)"
  shows "\<exists>M'. ins default_funcs 1 M = Some M' \<and> \<not> rep_prefix (x86 M') \<and> R_CX (x86 M') = 0
    \<and> R_DI (x86 M') = R_DI (x86 M)
        + (if ACCESS_FLAG F_DF (x86 M) then - ucast (rep_count (x86 M)) else ucast (rep_count (x86 M)))"
proof -
  let ?n = "unat (rep_count (x86 M))"
  let ?inc = "(if ACCESS_FLAG F_DF (x86 M) then - of_nat 1 else of_nat 1) :: u16"
  obtain m where m: "ins_loop default_funcs 1 ?inc ?n M
      = Some (regs (\<lambda>st. set_DI (R_DI st + of_nat ?n * ?inc) st) (M\<lparr> emu_mem := m \<rparr>))"
    using ins_loop_bytes[OF assms(1), of ?inc ?n] by blast
  have cnt: "(of_nat ?n :: u16) = ucast (rep_count (x86 M))"
    by (rule word_unat_eq_iff[THEN iffD2]) (simp add: unsigned_ucast_eq take_bit_eq_mod unat_of_nat)
  have done1: "R_CX (rep_done st) = 0" "R_DI (rep_done st) = R_DI st" "\<not> rep_prefix (rep_done st)" for st
  proof -
    have "x_reg (set_x_reg 0 r) = 0" "x_reg 0 = 0" for r by (simp, simp add: x_reg_def)
    then show "R_CX (rep_done st) = 0" by (simp add: rep_done_def Let_def R_CX_def set_CX_def)
    show "R_DI (rep_done st) = R_DI st" by (simp add: rep_done_def Let_def R_DI_def set_CX_def)
    have "x86_mode (rep_done st) = x86_mode st AND NOT (SYSMODE_PREFIX_REPE OR SYSMODE_PREFIX_REPNE)"
      by (simp add: rep_done_def Let_def set_CX_def del: bit.de_Morgan_disj)
    moreover have "(v AND NOT w) AND w = 0" for v w :: u32 by (rule bit_word_eqI) (auto simp: bit_simps)
    ultimately show "\<not> rep_prefix (rep_done st)"
      unfolding rep_prefix_def by (simp only: not_not)
  qed
  from m assms(2) have "ins default_funcs 1 M
      = Some (regs rep_done (regs (\<lambda>st. set_DI (R_DI st + of_nat ?n * ?inc) st) (M\<lparr> emu_mem := m \<rparr>)))"
    by (cases "ACCESS_FLAG F_DF (x86 M)") (auto simp: ins_def Let_def)
  then show ?thesis
    by (intro exI conjI) (auto simp: done1 cnt regs_def)
qed

theorem rep_ins_completes_witness:
  "\<exists>M'. ins default_funcs 1 \<lparr> x86 = reset_regs\<lparr> x86_mode := 0x80, R_ECX := 0x20000, R_EDI := 5 \<rparr>,
      emu_mem = replicate 0x110000 1 \<rparr> = Some M' \<and> R_CX (x86 M') = 0"
  using rep_ins_completes[of "\<lparr> x86 = reset_regs\<lparr> x86_mode := 0x80, R_ECX := 0x20000, R_EDI := 5 \<rparr>,
      emu_mem = replicate 0x110000 1 \<rparr>"]
  by (auto simp: real_mode_block_def rep_prefix_def reset_regs_def SYSMODE_PREFIX_REPE_def SYSMODE_PREFIX_REPNE_def)

end
