(* ===== verification/X86Address.thy ===== *)
theory X86Address
  imports X86Decode X86Stack
begin

unbundle bit_operations_syntax

text \<open>
  The effective addresses of ModRM: the 16 bit modes against the table of the processor, with the
  segment an access through them uses, and the 32 bit modes that go through EBP.
\<close>

section \<open>The 16 bit table\<close>

text \<open>The registers added up for each R/M value, with a displacement.\<close>

definition base16 :: "nat \<Rightarrow> reg16 list" where
  "base16 rm = [[BX, SI], [BX, DI], [BP, SI], [BP, DI], [SI], [DI], [BP], [BX]] ! rm"

fun reg16_val :: "x86_regs \<Rightarrow> reg16 \<Rightarrow> u16" where
  "reg16_val st AX = R_AX st"
| "reg16_val st CX = R_CX st"
| "reg16_val st DX = R_DX st"
| "reg16_val st BX = R_BX st"
| "reg16_val st SP = R_SP st"
| "reg16_val st BP = R_BP st"
| "reg16_val st SI = R_SI st"
| "reg16_val st DI = R_DI st"

definition ea16 :: "x86_regs \<Rightarrow> nat \<Rightarrow> int \<Rightarrow> int" where
  "ea16 st rm disp = (sum_list (map (\<lambda>r. uint (reg16_val st r)) (base16 rm)) + disp) mod 65536"

text \<open>The contract of a decoder: the address, and the segment of an access without override.\<close>

definition ea16_spec :: "x86_regs \<Rightarrow> nat \<Rightarrow> int \<Rightarrow> (u32 \<times> 'm X86EMU) option \<Rightarrow> bool" where
  "ea16_spec st rm disp r \<longleftrightarrow>
     (\<exists>a M'. r = Some (a, M') \<and> uint a = ea16 st rm disp
        \<and> fst (get_data_segment M') = ucast (if BP \<in> set (base16 rm) then R_SS st else R_DS st))"

lemma rm_cases: "rm < 8 \<Longrightarrow> rm \<in> {0, 1, 2, 3, 4, 5, 6, 7 :: nat}"
  by auto

lemma uint_low16: "uint (w AND 0xffff :: u32) = uint w mod 65536"
  by (simp add: byte_mask take_bit_eq_mod uint_mod flip: take_bit_eq_mask)

lemma uint_ucast16: "uint (ucast (x :: u16) :: u32) = uint x"
  using uint_lt2p[of x] by (simp add: unsigned_ucast_eq take_bit_int_eq_self)

lemma mod16: "(i mod 4294967296) mod 65536 = i mod (65536 :: int)"
  by (rule mod_mod_cancel) simp

lemma uint_sum32: "uint (a + b :: u32) = (uint a + uint b) mod 4294967296"
  by (simp add: uint_word_ariths)

lemma disp_mod: "(i + uint (scast (d :: u8) :: u32)) mod 65536 = (i + sint d) mod 65536"
proof -
  have "uint (scast d :: u32) = sint d mod 4294967296"
  proof -
    have "(scast d :: u32) = word_of_int (sint d)" by simp
    then show ?thesis by (simp only: uint_word_of_int) simp
  qed
  then have "(i + uint (scast d :: u32)) mod 65536 = (i mod 65536 + (sint d mod 4294967296) mod 65536) mod 65536"
    by (simp add: mod_simps)
  then show ?thesis by (simp only: mod16 mod_simps)
qed

lemma segment_of_mode:
  assumes "x86_mode (x86 M) AND SYSMODE_SEGMASK = 0"
  shows "fst (get_data_segment M) = ucast (R_DS (x86 M))"
    and "fst (get_data_segment (use_stack_segment M)) = ucast (R_SS (x86 M))"
proof -
  show "fst (get_data_segment M) = ucast (R_DS (x86 M))"
    using assms by (simp add: get_data_segment_def)
  have "(x86_mode (x86 M) OR SYSMODE_SEG_DS_SS) AND SYSMODE_SEGMASK = SYSMODE_SEG_DS_SS AND SYSMODE_SEGMASK"
    using assms by (simp add: bit.conj_disj_distrib2)
  also have "\<dots> = SYSMODE_SEG_DS_SS"
    by (simp add: SYSMODE_SEGMASK_def SYSMODE_SEG_DS_SS_def SYSMODE_SEGOVR_CS_def SYSMODE_SEGOVR_DS_def
        SYSMODE_SEGOVR_ES_def SYSMODE_SEGOVR_FS_def SYSMODE_SEGOVR_GS_def SYSMODE_SEGOVR_SS_def)
  finally show "fst (get_data_segment (use_stack_segment M)) = ucast (R_SS (x86 M))"
    by (simp add: get_data_segment_def use_stack_segment_def Let_def SYSMODE_SEG_DS_SS_def SYSMODE_SEGOVR_DS_def)
qed

lemma ea16_contract:
  assumes mode: "x86_mode (x86 M) AND SYSMODE_SEGMASK = 0" and st: "st = x86 M"
    and a: "uint a = ea16 st rm disp"
  shows "BP \<notin> set (base16 rm) \<Longrightarrow> ea16_spec st rm disp (Some (a, M))"
    and "BP \<in> set (base16 rm) \<Longrightarrow> ea16_spec st rm disp (Some (a, use_stack_segment M))"
  using segment_of_mode[OF mode] a by (simp_all add: ea16_spec_def st)

lemmas ea16_defs = ea16_def base16_def uint_low16 uint_sum32 uint_ucast16 mod16 mod_simps

lemma ea16_two:
  "uint ((ucast x + ucast y + scast d) AND 0xffff :: u32) = (uint (x :: u16) + uint (y :: u16) + sint (d :: u8)) mod 65536"
  "uint ((ucast x + scast d) AND 0xffff :: u32) = (uint x + sint d) mod 65536"
  "uint ((ucast x + ucast y + ucast w) AND 0xffff :: u32) = (uint x + uint y + uint (w :: u16)) mod 65536"
  "uint ((ucast x + ucast w) AND 0xffff :: u32) = (uint x + uint w) mod 65536"
proof -
  have "uint ((v + scast d) AND 0xffff :: u32) = (uint v + sint d) mod 65536" for v :: u32
    unfolding uint_low16 uint_sum32 mod16 disp_mod ..
  moreover have "uint ((v + ucast w) AND 0xffff :: u32) = (uint v + uint w) mod 65536" for v :: u32
    unfolding uint_low16 uint_sum32 mod16 uint_ucast16 ..
  moreover have "((uint x + uint y) mod 4294967296 + i) mod 65536 = (uint x + uint y + i) mod 65536" for i
  proof -
    have "((uint x + uint y) mod 4294967296 + i) mod 65536
        = ((uint x + uint y) mod 4294967296 mod 65536 + i) mod 65536" by (simp add: mod_simps)
    also have "\<dots> = (uint x + uint y + i) mod 65536" unfolding mod16 by (simp add: mod_simps algebra_simps)
    finally show ?thesis .
  qed
  ultimately show "uint ((ucast x + ucast y + scast d) AND 0xffff :: u32) = (uint x + uint y + sint d) mod 65536"
    "uint ((ucast x + scast d) AND 0xffff :: u32) = (uint x + sint d) mod 65536"
    "uint ((ucast x + ucast y + ucast w) AND 0xffff :: u32) = (uint x + uint y + uint w) mod 65536"
    "uint ((ucast x + ucast w) AND 0xffff :: u32) = (uint x + uint w) mod 65536"
    by (simp_all add: uint_sum32 uint_ucast16)
qed

text \<open>
  The 16 bit addressing modes with a displacement follow the processor's table: for every R/M
  value the offset is the sum of the base and index registers and the displacement, modulo
  \<open>2 ^ 16\<close>, a byte displacement being sign extended, and without a segment override the access goes
  through SS exactly if BP is the base, through DS otherwise.
\<close>

theorem effective_address_16:
  assumes rm: "rm < 8" and wide: "\<not> addr32 (x86 M)" "\<not> addr32 (x86 M1)" "\<not> addr32 (x86 M2)"
    and mode: "x86_mode (x86 M1) AND SYSMODE_SEGMASK = 0" "x86_mode (x86 M2) AND SYSMODE_SEGMASK = 0"
    and fetch: "fetch_byte_imm F M = Some (d8, M1)" "fetch_word_imm F M = Some (d16, M2)"
  shows "ea16_spec (x86 M1) rm (sint d8) (decode_rm01_address F rm M)
    \<and> ea16_spec (x86 M2) rm (uint d16) (decode_rm10_address F rm M)"
proof -
  have one: "ea16_spec (x86 M1) rm (sint d8) (decode_rm01_address F rm M)"
    using rm_cases[OF rm] ea16_contract[OF mode(1) refl, of _ rm "sint d8"] wide fetch(1)
    unfolding insert_iff empty_iff
    by (elim disjE) (simp_all add: decode_rm01_address_def ea16_def base16_def ea16_two Let_def)
  have two: "ea16_spec (x86 M2) rm (uint d16) (decode_rm10_address F rm M)"
    using rm_cases[OF rm] ea16_contract[OF mode(2) refl, of _ rm "uint d16"] wide fetch(2)
    unfolding insert_iff empty_iff
    by (elim disjE) (simp_all add: decode_rm10_address_def ea16_def base16_def ea16_two Let_def)
  from one two show ?thesis ..
qed

definition demo_machine :: "u8 \<Rightarrow> u32 \<Rightarrow> u8 list X86EMU" where
  "demo_machine b md = \<lparr> x86 = reset_regs\<lparr> R_EBP := 0x20, R_ESI := 3, R_SS := 0x1000, R_DS := 0x2000,
      R_ESP := 0x500, x86_mode := md \<rparr>, emu_mem = replicate 0x110000 b \<rparr>"

lemma demo_fetch:
  "fetch_byte_imm default_funcs (demo_machine b md) = Some (b, regs (set_IP 1) (demo_machine b md))"
  "fetch_word_imm default_funcs (demo_machine b md) = Some (word_cat b b, regs (set_IP 2) (demo_machine b md))"
  "fetch_long_imm default_funcs (demo_machine b md)
     = Some (word_cat (word_cat b b :: u16) (word_cat b b :: u16), regs (set_IP 4) (demo_machine b md))"
proof -
  have r: "R_CS (x86 (demo_machine b md)) = 0" "R_IP (x86 (demo_machine b md)) = 0"
    "emu_mem (demo_machine b md) = replicate 1114112 b"
    by (simp_all add: demo_machine_def reset_regs_def R_IP_def x_reg_def)
  have a: "seg_addr 0 (ucast (0 :: u16)) = 0" "seg_addr 0 0 = 0" by (simp_all add: seg_addr_def)
  show "fetch_byte_imm default_funcs (demo_machine b md) = Some (b, regs (set_IP 1) (demo_machine b md))"
    using byte_mem.rd_cell[of "regs (set_IP 1) (demo_machine b md)" 0 b]
    by (simp add: fetch_byte_imm_def r a default_funcs_def byte_at_def Let_def)
  show "fetch_word_imm default_funcs (demo_machine b md) = Some (word_cat b b, regs (set_IP 2) (demo_machine b md))"
    using word_mem.rd_cell[of "demo_machine b md" 0 "word_cat b b"] r(2)
    by (simp add: fetch_word_imm_def r a word_at_def regs_def)
  show "fetch_long_imm default_funcs (demo_machine b md)
     = Some (word_cat (word_cat b b :: u16) (word_cat b b :: u16), regs (set_IP 4) (demo_machine b md))"
    using long_mem.rd_cell[of "demo_machine b md" 0 "word_cat (word_cat b b :: u16) (word_cat b b :: u16)"] r(2)
    by (simp add: fetch_long_imm_def r a long_at_def regs_def)
qed

lemma demo_mode: "x86_mode (set_IP v (x86 (demo_machine b md))) = md" "x86_mode (x86 (demo_machine b md)) = md"
  by (simp_all add: demo_machine_def reset_regs_def set_IP_def)

theorem effective_address_16_witness:
  "ea16_spec (x86 (regs (set_IP 1) (demo_machine 0xF0 0))) 2 (sint (0xF0 :: u8))
       (decode_rm01_address default_funcs 2 (demo_machine 0xF0 0))
   \<and> ea16_spec (x86 (regs (set_IP 2) (demo_machine 0xF0 0))) 2 (uint (word_cat (0xF0 :: u8) (0xF0 :: u8) :: u16))
       (decode_rm10_address default_funcs 2 (demo_machine 0xF0 0))"
  by (rule effective_address_16) (simp_all add: demo_fetch demo_mode addr32_def)

section \<open>The 32 bit modes through EBP\<close>

text \<open>
  The 32 bit modes with base EBP and a displacement do not behave as the processor does: EBP
  plus displacement is accessed through DS, EDX plus a long displacement through SS instead, and a
  SIB byte with base EBP and a displacement adds ESP to the scaled index.
\<close>

theorem ebp_modes:
  assumes "addr32 (x86 M)" "addr32 (x86 M1)" "addr32 (x86 M2)"
    and "x86_mode (x86 M1) AND SYSMODE_SEGMASK = 0" "x86_mode (x86 M2) AND SYSMODE_SEGMASK = 0"
    and "fetch_byte_imm F M = Some (d8, M1)" "fetch_long_imm F M = Some (d32, M2)"
    and "unat (sib AND 0x07) = 5" "md \<noteq> 0"
  shows "(\<exists>a M'. decode_rm01_address F 5 M = Some (a, M') \<and> a = R_EBP (x86 M1) + scast d8
        \<and> fst (get_data_segment M') = ucast (R_DS (x86 M1)))
    \<and> (\<exists>a M'. decode_rm10_address F 2 M = Some (a, M') \<and> a = R_EDX (x86 M2) + d32
        \<and> fst (get_data_segment M') = ucast (R_SS (x86 M2)))
    \<and> (\<exists>M'. decode_sib_address F sib md M = Some (R_ESP (x86 M)
        + sib_index (unat (drop_bit 3 sib AND 0x07)) (x86 M') * push_bit (unat (drop_bit 6 sib AND 0x03)) 1, M'))"
proof (intro conjI)
  show "\<exists>a M'. decode_rm01_address F 5 M = Some (a, M') \<and> a = R_EBP (x86 M1) + scast d8
      \<and> fst (get_data_segment M') = ucast (R_DS (x86 M1))"
    using assms segment_of_mode(1)[OF assms(4)] by (simp add: decode_rm01_address_def Let_def)
  show "\<exists>a M'. decode_rm10_address F 2 M = Some (a, M') \<and> a = R_EDX (x86 M2) + d32
      \<and> fst (get_data_segment M') = ucast (R_SS (x86 M2))"
    using assms segment_of_mode(2)[OF assms(5)] by (simp add: decode_rm10_address_def Let_def)
  show "\<exists>M'. decode_sib_address F sib md M = Some (R_ESP (x86 M)
      + sib_index (unat (drop_bit 3 sib AND 0x07)) (x86 M') * push_bit (unat (drop_bit 6 sib AND 0x03)) 1, M')"
    using assms by (simp add: decode_sib_address_def sib_base_def Let_def)
qed

theorem ebp_modes_witness:
  "\<exists>M'. decode_sib_address default_funcs 0x75 1 (demo_machine 0xF0 0x400)
     = Some (0x500 + sib_index 6 (x86 M') * push_bit 1 1, M')"
proof -
  have "\<exists>M'. decode_sib_address default_funcs 0x75 1 (demo_machine 0xF0 0x400)
     = Some (R_ESP (x86 (demo_machine 0xF0 0x400))
         + sib_index (unat (drop_bit 3 (0x75 :: u8) AND 0x07)) (x86 M')
           * push_bit (unat (drop_bit 6 (0x75 :: u8) AND 0x03)) 1, M')"
    by (rule conjunct2[OF conjunct2[OF ebp_modes[OF _ _ _ _ _ demo_fetch(1,3)]]])
      (simp_all add: demo_mode addr32_def SYSMODE_PREFIX_ADDR_def SYSMODE_SEGMASK_def SYSMODE_SEG_DS_SS_def
        SYSMODE_SEGOVR_CS_def SYSMODE_SEGOVR_DS_def SYSMODE_SEGOVR_ES_def SYSMODE_SEGOVR_FS_def
        SYSMODE_SEGOVR_GS_def SYSMODE_SEGOVR_SS_def)
  then show ?thesis by (simp add: demo_machine_def reset_regs_def)
qed

end
