(* ===== verification/X86Operand.thy ===== *)
theory X86Operand
  imports X86Decode
begin

unbundle bit_operations_syntax

text \<open>
  What the instruction handlers of \<open>ops.c\<close>, \<open>ops2.c\<close> and \<open>fpu.c\<close> share: registers as operands,
  the three operand widths, and the frame of a handler: fetch the ModRM byte, decode a memory or
  register operand, execute, clear the segment overrides and prefixes. The three branches
  \<open>mod = 0, 1, 2\<close> of a handler are the same code up to the address function they call, so they are
  one branch here.
\<close>

section \<open>Registers\<close>

fun get8 :: "reg8 \<Rightarrow> x86_regs \<Rightarrow> u8" where
  "get8 AL st = R_AL st" | "get8 CL st = R_CL st" | "get8 DL st = R_DL st" | "get8 BL st = R_BL st"
| "get8 AH st = R_AH st" | "get8 CH st = R_CH st" | "get8 DH st = R_DH st" | "get8 BH st = R_BH st"

fun set8 :: "reg8 \<Rightarrow> u8 \<Rightarrow> x86_regs \<Rightarrow> x86_regs" where
  "set8 AL v st = set_AL v st" | "set8 CL v st = set_CL v st" | "set8 DL v st = set_DL v st"
| "set8 BL v st = set_BL v st" | "set8 AH v st = set_AH v st" | "set8 CH v st = set_CH v st"
| "set8 DH v st = set_DH v st" | "set8 BH v st = set_BH v st"

fun get16 :: "reg16 \<Rightarrow> x86_regs \<Rightarrow> u16" where
  "get16 AX st = R_AX st" | "get16 CX st = R_CX st" | "get16 DX st = R_DX st" | "get16 BX st = R_BX st"
| "get16 SP st = R_SP st" | "get16 BP st = R_BP st" | "get16 SI st = R_SI st" | "get16 DI st = R_DI st"

fun set16 :: "reg16 \<Rightarrow> u16 \<Rightarrow> x86_regs \<Rightarrow> x86_regs" where
  "set16 AX v st = set_AX v st" | "set16 CX v st = set_CX v st" | "set16 DX v st = set_DX v st"
| "set16 BX v st = set_BX v st" | "set16 SP v st = set_SP v st" | "set16 BP v st = set_BP v st"
| "set16 SI v st = set_SI v st" | "set16 DI v st = set_DI v st"

fun get32 :: "reg32 \<Rightarrow> x86_regs \<Rightarrow> u32" where
  "get32 EAX st = R_EAX st" | "get32 ECX st = R_ECX st" | "get32 EDX st = R_EDX st" | "get32 EBX st = R_EBX st"
| "get32 ESP st = R_ESP st" | "get32 EBP st = R_EBP st" | "get32 ESI st = R_ESI st" | "get32 EDI st = R_EDI st"

fun set32 :: "reg32 \<Rightarrow> u32 \<Rightarrow> x86_regs \<Rightarrow> x86_regs" where
  "set32 EAX v st = st\<lparr> R_EAX := v \<rparr>" | "set32 ECX v st = st\<lparr> R_ECX := v \<rparr>"
| "set32 EDX v st = st\<lparr> R_EDX := v \<rparr>" | "set32 EBX v st = st\<lparr> R_EBX := v \<rparr>"
| "set32 ESP v st = st\<lparr> R_ESP := v \<rparr>" | "set32 EBP v st = st\<lparr> R_EBP := v \<rparr>"
| "set32 ESI v st = st\<lparr> R_ESI := v \<rparr>" | "set32 EDI v st = st\<lparr> R_EDI := v \<rparr>"

fun getseg :: "sreg \<Rightarrow> x86_regs \<Rightarrow> u16" where
  "getseg ES st = R_ES st" | "getseg CS st = R_CS st" | "getseg SS st = R_SS st"
| "getseg DS st = R_DS st" | "getseg FS st = R_FS st" | "getseg GS st = R_GS st"

fun setseg :: "sreg \<Rightarrow> u16 \<Rightarrow> x86_regs \<Rightarrow> x86_regs" where
  "setseg ES v st = st\<lparr> R_ES := v \<rparr>" | "setseg CS v st = st\<lparr> R_CS := v \<rparr>"
| "setseg SS v st = st\<lparr> R_SS := v \<rparr>" | "setseg DS v st = st\<lparr> R_DS := v \<rparr>"
| "setseg FS v st = st\<lparr> R_FS := v \<rparr>" | "setseg GS v st = st\<lparr> R_GS := v \<rparr>"

section \<open>Widths\<close>

text \<open>
  An operand width: how a register field decodes, how a register of that width is read and
  written, and how memory and the instruction stream give a value of it.
\<close>

record ('r, 'v, 'm) width =
  w_decode :: "nat \<Rightarrow> 'm X86EMU \<Rightarrow> 'r option \<times> 'm X86EMU"
  w_get :: "'r \<Rightarrow> x86_regs \<Rightarrow> 'v"
  w_put :: "'r \<Rightarrow> 'v \<Rightarrow> x86_regs \<Rightarrow> x86_regs"
  w_fetch :: "'m sys_funcs \<Rightarrow> u32 \<Rightarrow> 'm X86EMU \<Rightarrow> ('v \<times> 'm X86EMU) option"
  w_store :: "'m sys_funcs \<Rightarrow> u32 \<Rightarrow> 'v \<Rightarrow> 'm X86EMU \<Rightarrow> 'm X86EMU option"
  w_imm :: "'m sys_funcs \<Rightarrow> 'm X86EMU \<Rightarrow> ('v \<times> 'm X86EMU) option"

definition width8 :: "(reg8, u8, 'm) width" where
  "width8 = \<lparr> w_decode = decode_rm_byte_register, w_get = get8, w_put = set8, w_fetch = fetch_data_byte,
     w_store = store_data_byte, w_imm = fetch_byte_imm \<rparr>"

definition width16 :: "(reg16, u16, 'm) width" where
  "width16 = \<lparr> w_decode = decode_rm_word_register, w_get = get16, w_put = set16, w_fetch = fetch_data_word,
     w_store = store_data_word, w_imm = fetch_word_imm \<rparr>"

definition width32 :: "(reg32, u32, 'm) width" where
  "width32 = \<lparr> w_decode = decode_rm_long_register, w_get = get32, w_put = set32, w_fetch = fetch_data_long,
     w_store = store_data_long, w_imm = fetch_long_imm \<rparr>"

text \<open>The pointer a register field decodes to, which the handlers dereference.\<close>

definition reg_ref :: "('r, 'v, 'm) width \<Rightarrow> nat \<Rightarrow> 'm X86EMU \<Rightarrow> ('r \<times> 'm X86EMU) option" where
  "reg_ref W r M = (case w_decode W r M of (p, M) \<Rightarrow> do { reg \<leftarrow> p; Some (reg, M) })"

definition seg_ref :: "nat \<Rightarrow> 'm X86EMU \<Rightarrow> (sreg \<times> 'm X86EMU) option" where
  "seg_ref r M = (case decode_rm_seg_register r M of (p, M) \<Rightarrow> do { reg \<leftarrow> p; Some (reg, M) })"

section \<open>The frame of a handler\<close>

definition SYSMODE_CLRMASK :: u32 where
  "SYSMODE_CLRMASK = SYSMODE_SEG_DS_SS OR SYSMODE_SEGOVR_CS OR SYSMODE_SEGOVR_DS OR SYSMODE_SEGOVR_ES
     OR SYSMODE_SEGOVR_FS OR SYSMODE_SEGOVR_GS OR SYSMODE_SEGOVR_SS OR SYSMODE_PREFIX_DATA OR SYSMODE_PREFIX_ADDR"

definition DECODE_CLEAR_SEGOVR :: "'m X86EMU \<Rightarrow> 'm X86EMU" where
  "DECODE_CLEAR_SEGOVR = regs (\<lambda>st. st\<lparr> x86_mode := x86_mode st AND NOT SYSMODE_CLRMASK \<rparr>)"

text \<open>\<open>M.x86.mode & SYSMODE_PREFIX_DATA\<close>\<close>

definition data32 :: "'m X86EMU \<Rightarrow> bool" where
  "data32 M \<longleftrightarrow> x86_mode (x86 M) AND SYSMODE_PREFIX_DATA \<noteq> 0"

definition instr :: "('m X86EMU \<Rightarrow> 'm X86EMU option) \<Rightarrow> 'm X86EMU \<Rightarrow> 'm X86EMU option" where
  "instr body M = do { M \<leftarrow> body M; Some (DECODE_CLEAR_SEGOVR M) }"

text \<open>The handler body as a function of \<open>mod\<close>, \<open>rh\<close> and \<open>rl\<close>.\<close>

definition with_modrm ::
  "'m sys_funcs \<Rightarrow> (nat \<Rightarrow> nat \<Rightarrow> nat \<Rightarrow> 'm X86EMU \<Rightarrow> 'm X86EMU option) \<Rightarrow> 'm X86EMU \<Rightarrow> 'm X86EMU option" where
  "with_modrm F body = instr (\<lambda>M. do { ((md, rh, rl), M) \<leftarrow> fetch_decode_modrm F M; body md rh rl M })"

definition rm_address :: "'m sys_funcs \<Rightarrow> nat \<Rightarrow> nat \<Rightarrow> 'm X86EMU \<Rightarrow> (u32 \<times> 'm X86EMU) option" where
  "rm_address F md rl M =
     (if md = 0 then decode_rm00_address F rl M
      else if md = 1 then decode_rm01_address F rl M
      else decode_rm10_address F rl M)"

text \<open>The operand size prefix selects between the long and the word branch.\<close>

definition by_size ::
  "(nat \<Rightarrow> nat \<Rightarrow> nat \<Rightarrow> 'm X86EMU \<Rightarrow> 'm X86EMU option)
   \<Rightarrow> (nat \<Rightarrow> nat \<Rightarrow> nat \<Rightarrow> 'm X86EMU \<Rightarrow> 'm X86EMU option)
   \<Rightarrow> nat \<Rightarrow> nat \<Rightarrow> nat \<Rightarrow> 'm X86EMU \<Rightarrow> 'm X86EMU option" where
  "by_size long word md rh rl M = (if data32 M then long md rh rl M else word md rh rl M)"

text \<open>\<open>srcval = fetch_long_imm ()\<close> or \<open>fetch_word_imm ()\<close>, as a long.\<close>

definition fetch_sized_imm :: "'m sys_funcs \<Rightarrow> 'm X86EMU \<Rightarrow> (u32 \<times> 'm X86EMU) option" where
  "fetch_sized_imm F M =
     (if data32 M then fetch_long_imm F M
      else do { (w, M) \<leftarrow> fetch_word_imm F M; Some (ucast w, M) })"

text \<open>\<open>*destreg = f (*destreg)\<close> on a named register.\<close>

definition upd ::
  "(x86_regs \<Rightarrow> 'v) \<Rightarrow> ('v \<Rightarrow> x86_regs \<Rightarrow> x86_regs) \<Rightarrow> ('v \<Rightarrow> x86_regs \<Rightarrow> 'v \<times> x86_regs) \<Rightarrow> x86_regs \<Rightarrow> x86_regs" where
  "upd get put f st = (let (v, st) = f (get st) st in put v st)"

section \<open>Operand patterns\<close>

text \<open>Destination in memory or register \<open>rl\<close>, source in register \<open>rh\<close>.\<close>

definition op_RM_R ::
  "('r, 'v, 'm) width \<Rightarrow> ('v \<Rightarrow> 'v \<Rightarrow> x86_regs \<Rightarrow> 'v \<times> x86_regs) \<Rightarrow> 'm sys_funcs
   \<Rightarrow> nat \<Rightarrow> nat \<Rightarrow> nat \<Rightarrow> 'm X86EMU \<Rightarrow> 'm X86EMU option" where
  "op_RM_R W f F md rh rl M =
     (if md < 3 then
        do { (destoffset, M) \<leftarrow> rm_address F md rl M;
             (destval, M) \<leftarrow> w_fetch W F destoffset M;
             (srcreg, M) \<leftarrow> reg_ref W rh M;
             let (destval, st) = f destval (w_get W srcreg (x86 M)) (x86 M);
             w_store W F destoffset destval (M\<lparr> x86 := st \<rparr>) }
      else
        do { (destreg, M) \<leftarrow> reg_ref W rl M;
             (srcreg, M) \<leftarrow> reg_ref W rh M;
             Some (regs (\<lambda>st. upd (w_get W destreg) (w_put W destreg)
                                (\<lambda>v. f v (w_get W srcreg st)) st) M) })"

text \<open>Destination in register \<open>rh\<close>, source in memory or register \<open>rl\<close>.\<close>

definition op_R_RM ::
  "('r, 'v, 'm) width \<Rightarrow> ('v \<Rightarrow> 'v \<Rightarrow> x86_regs \<Rightarrow> 'v \<times> x86_regs) \<Rightarrow> 'm sys_funcs
   \<Rightarrow> nat \<Rightarrow> nat \<Rightarrow> nat \<Rightarrow> 'm X86EMU \<Rightarrow> 'm X86EMU option" where
  "op_R_RM W f F md rh rl M =
     (if md < 3 then
        do { (destreg, M) \<leftarrow> reg_ref W rh M;
             (srcoffset, M) \<leftarrow> rm_address F md rl M;
             (srcval, M) \<leftarrow> w_fetch W F srcoffset M;
             Some (regs (upd (w_get W destreg) (w_put W destreg) (\<lambda>v. f v srcval)) M) }
      else
        do { (destreg, M) \<leftarrow> reg_ref W rh M;
             (srcreg, M) \<leftarrow> reg_ref W rl M;
             Some (regs (\<lambda>st. upd (w_get W destreg) (w_put W destreg)
                                (\<lambda>v. f v (w_get W srcreg st)) st) M) })"

text \<open>The same two with an operation that only sets flags.\<close>

definition flags_RM_R ::
  "('r, 'v, 'm) width \<Rightarrow> ('v \<Rightarrow> 'v \<Rightarrow> x86_regs \<Rightarrow> x86_regs) \<Rightarrow> 'm sys_funcs
   \<Rightarrow> nat \<Rightarrow> nat \<Rightarrow> nat \<Rightarrow> 'm X86EMU \<Rightarrow> 'm X86EMU option" where
  "flags_RM_R W f F md rh rl M =
     (if md < 3 then
        do { (destoffset, M) \<leftarrow> rm_address F md rl M;
             (destval, M) \<leftarrow> w_fetch W F destoffset M;
             (srcreg, M) \<leftarrow> reg_ref W rh M;
             Some (regs (\<lambda>st. f destval (w_get W srcreg st) st) M) }
      else
        do { (destreg, M) \<leftarrow> reg_ref W rl M;
             (srcreg, M) \<leftarrow> reg_ref W rh M;
             Some (regs (\<lambda>st. f (w_get W destreg st) (w_get W srcreg st) st) M) })"

definition flags_R_RM ::
  "('r, 'v, 'm) width \<Rightarrow> ('v \<Rightarrow> 'v \<Rightarrow> x86_regs \<Rightarrow> x86_regs) \<Rightarrow> 'm sys_funcs
   \<Rightarrow> nat \<Rightarrow> nat \<Rightarrow> nat \<Rightarrow> 'm X86EMU \<Rightarrow> 'm X86EMU option" where
  "flags_R_RM W f F md rh rl M =
     (if md < 3 then
        do { (destreg, M) \<leftarrow> reg_ref W rh M;
             (srcoffset, M) \<leftarrow> rm_address F md rl M;
             (srcval, M) \<leftarrow> w_fetch W F srcoffset M;
             Some (regs (\<lambda>st. f (w_get W destreg st) srcval st) M) }
      else
        do { (destreg, M) \<leftarrow> reg_ref W rh M;
             (srcreg, M) \<leftarrow> reg_ref W rl M;
             Some (regs (\<lambda>st. f (w_get W destreg st) (w_get W srcreg st) st) M) })"

end
