(* ===== verification/X86OpsAlu.thy ===== *)
theory X86OpsAlu
  imports X86Operand
begin

unbundle bit_operations_syntax

text \<open>
  The two operand arithmetic instructions of \<open>ops.c\<close>, opcodes 0x00 to 0x3d: for each operation the
  six forms register or memory with register, register with register or memory, and accumulator
  with immediate, for bytes and for words or longs.
\<close>

section \<open>Accumulator and immediate\<close>

definition op_AL_IMM ::
  "(u8 \<Rightarrow> u8 \<Rightarrow> x86_regs \<Rightarrow> u8 \<times> x86_regs) \<Rightarrow> 'm sys_funcs \<Rightarrow> 'm X86EMU \<Rightarrow> 'm X86EMU option" where
  "op_AL_IMM f F M =
     do { (srcval, M) \<leftarrow> fetch_byte_imm F M;
          Some (regs (upd (get8 AL) (set8 AL) (\<lambda>v. f v srcval)) M) }"

definition op_AX_IMM ::
  "(u32 \<Rightarrow> u32 \<Rightarrow> x86_regs \<Rightarrow> u32 \<times> x86_regs) \<Rightarrow> (u16 \<Rightarrow> u16 \<Rightarrow> x86_regs \<Rightarrow> u16 \<times> x86_regs)
   \<Rightarrow> 'm sys_funcs \<Rightarrow> 'm X86EMU \<Rightarrow> 'm X86EMU option" where
  "op_AX_IMM long word F M =
     do { (srcval, M) \<leftarrow> fetch_sized_imm F M;
          if data32 M then Some (regs (upd (get32 EAX) (set32 EAX) (\<lambda>v. long v srcval)) M)
          else Some (regs (upd (get16 AX) (set16 AX) (\<lambda>v. word v (ucast srcval))) M) }"

definition flags_AX_IMM ::
  "(u32 \<Rightarrow> u32 \<Rightarrow> x86_regs \<Rightarrow> x86_regs) \<Rightarrow> (u16 \<Rightarrow> u16 \<Rightarrow> x86_regs \<Rightarrow> x86_regs)
   \<Rightarrow> 'm sys_funcs \<Rightarrow> 'm X86EMU \<Rightarrow> 'm X86EMU option" where
  "flags_AX_IMM long word F M =
     do { (srcval, M) \<leftarrow> fetch_sized_imm F M;
          if data32 M then Some (regs (\<lambda>st. long (R_EAX st) srcval st) M)
          else Some (regs (\<lambda>st. word (R_AX st) (ucast srcval) st) M) }"

section \<open>ADD\<close>

definition x86emuOp_add_byte_RM_R :: "'m sys_funcs \<Rightarrow> 'm X86EMU \<Rightarrow> 'm X86EMU option" where
  "x86emuOp_add_byte_RM_R F =
     with_modrm F (op_RM_R width8 add_byte F)"

definition x86emuOp_add_word_RM_R :: "'m sys_funcs \<Rightarrow> 'm X86EMU \<Rightarrow> 'm X86EMU option" where
  "x86emuOp_add_word_RM_R F =
     with_modrm F (by_size (op_RM_R width32 add_long F) (op_RM_R width16 add_word F))"

definition x86emuOp_add_byte_R_RM :: "'m sys_funcs \<Rightarrow> 'm X86EMU \<Rightarrow> 'm X86EMU option" where
  "x86emuOp_add_byte_R_RM F =
     with_modrm F (op_R_RM width8 add_byte F)"

definition x86emuOp_add_word_R_RM :: "'m sys_funcs \<Rightarrow> 'm X86EMU \<Rightarrow> 'm X86EMU option" where
  "x86emuOp_add_word_R_RM F =
     with_modrm F (by_size (op_R_RM width32 add_long F) (op_R_RM width16 add_word F))"

definition x86emuOp_add_byte_AL_IMM :: "'m sys_funcs \<Rightarrow> 'm X86EMU \<Rightarrow> 'm X86EMU option" where
  "x86emuOp_add_byte_AL_IMM F =
     instr (op_AL_IMM add_byte F)"

definition x86emuOp_add_word_AX_IMM :: "'m sys_funcs \<Rightarrow> 'm X86EMU \<Rightarrow> 'm X86EMU option" where
  "x86emuOp_add_word_AX_IMM F =
     instr (op_AX_IMM add_long add_word F)"

section \<open>OR\<close>

definition x86emuOp_or_byte_RM_R :: "'m sys_funcs \<Rightarrow> 'm X86EMU \<Rightarrow> 'm X86EMU option" where
  "x86emuOp_or_byte_RM_R F =
     with_modrm F (op_RM_R width8 or_byte F)"

definition x86emuOp_or_word_RM_R :: "'m sys_funcs \<Rightarrow> 'm X86EMU \<Rightarrow> 'm X86EMU option" where
  "x86emuOp_or_word_RM_R F =
     with_modrm F (by_size (op_RM_R width32 or_long F) (op_RM_R width16 or_word F))"

definition x86emuOp_or_byte_R_RM :: "'m sys_funcs \<Rightarrow> 'm X86EMU \<Rightarrow> 'm X86EMU option" where
  "x86emuOp_or_byte_R_RM F =
     with_modrm F (op_R_RM width8 or_byte F)"

definition x86emuOp_or_word_R_RM :: "'m sys_funcs \<Rightarrow> 'm X86EMU \<Rightarrow> 'm X86EMU option" where
  "x86emuOp_or_word_R_RM F =
     with_modrm F (by_size (op_R_RM width32 or_long F) (op_R_RM width16 or_word F))"

definition x86emuOp_or_byte_AL_IMM :: "'m sys_funcs \<Rightarrow> 'm X86EMU \<Rightarrow> 'm X86EMU option" where
  "x86emuOp_or_byte_AL_IMM F =
     instr (op_AL_IMM or_byte F)"

definition x86emuOp_or_word_AX_IMM :: "'m sys_funcs \<Rightarrow> 'm X86EMU \<Rightarrow> 'm X86EMU option" where
  "x86emuOp_or_word_AX_IMM F =
     instr (op_AX_IMM or_long or_word F)"

section \<open>ADC\<close>

definition x86emuOp_adc_byte_RM_R :: "'m sys_funcs \<Rightarrow> 'm X86EMU \<Rightarrow> 'm X86EMU option" where
  "x86emuOp_adc_byte_RM_R F =
     with_modrm F (op_RM_R width8 adc_byte F)"

definition x86emuOp_adc_word_RM_R :: "'m sys_funcs \<Rightarrow> 'm X86EMU \<Rightarrow> 'm X86EMU option" where
  "x86emuOp_adc_word_RM_R F =
     with_modrm F (by_size (op_RM_R width32 adc_long F) (op_RM_R width16 adc_word F))"

definition x86emuOp_adc_byte_R_RM :: "'m sys_funcs \<Rightarrow> 'm X86EMU \<Rightarrow> 'm X86EMU option" where
  "x86emuOp_adc_byte_R_RM F =
     with_modrm F (op_R_RM width8 adc_byte F)"

definition x86emuOp_adc_word_R_RM :: "'m sys_funcs \<Rightarrow> 'm X86EMU \<Rightarrow> 'm X86EMU option" where
  "x86emuOp_adc_word_R_RM F =
     with_modrm F (by_size (op_R_RM width32 adc_long F) (op_R_RM width16 adc_word F))"

definition x86emuOp_adc_byte_AL_IMM :: "'m sys_funcs \<Rightarrow> 'm X86EMU \<Rightarrow> 'm X86EMU option" where
  "x86emuOp_adc_byte_AL_IMM F =
     instr (op_AL_IMM adc_byte F)"

definition x86emuOp_adc_word_AX_IMM :: "'m sys_funcs \<Rightarrow> 'm X86EMU \<Rightarrow> 'm X86EMU option" where
  "x86emuOp_adc_word_AX_IMM F =
     instr (op_AX_IMM adc_long adc_word F)"

section \<open>SBB\<close>

definition x86emuOp_sbb_byte_RM_R :: "'m sys_funcs \<Rightarrow> 'm X86EMU \<Rightarrow> 'm X86EMU option" where
  "x86emuOp_sbb_byte_RM_R F =
     with_modrm F (op_RM_R width8 sbb_byte F)"

definition x86emuOp_sbb_word_RM_R :: "'m sys_funcs \<Rightarrow> 'm X86EMU \<Rightarrow> 'm X86EMU option" where
  "x86emuOp_sbb_word_RM_R F =
     with_modrm F (by_size (op_RM_R width32 sbb_long F) (op_RM_R width16 sbb_word F))"

definition x86emuOp_sbb_byte_R_RM :: "'m sys_funcs \<Rightarrow> 'm X86EMU \<Rightarrow> 'm X86EMU option" where
  "x86emuOp_sbb_byte_R_RM F =
     with_modrm F (op_R_RM width8 sbb_byte F)"

definition x86emuOp_sbb_word_R_RM :: "'m sys_funcs \<Rightarrow> 'm X86EMU \<Rightarrow> 'm X86EMU option" where
  "x86emuOp_sbb_word_R_RM F =
     with_modrm F (by_size (op_R_RM width32 sbb_long F) (op_R_RM width16 sbb_word F))"

definition x86emuOp_sbb_byte_AL_IMM :: "'m sys_funcs \<Rightarrow> 'm X86EMU \<Rightarrow> 'm X86EMU option" where
  "x86emuOp_sbb_byte_AL_IMM F =
     instr (op_AL_IMM sbb_byte F)"

definition x86emuOp_sbb_word_AX_IMM :: "'m sys_funcs \<Rightarrow> 'm X86EMU \<Rightarrow> 'm X86EMU option" where
  "x86emuOp_sbb_word_AX_IMM F =
     instr (op_AX_IMM sbb_long sbb_word F)"

section \<open>AND\<close>

definition x86emuOp_and_byte_RM_R :: "'m sys_funcs \<Rightarrow> 'm X86EMU \<Rightarrow> 'm X86EMU option" where
  "x86emuOp_and_byte_RM_R F =
     with_modrm F (op_RM_R width8 and_byte F)"

definition x86emuOp_and_word_RM_R :: "'m sys_funcs \<Rightarrow> 'm X86EMU \<Rightarrow> 'm X86EMU option" where
  "x86emuOp_and_word_RM_R F =
     with_modrm F (by_size (op_RM_R width32 and_long F) (op_RM_R width16 and_word F))"

definition x86emuOp_and_byte_R_RM :: "'m sys_funcs \<Rightarrow> 'm X86EMU \<Rightarrow> 'm X86EMU option" where
  "x86emuOp_and_byte_R_RM F =
     with_modrm F (op_R_RM width8 and_byte F)"

definition x86emuOp_and_word_R_RM :: "'m sys_funcs \<Rightarrow> 'm X86EMU \<Rightarrow> 'm X86EMU option" where
  "x86emuOp_and_word_R_RM F =
     with_modrm F (by_size (op_R_RM width32 and_long F) (op_R_RM width16 and_word F))"

definition x86emuOp_and_byte_AL_IMM :: "'m sys_funcs \<Rightarrow> 'm X86EMU \<Rightarrow> 'm X86EMU option" where
  "x86emuOp_and_byte_AL_IMM F =
     instr (op_AL_IMM and_byte F)"

definition x86emuOp_and_word_AX_IMM :: "'m sys_funcs \<Rightarrow> 'm X86EMU \<Rightarrow> 'm X86EMU option" where
  "x86emuOp_and_word_AX_IMM F =
     instr (op_AX_IMM and_long and_word F)"

section \<open>SUB\<close>

definition x86emuOp_sub_byte_RM_R :: "'m sys_funcs \<Rightarrow> 'm X86EMU \<Rightarrow> 'm X86EMU option" where
  "x86emuOp_sub_byte_RM_R F =
     with_modrm F (op_RM_R width8 sub_byte F)"

definition x86emuOp_sub_word_RM_R :: "'m sys_funcs \<Rightarrow> 'm X86EMU \<Rightarrow> 'm X86EMU option" where
  "x86emuOp_sub_word_RM_R F =
     with_modrm F (by_size (op_RM_R width32 sub_long F) (op_RM_R width16 sub_word F))"

definition x86emuOp_sub_byte_R_RM :: "'m sys_funcs \<Rightarrow> 'm X86EMU \<Rightarrow> 'm X86EMU option" where
  "x86emuOp_sub_byte_R_RM F =
     with_modrm F (op_R_RM width8 sub_byte F)"

definition x86emuOp_sub_word_R_RM :: "'m sys_funcs \<Rightarrow> 'm X86EMU \<Rightarrow> 'm X86EMU option" where
  "x86emuOp_sub_word_R_RM F =
     with_modrm F (by_size (op_R_RM width32 sub_long F) (op_R_RM width16 sub_word F))"

definition x86emuOp_sub_byte_AL_IMM :: "'m sys_funcs \<Rightarrow> 'm X86EMU \<Rightarrow> 'm X86EMU option" where
  "x86emuOp_sub_byte_AL_IMM F =
     instr (op_AL_IMM sub_byte F)"

definition x86emuOp_sub_word_AX_IMM :: "'m sys_funcs \<Rightarrow> 'm X86EMU \<Rightarrow> 'm X86EMU option" where
  "x86emuOp_sub_word_AX_IMM F =
     instr (op_AX_IMM sub_long sub_word F)"

section \<open>XOR\<close>

definition x86emuOp_xor_byte_RM_R :: "'m sys_funcs \<Rightarrow> 'm X86EMU \<Rightarrow> 'm X86EMU option" where
  "x86emuOp_xor_byte_RM_R F =
     with_modrm F (op_RM_R width8 xor_byte F)"

definition x86emuOp_xor_word_RM_R :: "'m sys_funcs \<Rightarrow> 'm X86EMU \<Rightarrow> 'm X86EMU option" where
  "x86emuOp_xor_word_RM_R F =
     with_modrm F (by_size (op_RM_R width32 xor_long F) (op_RM_R width16 xor_word F))"

definition x86emuOp_xor_byte_R_RM :: "'m sys_funcs \<Rightarrow> 'm X86EMU \<Rightarrow> 'm X86EMU option" where
  "x86emuOp_xor_byte_R_RM F =
     with_modrm F (op_R_RM width8 xor_byte F)"

definition x86emuOp_xor_word_R_RM :: "'m sys_funcs \<Rightarrow> 'm X86EMU \<Rightarrow> 'm X86EMU option" where
  "x86emuOp_xor_word_R_RM F =
     with_modrm F (by_size (op_R_RM width32 xor_long F) (op_R_RM width16 xor_word F))"

definition x86emuOp_xor_byte_AL_IMM :: "'m sys_funcs \<Rightarrow> 'm X86EMU \<Rightarrow> 'm X86EMU option" where
  "x86emuOp_xor_byte_AL_IMM F =
     instr (op_AL_IMM xor_byte F)"

definition x86emuOp_xor_word_AX_IMM :: "'m sys_funcs \<Rightarrow> 'm X86EMU \<Rightarrow> 'm X86EMU option" where
  "x86emuOp_xor_word_AX_IMM F =
     instr (op_AX_IMM xor_long xor_word F)"

section \<open>CMP\<close>

text \<open>The result of the comparison is dropped.\<close>

definition cmp_flags :: "('v \<Rightarrow> 'v \<Rightarrow> x86_regs \<Rightarrow> 'v \<times> x86_regs) \<Rightarrow> 'v \<Rightarrow> 'v \<Rightarrow> x86_regs \<Rightarrow> x86_regs" where
  "cmp_flags f d s st = snd (f d s st)"

definition x86emuOp_cmp_byte_RM_R :: "'m sys_funcs \<Rightarrow> 'm X86EMU \<Rightarrow> 'm X86EMU option" where
  "x86emuOp_cmp_byte_RM_R F =
     with_modrm F (flags_RM_R width8 (cmp_flags cmp_byte) F)"

definition x86emuOp_cmp_word_RM_R :: "'m sys_funcs \<Rightarrow> 'm X86EMU \<Rightarrow> 'm X86EMU option" where
  "x86emuOp_cmp_word_RM_R F =
     with_modrm F (by_size (flags_RM_R width32 (cmp_flags cmp_long) F)
                           (flags_RM_R width16 (cmp_flags cmp_word) F))"

definition x86emuOp_cmp_byte_R_RM :: "'m sys_funcs \<Rightarrow> 'm X86EMU \<Rightarrow> 'm X86EMU option" where
  "x86emuOp_cmp_byte_R_RM F =
     with_modrm F (flags_R_RM width8 (cmp_flags cmp_byte) F)"

definition x86emuOp_cmp_word_R_RM :: "'m sys_funcs \<Rightarrow> 'm X86EMU \<Rightarrow> 'm X86EMU option" where
  "x86emuOp_cmp_word_R_RM F =
     with_modrm F (by_size (flags_R_RM width32 (cmp_flags cmp_long) F)
                           (flags_R_RM width16 (cmp_flags cmp_word) F))"

definition x86emuOp_cmp_byte_AL_IMM :: "'m sys_funcs \<Rightarrow> 'm X86EMU \<Rightarrow> 'm X86EMU option" where
  "x86emuOp_cmp_byte_AL_IMM F =
     instr (\<lambda>M. do { (srcval, M) \<leftarrow> fetch_byte_imm F M; Some (regs (\<lambda>st. cmp_flags cmp_byte (R_AL st) srcval st) M) })"

definition x86emuOp_cmp_word_AX_IMM :: "'m sys_funcs \<Rightarrow> 'm X86EMU \<Rightarrow> 'm X86EMU option" where
  "x86emuOp_cmp_word_AX_IMM F =
     instr (flags_AX_IMM (cmp_flags cmp_long) (cmp_flags cmp_word) F)"

text \<open>The handlers, to unfold together.\<close>

lemmas alu_handlers =
  x86emuOp_add_byte_RM_R_def x86emuOp_add_word_RM_R_def x86emuOp_add_byte_R_RM_def x86emuOp_add_word_R_RM_def
  x86emuOp_add_byte_AL_IMM_def x86emuOp_add_word_AX_IMM_def x86emuOp_or_byte_RM_R_def
  x86emuOp_or_word_RM_R_def x86emuOp_or_byte_R_RM_def x86emuOp_or_word_R_RM_def x86emuOp_or_byte_AL_IMM_def
  x86emuOp_or_word_AX_IMM_def x86emuOp_adc_byte_RM_R_def x86emuOp_adc_word_RM_R_def x86emuOp_adc_byte_R_RM_def
  x86emuOp_adc_word_R_RM_def x86emuOp_adc_byte_AL_IMM_def x86emuOp_adc_word_AX_IMM_def
  x86emuOp_sbb_byte_RM_R_def x86emuOp_sbb_word_RM_R_def x86emuOp_sbb_byte_R_RM_def x86emuOp_sbb_word_R_RM_def
  x86emuOp_sbb_byte_AL_IMM_def x86emuOp_sbb_word_AX_IMM_def x86emuOp_and_byte_RM_R_def
  x86emuOp_and_word_RM_R_def x86emuOp_and_byte_R_RM_def x86emuOp_and_word_R_RM_def
  x86emuOp_and_byte_AL_IMM_def x86emuOp_and_word_AX_IMM_def x86emuOp_sub_byte_RM_R_def
  x86emuOp_sub_word_RM_R_def x86emuOp_sub_byte_R_RM_def x86emuOp_sub_word_R_RM_def
  x86emuOp_sub_byte_AL_IMM_def x86emuOp_sub_word_AX_IMM_def x86emuOp_xor_byte_RM_R_def
  x86emuOp_xor_word_RM_R_def x86emuOp_xor_byte_R_RM_def x86emuOp_xor_word_R_RM_def
  x86emuOp_xor_byte_AL_IMM_def x86emuOp_xor_word_AX_IMM_def x86emuOp_cmp_byte_RM_R_def
  x86emuOp_cmp_word_RM_R_def x86emuOp_cmp_byte_R_RM_def x86emuOp_cmp_word_R_RM_def
  x86emuOp_cmp_byte_AL_IMM_def x86emuOp_cmp_word_AX_IMM_def

end
