(* ===== verification/X86OpsReg.thy ===== *)
theory X86OpsReg
  imports X86OpsAlu
begin

unbundle bit_operations_syntax

text \<open>
  The instructions of \<open>ops.c\<close> that name a register in the opcode: INC, DEC, PUSH, POP and XCHG of a
  word or long register, MOV of an immediate, and the decimal adjustments and sign extensions of
  the accumulator.
\<close>

section \<open>Increment and decrement\<close>

definition op_reg ::
  "reg32 \<Rightarrow> (u32 \<Rightarrow> x86_regs \<Rightarrow> u32 \<times> x86_regs) \<Rightarrow> reg16 \<Rightarrow> (u16 \<Rightarrow> x86_regs \<Rightarrow> u16 \<times> x86_regs)
   \<Rightarrow> 'm X86EMU \<Rightarrow> 'm X86EMU option" where
  "op_reg r32 long r16 word M =
     (if data32 M then Some (regs (upd (get32 r32) (set32 r32) long) M)
      else Some (regs (upd (get16 r16) (set16 r16) word) M))"

definition x86emuOp_inc_AX :: "'m X86EMU \<Rightarrow> 'm X86EMU option" where
  "x86emuOp_inc_AX =
     instr (op_reg EAX inc_long AX inc_word)"

definition x86emuOp_inc_CX :: "'m X86EMU \<Rightarrow> 'm X86EMU option" where
  "x86emuOp_inc_CX =
     instr (op_reg ECX inc_long CX inc_word)"

definition x86emuOp_inc_DX :: "'m X86EMU \<Rightarrow> 'm X86EMU option" where
  "x86emuOp_inc_DX =
     instr (op_reg EDX inc_long DX inc_word)"

definition x86emuOp_inc_BX :: "'m X86EMU \<Rightarrow> 'm X86EMU option" where
  "x86emuOp_inc_BX =
     instr (op_reg EBX inc_long BX inc_word)"

definition x86emuOp_inc_SP :: "'m X86EMU \<Rightarrow> 'm X86EMU option" where
  "x86emuOp_inc_SP =
     instr (op_reg ESP inc_long SP inc_word)"

definition x86emuOp_inc_BP :: "'m X86EMU \<Rightarrow> 'm X86EMU option" where
  "x86emuOp_inc_BP =
     instr (op_reg EBP inc_long BP inc_word)"

definition x86emuOp_inc_SI :: "'m X86EMU \<Rightarrow> 'm X86EMU option" where
  "x86emuOp_inc_SI =
     instr (op_reg ESI inc_long SI inc_word)"

definition x86emuOp_inc_DI :: "'m X86EMU \<Rightarrow> 'm X86EMU option" where
  "x86emuOp_inc_DI =
     instr (op_reg EDI inc_long DI inc_word)"

definition x86emuOp_dec_AX :: "'m X86EMU \<Rightarrow> 'm X86EMU option" where
  "x86emuOp_dec_AX =
     instr (op_reg EAX dec_long AX dec_word)"

definition x86emuOp_dec_CX :: "'m X86EMU \<Rightarrow> 'm X86EMU option" where
  "x86emuOp_dec_CX =
     instr (op_reg ECX dec_long CX dec_word)"

definition x86emuOp_dec_DX :: "'m X86EMU \<Rightarrow> 'm X86EMU option" where
  "x86emuOp_dec_DX =
     instr (op_reg EDX dec_long DX dec_word)"

definition x86emuOp_dec_BX :: "'m X86EMU \<Rightarrow> 'm X86EMU option" where
  "x86emuOp_dec_BX =
     instr (op_reg EBX dec_long BX dec_word)"

definition x86emuOp_dec_SP :: "'m X86EMU \<Rightarrow> 'm X86EMU option" where
  "x86emuOp_dec_SP =
     instr (op_reg ESP dec_long SP dec_word)"

definition x86emuOp_dec_BP :: "'m X86EMU \<Rightarrow> 'm X86EMU option" where
  "x86emuOp_dec_BP =
     instr (op_reg EBP dec_long BP dec_word)"

definition x86emuOp_dec_SI :: "'m X86EMU \<Rightarrow> 'm X86EMU option" where
  "x86emuOp_dec_SI =
     instr (op_reg ESI dec_long SI dec_word)"

definition x86emuOp_dec_DI :: "'m X86EMU \<Rightarrow> 'm X86EMU option" where
  "x86emuOp_dec_DI =
     instr (op_reg EDI dec_long DI dec_word)"

section \<open>Stack\<close>

definition push_reg :: "'m sys_funcs \<Rightarrow> reg32 \<Rightarrow> reg16 \<Rightarrow> 'm X86EMU \<Rightarrow> 'm X86EMU option" where
  "push_reg F r32 r16 M =
     (if data32 M then push_long F (get32 r32 (x86 M)) M else push_word F (get16 r16 (x86 M)) M)"

definition pop_reg :: "'m sys_funcs \<Rightarrow> reg32 \<Rightarrow> reg16 \<Rightarrow> 'm X86EMU \<Rightarrow> 'm X86EMU option" where
  "pop_reg F r32 r16 M =
     (if data32 M then do { (v, M) \<leftarrow> pop_long F M; Some (regs (set32 r32 v) M) }
      else do { (v, M) \<leftarrow> pop_word F M; Some (regs (set16 r16 v) M) })"

definition x86emuOp_push_AX :: "'m sys_funcs \<Rightarrow> 'm X86EMU \<Rightarrow> 'm X86EMU option" where
  "x86emuOp_push_AX F =
     instr (push_reg F EAX AX)"

definition x86emuOp_push_CX :: "'m sys_funcs \<Rightarrow> 'm X86EMU \<Rightarrow> 'm X86EMU option" where
  "x86emuOp_push_CX F =
     instr (push_reg F ECX CX)"

definition x86emuOp_push_DX :: "'m sys_funcs \<Rightarrow> 'm X86EMU \<Rightarrow> 'm X86EMU option" where
  "x86emuOp_push_DX F =
     instr (push_reg F EDX DX)"

definition x86emuOp_push_BX :: "'m sys_funcs \<Rightarrow> 'm X86EMU \<Rightarrow> 'm X86EMU option" where
  "x86emuOp_push_BX F =
     instr (push_reg F EBX BX)"

definition x86emuOp_push_SP :: "'m sys_funcs \<Rightarrow> 'm X86EMU \<Rightarrow> 'm X86EMU option" where
  "x86emuOp_push_SP F =
     instr (push_reg F ESP SP)"

definition x86emuOp_push_BP :: "'m sys_funcs \<Rightarrow> 'm X86EMU \<Rightarrow> 'm X86EMU option" where
  "x86emuOp_push_BP F =
     instr (push_reg F EBP BP)"

definition x86emuOp_push_SI :: "'m sys_funcs \<Rightarrow> 'm X86EMU \<Rightarrow> 'm X86EMU option" where
  "x86emuOp_push_SI F =
     instr (push_reg F ESI SI)"

definition x86emuOp_push_DI :: "'m sys_funcs \<Rightarrow> 'm X86EMU \<Rightarrow> 'm X86EMU option" where
  "x86emuOp_push_DI F =
     instr (push_reg F EDI DI)"

definition x86emuOp_pop_AX :: "'m sys_funcs \<Rightarrow> 'm X86EMU \<Rightarrow> 'm X86EMU option" where
  "x86emuOp_pop_AX F =
     instr (pop_reg F EAX AX)"

definition x86emuOp_pop_CX :: "'m sys_funcs \<Rightarrow> 'm X86EMU \<Rightarrow> 'm X86EMU option" where
  "x86emuOp_pop_CX F =
     instr (pop_reg F ECX CX)"

definition x86emuOp_pop_DX :: "'m sys_funcs \<Rightarrow> 'm X86EMU \<Rightarrow> 'm X86EMU option" where
  "x86emuOp_pop_DX F =
     instr (pop_reg F EDX DX)"

definition x86emuOp_pop_BX :: "'m sys_funcs \<Rightarrow> 'm X86EMU \<Rightarrow> 'm X86EMU option" where
  "x86emuOp_pop_BX F =
     instr (pop_reg F EBX BX)"

definition x86emuOp_pop_SP :: "'m sys_funcs \<Rightarrow> 'm X86EMU \<Rightarrow> 'm X86EMU option" where
  "x86emuOp_pop_SP F =
     instr (pop_reg F ESP SP)"

definition x86emuOp_pop_BP :: "'m sys_funcs \<Rightarrow> 'm X86EMU \<Rightarrow> 'm X86EMU option" where
  "x86emuOp_pop_BP F =
     instr (pop_reg F EBP BP)"

definition x86emuOp_pop_SI :: "'m sys_funcs \<Rightarrow> 'm X86EMU \<Rightarrow> 'm X86EMU option" where
  "x86emuOp_pop_SI F =
     instr (pop_reg F ESI SI)"

definition x86emuOp_pop_DI :: "'m sys_funcs \<Rightarrow> 'm X86EMU \<Rightarrow> 'm X86EMU option" where
  "x86emuOp_pop_DI F =
     instr (pop_reg F EDI DI)"

text \<open>\<open>push_all\<close> pushes the stack pointer from before, \<open>pop_all\<close> skips it.\<close>

definition x86emuOp_push_all :: "'m sys_funcs \<Rightarrow> 'm X86EMU \<Rightarrow> 'm X86EMU option" where
  "x86emuOp_push_all F =
     instr (\<lambda>M. if data32 M then
              do { let old_sp = R_ESP (x86 M);
                   M \<leftarrow> push_long F (R_EAX (x86 M)) M;
                   M \<leftarrow> push_long F (R_ECX (x86 M)) M;
                   M \<leftarrow> push_long F (R_EDX (x86 M)) M;
                   M \<leftarrow> push_long F (R_EBX (x86 M)) M;
                   M \<leftarrow> push_long F old_sp M;
                   M \<leftarrow> push_long F (R_EBP (x86 M)) M;
                   M \<leftarrow> push_long F (R_ESI (x86 M)) M;
                   push_long F (R_EDI (x86 M)) M }
            else
              do { let old_sp = R_SP (x86 M);
                   M \<leftarrow> push_word F (R_AX (x86 M)) M;
                   M \<leftarrow> push_word F (R_CX (x86 M)) M;
                   M \<leftarrow> push_word F (R_DX (x86 M)) M;
                   M \<leftarrow> push_word F (R_BX (x86 M)) M;
                   M \<leftarrow> push_word F old_sp M;
                   M \<leftarrow> push_word F (R_BP (x86 M)) M;
                   M \<leftarrow> push_word F (R_SI (x86 M)) M;
                   push_word F (R_DI (x86 M)) M })"

definition pop_into :: "'m sys_funcs \<Rightarrow> reg16 \<Rightarrow> 'm X86EMU \<Rightarrow> 'm X86EMU option" where
  "pop_into F r M = do { (v, M) \<leftarrow> pop_word F M; Some (regs (set16 r v) M) }"

definition pop_into32 :: "'m sys_funcs \<Rightarrow> reg32 \<Rightarrow> 'm X86EMU \<Rightarrow> 'm X86EMU option" where
  "pop_into32 F r M = do { (v, M) \<leftarrow> pop_long F M; Some (regs (set32 r v) M) }"

definition x86emuOp_pop_all :: "'m sys_funcs \<Rightarrow> 'm X86EMU \<Rightarrow> 'm X86EMU option" where
  "x86emuOp_pop_all F =
     instr (\<lambda>M. if data32 M then
              do { M \<leftarrow> pop_into32 F EDI M;
                   M \<leftarrow> pop_into32 F ESI M;
                   M \<leftarrow> pop_into32 F EBP M;
                   let M = regs (\<lambda>st. st\<lparr> R_ESP := R_ESP st + 4 \<rparr>) M;
                   M \<leftarrow> pop_into32 F EBX M;
                   M \<leftarrow> pop_into32 F EDX M;
                   M \<leftarrow> pop_into32 F ECX M;
                   pop_into32 F EAX M }
            else
              do { M \<leftarrow> pop_into F DI M;
                   M \<leftarrow> pop_into F SI M;
                   M \<leftarrow> pop_into F BP M;
                   let M = regs (\<lambda>st. set_SP (R_SP st + 2) st) M;
                   M \<leftarrow> pop_into F BX M;
                   M \<leftarrow> pop_into F DX M;
                   M \<leftarrow> pop_into F CX M;
                   pop_into F AX M })"

definition push_seg :: "'m sys_funcs \<Rightarrow> sreg \<Rightarrow> 'm X86EMU \<Rightarrow> 'm X86EMU option" where
  "push_seg F r = instr (\<lambda>M. push_word F (getseg r (x86 M)) M)"

definition pop_seg :: "'m sys_funcs \<Rightarrow> sreg \<Rightarrow> 'm X86EMU \<Rightarrow> 'm X86EMU option" where
  "pop_seg F r = instr (\<lambda>M. do { (v, M) \<leftarrow> pop_word F M; Some (regs (setseg r v) M) })"

definition x86emuOp_push_ES :: "'m sys_funcs \<Rightarrow> 'm X86EMU \<Rightarrow> 'm X86EMU option" where
  "x86emuOp_push_ES F =
     push_seg F ES"

definition x86emuOp_pop_ES :: "'m sys_funcs \<Rightarrow> 'm X86EMU \<Rightarrow> 'm X86EMU option" where
  "x86emuOp_pop_ES F =
     pop_seg F ES"

definition x86emuOp_push_CS :: "'m sys_funcs \<Rightarrow> 'm X86EMU \<Rightarrow> 'm X86EMU option" where
  "x86emuOp_push_CS F =
     push_seg F CS"

definition x86emuOp_push_SS :: "'m sys_funcs \<Rightarrow> 'm X86EMU \<Rightarrow> 'm X86EMU option" where
  "x86emuOp_push_SS F =
     push_seg F SS"

definition x86emuOp_pop_SS :: "'m sys_funcs \<Rightarrow> 'm X86EMU \<Rightarrow> 'm X86EMU option" where
  "x86emuOp_pop_SS F =
     pop_seg F SS"

definition x86emuOp_push_DS :: "'m sys_funcs \<Rightarrow> 'm X86EMU \<Rightarrow> 'm X86EMU option" where
  "x86emuOp_push_DS F =
     push_seg F DS"

definition x86emuOp_pop_DS :: "'m sys_funcs \<Rightarrow> 'm X86EMU \<Rightarrow> 'm X86EMU option" where
  "x86emuOp_pop_DS F =
     pop_seg F DS"

definition x86emuOp_push_word_IMM :: "'m sys_funcs \<Rightarrow> 'm X86EMU \<Rightarrow> 'm X86EMU option" where
  "x86emuOp_push_word_IMM F =
     instr (\<lambda>M. do { (imm, M) \<leftarrow> fetch_sized_imm F M;
                     if data32 M then push_long F imm M else push_word F (ucast imm) M })"

definition x86emuOp_push_byte_IMM :: "'m sys_funcs \<Rightarrow> 'm X86EMU \<Rightarrow> 'm X86EMU option" where
  "x86emuOp_push_byte_IMM F =
     instr (\<lambda>M. do { (b, M) \<leftarrow> fetch_byte_imm F M;
                     let imm = (scast b :: u16);
                     if data32 M then push_long F (scast imm) M else push_word F imm M })"

section \<open>Exchange and immediates\<close>

definition xchg_acc :: "reg32 \<Rightarrow> reg16 \<Rightarrow> 'm X86EMU \<Rightarrow> 'm X86EMU option" where
  "xchg_acc r32 r16 M =
     (if data32 M then
        let tmp = R_EAX (x86 M)
        in Some (regs (\<lambda>st. set32 r32 tmp (st\<lparr> R_EAX := get32 r32 st \<rparr>)) M)
      else
        let tmp = R_AX (x86 M)
        in Some (regs (\<lambda>st. set16 r16 tmp (set_AX (get16 r16 st) st)) M))"

definition x86emuOp_xchg_word_AX_CX :: "'m X86EMU \<Rightarrow> 'm X86EMU option" where
  "x86emuOp_xchg_word_AX_CX =
     instr (xchg_acc ECX CX)"

definition x86emuOp_xchg_word_AX_DX :: "'m X86EMU \<Rightarrow> 'm X86EMU option" where
  "x86emuOp_xchg_word_AX_DX =
     instr (xchg_acc EDX DX)"

definition x86emuOp_xchg_word_AX_BX :: "'m X86EMU \<Rightarrow> 'm X86EMU option" where
  "x86emuOp_xchg_word_AX_BX =
     instr (xchg_acc EBX BX)"

definition x86emuOp_xchg_word_AX_SP :: "'m X86EMU \<Rightarrow> 'm X86EMU option" where
  "x86emuOp_xchg_word_AX_SP =
     instr (xchg_acc ESP SP)"

definition x86emuOp_xchg_word_AX_BP :: "'m X86EMU \<Rightarrow> 'm X86EMU option" where
  "x86emuOp_xchg_word_AX_BP =
     instr (xchg_acc EBP BP)"

definition x86emuOp_xchg_word_AX_SI :: "'m X86EMU \<Rightarrow> 'm X86EMU option" where
  "x86emuOp_xchg_word_AX_SI =
     instr (xchg_acc ESI SI)"

definition x86emuOp_xchg_word_AX_DI :: "'m X86EMU \<Rightarrow> 'm X86EMU option" where
  "x86emuOp_xchg_word_AX_DI =
     instr (xchg_acc EDI DI)"

definition mov_reg8_imm :: "'m sys_funcs \<Rightarrow> reg8 \<Rightarrow> 'm X86EMU \<Rightarrow> 'm X86EMU option" where
  "mov_reg8_imm F r M = do { (imm, M) \<leftarrow> fetch_byte_imm F M; Some (regs (set8 r imm) M) }"

definition mov_reg_imm :: "'m sys_funcs \<Rightarrow> reg32 \<Rightarrow> reg16 \<Rightarrow> 'm X86EMU \<Rightarrow> 'm X86EMU option" where
  "mov_reg_imm F r32 r16 M =
     do { (srcval, M) \<leftarrow> fetch_sized_imm F M;
          if data32 M then Some (regs (set32 r32 srcval) M)
          else Some (regs (set16 r16 (ucast srcval)) M) }"

definition x86emuOp_mov_byte_AL_IMM :: "'m sys_funcs \<Rightarrow> 'm X86EMU \<Rightarrow> 'm X86EMU option" where
  "x86emuOp_mov_byte_AL_IMM F =
     instr (mov_reg8_imm F AL)"

definition x86emuOp_mov_byte_CL_IMM :: "'m sys_funcs \<Rightarrow> 'm X86EMU \<Rightarrow> 'm X86EMU option" where
  "x86emuOp_mov_byte_CL_IMM F =
     instr (mov_reg8_imm F CL)"

definition x86emuOp_mov_byte_DL_IMM :: "'m sys_funcs \<Rightarrow> 'm X86EMU \<Rightarrow> 'm X86EMU option" where
  "x86emuOp_mov_byte_DL_IMM F =
     instr (mov_reg8_imm F DL)"

definition x86emuOp_mov_byte_BL_IMM :: "'m sys_funcs \<Rightarrow> 'm X86EMU \<Rightarrow> 'm X86EMU option" where
  "x86emuOp_mov_byte_BL_IMM F =
     instr (mov_reg8_imm F BL)"

definition x86emuOp_mov_byte_AH_IMM :: "'m sys_funcs \<Rightarrow> 'm X86EMU \<Rightarrow> 'm X86EMU option" where
  "x86emuOp_mov_byte_AH_IMM F =
     instr (mov_reg8_imm F AH)"

definition x86emuOp_mov_byte_CH_IMM :: "'m sys_funcs \<Rightarrow> 'm X86EMU \<Rightarrow> 'm X86EMU option" where
  "x86emuOp_mov_byte_CH_IMM F =
     instr (mov_reg8_imm F CH)"

definition x86emuOp_mov_byte_DH_IMM :: "'m sys_funcs \<Rightarrow> 'm X86EMU \<Rightarrow> 'm X86EMU option" where
  "x86emuOp_mov_byte_DH_IMM F =
     instr (mov_reg8_imm F DH)"

definition x86emuOp_mov_byte_BH_IMM :: "'m sys_funcs \<Rightarrow> 'm X86EMU \<Rightarrow> 'm X86EMU option" where
  "x86emuOp_mov_byte_BH_IMM F =
     instr (mov_reg8_imm F BH)"

definition x86emuOp_mov_word_AX_IMM :: "'m sys_funcs \<Rightarrow> 'm X86EMU \<Rightarrow> 'm X86EMU option" where
  "x86emuOp_mov_word_AX_IMM F =
     instr (mov_reg_imm F EAX AX)"

definition x86emuOp_mov_word_CX_IMM :: "'m sys_funcs \<Rightarrow> 'm X86EMU \<Rightarrow> 'm X86EMU option" where
  "x86emuOp_mov_word_CX_IMM F =
     instr (mov_reg_imm F ECX CX)"

definition x86emuOp_mov_word_DX_IMM :: "'m sys_funcs \<Rightarrow> 'm X86EMU \<Rightarrow> 'm X86EMU option" where
  "x86emuOp_mov_word_DX_IMM F =
     instr (mov_reg_imm F EDX DX)"

definition x86emuOp_mov_word_BX_IMM :: "'m sys_funcs \<Rightarrow> 'm X86EMU \<Rightarrow> 'm X86EMU option" where
  "x86emuOp_mov_word_BX_IMM F =
     instr (mov_reg_imm F EBX BX)"

definition x86emuOp_mov_word_SP_IMM :: "'m sys_funcs \<Rightarrow> 'm X86EMU \<Rightarrow> 'm X86EMU option" where
  "x86emuOp_mov_word_SP_IMM F =
     instr (mov_reg_imm F ESP SP)"

definition x86emuOp_mov_word_BP_IMM :: "'m sys_funcs \<Rightarrow> 'm X86EMU \<Rightarrow> 'm X86EMU option" where
  "x86emuOp_mov_word_BP_IMM F =
     instr (mov_reg_imm F EBP BP)"

definition x86emuOp_mov_word_SI_IMM :: "'m sys_funcs \<Rightarrow> 'm X86EMU \<Rightarrow> 'm X86EMU option" where
  "x86emuOp_mov_word_SI_IMM F =
     instr (mov_reg_imm F ESI SI)"

definition x86emuOp_mov_word_DI_IMM :: "'m sys_funcs \<Rightarrow> 'm X86EMU \<Rightarrow> 'm X86EMU option" where
  "x86emuOp_mov_word_DI_IMM F =
     instr (mov_reg_imm F EDI DI)"

section \<open>The accumulator\<close>

definition x86emuOp_daa :: "'m X86EMU \<Rightarrow> 'm X86EMU option" where
  "x86emuOp_daa =
     instr (\<lambda>M. Some (regs (upd (get8 AL) (set8 AL) daa_byte) M))"

definition x86emuOp_das :: "'m X86EMU \<Rightarrow> 'm X86EMU option" where
  "x86emuOp_das =
     instr (\<lambda>M. Some (regs (upd (get8 AL) (set8 AL) das_byte) M))"

definition x86emuOp_aaa :: "'m X86EMU \<Rightarrow> 'm X86EMU option" where
  "x86emuOp_aaa =
     instr (\<lambda>M. Some (regs (upd (get16 AX) (set16 AX) aaa_word) M))"

definition x86emuOp_aas :: "'m X86EMU \<Rightarrow> 'm X86EMU option" where
  "x86emuOp_aas =
     instr (\<lambda>M. Some (regs (upd (get16 AX) (set16 AX) aas_word) M))"

text \<open>A base other than 10 halts the machine, and the adjustment by 10 takes place.\<close>

definition x86emuOp_aam :: "'m sys_funcs \<Rightarrow> 'm X86EMU \<Rightarrow> 'm X86EMU option" where
  "x86emuOp_aam F =
     instr (\<lambda>M. do { (a, M) \<leftarrow> fetch_byte_imm F M;
                     let M = (if a \<noteq> 10 then X86EMU_halt_sys M else M);
                     Some (regs (\<lambda>st. let (v, st) = aam_word (R_AL st) st in set_AX v st) M) })"

definition x86emuOp_aad :: "'m sys_funcs \<Rightarrow> 'm X86EMU \<Rightarrow> 'm X86EMU option" where
  "x86emuOp_aad F =
     instr (\<lambda>M. do { (a, M) \<leftarrow> fetch_byte_imm F M;
                     let M = (if a \<noteq> 10 then X86EMU_halt_sys M else M);
                     Some (regs (upd R_AX set_AX aad_word) M) })"

definition x86emuOp_cbw :: "'m X86EMU \<Rightarrow> 'm X86EMU option" where
  "x86emuOp_cbw =
     instr (\<lambda>M. if data32 M then
              Some (regs (\<lambda>st. if R_AX st AND 0x8000 \<noteq> 0 then st\<lparr> R_EAX := R_EAX st OR 0xffff0000 \<rparr>
                               else st\<lparr> R_EAX := R_EAX st AND 0x0000ffff \<rparr>) M)
            else
              Some (regs (\<lambda>st. if R_AL st AND 0x80 \<noteq> 0 then set_AH 0xff st else set_AH 0x0 st) M))"

definition x86emuOp_cwd :: "'m X86EMU \<Rightarrow> 'm X86EMU option" where
  "x86emuOp_cwd =
     instr (\<lambda>M. if data32 M then
              Some (regs (\<lambda>st. if R_EAX st AND 0x80000000 \<noteq> 0 then st\<lparr> R_EDX := 0xffffffff \<rparr>
                               else st\<lparr> R_EDX := 0x0 \<rparr>) M)
            else
              Some (regs (\<lambda>st. if R_AX st AND 0x8000 \<noteq> 0 then set_DX 0xffff st else set_DX 0x0 st) M))"

text \<open>The handlers, to unfold together.\<close>

lemmas reg_handlers =
  x86emuOp_inc_AX_def x86emuOp_inc_CX_def x86emuOp_inc_DX_def x86emuOp_inc_BX_def x86emuOp_inc_SP_def
  x86emuOp_inc_BP_def x86emuOp_inc_SI_def x86emuOp_inc_DI_def x86emuOp_dec_AX_def x86emuOp_dec_CX_def
  x86emuOp_dec_DX_def x86emuOp_dec_BX_def x86emuOp_dec_SP_def x86emuOp_dec_BP_def x86emuOp_dec_SI_def
  x86emuOp_dec_DI_def x86emuOp_push_AX_def x86emuOp_push_CX_def x86emuOp_push_DX_def x86emuOp_push_BX_def
  x86emuOp_push_SP_def x86emuOp_push_BP_def x86emuOp_push_SI_def x86emuOp_push_DI_def x86emuOp_pop_AX_def
  x86emuOp_pop_CX_def x86emuOp_pop_DX_def x86emuOp_pop_BX_def x86emuOp_pop_SP_def x86emuOp_pop_BP_def
  x86emuOp_pop_SI_def x86emuOp_pop_DI_def x86emuOp_push_all_def x86emuOp_pop_all_def x86emuOp_push_ES_def
  x86emuOp_pop_ES_def x86emuOp_push_CS_def x86emuOp_push_SS_def x86emuOp_pop_SS_def x86emuOp_push_DS_def
  x86emuOp_pop_DS_def x86emuOp_push_word_IMM_def x86emuOp_push_byte_IMM_def x86emuOp_xchg_word_AX_CX_def
  x86emuOp_xchg_word_AX_DX_def x86emuOp_xchg_word_AX_BX_def x86emuOp_xchg_word_AX_SP_def
  x86emuOp_xchg_word_AX_BP_def x86emuOp_xchg_word_AX_SI_def x86emuOp_xchg_word_AX_DI_def
  x86emuOp_mov_byte_AL_IMM_def x86emuOp_mov_byte_CL_IMM_def x86emuOp_mov_byte_DL_IMM_def
  x86emuOp_mov_byte_BL_IMM_def x86emuOp_mov_byte_AH_IMM_def x86emuOp_mov_byte_CH_IMM_def
  x86emuOp_mov_byte_DH_IMM_def x86emuOp_mov_byte_BH_IMM_def x86emuOp_mov_word_AX_IMM_def
  x86emuOp_mov_word_CX_IMM_def x86emuOp_mov_word_DX_IMM_def x86emuOp_mov_word_BX_IMM_def
  x86emuOp_mov_word_SP_IMM_def x86emuOp_mov_word_BP_IMM_def x86emuOp_mov_word_SI_IMM_def
  x86emuOp_mov_word_DI_IMM_def x86emuOp_daa_def x86emuOp_das_def x86emuOp_aaa_def x86emuOp_aas_def
  x86emuOp_aam_def x86emuOp_aad_def x86emuOp_cbw_def x86emuOp_cwd_def

end
