(* ===== verification/X86OpsMove.thy ===== *)
theory X86OpsMove
  imports X86OpsReg
begin

unbundle bit_operations_syntax

text \<open>
  Data movement of \<open>ops.c\<close>: TEST, XCHG and MOV with a ModRM operand, segment registers, LEA, far
  pointers, absolute addresses, ports, flags, and the prefixes.
\<close>

section \<open>TEST and XCHG\<close>

definition x86emuOp_test_byte_RM_R :: "'m sys_funcs \<Rightarrow> 'm X86EMU \<Rightarrow> 'm X86EMU option" where
  "x86emuOp_test_byte_RM_R F = with_modrm F (flags_RM_R width8 test_byte F)"

definition x86emuOp_test_word_RM_R :: "'m sys_funcs \<Rightarrow> 'm X86EMU \<Rightarrow> 'm X86EMU option" where
  "x86emuOp_test_word_RM_R F =
     with_modrm F (by_size (flags_RM_R width32 test_long F) (flags_RM_R width16 test_word F))"

definition x86emuOp_test_AL_IMM :: "'m sys_funcs \<Rightarrow> 'm X86EMU \<Rightarrow> 'm X86EMU option" where
  "x86emuOp_test_AL_IMM F =
     instr (\<lambda>M. do { (imm, M) \<leftarrow> fetch_byte_imm F M; Some (regs (\<lambda>st. test_byte (R_AL st) imm st) M) })"

definition x86emuOp_test_AX_IMM :: "'m sys_funcs \<Rightarrow> 'm X86EMU \<Rightarrow> 'm X86EMU option" where
  "x86emuOp_test_AX_IMM F = instr (flags_AX_IMM test_long test_word F)"

definition xchg_RM_R ::
  "('r, 'v, 'm) width \<Rightarrow> 'm sys_funcs \<Rightarrow> nat \<Rightarrow> nat \<Rightarrow> nat \<Rightarrow> 'm X86EMU \<Rightarrow> 'm X86EMU option" where
  "xchg_RM_R W F md rh rl M =
     (if md < 3 then
        do { (destoffset, M) \<leftarrow> rm_address F md rl M;
             (destval, M) \<leftarrow> w_fetch W F destoffset M;
             (srcreg, M) \<leftarrow> reg_ref W rh M;
             let tmp = w_get W srcreg (x86 M);
             let M = regs (w_put W srcreg destval) M;
             w_store W F destoffset tmp M }
      else
        do { (destreg, M) \<leftarrow> reg_ref W rl M;
             (srcreg, M) \<leftarrow> reg_ref W rh M;
             let tmp = w_get W srcreg (x86 M);
             let M = regs (\<lambda>st. w_put W srcreg (w_get W destreg st) st) M;
             Some (regs (w_put W destreg tmp) M) })"

definition x86emuOp_xchg_byte_RM_R :: "'m sys_funcs \<Rightarrow> 'm X86EMU \<Rightarrow> 'm X86EMU option" where
  "x86emuOp_xchg_byte_RM_R F = with_modrm F (xchg_RM_R width8 F)"

definition x86emuOp_xchg_word_RM_R :: "'m sys_funcs \<Rightarrow> 'm X86EMU \<Rightarrow> 'm X86EMU option" where
  "x86emuOp_xchg_word_RM_R F = with_modrm F (by_size (xchg_RM_R width32 F) (xchg_RM_R width16 F))"

section \<open>MOV\<close>

definition mov_RM_R ::
  "('r, 'v, 'm) width \<Rightarrow> 'm sys_funcs \<Rightarrow> nat \<Rightarrow> nat \<Rightarrow> nat \<Rightarrow> 'm X86EMU \<Rightarrow> 'm X86EMU option" where
  "mov_RM_R W F md rh rl M =
     (if md < 3 then
        do { (destoffset, M) \<leftarrow> rm_address F md rl M;
             (srcreg, M) \<leftarrow> reg_ref W rh M;
             w_store W F destoffset (w_get W srcreg (x86 M)) M }
      else
        do { (destreg, M) \<leftarrow> reg_ref W rl M;
             (srcreg, M) \<leftarrow> reg_ref W rh M;
             Some (regs (\<lambda>st. w_put W destreg (w_get W srcreg st) st) M) })"

definition mov_R_RM ::
  "('r, 'v, 'm) width \<Rightarrow> 'm sys_funcs \<Rightarrow> nat \<Rightarrow> nat \<Rightarrow> nat \<Rightarrow> 'm X86EMU \<Rightarrow> 'm X86EMU option" where
  "mov_R_RM W F md rh rl M =
     (if md < 3 then
        do { (destreg, M) \<leftarrow> reg_ref W rh M;
             (srcoffset, M) \<leftarrow> rm_address F md rl M;
             (srcval, M) \<leftarrow> w_fetch W F srcoffset M;
             Some (regs (w_put W destreg srcval) M) }
      else
        do { (destreg, M) \<leftarrow> reg_ref W rh M;
             (srcreg, M) \<leftarrow> reg_ref W rl M;
             Some (regs (\<lambda>st. w_put W destreg (w_get W srcreg st) st) M) })"

definition x86emuOp_mov_byte_RM_R :: "'m sys_funcs \<Rightarrow> 'm X86EMU \<Rightarrow> 'm X86EMU option" where
  "x86emuOp_mov_byte_RM_R F = with_modrm F (mov_RM_R width8 F)"

definition x86emuOp_mov_word_RM_R :: "'m sys_funcs \<Rightarrow> 'm X86EMU \<Rightarrow> 'm X86EMU option" where
  "x86emuOp_mov_word_RM_R F = with_modrm F (by_size (mov_RM_R width32 F) (mov_RM_R width16 F))"

definition x86emuOp_mov_byte_R_RM :: "'m sys_funcs \<Rightarrow> 'm X86EMU \<Rightarrow> 'm X86EMU option" where
  "x86emuOp_mov_byte_R_RM F = with_modrm F (mov_R_RM width8 F)"

definition x86emuOp_mov_word_R_RM :: "'m sys_funcs \<Rightarrow> 'm X86EMU \<Rightarrow> 'm X86EMU option" where
  "x86emuOp_mov_word_R_RM F = with_modrm F (by_size (mov_R_RM width32 F) (mov_R_RM width16 F))"

text \<open>
  The segment register fields 6 and 7 have no register: \<open>decode_rm_seg_register\<close> halts the machine
  and returns a null pointer, which both handlers dereference.
\<close>

definition x86emuOp_mov_word_RM_SR :: "'m sys_funcs \<Rightarrow> 'm X86EMU \<Rightarrow> 'm X86EMU option" where
  "x86emuOp_mov_word_RM_SR F =
     with_modrm F (\<lambda>md rh rl M.
       if md < 3 then
         do { (destoffset, M) \<leftarrow> rm_address F md rl M;
              (srcreg, M) \<leftarrow> seg_ref rh M;
              store_data_word F destoffset (getseg srcreg (x86 M)) M }
       else
         do { (destreg, M) \<leftarrow> reg_ref width16 rl M;
              (srcreg, M) \<leftarrow> seg_ref rh M;
              Some (regs (\<lambda>st. set16 destreg (getseg srcreg st) st) M) })"

definition x86emuOp_mov_word_SR_RM :: "'m sys_funcs \<Rightarrow> 'm X86EMU \<Rightarrow> 'm X86EMU option" where
  "x86emuOp_mov_word_SR_RM F =
     with_modrm F (\<lambda>md rh rl M.
       if md < 3 then
         do { (destreg, M) \<leftarrow> seg_ref rh M;
              (srcoffset, M) \<leftarrow> rm_address F md rl M;
              (srcval, M) \<leftarrow> fetch_data_word F srcoffset M;
              Some (regs (setseg destreg srcval) M) }
       else
         do { (destreg, M) \<leftarrow> seg_ref rh M;
              (srcreg, M) \<leftarrow> reg_ref width16 rl M;
              Some (regs (\<lambda>st. setseg destreg (get16 srcreg st) st) M) })"

definition x86emuOp_lea_word_R_M :: "'m sys_funcs \<Rightarrow> 'm X86EMU \<Rightarrow> 'm X86EMU option" where
  "x86emuOp_lea_word_R_M F =
     with_modrm F (\<lambda>md rh rl M.
       if md < 3 then
         if addr32 (x86 M) then
           do { (srcreg, M) \<leftarrow> reg_ref width32 rh M;
                (destoffset, M) \<leftarrow> rm_address F md rl M;
                Some (regs (set32 srcreg destoffset) M) }
         else
           do { (srcreg, M) \<leftarrow> reg_ref width16 rh M;
                (destoffset, M) \<leftarrow> rm_address F md rl M;
                Some (regs (set16 srcreg (ucast destoffset)) M) }
       else Some M)"

definition pop_to ::
  "('r, 'v, 'm) width \<Rightarrow> ('m X86EMU \<Rightarrow> ('v \<times> 'm X86EMU) option) \<Rightarrow> 'm sys_funcs
   \<Rightarrow> nat \<Rightarrow> nat \<Rightarrow> nat \<Rightarrow> 'm X86EMU \<Rightarrow> 'm X86EMU option" where
  "pop_to W pop F md rh rl M =
     (if md < 3 then
        do { (destoffset, M) \<leftarrow> rm_address F md rl M;
             (destval, M) \<leftarrow> pop M;
             w_store W F destoffset destval M }
      else
        do { (destreg, M) \<leftarrow> reg_ref W rl M;
             (v, M) \<leftarrow> pop M;
             Some (regs (w_put W destreg v) M) })"

text \<open>A register field other than 0 halts the machine, and the instruction is carried out.\<close>

definition halt_unless_0 :: "nat \<Rightarrow> 'm X86EMU \<Rightarrow> 'm X86EMU" where
  "halt_unless_0 rh M = (if rh \<noteq> 0 then X86EMU_halt_sys M else M)"

definition x86emuOp_pop_RM :: "'m sys_funcs \<Rightarrow> 'm X86EMU \<Rightarrow> 'm X86EMU option" where
  "x86emuOp_pop_RM F =
     with_modrm F (\<lambda>md rh rl M.
       by_size (pop_to width32 (pop_long F) F) (pop_to width16 (pop_word F) F) md rh rl (halt_unless_0 rh M))"

definition mov_RM_IMM ::
  "('r, 'v, 'm) width \<Rightarrow> 'm sys_funcs \<Rightarrow> nat \<Rightarrow> nat \<Rightarrow> nat \<Rightarrow> 'm X86EMU \<Rightarrow> 'm X86EMU option" where
  "mov_RM_IMM W F md rh rl M =
     (if md < 3 then
        do { (destoffset, M) \<leftarrow> rm_address F md rl M;
             (imm, M) \<leftarrow> w_imm W F M;
             w_store W F destoffset imm M }
      else
        do { (destreg, M) \<leftarrow> reg_ref W rl M;
             (imm, M) \<leftarrow> w_imm W F M;
             Some (regs (w_put W destreg imm) M) })"

definition x86emuOp_mov_byte_RM_IMM :: "'m sys_funcs \<Rightarrow> 'm X86EMU \<Rightarrow> 'm X86EMU option" where
  "x86emuOp_mov_byte_RM_IMM F =
     with_modrm F (\<lambda>md rh rl M. mov_RM_IMM width8 F md rh rl (halt_unless_0 rh M))"

definition x86emuOp_mov_word_RM_IMM :: "'m sys_funcs \<Rightarrow> 'm X86EMU \<Rightarrow> 'm X86EMU option" where
  "x86emuOp_mov_word_RM_IMM F =
     with_modrm F (\<lambda>md rh rl M.
       by_size (mov_RM_IMM width32 F) (mov_RM_IMM width16 F) md rh rl (halt_unless_0 rh M))"

text \<open>Far pointers: the offset goes to the word register, the segment to \<open>seg\<close>.\<close>

definition load_far :: "sreg \<Rightarrow> 'm sys_funcs \<Rightarrow> nat \<Rightarrow> nat \<Rightarrow> nat \<Rightarrow> 'm X86EMU \<Rightarrow> 'm X86EMU option" where
  "load_far seg F md rh rl M =
     (if md < 3 then
        do { (dstreg, M) \<leftarrow> reg_ref width16 rh M;
             (srcoffset, M) \<leftarrow> rm_address F md rl M;
             (v, M) \<leftarrow> fetch_data_word F srcoffset M;
             let M = regs (set16 dstreg v) M;
             (s, M) \<leftarrow> fetch_data_word F (srcoffset + 2) M;
             Some (regs (setseg seg s) M) }
      else Some M)"

definition x86emuOp_les_R_IMM :: "'m sys_funcs \<Rightarrow> 'm X86EMU \<Rightarrow> 'm X86EMU option" where
  "x86emuOp_les_R_IMM F = with_modrm F (load_far ES F)"

definition x86emuOp_lds_R_IMM :: "'m sys_funcs \<Rightarrow> 'm X86EMU \<Rightarrow> 'm X86EMU option" where
  "x86emuOp_lds_R_IMM F = with_modrm F (load_far DS F)"

section \<open>Absolute addresses\<close>

definition x86emuOp_mov_AL_M_IMM :: "'m sys_funcs \<Rightarrow> 'm X86EMU \<Rightarrow> 'm X86EMU option" where
  "x86emuOp_mov_AL_M_IMM F =
     instr (\<lambda>M. do { (offset, M) \<leftarrow> fetch_word_imm F M;
                     (v, M) \<leftarrow> fetch_data_byte F (ucast offset) M;
                     Some (regs (set_AL v) M) })"

definition x86emuOp_mov_AX_M_IMM :: "'m sys_funcs \<Rightarrow> 'm X86EMU \<Rightarrow> 'm X86EMU option" where
  "x86emuOp_mov_AX_M_IMM F =
     instr (\<lambda>M. do { (offset, M) \<leftarrow> fetch_word_imm F M;
                     if data32 M then do { (v, M) \<leftarrow> fetch_data_long F (ucast offset) M;
                                           Some (regs (\<lambda>st. st\<lparr> R_EAX := v \<rparr>) M) }
                     else do { (v, M) \<leftarrow> fetch_data_word F (ucast offset) M; Some (regs (set_AX v) M) } })"

definition x86emuOp_mov_M_AL_IMM :: "'m sys_funcs \<Rightarrow> 'm X86EMU \<Rightarrow> 'm X86EMU option" where
  "x86emuOp_mov_M_AL_IMM F =
     instr (\<lambda>M. do { (offset, M) \<leftarrow> fetch_word_imm F M;
                     store_data_byte F (ucast offset) (R_AL (x86 M)) M })"

definition x86emuOp_mov_M_AX_IMM :: "'m sys_funcs \<Rightarrow> 'm X86EMU \<Rightarrow> 'm X86EMU option" where
  "x86emuOp_mov_M_AX_IMM F =
     instr (\<lambda>M. do { (offset, M) \<leftarrow> fetch_word_imm F M;
                     if data32 M then store_data_long F (ucast offset) (R_EAX (x86 M)) M
                     else store_data_word F (ucast offset) (R_AX (x86 M)) M })"

definition x86emuOp_xlat :: "'m sys_funcs \<Rightarrow> 'm X86EMU \<Rightarrow> 'm X86EMU option" where
  "x86emuOp_xlat F =
     instr (\<lambda>M. do { let addr = R_BX (x86 M) + ucast (R_AL (x86 M));
                     (v, M) \<leftarrow> fetch_data_byte F (ucast addr) M;
                     Some (regs (set_AL v) M) })"

section \<open>Ports\<close>

definition in_acc :: "'m sys_funcs \<Rightarrow> u32 \<Rightarrow> 'm X86EMU \<Rightarrow> 'm X86EMU option" where
  "in_acc F port M =
     (if data32 M then do { (v, M) \<leftarrow> sys_inl F port M; Some (regs (\<lambda>st. st\<lparr> R_EAX := v \<rparr>) M) }
      else do { (v, M) \<leftarrow> sys_inw F port M; Some (regs (set_AX v) M) })"

definition out_acc :: "'m sys_funcs \<Rightarrow> u32 \<Rightarrow> 'm X86EMU \<Rightarrow> 'm X86EMU option" where
  "out_acc F port M =
     (if data32 M then sys_outl F port (R_EAX (x86 M)) M else sys_outw F port (R_AX (x86 M)) M)"

definition x86emuOp_in_byte_AL_IMM :: "'m sys_funcs \<Rightarrow> 'm X86EMU \<Rightarrow> 'm X86EMU option" where
  "x86emuOp_in_byte_AL_IMM F =
     instr (\<lambda>M. do { (port, M) \<leftarrow> fetch_byte_imm F M;
                     (v, M) \<leftarrow> sys_inb F (ucast port) M;
                     Some (regs (set_AL v) M) })"

definition x86emuOp_in_word_AX_IMM :: "'m sys_funcs \<Rightarrow> 'm X86EMU \<Rightarrow> 'm X86EMU option" where
  "x86emuOp_in_word_AX_IMM F =
     instr (\<lambda>M. do { (port, M) \<leftarrow> fetch_byte_imm F M; in_acc F (ucast port) M })"

definition x86emuOp_out_byte_IMM_AL :: "'m sys_funcs \<Rightarrow> 'm X86EMU \<Rightarrow> 'm X86EMU option" where
  "x86emuOp_out_byte_IMM_AL F =
     instr (\<lambda>M. do { (port, M) \<leftarrow> fetch_byte_imm F M; sys_outb F (ucast port) (R_AL (x86 M)) M })"

definition x86emuOp_out_word_IMM_AX :: "'m sys_funcs \<Rightarrow> 'm X86EMU \<Rightarrow> 'm X86EMU option" where
  "x86emuOp_out_word_IMM_AX F =
     instr (\<lambda>M. do { (port, M) \<leftarrow> fetch_byte_imm F M; out_acc F (ucast port) M })"

definition x86emuOp_in_byte_AL_DX :: "'m sys_funcs \<Rightarrow> 'm X86EMU \<Rightarrow> 'm X86EMU option" where
  "x86emuOp_in_byte_AL_DX F =
     instr (\<lambda>M. do { (v, M) \<leftarrow> sys_inb F (ucast (R_DX (x86 M))) M; Some (regs (set_AL v) M) })"

definition x86emuOp_in_word_AX_DX :: "'m sys_funcs \<Rightarrow> 'm X86EMU \<Rightarrow> 'm X86EMU option" where
  "x86emuOp_in_word_AX_DX F = instr (\<lambda>M. in_acc F (ucast (R_DX (x86 M))) M)"

definition x86emuOp_out_byte_DX_AL :: "'m sys_funcs \<Rightarrow> 'm X86EMU \<Rightarrow> 'm X86EMU option" where
  "x86emuOp_out_byte_DX_AL F = instr (\<lambda>M. sys_outb F (ucast (R_DX (x86 M))) (R_AL (x86 M)) M)"

definition x86emuOp_out_word_DX_AX :: "'m sys_funcs \<Rightarrow> 'm X86EMU \<Rightarrow> 'm X86EMU option" where
  "x86emuOp_out_word_DX_AX F = instr (\<lambda>M. out_acc F (ucast (R_DX (x86 M))) M)"

section \<open>Flags\<close>

definition F_MSK :: u32 where
  "F_MSK = F_CF OR F_PF OR F_AF OR F_ZF OR F_SF OR F_TF OR F_IF OR F_DF OR F_OF"

definition F_ALWAYS_ON :: u32 where "F_ALWAYS_ON = 0x0002"

definition x86emuOp_pushf_word :: "'m sys_funcs \<Rightarrow> 'm X86EMU \<Rightarrow> 'm X86EMU option" where
  "x86emuOp_pushf_word F =
     instr (\<lambda>M. let flags = (R_FLG (x86 M) AND F_MSK) OR F_ALWAYS_ON
                in if data32 M then push_long F flags M else push_word F (ucast flags) M)"

definition x86emuOp_popf_word :: "'m sys_funcs \<Rightarrow> 'm X86EMU \<Rightarrow> 'm X86EMU option" where
  "x86emuOp_popf_word F =
     instr (\<lambda>M. if data32 M then do { (v, M) \<leftarrow> pop_long F M; Some (regs (\<lambda>st. st\<lparr> R_FLG := v \<rparr>) M) }
                else do { (v, M) \<leftarrow> pop_word F M; Some (regs (\<lambda>st. st\<lparr> R_FLG := ucast v \<rparr>) M) })"

definition x86emuOp_sahf :: "'m X86EMU \<Rightarrow> 'm X86EMU option" where
  "x86emuOp_sahf =
     instr (\<lambda>M. Some (regs (\<lambda>st. st\<lparr> R_FLG := (R_FLG st AND 0xffffff00) OR ucast (R_AH st) \<rparr>) M))"

definition x86emuOp_lahf :: "'m X86EMU \<Rightarrow> 'm X86EMU option" where
  "x86emuOp_lahf =
     instr (\<lambda>M. Some (regs (\<lambda>st. let st = set_AH (ucast (R_FLG st AND 0xff)) st
                                 in set_AH (R_AH st OR 0x2) st) M))"

definition x86emuOp_cmc :: "'m X86EMU \<Rightarrow> 'm X86EMU option" where
  "x86emuOp_cmc = instr (\<lambda>M. Some (regs (TOGGLE_FLAG F_CF) M))"
definition x86emuOp_clc :: "'m X86EMU \<Rightarrow> 'm X86EMU option" where
  "x86emuOp_clc = instr (\<lambda>M. Some (regs (CLEAR_FLAG F_CF) M))"
definition x86emuOp_stc :: "'m X86EMU \<Rightarrow> 'm X86EMU option" where
  "x86emuOp_stc = instr (\<lambda>M. Some (regs (SET_FLAG F_CF) M))"
definition x86emuOp_cli :: "'m X86EMU \<Rightarrow> 'm X86EMU option" where
  "x86emuOp_cli = instr (\<lambda>M. Some (regs (CLEAR_FLAG F_IF) M))"
definition x86emuOp_sti :: "'m X86EMU \<Rightarrow> 'm X86EMU option" where
  "x86emuOp_sti = instr (\<lambda>M. Some (regs (SET_FLAG F_IF) M))"
definition x86emuOp_cld :: "'m X86EMU \<Rightarrow> 'm X86EMU option" where
  "x86emuOp_cld = instr (\<lambda>M. Some (regs (CLEAR_FLAG F_DF) M))"
definition x86emuOp_std :: "'m X86EMU \<Rightarrow> 'm X86EMU option" where
  "x86emuOp_std = instr (\<lambda>M. Some (regs (SET_FLAG F_DF) M))"

section \<open>Prefixes\<close>

definition add_mode :: "u32 \<Rightarrow> 'm X86EMU \<Rightarrow> 'm X86EMU" where
  "add_mode b = regs (\<lambda>st. st\<lparr> x86_mode := x86_mode st OR b \<rparr>)"

definition x86emuOp_segovr_ES :: "'m X86EMU \<Rightarrow> 'm X86EMU option" where
  "x86emuOp_segovr_ES M = Some (add_mode SYSMODE_SEGOVR_ES M)"
definition x86emuOp_segovr_CS :: "'m X86EMU \<Rightarrow> 'm X86EMU option" where
  "x86emuOp_segovr_CS M = Some (add_mode SYSMODE_SEGOVR_CS M)"
definition x86emuOp_segovr_SS :: "'m X86EMU \<Rightarrow> 'm X86EMU option" where
  "x86emuOp_segovr_SS M = Some (add_mode SYSMODE_SEGOVR_SS M)"
definition x86emuOp_segovr_DS :: "'m X86EMU \<Rightarrow> 'm X86EMU option" where
  "x86emuOp_segovr_DS M = Some (add_mode SYSMODE_SEGOVR_DS M)"
definition x86emuOp_segovr_FS :: "'m X86EMU \<Rightarrow> 'm X86EMU option" where
  "x86emuOp_segovr_FS M = Some (add_mode SYSMODE_SEGOVR_FS M)"
definition x86emuOp_segovr_GS :: "'m X86EMU \<Rightarrow> 'm X86EMU option" where
  "x86emuOp_segovr_GS M = Some (add_mode SYSMODE_SEGOVR_GS M)"
definition x86emuOp_prefix_data :: "'m X86EMU \<Rightarrow> 'm X86EMU option" where
  "x86emuOp_prefix_data M = Some (add_mode SYSMODE_PREFIX_DATA M)"
definition x86emuOp_prefix_addr :: "'m X86EMU \<Rightarrow> 'm X86EMU option" where
  "x86emuOp_prefix_addr M = Some (add_mode SYSMODE_PREFIX_ADDR M)"

text \<open>The repeat prefixes clear the segment overrides and the other prefixes.\<close>

definition x86emuOp_repne :: "'m X86EMU \<Rightarrow> 'm X86EMU option" where
  "x86emuOp_repne = instr (\<lambda>M. Some (add_mode SYSMODE_PREFIX_REPNE M))"
definition x86emuOp_repe :: "'m X86EMU \<Rightarrow> 'm X86EMU option" where
  "x86emuOp_repe = instr (\<lambda>M. Some (add_mode SYSMODE_PREFIX_REPE M))"

definition x86emuOp_nop :: "'m X86EMU \<Rightarrow> 'm X86EMU option" where "x86emuOp_nop = instr Some"
definition x86emuOp_wait :: "'m X86EMU \<Rightarrow> 'm X86EMU option" where "x86emuOp_wait = instr Some"
definition x86emuOp_lock :: "'m X86EMU \<Rightarrow> 'm X86EMU option" where "x86emuOp_lock = instr Some"

definition x86emuOp_halt :: "'m X86EMU \<Rightarrow> 'm X86EMU option" where
  "x86emuOp_halt = instr (\<lambda>M. Some (X86EMU_halt_sys M))"

text \<open>Without \<open>DEBUG\<close> both branches of the illegal opcode halt the machine.\<close>

definition x86emuOp_illegal_op :: "'m X86EMU \<Rightarrow> 'm X86EMU option" where
  "x86emuOp_illegal_op M =
     (if R_SP (x86 M) \<noteq> 0 then Some (X86EMU_halt_sys M) else Some (X86EMU_halt_sys M))"

text \<open>The handlers, to unfold together.\<close>

lemmas move_handlers =
  x86emuOp_test_byte_RM_R_def x86emuOp_test_word_RM_R_def x86emuOp_test_AL_IMM_def x86emuOp_test_AX_IMM_def
  x86emuOp_xchg_byte_RM_R_def x86emuOp_xchg_word_RM_R_def x86emuOp_mov_byte_RM_R_def
  x86emuOp_mov_word_RM_R_def x86emuOp_mov_byte_R_RM_def x86emuOp_mov_word_R_RM_def x86emuOp_mov_word_RM_SR_def
  x86emuOp_mov_word_SR_RM_def x86emuOp_lea_word_R_M_def x86emuOp_pop_RM_def x86emuOp_mov_byte_RM_IMM_def
  x86emuOp_mov_word_RM_IMM_def x86emuOp_les_R_IMM_def x86emuOp_lds_R_IMM_def x86emuOp_mov_AL_M_IMM_def
  x86emuOp_mov_AX_M_IMM_def x86emuOp_mov_M_AL_IMM_def x86emuOp_mov_M_AX_IMM_def x86emuOp_xlat_def
  x86emuOp_in_byte_AL_IMM_def x86emuOp_in_word_AX_IMM_def x86emuOp_out_byte_IMM_AL_def
  x86emuOp_out_word_IMM_AX_def x86emuOp_in_byte_AL_DX_def x86emuOp_in_word_AX_DX_def
  x86emuOp_out_byte_DX_AL_def x86emuOp_out_word_DX_AX_def x86emuOp_pushf_word_def x86emuOp_popf_word_def
  x86emuOp_sahf_def x86emuOp_lahf_def x86emuOp_cmc_def x86emuOp_clc_def x86emuOp_stc_def x86emuOp_cli_def
  x86emuOp_sti_def x86emuOp_cld_def x86emuOp_std_def x86emuOp_segovr_ES_def x86emuOp_segovr_CS_def
  x86emuOp_segovr_SS_def x86emuOp_segovr_DS_def x86emuOp_segovr_FS_def x86emuOp_segovr_GS_def
  x86emuOp_prefix_data_def x86emuOp_prefix_addr_def x86emuOp_repne_def x86emuOp_repe_def x86emuOp_nop_def
  x86emuOp_wait_def x86emuOp_lock_def x86emuOp_halt_def x86emuOp_illegal_op_def

end
