(* ===== verification/X86OpsString.thy ===== *)
theory X86OpsString
  imports X86OpsMove
begin

unbundle bit_operations_syntax

text \<open>
  The string instructions of \<open>ops.c\<close> (0x6c to 0x6f, 0xa4 to 0xa7, 0xaa to 0xaf). Some count a local
  copy of CX down, the others loop until CX itself is 0.
\<close>

section \<open>Loops\<close>

text \<open>\<open>while (count--)\<close>\<close>

fun count_loop :: "('s \<Rightarrow> 's option) \<Rightarrow> nat \<Rightarrow> 's \<Rightarrow> 's option" where
  "count_loop step 0 M = Some M"
| "count_loop step (Suc count) M = do { M \<leftarrow> step M; count_loop step count M }"

text \<open>
  \<open>while (M.x86.R_CX != 0) { step; if (stop) break; }\<close>. The memory functions of a client could set CX,
  so that the loop need not end: it has no value then.
\<close>

partial_function (option) cx_loop ::
  "('m X86EMU \<Rightarrow> 'm X86EMU option) \<Rightarrow> (x86_regs \<Rightarrow> bool) \<Rightarrow> 'm X86EMU \<Rightarrow> 'm X86EMU option" where
  "cx_loop step stop M =
     (if R_CX (x86 M) = 0 then Some M
      else do { M \<leftarrow> step M;
                if stop (x86 M) then Some M else cx_loop step stop M })"

definition REP_BITS :: u32 where "REP_BITS = SYSMODE_PREFIX_REPE OR SYSMODE_PREFIX_REPNE"

definition clear_mode :: "u32 \<Rightarrow> 'm X86EMU \<Rightarrow> 'm X86EMU" where
  "clear_mode b = regs (\<lambda>st. st\<lparr> x86_mode := x86_mode st AND NOT b \<rparr>)"

definition mode_has :: "u32 \<Rightarrow> 'm X86EMU \<Rightarrow> bool" where
  "mode_has b M \<longleftrightarrow> x86_mode (x86 M) AND b \<noteq> 0"

text \<open>\<open>count\<close>: 1, or CX under a repeat prefix, which is used up, as is CX.\<close>

definition take_count :: "'m X86EMU \<Rightarrow> nat \<times> 'm X86EMU" where
  "take_count M =
     (if mode_has REP_BITS M
      then (unat (R_CX (x86 M)), clear_mode REP_BITS (regs (set_CX 0) M))
      else (1, M))"

text \<open>The step of SI and DI: the size of the element, or its negative under the direction flag.\<close>

definition str_inc :: "nat \<Rightarrow> 'm X86EMU \<Rightarrow> u16" where
  "str_inc sz M = (if ACCESS_FLAG F_DF (x86 M) then - of_nat sz else of_nat sz)"

definition word_inc :: "'m X86EMU \<Rightarrow> u16" where
  "word_inc M = (if data32 M then str_inc 4 M else str_inc 2 M)"

definition add_SI :: "u16 \<Rightarrow> 'm X86EMU \<Rightarrow> 'm X86EMU" where
  "add_SI inc = regs (\<lambda>st. set_SI (R_SI st + inc) st)"
definition add_DI :: "u16 \<Rightarrow> 'm X86EMU \<Rightarrow> 'm X86EMU" where
  "add_DI inc = regs (\<lambda>st. set_DI (R_DI st + inc) st)"
definition dec_CX :: "'m X86EMU \<Rightarrow> 'm X86EMU" where
  "dec_CX = regs (\<lambda>st. set_CX (R_CX st - 1) st)"

text \<open>
  The three branches of a comparing or filling instruction: under REPE (\<open>stop\<close> is its way to end),
  under REPNE, and once.
\<close>

definition rep_branches ::
  "(x86_regs \<Rightarrow> bool) \<Rightarrow> (x86_regs \<Rightarrow> bool) \<Rightarrow> ('m X86EMU \<Rightarrow> 'm X86EMU option) \<Rightarrow> ('m X86EMU \<Rightarrow> 'm X86EMU)
   \<Rightarrow> 'm X86EMU \<Rightarrow> 'm X86EMU option" where
  "rep_branches stop_e stop_ne body next M =
     (let step = (\<lambda>M. do { M \<leftarrow> body M; Some (next (dec_CX M)) })
      in if mode_has SYSMODE_PREFIX_REPE M then
           do { M \<leftarrow> cx_loop step stop_e M; Some (clear_mode SYSMODE_PREFIX_REPE M) }
         else if mode_has SYSMODE_PREFIX_REPNE M then
           do { M \<leftarrow> cx_loop step stop_ne M; Some (clear_mode SYSMODE_PREFIX_REPNE M) }
         else do { M \<leftarrow> body M; Some (next M) })"

section \<open>Ports\<close>

definition x86emuOp_ins_byte :: "'m sys_funcs \<Rightarrow> 'm X86EMU \<Rightarrow> 'm X86EMU option" where
  "x86emuOp_ins_byte F = instr (ins F 1)"
definition x86emuOp_ins_word :: "'m sys_funcs \<Rightarrow> 'm X86EMU \<Rightarrow> 'm X86EMU option" where
  "x86emuOp_ins_word F = instr (\<lambda>M. if data32 M then ins F 4 M else ins F 2 M)"
definition x86emuOp_outs_byte :: "'m sys_funcs \<Rightarrow> 'm X86EMU \<Rightarrow> 'm X86EMU option" where
  "x86emuOp_outs_byte F = instr (outs F 1)"
definition x86emuOp_outs_word :: "'m sys_funcs \<Rightarrow> 'm X86EMU \<Rightarrow> 'm X86EMU option" where
  "x86emuOp_outs_word F = instr (\<lambda>M. if data32 M then outs F 4 M else outs F 2 M)"

section \<open>MOVS, STOS and LODS\<close>

definition movs_step8 :: "'m sys_funcs \<Rightarrow> u16 \<Rightarrow> 'm X86EMU \<Rightarrow> 'm X86EMU option" where
  "movs_step8 F inc M =
     do { (val, M) \<leftarrow> fetch_data_byte F (ucast (R_SI (x86 M))) M;
          M \<leftarrow> store_data_byte_abs F (R_ES (x86 M)) (ucast (R_DI (x86 M))) val M;
          Some (add_DI inc (add_SI inc M)) }"

definition movs_step :: "'m sys_funcs \<Rightarrow> u16 \<Rightarrow> 'm X86EMU \<Rightarrow> 'm X86EMU option" where
  "movs_step F inc M =
     do { M \<leftarrow> (if data32 M then
                  do { (val, M) \<leftarrow> fetch_data_long F (ucast (R_SI (x86 M))) M;
                       store_data_long_abs F (R_ES (x86 M)) (ucast (R_DI (x86 M))) val M }
                else
                  do { (val, M) \<leftarrow> fetch_data_word F (ucast (R_SI (x86 M))) M;
                       store_data_word_abs F (R_ES (x86 M)) (ucast (R_DI (x86 M))) val M });
          Some (add_DI inc (add_SI inc M)) }"

definition x86emuOp_movs_byte :: "'m sys_funcs \<Rightarrow> 'm X86EMU \<Rightarrow> 'm X86EMU option" where
  "x86emuOp_movs_byte F =
     instr (\<lambda>M. let inc = str_inc 1 M; (count, M) = take_count M in count_loop (movs_step8 F inc) count M)"

definition x86emuOp_movs_word :: "'m sys_funcs \<Rightarrow> 'm X86EMU \<Rightarrow> 'm X86EMU option" where
  "x86emuOp_movs_word F =
     instr (\<lambda>M. let inc = word_inc M; (count, M) = take_count M in count_loop (movs_step F inc) count M)"

definition stos_step8 :: "'m sys_funcs \<Rightarrow> 'm X86EMU \<Rightarrow> 'm X86EMU option" where
  "stos_step8 F M = store_data_byte_abs F (R_ES (x86 M)) (ucast (R_DI (x86 M))) (R_AL (x86 M)) M"

text \<open>Both repeat prefixes loop until CX is 0 and are cleared.\<close>

definition x86emuOp_stos_byte :: "'m sys_funcs \<Rightarrow> 'm X86EMU \<Rightarrow> 'm X86EMU option" where
  "x86emuOp_stos_byte F =
     instr (\<lambda>M. let inc = str_inc 1 M
                in if mode_has REP_BITS M then
                     do { M \<leftarrow> cx_loop (\<lambda>M. do { M \<leftarrow> stos_step8 F M; Some (add_DI inc (dec_CX M)) }) (\<lambda>_. False) M;
                          Some (clear_mode REP_BITS M) }
                   else do { M \<leftarrow> stos_step8 F M; Some (add_DI inc M) })"

definition stos_step :: "'m sys_funcs \<Rightarrow> u16 \<Rightarrow> 'm X86EMU \<Rightarrow> 'm X86EMU option" where
  "stos_step F inc M =
     do { M \<leftarrow> (if data32 M then
                  store_data_long_abs F (R_ES (x86 M)) (ucast (R_DI (x86 M))) (R_EAX (x86 M)) M
                else store_data_word_abs F (R_ES (x86 M)) (ucast (R_DI (x86 M))) (R_AX (x86 M)) M);
          Some (add_DI inc M) }"

definition x86emuOp_stos_word :: "'m sys_funcs \<Rightarrow> 'm X86EMU \<Rightarrow> 'm X86EMU option" where
  "x86emuOp_stos_word F =
     instr (\<lambda>M. let inc = word_inc M; (count, M) = take_count M in count_loop (stos_step F inc) count M)"

definition lods_step8 :: "'m sys_funcs \<Rightarrow> 'm X86EMU \<Rightarrow> 'm X86EMU option" where
  "lods_step8 F M =
     do { (v, M) \<leftarrow> fetch_data_byte F (ucast (R_SI (x86 M))) M; Some (regs (set_AL v) M) }"

definition x86emuOp_lods_byte :: "'m sys_funcs \<Rightarrow> 'm X86EMU \<Rightarrow> 'm X86EMU option" where
  "x86emuOp_lods_byte F =
     instr (\<lambda>M. let inc = str_inc 1 M
                in if mode_has REP_BITS M then
                     do { M \<leftarrow> cx_loop (\<lambda>M. do { M \<leftarrow> lods_step8 F M; Some (add_SI inc (dec_CX M)) }) (\<lambda>_. False) M;
                          Some (clear_mode REP_BITS M) }
                   else do { M \<leftarrow> lods_step8 F M; Some (add_SI inc M) })"

definition lods_step :: "'m sys_funcs \<Rightarrow> u16 \<Rightarrow> 'm X86EMU \<Rightarrow> 'm X86EMU option" where
  "lods_step F inc M =
     do { M \<leftarrow> (if data32 M then
                  do { (v, M) \<leftarrow> fetch_data_long F (ucast (R_SI (x86 M))) M;
                       Some (regs (\<lambda>st. st\<lparr> R_EAX := v \<rparr>) M) }
                else
                  do { (v, M) \<leftarrow> fetch_data_word F (ucast (R_SI (x86 M))) M; Some (regs (set_AX v) M) });
          Some (add_SI inc M) }"

definition x86emuOp_lods_word :: "'m sys_funcs \<Rightarrow> 'm X86EMU \<Rightarrow> 'm X86EMU option" where
  "x86emuOp_lods_word F =
     instr (\<lambda>M. let inc = word_inc M; (count, M) = take_count M in count_loop (lods_step F inc) count M)"

section \<open>CMPS and SCAS\<close>

definition stop_equal :: "x86_regs \<Rightarrow> bool" where "stop_equal st \<longleftrightarrow> \<not> ACCESS_FLAG F_ZF st"
definition stop_differ :: "x86_regs \<Rightarrow> bool" where "stop_differ st \<longleftrightarrow> ACCESS_FLAG F_ZF st"

definition cmps_body8 :: "'m sys_funcs \<Rightarrow> 'm X86EMU \<Rightarrow> 'm X86EMU option" where
  "cmps_body8 F M =
     do { (val1, M) \<leftarrow> fetch_data_byte F (ucast (R_SI (x86 M))) M;
          (val2, M) \<leftarrow> fetch_data_byte_abs F (R_ES (x86 M)) (ucast (R_DI (x86 M))) M;
          Some (regs (cmp_flags cmp_byte val1 val2) M) }"

definition cmps_body :: "'m sys_funcs \<Rightarrow> 'm X86EMU \<Rightarrow> 'm X86EMU option" where
  "cmps_body F M =
     (if data32 M then
        do { (val1, M) \<leftarrow> fetch_data_long F (ucast (R_SI (x86 M))) M;
             (val2, M) \<leftarrow> fetch_data_long_abs F (R_ES (x86 M)) (ucast (R_DI (x86 M))) M;
             Some (regs (cmp_flags cmp_long val1 val2) M) }
      else
        do { (val1, M) \<leftarrow> fetch_data_word F (ucast (R_SI (x86 M))) M;
             (val2, M) \<leftarrow> fetch_data_word_abs F (R_ES (x86 M)) (ucast (R_DI (x86 M))) M;
             Some (regs (cmp_flags cmp_word val1 val2) M) })"

definition x86emuOp_cmps_byte :: "'m sys_funcs \<Rightarrow> 'm X86EMU \<Rightarrow> 'm X86EMU option" where
  "x86emuOp_cmps_byte F =
     instr (\<lambda>M. let inc = str_inc 1 M
                in rep_branches stop_equal stop_differ (cmps_body8 F) (\<lambda>M. add_DI inc (add_SI inc M)) M)"

definition x86emuOp_cmps_word :: "'m sys_funcs \<Rightarrow> 'm X86EMU \<Rightarrow> 'm X86EMU option" where
  "x86emuOp_cmps_word F =
     instr (\<lambda>M. let inc = word_inc M
                in rep_branches stop_equal stop_differ (cmps_body F) (\<lambda>M. add_DI inc (add_SI inc M)) M)"

definition scas_body8 :: "'m sys_funcs \<Rightarrow> 'm X86EMU \<Rightarrow> 'm X86EMU option" where
  "scas_body8 F M =
     do { (val2, M) \<leftarrow> fetch_data_byte_abs F (R_ES (x86 M)) (ucast (R_DI (x86 M))) M;
          Some (regs (\<lambda>st. cmp_flags cmp_byte (R_AL st) val2 st) M) }"

definition scas_body :: "'m sys_funcs \<Rightarrow> 'm X86EMU \<Rightarrow> 'm X86EMU option" where
  "scas_body F M =
     (if data32 M then
        do { (val, M) \<leftarrow> fetch_data_long_abs F (R_ES (x86 M)) (ucast (R_DI (x86 M))) M;
             Some (regs (\<lambda>st. cmp_flags cmp_long (R_EAX st) val st) M) }
      else
        do { (val, M) \<leftarrow> fetch_data_word_abs F (R_ES (x86 M)) (ucast (R_DI (x86 M))) M;
             Some (regs (\<lambda>st. cmp_flags cmp_word (R_AX st) val st) M) })"

definition x86emuOp_scas_byte :: "'m sys_funcs \<Rightarrow> 'm X86EMU \<Rightarrow> 'm X86EMU option" where
  "x86emuOp_scas_byte F =
     instr (\<lambda>M. let inc = str_inc 1 M in rep_branches stop_equal stop_differ (scas_body8 F) (add_DI inc) M)"

definition x86emuOp_scas_word :: "'m sys_funcs \<Rightarrow> 'm X86EMU \<Rightarrow> 'm X86EMU option" where
  "x86emuOp_scas_word F =
     instr (\<lambda>M. let inc = word_inc M in rep_branches stop_equal stop_differ (scas_body F) (add_DI inc) M)"

text \<open>The handlers, to unfold together.\<close>

lemmas string_handlers =
  x86emuOp_ins_byte_def x86emuOp_ins_word_def x86emuOp_outs_byte_def x86emuOp_outs_word_def
  x86emuOp_movs_byte_def x86emuOp_movs_word_def x86emuOp_stos_byte_def x86emuOp_stos_word_def
  x86emuOp_lods_byte_def x86emuOp_lods_word_def x86emuOp_cmps_byte_def x86emuOp_cmps_word_def
  x86emuOp_scas_byte_def x86emuOp_scas_word_def

end
