(* ===== verification/X86OpsFlow.thy ===== *)
theory X86OpsFlow
  imports X86OpsString
begin

unbundle bit_operations_syntax

text \<open>
  Control flow of \<open>ops.c\<close>: conditional and unconditional jumps, loops, calls, returns, stack frames
  and software interrupts. \<open>_X86EMU_intrTab\<close> is an argument of the interrupt instructions.
\<close>

type_synonym 'm intr_tab = "u8 \<Rightarrow> (u8 \<Rightarrow> 'm X86EMU \<Rightarrow> 'm X86EMU option) option"

section \<open>Jumps\<close>

text \<open>A byte displacement is added to IP after the instruction if the condition holds.\<close>

definition jump_near :: "(x86_regs \<Rightarrow> bool) \<Rightarrow> 'm sys_funcs \<Rightarrow> 'm X86EMU \<Rightarrow> 'm X86EMU option" where
  "jump_near cond F =
     instr (\<lambda>M. do { (offset, M) \<leftarrow> fetch_byte_imm F M;
                     let target = R_IP (x86 M) + scast offset;
                     Some (if cond (x86 M) then regs (set_IP target) M else M) })"

definition x86emuOp_jump_near_O :: "'m sys_funcs \<Rightarrow> 'm X86EMU \<Rightarrow> 'm X86EMU option" where
  "x86emuOp_jump_near_O F = jump_near (ACCESS_FLAG F_OF) F"
definition x86emuOp_jump_near_NO :: "'m sys_funcs \<Rightarrow> 'm X86EMU \<Rightarrow> 'm X86EMU option" where
  "x86emuOp_jump_near_NO F = jump_near (\<lambda>st. \<not> ACCESS_FLAG F_OF st) F"
definition x86emuOp_jump_near_B :: "'m sys_funcs \<Rightarrow> 'm X86EMU \<Rightarrow> 'm X86EMU option" where
  "x86emuOp_jump_near_B F = jump_near (ACCESS_FLAG F_CF) F"
definition x86emuOp_jump_near_NB :: "'m sys_funcs \<Rightarrow> 'm X86EMU \<Rightarrow> 'm X86EMU option" where
  "x86emuOp_jump_near_NB F = jump_near (\<lambda>st. \<not> ACCESS_FLAG F_CF st) F"
definition x86emuOp_jump_near_Z :: "'m sys_funcs \<Rightarrow> 'm X86EMU \<Rightarrow> 'm X86EMU option" where
  "x86emuOp_jump_near_Z F = jump_near (ACCESS_FLAG F_ZF) F"
definition x86emuOp_jump_near_NZ :: "'m sys_funcs \<Rightarrow> 'm X86EMU \<Rightarrow> 'm X86EMU option" where
  "x86emuOp_jump_near_NZ F = jump_near (\<lambda>st. \<not> ACCESS_FLAG F_ZF st) F"
definition x86emuOp_jump_near_BE :: "'m sys_funcs \<Rightarrow> 'm X86EMU \<Rightarrow> 'm X86EMU option" where
  "x86emuOp_jump_near_BE F = jump_near (\<lambda>st. ACCESS_FLAG F_CF st \<or> ACCESS_FLAG F_ZF st) F"
definition x86emuOp_jump_near_NBE :: "'m sys_funcs \<Rightarrow> 'm X86EMU \<Rightarrow> 'm X86EMU option" where
  "x86emuOp_jump_near_NBE F = jump_near (\<lambda>st. \<not> (ACCESS_FLAG F_CF st \<or> ACCESS_FLAG F_ZF st)) F"
definition x86emuOp_jump_near_S :: "'m sys_funcs \<Rightarrow> 'm X86EMU \<Rightarrow> 'm X86EMU option" where
  "x86emuOp_jump_near_S F = jump_near (ACCESS_FLAG F_SF) F"
definition x86emuOp_jump_near_NS :: "'m sys_funcs \<Rightarrow> 'm X86EMU \<Rightarrow> 'm X86EMU option" where
  "x86emuOp_jump_near_NS F = jump_near (\<lambda>st. \<not> ACCESS_FLAG F_SF st) F"
definition x86emuOp_jump_near_P :: "'m sys_funcs \<Rightarrow> 'm X86EMU \<Rightarrow> 'm X86EMU option" where
  "x86emuOp_jump_near_P F = jump_near (ACCESS_FLAG F_PF) F"
definition x86emuOp_jump_near_NP :: "'m sys_funcs \<Rightarrow> 'm X86EMU \<Rightarrow> 'm X86EMU option" where
  "x86emuOp_jump_near_NP F = jump_near (\<lambda>st. \<not> ACCESS_FLAG F_PF st) F"
definition x86emuOp_jump_near_L :: "'m sys_funcs \<Rightarrow> 'm X86EMU \<Rightarrow> 'm X86EMU option" where
  "x86emuOp_jump_near_L F = jump_near (\<lambda>st. ACCESS_FLAG F_SF st \<noteq> ACCESS_FLAG F_OF st) F"
definition x86emuOp_jump_near_NL :: "'m sys_funcs \<Rightarrow> 'm X86EMU \<Rightarrow> 'm X86EMU option" where
  "x86emuOp_jump_near_NL F = jump_near (\<lambda>st. ACCESS_FLAG F_SF st = ACCESS_FLAG F_OF st) F"
definition x86emuOp_jump_near_LE :: "'m sys_funcs \<Rightarrow> 'm X86EMU \<Rightarrow> 'm X86EMU option" where
  "x86emuOp_jump_near_LE F =
     jump_near (\<lambda>st. ACCESS_FLAG F_SF st \<noteq> ACCESS_FLAG F_OF st \<or> ACCESS_FLAG F_ZF st) F"
definition x86emuOp_jump_near_NLE :: "'m sys_funcs \<Rightarrow> 'm X86EMU \<Rightarrow> 'm X86EMU option" where
  "x86emuOp_jump_near_NLE F =
     jump_near (\<lambda>st. ACCESS_FLAG F_SF st = ACCESS_FLAG F_OF st \<and> \<not> ACCESS_FLAG F_ZF st) F"

definition x86emuOp_jcxz :: "'m sys_funcs \<Rightarrow> 'm X86EMU \<Rightarrow> 'm X86EMU option" where
  "x86emuOp_jcxz F = jump_near (\<lambda>st. R_CX st = 0) F"

definition x86emuOp_jump_byte_IMM :: "'m sys_funcs \<Rightarrow> 'm X86EMU \<Rightarrow> 'm X86EMU option" where
  "x86emuOp_jump_byte_IMM F = jump_near (\<lambda>_. True) F"

text \<open>\<open>loop\<close>: CX is decremented first, whatever the condition.\<close>

definition loop_while :: "(x86_regs \<Rightarrow> bool) \<Rightarrow> 'm sys_funcs \<Rightarrow> 'm X86EMU \<Rightarrow> 'm X86EMU option" where
  "loop_while cond F =
     instr (\<lambda>M. do { (b, M) \<leftarrow> fetch_byte_imm F M;
                     let ip = scast b + R_IP (x86 M);
                     let M = dec_CX M;
                     Some (if R_CX (x86 M) \<noteq> 0 \<and> cond (x86 M) then regs (set_IP ip) M else M) })"

definition x86emuOp_loopne :: "'m sys_funcs \<Rightarrow> 'm X86EMU \<Rightarrow> 'm X86EMU option" where
  "x86emuOp_loopne F = loop_while (\<lambda>st. \<not> ACCESS_FLAG F_ZF st) F"
definition x86emuOp_loope :: "'m sys_funcs \<Rightarrow> 'm X86EMU \<Rightarrow> 'm X86EMU option" where
  "x86emuOp_loope F = loop_while (ACCESS_FLAG F_ZF) F"
definition x86emuOp_loop :: "'m sys_funcs \<Rightarrow> 'm X86EMU \<Rightarrow> 'm X86EMU option" where
  "x86emuOp_loop F = loop_while (\<lambda>_. True) F"

definition x86emuOp_jump_near_IMM :: "'m sys_funcs \<Rightarrow> 'm X86EMU \<Rightarrow> 'm X86EMU option" where
  "x86emuOp_jump_near_IMM F =
     instr (\<lambda>M. if data32 M then
                  do { (ip, M) \<leftarrow> fetch_long_imm F M;
                       Some (regs (\<lambda>st. st\<lparr> R_EIP := ip + R_EIP st \<rparr>) M) }
                else
                  do { (ip, M) \<leftarrow> fetch_word_imm F M;
                       Some (regs (\<lambda>st. set_IP (ip + R_IP st) st) M) })"

definition x86emuOp_jump_far_IMM :: "'m sys_funcs \<Rightarrow> 'm X86EMU \<Rightarrow> 'm X86EMU option" where
  "x86emuOp_jump_far_IMM F =
     instr (\<lambda>M. do { (ip, M) \<leftarrow> fetch_sized_imm F M;
                     (cs, M) \<leftarrow> fetch_word_imm F M;
                     Some (regs (\<lambda>st. st\<lparr> R_EIP := ip AND 0xffff, R_CS := cs \<rparr>) M) })"

section \<open>Calls and returns\<close>

text \<open>
  The displacement of a near call: a long one is added to the sign extended IP and cut to 16 bits, a
  word one is sign extended to EIP. The additions wrap, as compilers define them.
\<close>

definition x86emuOp_call_near_IMM :: "'m sys_funcs \<Rightarrow> 'm X86EMU \<Rightarrow> 'm X86EMU option" where
  "x86emuOp_call_near_IMM F =
     instr (\<lambda>M. if data32 M then
                  do { (d, M) \<leftarrow> fetch_long_imm F M;
                       let ip32 = d + scast (R_IP (x86 M));
                       M \<leftarrow> push_long F (R_EIP (x86 M)) M;
                       Some (regs (\<lambda>st. st\<lparr> R_EIP := ip32 AND 0xffff \<rparr>) M) }
                else
                  do { (d, M) \<leftarrow> fetch_word_imm F M;
                       let ip16 = d + R_IP (x86 M);
                       M \<leftarrow> push_word F (R_IP (x86 M)) M;
                       Some (regs (\<lambda>st. st\<lparr> R_EIP := scast ip16 \<rparr>) M) })"

text \<open>A far call pushes CS as a word under either operand size.\<close>

definition x86emuOp_call_far_IMM :: "'m sys_funcs \<Rightarrow> 'm X86EMU \<Rightarrow> 'm X86EMU option" where
  "x86emuOp_call_far_IMM F =
     instr (\<lambda>M. do { (faroff, M) \<leftarrow> fetch_sized_imm F M;
                     (farseg, M) \<leftarrow> fetch_word_imm F M;
                     M \<leftarrow> push_word F (R_CS (x86 M)) M;
                     let M = regs (\<lambda>st. st\<lparr> R_CS := farseg \<rparr>) M;
                     M \<leftarrow> (if data32 M then push_long F (R_EIP (x86 M)) M
                           else push_word F (R_IP (x86 M)) M);
                     Some (regs (\<lambda>st. st\<lparr> R_EIP := faroff AND 0xffff \<rparr>) M) })"

definition pop_ip :: "'m sys_funcs \<Rightarrow> 'm X86EMU \<Rightarrow> 'm X86EMU option" where
  "pop_ip F M =
     (if data32 M then do { (v, M) \<leftarrow> pop_long F M; Some (regs (\<lambda>st. st\<lparr> R_EIP := v \<rparr>) M) }
      else do { (v, M) \<leftarrow> pop_word F M; Some (regs (set_IP v) M) })"

definition pop_cs_ip :: "'m sys_funcs \<Rightarrow> 'm X86EMU \<Rightarrow> 'm X86EMU option" where
  "pop_cs_ip F M =
     (if data32 M then
        do { (v, M) \<leftarrow> pop_long F M;
             let M = regs (\<lambda>st. st\<lparr> R_EIP := v \<rparr>) M;
             (s, M) \<leftarrow> pop_long F M;
             Some (regs (\<lambda>st. st\<lparr> R_CS := ucast (s AND 0xffff) \<rparr>) M) }
      else
        do { (v, M) \<leftarrow> pop_word F M;
             let M = regs (set_IP v) M;
             (s, M) \<leftarrow> pop_word F M;
             Some (regs (\<lambda>st. st\<lparr> R_CS := s \<rparr>) M) })"

definition x86emuOp_ret_near_IMM :: "'m sys_funcs \<Rightarrow> 'm X86EMU \<Rightarrow> 'm X86EMU option" where
  "x86emuOp_ret_near_IMM F =
     instr (\<lambda>M. do { (imm, M) \<leftarrow> fetch_word_imm F M;
                     M \<leftarrow> pop_ip F M;
                     Some (regs (\<lambda>st. set_SP (R_SP st + imm) st) M) })"

definition x86emuOp_ret_near :: "'m sys_funcs \<Rightarrow> 'm X86EMU \<Rightarrow> 'm X86EMU option" where
  "x86emuOp_ret_near F = instr (pop_ip F)"

definition x86emuOp_ret_far_IMM :: "'m sys_funcs \<Rightarrow> 'm X86EMU \<Rightarrow> 'm X86EMU option" where
  "x86emuOp_ret_far_IMM F =
     instr (\<lambda>M. do { (imm, M) \<leftarrow> fetch_word_imm F M;
                     M \<leftarrow> pop_cs_ip F M;
                     Some (regs (\<lambda>st. set_SP (R_SP st + imm) st) M) })"

definition x86emuOp_ret_far :: "'m sys_funcs \<Rightarrow> 'm X86EMU \<Rightarrow> 'm X86EMU option" where
  "x86emuOp_ret_far F = instr (pop_cs_ip F)"

section \<open>Stack frames\<close>

definition enter_level :: "'m sys_funcs \<Rightarrow> 'm X86EMU \<Rightarrow> 'm X86EMU option" where
  "enter_level F M =
     (if data32 M then
        do { let M = regs (\<lambda>st. set_BP (R_BP st - 4) st) M;
             (v, M) \<leftarrow> fetch_data_long_abs F (R_SS (x86 M)) (ucast (R_BP (x86 M))) M;
             push_long F v M }
      else
        do { let M = regs (\<lambda>st. set_BP (R_BP st - 2) st) M;
             (v, M) \<leftarrow> fetch_data_word_abs F (R_SS (x86 M)) (ucast (R_BP (x86 M))) M;
             push_word F v M })"

definition x86emuOp_enter :: "'m sys_funcs \<Rightarrow> 'm X86EMU \<Rightarrow> 'm X86EMU option" where
  "x86emuOp_enter F =
     instr (\<lambda>M. do { (local, M) \<leftarrow> fetch_word_imm F M;
                     (nesting, M) \<leftarrow> fetch_byte_imm F M;
                     M \<leftarrow> push_word F (R_BP (x86 M)) M;
                     let frame_pointer = R_SP (x86 M);
                     M \<leftarrow> (if nesting > 0 then
                              do { M \<leftarrow> count_loop (enter_level F) (unat nesting - 1) M;
                                   push_word F frame_pointer M }
                            else Some M);
                     Some (regs (\<lambda>st. let st = set_BP frame_pointer st in set_SP (R_SP st - local) st) M) })"

definition x86emuOp_leave :: "'m sys_funcs \<Rightarrow> 'm X86EMU \<Rightarrow> 'm X86EMU option" where
  "x86emuOp_leave F =
     instr (\<lambda>M. do { let M = regs (\<lambda>st. set_SP (R_BP st) st) M;
                     if data32 M then do { (v, M) \<leftarrow> pop_long F M; Some (regs (\<lambda>st. st\<lparr> R_EBP := v \<rparr>) M) }
                     else do { (v, M) \<leftarrow> pop_word F M; Some (regs (set_BP v) M) } })"

section \<open>Software interrupts\<close>

text \<open>
  An installed handler is called, otherwise the frame is pushed and the vector loaded; unlike
  \<open>X86EMU_prepareForInt\<close>, the pending interrupts are left alone.
\<close>

definition soft_int :: "'m sys_funcs \<Rightarrow> 'm intr_tab \<Rightarrow> u8 \<Rightarrow> 'm X86EMU \<Rightarrow> 'm X86EMU option" where
  "soft_int F I intnum M =
     (case I intnum of
        Some h \<Rightarrow> h intnum M
      | None \<Rightarrow>
          do { M \<leftarrow> push_word F (ucast (R_FLG (x86 M))) M;
               let M = regs (CLEAR_FLAG F_IF) M;
               let M = regs (CLEAR_FLAG F_TF) M;
               M \<leftarrow> push_word F (R_CS (x86 M)) M;
               (cs, M) \<leftarrow> mem_access_word F (ucast intnum * 4 + 2) M;
               let M = regs (\<lambda>st. st\<lparr> R_CS := cs \<rparr>) M;
               M \<leftarrow> push_word F (R_IP (x86 M)) M;
               (ip, M) \<leftarrow> mem_access_word F (ucast intnum * 4) M;
               Some (regs (set_IP ip) M) })"

definition x86emuOp_int3 :: "'m sys_funcs \<Rightarrow> 'm intr_tab \<Rightarrow> 'm X86EMU \<Rightarrow> 'm X86EMU option" where
  "x86emuOp_int3 F I = instr (soft_int F I 3)"

definition x86emuOp_int_IMM :: "'m sys_funcs \<Rightarrow> 'm intr_tab \<Rightarrow> 'm X86EMU \<Rightarrow> 'm X86EMU option" where
  "x86emuOp_int_IMM F I = instr (\<lambda>M. do { (intnum, M) \<leftarrow> fetch_byte_imm F M; soft_int F I intnum M })"

definition x86emuOp_into :: "'m sys_funcs \<Rightarrow> 'm intr_tab \<Rightarrow> 'm X86EMU \<Rightarrow> 'm X86EMU option" where
  "x86emuOp_into F I = instr (\<lambda>M. if ACCESS_FLAG F_OF (x86 M) then soft_int F I 4 M else Some M)"

definition x86emuOp_iret :: "'m sys_funcs \<Rightarrow> 'm X86EMU \<Rightarrow> 'm X86EMU option" where
  "x86emuOp_iret F =
     instr (\<lambda>M. if data32 M then
              do { (v, M) \<leftarrow> pop_long F M;
                   let M = regs (\<lambda>st. st\<lparr> R_EIP := v \<rparr>) M;
                   (s, M) \<leftarrow> pop_long F M;
                   let M = regs (\<lambda>st. st\<lparr> R_CS := ucast (s AND 0xffff) \<rparr>) M;
                   (f, M) \<leftarrow> pop_long F M;
                   Some (regs (\<lambda>st. st\<lparr> R_FLG := (f AND 0x257FD5) OR (R_FLG st AND 0x1A0000) \<rparr>) M) }
            else
              do { (v, M) \<leftarrow> pop_word F M;
                   let M = regs (set_IP v) M;
                   (s, M) \<leftarrow> pop_word F M;
                   let M = regs (\<lambda>st. st\<lparr> R_CS := s \<rparr>) M;
                   (f, M) \<leftarrow> pop_word F M;
                   Some (regs (\<lambda>st. st\<lparr> R_FLG := ucast f \<rparr>) M) })"

text \<open>The handlers, to unfold together.\<close>

lemmas flow_handlers =
  x86emuOp_jump_near_O_def x86emuOp_jump_near_NO_def x86emuOp_jump_near_B_def x86emuOp_jump_near_NB_def
  x86emuOp_jump_near_Z_def x86emuOp_jump_near_NZ_def x86emuOp_jump_near_BE_def x86emuOp_jump_near_NBE_def
  x86emuOp_jump_near_S_def x86emuOp_jump_near_NS_def x86emuOp_jump_near_P_def x86emuOp_jump_near_NP_def
  x86emuOp_jump_near_L_def x86emuOp_jump_near_NL_def x86emuOp_jump_near_LE_def x86emuOp_jump_near_NLE_def
  x86emuOp_jcxz_def x86emuOp_jump_byte_IMM_def x86emuOp_loopne_def x86emuOp_loope_def x86emuOp_loop_def
  x86emuOp_jump_near_IMM_def x86emuOp_jump_far_IMM_def x86emuOp_call_near_IMM_def x86emuOp_call_far_IMM_def
  x86emuOp_ret_near_IMM_def x86emuOp_ret_near_def x86emuOp_ret_far_IMM_def x86emuOp_ret_far_def
  x86emuOp_enter_def x86emuOp_leave_def x86emuOp_int3_def x86emuOp_int_IMM_def x86emuOp_into_def
  x86emuOp_iret_def

end
