(* ===== verification/X86OpsGroup.thy ===== *)
theory X86OpsGroup
  imports X86OpsFlow X86Shift
begin

unbundle bit_operations_syntax

text \<open>
  The opcodes of \<open>ops.c\<close> whose operation is selected by the register field of the ModRM byte: the
  immediate group (0x80 to 0x83), the shifts (0xc0, 0xc1, 0xd0 to 0xd3), the unary group (0xf6,
  0xf7), INC, DEC, CALL, JMP and PUSH of an operand (0xfe, 0xff), and IMUL with an immediate
  (0x69, 0x6b). Also the coprocessor escapes of \<open>fpu.c\<close>.
\<close>

section \<open>Immediate group\<close>

definition opc80_byte_operation :: "(u8 \<Rightarrow> u8 \<Rightarrow> x86_regs \<Rightarrow> u8 \<times> x86_regs) list" where
  "opc80_byte_operation =
     [add_byte, or_byte, adc_byte, sbb_byte, and_byte, sub_byte, xor_byte, cmp_byte]"
definition opc81_word_operation :: "(u16 \<Rightarrow> u16 \<Rightarrow> x86_regs \<Rightarrow> u16 \<times> x86_regs) list" where
  "opc81_word_operation =
     [add_word, or_word, adc_word, sbb_word, and_word, sub_word, xor_word, cmp_word]"
definition opc81_long_operation :: "(u32 \<Rightarrow> u32 \<Rightarrow> x86_regs \<Rightarrow> u32 \<times> x86_regs) list" where
  "opc81_long_operation =
     [add_long, or_long, adc_long, sbb_long, and_long, sub_long, xor_long, cmp_long]"
definition opc82_byte_operation :: "(u8 \<Rightarrow> u8 \<Rightarrow> x86_regs \<Rightarrow> u8 \<times> x86_regs) list" where
  "opc82_byte_operation =
     [add_byte, or_byte, adc_byte, sbb_byte, and_byte, sub_byte, xor_byte, cmp_byte]"
definition opc83_word_operation :: "(u16 \<Rightarrow> u16 \<Rightarrow> x86_regs \<Rightarrow> u16 \<times> x86_regs) list" where
  "opc83_word_operation =
     [add_word, or_word, adc_word, sbb_word, and_word, sub_word, xor_word, cmp_word]"
definition opc83_long_operation :: "(u32 \<Rightarrow> u32 \<Rightarrow> x86_regs \<Rightarrow> u32 \<times> x86_regs) list" where
  "opc83_long_operation =
     [add_long, or_long, adc_long, sbb_long, and_long, sub_long, xor_long, cmp_long]"

text \<open>The result is written back unless the operation is CMP (field 7).\<close>

definition op_group ::
  "('r, 'v, 'm) width \<Rightarrow> ('v \<Rightarrow> 'v \<Rightarrow> x86_regs \<Rightarrow> 'v \<times> x86_regs) list
   \<Rightarrow> ('m X86EMU \<Rightarrow> ('v \<times> 'm X86EMU) option) \<Rightarrow> 'm sys_funcs
   \<Rightarrow> nat \<Rightarrow> nat \<Rightarrow> nat \<Rightarrow> 'm X86EMU \<Rightarrow> 'm X86EMU option" where
  "op_group W ops fetch_imm F md rh rl M =
     (if md < 3 then
        do { (destoffset, M) \<leftarrow> rm_address F md rl M;
             (destval, M) \<leftarrow> w_fetch W F destoffset M;
             (imm, M) \<leftarrow> fetch_imm M;
             let (destval, st) = (ops ! rh) destval imm (x86 M);
             let M = M\<lparr> x86 := st \<rparr>;
             if rh \<noteq> 7 then w_store W F destoffset destval M else Some M }
      else
        do { (destreg, M) \<leftarrow> reg_ref W rl M;
             (imm, M) \<leftarrow> fetch_imm M;
             let (destval, st) = (ops ! rh) (w_get W destreg (x86 M)) imm (x86 M);
             let M = M\<lparr> x86 := st \<rparr>;
             if rh \<noteq> 7 then Some (regs (w_put W destreg destval) M) else Some M })"

text \<open>\<open>imm = (s8) fetch_byte_imm ()\<close>\<close>

definition fetch_sbyte :: "'m sys_funcs \<Rightarrow> 'm X86EMU \<Rightarrow> ('a::len word \<times> 'm X86EMU) option" where
  "fetch_sbyte F M = do { (b, M) \<leftarrow> fetch_byte_imm F M; Some (scast b, M) }"

definition x86emuOp_opc80_byte_RM_IMM :: "'m sys_funcs \<Rightarrow> 'm X86EMU \<Rightarrow> 'm X86EMU option" where
  "x86emuOp_opc80_byte_RM_IMM F =
     with_modrm F (op_group width8 opc80_byte_operation (fetch_byte_imm F) F)"

definition x86emuOp_opc81_word_RM_IMM :: "'m sys_funcs \<Rightarrow> 'm X86EMU \<Rightarrow> 'm X86EMU option" where
  "x86emuOp_opc81_word_RM_IMM F =
     with_modrm F (by_size (op_group width32 opc81_long_operation (fetch_long_imm F) F)
                           (op_group width16 opc81_word_operation (fetch_word_imm F) F))"

definition x86emuOp_opc82_byte_RM_IMM :: "'m sys_funcs \<Rightarrow> 'm X86EMU \<Rightarrow> 'm X86EMU option" where
  "x86emuOp_opc82_byte_RM_IMM F =
     with_modrm F (op_group width8 opc82_byte_operation (fetch_byte_imm F) F)"

definition x86emuOp_opc83_word_RM_IMM :: "'m sys_funcs \<Rightarrow> 'm X86EMU \<Rightarrow> 'm X86EMU option" where
  "x86emuOp_opc83_word_RM_IMM F =
     with_modrm F (by_size (op_group width32 opc83_long_operation (fetch_sbyte F) F)
                           (op_group width16 opc83_word_operation (fetch_sbyte F) F))"

section \<open>Shifts\<close>

text \<open>A rotate or shift that cannot fault.\<close>

definition safe :: "('v \<Rightarrow> u8 \<Rightarrow> x86_regs \<Rightarrow> 'v \<times> x86_regs) \<Rightarrow> 'v \<Rightarrow> u8 \<Rightarrow> x86_regs \<Rightarrow> ('v \<times> x86_regs) option" where
  "safe f d s st = Some (f d s st)"

definition opcD0_byte_operation :: "(u8 \<Rightarrow> u8 \<Rightarrow> x86_regs \<Rightarrow> (u8 \<times> x86_regs) option) list" where
  "opcD0_byte_operation =
     [safe rol_byte, safe ror_byte, safe rcl_byte, safe rcr_byte, shl_byte, shr_byte, shl_byte, safe sar_byte]"
definition opcD1_word_operation :: "(u16 \<Rightarrow> u8 \<Rightarrow> x86_regs \<Rightarrow> (u16 \<times> x86_regs) option) list" where
  "opcD1_word_operation =
     [safe rol_word, safe ror_word, safe rcl_word, safe rcr_word, shl_word, safe shr_word, shl_word, safe sar_word]"
definition opcD1_long_operation :: "(u32 \<Rightarrow> u8 \<Rightarrow> x86_regs \<Rightarrow> (u32 \<times> x86_regs) option) list" where
  "opcD1_long_operation =
     [safe rol_long, safe ror_long, rcl_long, rcr_long, shl_long, safe shr_long, shl_long, safe sar_long]"

text \<open>The distance is fetched, or already known, after the address.\<close>

definition op_shift ::
  "('r, 'v, 'm) width \<Rightarrow> ('v \<Rightarrow> u8 \<Rightarrow> x86_regs \<Rightarrow> ('v \<times> x86_regs) option) list
   \<Rightarrow> ('m X86EMU \<Rightarrow> (u8 \<times> 'm X86EMU) option) \<Rightarrow> 'm sys_funcs
   \<Rightarrow> nat \<Rightarrow> nat \<Rightarrow> nat \<Rightarrow> 'm X86EMU \<Rightarrow> 'm X86EMU option" where
  "op_shift W ops amount F md rh rl M =
     (if md < 3 then
        do { (destoffset, M) \<leftarrow> rm_address F md rl M;
             (amt, M) \<leftarrow> amount M;
             (destval, M) \<leftarrow> w_fetch W F destoffset M;
             (destval, st) \<leftarrow> (ops ! rh) destval amt (x86 M);
             w_store W F destoffset destval (M\<lparr> x86 := st \<rparr>) }
      else
        do { (destreg, M) \<leftarrow> reg_ref W rl M;
             (amt, M) \<leftarrow> amount M;
             (destval, st) \<leftarrow> (ops ! rh) (w_get W destreg (x86 M)) amt (x86 M);
             Some (M\<lparr> x86 := w_put W destreg destval st \<rparr>) })"

definition x86emuOp_opcC0_byte_RM_MEM :: "'m sys_funcs \<Rightarrow> 'm X86EMU \<Rightarrow> 'm X86EMU option" where
  "x86emuOp_opcC0_byte_RM_MEM F =
     with_modrm F (op_shift width8 opcD0_byte_operation (fetch_byte_imm F) F)"

definition x86emuOp_opcC1_word_RM_MEM :: "'m sys_funcs \<Rightarrow> 'm X86EMU \<Rightarrow> 'm X86EMU option" where
  "x86emuOp_opcC1_word_RM_MEM F =
     with_modrm F (by_size (op_shift width32 opcD1_long_operation (fetch_byte_imm F) F)
                           (op_shift width16 opcD1_word_operation (fetch_byte_imm F) F))"

definition x86emuOp_opcD0_byte_RM_1 :: "'m sys_funcs \<Rightarrow> 'm X86EMU \<Rightarrow> 'm X86EMU option" where
  "x86emuOp_opcD0_byte_RM_1 F =
     with_modrm F (op_shift width8 opcD0_byte_operation (\<lambda>M. Some (1, M)) F)"

definition x86emuOp_opcD1_word_RM_1 :: "'m sys_funcs \<Rightarrow> 'm X86EMU \<Rightarrow> 'm X86EMU option" where
  "x86emuOp_opcD1_word_RM_1 F =
     with_modrm F (by_size (op_shift width32 opcD1_long_operation (\<lambda>M. Some (1, M)) F)
                           (op_shift width16 opcD1_word_operation (\<lambda>M. Some (1, M)) F))"

definition x86emuOp_opcD2_byte_RM_CL :: "'m sys_funcs \<Rightarrow> 'm X86EMU \<Rightarrow> 'm X86EMU option" where
  "x86emuOp_opcD2_byte_RM_CL F =
     with_modrm F (\<lambda>md rh rl M. let amt = R_CL (x86 M)
       in op_shift width8 opcD0_byte_operation (\<lambda>M. Some (amt, M)) F md rh rl M)"

definition x86emuOp_opcD3_word_RM_CL :: "'m sys_funcs \<Rightarrow> 'm X86EMU \<Rightarrow> 'm X86EMU option" where
  "x86emuOp_opcD3_word_RM_CL F =
     with_modrm F (\<lambda>md rh rl M. let amt = R_CL (x86 M)
       in by_size (op_shift width32 opcD1_long_operation (\<lambda>M. Some (amt, M)) F)
                  (op_shift width16 opcD1_word_operation (\<lambda>M. Some (amt, M)) F) md rh rl M)"

section \<open>Unary group\<close>

text \<open>Read an operand, and replace it, or use it with the accumulator.\<close>

definition rm_update ::
  "('r, 'v, 'm) width \<Rightarrow> ('v \<Rightarrow> x86_regs \<Rightarrow> 'v \<times> x86_regs) \<Rightarrow> 'm sys_funcs
   \<Rightarrow> nat \<Rightarrow> nat \<Rightarrow> 'm X86EMU \<Rightarrow> 'm X86EMU option" where
  "rm_update W f F md rl M =
     (if md < 3 then
        do { (destoffset, M) \<leftarrow> rm_address F md rl M;
             (destval, M) \<leftarrow> w_fetch W F destoffset M;
             let (destval, st) = f destval (x86 M);
             w_store W F destoffset destval (M\<lparr> x86 := st \<rparr>) }
      else
        do { (destreg, M) \<leftarrow> reg_ref W rl M;
             Some (regs (upd (w_get W destreg) (w_put W destreg) f) M) })"

definition rm_use ::
  "('r, 'v, 'm) width \<Rightarrow> ('v \<Rightarrow> x86_regs \<Rightarrow> x86_regs option) \<Rightarrow> 'm sys_funcs
   \<Rightarrow> nat \<Rightarrow> nat \<Rightarrow> 'm X86EMU \<Rightarrow> 'm X86EMU option" where
  "rm_use W f F md rl M =
     (if md < 3 then
        do { (destoffset, M) \<leftarrow> rm_address F md rl M;
             (destval, M) \<leftarrow> w_fetch W F destoffset M;
             st \<leftarrow> f destval (x86 M);
             Some (M\<lparr> x86 := st \<rparr>) }
      else
        do { (destreg, M) \<leftarrow> reg_ref W rl M;
             st \<leftarrow> f (w_get W destreg (x86 M)) (x86 M);
             Some (M\<lparr> x86 := st \<rparr>) })"

definition rm_test ::
  "('r, 'v, 'm) width \<Rightarrow> ('v \<Rightarrow> 'v \<Rightarrow> x86_regs \<Rightarrow> x86_regs) \<Rightarrow> 'm sys_funcs
   \<Rightarrow> nat \<Rightarrow> nat \<Rightarrow> 'm X86EMU \<Rightarrow> 'm X86EMU option" where
  "rm_test W f F md rl M =
     (if md < 3 then
        do { (destoffset, M) \<leftarrow> rm_address F md rl M;
             (srcval, M) \<leftarrow> w_imm W F M;
             (destval, M) \<leftarrow> w_fetch W F destoffset M;
             Some (regs (f destval srcval) M) }
      else
        do { (destreg, M) \<leftarrow> reg_ref W rl M;
             (srcval, M) \<leftarrow> w_imm W F M;
             Some (regs (\<lambda>st. f (w_get W destreg st) srcval st) M) })"

definition x86emuOp_opcF6_byte_RM :: "'m sys_funcs \<Rightarrow> 'm X86EMU \<Rightarrow> 'm X86EMU option" where
  "x86emuOp_opcF6_byte_RM F =
     with_modrm F (\<lambda>md rh rl M.
       if rh = 0 then rm_test width8 test_byte F md rl M
       else if rh = 1 then Some (X86EMU_halt_sys M)
       else if rh = 2 then rm_update width8 (\<lambda>v st. (not_byte v, st)) F md rl M
       else if rh = 3 then rm_update width8 neg_byte F md rl M
       else if rh = 4 then rm_use width8 (\<lambda>v st. Some (mul_byte v st)) F md rl M
       else if rh = 5 then rm_use width8 (\<lambda>v st. Some (imul_byte v st)) F md rl M
       else if rh = 6 then rm_use width8 (\<lambda>v st. Some (div_byte v st)) F md rl M
       else if rh = 7 then rm_use width8 (\<lambda>v st. Some (idiv_byte v st)) F md rl M
       else Some M)"

definition x86emuOp_opcF7_word_RM :: "'m sys_funcs \<Rightarrow> u32 \<Rightarrow> 'm X86EMU \<Rightarrow> 'm X86EMU option" where
  "x86emuOp_opcF7_word_RM F oob =
     with_modrm F (\<lambda>md rh rl M.
       if rh = 0 then (if data32 M then rm_test width32 test_long F md rl M
                       else rm_test width16 test_word F md rl M)
       else if rh = 1 then Some (X86EMU_halt_sys M)
       else if rh = 2 then (if data32 M then rm_update width32 (\<lambda>v st. (not_long v, st)) F md rl M
                            else rm_update width16 (\<lambda>v st. (not_word v, st)) F md rl M)
       else if rh = 3 then (if data32 M then rm_update width32 neg_long F md rl M
                            else rm_update width16 neg_word F md rl M)
       else if rh = 4 then (if data32 M then rm_use width32 (\<lambda>v st. Some (mul_long v st)) F md rl M
                            else rm_use width16 (\<lambda>v st. Some (mul_word v st)) F md rl M)
       else if rh = 5 then (if data32 M then rm_use width32 (\<lambda>v st. Some (imul_long v st)) F md rl M
                            else rm_use width16 (\<lambda>v st. Some (imul_word v st)) F md rl M)
       else if rh = 6 then (if data32 M then rm_use width32 (\<lambda>v st. Some (div_long oob v st)) F md rl M
                            else rm_use width16 (\<lambda>v st. Some (div_word v st)) F md rl M)
       else if rh = 7 then (if data32 M then rm_use width32 (\<lambda>v st. Some (idiv_long oob v st)) F md rl M
                            else rm_use width16 idiv_word F md rl M)
       else Some M)"

section \<open>INC, DEC, CALL, JMP, PUSH\<close>

text \<open>The address is decoded for every register field, also for the undefined ones.\<close>

definition x86emuOp_opcFE_byte_RM :: "'m sys_funcs \<Rightarrow> 'm X86EMU \<Rightarrow> 'm X86EMU option" where
  "x86emuOp_opcFE_byte_RM F =
     with_modrm F (\<lambda>md rh rl M.
       if rh = 0 then rm_update width8 inc_byte F md rl M
       else if rh = 1 then rm_update width8 dec_byte F md rl M
       else if md < 3 then do { (_, M) \<leftarrow> rm_address F md rl M; Some M }
       else Some M)"

text \<open>The memory forms. The variables for the new CS and IP are 16 bits wide.\<close>

definition opcFF_mem :: "'m sys_funcs \<Rightarrow> nat \<Rightarrow> u32 \<Rightarrow> 'm X86EMU \<Rightarrow> 'm X86EMU option" where
  "opcFF_mem F rh destoffset M =
     (if rh = 2 then
        if data32 M then
          do { (v, M) \<leftarrow> fetch_data_long F destoffset M;
               let destval = (ucast v :: u16);
               M \<leftarrow> push_long F (R_EIP (x86 M)) M;
               Some (regs (\<lambda>st. st\<lparr> R_EIP := ucast destval \<rparr>) M) }
        else
          do { (destval, M) \<leftarrow> fetch_data_word F destoffset M;
               M \<leftarrow> push_word F (R_IP (x86 M)) M;
               Some (regs (set_IP destval) M) }
      else if rh = 3 then
        if data32 M then
          do { (v, M) \<leftarrow> fetch_data_long F destoffset M;
               let destval = (ucast v :: u16);
               (destval2, M) \<leftarrow> fetch_data_word F (destoffset + 4) M;
               M \<leftarrow> push_long F (ucast (R_CS (x86 M))) M;
               let M = regs (\<lambda>st. st\<lparr> R_CS := destval2 \<rparr>) M;
               M \<leftarrow> push_long F (R_EIP (x86 M)) M;
               Some (regs (\<lambda>st. st\<lparr> R_EIP := ucast destval \<rparr>) M) }
        else
          do { (destval, M) \<leftarrow> fetch_data_word F destoffset M;
               (destval2, M) \<leftarrow> fetch_data_word F (destoffset + 2) M;
               M \<leftarrow> push_word F (R_CS (x86 M)) M;
               let M = regs (\<lambda>st. st\<lparr> R_CS := destval2 \<rparr>) M;
               M \<leftarrow> push_word F (R_IP (x86 M)) M;
               Some (regs (set_IP destval) M) }
      else if rh = 4 then
        do { (destval, M) \<leftarrow> fetch_data_word F destoffset M; Some (regs (set_IP destval) M) }
      else if rh = 5 then
        do { (destval, M) \<leftarrow> fetch_data_word F destoffset M;
             (destval2, M) \<leftarrow> fetch_data_word F (destoffset + 2) M;
             Some (regs (\<lambda>st. (set_IP destval st)\<lparr> R_CS := destval2 \<rparr>) M) }
      else if rh = 6 then
        if data32 M then do { (v, M) \<leftarrow> fetch_data_long F destoffset M; push_long F v M }
        else do { (v, M) \<leftarrow> fetch_data_word F destoffset M; push_word F v M }
      else Some M)"

text \<open>The register forms: a long call reads the low word of the register.\<close>

definition opcFF_reg :: "'m sys_funcs \<Rightarrow> nat \<Rightarrow> nat \<Rightarrow> 'm X86EMU \<Rightarrow> 'm X86EMU option" where
  "opcFF_reg F rh rl M =
     (if rh = 2 then
        if data32 M then
          do { (destreg, M) \<leftarrow> reg_ref width32 rl M;
               M \<leftarrow> push_long F (R_EIP (x86 M)) M;
               Some (regs (\<lambda>st. st\<lparr> R_EIP := ucast (ucast (get32 destreg st) :: u16) \<rparr>) M) }
        else
          do { (destreg, M) \<leftarrow> reg_ref width16 rl M;
               M \<leftarrow> push_word F (R_IP (x86 M)) M;
               Some (regs (\<lambda>st. set_IP (get16 destreg st) st) M) }
      else if rh = 3 \<or> rh = 5 then Some (X86EMU_halt_sys M)
      else if rh = 4 then
        do { (destreg, M) \<leftarrow> reg_ref width16 rl M;
             Some (regs (\<lambda>st. set_IP (get16 destreg st) st) M) }
      else if rh = 6 then
        if data32 M then
          do { (destreg, M) \<leftarrow> reg_ref width32 rl M; push_long F (get32 destreg (x86 M)) M }
        else
          do { (destreg, M) \<leftarrow> reg_ref width16 rl M; push_word F (get16 destreg (x86 M)) M }
      else Some M)"

definition x86emuOp_opcFF_word_RM :: "'m sys_funcs \<Rightarrow> 'm X86EMU \<Rightarrow> 'm X86EMU option" where
  "x86emuOp_opcFF_word_RM F =
     with_modrm F (\<lambda>md rh rl M.
       if md < 3 then
         do { (destoffset, M) \<leftarrow> rm_address F md rl M;
              if rh = 0 \<or> rh = 1 then
                if data32 M then
                  do { (v, M) \<leftarrow> fetch_data_long F destoffset M;
                       let (v, st) = (if rh = 0 then inc_long else dec_long) v (x86 M);
                       store_data_long F destoffset v (M\<lparr> x86 := st \<rparr>) }
                else
                  do { (v, M) \<leftarrow> fetch_data_word F destoffset M;
                       let (v, st) = (if rh = 0 then inc_word else dec_word) v (x86 M);
                       store_data_word F destoffset v (M\<lparr> x86 := st \<rparr>) }
              else opcFF_mem F rh destoffset M }
       else if rh = 0 then
         if data32 M then rm_update width32 inc_long F md rl M else rm_update width16 inc_word F md rl M
       else if rh = 1 then
         if data32 M then rm_update width32 dec_long F md rl M else rm_update width16 dec_word F md rl M
       else opcFF_reg F rh rl M)"

section \<open>IMUL with an immediate\<close>

text \<open>
  The flags are set if the high half of the product is not 0, for words if the product as an
  unsigned long exceeds 0xffff.
\<close>

definition imul_flags :: "bool \<Rightarrow> x86_regs \<Rightarrow> x86_regs" where
  "imul_flags over st =
     (if over then SET_FLAG F_OF (SET_FLAG F_CF st) else CLEAR_FLAG F_OF (CLEAR_FLAG F_CF st))"

definition imul_reg32 :: "u32 \<Rightarrow> u32 \<Rightarrow> x86_regs \<Rightarrow> u32 \<times> x86_regs" where
  "imul_reg32 d s st = (let (res_lo, res_hi) = imul_long_direct d s in (res_lo, imul_flags (res_hi \<noteq> 0) st))"

definition imul_reg16 :: "u16 \<Rightarrow> u16 \<Rightarrow> x86_regs \<Rightarrow> u16 \<times> x86_regs" where
  "imul_reg16 d s st =
     (let res = (scast d * scast s :: u32) in (ucast res, imul_flags (res > 0xFFFF) st))"

definition imul_imm ::
  "('r, 'v, 'm) width \<Rightarrow> ('v \<Rightarrow> 'v \<Rightarrow> x86_regs \<Rightarrow> 'v \<times> x86_regs) \<Rightarrow> ('m X86EMU \<Rightarrow> ('v \<times> 'm X86EMU) option)
   \<Rightarrow> 'm sys_funcs \<Rightarrow> nat \<Rightarrow> nat \<Rightarrow> nat \<Rightarrow> 'm X86EMU \<Rightarrow> 'm X86EMU option" where
  "imul_imm W f fetch_imm F md rh rl M =
     (if md < 3 then
        do { (destreg, M) \<leftarrow> reg_ref W rh M;
             (srcoffset, M) \<leftarrow> rm_address F md rl M;
             (srcval, M) \<leftarrow> w_fetch W F srcoffset M;
             (imm, M) \<leftarrow> fetch_imm M;
             let (res, st) = f srcval imm (x86 M);
             Some (M\<lparr> x86 := w_put W destreg res st \<rparr>) }
      else
        do { (destreg, M) \<leftarrow> reg_ref W rh M;
             (srcreg, M) \<leftarrow> reg_ref W rl M;
             (imm, M) \<leftarrow> fetch_imm M;
             let (res, st) = f (w_get W srcreg (x86 M)) imm (x86 M);
             Some (M\<lparr> x86 := w_put W destreg res st \<rparr>) })"

definition x86emuOp_imul_word_IMM :: "'m sys_funcs \<Rightarrow> 'm X86EMU \<Rightarrow> 'm X86EMU option" where
  "x86emuOp_imul_word_IMM F =
     with_modrm F (by_size (imul_imm width32 imul_reg32 (fetch_long_imm F) F)
                           (imul_imm width16 imul_reg16 (fetch_word_imm F) F))"

definition x86emuOp_imul_byte_IMM :: "'m sys_funcs \<Rightarrow> 'm X86EMU \<Rightarrow> 'm X86EMU option" where
  "x86emuOp_imul_byte_IMM F =
     with_modrm F (by_size (imul_imm width32 imul_reg32 (fetch_sbyte F) F)
                           (imul_imm width16 imul_reg16 (fetch_sbyte F) F))"

section \<open>Coprocessor escapes\<close>

text \<open>
  Without \<open>X86EMU_FPU_PRESENT\<close> the escapes only decode their operand; 0xd8 does not even fetch the
  ModRM byte.
\<close>

definition esc_operand :: "'m sys_funcs \<Rightarrow> nat \<Rightarrow> nat \<Rightarrow> nat \<Rightarrow> 'm X86EMU \<Rightarrow> 'm X86EMU option" where
  "esc_operand F md rh rl M =
     (if md < 3 then do { (destoffset, M) \<leftarrow> rm_address F md rl M; Some M } else Some M)"

definition x86emuOp_esc_coprocess_d8 :: "'m X86EMU \<Rightarrow> 'm X86EMU option" where
  "x86emuOp_esc_coprocess_d8 = instr Some"
definition x86emuOp_esc_coprocess_d9 :: "'m sys_funcs \<Rightarrow> 'm X86EMU \<Rightarrow> 'm X86EMU option" where
  "x86emuOp_esc_coprocess_d9 F = with_modrm F (esc_operand F)"
definition x86emuOp_esc_coprocess_da :: "'m sys_funcs \<Rightarrow> 'm X86EMU \<Rightarrow> 'm X86EMU option" where
  "x86emuOp_esc_coprocess_da F = with_modrm F (esc_operand F)"
definition x86emuOp_esc_coprocess_db :: "'m sys_funcs \<Rightarrow> 'm X86EMU \<Rightarrow> 'm X86EMU option" where
  "x86emuOp_esc_coprocess_db F = with_modrm F (esc_operand F)"
definition x86emuOp_esc_coprocess_dc :: "'m sys_funcs \<Rightarrow> 'm X86EMU \<Rightarrow> 'm X86EMU option" where
  "x86emuOp_esc_coprocess_dc F = with_modrm F (esc_operand F)"
definition x86emuOp_esc_coprocess_dd :: "'m sys_funcs \<Rightarrow> 'm X86EMU \<Rightarrow> 'm X86EMU option" where
  "x86emuOp_esc_coprocess_dd F = with_modrm F (esc_operand F)"
definition x86emuOp_esc_coprocess_de :: "'m sys_funcs \<Rightarrow> 'm X86EMU \<Rightarrow> 'm X86EMU option" where
  "x86emuOp_esc_coprocess_de F = with_modrm F (esc_operand F)"
definition x86emuOp_esc_coprocess_df :: "'m sys_funcs \<Rightarrow> 'm X86EMU \<Rightarrow> 'm X86EMU option" where
  "x86emuOp_esc_coprocess_df F = with_modrm F (esc_operand F)"

text \<open>The handlers, to unfold together.\<close>

lemmas group_handlers =
  x86emuOp_opc80_byte_RM_IMM_def x86emuOp_opc81_word_RM_IMM_def x86emuOp_opc82_byte_RM_IMM_def
  x86emuOp_opc83_word_RM_IMM_def x86emuOp_opcC0_byte_RM_MEM_def x86emuOp_opcC1_word_RM_MEM_def
  x86emuOp_opcD0_byte_RM_1_def x86emuOp_opcD1_word_RM_1_def x86emuOp_opcD2_byte_RM_CL_def
  x86emuOp_opcD3_word_RM_CL_def x86emuOp_opcF6_byte_RM_def x86emuOp_opcF7_word_RM_def
  x86emuOp_opcFE_byte_RM_def x86emuOp_opcFF_word_RM_def x86emuOp_imul_word_IMM_def x86emuOp_imul_byte_IMM_def
  x86emuOp_esc_coprocess_d8_def x86emuOp_esc_coprocess_d9_def x86emuOp_esc_coprocess_da_def
  x86emuOp_esc_coprocess_db_def x86emuOp_esc_coprocess_dc_def x86emuOp_esc_coprocess_dd_def
  x86emuOp_esc_coprocess_de_def x86emuOp_esc_coprocess_df_def

end
