(* ===== verification/X86Ops2.thy ===== *)
theory X86Ops2
  imports X86OpsGroup
begin

unbundle bit_operations_syntax

text \<open>
  The two byte opcodes of \<open>ops2.c\<close> (0x0f): conditional jumps and byte sets, bit tests and scans, double
  shifts, IMUL, extending moves, far pointers, BSWAP, RDTSC and CPUID. The assertions that a register
  pointer is not null are the dereferences themselves.
\<close>

section \<open>Conditions\<close>

definition x86emuOp2_long_jump :: "'m sys_funcs \<Rightarrow> u8 \<Rightarrow> 'm X86EMU \<Rightarrow> 'm X86EMU option" where
  "x86emuOp2_long_jump F op2 =
     instr (\<lambda>M. do { let cond = long_jump_cond op2 (x86 M);
                     (d, M) \<leftarrow> fetch_word_imm F M;
                     let target = d + R_IP (x86 M);
                     Some (if cond then regs (set_IP target) M else M) })"

definition x86emuOp2_set_byte :: "'m sys_funcs \<Rightarrow> u8 \<Rightarrow> 'm X86EMU \<Rightarrow> 'm X86EMU option" where
  "x86emuOp2_set_byte F op2 M =
     (let cond = set_byte_cond op2 (x86 M);
          v = (if cond then 0x01 else 0x00)
      in with_modrm F (\<lambda>md rh rl M.
           if md < 3 then
             do { (destoffset, M) \<leftarrow> rm_address F md rl M; store_data_byte F destoffset v M }
           else
             do { (destreg, M) \<leftarrow> reg_ref width8 rl M; Some (regs (set8 destreg v) M) }) M)"

section \<open>Machine\<close>

definition x86emuOp2_illegal_op :: "'m X86EMU \<Rightarrow> 'm X86EMU option" where
  "x86emuOp2_illegal_op M = Some (X86EMU_halt_sys M)"

definition x86emuOp2_rdtsc :: "'m X86EMU \<Rightarrow> 'm X86EMU option" where
  "x86emuOp2_rdtsc =
     instr (\<lambda>M. Some (regs (\<lambda>st. let counter = x86_tsc st + 0x10000
                                 in st\<lparr> x86_tsc := counter, R_EAX := counter, R_EDX := 0 \<rparr>) M))"

definition x86emuOp2_cpuid :: "'m X86EMU \<Rightarrow> 'm X86EMU option" where
  "x86emuOp2_cpuid = instr (\<lambda>M. Some (regs cpuid M))"

definition x86emuOp2_push_FS :: "'m sys_funcs \<Rightarrow> 'm X86EMU \<Rightarrow> 'm X86EMU option" where
  "x86emuOp2_push_FS F = push_seg F FS"
definition x86emuOp2_pop_FS :: "'m sys_funcs \<Rightarrow> 'm X86EMU \<Rightarrow> 'm X86EMU option" where
  "x86emuOp2_pop_FS F = pop_seg F FS"
definition x86emuOp2_push_GS :: "'m sys_funcs \<Rightarrow> 'm X86EMU \<Rightarrow> 'm X86EMU option" where
  "x86emuOp2_push_GS F = push_seg F GS"
definition x86emuOp2_pop_GS :: "'m sys_funcs \<Rightarrow> 'm X86EMU \<Rightarrow> 'm X86EMU option" where
  "x86emuOp2_pop_GS F = pop_seg F GS"

definition x86emuOp2_lss_R_IMM :: "'m sys_funcs \<Rightarrow> 'm X86EMU \<Rightarrow> 'm X86EMU option" where
  "x86emuOp2_lss_R_IMM F = with_modrm F (load_far SS F)"
definition x86emuOp2_lfs_R_IMM :: "'m sys_funcs \<Rightarrow> 'm X86EMU \<Rightarrow> 'm X86EMU option" where
  "x86emuOp2_lfs_R_IMM F = with_modrm F (load_far FS F)"
definition x86emuOp2_lgs_R_IMM :: "'m sys_funcs \<Rightarrow> 'm X86EMU \<Rightarrow> 'm X86EMU option" where
  "x86emuOp2_lgs_R_IMM F = with_modrm F (load_far GS F)"

definition bswap_32 :: "u32 \<Rightarrow> u32" where
  "bswap_32 x = drop_bit 24 (x AND 0xff000000) OR drop_bit 8 (x AND 0x00ff0000)
     OR push_bit 8 (x AND 0x0000ff00) OR push_bit 24 (x AND 0x000000ff)"

definition x86emuOp2_bswap :: "u8 \<Rightarrow> 'm X86EMU \<Rightarrow> 'm X86EMU option" where
  "x86emuOp2_bswap op2 =
     instr (\<lambda>M. let swap = (\<lambda>r. Some (regs (\<lambda>st. set32 r (bswap_32 (get32 r st)) st) M))
                in if op2 = 0xc8 then swap EAX else if op2 = 0xc9 then swap ECX
                   else if op2 = 0xca then swap EDX else if op2 = 0xcb then swap EBX
                   else if op2 = 0xcc then swap ESP else if op2 = 0xcd then swap EBP
                   else if op2 = 0xce then swap ESI else if op2 = 0xcf then swap EDI
                   else Some M)"

section \<open>Bit tests\<close>

text \<open>
  The bit number is in a register. For a word of \<open>2 ^ k\<close> bits its low \<open>k\<close> bits select the bit; the
  rest, of the low 16 bits of the register as a signed number, is added to the address as it is.
\<close>

definition bit_number :: "nat \<Rightarrow> 'a::len word \<Rightarrow> nat" where
  "bit_number k v = unat (v AND mask k)"

definition bit_disp :: "nat \<Rightarrow> 'a::len word \<Rightarrow> u32" where
  "bit_disp k v = scast (signed_drop_bit k (ucast v :: u16))"

definition test_bit_flag :: "'a::len word \<Rightarrow> nat \<Rightarrow> x86_regs \<Rightarrow> x86_regs" where
  "test_bit_flag v n = CONDITIONAL_SET_FLAG (v AND push_bit n 1 \<noteq> 0) F_CF"

definition bt_only ::
  "('r, 'a::len word, 'm) width \<Rightarrow> nat \<Rightarrow> 'm sys_funcs \<Rightarrow> nat \<Rightarrow> nat \<Rightarrow> nat \<Rightarrow> 'm X86EMU \<Rightarrow> 'm X86EMU option" where
  "bt_only W k F md rh rl M =
     (if md < 3 then
        do { (srcoffset, M) \<leftarrow> rm_address F md rl M;
             (shiftreg, M) \<leftarrow> reg_ref W rh M;
             let v = w_get W shiftreg (x86 M);
             (srcval, M) \<leftarrow> w_fetch W F (srcoffset + bit_disp k v) M;
             Some (regs (test_bit_flag srcval (bit_number k v)) M) }
      else
        do { (srcreg, M) \<leftarrow> reg_ref W rl M;
             (shiftreg, M) \<leftarrow> reg_ref W rh M;
             Some (regs (\<lambda>st. test_bit_flag (w_get W srcreg st) (bit_number k (w_get W shiftreg st)) st) M) })"

text \<open>\<open>f srcval mask\<close> is the new value.\<close>

definition bt_update ::
  "('r, 'a::len word, 'm) width \<Rightarrow> nat \<Rightarrow> ('a word \<Rightarrow> 'a word \<Rightarrow> 'a word) \<Rightarrow> 'm sys_funcs
   \<Rightarrow> nat \<Rightarrow> nat \<Rightarrow> nat \<Rightarrow> 'm X86EMU \<Rightarrow> 'm X86EMU option" where
  "bt_update W k f F md rh rl M =
     (if md < 3 then
        do { (srcoffset, M) \<leftarrow> rm_address F md rl M;
             (shiftreg, M) \<leftarrow> reg_ref W rh M;
             let v = w_get W shiftreg (x86 M);
             let n = bit_number k v;
             (srcval, M) \<leftarrow> w_fetch W F (srcoffset + bit_disp k v) M;
             let M = regs (test_bit_flag srcval n) M;
             w_store W F (srcoffset + bit_disp k v) (f srcval (push_bit n 1)) M }
      else
        do { (srcreg, M) \<leftarrow> reg_ref W rl M;
             (shiftreg, M) \<leftarrow> reg_ref W rh M;
             let n = bit_number k (w_get W shiftreg (x86 M));
             let M = regs (\<lambda>st. test_bit_flag (w_get W srcreg st) n st) M;
             Some (regs (\<lambda>st. w_put W srcreg (f (w_get W srcreg st) (push_bit n 1)) st) M) })"

definition x86emuOp2_bt_R :: "'m sys_funcs \<Rightarrow> 'm X86EMU \<Rightarrow> 'm X86EMU option" where
  "x86emuOp2_bt_R F = with_modrm F (by_size (bt_only width32 5 F) (bt_only width16 4 F))"
definition x86emuOp2_bts_R :: "'m sys_funcs \<Rightarrow> 'm X86EMU \<Rightarrow> 'm X86EMU option" where
  "x86emuOp2_bts_R F = with_modrm F (by_size (bt_update width32 5 (OR) F) (bt_update width16 4 (OR) F))"
definition x86emuOp2_btr_R :: "'m sys_funcs \<Rightarrow> 'm X86EMU \<Rightarrow> 'm X86EMU option" where
  "x86emuOp2_btr_R F =
     with_modrm F (by_size (bt_update width32 5 (\<lambda>v b. v AND NOT b) F) (bt_update width16 4 (\<lambda>v b. v AND NOT b) F))"
definition x86emuOp2_btc_R :: "'m sys_funcs \<Rightarrow> 'm X86EMU \<Rightarrow> 'm X86EMU option" where
  "x86emuOp2_btc_R F = with_modrm F (by_size (bt_update width32 5 (XOR) F) (bt_update width16 4 (XOR) F))"

text \<open>With an immediate bit number: register field 4 tests, 5 sets, 6 clears and 7 toggles.\<close>

definition btX_value :: "nat \<Rightarrow> 'a::len word \<Rightarrow> 'a word \<Rightarrow> 'a word option" where
  "btX_value rh v b =
     (if rh = 5 then Some (v OR b) else if rh = 6 then Some (v AND NOT b)
      else if rh = 7 then Some (v XOR b) else None)"

definition btX ::
  "('r, 'a::len word, 'm) width \<Rightarrow> nat \<Rightarrow> 'm sys_funcs \<Rightarrow> nat \<Rightarrow> nat \<Rightarrow> nat \<Rightarrow> 'm X86EMU \<Rightarrow> 'm X86EMU option" where
  "btX W k F md rh rl M =
     (if md < 3 then
        do { (srcoffset, M) \<leftarrow> rm_address F md rl M;
             (shift, M) \<leftarrow> fetch_byte_imm F M;
             let n = bit_number k shift;
             (srcval, M) \<leftarrow> w_fetch W F srcoffset M;
             let M = regs (test_bit_flag srcval n) M;
             case btX_value rh srcval (push_bit n 1) of
               Some v \<Rightarrow> w_store W F srcoffset v M
             | None \<Rightarrow> Some M }
      else
        do { (srcreg, M) \<leftarrow> reg_ref W rl M;
             (shift, M) \<leftarrow> fetch_byte_imm F M;
             let n = bit_number k shift;
             let M = regs (\<lambda>st. test_bit_flag (w_get W srcreg st) n st) M;
             case btX_value rh (w_get W srcreg (x86 M)) (push_bit n 1) of
               Some v \<Rightarrow> Some (regs (w_put W srcreg v) M)
             | None \<Rightarrow> Some M })"

definition x86emuOp2_btX_I :: "'m sys_funcs \<Rightarrow> 'm X86EMU \<Rightarrow> 'm X86EMU option" where
  "x86emuOp2_btX_I F =
     with_modrm F (\<lambda>md rh rl M.
       let M = (if rh \<in> {4, 5, 6, 7} then M else X86EMU_halt_sys M)
       in by_size (btX width32 5 F) (btX width16 4 F) md rh rl M)"

section \<open>Bit scans\<close>

text \<open>\<open>for (*dstreg = i; *dstreg < i + n; (*dstreg)++)\<close> up to the first bit set.\<close>

fun bsf_loop :: "'a::len word \<Rightarrow> nat \<Rightarrow> nat \<Rightarrow> nat" where
  "bsf_loop v i 0 = i"
| "bsf_loop v i (Suc n) = (if drop_bit i v AND 1 \<noteq> 0 then i else bsf_loop v (Suc i) n)"

text \<open>\<open>for (*dstreg = i; *dstreg > 0; (*dstreg)--)\<close>\<close>

fun bsr_loop :: "'a::len word \<Rightarrow> nat \<Rightarrow> nat" where
  "bsr_loop v 0 = 0"
| "bsr_loop v (Suc i) = (if drop_bit (Suc i) v AND 1 \<noteq> 0 then Suc i else bsr_loop v i)"

definition bit_scan ::
  "('r, 'a::len word, 'm) width \<Rightarrow> ('a word \<Rightarrow> nat) \<Rightarrow> 'm sys_funcs
   \<Rightarrow> nat \<Rightarrow> nat \<Rightarrow> nat \<Rightarrow> 'm X86EMU \<Rightarrow> 'm X86EMU option" where
  "bit_scan W scan F md rh rl M =
     (if md < 3 then
        do { (srcoffset, M) \<leftarrow> rm_address F md rl M;
             (dstreg, M) \<leftarrow> reg_ref W rh M;
             (srcval, M) \<leftarrow> w_fetch W F srcoffset M;
             let M = regs (CONDITIONAL_SET_FLAG (srcval = 0) F_ZF) M;
             Some (regs (w_put W dstreg (of_nat (scan srcval))) M) }
      else
        do { (srcreg, M) \<leftarrow> reg_ref W rl M;
             let srcval = w_get W srcreg (x86 M);
             (dstreg, M) \<leftarrow> reg_ref W rh M;
             let M = regs (CONDITIONAL_SET_FLAG (srcval = 0) F_ZF) M;
             Some (regs (w_put W dstreg (of_nat (scan srcval))) M) })"

definition x86emuOp2_bsf :: "'m sys_funcs \<Rightarrow> 'm X86EMU \<Rightarrow> 'm X86EMU option" where
  "x86emuOp2_bsf F =
     with_modrm F (by_size (bit_scan width32 (\<lambda>v. bsf_loop v 0 32) F) (bit_scan width16 (\<lambda>v. bsf_loop v 0 16) F))"
definition x86emuOp2_bsr :: "'m sys_funcs \<Rightarrow> 'm X86EMU \<Rightarrow> 'm X86EMU option" where
  "x86emuOp2_bsr F =
     with_modrm F (by_size (bit_scan width32 (\<lambda>v. bsr_loop v 31) F) (bit_scan width16 (\<lambda>v. bsr_loop v 15) F))"

section \<open>Double shifts and multiplication\<close>

definition double_shift ::
  "('r, 'v, 'm) width \<Rightarrow> ('v \<Rightarrow> 'v \<Rightarrow> u8 \<Rightarrow> x86_regs \<Rightarrow> ('v \<times> x86_regs) option) \<Rightarrow> ('m X86EMU \<Rightarrow> (u8 \<times> 'm X86EMU) option)
   \<Rightarrow> ('m X86EMU \<Rightarrow> u8 \<Rightarrow> u8) \<Rightarrow> 'm sys_funcs \<Rightarrow> nat \<Rightarrow> nat \<Rightarrow> nat \<Rightarrow> 'm X86EMU \<Rightarrow> 'm X86EMU option" where
  "double_shift W f amount now F md rh rl M =
     (if md < 3 then
        do { (destoffset, M) \<leftarrow> rm_address F md rl M;
             (shiftreg, M) \<leftarrow> reg_ref W rh M;
             (shift, M) \<leftarrow> amount M;
             (destval, M) \<leftarrow> w_fetch W F destoffset M;
             (destval, st) \<leftarrow> f destval (w_get W shiftreg (x86 M)) (now M shift) (x86 M);
             w_store W F destoffset destval (M\<lparr> x86 := st \<rparr>) }
      else
        do { (destreg, M) \<leftarrow> reg_ref W rl M;
             (shiftreg, M) \<leftarrow> reg_ref W rh M;
             (shift, M) \<leftarrow> amount M;
             (v, st) \<leftarrow> f (w_get W destreg (x86 M)) (w_get W shiftreg (x86 M)) (now M shift) (x86 M);
             Some (M\<lparr> x86 := w_put W destreg v st \<rparr>) })"

text \<open>The distance is an immediate, or CL when the shift is executed.\<close>

definition by_imm :: "('r, 'v, 'm) width \<Rightarrow> ('v \<Rightarrow> 'v \<Rightarrow> u8 \<Rightarrow> x86_regs \<Rightarrow> ('v \<times> x86_regs) option)
   \<Rightarrow> 'm sys_funcs \<Rightarrow> nat \<Rightarrow> nat \<Rightarrow> nat \<Rightarrow> 'm X86EMU \<Rightarrow> 'm X86EMU option" where
  "by_imm W f F = double_shift W f (fetch_byte_imm F) (\<lambda>_ s. s) F"

definition by_CL :: "('r, 'v, 'm) width \<Rightarrow> ('v \<Rightarrow> 'v \<Rightarrow> u8 \<Rightarrow> x86_regs \<Rightarrow> ('v \<times> x86_regs) option)
   \<Rightarrow> 'm sys_funcs \<Rightarrow> nat \<Rightarrow> nat \<Rightarrow> nat \<Rightarrow> 'm X86EMU \<Rightarrow> 'm X86EMU option" where
  "by_CL W f F = double_shift W f (\<lambda>M. Some (0, M)) (\<lambda>M _. R_CL (x86 M)) F"

definition x86emuOp2_shld_IMM :: "'m sys_funcs \<Rightarrow> 'm X86EMU \<Rightarrow> 'm X86EMU option" where
  "x86emuOp2_shld_IMM F = with_modrm F (by_size (by_imm width32 shld_long F) (by_imm width16 shld_word F))"
definition x86emuOp2_shld_CL :: "'m sys_funcs \<Rightarrow> 'm X86EMU \<Rightarrow> 'm X86EMU option" where
  "x86emuOp2_shld_CL F = with_modrm F (by_size (by_CL width32 shld_long F) (by_CL width16 shld_word F))"
definition x86emuOp2_shrd_IMM :: "'m sys_funcs \<Rightarrow> 'm X86EMU \<Rightarrow> 'm X86EMU option" where
  "x86emuOp2_shrd_IMM F =
     with_modrm F (by_size (by_imm width32 (\<lambda>d f s st. Some (shrd_long d f s st)) F)
                           (by_imm width16 (\<lambda>d f s st. Some (shrd_word d f s st)) F))"
definition x86emuOp2_shrd_CL :: "'m sys_funcs \<Rightarrow> 'm X86EMU \<Rightarrow> 'm X86EMU option" where
  "x86emuOp2_shrd_CL F =
     with_modrm F (by_size (by_CL width32 (\<lambda>d f s st. Some (shrd_long d f s st)) F)
                           (by_CL width16 (\<lambda>d f s st. Some (shrd_word d f s st)) F))"

definition x86emuOp2_imul_R_RM :: "'m sys_funcs \<Rightarrow> 'm X86EMU \<Rightarrow> 'm X86EMU option" where
  "x86emuOp2_imul_R_RM F = with_modrm F (by_size (op_R_RM width32 imul_reg32 F) (op_R_RM width16 imul_reg16 F))"

section \<open>Extending moves\<close>

definition mov_extend ::
  "('r, 'v, 'm) width \<Rightarrow> ('s, 'u, 'm) width \<Rightarrow> ('u \<Rightarrow> 'v) \<Rightarrow> 'm sys_funcs
   \<Rightarrow> nat \<Rightarrow> nat \<Rightarrow> nat \<Rightarrow> 'm X86EMU \<Rightarrow> 'm X86EMU option" where
  "mov_extend W S ext F md rh rl M =
     (if md < 3 then
        do { (destreg, M) \<leftarrow> reg_ref W rh M;
             (srcoffset, M) \<leftarrow> rm_address F md rl M;
             (srcval, M) \<leftarrow> w_fetch S F srcoffset M;
             Some (regs (w_put W destreg (ext srcval)) M) }
      else
        do { (destreg, M) \<leftarrow> reg_ref W rh M;
             (srcreg, M) \<leftarrow> reg_ref S rl M;
             Some (regs (\<lambda>st. w_put W destreg (ext (w_get S srcreg st)) st) M) })"

definition x86emuOp2_movzx_byte_R_RM :: "'m sys_funcs \<Rightarrow> 'm X86EMU \<Rightarrow> 'm X86EMU option" where
  "x86emuOp2_movzx_byte_R_RM F =
     with_modrm F (by_size (mov_extend width32 width8 ucast F) (mov_extend width16 width8 ucast F))"
definition x86emuOp2_movzx_word_R_RM :: "'m sys_funcs \<Rightarrow> 'm X86EMU \<Rightarrow> 'm X86EMU option" where
  "x86emuOp2_movzx_word_R_RM F = with_modrm F (mov_extend width32 width16 ucast F)"
definition x86emuOp2_movsx_byte_R_RM :: "'m sys_funcs \<Rightarrow> 'm X86EMU \<Rightarrow> 'm X86EMU option" where
  "x86emuOp2_movsx_byte_R_RM F =
     with_modrm F (by_size (mov_extend width32 width8 scast F) (mov_extend width16 width8 scast F))"
definition x86emuOp2_movsx_word_R_RM :: "'m sys_funcs \<Rightarrow> 'm X86EMU \<Rightarrow> 'm X86EMU option" where
  "x86emuOp2_movsx_word_R_RM F = with_modrm F (mov_extend width32 width16 scast F)"

text \<open>The handlers, to unfold together.\<close>

lemmas op2_handlers =
  x86emuOp2_long_jump_def x86emuOp2_set_byte_def x86emuOp2_illegal_op_def x86emuOp2_rdtsc_def
  x86emuOp2_cpuid_def x86emuOp2_push_FS_def x86emuOp2_pop_FS_def x86emuOp2_push_GS_def x86emuOp2_pop_GS_def
  x86emuOp2_lss_R_IMM_def x86emuOp2_lfs_R_IMM_def x86emuOp2_lgs_R_IMM_def x86emuOp2_bswap_def
  x86emuOp2_bt_R_def x86emuOp2_bts_R_def x86emuOp2_btr_R_def x86emuOp2_btc_R_def x86emuOp2_btX_I_def
  x86emuOp2_bsf_def x86emuOp2_bsr_def x86emuOp2_shld_IMM_def x86emuOp2_shld_CL_def x86emuOp2_shrd_IMM_def
  x86emuOp2_shrd_CL_def x86emuOp2_imul_R_RM_def x86emuOp2_movzx_byte_R_RM_def x86emuOp2_movzx_word_R_RM_def
  x86emuOp2_movsx_byte_R_RM_def x86emuOp2_movsx_word_R_RM_def

end
