(* ===== verification/X86Exec.thy ===== *)
theory X86Exec
  imports X86Ops2
begin

unbundle bit_operations_syntax

text \<open>
  The opcode tables of \<open>ops.c\<close> and \<open>ops2.c\<close> and the main loop \<open>X86EMU_exec\<close> of \<open>decode.c\<close>.
\<close>

section \<open>Opcode tables\<close>

text \<open>
  What the handlers depend on besides the machine: the memory and port functions, the installed
  interrupt handlers, and the value of the undefined shift of the long divisions.
\<close>

record 'm emu_env =
  emu_funcs :: "'m sys_funcs"
  emu_intr :: "'m intr_tab"
  emu_oob :: u32

definition x86emu_optab2 :: "'m emu_env \<Rightarrow> u8 \<Rightarrow> ('m X86EMU \<Rightarrow> 'm X86EMU option) list" where
  "x86emu_optab2 E op2 =
     replicate 49 x86emuOp2_illegal_op
     @ [
      x86emuOp2_rdtsc]
     @ replicate 78 x86emuOp2_illegal_op
     @ replicate 16 (x86emuOp2_long_jump (emu_funcs E) op2)
     @ replicate 16 (x86emuOp2_set_byte (emu_funcs E) op2)
     @ [
      x86emuOp2_push_FS (emu_funcs E), x86emuOp2_pop_FS (emu_funcs E), x86emuOp2_cpuid, x86emuOp2_bt_R (emu_funcs E),
      x86emuOp2_shld_IMM (emu_funcs E), x86emuOp2_shld_CL (emu_funcs E), x86emuOp2_illegal_op, x86emuOp2_illegal_op,
      x86emuOp2_push_GS (emu_funcs E), x86emuOp2_pop_GS (emu_funcs E), x86emuOp2_illegal_op,
      x86emuOp2_bts_R (emu_funcs E), x86emuOp2_shrd_IMM (emu_funcs E), x86emuOp2_shrd_CL (emu_funcs E),
      x86emuOp2_illegal_op, x86emuOp2_imul_R_RM (emu_funcs E), x86emuOp2_illegal_op, x86emuOp2_illegal_op,
      x86emuOp2_lss_R_IMM (emu_funcs E), x86emuOp2_btr_R (emu_funcs E), x86emuOp2_lfs_R_IMM (emu_funcs E),
      x86emuOp2_lgs_R_IMM (emu_funcs E), x86emuOp2_movzx_byte_R_RM (emu_funcs E),
      x86emuOp2_movzx_word_R_RM (emu_funcs E), x86emuOp2_illegal_op, x86emuOp2_illegal_op,
      x86emuOp2_btX_I (emu_funcs E), x86emuOp2_btc_R (emu_funcs E), x86emuOp2_bsf (emu_funcs E),
      x86emuOp2_bsr (emu_funcs E), x86emuOp2_movsx_byte_R_RM (emu_funcs E), x86emuOp2_movsx_word_R_RM (emu_funcs E)]
     @ replicate 8 x86emuOp2_illegal_op
     @ replicate 8 (x86emuOp2_bswap op2)
     @ replicate 48 x86emuOp2_illegal_op"

definition x86emuOp_two_byte :: "'m emu_env \<Rightarrow> 'm X86EMU \<Rightarrow> 'm X86EMU option" where
  "x86emuOp_two_byte E M =
     (let ip = R_IP (x86 M)
      in do { (op2, M) \<leftarrow> sys_rdb (emu_funcs E) (seg_addr (R_CS (x86 M)) (ucast ip)) (regs (set_IP (ip + 1)) M);
              (x86emu_optab2 E op2 ! unat op2) M })"

definition x86emu_optab :: "'m emu_env \<Rightarrow> ('m X86EMU \<Rightarrow> 'm X86EMU option) list" where
  "x86emu_optab E =
     [
      x86emuOp_add_byte_RM_R (emu_funcs E), x86emuOp_add_word_RM_R (emu_funcs E),
      x86emuOp_add_byte_R_RM (emu_funcs E), x86emuOp_add_word_R_RM (emu_funcs E),
      x86emuOp_add_byte_AL_IMM (emu_funcs E), x86emuOp_add_word_AX_IMM (emu_funcs E), x86emuOp_push_ES (emu_funcs E),
      x86emuOp_pop_ES (emu_funcs E), x86emuOp_or_byte_RM_R (emu_funcs E), x86emuOp_or_word_RM_R (emu_funcs E),
      x86emuOp_or_byte_R_RM (emu_funcs E), x86emuOp_or_word_R_RM (emu_funcs E), x86emuOp_or_byte_AL_IMM (emu_funcs E),
      x86emuOp_or_word_AX_IMM (emu_funcs E), x86emuOp_push_CS (emu_funcs E), x86emuOp_two_byte E,
      x86emuOp_adc_byte_RM_R (emu_funcs E), x86emuOp_adc_word_RM_R (emu_funcs E),
      x86emuOp_adc_byte_R_RM (emu_funcs E), x86emuOp_adc_word_R_RM (emu_funcs E),
      x86emuOp_adc_byte_AL_IMM (emu_funcs E), x86emuOp_adc_word_AX_IMM (emu_funcs E), x86emuOp_push_SS (emu_funcs E),
      x86emuOp_pop_SS (emu_funcs E), x86emuOp_sbb_byte_RM_R (emu_funcs E), x86emuOp_sbb_word_RM_R (emu_funcs E),
      x86emuOp_sbb_byte_R_RM (emu_funcs E), x86emuOp_sbb_word_R_RM (emu_funcs E),
      x86emuOp_sbb_byte_AL_IMM (emu_funcs E), x86emuOp_sbb_word_AX_IMM (emu_funcs E), x86emuOp_push_DS (emu_funcs E),
      x86emuOp_pop_DS (emu_funcs E), x86emuOp_and_byte_RM_R (emu_funcs E), x86emuOp_and_word_RM_R (emu_funcs E),
      x86emuOp_and_byte_R_RM (emu_funcs E), x86emuOp_and_word_R_RM (emu_funcs E),
      x86emuOp_and_byte_AL_IMM (emu_funcs E), x86emuOp_and_word_AX_IMM (emu_funcs E), x86emuOp_segovr_ES,
      x86emuOp_daa, x86emuOp_sub_byte_RM_R (emu_funcs E), x86emuOp_sub_word_RM_R (emu_funcs E),
      x86emuOp_sub_byte_R_RM (emu_funcs E), x86emuOp_sub_word_R_RM (emu_funcs E),
      x86emuOp_sub_byte_AL_IMM (emu_funcs E), x86emuOp_sub_word_AX_IMM (emu_funcs E), x86emuOp_segovr_CS,
      x86emuOp_das, x86emuOp_xor_byte_RM_R (emu_funcs E), x86emuOp_xor_word_RM_R (emu_funcs E),
      x86emuOp_xor_byte_R_RM (emu_funcs E), x86emuOp_xor_word_R_RM (emu_funcs E),
      x86emuOp_xor_byte_AL_IMM (emu_funcs E), x86emuOp_xor_word_AX_IMM (emu_funcs E), x86emuOp_segovr_SS,
      x86emuOp_aaa, x86emuOp_cmp_byte_RM_R (emu_funcs E), x86emuOp_cmp_word_RM_R (emu_funcs E),
      x86emuOp_cmp_byte_R_RM (emu_funcs E), x86emuOp_cmp_word_R_RM (emu_funcs E),
      x86emuOp_cmp_byte_AL_IMM (emu_funcs E), x86emuOp_cmp_word_AX_IMM (emu_funcs E), x86emuOp_segovr_DS,
      x86emuOp_aas, x86emuOp_inc_AX, x86emuOp_inc_CX, x86emuOp_inc_DX, x86emuOp_inc_BX, x86emuOp_inc_SP,
      x86emuOp_inc_BP, x86emuOp_inc_SI, x86emuOp_inc_DI, x86emuOp_dec_AX, x86emuOp_dec_CX, x86emuOp_dec_DX,
      x86emuOp_dec_BX, x86emuOp_dec_SP, x86emuOp_dec_BP, x86emuOp_dec_SI, x86emuOp_dec_DI,
      x86emuOp_push_AX (emu_funcs E), x86emuOp_push_CX (emu_funcs E), x86emuOp_push_DX (emu_funcs E),
      x86emuOp_push_BX (emu_funcs E), x86emuOp_push_SP (emu_funcs E), x86emuOp_push_BP (emu_funcs E),
      x86emuOp_push_SI (emu_funcs E), x86emuOp_push_DI (emu_funcs E), x86emuOp_pop_AX (emu_funcs E),
      x86emuOp_pop_CX (emu_funcs E), x86emuOp_pop_DX (emu_funcs E), x86emuOp_pop_BX (emu_funcs E),
      x86emuOp_pop_SP (emu_funcs E), x86emuOp_pop_BP (emu_funcs E), x86emuOp_pop_SI (emu_funcs E),
      x86emuOp_pop_DI (emu_funcs E), x86emuOp_push_all (emu_funcs E), x86emuOp_pop_all (emu_funcs E),
      x86emuOp_illegal_op, x86emuOp_illegal_op, x86emuOp_segovr_FS, x86emuOp_segovr_GS, x86emuOp_prefix_data,
      x86emuOp_prefix_addr, x86emuOp_push_word_IMM (emu_funcs E), x86emuOp_imul_word_IMM (emu_funcs E),
      x86emuOp_push_byte_IMM (emu_funcs E), x86emuOp_imul_byte_IMM (emu_funcs E), x86emuOp_ins_byte (emu_funcs E),
      x86emuOp_ins_word (emu_funcs E), x86emuOp_outs_byte (emu_funcs E), x86emuOp_outs_word (emu_funcs E),
      x86emuOp_jump_near_O (emu_funcs E), x86emuOp_jump_near_NO (emu_funcs E), x86emuOp_jump_near_B (emu_funcs E),
      x86emuOp_jump_near_NB (emu_funcs E), x86emuOp_jump_near_Z (emu_funcs E), x86emuOp_jump_near_NZ (emu_funcs E),
      x86emuOp_jump_near_BE (emu_funcs E), x86emuOp_jump_near_NBE (emu_funcs E), x86emuOp_jump_near_S (emu_funcs E),
      x86emuOp_jump_near_NS (emu_funcs E), x86emuOp_jump_near_P (emu_funcs E), x86emuOp_jump_near_NP (emu_funcs E),
      x86emuOp_jump_near_L (emu_funcs E), x86emuOp_jump_near_NL (emu_funcs E), x86emuOp_jump_near_LE (emu_funcs E),
      x86emuOp_jump_near_NLE (emu_funcs E), x86emuOp_opc80_byte_RM_IMM (emu_funcs E),
      x86emuOp_opc81_word_RM_IMM (emu_funcs E), x86emuOp_opc82_byte_RM_IMM (emu_funcs E),
      x86emuOp_opc83_word_RM_IMM (emu_funcs E), x86emuOp_test_byte_RM_R (emu_funcs E),
      x86emuOp_test_word_RM_R (emu_funcs E), x86emuOp_xchg_byte_RM_R (emu_funcs E),
      x86emuOp_xchg_word_RM_R (emu_funcs E), x86emuOp_mov_byte_RM_R (emu_funcs E),
      x86emuOp_mov_word_RM_R (emu_funcs E), x86emuOp_mov_byte_R_RM (emu_funcs E),
      x86emuOp_mov_word_R_RM (emu_funcs E), x86emuOp_mov_word_RM_SR (emu_funcs E),
      x86emuOp_lea_word_R_M (emu_funcs E), x86emuOp_mov_word_SR_RM (emu_funcs E), x86emuOp_pop_RM (emu_funcs E),
      x86emuOp_nop, x86emuOp_xchg_word_AX_CX, x86emuOp_xchg_word_AX_DX, x86emuOp_xchg_word_AX_BX,
      x86emuOp_xchg_word_AX_SP, x86emuOp_xchg_word_AX_BP, x86emuOp_xchg_word_AX_SI, x86emuOp_xchg_word_AX_DI,
      x86emuOp_cbw, x86emuOp_cwd, x86emuOp_call_far_IMM (emu_funcs E), x86emuOp_wait,
      x86emuOp_pushf_word (emu_funcs E), x86emuOp_popf_word (emu_funcs E), x86emuOp_sahf, x86emuOp_lahf,
      x86emuOp_mov_AL_M_IMM (emu_funcs E), x86emuOp_mov_AX_M_IMM (emu_funcs E), x86emuOp_mov_M_AL_IMM (emu_funcs E),
      x86emuOp_mov_M_AX_IMM (emu_funcs E), x86emuOp_movs_byte (emu_funcs E), x86emuOp_movs_word (emu_funcs E),
      x86emuOp_cmps_byte (emu_funcs E), x86emuOp_cmps_word (emu_funcs E), x86emuOp_test_AL_IMM (emu_funcs E),
      x86emuOp_test_AX_IMM (emu_funcs E), x86emuOp_stos_byte (emu_funcs E), x86emuOp_stos_word (emu_funcs E),
      x86emuOp_lods_byte (emu_funcs E), x86emuOp_lods_word (emu_funcs E), x86emuOp_scas_byte (emu_funcs E),
      x86emuOp_scas_word (emu_funcs E), x86emuOp_mov_byte_AL_IMM (emu_funcs E),
      x86emuOp_mov_byte_CL_IMM (emu_funcs E), x86emuOp_mov_byte_DL_IMM (emu_funcs E),
      x86emuOp_mov_byte_BL_IMM (emu_funcs E), x86emuOp_mov_byte_AH_IMM (emu_funcs E),
      x86emuOp_mov_byte_CH_IMM (emu_funcs E), x86emuOp_mov_byte_DH_IMM (emu_funcs E),
      x86emuOp_mov_byte_BH_IMM (emu_funcs E), x86emuOp_mov_word_AX_IMM (emu_funcs E),
      x86emuOp_mov_word_CX_IMM (emu_funcs E), x86emuOp_mov_word_DX_IMM (emu_funcs E),
      x86emuOp_mov_word_BX_IMM (emu_funcs E), x86emuOp_mov_word_SP_IMM (emu_funcs E),
      x86emuOp_mov_word_BP_IMM (emu_funcs E), x86emuOp_mov_word_SI_IMM (emu_funcs E),
      x86emuOp_mov_word_DI_IMM (emu_funcs E), x86emuOp_opcC0_byte_RM_MEM (emu_funcs E),
      x86emuOp_opcC1_word_RM_MEM (emu_funcs E), x86emuOp_ret_near_IMM (emu_funcs E), x86emuOp_ret_near (emu_funcs E),
      x86emuOp_les_R_IMM (emu_funcs E), x86emuOp_lds_R_IMM (emu_funcs E), x86emuOp_mov_byte_RM_IMM (emu_funcs E),
      x86emuOp_mov_word_RM_IMM (emu_funcs E), x86emuOp_enter (emu_funcs E), x86emuOp_leave (emu_funcs E),
      x86emuOp_ret_far_IMM (emu_funcs E), x86emuOp_ret_far (emu_funcs E), x86emuOp_int3 (emu_funcs E) (emu_intr E),
      x86emuOp_int_IMM (emu_funcs E) (emu_intr E), x86emuOp_into (emu_funcs E) (emu_intr E),
      x86emuOp_iret (emu_funcs E), x86emuOp_opcD0_byte_RM_1 (emu_funcs E), x86emuOp_opcD1_word_RM_1 (emu_funcs E),
      x86emuOp_opcD2_byte_RM_CL (emu_funcs E), x86emuOp_opcD3_word_RM_CL (emu_funcs E), x86emuOp_aam (emu_funcs E),
      x86emuOp_aad (emu_funcs E), x86emuOp_illegal_op, x86emuOp_xlat (emu_funcs E), x86emuOp_esc_coprocess_d8,
      x86emuOp_esc_coprocess_d9 (emu_funcs E), x86emuOp_esc_coprocess_da (emu_funcs E),
      x86emuOp_esc_coprocess_db (emu_funcs E), x86emuOp_esc_coprocess_dc (emu_funcs E),
      x86emuOp_esc_coprocess_dd (emu_funcs E), x86emuOp_esc_coprocess_de (emu_funcs E),
      x86emuOp_esc_coprocess_df (emu_funcs E), x86emuOp_loopne (emu_funcs E), x86emuOp_loope (emu_funcs E),
      x86emuOp_loop (emu_funcs E), x86emuOp_jcxz (emu_funcs E), x86emuOp_in_byte_AL_IMM (emu_funcs E),
      x86emuOp_in_word_AX_IMM (emu_funcs E), x86emuOp_out_byte_IMM_AL (emu_funcs E),
      x86emuOp_out_word_IMM_AX (emu_funcs E), x86emuOp_call_near_IMM (emu_funcs E),
      x86emuOp_jump_near_IMM (emu_funcs E), x86emuOp_jump_far_IMM (emu_funcs E), x86emuOp_jump_byte_IMM (emu_funcs E),
      x86emuOp_in_byte_AL_DX (emu_funcs E), x86emuOp_in_word_AX_DX (emu_funcs E),
      x86emuOp_out_byte_DX_AL (emu_funcs E), x86emuOp_out_word_DX_AX (emu_funcs E), x86emuOp_lock,
      x86emuOp_illegal_op, x86emuOp_repne, x86emuOp_repe, x86emuOp_halt, x86emuOp_cmc,
      x86emuOp_opcF6_byte_RM (emu_funcs E), x86emuOp_opcF7_word_RM (emu_funcs E) (emu_oob E), x86emuOp_clc,
      x86emuOp_stc, x86emuOp_cli, x86emuOp_sti, x86emuOp_cld, x86emuOp_std, x86emuOp_opcFE_byte_RM (emu_funcs E),
      x86emuOp_opcFF_word_RM (emu_funcs E)]"

section \<open>The main loop\<close>

definition DEBUG_EXIT :: u32 where "DEBUG_EXIT = 0x010000"

text \<open>
  What happens to a pending interrupt before the fetch: it is handled if it is a synchronous one with
  number 0 or 2, or if interrupts are disabled.
\<close>

definition exec_pending :: "'m emu_env \<Rightarrow> 'm X86EMU \<Rightarrow> 'm X86EMU option" where
  "exec_pending E M =
     (if x86_intr (x86 M) \<noteq> 0
         \<and> (x86_intr (x86 M) AND INTR_SYNCH \<noteq> 0 \<and> (x86_intno (x86 M) = 0 \<or> x86_intno (x86 M) = 2)
            \<or> \<not> ACCESS_FLAG F_IF (x86 M))
      then x86emu_intr_handle (emu_funcs E) (emu_intr E) M else Some M)"

text \<open>\<open>op1 = (*sys_rdb)(\<dots> R_IP++); (*x86emu_optab[op1])(op1)\<close>\<close>

definition exec_instr :: "'m emu_env \<Rightarrow> 'm X86EMU \<Rightarrow> 'm X86EMU option" where
  "exec_instr E M =
     (let ip = R_IP (x86 M)
      in do { (op1, M) \<leftarrow> sys_rdb (emu_funcs E) (seg_addr (R_CS (x86 M)) (ucast ip)) (regs (set_IP (ip + 1)) M);
              (x86emu_optab E ! unat op1) M })"

text \<open>One round of the loop of \<open>X86EMU_exec\<close>: \<open>Halt M\<close> if it returns, \<open>Next M\<close> if it goes on.\<close>

datatype 'm round_result = Halt "'m X86EMU" | Next "'m X86EMU"

definition exec_round :: "'m emu_env \<Rightarrow> 'm X86EMU \<Rightarrow> 'm round_result option" where
  "exec_round E M =
     (if x86_intr (x86 M) AND INTR_HALTED \<noteq> 0 then Some (Halt M)
      else do { M \<leftarrow> exec_pending E M;
                M \<leftarrow> exec_instr E M;
                if x86_debug (x86 M) AND DEBUG_EXIT \<noteq> 0
                then Some (Halt (regs (\<lambda>st. st\<lparr> x86_debug := x86_debug st AND NOT DEBUG_EXIT \<rparr>) M))
                else Some (Next M) })"

partial_function (option) exec_loop :: "'m emu_env \<Rightarrow> 'm X86EMU \<Rightarrow> 'm X86EMU option" where
  "exec_loop E M =
     do { r \<leftarrow> exec_round E M;
          case r of Halt M \<Rightarrow> Some M | Next M \<Rightarrow> exec_loop E M }"

definition X86EMU_exec :: "'m emu_env \<Rightarrow> 'm X86EMU \<Rightarrow> 'm X86EMU option" where
  "X86EMU_exec E M = exec_loop E (regs (\<lambda>st. st\<lparr> x86_intr := 0 \<rparr>) M)"

end
