(* ===== verification/X86Safe.thy ===== *)
theory X86Safe
  imports X86Exec X86Stack
begin

unbundle bit_operations_syntax

text \<open>
  Memory safety of the instruction handlers: with the default memory functions on a block that covers
  real mode, and without an address size prefix, a handler returns and keeps the block. The rules
  follow the structure of the handlers: one for each access to memory, one for each operand pattern.
\<close>

section \<open>Returning on the block\<close>

definition block :: "u8 list X86EMU \<Rightarrow> bool" where
  "block M \<longleftrightarrow> real_mode_block (emu_mem M)"

definition returns :: "u8 list X86EMU option \<Rightarrow> bool" where
  "returns r \<longleftrightarrow> (\<exists>M. r = Some M \<and> block M)"

definition gives :: "('a \<Rightarrow> bool) \<Rightarrow> ('a \<times> u8 list X86EMU) option \<Rightarrow> bool" where
  "gives P r \<longleftrightarrow> (\<exists>v M. r = Some (v, M) \<and> P v \<and> block M)"

named_theorems safe_simps
named_theorems safe_rules

lemma block_keep [safe_simps]:
  "block (regs f M) = block M" "block (M\<lparr> x86 := st \<rparr>) = block M" "block (X86EMU_halt_sys M) = block M"
  "block (use_stack_segment M) = block M" "block (add_mode b M) = block M" "block (clear_mode b M) = block M"
  "block (add_SI i M) = block M" "block (add_DI i M) = block M" "block (dec_CX M) = block M"
  "block (DECODE_CLEAR_SEGOVR M) = block M" "block (halt_unless_0 r M) = block M"
  by (simp_all add: block_def regs_def X86EMU_halt_sys_def use_stack_segment_def add_mode_def clear_mode_def
      add_SI_def add_DI_def dec_CX_def DECODE_CLEAR_SEGOVR_def halt_unless_0_def)

lemma returns_Some [safe_simps]: "returns (Some M) = block M"
  by (simp add: returns_def)

lemma gives_Some [safe_simps]: "gives P (Some (v, M)) = (P v \<and> block M)"
  by (simp add: gives_def)

lemma returns_bind [safe_rules]:
  "returns r \<Longrightarrow> (\<And>M. block M \<Longrightarrow> returns (k M)) \<Longrightarrow> returns (Option.bind r k)"
  by (auto simp: returns_def)

lemma returns_bind_gives:
  "gives P r \<Longrightarrow> (\<And>v M. P v \<Longrightarrow> block M \<Longrightarrow> returns (k (v, M))) \<Longrightarrow> returns (Option.bind r k)"
  by (auto simp: returns_def gives_def)

lemma gives_bind_gives:
  "gives P r \<Longrightarrow> (\<And>v M. P v \<Longrightarrow> block M \<Longrightarrow> gives Q (k (v, M))) \<Longrightarrow> gives Q (Option.bind r k)"
  by (auto simp: gives_def)

lemma gives_bind [safe_rules]:
  "returns r \<Longrightarrow> (\<And>M. block M \<Longrightarrow> gives Q (k M)) \<Longrightarrow> gives Q (Option.bind r k)"
  by (auto simp: gives_def returns_def)

section \<open>Memory\<close>

abbreviation (input) any :: "'a \<Rightarrow> bool" where "any \<equiv> \<lambda>_. True"

lemma block_length: "block M \<Longrightarrow> 0x110000 \<le> length (emu_mem M) \<and> length (emu_mem M) < 2 ^ 64"
  by (simp add: block_def real_mode_block_def)

text \<open>Linear addresses below the last three bytes of the block.\<close>

definition inside :: "u32 \<Rightarrow> bool" where "inside a \<longleftrightarrow> unat a < 0x10FFFD"

lemma inside_at:
  assumes "block M" "inside a"
  shows "byte_at (emu_mem M) a \<noteq> None" "word_at (emu_mem M) a \<noteq> None" "long_at (emu_mem M) a \<noteq> None"
  using block_length[OF assms(1)] assms(2) by (auto simp: byte_at_def word_at_def long_at_def inside_def)

lemma read_safe:
  assumes "block M" "inside a"
  shows "gives any (rdb a M)" "gives any (rdw a M)" "gives any (rdl a M)"
  using inside_at[OF assms] byte_mem.rd_cell[of M a] word_mem.rd_cell[of M a] long_mem.rd_cell[of M a] assms(1)
  by (auto simp: gives_def)

lemma wrl_length: "wrl a v M = Some M' \<Longrightarrow> length (emu_mem M') = length (emu_mem M)"
  by (auto simp: wrl_def Let_def X86EMU_halt_sys_def regs_def split: if_splits)

lemma write_safe:
  assumes "block M" "inside a"
  shows "returns (wrb a v M)" "returns (wrw a w M)" "returns (wrl a x M)"
proof -
  obtain m where "wrb a v M = Some (M\<lparr> emu_mem := m \<rparr>)"
    using byte_mem.wr_cell[OF inside_at(1)[OF assms]] by blast
  with wrb_length[OF this] assms(1) show "returns (wrb a v M)"
    by (simp add: returns_def block_def real_mode_block_def)
  obtain m where "wrw a w M = Some (M\<lparr> emu_mem := m \<rparr>)"
    using word_mem.wr_cell[OF inside_at(2)[OF assms]] by blast
  with wrw_length[OF this] assms(1) show "returns (wrw a w M)"
    by (simp add: returns_def block_def real_mode_block_def)
  obtain m where "wrl a x M = Some (M\<lparr> emu_mem := m \<rparr>)"
    using long_mem.wr_cell[OF inside_at(3)[OF assms]] by blast
  with wrl_length[OF this] assms(1) show "returns (wrl a x M)"
    by (simp add: returns_def block_def real_mode_block_def)
qed

lemma default_funs [safe_simps]:
  "sys_rdb default_funcs = rdb" "sys_rdw default_funcs = rdw" "sys_rdl default_funcs = rdl"
  "sys_wrb default_funcs = wrb" "sys_wrw default_funcs = wrw" "sys_wrl default_funcs = wrl"
  "sys_inb default_funcs = p_inb" "sys_inw default_funcs = p_inw" "sys_inl default_funcs = p_inl"
  "sys_outb default_funcs = p_outb" "sys_outw default_funcs = p_outw" "sys_outl default_funcs = p_outl"
  by (simp_all add: default_funcs_def)

lemma inside_seg [safe_simps]: "inside (seg_addr s (ucast (p :: u16)))"
proof -
  have "unat s < 65536" "unat p < 65536"
    using unsigned_less[of s, where ?'a = nat] unsigned_less[of p, where ?'a = nat] by simp_all
  then show ?thesis by (simp add: inside_def unat_seg_addr)
qed

text \<open>Offsets inside the 64K of a segment, and at most four past it, as far pointers reach.\<close>

definition near :: "u32 \<Rightarrow> bool" where "near off \<longleftrightarrow> unat off < 0x10000"

definition reach :: "u32 \<Rightarrow> bool" where "reach off \<longleftrightarrow> unat off < 0x10005"

lemma near_reach [safe_simps]: "near off \<Longrightarrow> reach off" "near off \<Longrightarrow> reach (off + 2)" "near off \<Longrightarrow> reach (off + 4)"
  by (simp_all add: near_def reach_def unat_word_ariths)

lemma near_ucast [safe_simps]: "near (ucast (p :: u16))" "near (ucast (q :: u8))"
  using unsigned_less[of p, where ?'a = nat] unsigned_less[of q, where ?'a = nat]
  by (simp_all add: near_def unsigned_ucast_eq take_bit_nat_eq_self)

lemma near_and [safe_simps]: "near (a AND 0xFFFF)"
proof -
  have "a AND 0xFFFF = take_bit 16 a" by (simp add: byte_mask take_bit_eq_mask)
  then show ?thesis using take_bit_nat_less_exp[of 16 "unat a"] by (simp add: near_def unsigned_take_bit_eq)
qed

lemma data_segment:
  obtains s M' where "get_data_segment M = (ucast (s :: u16), M')" "emu_mem M' = emu_mem M"
proof -
  have "(0 :: u32) \<in> range (ucast :: u16 \<Rightarrow> u32)" by (rule range_eqI[of _ _ 0]) simp
  then have "fst (get_data_segment M) \<in> range (ucast :: u16 \<Rightarrow> u32)"
    by (simp add: get_data_segment_def Let_def)
  moreover have "emu_mem (snd (get_data_segment M)) = emu_mem M"
    by (simp add: get_data_segment_def Let_def X86EMU_halt_sys_def)
  ultimately show ?thesis using that by (metis imageE prod.collapse)
qed

lemma inside_data:
  assumes "reach off"
  shows "inside (push_bit 4 (ucast (s :: u16)) + off)"
proof -
  have "unat s < 65536" using unsigned_less[of s, where ?'a = nat] by simp
  moreover have "unat (push_bit 4 (ucast s) :: u32) = unat s * 16"
    using calculation by (simp add: push_bit_eq_mult unat_word_ariths unat_up)
  ultimately show ?thesis
    using assms by (simp add: inside_def reach_def unat_word_ariths)
qed

lemma data_safe [safe_rules]:
  assumes "block M" "reach off"
  shows "gives any (fetch_data_byte default_funcs off M)" "gives any (fetch_data_word default_funcs off M)"
    "gives any (fetch_data_long default_funcs off M)" "returns (store_data_byte default_funcs off v M)"
    "returns (store_data_word default_funcs off w M)" "returns (store_data_long default_funcs off x M)"
proof -
  obtain s M' where s: "get_data_segment M = (ucast (s :: u16), M')" "emu_mem M' = emu_mem M"
    by (rule data_segment)
  have M': "block M'" using assms(1) s(2) by (simp add: block_def)
  have 0: "inside (push_bit 4 (ucast s) + off)" by (rule inside_data[OF assms(2)])
  show "gives any (fetch_data_byte default_funcs off M)" "gives any (fetch_data_word default_funcs off M)"
    "gives any (fetch_data_long default_funcs off M)" "returns (store_data_byte default_funcs off v M)"
    "returns (store_data_word default_funcs off w M)" "returns (store_data_long default_funcs off x M)"
    by (simp_all add: fetch_data_byte_def fetch_data_word_def fetch_data_long_def store_data_byte_def
        store_data_word_def store_data_long_def s(1) safe_simps read_safe[OF M' 0] write_safe[OF M' 0])
qed

lemma abs_safe [safe_rules]:
  fixes p :: u16
  assumes "block M"
  shows "gives any (fetch_data_byte_abs default_funcs s (ucast p) M)"
    "gives any (fetch_data_word_abs default_funcs s (ucast p) M)"
    "gives any (fetch_data_long_abs default_funcs s (ucast p) M)"
    "returns (store_data_byte_abs default_funcs s (ucast p) v M)"
    "returns (store_data_word_abs default_funcs s (ucast p) w M)"
    "returns (store_data_long_abs default_funcs s (ucast p) x M)"
  using assms
  by (simp_all add: fetch_data_byte_abs_def fetch_data_word_abs_def fetch_data_long_abs_def
      store_data_byte_abs_def store_data_word_abs_def store_data_long_abs_def safe_simps read_safe write_safe)

text \<open>A read whose result is wrapped.\<close>

lemma gives_map:
  assumes "gives any r" "\<And>v M. block M \<Longrightarrow> P (f v) \<and> block (g M)"
  shows "gives P (do { (v, M) \<leftarrow> r; Some (f v, g M) })"
  by (rule gives_bind_gives[OF assms(1)]) (use assms(2) in \<open>simp add: safe_simps\<close>)

lemma imm_safe [safe_rules]:
  assumes "block M"
  shows "gives any (fetch_byte_imm default_funcs M)" "gives any (fetch_word_imm default_funcs M)"
    "gives any (fetch_long_imm default_funcs M)"
  using assms unfolding fetch_byte_imm_def fetch_word_imm_def fetch_long_imm_def Let_def
  by (auto simp: safe_simps intro!: read_safe gives_map[where f = "\<lambda>v. v"])

lemma stack_safe [safe_rules]:
  assumes "block M"
  shows "returns (push_word default_funcs w M)" "returns (push_long default_funcs x M)"
    "gives any (pop_word default_funcs M)" "gives any (pop_long default_funcs M)"
  using assms unfolding push_word_def push_long_def pop_word_def pop_long_def Let_def
  by (auto simp: safe_simps intro!: read_safe write_safe gives_map[where f = "\<lambda>v. v"])

lemma port_safe [safe_rules]:
  assumes "block M"
  shows "gives any (p_inb a M)" "gives any (p_inw a M)" "gives any (p_inl a M)"
    "returns (p_outb a v M)" "returns (p_outw a w M)" "returns (p_outl a x M)"
  using assms by (simp_all add: p_inb_def p_inw_def p_inl_def p_outb_def p_outw_def p_outl_def safe_simps)

section \<open>Operands\<close>

lemma and_small: "unat ((b :: u8) AND 0x03) < 4" "unat (b AND 0x07) < 8"
proof -
  have "b AND 0x03 = take_bit 2 b" "b AND 0x07 = take_bit 3 b"
    by (simp_all add: take_bit_eq_mask mask_eq_exp_minus_1)
  then show "unat (b AND 0x03) < 4" "unat (b AND 0x07) < 8"
    using take_bit_nat_less_exp[of 2 "unat b"] take_bit_nat_less_exp[of 3 "unat b"]
    by (simp_all add: unsigned_take_bit_eq)
qed

lemma modrm_safe:
  assumes "block M"
  shows "gives (\<lambda>(md, rh, rl). md < 4 \<and> rh < 8 \<and> rl < 8) (fetch_decode_modrm default_funcs M)"
  using assms unfolding fetch_decode_modrm_def Let_def
  by (auto simp: safe_simps and_small intro!: gives_bind_gives[OF read_safe(1)])

lemma nat_less_8: "(r :: nat) < 8 \<longleftrightarrow> r \<in> {0, 1, 2, 3, 4, 5, 6, 7}"
  by auto

text \<open>A register field below 8 names a register; the machine is not touched.\<close>

lemma reg_total:
  assumes "r < 8"
  shows "\<exists>x. reg_ref width8 r M = Some (x, M)" "\<exists>x. reg_ref width16 r M = Some (x, M)"
    "\<exists>x. reg_ref width32 r M = Some (x, M)"
  using assms unfolding nat_less_8
  by (auto simp: reg_ref_def width8_def width16_def width32_def decode_rm_byte_register_def
      decode_rm_word_register_def decode_rm_long_register_def)

lemma reg_safe [safe_rules]:
  assumes "r < 8" "block M"
  shows "gives any (reg_ref width8 r M)" "gives any (reg_ref width16 r M)" "gives any (reg_ref width32 r M)"
  using reg_total[OF assms(1), of M] assms(2) by (auto simp: gives_def)

text \<open>On the block an immediate fetch only moves IP.\<close>

lemma imm_exact:
  assumes "block M"
  shows "\<exists>b. fetch_byte_imm default_funcs M = Some (b, regs (\<lambda>st. set_IP (R_IP st + 1) st) M)"
    "\<exists>w. fetch_word_imm default_funcs M = Some (w, regs (\<lambda>st. set_IP (R_IP st + 2) st) M)"
    "\<exists>x. fetch_long_imm default_funcs M = Some (x, regs (\<lambda>st. set_IP (R_IP st + 4) st) M)"
proof -
  let ?a = "seg_addr (R_CS (x86 M)) (ucast (R_IP (x86 M)))"
  note at = inside_at[OF assms inside_seg, of "R_CS (x86 M)" "R_IP (x86 M)"]
  have "block (regs (set_IP (R_IP (x86 M) + 1)) M)" using assms by (simp add: safe_simps)
  note at1 = inside_at(1)[OF this inside_seg, of "R_CS (x86 M)" "R_IP (x86 M)"]
  show "\<exists>b. fetch_byte_imm default_funcs M = Some (b, regs (\<lambda>st. set_IP (R_IP st + 1) st) M)"
    using at1 byte_mem.rd_cell[of "regs (set_IP (R_IP (x86 M) + 1)) M" ?a]
    by (auto simp: fetch_byte_imm_def Let_def safe_simps regs_def)
  show "\<exists>w. fetch_word_imm default_funcs M = Some (w, regs (\<lambda>st. set_IP (R_IP st + 2) st) M)"
    using at(2) word_mem.rd_cell[of M ?a] by (auto simp: fetch_word_imm_def safe_simps)
  show "\<exists>x. fetch_long_imm default_funcs M = Some (x, regs (\<lambda>st. set_IP (R_IP st + 4) st) M)"
    using at(3) long_mem.rd_cell[of M ?a] by (auto simp: fetch_long_imm_def safe_simps)
qed

lemma addr32_keep [simp]: "addr32 (set_IP v st) = addr32 st"
  by (simp add: addr32_def set_IP_def)

lemma near_0 [safe_simps]: "near 0"
  by (simp add: near_def)

lemma address_safe:
  assumes "block M" "\<not> addr32 (x86 M)"
  shows "gives near (rm_address default_funcs md rl M)"
proof -
  obtain b where b: "fetch_byte_imm default_funcs M = Some (b, regs (\<lambda>st. set_IP (R_IP st + 1) st) M)"
    using imm_exact(1)[OF assms(1)] by blast
  obtain w where w: "fetch_word_imm default_funcs M = Some (w, regs (\<lambda>st. set_IP (R_IP st + 2) st) M)"
    using imm_exact(2)[OF assms(1)] by blast
  have "gives near (decode_rm00_address default_funcs rl M)"
    using assms unfolding decode_rm00_address_def Let_def by (simp add: w safe_simps)
  moreover have "gives near (decode_rm01_address default_funcs rl M)"
    using assms unfolding decode_rm01_address_def Let_def by (simp add: b safe_simps)
  moreover have "gives near (decode_rm10_address default_funcs rl M)"
    using assms unfolding decode_rm10_address_def Let_def by (simp add: w safe_simps)
  ultimately show ?thesis by (simp add: rm_address_def)
qed

section \<open>The frame of a handler\<close>

lemma returns_instr [safe_simps]: "returns (instr body M) = returns (body M)"
  by (cases "body M") (auto simp: instr_def returns_def safe_simps)

lemma modrm_exact:
  assumes "block M"
  shows "\<exists>md rh rl. fetch_decode_modrm default_funcs M = Some ((md, rh, rl), regs (\<lambda>st. set_IP (R_IP st + 1) st) M)
    \<and> md < 4 \<and> rh < 8 \<and> rl < 8"
proof -
  obtain b where "fetch_byte_imm default_funcs M = Some (b, regs (\<lambda>st. set_IP (R_IP st + 1) st) M)"
    using imm_exact(1)[OF assms] by blast
  then show ?thesis
    by (auto simp: fetch_byte_imm_def fetch_decode_modrm_def Let_def and_small)
qed

text \<open>The machine and the fields with which a handler body starts.\<close>

definition ready :: "nat \<Rightarrow> nat \<Rightarrow> u8 list X86EMU \<Rightarrow> bool" where
  "ready rh rl M \<longleftrightarrow> block M \<and> \<not> addr32 (x86 M) \<and> rh < 8 \<and> rl < 8"

lemma with_modrm_safe [safe_rules]:
  assumes "block M" "\<not> addr32 (x86 M)" "\<And>md rh rl M. ready rh rl M \<Longrightarrow> returns (body md rh rl M)"
  shows "returns (with_modrm default_funcs body M)"
proof -
  obtain md rh rl where m: "fetch_decode_modrm default_funcs M
      = Some ((md, rh, rl), regs (\<lambda>st. set_IP (R_IP st + 1) st) M)" "rh < 8" "rl < 8"
    using modrm_exact[OF assms(1)] by blast
  then have "ready rh rl (regs (\<lambda>st. set_IP (R_IP st + 1) st) M)"
    using assms(1,2) by (simp add: ready_def safe_simps)
  from assms(3)[OF this] show ?thesis by (simp add: with_modrm_def safe_simps m(1))
qed

lemma by_size_safe [safe_simps]:
  "returns (by_size long word md rh rl M) = (if data32 M then returns (long md rh rl M) else returns (word md rh rl M))"
  by (simp add: by_size_def)

lemma sized_imm_safe [safe_rules]: "block M \<Longrightarrow> gives any (fetch_sized_imm default_funcs M)"
  unfolding fetch_sized_imm_def by (auto intro!: imm_safe gives_map[where g = "\<lambda>M. M"])

lemma sbyte_safe [safe_rules]: "block M \<Longrightarrow> gives any (fetch_sbyte default_funcs M)"
  unfolding fetch_sbyte_def by (auto intro!: imm_safe gives_map[where g = "\<lambda>M. M"])

section \<open>Operand patterns\<close>

text \<open>
  What the patterns need from a width: a register field names a register, and the operand of an
  address below 64K and the immediate can be accessed.
\<close>

locale safe_width =
  fixes W :: "('r, 'v, u8 list) width"
  assumes field: "r < 8 \<Longrightarrow> \<exists>x. \<forall>M. reg_ref W r M = Some (x, M)"
    and fetch: "block M \<Longrightarrow> near off \<Longrightarrow> gives any (w_fetch W default_funcs off M)"
    and store: "block M \<Longrightarrow> near off \<Longrightarrow> returns (w_store W default_funcs off v M)"
    and imm: "block M \<Longrightarrow> gives any (w_imm W default_funcs M)"
begin

lemmas access = returns_bind_gives[OF address_safe] returns_bind_gives[OF fetch] returns_bind_gives[OF imm]
  returns_bind store

lemma fields:
  assumes "ready rh rl M"
  obtains x y where "\<And>M. reg_ref W rh M = Some (x, M)" "\<And>M. reg_ref W rl M = Some (y, M)"
    "block M" "\<not> addr32 (x86 M)" "rh < 8" "rl < 8"
  using assms field[of rh] field[of rl] unfolding ready_def by metis

lemma op_RM_R: "ready rh rl M \<Longrightarrow> returns (op_RM_R W f default_funcs md rh rl M)"
  by (erule fields) (auto simp: op_RM_R_def safe_simps split: prod.split intro!: access)

lemma op_R_RM: "ready rh rl M \<Longrightarrow> returns (op_R_RM W f default_funcs md rh rl M)"
  by (erule fields) (auto simp: op_R_RM_def safe_simps split: prod.split intro!: access)

lemma flags_RM_R: "ready rh rl M \<Longrightarrow> returns (flags_RM_R W g default_funcs md rh rl M)"
  by (erule fields) (auto simp: flags_RM_R_def safe_simps split: prod.split intro!: access)

lemma flags_R_RM: "ready rh rl M \<Longrightarrow> returns (flags_R_RM W g default_funcs md rh rl M)"
  by (erule fields) (auto simp: flags_R_RM_def safe_simps split: prod.split intro!: access)

lemma xchg_RM_R: "ready rh rl M \<Longrightarrow> returns (xchg_RM_R W default_funcs md rh rl M)"
  by (erule fields) (auto simp: xchg_RM_R_def Let_def safe_simps split: prod.split intro!: access)

lemma mov_RM_R: "ready rh rl M \<Longrightarrow> returns (mov_RM_R W default_funcs md rh rl M)"
  by (erule fields) (auto simp: mov_RM_R_def Let_def safe_simps split: prod.split intro!: access)

lemma mov_R_RM: "ready rh rl M \<Longrightarrow> returns (mov_R_RM W default_funcs md rh rl M)"
  by (erule fields) (auto simp: mov_R_RM_def Let_def safe_simps split: prod.split intro!: access)

lemma mov_RM_IMM: "ready rh rl M \<Longrightarrow> returns (mov_RM_IMM W default_funcs md rh' rl M)"
  by (erule fields) (auto simp: mov_RM_IMM_def Let_def safe_simps split: prod.split intro!: access)

lemma op_group:
  assumes "\<And>M. block M \<Longrightarrow> gives any (fetch_imm M)"
  shows "ready rh rl M \<Longrightarrow> returns (op_group W ops fetch_imm default_funcs md rh rl M)"
  by (erule fields)
    (auto simp: op_group_def Let_def safe_simps split: prod.split intro!: access returns_bind_gives[OF assms])

lemma pop_to:
  assumes "\<And>M. block M \<Longrightarrow> gives any (pop M)"
  shows "ready rh rl M \<Longrightarrow> returns (pop_to W pop default_funcs md rh' rl M)"
  by (erule fields)
    (auto simp: pop_to_def Let_def safe_simps split: prod.split intro!: access returns_bind_gives[OF assms])

lemma rm_update: "ready rh rl M \<Longrightarrow> returns (rm_update W f' default_funcs md rl M)"
  by (erule fields) (auto simp: rm_update_def Let_def safe_simps split: prod.split intro!: access)

lemma rm_test: "ready rh rl M \<Longrightarrow> returns (rm_test W g default_funcs md rl M)"
  by (erule fields) (auto simp: rm_test_def Let_def safe_simps split: prod.split intro!: access)

lemma rm_use:
  assumes "\<And>v st. f v st \<noteq> None"
  shows "ready rh rl M \<Longrightarrow> returns (rm_use W f default_funcs md rl M)"
proof (erule fields)
  fix x y
  assume xy: "\<And>M. reg_ref W rh M = Some (x, M)" "\<And>M. reg_ref W rl M = Some (y, M)"
    and M: "block M" "\<not> addr32 (x86 M)"
  have "block M \<Longrightarrow> returns (do { st \<leftarrow> f v (x86 M); Some (M\<lparr> x86 := st \<rparr>) })" for v M
    using assms[of v "x86 M"] by (auto simp: safe_simps)
  then show "returns (rm_use W f default_funcs md rl M)"
    using M by (auto simp: rm_use_def xy intro!: access)
qed

lemma imul_imm:
  assumes "\<And>M. block M \<Longrightarrow> gives any (fetch_imm M)"
  shows "ready rh rl M \<Longrightarrow> returns (imul_imm W f fetch_imm default_funcs md rh rl M)"
  by (erule fields)
    (auto simp: imul_imm_def Let_def safe_simps split: prod.split intro!: access returns_bind_gives[OF assms])

end

interpretation safe8: safe_width width8
  by unfold_locales (auto simp: width8_def nat_less_8 reg_ref_def decode_rm_byte_register_def intro!: data_safe imm_safe near_reach)

interpretation safe16: safe_width width16
  by unfold_locales (auto simp: width16_def nat_less_8 reg_ref_def decode_rm_word_register_def intro!: data_safe imm_safe near_reach)

interpretation safe32: safe_width width32
  by unfold_locales (auto simp: width32_def nat_less_8 reg_ref_def decode_rm_long_register_def intro!: data_safe imm_safe near_reach)

section \<open>Handlers\<close>

definition safe_handler :: "(u8 list X86EMU \<Rightarrow> u8 list X86EMU option) \<Rightarrow> bool" where
  "safe_handler h \<longleftrightarrow> (\<forall>M. block M \<longrightarrow> \<not> addr32 (x86 M) \<longrightarrow> returns (h M))"

lemma safe_handlerI: "(\<And>M. block M \<Longrightarrow> \<not> addr32 (x86 M) \<Longrightarrow> returns (h M)) \<Longrightarrow> safe_handler h"
  by (simp add: safe_handler_def)

lemma safe_modrm: "(\<And>md rh rl M. ready rh rl M \<Longrightarrow> returns (b md rh rl M)) \<Longrightarrow> safe_handler (with_modrm default_funcs b)"
  by (auto simp: safe_handler_def intro: with_modrm_safe)

lemma safe_sized:
  assumes "\<And>md rh rl M. ready rh rl M \<Longrightarrow> returns (l md rh rl M)" "\<And>md rh rl M. ready rh rl M \<Longrightarrow> returns (w md rh rl M)"
  shows "safe_handler (with_modrm default_funcs (by_size l w))"
  by (rule safe_modrm) (simp add: safe_simps assms)

lemmas safe_patterns =
  safe8.op_RM_R safe8.op_R_RM safe8.flags_RM_R safe8.flags_R_RM safe8.xchg_RM_R safe8.mov_RM_R safe8.mov_R_RM
  safe8.mov_RM_IMM safe8.op_group safe8.rm_update safe8.rm_test
  safe16.op_RM_R safe16.op_R_RM safe16.flags_RM_R safe16.flags_R_RM safe16.xchg_RM_R safe16.mov_RM_R safe16.mov_R_RM
  safe16.mov_RM_IMM safe16.op_group safe16.pop_to safe16.rm_update safe16.rm_test safe16.imul_imm
  safe32.op_RM_R safe32.op_R_RM safe32.flags_RM_R safe32.flags_R_RM safe32.xchg_RM_R safe32.mov_RM_R safe32.mov_R_RM
  safe32.mov_RM_IMM safe32.op_group safe32.pop_to safe32.rm_update safe32.rm_test safe32.imul_imm

lemmas safe_binds = returns_bind_gives[OF imm_safe(1)] returns_bind_gives[OF imm_safe(2)]
  returns_bind_gives[OF imm_safe(3)] returns_bind_gives[OF sized_imm_safe] returns_bind_gives[OF sbyte_safe]
  returns_bind_gives[OF stack_safe(3)] returns_bind_gives[OF stack_safe(4)]
  returns_bind_gives[OF data_safe(1)] returns_bind_gives[OF data_safe(2)] returns_bind_gives[OF data_safe(3)]
  returns_bind_gives[OF abs_safe(1)] returns_bind_gives[OF abs_safe(2)] returns_bind_gives[OF abs_safe(3)]
  returns_bind_gives[OF port_safe(1)] returns_bind_gives[OF port_safe(2)] returns_bind_gives[OF port_safe(3)]
  returns_bind

lemmas safe_writes = stack_safe(1,2) data_safe(4-6) abs_safe(4-6) port_safe(4-6)

text \<open>The patterns without a ModRM byte.\<close>

lemma part_safe:
  assumes "block M"
  shows "returns (op_AL_IMM f8 default_funcs M)" "returns (op_AX_IMM f32 f16 default_funcs M)"
    "returns (flags_AX_IMM g32 g16 default_funcs M)" "returns (op_reg r32 h32 r16 h16 M)"
    "returns (push_reg default_funcs r32 r16 M)" "returns (pop_reg default_funcs r32 r16 M)"
    "returns (pop_into default_funcs r16 M)" "returns (pop_into32 default_funcs r32 M)"
    "returns (xchg_acc r32 r16 M)" "returns (mov_reg8_imm default_funcs r8 M)"
    "returns (mov_reg_imm default_funcs r32 r16 M)" "returns (in_acc default_funcs a M)"
    "returns (out_acc default_funcs a M)" "returns (pop_ip default_funcs M)" "returns (pop_cs_ip default_funcs M)"
    "returns (enter_level default_funcs M)"
  using assms
  unfolding op_AL_IMM_def op_AX_IMM_def flags_AX_IMM_def op_reg_def push_reg_def pop_reg_def pop_into_def
    pop_into32_def xchg_acc_def mov_reg8_imm_def mov_reg_imm_def in_acc_def out_acc_def pop_ip_def pop_cs_ip_def
    enter_level_def Let_def
  by (auto simp: safe_simps intro!: safe_binds safe_writes)

lemma vector_safe: "block M \<Longrightarrow> unat a < 0x402 \<Longrightarrow> gives any (mem_access_word default_funcs a M)"
  by (auto simp: mem_access_word_def safe_simps inside_def intro!: read_safe)

lemma soft_int_safe:
  assumes "block M"
  shows "returns (soft_int default_funcs (\<lambda>_. None) n M)"
proof -
  have "unat n < 256" using unsigned_less[of n, where ?'a = nat] by simp
  then have "unat (ucast n * 4 + 2 :: u32) < 0x402" "unat (ucast n * 4 :: u32) < 0x402"
    by (simp_all add: unat_word_ariths unat_up)
  then show ?thesis
    using assms unfolding soft_int_def Let_def
    by (auto simp: safe_simps intro!: returns_bind_gives[OF vector_safe] returns_bind stack_safe)
qed

lemma count_loop_safe:
  assumes "\<And>M. block M \<Longrightarrow> returns (step M)"
  shows "block M \<Longrightarrow> returns (count_loop step n M)"
proof (induction n arbitrary: M)
  case (Suc n)
  then show ?case by (auto intro!: returns_bind assms)
qed (simp add: safe_simps)

lemma take_count_block [safe_simps]: "block (snd (take_count M)) = block M"
  by (simp add: take_count_def safe_simps)

lemma far_safe: "ready rh rl M \<Longrightarrow> returns (load_far seg default_funcs md rh rl M)"
  by (erule safe16.fields)
    (auto simp: load_far_def Let_def safe_simps
      intro!: returns_bind_gives[OF address_safe] safe_binds)

section \<open>String instructions\<close>

text \<open>A step of a loop that counts CX down returns and leaves CX one less.\<close>

locale counted_step =
  fixes step :: "u8 list X86EMU \<Rightarrow> u8 list X86EMU option"
  assumes counts: "block M \<Longrightarrow> \<exists>M'. step M = Some M' \<and> block M' \<and> R_CX (x86 M') = R_CX (x86 M) - 1"
begin

lemma returns_cx_loop: "block M \<Longrightarrow> returns (cx_loop step stop M)"
proof (induction "unat (R_CX (x86 M))" arbitrary: M rule: less_induct)
  case less
  show ?case
  proof (cases "R_CX (x86 M) = 0")
    case False
    obtain M' where M': "step M = Some M'" "block M'" "R_CX (x86 M') = R_CX (x86 M) - 1"
      using counts[OF less.prems] by blast
    have "unat (R_CX (x86 M')) < unat (R_CX (x86 M))"
      using False by (simp add: M'(3) unat_minus_one unat_gt_0)
    then have "returns (cx_loop step stop M')" by (rule less.hyps) (rule M'(2))
    then show ?thesis using M'(1,2) False by (subst cx_loop.simps) (simp add: safe_simps)
  qed (use less.prems in \<open>simp add: cx_loop.simps safe_simps\<close>)
qed

end

lemma cx_simps [simp]:
  "R_CX (set_CX v st) = v" "R_CX (set_DI w st) = R_CX st" "R_CX (set_SI w st) = R_CX st"
  "R_CX (set_AL b st) = R_CX st" "R_CX (st\<lparr> x86_intr := i \<rparr>) = R_CX st"
  by (simp_all add: R_CX_def set_CX_def set_DI_def set_SI_def set_AL_def)

lemma cx_machine [simp]:
  "R_CX (x86 (dec_CX M)) = R_CX (x86 M) - 1" "R_CX (x86 (add_SI i M)) = R_CX (x86 M)"
  "R_CX (x86 (add_DI i M)) = R_CX (x86 M)" "R_CX (x86 (X86EMU_halt_sys M)) = R_CX (x86 M)"
  by (simp_all add: dec_CX_def add_SI_def add_DI_def X86EMU_halt_sys_def)

lemma cx_compare [simp]:
  "R_CX (cmp_flags cmp_byte a b st) = R_CX st" "R_CX (cmp_flags cmp_word c d st) = R_CX st"
  "R_CX (cmp_flags cmp_long e f st) = R_CX st"
proof -
  have "flags_frame 0x8D5 st (snd (cmp_byte a b st))" "flags_frame 0x8D5 st (snd (cmp_word c d st))"
    "flags_frame 0x8D5 st (snd (cmp_long e f st))"
    using cmp_byte_spec[of a b st] cmp_word_spec[of c d st] cmp_long_spec[of e f st]
    by (auto simp: cmp_spec_def sub_spec_def split: prod.splits)
  then show "R_CX (cmp_flags cmp_byte a b st) = R_CX st" "R_CX (cmp_flags cmp_word c d st) = R_CX st"
    "R_CX (cmp_flags cmp_long e f st) = R_CX st"
    by (simp_all add: cmp_flags_def R_CX_def flags_frame_regs)
qed

text \<open>The body of a string instruction returns and leaves CX alone.\<close>

definition keeps_cx :: "(u8 list X86EMU \<Rightarrow> u8 list X86EMU option) \<Rightarrow> bool" where
  "keeps_cx body \<longleftrightarrow> (\<forall>M. block M \<longrightarrow> (\<exists>M'. body M = Some M' \<and> block M' \<and> R_CX (x86 M') = R_CX (x86 M)))"

lemma memory_cx:
  "rdb a M = Some (v, M') \<Longrightarrow> R_CX (x86 M') = R_CX (x86 M)"
  "rdw a M = Some (w, M') \<Longrightarrow> R_CX (x86 M') = R_CX (x86 M)"
  "rdl a M = Some (x, M') \<Longrightarrow> R_CX (x86 M') = R_CX (x86 M)"
  "wrb a v M = Some M' \<Longrightarrow> R_CX (x86 M') = R_CX (x86 M)"
  by (auto simp: rdb_def rdw_def rdl_def wrb_def Let_def split: if_splits)

lemma segment_cx: "R_CX (x86 (snd (get_data_segment M))) = R_CX (x86 M)"
  by (simp add: get_data_segment_def Let_def)

lemma data_cx:
  "fetch_data_byte default_funcs off M = Some (v, M') \<Longrightarrow> R_CX (x86 M') = R_CX (x86 M)"
  "fetch_data_word default_funcs off M = Some (w, M') \<Longrightarrow> R_CX (x86 M') = R_CX (x86 M)"
  "fetch_data_long default_funcs off M = Some (x, M') \<Longrightarrow> R_CX (x86 M') = R_CX (x86 M)"
  using segment_cx[of M]
  by (auto simp: fetch_data_byte_def fetch_data_word_def fetch_data_long_def safe_simps
      split: prod.splits dest!: memory_cx)

lemma abs_cx:
  "fetch_data_byte_abs default_funcs s off M = Some (v, M') \<Longrightarrow> R_CX (x86 M') = R_CX (x86 M)"
  "fetch_data_word_abs default_funcs s off M = Some (w, M') \<Longrightarrow> R_CX (x86 M') = R_CX (x86 M)"
  "fetch_data_long_abs default_funcs s off M = Some (x, M') \<Longrightarrow> R_CX (x86 M') = R_CX (x86 M)"
  "store_data_byte_abs default_funcs s off v M = Some M' \<Longrightarrow> R_CX (x86 M') = R_CX (x86 M)"
  by (auto simp: fetch_data_byte_abs_def fetch_data_word_abs_def fetch_data_long_abs_def
      store_data_byte_abs_def safe_simps dest: memory_cx)

lemma keeps_cxI:
  assumes "\<And>M. block M \<Longrightarrow> returns (body M)" "\<And>M M'. body M = Some M' \<Longrightarrow> R_CX (x86 M') = R_CX (x86 M)"
  shows "keeps_cx body"
  using assms unfolding keeps_cx_def returns_def by blast

lemma bodies_keep_cx:
  "keeps_cx (stos_step8 default_funcs)" "keeps_cx (lods_step8 default_funcs)"
  "keeps_cx (cmps_body8 default_funcs)" "keeps_cx (cmps_body default_funcs)"
  "keeps_cx (scas_body8 default_funcs)" "keeps_cx (scas_body default_funcs)"
  unfolding stos_step8_def lods_step8_def cmps_body8_def cmps_body_def scas_body8_def scas_body_def
  by (rule keeps_cxI; auto simp: safe_simps bind_eq_Some split: if_splits intro!: safe_binds safe_writes
      dest!: data_cx abs_cx)+

lemma keeps_cx_counts:
  assumes "keeps_cx body" "\<And>M. block (move M) = block M" "\<And>M. R_CX (x86 (move M)) = R_CX (x86 M)"
  shows "counted_step (\<lambda>M. do { M \<leftarrow> body M; Some (move (dec_CX M)) })"
  by unfold_locales (use assms in \<open>force simp: keeps_cx_def safe_simps\<close>)

lemma keeps_cx_returns: "keeps_cx body \<Longrightarrow> block M \<Longrightarrow> returns (body M)"
  by (auto simp: keeps_cx_def returns_def)

lemma rep_branches_safe:
  assumes "keeps_cx body" "\<And>M. block (move M) = block M" "\<And>M. R_CX (x86 (move M)) = R_CX (x86 M)" "block M"
  shows "returns (rep_branches stop_e stop_ne body move M)"
  using counted_step.returns_cx_loop[OF keeps_cx_counts[OF assms(1-3)]] keeps_cx_returns[OF assms(1)] assms(2,4)
  by (auto simp: rep_branches_def Let_def safe_simps intro!: returns_bind)

text \<open>The interface on the loops of the byte fills and loads.\<close>

interpretation stos_loop: counted_step "\<lambda>M. do { M \<leftarrow> stos_step8 default_funcs M; Some (add_DI inc (dec_CX M)) }"
  for inc by (rule keeps_cx_counts[OF bodies_keep_cx(1)]) (simp_all add: safe_simps)

interpretation lods_loop: counted_step "\<lambda>M. do { M \<leftarrow> lods_step8 default_funcs M; Some (add_SI inc (dec_CX M)) }"
  for inc by (rule keeps_cx_counts[OF bodies_keep_cx(2)]) (simp_all add: safe_simps)

lemma transfer_safe:
  "block M \<Longrightarrow> returns (ins_transfer default_funcs n M)" "block M \<Longrightarrow> returns (outs_transfer default_funcs n M)"
  unfolding ins_transfer_def outs_transfer_def by (auto simp: safe_simps intro!: safe_binds safe_writes)

lemma io_safe:
  assumes "block M"
  shows "returns (ins default_funcs n M)" "returns (outs default_funcs n M)"
proof -
  have "block M \<Longrightarrow> returns (ins_loop default_funcs n i k M)" for i k M
    by (induction k arbitrary: M) (auto simp: safe_simps intro!: returns_bind transfer_safe)
  then show "returns (ins default_funcs n M)"
    using assms unfolding ins_def Let_def by (auto simp: safe_simps intro!: returns_bind transfer_safe)
  have "block M \<Longrightarrow> returns (outs_loop default_funcs n i k M)" for i k M
    by (induction k arbitrary: M) (auto simp: safe_simps intro!: returns_bind transfer_safe)
  then show "returns (outs default_funcs n M)"
    using assms unfolding outs_def Let_def by (auto simp: safe_simps intro!: returns_bind transfer_safe)
qed

lemma steps_safe:
  assumes "block M"
  shows "returns (movs_step8 default_funcs i M)" "returns (movs_step default_funcs i M)"
    "returns (stos_step default_funcs i M)" "returns (lods_step default_funcs i M)"
  using assms unfolding movs_step8_def movs_step_def stos_step_def lods_step_def
  by (auto simp: safe_simps intro!: safe_binds safe_writes)

lemma string_safe:
  assumes "block M"
  shows "returns (x86emuOp_ins_byte default_funcs M)" "returns (x86emuOp_ins_word default_funcs M)"
    "returns (x86emuOp_outs_byte default_funcs M)" "returns (x86emuOp_outs_word default_funcs M)"
    "returns (x86emuOp_movs_byte default_funcs M)" "returns (x86emuOp_movs_word default_funcs M)"
    "returns (x86emuOp_stos_byte default_funcs M)" "returns (x86emuOp_stos_word default_funcs M)"
    "returns (x86emuOp_lods_byte default_funcs M)" "returns (x86emuOp_lods_word default_funcs M)"
    "returns (x86emuOp_cmps_byte default_funcs M)" "returns (x86emuOp_cmps_word default_funcs M)"
    "returns (x86emuOp_scas_byte default_funcs M)" "returns (x86emuOp_scas_word default_funcs M)"
  using assms unfolding string_handlers Let_def
  by (auto simp: safe_simps case_prod_beta
      intro!: io_safe count_loop_safe steps_safe rep_branches_safe bodies_keep_cx returns_bind
        stos_loop.returns_cx_loop lods_loop.returns_cx_loop keeps_cx_returns[OF bodies_keep_cx(1)]
        keeps_cx_returns[OF bodies_keep_cx(2)])

section \<open>The opcode table\<close>

lemma ready_halt [safe_simps]: "ready rh rl (halt_unless_0 r M) = ready rh rl M"
  by (simp add: ready_def safe_simps) (simp add: halt_unless_0_def X86EMU_halt_sys_def addr32_def)

lemma FF_safe:
  assumes "block M"
  shows "near off \<Longrightarrow> returns (opcFF_mem default_funcs rh off M)" "rl < 8 \<Longrightarrow> returns (opcFF_reg default_funcs rh rl M)"
proof -
  show "near off \<Longrightarrow> returns (opcFF_mem default_funcs rh off M)"
    using assms unfolding opcFF_mem_def Let_def
    by (auto simp: safe_simps intro!: safe_binds safe_writes)
  assume "rl < 8"
  then obtain x y where "\<forall>M :: u8 list X86EMU. reg_ref width16 rl M = Some (x, M)"
      "\<forall>M :: u8 list X86EMU. reg_ref width32 rl M = Some (y, M)"
    using safe16.field safe32.field by meson
  then show "returns (opcFF_reg default_funcs rh rl M)"
    using assms unfolding opcFF_reg_def Let_def
    by (auto simp: safe_simps intro!: safe_binds safe_writes)
qed

lemma operand_safe:
  assumes "ready rh rl M"
  shows "gives near (rm_address default_funcs md rl M)" "rl < 8" "block M" "\<not> addr32 (x86 M)"
  using assms by (auto simp: ready_def intro: address_safe)

lemma lea_safe: "safe_handler (x86emuOp_lea_word_R_M default_funcs)"
  unfolding move_handlers
proof (rule safe_modrm)
  fix md rh rl M
  assume r: "ready rh rl M"
  from r obtain x where "\<And>M :: u8 list X86EMU. reg_ref width16 rh M = Some (x, M)"
    by (rule safe16.fields) blast
  then show "returns (if md < 3 then if addr32 (x86 M) then
        do { (srcreg, M) \<leftarrow> reg_ref width32 rh M; (destoffset, M) \<leftarrow> rm_address default_funcs md rl M;
             Some (regs (set32 srcreg destoffset) M) }
      else do { (srcreg, M) \<leftarrow> reg_ref width16 rh M; (destoffset, M) \<leftarrow> rm_address default_funcs md rl M;
             Some (regs (set16 srcreg (ucast destoffset)) M) }
      else Some M)"
    using r by (auto simp: operand_safe safe_simps intro!: returns_bind_gives[OF operand_safe(1)])
qed

lemma group_safe:
  "safe_handler (x86emuOp_opcF6_byte_RM default_funcs)" "safe_handler (x86emuOp_opcFE_byte_RM default_funcs)"
  "safe_handler (x86emuOp_opcFF_word_RM default_funcs)"
  unfolding group_handlers
  by (auto simp: safe_simps operand_safe(3) intro!: safe_modrm safe_patterns safe8.rm_use
      returns_bind_gives[OF operand_safe(1)] safe_binds safe_writes FF_safe operand_safe(2) split: prod.split)

end
