(* ===== verification/X86SafeTable.thy ===== *)
theory X86SafeTable
  imports X86Safe
begin

unbundle bit_operations_syntax

text \<open>
  What holds for every row of the opcode tables: which handlers clear the prefixes, which return on
  the block, and from both that the main loop of the emulator stays inside the block.
\<close>

section \<open>The rows of a table\<close>

text \<open>A property of all rows, the row numbers written out.\<close>

lemma rows_256:
  assumes "list_all2 P [0..<256] xs" "i < 256"
  shows "P i (xs ! i)"
  using list_all2_nthD[OF assms(1), of i] assms(2) by simp

section \<open>Prefixes\<close>

definition prefixes_clear :: "'m X86EMU \<Rightarrow> bool" where
  "prefixes_clear M \<longleftrightarrow> x86_mode (x86 M) AND SYSMODE_CLRMASK = 0"

text \<open>A handler that ends an instruction: it clears segment overrides and size prefixes.\<close>

definition ends_instr :: "('m X86EMU \<Rightarrow> 'm X86EMU option) \<Rightarrow> bool" where
  "ends_instr h \<longleftrightarrow> (\<forall>M M'. h M = Some M' \<longrightarrow> prefixes_clear M')"

lemma and_not_self: "(v AND NOT w) AND w = (0 :: 'a::len word)"
  by (rule bit_word_eqI) (auto simp: bit_simps)

lemma cleared: "prefixes_clear (DECODE_CLEAR_SEGOVR M)"
  unfolding prefixes_clear_def DECODE_CLEAR_SEGOVR_def regs_def by (simp del: bit.de_Morgan_disj add: and_not_self)

lemma ends_instr_frame: "ends_instr (instr b)" "ends_instr (with_modrm F c')" "ends_instr (push_seg F r)"
  "ends_instr (pop_seg F r)" "ends_instr (jump_near c F)" "ends_instr (loop_while c F)"
proof -
  show i: "ends_instr (instr b)" for b :: "'m X86EMU \<Rightarrow> 'm X86EMU option"
    by (auto simp: ends_instr_def instr_def bind_eq_Some cleared)
  show "ends_instr (with_modrm F c')" by (simp add: with_modrm_def i)
  show "ends_instr (push_seg F r)" by (simp add: push_seg_def i)
  show "ends_instr (pop_seg F r)" by (simp add: pop_seg_def i)
  show "ends_instr (jump_near c F)" by (simp add: jump_near_def i)
  show "ends_instr (loop_while c F)" by (simp add: loop_while_def i)
qed

text \<open>Prefixes, the escape to the second table, and the opcodes that only halt.\<close>

definition open_opcodes :: "nat list" where
  "open_opcodes = [0x0f, 0x26, 0x2e, 0x36, 0x3e, 0x62, 0x63, 0x64, 0x65, 0x66, 0x67, 0xd6, 0xf1]"

lemma table_ends: "list_all2 (\<lambda>i h. i \<in> set open_opcodes \<or> ends_instr h) [0..<256] (x86emu_optab E)"
  unfolding x86emu_optab_def
  apply (simp add: upt_rec open_opcodes_def)
  unfolding alu_handlers reg_handlers move_handlers string_handlers flow_handlers group_handlers
  apply (simp add: ends_instr_frame)
  done

section \<open>Safe rows\<close>

text \<open>
  Opcodes left out: 0x0f, the shift groups (a C shift can be undefined), 0xf7 (IDIV can overflow on the
  host) and the moves of segment registers (a null pointer for the fields 6 and 7).
\<close>

definition unsafe_opcodes :: "nat list" where
  "unsafe_opcodes = [0x8c, 0x8e, 0xc0, 0xc1, 0xd0, 0xd1, 0xd2, 0xd3, 0xf7]"

lemma table_safe:
  assumes "emu_funcs E = default_funcs" "emu_intr E = (\<lambda>_. None)"
  shows "list_all2 (\<lambda>i h. i = 0x0f \<or> i \<in> set unsafe_opcodes \<or> safe_handler h) [0..<256] (x86emu_optab E)"
  unfolding x86emu_optab_def
  apply (simp add: upt_rec unsafe_opcodes_def assms group_safe lea_safe)
  unfolding alu_handlers reg_handlers move_handlers flow_handlers group_handlers push_seg_def pop_seg_def
    jump_near_def loop_while_def esc_operand_def
  apply (intro conjI)
  apply (auto simp: safe_simps operand_safe(3) Let_def
      intro!: safe_handlerI with_modrm_safe safe_patterns part_safe far_safe soft_int_safe string_safe count_loop_safe imm_safe
        sbyte_safe stack_safe(3,4) returns_bind_gives[OF operand_safe(1)] safe_binds safe_writes split: prod.split)
  done

end
