(* ===== verification/X86SafeExec.thy ===== *)
theory X86SafeExec
  imports X86SafeTable
begin

unbundle bit_operations_syntax

text \<open>
  The second opcode table, and what the rows of both tables give for the main loop: on the block it
  faults only at an opcode that is listed here, and stays in 16 bit addressing.
\<close>

section \<open>The second table\<close>

lemma ready_halted [safe_simps]: "ready rh rl (X86EMU_halt_sys M) = ready rh rl M"
  by (simp add: ready_def safe_simps) (simp add: X86EMU_halt_sys_def addr32_def)

text \<open>
  The second table: runs of illegal opcodes, conditional jumps, byte sets and byte swaps, and the rows
  from 0xa0 to 0xbf, which differ.
\<close>

lemma rows_split:
  "[0..<256] = [0..<49] @ [49] @ [50..<128] @ [128..<144] @ [144..<160] @ [160..<192] @ [192..<200] @ [200..<208] @ [208..<256]"
  by code_simp

lemma rows_replicate: "(\<And>i. P i h) \<Longrightarrow> length is = n \<Longrightarrow> list_all2 P is (replicate n h)"
  by (auto simp: list_all2_conv_all_nth)

lemma set_byte_ends: "ends_instr (x86emuOp2_set_byte F b)"
  using ends_instr_frame(2) by (auto simp: ends_instr_def x86emuOp2_set_byte_def Let_def)

lemma table2_ends: "list_all (\<lambda>h. h = x86emuOp2_illegal_op \<or> ends_instr h) (x86emu_optab2 E b)"
  unfolding x86emu_optab2_def
  by (simp add: list_all_length[of _ "replicate _ _"] set_byte_ends) (simp add: op2_handlers ends_instr_frame)

text \<open>
  In the second table: the bit tests with the number in a register, whose address moves by up to 4K on
  either side of the segment, and the left double shifts.
\<close>

definition unsafe_opcodes2 :: "nat list" where
  "unsafe_opcodes2 = [0xa3, 0xa4, 0xa5, 0xab, 0xb3, 0xbb]"

text \<open>The operand patterns of the second table.\<close>

lemma btX_safe:
  assumes "safe_width W" "ready rh rl M"
  shows "returns (btX W k default_funcs md rh rl M)"
  using assms(2)
  by (rule safe_width.fields[OF assms(1)])
    (auto simp: btX_def Let_def safe_simps split: option.split
      intro!: safe_width.access[OF assms(1)] safe_binds)

lemma bit_scan_safe:
  assumes "safe_width W" "ready rh rl M"
  shows "returns (bit_scan W scan default_funcs md rh rl M)"
  using assms(2)
proof (rule safe_width.fields[OF assms(1)])
  fix x y
  assume xy: "\<And>M. reg_ref W rh M = Some (x, M)" "\<And>M. reg_ref W rl M = Some (y, M)" "block M" "\<not> addr32 (x86 M)"
  then show ?thesis
    by (auto simp: bit_scan_def Let_def safe_simps intro!: safe_width.access[OF assms(1)])
qed

lemma double_shift_safe:
  assumes "safe_width W" "\<And>d f s st. g d f s st \<noteq> None" "\<And>M. block M \<Longrightarrow> gives any (amount M)" "ready rh rl M"
  shows "returns (double_shift W g amount now default_funcs md rh rl M)"
  using assms(4)
proof (rule safe_width.fields[OF assms(1)])
  fix x y
  assume xy: "\<And>M. reg_ref W rh M = Some (x, M)" "\<And>M. reg_ref W rl M = Some (y, M)" "block M" "\<not> addr32 (x86 M)"
  have m: "near off \<Longrightarrow> block M \<Longrightarrow> returns (do { (v, st) \<leftarrow> g d f s st; w_store W default_funcs off v (M\<lparr> x86 := st \<rparr>) })"
    and r: "block M \<Longrightarrow> returns (do { (v, st) \<leftarrow> g d f s st; Some (M\<lparr> x86 := w_put W y v st \<rparr>) })" for off d f s st M
    using assms(2)[of d f s st] by (auto simp: safe_simps intro!: safe_width.store[OF assms(1)])
  from xy show ?thesis
    by (auto simp: double_shift_def safe_simps
      intro!: returns_bind_gives[OF address_safe] returns_bind_gives[OF assms(3)]
        returns_bind_gives[OF safe_width.fetch[OF assms(1)]] m r)
qed

lemma mov_extend_safe:
  assumes "safe_width W" "safe_width S" "ready rh rl M"
  shows "returns (mov_extend W S ext default_funcs md rh rl M)"
proof -
  obtain x where "\<forall>M. reg_ref W rh M = Some (x, M)"
    using assms(3) safe_width.field[OF assms(1)] unfolding ready_def by blast
  moreover obtain y where "\<forall>M. reg_ref S rl M = Some (y, M)"
    using assms(3) safe_width.field[OF assms(2)] unfolding ready_def by blast
  ultimately show ?thesis
    using assms(3) by (auto simp: mov_extend_def safe_simps operand_safe(3,4)
      intro!: returns_bind_gives[OF operand_safe(1)] safe_width.access[OF assms(2)])
qed

lemmas widths_safe = safe8.safe_width_axioms safe16.safe_width_axioms safe32.safe_width_axioms

lemma table2_safe:
  assumes "emu_funcs E = default_funcs"
  shows "list_all2 (\<lambda>i h. i \<in> set unsafe_opcodes2 \<or> safe_handler h) [0..<256] (x86emu_optab2 E b)"
proof -
  have ill: "safe_handler x86emuOp2_illegal_op"
    by (simp add: safe_handler_def x86emuOp2_illegal_op_def safe_simps)
  have jmp: "safe_handler (x86emuOp2_long_jump default_funcs b)"
    unfolding op2_handlers by (auto simp: safe_simps Let_def intro!: safe_handlerI safe_binds)
  have set: "safe_handler (x86emuOp2_set_byte default_funcs b)"
    unfolding x86emuOp2_set_byte_def Let_def
    by (auto simp: safe_simps operand_safe(3) intro!: safe_handlerI with_modrm_safe
        returns_bind_gives[OF operand_safe(1)] returns_bind_gives[OF reg_safe(1)] operand_safe(2) safe_writes)
  have swap: "safe_handler (x86emuOp2_bswap b)"
    unfolding op2_handlers by (auto simp: safe_simps Let_def intro!: safe_handlerI)
  show ?thesis
    unfolding x86emu_optab2_def rows_split assms
  proof (intro list_all2_appendI)
    show "list_all2 (\<lambda>i h. i \<in> set unsafe_opcodes2 \<or> safe_handler h) [49] [x86emuOp2_rdtsc]"
      by (simp add: op2_handlers) (simp add: safe_handler_def safe_simps)
  next
    show "list_all2 (\<lambda>i h. i \<in> set unsafe_opcodes2 \<or> safe_handler h) [160..<192] [
      x86emuOp2_push_FS default_funcs, x86emuOp2_pop_FS default_funcs, x86emuOp2_cpuid, x86emuOp2_bt_R default_funcs,
      x86emuOp2_shld_IMM default_funcs, x86emuOp2_shld_CL default_funcs, x86emuOp2_illegal_op, x86emuOp2_illegal_op,
      x86emuOp2_push_GS default_funcs, x86emuOp2_pop_GS default_funcs, x86emuOp2_illegal_op,
      x86emuOp2_bts_R default_funcs, x86emuOp2_shrd_IMM default_funcs, x86emuOp2_shrd_CL default_funcs,
      x86emuOp2_illegal_op, x86emuOp2_imul_R_RM default_funcs, x86emuOp2_illegal_op, x86emuOp2_illegal_op,
      x86emuOp2_lss_R_IMM default_funcs, x86emuOp2_btr_R default_funcs, x86emuOp2_lfs_R_IMM default_funcs,
      x86emuOp2_lgs_R_IMM default_funcs, x86emuOp2_movzx_byte_R_RM default_funcs,
      x86emuOp2_movzx_word_R_RM default_funcs, x86emuOp2_illegal_op, x86emuOp2_illegal_op,
      x86emuOp2_btX_I default_funcs, x86emuOp2_btc_R default_funcs, x86emuOp2_bsf default_funcs,
      x86emuOp2_bsr default_funcs, x86emuOp2_movsx_byte_R_RM default_funcs, x86emuOp2_movsx_word_R_RM default_funcs]"
      apply (simp add: upt_rec unsafe_opcodes2_def ill)
      unfolding op2_handlers push_seg_def pop_seg_def by_imm_def by_CL_def
      apply (intro conjI)
      apply (auto simp: safe_simps operand_safe(3)
        intro!: safe_handlerI with_modrm_safe safe_patterns far_safe stack_safe btX_safe bit_scan_safe
          double_shift_safe mov_extend_safe widths_safe imm_safe safe_binds)
      done
  qed (rule rows_replicate; simp add: ill jmp set swap)+
qed

section \<open>One instruction\<close>

text \<open>The byte of the instruction stream \<open>k\<close> places after CS:IP.\<close>

definition code_byte :: "u16 \<Rightarrow> u8 list X86EMU \<Rightarrow> u8" where
  "code_byte k M = emu_mem M ! unat (seg_addr (R_CS (x86 M)) (ucast (R_IP (x86 M) + k)))"

lemma fetch_code:
  assumes "block M"
  shows "rdb (seg_addr (R_CS (x86 M)) (ucast (R_IP (x86 M) + k))) (regs f M) = Some (code_byte k M, regs f M)"
proof (rule byte_mem.rd_cell)
  show "byte_at (emu_mem (regs f M)) (seg_addr (R_CS (x86 M)) (ucast (R_IP (x86 M) + k))) = Some (code_byte k M)"
    using inside_at(1)[OF assms inside_seg, of "R_CS (x86 M)" "R_IP (x86 M) + k"]
    by (auto simp: byte_at_def code_byte_def split: if_splits)
qed

definition safe_code :: "u8 list X86EMU \<Rightarrow> bool" where
  "safe_code M \<longleftrightarrow>
     (if code_byte 0 M = 0x0f then unat (code_byte 1 M) \<notin> set unsafe_opcodes2
      else unat (code_byte 0 M) \<notin> set unsafe_opcodes)"

lemma byte_row: "unat (b :: u8) < 256"
  using unsigned_less[of b, where ?'a = nat] by simp

text \<open>No handler but the one of the address size prefix turns 32 bit addressing on.\<close>

definition keeps_16 :: "('m X86EMU \<Rightarrow> 'm X86EMU option) \<Rightarrow> bool" where
  "keeps_16 h \<longleftrightarrow> (\<forall>M M'. h M = Some M' \<longrightarrow> \<not> addr32 (x86 M) \<longrightarrow> \<not> addr32 (x86 M'))"

lemma clrmask_bits: "SYSMODE_PREFIX_ADDR AND SYSMODE_CLRMASK = SYSMODE_PREFIX_ADDR"
  "SYSMODE_PREFIX_DATA AND SYSMODE_CLRMASK = SYSMODE_PREFIX_DATA"
  by (simp_all add: SYSMODE_CLRMASK_def SYSMODE_PREFIX_ADDR_def SYSMODE_PREFIX_DATA_def SYSMODE_SEG_DS_SS_def
      SYSMODE_SEGOVR_CS_def SYSMODE_SEGOVR_DS_def SYSMODE_SEGOVR_ES_def SYSMODE_SEGOVR_FS_def
      SYSMODE_SEGOVR_GS_def SYSMODE_SEGOVR_SS_def)

lemma clear_bit: "prefixes_clear M \<Longrightarrow> b AND SYSMODE_CLRMASK = b \<Longrightarrow> x86_mode (x86 M) AND b = 0"
  proof -
  assume "prefixes_clear M" "b AND SYSMODE_CLRMASK = b"
  then show ?thesis using and.left_commute[of "x86_mode (x86 M)" b SYSMODE_CLRMASK]
    by (simp add: prefixes_clear_def)
qed

lemma clear_not_addr32: "prefixes_clear M \<Longrightarrow> \<not> addr32 (x86 M)"
  using clear_bit[OF _ clrmask_bits(1)] by (simp add: addr32_def)

lemma clear_not_data32: "prefixes_clear M \<Longrightarrow> \<not> data32 M"
  using clear_bit[OF _ clrmask_bits(2)] by (simp add: data32_def)

lemma ends_keeps_16: "ends_instr h \<Longrightarrow> keeps_16 h"
  by (auto simp: ends_instr_def keeps_16_def dest: clear_not_addr32)

lemma halt_keeps_16: "keeps_16 x86emuOp_illegal_op" "keeps_16 x86emuOp2_illegal_op"
  by (auto simp: keeps_16_def x86emuOp_illegal_op_def x86emuOp2_illegal_op_def X86EMU_halt_sys_def addr32_def)

lemma mode_keeps_16:
  assumes "b AND SYSMODE_PREFIX_ADDR = 0"
  shows "keeps_16 (\<lambda>M. Some (add_mode b M))"
  using assms by (auto simp: keeps_16_def add_mode_def addr32_def bit.conj_disj_distrib2)

lemma prefix_keeps_16:
  "keeps_16 x86emuOp_segovr_ES" "keeps_16 x86emuOp_segovr_CS" "keeps_16 x86emuOp_segovr_SS"
  "keeps_16 x86emuOp_segovr_DS" "keeps_16 x86emuOp_segovr_FS" "keeps_16 x86emuOp_segovr_GS"
  "keeps_16 x86emuOp_prefix_data"
  unfolding x86emuOp_segovr_ES_def[abs_def] x86emuOp_segovr_CS_def[abs_def] x86emuOp_segovr_SS_def[abs_def]
    x86emuOp_segovr_DS_def[abs_def] x86emuOp_segovr_FS_def[abs_def] x86emuOp_segovr_GS_def[abs_def]
    x86emuOp_prefix_data_def[abs_def]
  by (rule mode_keeps_16; simp add: SYSMODE_PREFIX_ADDR_def SYSMODE_PREFIX_DATA_def SYSMODE_SEGOVR_CS_def
      SYSMODE_SEGOVR_DS_def SYSMODE_SEGOVR_ES_def SYSMODE_SEGOVR_FS_def SYSMODE_SEGOVR_GS_def SYSMODE_SEGOVR_SS_def)+

lemma row_keeps_16:
  assumes "i < 256" "i \<noteq> 0x0f" "i \<noteq> 0x67"
  shows "keeps_16 (x86emu_optab E ! i)"
proof (cases "i \<in> set open_opcodes")
  case True
  then have "i \<in> {0x26, 0x2e, 0x36, 0x3e, 0x62, 0x63, 0x64, 0x65, 0x66, 0xd6, 0xf1}"
    using assms(2,3) by (simp add: open_opcodes_def)
  then show ?thesis
    by (auto simp: x86emu_optab_def prefix_keeps_16 halt_keeps_16)
next
  case False
  then show ?thesis using rows_256[OF table_ends assms(1), of E] by (simp add: ends_keeps_16)
qed

lemma row2_keeps_16: "i < 256 \<Longrightarrow> keeps_16 (x86emu_optab2 E b ! i)"
proof -
  assume "i < 256"
  moreover have "length (x86emu_optab2 E b) = 256" by (simp add: x86emu_optab2_def)
  ultimately show ?thesis
    using table2_ends[of E b] halt_keeps_16(2) by (auto simp: list_all_length ends_keeps_16)
qed

text \<open>A client machine: the default memory and port functions and no installed interrupt handlers.\<close>

definition plain_env :: "u8 list emu_env \<Rightarrow> bool" where
  "plain_env E \<longleftrightarrow> emu_funcs E = default_funcs \<and> emu_intr E = (\<lambda>_. None)"

lemma two_byte_safe:
  assumes "plain_env E" "block M" "\<not> addr32 (x86 M)" "unat (code_byte 0 M) \<notin> set unsafe_opcodes2"
  shows "\<exists>M'. x86emuOp_two_byte E M = Some M' \<and> block M' \<and> \<not> addr32 (x86 M')"
proof -
  let ?b = "code_byte 0 M" and ?M = "regs (set_IP (R_IP (x86 M) + 1)) M"
  have F: "emu_funcs E = default_funcs" using assms(1) by (simp add: plain_env_def)
  have "safe_handler (x86emu_optab2 E ?b ! unat ?b)"
    using rows_256[OF table2_safe[OF F] byte_row, of ?b ?b] assms(4) by simp
  moreover have "\<not> addr32 (x86 ?M)" "block ?M" using assms by (simp_all add: safe_simps)
  ultimately obtain M' where M': "(x86emu_optab2 E ?b ! unat ?b) ?M = Some M'" "block M'"
    unfolding safe_handler_def returns_def by blast
  then have "\<not> addr32 (x86 M')"
    using row2_keeps_16[OF byte_row, of E ?b ?b] \<open>\<not> addr32 (x86 ?M)\<close> unfolding keeps_16_def by blast
  moreover have "x86emuOp_two_byte E M = Some M'"
    using M'(1) fetch_code[OF assms(2), of 0] by (simp add: x86emuOp_two_byte_def Let_def F safe_simps)
  ultimately show ?thesis using M'(2) by blast
qed

lemma exec_instr_lemma:
  assumes "plain_env E" "block M" "\<not> addr32 (x86 M)" "safe_code M"
  shows "\<exists>M'. exec_instr E M = Some M' \<and> block M' \<and> (code_byte 0 M \<noteq> 0x67 \<longrightarrow> \<not> addr32 (x86 M'))"
proof -
  let ?b = "code_byte 0 M" and ?M = "regs (set_IP (R_IP (x86 M) + 1)) M"
  have F: "emu_funcs E = default_funcs" using assms(1) by (simp add: plain_env_def)
  have M: "\<not> addr32 (x86 ?M)" "block ?M" using assms by (simp_all add: safe_simps)
  have instr: "exec_instr E M = (x86emu_optab E ! unat ?b) ?M"
    using fetch_code[OF assms(2), of 0] by (simp add: exec_instr_def Let_def F safe_simps)
  show ?thesis
  proof (cases "?b = 0x0f")
    case True
    have "code_byte 0 ?M = code_byte 1 M" by (simp add: code_byte_def add.commute)
    then have "unat (code_byte 0 ?M) \<notin> set unsafe_opcodes2" using assms(4) True by (simp add: safe_code_def)
    from two_byte_safe[OF assms(1) M(2,1) this] show ?thesis
      by (auto simp: instr True x86emu_optab_def)
  next
    case False
    then have row: "unat ?b \<noteq> 0x0f" by (simp add: word_unat_eq_iff)
    have "safe_handler (x86emu_optab E ! unat ?b)"
      using rows_256[OF table_safe byte_row, of E ?b] assms(1,4) False row
      by (auto simp: plain_env_def safe_code_def)
    then obtain M' where M': "exec_instr E M = Some M'" "block M'"
      using M unfolding instr safe_handler_def returns_def by blast
    moreover have "?b \<noteq> 0x67 \<Longrightarrow> \<not> addr32 (x86 M')"
      using row_keeps_16[OF byte_row row, of E] M'(1) M(1) unfolding instr keeps_16_def
      by (auto simp: word_unat_eq_iff)
    ultimately show ?thesis by blast
  qed
qed

section \<open>The main loop\<close>

lemma pending_safe:
  assumes "plain_env E" "block M"
  shows "returns (exec_pending E M)"
proof -
  have "unat (x86_intno (x86 M)) < 256" by (rule byte_row)
  then have v: "unat (ucast (x86_intno (x86 M)) * 4 + 2 :: u32) < 0x402" "unat (ucast (x86_intno (x86 M)) * 4 :: u32) < 0x402"
    by (simp_all add: unat_word_ariths unat_up)
  then have "returns (x86emu_intr_handle default_funcs (\<lambda>_. None) M)"
    using assms(2) unfolding x86emu_intr_handle_def Let_def
    by (auto simp: safe_simps intro!: returns_bind_gives[OF vector_safe] returns_bind stack_safe)
  then show ?thesis using assms by (simp add: exec_pending_def plain_env_def safe_simps)
qed

lemma flag_addr32 [simp]: "addr32 (CLEAR_FLAG f st) = addr32 st"
  by (simp add: addr32_def CLEAR_FLAG_def)

lemma addr32_fields [simp]:
  "addr32 (set_SP w st) = addr32 st" "addr32 (st\<lparr> R_CS := w \<rparr>) = addr32 st" "addr32 (st\<lparr> x86_intr := i \<rparr>) = addr32 st"
  "addr32 (st\<lparr> x86_debug := i \<rparr>) = addr32 st"
  by (simp_all add: addr32_def set_SP_def)

lemma memory_keeps_16:
  "rdw a M = Some (w, M') \<Longrightarrow> addr32 (x86 M') = addr32 (x86 M)"
  "wrw a w M = Some M' \<Longrightarrow> addr32 (x86 M') = addr32 (x86 M)"
  by (auto simp: rdw_def wrw_def Let_def X86EMU_halt_sys_def split: if_splits)

lemma pending_keeps_16:
  assumes "plain_env E" "exec_pending E M = Some M'" "\<not> addr32 (x86 M)"
  shows "\<not> addr32 (x86 M')"
proof -
  have "x86emu_intr_handle default_funcs (\<lambda>_. None) M = Some M' \<Longrightarrow> \<not> addr32 (x86 M')"
    using assms(3) unfolding x86emu_intr_handle_def Let_def push_word_def mem_access_word_def
    by (auto simp: bind_eq_Some safe_simps split: if_splits dest!: memory_keeps_16)
  then show ?thesis using assms by (auto simp: exec_pending_def plain_env_def split: if_splits)
qed

text \<open>
  C2. Memory safety of the interpreter. On a block that covers real mode, with the default memory and
  port functions, no installed interrupt handlers and 16 bit addressing, a round of the main loop never
  accesses memory outside the block and never dereferences a null pointer, unless the instruction it
  reaches is one of the listed ones: a pending interrupt is dispatched, the instruction is executed, the
  block has kept its size, and unless it was the address size prefix addressing is still 16 bit.
\<close>

theorem exec_round_safe:
  assumes "plain_env E" "block M" "\<not> addr32 (x86 M)"
    and "\<And>M1. exec_pending E M = Some M1 \<Longrightarrow> safe_code M1 \<and> code_byte 0 M1 \<noteq> 0x67"
  shows "\<exists>r. exec_round E M = Some r \<and> (case r of Halt M' \<Rightarrow> block M' \<and> \<not> addr32 (x86 M')
    | Next M' \<Rightarrow> block M' \<and> \<not> addr32 (x86 M'))"
proof (cases "x86_intr (x86 M) AND INTR_HALTED = 0")
  case True
  obtain M1 where M1: "exec_pending E M = Some M1" "block M1"
    using pending_safe[OF assms(1,2)] by (auto simp: returns_def)
  have "\<not> addr32 (x86 M1)" by (rule pending_keeps_16[OF assms(1) M1(1) assms(3)])
  with exec_instr_lemma[OF assms(1) M1(2)] assms(4)[OF M1(1)]
  obtain M2 where "exec_instr E M1 = Some M2" "block M2" "\<not> addr32 (x86 M2)" by blast
  then show ?thesis by (simp add: exec_round_def True M1(1) safe_simps)
qed (use assms(2,3) in \<open>simp add: exec_round_def\<close>)

text \<open>A block of NOPs, run from the reset registers.\<close>

definition nop_machine :: "u8 list X86EMU" where
  "nop_machine = \<lparr> x86 = reset_regs, emu_mem = replicate 0x110000 0x90 \<rparr>"

definition nop_env :: "u8 list emu_env" where
  "nop_env = \<lparr> emu_funcs = default_funcs, emu_intr = (\<lambda>_. None), emu_oob = 0 \<rparr>"

lemma nop_machine_facts:
  "block nop_machine" "\<not> addr32 (x86 nop_machine)" "plain_env nop_env" "exec_pending nop_env nop_machine = Some nop_machine"
  "code_byte 0 nop_machine = 0x90"
  by (simp_all add: nop_machine_def nop_env_def block_def real_mode_block_def addr32_def plain_env_def
      exec_pending_def code_byte_def reset_regs_def seg_addr_def R_IP_def x_reg_def)

theorem exec_round_safe_witness: "exec_round nop_env nop_machine \<noteq> None"
  using exec_round_safe[of nop_env nop_machine] nop_machine_facts
  by (auto simp: safe_code_def unsafe_opcodes_def)

text \<open>
  C11. Every string instruction returns on the block, in every mode, with every repeat prefix, count and
  direction: the loops that run until CX is zero or a comparison ends them terminate.
\<close>

theorem string_instructions_terminate:
  assumes "block M"
    and "h \<in> {x86emuOp_ins_byte, x86emuOp_ins_word, x86emuOp_outs_byte, x86emuOp_outs_word,
      x86emuOp_movs_byte, x86emuOp_movs_word, x86emuOp_stos_byte, x86emuOp_stos_word, x86emuOp_lods_byte,
      x86emuOp_lods_word, x86emuOp_cmps_byte, x86emuOp_cmps_word, x86emuOp_scas_byte, x86emuOp_scas_word}"
  shows "\<exists>M'. h default_funcs M = Some M' \<and> block M'"
  using string_safe[OF assms(1)] assms(2) by (auto simp: returns_def)

text \<open>
  C25. The scope of the segment and size prefixes is one instruction: after any opcode of the one byte table
  other than these prefixes themselves, the escape and the undefined opcodes, whatever the memory functions
  and handlers do, each of the seven segment bits and the two size bits of the mode is clear, so that the
  next instruction reads its data from DS without a halt and has 16 bit operands and addresses. The
  repeat prefixes are such opcodes too: they drop the prefixes written before them.
\<close>

theorem prefixes_end_with_instruction:
  assumes "i < 256" "i \<notin> set open_opcodes" "(x86emu_optab E ! i) M = Some M'"
  shows "list_all (\<lambda>b. x86_mode (x86 M') AND b = 0)
      [SYSMODE_SEG_DS_SS, SYSMODE_SEGOVR_CS, SYSMODE_SEGOVR_DS, SYSMODE_SEGOVR_ES, SYSMODE_SEGOVR_FS,
       SYSMODE_SEGOVR_GS, SYSMODE_SEGOVR_SS, SYSMODE_PREFIX_DATA, SYSMODE_PREFIX_ADDR]
    \<and> get_data_segment M' = (ucast (R_DS (x86 M')), M') \<and> \<not> data32 M' \<and> \<not> addr32 (x86 M')"
proof -
  have clear: "prefixes_clear M'"
    using rows_256[OF table_ends assms(1), of E] assms(2,3) by (auto simp: ends_instr_def)
  have "b AND SYSMODE_CLRMASK = b"
    if "b \<in> set [SYSMODE_SEG_DS_SS, SYSMODE_SEGOVR_CS, SYSMODE_SEGOVR_DS, SYSMODE_SEGOVR_ES, SYSMODE_SEGOVR_FS,
      SYSMODE_SEGOVR_GS, SYSMODE_SEGOVR_SS, SYSMODE_PREFIX_DATA, SYSMODE_PREFIX_ADDR, SYSMODE_SEGMASK]" for b
    using that by (auto simp: SYSMODE_CLRMASK_def SYSMODE_SEGMASK_def SYSMODE_SEG_DS_SS_def SYSMODE_SEGOVR_CS_def
        SYSMODE_SEGOVR_DS_def SYSMODE_SEGOVR_ES_def SYSMODE_SEGOVR_FS_def SYSMODE_SEGOVR_GS_def
        SYSMODE_SEGOVR_SS_def SYSMODE_PREFIX_DATA_def SYSMODE_PREFIX_ADDR_def)
  note bits = clear_bit[OF clear this]
  have "get_data_segment M' = (ucast (R_DS (x86 M')), M')"
    using bits[of SYSMODE_SEGMASK] by (simp add: get_data_segment_def Let_def)
  then show ?thesis
    using bits clear_not_addr32[OF clear] clear_not_data32[OF clear] by simp
qed

theorem string_instructions_terminate_witness: "\<exists>M'. x86emuOp_scas_word default_funcs nop_machine = Some M'"
  using string_instructions_terminate[OF nop_machine_facts(1), of x86emuOp_scas_word] by blast

text \<open>A NOP under a CS override, and a repeat prefix under one.\<close>

theorem prefixes_end_with_instruction_witness:
  "x86_mode (x86 (DECODE_CLEAR_SEGOVR (add_mode SYSMODE_SEGOVR_CS nop_machine))) AND SYSMODE_SEGOVR_CS = 0
   \<and> (\<exists>M'. (x86emu_optab nop_env ! 0xf3) (add_mode SYSMODE_SEGOVR_GS nop_machine) = Some M'
        \<and> x86_mode (x86 M') AND SYSMODE_SEGOVR_GS = 0)"
proof -
  have rep: "(x86emu_optab nop_env ! 0xf3) (add_mode SYSMODE_SEGOVR_GS nop_machine) =
      Some (DECODE_CLEAR_SEGOVR (add_mode SYSMODE_PREFIX_REPE (add_mode SYSMODE_SEGOVR_GS nop_machine)))"
    by (simp add: x86emu_optab_def x86emuOp_repe_def instr_def)
  show ?thesis
    using prefixes_end_with_instruction[of "0x90" nop_env "add_mode SYSMODE_SEGOVR_CS nop_machine"
        "DECODE_CLEAR_SEGOVR (add_mode SYSMODE_SEGOVR_CS nop_machine)"]
      prefixes_end_with_instruction[OF _ _ rep]
    by (simp add: open_opcodes_def x86emu_optab_def x86emuOp_nop_def x86emuOp_repe_def instr_def)
qed

section \<open>Moves of segment registers\<close>

text \<open>The register field of the ModRM byte at CS:IP.\<close>

definition modrm_field :: "u8 list X86EMU \<Rightarrow> nat" where
  "modrm_field M = unat (drop_bit 3 (code_byte 0 M) AND 0x07)"

lemma modrm_at:
  assumes "block M"
  obtains md rl where "fetch_decode_modrm default_funcs M
      = Some ((md, modrm_field M, rl), regs (\<lambda>st. set_IP (R_IP st + 1) st) M)" "rl < 8"
proof -
  have "fetch_decode_modrm default_funcs M = Some ((unat (drop_bit 6 (code_byte 0 M) AND 0x03), modrm_field M,
      unat (code_byte 0 M AND 0x07)), regs (\<lambda>st. set_IP (R_IP st + 1) st) M)"
    using fetch_code[OF assms, of 0 "set_IP (R_IP (x86 M) + 1)"]
    by (simp add: fetch_decode_modrm_def Let_def modrm_field_def safe_simps regs_def)
  then show ?thesis by (rule that) (simp add: and_small)
qed

lemma seg_field:
  assumes "r < 6"
  obtains x where "\<And>M. seg_ref r M = Some (x, M)"
proof -
  have "r \<in> {0, 1, 2, 3, 4, 5}" using assms by auto
  then have "\<exists>x. \<forall>M. seg_ref r M = Some (x, M)" by (auto simp: seg_ref_def decode_rm_seg_register_def)
  then show ?thesis using that by blast
qed

lemma seg_fault: "6 \<le> r \<Longrightarrow> seg_ref r M = None"
  by (simp add: seg_ref_def decode_rm_seg_register_def)

lemma instr_None: "instr body M = None \<longleftrightarrow> body M = None"
  by (simp add: instr_def bind_eq_None)

lemma returns_not_None: "returns r \<Longrightarrow> r \<noteq> None"
  by (auto simp: returns_def)

text \<open>
  MOV to or from a segment register faults on the block exactly if the field of its ModRM byte is 6
  or 7: these name no segment register, and the handler dereferences the null pointer it gets.
\<close>

theorem segment_move_faults:
  assumes "block M" "\<not> addr32 (x86 M)"
  shows "(x86emuOp_mov_word_RM_SR default_funcs M = None \<longleftrightarrow> 6 \<le> modrm_field M)
    \<and> (x86emuOp_mov_word_SR_RM default_funcs M = None \<longleftrightarrow> 6 \<le> modrm_field M)"
proof -
  let ?M = "regs (\<lambda>st. set_IP (R_IP st + 1) st) M" and ?r = "modrm_field M"
  obtain md rl where m: "fetch_decode_modrm default_funcs M = Some ((md, ?r, rl), ?M)" "rl < 8"
    using modrm_at[OF assms(1)] by blast
  have r: "ready rl rl ?M" using assms m(2) by (simp add: ready_def safe_simps)
  then obtain y where y: "\<And>M :: u8 list X86EMU. reg_ref width16 rl M = Some (y, M)"
    by (rule safe16.fields) blast
  obtain off M2 where off: "rm_address default_funcs md rl ?M = Some (off, M2)" "near off" "block M2"
    using operand_safe(1)[OF r, of md] unfolding gives_def by blast
  show ?thesis
  proof (cases "6 \<le> ?r")
    case True
    then show ?thesis
      by (simp add: x86emuOp_mov_word_RM_SR_def x86emuOp_mov_word_SR_RM_def with_modrm_def instr_None m(1)
          seg_fault off(1) y)
  next
    case False
    then obtain x where x: "\<And>M :: u8 list X86EMU. seg_ref ?r M = Some (x, M)" using seg_field[of ?r] by auto
    have "returns (store_data_word default_funcs off w M2)" "gives any (fetch_data_word default_funcs off M2)" for w
      using off(2,3) by (auto intro!: data_safe near_reach)
    then show ?thesis
      using False by (auto simp: x86emuOp_mov_word_RM_SR_def x86emuOp_mov_word_SR_RM_def with_modrm_def instr_None
          m(1) x off(1) y gives_def dest: returns_not_None)
  qed
qed

theorem segment_move_faults_witness:
  "x86emuOp_mov_word_SR_RM default_funcs nop_machine \<noteq> None"
  using segment_move_faults[OF nop_machine_facts(1,2)] nop_machine_facts(5)
  by (auto simp: modrm_field_def)

end
