(* ===== verification/X86Frames.thy ===== *)
theory X86Frames
  imports X86SafeExec
begin

unbundle bit_operations_syntax

text \<open>
  The stack as a list: what a run of pushes leaves above SS:SP is what pops return. On it rest the
  properties of calls and returns, software interrupts, PUSHA and POPA, and stack frames.
\<close>

section \<open>Slots\<close>

text \<open>
  \<open>slots cell k m s p vs\<close>: the values \<open>vs\<close> are in the cells of \<open>k\<close> bytes from \<open>s:p\<close> upwards, with
  \<open>p\<close> wrapping around in 16 bits.
\<close>

definition slots :: "(u8 list \<Rightarrow> u32 \<Rightarrow> 'v option) \<Rightarrow> nat \<Rightarrow> u8 list \<Rightarrow> u16 \<Rightarrow> u16 \<Rightarrow> 'v list \<Rightarrow> bool" where
  "slots cell k m s p vs \<longleftrightarrow> real_mode_block m \<and> length vs * k \<le> 65536
     \<and> (\<forall>i < length vs. cell m (seg_addr s (ucast (p + of_nat (i * k)))) = Some (vs ! i))"

lemma slots_Nil: "slots cell k m s p [] = real_mode_block m"
  by (simp add: slots_def)

lemma slots_tl: "slots cell k m s p (v # vs) \<Longrightarrow> slots cell k m s (p + of_nat k) vs"
  unfolding slots_def by (auto simp: algebra_simps dest!: spec[of _ "Suc _"])

text \<open>Two slots of a stack of at most 64K do not overlap.\<close>

lemma slot_apart:
  fixes p :: u16
  assumes "k \<in> {2, 4}" "0 < i" "i * k + k \<le> 65536"
  shows "unat (seg_addr s (ucast p)) + k \<le> unat (seg_addr s (ucast (p + of_nat (i * k))))
    \<or> unat (seg_addr s (ucast (p + of_nat (i * k)))) + k \<le> unat (seg_addr s (ucast p))"
proof -
  have p: "unat p < 65536" using unsigned_less[of p, where ?'a = nat] by simp
  have k: "k \<le> i * k" using assms(2) by simp
  have "unat (p + of_nat (i * k)) = (unat p + i * k) mod 65536"
    by (simp add: unat_word_ariths unat_of_nat mod_simps)
  also have "\<dots> = (if unat p + i * k < 65536 then unat p + i * k else unat p + i * k - 65536)"
    using p assms(1,3) by (auto simp: mod_if[of "unat p + i * k"])
  finally have "unat (p + of_nat (i * k)) = \<dots>" .
  then show ?thesis
    using p k assms(3) unfolding unat_seg_addr by (auto split: if_splits)
qed

lemma slots_Cons:
  fixes q :: u16
  assumes "slots cell k m s (q + of_nat k) vs" "(length vs + 1) * k \<le> 65536" "k \<in> {2, 4}"
    and m': "cell m' (seg_addr s (ucast q)) = Some v" "real_mode_block m'"
    and apart: "\<And>b. unat (seg_addr s (ucast q)) + k \<le> unat b \<or> unat b + k \<le> unat (seg_addr s (ucast q))
      \<Longrightarrow> cell m' b = cell m b"
  shows "slots cell k m' s q (v # vs)"
proof -
  have "cell m' (seg_addr s (ucast (q + of_nat (i * k)))) = Some ((v # vs) ! i)" if "i < length (v # vs)" for i
  proof (cases i)
    case 0
    then show ?thesis using m'(1) by simp
  next
    case (Suc j)
    then have "i * k + k \<le> 65536" using that assms(2)
      by (metis Suc_eq_plus1 add_mult_distrib length_Cons less_eq_Suc_le mult_1 mult_le_mono1 order_trans)
    then have "cell m' (seg_addr s (ucast (q + of_nat (i * k)))) = cell m (seg_addr s (ucast (q + of_nat (i * k))))"
      using slot_apart[OF assms(3), of i s q] Suc by (intro apart) auto
    also have "\<dots> = Some (vs ! j)"
      using assms(1) that Suc by (simp add: slots_def algebra_simps)
    finally show ?thesis by (simp add: Suc)
  qed
  then show ?thesis using assms(2) m'(2) by (simp add: slots_def)
qed

section \<open>Push and pop\<close>

text \<open>The values from SS:SP upwards.\<close>

definition on_stack :: "(u8 list \<Rightarrow> u32 \<Rightarrow> 'v option) \<Rightarrow> nat \<Rightarrow> u8 list X86EMU \<Rightarrow> 'v list \<Rightarrow> bool" where
  "on_stack cell k M vs \<longleftrightarrow> slots cell k (emu_mem M) (R_SS (x86 M)) (R_SP (x86 M)) vs"

lemma on_stack_Nil [simp]: "on_stack cell k M [] = block M"
  by (simp add: on_stack_def slots_Nil block_def)

text \<open>
  What a pair of push and pop of one width promises on a stack of 64K: a push puts a value below the
  others and changes no value elsewhere in memory, a pop takes it off, and of the registers both
  change SP only.
\<close>

locale stack_width =
  fixes push :: "'v \<Rightarrow> u8 list X86EMU \<Rightarrow> u8 list X86EMU option"
    and pop :: "u8 list X86EMU \<Rightarrow> ('v \<times> u8 list X86EMU) option"
    and cell :: "u8 list \<Rightarrow> u32 \<Rightarrow> 'v option"
    and k :: nat
  assumes push_slots: "slots cell k (emu_mem M) (R_SS (x86 M)) (R_SP (x86 M)) vs \<Longrightarrow> (length vs + 1) * k \<le> 65536
      \<Longrightarrow> \<exists>m. push v M = Some (regs (\<lambda>st. set_SP (R_SP st - of_nat k) st) (M\<lparr> emu_mem := m \<rparr>))
        \<and> slots cell k m (R_SS (x86 M)) (R_SP (x86 M) - of_nat k) (v # vs)
        \<and> (\<forall>b. unat (seg_addr (R_SS (x86 M)) (ucast (R_SP (x86 M) - of_nat k))) + k \<le> unat b
            \<or> unat b + k \<le> unat (seg_addr (R_SS (x86 M)) (ucast (R_SP (x86 M) - of_nat k)))
            \<longrightarrow> cell m b = cell (emu_mem M) b)"
    and pop_slots: "slots cell k (emu_mem M) (R_SS (x86 M)) (R_SP (x86 M)) (v # vs)
      \<Longrightarrow> pop M = Some (v, regs (\<lambda>st. set_SP (R_SP st + of_nat k) st) M)"
    and small: "k \<le> 4"
begin

text \<open>The machine after a push.\<close>

definition pushed :: "'v \<Rightarrow> u8 list X86EMU \<Rightarrow> u8 list X86EMU" where
  "pushed v M = the (push v M)"

lemma push_pushed:
  assumes "block M"
  shows "push v M = Some (pushed v M)" "block (pushed v M)"
    "x86 (pushed v M) = set_SP (R_SP (x86 M) - of_nat k) (x86 M)"
proof -
  have "slots cell k (emu_mem M) (R_SS (x86 M)) (R_SP (x86 M)) []" using assms by (simp add: slots_Nil block_def)
  from push_slots[OF this, of v] small
  obtain m where m: "push v M = Some (regs (\<lambda>st. set_SP (R_SP st - of_nat k) st) (M\<lparr> emu_mem := m \<rparr>))"
    "slots cell k m (R_SS (x86 M)) (R_SP (x86 M) - of_nat k) [v]" by auto
  then show "push v M = Some (pushed v M)" "block (pushed v M)"
    "x86 (pushed v M) = set_SP (R_SP (x86 M) - of_nat k) (x86 M)"
    by (simp_all add: pushed_def slots_def block_def)
qed

lemma pushed_elsewhere:
  assumes "on_stack cell k M vs" "(length vs + 1) * k \<le> 65536"
    and "unat (seg_addr (R_SS (x86 M)) (ucast (R_SP (x86 M) - of_nat k))) + k \<le> unat b
      \<or> unat b + k \<le> unat (seg_addr (R_SS (x86 M)) (ucast (R_SP (x86 M) - of_nat k)))"
  shows "cell (emu_mem (pushed v M)) b = cell (emu_mem M) b"
  using push_slots[of M vs v] assms by (auto simp: on_stack_def pushed_def)

lemma on_stack_pushed:
  assumes "on_stack cell k M vs" "(length vs + 1) * k \<le> 65536"
  shows "on_stack cell k (pushed v M) (v # vs)"
  using push_slots[of M vs v] assms by (auto simp: on_stack_def pushed_def)

lemma pop_on_stack:
  assumes "on_stack cell k M (v # vs)"
  shows "pop M = Some (v, regs (\<lambda>st. set_SP (R_SP st + of_nat k) st) M)"
    "on_stack cell k (regs (\<lambda>st. set_SP (R_SP st + of_nat k) st) M) vs"
  using assms pop_slots slots_tl[of cell k _ _ _ v vs] unfolding on_stack_def by auto

end

interpretation words: stack_width "push_word default_funcs" "pop_word default_funcs" word_at 2
proof (unfold_locales, goal_cases)
  case (1 M vs v)
  let ?q = "R_SP (x86 M) - 2" and ?s = "R_SS (x86 M)"
  have M: "real_mode_block (emu_mem M)" using 1(1) by (simp add: slots_def)
  obtain m where m: "push_word default_funcs v M = Some (regs (\<lambda>st. set_SP (R_SP st - 2) st) (M\<lparr> emu_mem := m \<rparr>))"
    "word_at m (seg_addr ?s (ucast ?q)) = Some v" "real_mode_block m"
    "\<And>b. unat (seg_addr ?s (ucast ?q)) + 2 \<le> unat b \<or> unat b + 2 \<le> unat (seg_addr ?s (ucast ?q))
      \<Longrightarrow> word_at m b = word_at (emu_mem M) b"
    by (rule push_word_default[OF M, of v]) blast
  have "slots word_at 2 m ?s ?q (v # vs)"
    using 1 m(2-4) by (intro slots_Cons[where m = "emu_mem M"]) auto
  with m(1,4) show ?case by auto
next
  case (2 M v vs)
  then have "word_at (emu_mem M) (seg_addr (R_SS (x86 M)) (ucast (R_SP (x86 M)))) = Some v"
    by (auto simp: slots_def dest!: spec[of _ 0])
  then show ?case by (simp add: pop_word_default)
qed simp

interpretation longs: stack_width "push_long default_funcs" "pop_long default_funcs" long_at 4
proof (unfold_locales, goal_cases)
  case (1 M vs v)
  let ?q = "R_SP (x86 M) - 4" and ?s = "R_SS (x86 M)"
  let ?M = "regs (\<lambda>st. set_SP (R_SP st - 4) st) M"
  have "block ?M" using 1(1) by (simp add: slots_def block_def)
  from inside_at(3)[OF this inside_seg, of ?s ?q] have "long_at (emu_mem ?M) (seg_addr ?s (ucast ?q)) \<noteq> None" .
  from long_mem.write_read[OF this, of v] obtain m where m: "wrl (seg_addr ?s (ucast ?q)) v ?M = Some (?M\<lparr> emu_mem := m \<rparr>)"
    "long_at m (seg_addr ?s (ucast ?q)) = Some v"
    "\<And>b. unat (seg_addr ?s (ucast ?q)) + 4 \<le> unat b \<or> unat b + 4 \<le> unat (seg_addr ?s (ucast ?q))
      \<Longrightarrow> long_at m b = long_at (emu_mem M) b"
    by (auto simp: regs_def)
  have "length m = length (emu_mem M)" using wrl_length[OF m(1)] by simp
  then have "real_mode_block m" using 1(1) by (simp add: slots_def real_mode_block_def)
  then have "slots long_at 4 m ?s ?q (v # vs)"
    using 1 m(2,3) by (intro slots_Cons[where m = "emu_mem M"]) auto
  moreover have "push_long default_funcs v M = Some (regs (\<lambda>st. set_SP (R_SP st - 4) st) (M\<lparr> emu_mem := m \<rparr>))"
    using m(1) by (simp add: push_long_def)
  ultimately show ?case using m(3) by auto
next
  case (2 M v vs)
  then have "long_at (emu_mem M) (seg_addr (R_SS (x86 M)) (ucast (R_SP (x86 M)))) = Some v"
    by (auto simp: slots_def dest!: spec[of _ 0])
  from long_mem.rd_cell[OF this] show ?case by (simp add: pop_long_def)
qed simp

text \<open>A stack of words, of longs.\<close>

abbreviation (input) words_on :: "u8 list X86EMU \<Rightarrow> u16 list \<Rightarrow> bool" where
  "words_on \<equiv> on_stack word_at 2"

lemma on_stack_regs:
  "R_SS (f (x86 M)) = R_SS (x86 M) \<Longrightarrow> R_SP (f (x86 M)) = R_SP (x86 M)
    \<Longrightarrow> on_stack cell k (regs f M) vs = on_stack cell k M vs"
  by (simp add: on_stack_def)

lemma on_stack_block: "on_stack cell k M vs \<Longrightarrow> block M"
  by (simp add: on_stack_def slots_def block_def)

lemma on_stack_clear [simp]: "on_stack cell k (DECODE_CLEAR_SEGOVR M) vs = on_stack cell k M vs"
  unfolding DECODE_CLEAR_SEGOVR_def by (rule on_stack_regs) (simp_all add: R_SP_def)

lemma clear_regs [simp]:
  "emu_mem (DECODE_CLEAR_SEGOVR M) = emu_mem M" "R_SP (x86 (DECODE_CLEAR_SEGOVR M)) = R_SP (x86 M)"
  "R_IP (x86 (DECODE_CLEAR_SEGOVR M)) = R_IP (x86 M)" "R_CS (x86 (DECODE_CLEAR_SEGOVR M)) = R_CS (x86 M)"
  "R_FLG (x86 (DECODE_CLEAR_SEGOVR M)) = R_FLG (x86 M)" "R_SS (x86 (DECODE_CLEAR_SEGOVR M)) = R_SS (x86 M)"
  by (simp_all add: DECODE_CLEAR_SEGOVR_def R_SP_def R_IP_def)

lemma data32_clear [simp]: "\<not> data32 (DECODE_CLEAR_SEGOVR M)"
  by (rule clear_not_data32[OF cleared])

lemma fetch_word_at:
  assumes "word_at (emu_mem M) (seg_addr (R_CS (x86 M)) (ucast (R_IP (x86 M)))) = Some d"
  shows "fetch_word_imm default_funcs M = Some (d, regs (\<lambda>st. set_IP (R_IP st + 2) st) M)"
  using word_mem.rd_cell[OF assms] by (simp add: fetch_word_imm_def)

lemma eip_simps [simp]:
  "R_SP (st\<lparr> R_EIP := v \<rparr>) = R_SP st" "R_IP (st\<lparr> R_EIP := v \<rparr>) = x_reg v" "R_SP (st\<lparr> R_FLG := f \<rparr>) = R_SP st"
  "R_IP (st\<lparr> R_FLG := f \<rparr>) = R_IP st"
  by (simp_all add: R_SP_def R_IP_def)

lemma data32_regs: "x86_mode (f (x86 M)) = x86_mode (x86 M) \<Longrightarrow> data32 (regs f M) = data32 M"
  by (simp add: data32_def)

lemma mode_simps [simp]:
  "x86_mode (set_IP v st) = x86_mode st" "x86_mode (set_SP v st) = x86_mode st"
  by (simp_all add: set_IP_def set_SP_def)

lemma x_reg_ext [simp]: "x_reg (scast (w :: u16)) = w" "x_reg (ucast w) = w"
  by (rule bit_word_eqI; auto simp: x_reg_def bit_simps)+

lemma segment_simps [simp]: "R_SS (st\<lparr> R_EIP := v \<rparr>) = R_SS st"
  by simp

section \<open>Calls and returns\<close>

text \<open>
  A near call with a word displacement jumps relative to the next instruction and pushes its IP; a
  near return pops the IP the call pushed, below whatever was on the stack.
\<close>

theorem near_call_return:
  assumes "words_on M vs" "length vs < 32768" "\<not> data32 M"
    "word_at (emu_mem M) (seg_addr (R_CS (x86 M)) (ucast (R_IP (x86 M)))) = Some d"
  shows "\<exists>M1 M2. x86emuOp_call_near_IMM default_funcs M = Some M1 \<and> x86emuOp_ret_near default_funcs M1 = Some M2
    \<and> R_IP (x86 M1) = R_IP (x86 M) + 2 + d \<and> words_on M1 ((R_IP (x86 M) + 2) # vs)
    \<and> R_IP (x86 M2) = R_IP (x86 M) + 2 \<and> R_SP (x86 M2) = R_SP (x86 M) \<and> words_on M2 vs"
proof -
  let ?M = "regs (\<lambda>st. set_IP (R_IP st + 2) st) M"
  let ?P = "words.pushed (R_IP (x86 M) + 2) ?M"
  let ?M1 = "DECODE_CLEAR_SEGOVR (regs (\<lambda>st. st\<lparr> R_EIP := scast (d + (R_IP (x86 M) + 2)) \<rparr>) ?P)"
  have M: "block ?M" "words_on ?M vs" using assms(1) on_stack_block by (auto simp: safe_simps on_stack_regs)
  have P: "words_on ?P ((R_IP (x86 M) + 2) # vs)"
    by (rule words.on_stack_pushed[OF M(2)]) (use assms(2) in simp)
  have call: "x86emuOp_call_near_IMM default_funcs M = Some ?M1"
    using assms(3) words.push_pushed(1)[OF M(1)]
    by (simp add: x86emuOp_call_near_IMM_def instr_def fetch_word_at[OF assms(4)])
  have M1: "words_on ?M1 ((R_IP (x86 M) + 2) # vs)" using P by (simp add: on_stack_regs)
  show ?thesis
    using call M1 words.pop_on_stack[OF M1] words.push_pushed(3)[OF M(1), of "R_IP (x86 M) + 2"]
    by (simp add: x86emuOp_ret_near_def instr_def pop_ip_def on_stack_def add.commute add.left_commute)
qed

text \<open>Changes that leave the stack alone.\<close>

lemma words_on_regs [simp]:
  "words_on (regs (\<lambda>st. st\<lparr> R_CS := c \<rparr>) M) vs = words_on M vs"
  "words_on (regs (set_IP v) M) vs = words_on M vs"
  "words_on (regs (CLEAR_FLAG f) M) vs = words_on M vs"
  "words_on (regs (\<lambda>st. st\<lparr> R_EIP := e \<rparr>) M) vs = words_on M vs"
  "words_on (regs (\<lambda>st. st\<lparr> R_FLG := g \<rparr>) M) vs = words_on M vs"
  by (rule on_stack_regs; simp)+

lemma pop_word_on:
  assumes "words_on M (v # vs)"
  obtains M' where "pop_word default_funcs M = Some (v, M')" "words_on M' vs"
    "x86 M' = set_SP (R_SP (x86 M) + 2) (x86 M)" "emu_mem M' = emu_mem M"
  using words.pop_on_stack[OF assms] that[of "regs (\<lambda>st. set_SP (R_SP st + 2) st) M"] by simp

lemma push_word_on:
  assumes "words_on M vs" "length vs < 32768"
  obtains M' where "push_word default_funcs v M = Some M'" "words_on M' (v # vs)"
    "x86 M' = set_SP (R_SP (x86 M) - 2) (x86 M)"
    "\<And>b. unat (seg_addr (R_SS (x86 M)) (ucast (R_SP (x86 M) - 2))) + 2 \<le> unat b
      \<or> unat b + 2 \<le> unat (seg_addr (R_SS (x86 M)) (ucast (R_SP (x86 M) - 2)))
      \<Longrightarrow> word_at (emu_mem M') b = word_at (emu_mem M) b"
  using words.push_pushed[OF on_stack_block[OF assms(1)], of v] words.on_stack_pushed[OF assms(1), of v] assms(2)
    words.pushed_elsewhere[OF assms(1), of _ v] that[of "words.pushed v M"] by simp

text \<open>IRET takes a frame of three words off the stack.\<close>

lemma iret_frame:
  assumes "words_on M (ip # cs # fl # vs)" "\<not> data32 M"
  shows "\<exists>M'. x86emuOp_iret default_funcs M = Some M' \<and> R_IP (x86 M') = ip \<and> R_CS (x86 M') = cs
    \<and> R_FLG (x86 M') = ucast fl \<and> R_SP (x86 M') = R_SP (x86 M) + 6 \<and> words_on M' vs"
proof -
  obtain M1 where M1: "pop_word default_funcs M = Some (ip, M1)" "words_on M1 (cs # fl # vs)"
    "x86 M1 = set_SP (R_SP (x86 M) + 2) (x86 M)" by (rule pop_word_on[OF assms(1)])
  have w1: "words_on (regs (set_IP ip) M1) (cs # fl # vs)" using M1(2) by simp
  obtain M2 where M2: "pop_word default_funcs (regs (set_IP ip) M1) = Some (cs, M2)" "words_on M2 (fl # vs)"
    "x86 M2 = set_SP (R_SP (x86 (regs (set_IP ip) M1)) + 2) (x86 (regs (set_IP ip) M1))" by (rule pop_word_on[OF w1])
  let ?N = "regs (\<lambda>st. st\<lparr> R_CS := cs \<rparr>) M2"
  have w2: "words_on ?N (fl # vs)" using M2(2) by simp
  obtain M3 where M3: "pop_word default_funcs ?N = Some (fl, M3)" "words_on M3 vs"
    "x86 M3 = set_SP (R_SP (x86 ?N) + 2) (x86 ?N)" by (rule pop_word_on[OF w2])
  show ?thesis
    using assms(2) M1 M2 M3 by (simp add: x86emuOp_iret_def instr_def)
qed

lemma vector_read:
  assumes "block M" "unat a < 0x402"
  shows "\<exists>w. mem_access_word default_funcs a M = Some (w, M) \<and> word_at (emu_mem M) a = Some w"
  using inside_at(2)[OF assms(1), of a] assms(2) word_mem.rd_cell[of M a]
  by (auto simp: mem_access_word_def inside_def)

text \<open>
  The entry of a software interrupt pushes such a frame. \<open>frame_apart M n\<close>: the three words below
  SS:SP do not overlap entry \<open>n\<close> of the vector table.
\<close>

definition frame_apart :: "u8 list X86EMU \<Rightarrow> u8 \<Rightarrow> bool" where
  "frame_apart M n \<longleftrightarrow> list_all (\<lambda>k.
     let a = unat (seg_addr (R_SS (x86 M)) (ucast (R_SP (x86 M) - k)))
     in a + 2 \<le> 4 * unat n \<or> 4 * unat n + 4 \<le> a) [2, 4, 6]"

lemma vector_addr:
  "unat (ucast (n :: u8) * 4 + 2 :: u32) = 4 * unat n + 2" "unat (ucast n * 4 :: u32) = 4 * unat n"
proof -
  have "unat n < 256" by (rule byte_row)
  then show "unat (ucast n * 4 + 2 :: u32) = 4 * unat n + 2" "unat (ucast n * 4 :: u32) = 4 * unat n"
    by (simp_all add: unat_word_ariths unat_up)
qed

lemma soft_int_frame:
  assumes "words_on M vs" "length vs < 32766" "I n = None"
  shows "\<exists>M'. soft_int default_funcs I n M = Some M'
    \<and> words_on M' (R_IP (x86 M) # R_CS (x86 M) # ucast (R_FLG (x86 M)) # vs)
    \<and> \<not> ACCESS_FLAG F_IF (x86 M') \<and> \<not> ACCESS_FLAG F_TF (x86 M')
    \<and> word_at (emu_mem M') (ucast n * 4) = Some (R_IP (x86 M')) \<and> R_SP (x86 M') = R_SP (x86 M) - 6
    \<and> x86_mode (x86 M') = x86_mode (x86 M)
    \<and> (frame_apart M n \<longrightarrow> word_at (emu_mem M) (ucast n * 4) = Some (R_IP (x86 M'))
         \<and> word_at (emu_mem M) (ucast n * 4 + 2) = Some (R_CS (x86 M')))"
proof -
  have "unat n < 256" by (rule byte_row)
  then have v: "unat (ucast n * 4 + 2 :: u32) < 0x402" "unat (ucast n * 4 :: u32) < 0x402"
    by (simp_all add: vector_addr)
  obtain M1 where M1: "push_word default_funcs (ucast (R_FLG (x86 M))) M = Some M1"
    "words_on M1 (ucast (R_FLG (x86 M)) # vs)" "x86 M1 = set_SP (R_SP (x86 M) - 2) (x86 M)"
    and k1: "\<And>b. unat (seg_addr (R_SS (x86 M)) (ucast (R_SP (x86 M) - 2))) + 2 \<le> unat b
      \<or> unat b + 2 \<le> unat (seg_addr (R_SS (x86 M)) (ucast (R_SP (x86 M) - 2)))
      \<Longrightarrow> word_at (emu_mem M1) b = word_at (emu_mem M) b"
    by (rule push_word_on[OF assms(1), of "ucast (R_FLG (x86 M))"]) (use assms(2) in auto)
  let ?C = "regs (CLEAR_FLAG F_TF) (regs (CLEAR_FLAG F_IF) M1)"
  have c: "words_on ?C (ucast (R_FLG (x86 M)) # vs)" using M1(2) by (simp del: regs_simps(3))
  obtain M2 where M2: "push_word default_funcs (R_CS (x86 M)) ?C = Some M2"
    "words_on M2 (R_CS (x86 M) # ucast (R_FLG (x86 M)) # vs)" "x86 M2 = set_SP (R_SP (x86 ?C) - 2) (x86 ?C)"
    and k2: "\<And>b. unat (seg_addr (R_SS (x86 ?C)) (ucast (R_SP (x86 ?C) - 2))) + 2 \<le> unat b
      \<or> unat b + 2 \<le> unat (seg_addr (R_SS (x86 ?C)) (ucast (R_SP (x86 ?C) - 2)))
      \<Longrightarrow> word_at (emu_mem M2) b = word_at (emu_mem ?C) b"
    by (rule push_word_on[OF c, of "R_CS (x86 M)"]) (use assms(2) in auto)
  obtain cs where cs: "mem_access_word default_funcs (ucast n * 4 + 2) M2 = Some (cs, M2)"
    "word_at (emu_mem M2) (ucast n * 4 + 2) = Some cs"
    using vector_read[OF on_stack_block[OF M2(2)] v(1)] by blast
  let ?D = "regs (\<lambda>st. st\<lparr> R_CS := cs \<rparr>) M2"
  have d: "words_on ?D (R_CS (x86 M) # ucast (R_FLG (x86 M)) # vs)" using M2(2) by simp
  obtain M3 where M3: "push_word default_funcs (R_IP (x86 M)) ?D = Some M3"
    "words_on M3 (R_IP (x86 M) # R_CS (x86 M) # ucast (R_FLG (x86 M)) # vs)" "x86 M3 = set_SP (R_SP (x86 ?D) - 2) (x86 ?D)"
    and k3: "\<And>b. unat (seg_addr (R_SS (x86 ?D)) (ucast (R_SP (x86 ?D) - 2))) + 2 \<le> unat b
      \<or> unat b + 2 \<le> unat (seg_addr (R_SS (x86 ?D)) (ucast (R_SP (x86 ?D) - 2)))
      \<Longrightarrow> word_at (emu_mem M3) b = word_at (emu_mem ?D) b"
    by (rule push_word_on[OF d, of "R_IP (x86 M)"]) (use assms(2) in auto)
  obtain ip where ip: "mem_access_word default_funcs (ucast n * 4) M3 = Some (ip, M3)"
    "word_at (emu_mem M3) (ucast n * 4) = Some ip"
    using vector_read[OF on_stack_block[OF M3(2)] v(2)] by blast
  have "soft_int default_funcs I n M = Some (regs (set_IP ip) M3)"
    using M1(1,3) M2(1,3) M3(1) cs ip(1) by (simp add: soft_int_def assms(3) CLEAR_FLAG_def)
  moreover have "word_at (emu_mem M) (ucast n * 4) = Some ip \<and> word_at (emu_mem M) (ucast n * 4 + 2) = Some cs"
    if apart: "frame_apart M n"
  proof -
    have sp: "R_SS (x86 ?C) = R_SS (x86 M)" "R_SP (x86 ?C) = R_SP (x86 M) - 2"
      "R_SS (x86 ?D) = R_SS (x86 M)" "R_SP (x86 ?D) = R_SP (x86 M) - 4"
      using M1(3) M2(3) by (simp_all add: CLEAR_FLAG_def)
    have mem: "emu_mem ?C = emu_mem M1" "emu_mem ?D = emu_mem M2" by simp_all
    have "word_at (emu_mem M1) b = word_at (emu_mem M) b" "word_at (emu_mem M2) b = word_at (emu_mem M1) b"
      "word_at (emu_mem M3) b = word_at (emu_mem M2) b" if "b \<in> {ucast n * 4, ucast n * 4 + 2}" for b
      using k1[of b] k2[of b] k3[of b] apart that unfolding sp mem
      by (auto simp: frame_apart_def Let_def vector_addr)
    with cs(2) ip(2) show ?thesis by simp
  qed
  ultimately show ?thesis
    using M1(3) M2(3) M3(2,3) ip(2) by (simp add: flag_simps) (simp add: CLEAR_FLAG_def)
qed

text \<open>
  C13. INT and IRET. Without an installed handler, INT n pushes flags, CS and the IP of the next
  instruction as words, clears IF and TF and loads IP and CS from entry n of the vector table: the word
  at 4n, as it is after the pushes, and, when the pushed words do not overlap the entry, exactly the words
  at 4n and 4n + 2. IRET takes this frame off again and so gives back CS, IP, SP and the low 16 flags.
\<close>

theorem int_iret:
  assumes "words_on M vs" "length vs < 32766" "\<not> data32 M" "I (code_byte 0 M) = None"
  shows "\<exists>M1 M2. x86emuOp_int_IMM default_funcs I M = Some M1 \<and> x86emuOp_iret default_funcs M1 = Some M2
    \<and> words_on M1 ((R_IP (x86 M) + 1) # R_CS (x86 M) # ucast (R_FLG (x86 M)) # vs)
    \<and> \<not> ACCESS_FLAG F_IF (x86 M1) \<and> \<not> ACCESS_FLAG F_TF (x86 M1)
    \<and> word_at (emu_mem M1) (ucast (code_byte 0 M) * 4) = Some (R_IP (x86 M1))
    \<and> (frame_apart M (code_byte 0 M) \<longrightarrow>
         word_at (emu_mem M) (ucast (code_byte 0 M) * 4) = Some (R_IP (x86 M1))
         \<and> word_at (emu_mem M) (ucast (code_byte 0 M) * 4 + 2) = Some (R_CS (x86 M1)))
    \<and> R_IP (x86 M2) = R_IP (x86 M) + 1 \<and> R_CS (x86 M2) = R_CS (x86 M) \<and> R_SP (x86 M2) = R_SP (x86 M)
    \<and> R_FLG (x86 M2) = R_FLG (x86 M) AND 0xFFFF \<and> words_on M2 vs"
proof -
  let ?M = "regs (set_IP (R_IP (x86 M) + 1)) M"
  have f: "fetch_byte_imm default_funcs M = Some (code_byte 0 M, ?M)"
    using fetch_code[OF on_stack_block[OF assms(1)], of 0] by (simp add: fetch_byte_imm_def Let_def safe_simps)
  have w: "words_on ?M vs" using assms(1) by simp
  obtain N where N: "soft_int default_funcs I (code_byte 0 M) ?M = Some N"
    "words_on N ((R_IP (x86 M) + 1) # R_CS (x86 M) # ucast (R_FLG (x86 M)) # vs)"
    "\<not> ACCESS_FLAG F_IF (x86 N)" "\<not> ACCESS_FLAG F_TF (x86 N)" "R_SP (x86 N) = R_SP (x86 M) - 6"
    "word_at (emu_mem N) (ucast (code_byte 0 M) * 4) = Some (R_IP (x86 N))"
    "frame_apart M (code_byte 0 M) \<longrightarrow> word_at (emu_mem M) (ucast (code_byte 0 M) * 4) = Some (R_IP (x86 N))
      \<and> word_at (emu_mem M) (ucast (code_byte 0 M) * 4 + 2) = Some (R_CS (x86 N))"
    using soft_int_frame[OF w assms(2), of I "code_byte 0 M"] assms(4) by (auto simp: frame_apart_def)
  have "words_on (DECODE_CLEAR_SEGOVR N) ((R_IP (x86 M) + 1) # R_CS (x86 M) # ucast (R_FLG (x86 M)) # vs)"
    using N(2) by simp
  from iret_frame[OF this] obtain M2 where M2: "x86emuOp_iret default_funcs (DECODE_CLEAR_SEGOVR N) = Some M2"
    "R_IP (x86 M2) = R_IP (x86 M) + 1" "R_CS (x86 M2) = R_CS (x86 M)" "words_on M2 vs"
    "R_FLG (x86 M2) = ucast (ucast (R_FLG (x86 M)) :: u16)" "R_SP (x86 M2) = R_SP (x86 M)"
    using N(5) by auto
  have low: "ucast (ucast x :: u16) = x AND 0xFFFF" for x :: u32
    by (rule bit_word_eqI) (auto simp: byte_mask bit_simps)
  have "x86emuOp_int_IMM default_funcs I M = Some (DECODE_CLEAR_SEGOVR N)"
    by (simp add: x86emuOp_int_IMM_def instr_def f N(1))
  then show ?thesis
    using N(2-7) M2 by (simp add: low ACCESS_FLAG_def)
qed

text \<open>The registers of the NOP machine.\<close>

lemma nop_regs: "R_IP (x86 nop_machine) = 0" "R_CS (x86 nop_machine) = 0" "R_SP (x86 nop_machine) = 0"
  "R_FLG (x86 nop_machine) = 2" "seg_addr (R_CS (x86 nop_machine)) (ucast (R_IP (x86 nop_machine))) = 0"
  "\<not> data32 nop_machine"
  by (simp_all add: nop_machine_def reset_regs_def R_IP_def R_SP_def x_reg_def seg_addr_def data32_def)

lemma nop_word: "word_at (emu_mem nop_machine) 0 = Some (word_cat (0x90 :: u8) (0x90 :: u8))"
  by (simp add: nop_machine_def word_at_def)

theorem near_call_return_witness:
  "\<exists>M1 M2. x86emuOp_call_near_IMM default_funcs nop_machine = Some M1 \<and> x86emuOp_ret_near default_funcs M1 = Some M2
    \<and> R_IP (x86 M1) = 2 + word_cat (0x90 :: u8) (0x90 :: u8) \<and> R_IP (x86 M2) = 2"
  using near_call_return[of nop_machine "[]" "word_cat (0x90 :: u8) (0x90 :: u8)"] nop_machine_facts nop_word nop_regs
  by fastforce

theorem int_iret_witness:
  "\<exists>M1 M2. x86emuOp_int_IMM default_funcs (\<lambda>_. None) nop_machine = Some M1 \<and> x86emuOp_iret default_funcs M1 = Some M2
    \<and> R_IP (x86 M1) = 0x9090 \<and> R_CS (x86 M1) = 0x9090 \<and> R_IP (x86 M2) = 1 \<and> R_CS (x86 M2) = 0"
proof -
  have apart: "frame_apart nop_machine (code_byte 0 nop_machine)"
    by (simp add: frame_apart_def nop_machine_facts nop_regs unat_seg_addr Let_def)
  have v: "word_at (emu_mem nop_machine) (0x240 + 2) = Some 0x9090" "word_at (emu_mem nop_machine) 0x240 = Some 0x9090"
    by (simp_all add: nop_machine_def word_at_def word_cat_eq)
  show ?thesis
    using int_iret[of nop_machine "[]" "\<lambda>_. None"] nop_machine_facts nop_regs apart v
    by fastforce
qed

end
