(* ===== verification/X86Program.thy ===== *)
theory X86Program
  imports X86Frames
begin

unbundle bit_operations_syntax

text \<open>
  The main loop on a whole program: a loop that adds a constant to AX as often as CX says, run by
  \<open>X86EMU_exec\<close> from its first byte to the HLT that ends it.
\<close>

section \<open>Rounds\<close>

text \<open>A machine between two instructions, with nothing pending.\<close>

definition running :: "u8 list X86EMU \<Rightarrow> bool" where
  "running M \<longleftrightarrow> block M \<and> prefixes_clear M \<and> x86_intr (x86 M) = 0 \<and> x86_debug (x86 M) AND DEBUG_EXIT = 0"

lemma exec_instr_at:
  assumes "plain_env E" "block M"
  shows "exec_instr E M = (x86emu_optab E ! unat (code_byte 0 M)) (regs (set_IP (R_IP (x86 M) + 1)) M)"
  using assms fetch_code[OF assms(2), of 0] by (simp add: exec_instr_def Let_def plain_env_def safe_simps)

lemma exec_round_at:
  assumes "plain_env E" "running M" "exec_instr E M = Some N" "x86_debug (x86 N) = x86_debug (x86 M)"
  shows "exec_round E M = Some (Next N)"
  using assms by (simp add: exec_round_def exec_pending_def running_def)

lemma prefixes_cleared: "prefixes_clear (DECODE_CLEAR_SEGOVR M)"
  by (simp add: prefixes_clear_def DECODE_CLEAR_SEGOVR_def and.assoc)

text \<open>What the other registers are after an instruction.\<close>

lemma register_simps [simp]:
  "R_AX (set_IP v st) = R_AX st" "R_CX (set_IP v st) = R_CX st" "R_AX (set_CX c st) = R_AX st"
  "R_IP (set_CX c st) = R_IP st" "R_CS (set_IP v st) = R_CS st" "R_CS (set_CX c st) = R_CS st"
  "x86_intr (set_IP v st) = x86_intr st" "x86_intr (set_CX c st) = x86_intr st"
  "x86_debug (set_IP v st) = x86_debug st" "x86_debug (set_CX c st) = x86_debug st"
  "x86_mode (set_CX c st) = x86_mode st" "R_AX (st\<lparr> x86_intr := i \<rparr>) = R_AX st"
  "R_IP (st\<lparr> x86_intr := i \<rparr>) = R_IP st"
  by (simp_all add: set_IP_def set_CX_def R_AX_def R_CX_def R_IP_def)

lemma set_IP_over [simp]: "set_IP v (set_IP w st) = set_IP v st" "set_CX c (set_IP v st) = set_IP v (set_CX c st)"
proof -
  have "set_x_reg v (set_x_reg w r) = set_x_reg v r" for r
    by (rule bit_word_eqI) (auto simp: set_x_reg_def reg_masks bit_simps dest: bit_imp_le_length)
  then show "set_IP v (set_IP w st) = set_IP v st" "set_CX c (set_IP v st) = set_IP v (set_CX c st)"
    by (simp_all add: set_IP_def set_CX_def)
qed

lemma word_long [simp]: "ucast (ucast (w :: u16) :: u32) = w"
  by (rule bit_word_eqI) (auto simp: bit_simps)

lemma clear_more [simp]:
  "R_AX (x86 (DECODE_CLEAR_SEGOVR M)) = R_AX (x86 M)" "R_CX (x86 (DECODE_CLEAR_SEGOVR M)) = R_CX (x86 M)"
  "x86_intr (x86 (DECODE_CLEAR_SEGOVR M)) = x86_intr (x86 M)"
  "x86_debug (x86 (DECODE_CLEAR_SEGOVR M)) = x86_debug (x86 M)"
  by (simp_all add: DECODE_CLEAR_SEGOVR_def R_AX_def R_CX_def)

lemma add_AX:
  fixes st w defines "st' \<equiv> upd (get16 AX) (set16 AX) (\<lambda>v. add_word v w) st"
  shows "R_AX st' = R_AX st + w" "R_CX st' = R_CX st" "R_IP st' = R_IP st" "R_CS st' = R_CS st"
    "x86_mode st' = x86_mode st" "x86_intr st' = x86_intr st" "x86_debug st' = x86_debug st"
proof -
  obtain r t where r: "add_word (R_AX st) w st = (r, t)" by fastforce
  have "add_spec (R_AX st) w 0 st (r, t)" using add_word_spec[of "R_AX st" w st] r by simp
  then have "r = R_AX st + w" "t = st\<lparr> R_FLG := R_FLG t \<rparr>" by (auto simp: add_spec_def flags_frame_def)
  then obtain g where g: "r = R_AX st + w" "t = st\<lparr> R_FLG := g \<rparr>" by blast
  show "R_AX st' = R_AX st + w" "R_CX st' = R_CX st" "R_IP st' = R_IP st" "R_CS st' = R_CS st"
    "x86_mode st' = x86_mode st" "x86_intr st' = x86_intr st" "x86_debug st' = x86_debug st"
    using r g by (simp_all add: st'_def upd_def set_AX_def R_AX_def R_CX_def R_IP_def)
qed

lemma add_round:
  assumes "plain_env E" "running M" "code_byte 0 M = 0x05"
    "word_at (emu_mem M) (seg_addr (R_CS (x86 M)) (ucast (R_IP (x86 M) + 1))) = Some w"
  shows "\<exists>N. exec_round E M = Some (Next N) \<and> running N \<and> emu_mem N = emu_mem M \<and> R_CS (x86 N) = R_CS (x86 M)
    \<and> R_IP (x86 N) = R_IP (x86 M) + 3 \<and> R_AX (x86 N) = R_AX (x86 M) + w \<and> R_CX (x86 N) = R_CX (x86 M)"
proof -
  let ?M = "regs (set_IP (R_IP (x86 M) + 1)) M"
  let ?N = "DECODE_CLEAR_SEGOVR (regs (\<lambda>st. upd (get16 AX) (set16 AX) (\<lambda>v. add_word v w) (set_IP (R_IP (x86 M) + 3) st)) M)"
  have d: "\<not> data32 ?M" using assms(2) by (simp add: clear_not_data32 running_def data32_regs)
  have "fetch_word_imm default_funcs ?M = Some (w, regs (\<lambda>st. set_IP (R_IP st + 2) st) ?M)"
    by (rule fetch_word_at) (use assms(4) in simp)
  then have "x86emuOp_add_word_AX_IMM default_funcs ?M = Some ?N"
    using d by (simp add: x86emuOp_add_word_AX_IMM_def instr_def op_AX_IMM_def fetch_sized_imm_def data32_regs add.assoc)
  then have "exec_instr E M = Some ?N"
    using assms(1-3) by (simp add: exec_instr_at running_def x86emu_optab_def plain_env_def)
  moreover have "running ?N"
    using assms(2) by (simp add: running_def prefixes_cleared add_AX safe_simps)
  ultimately show ?thesis
    using exec_round_at[OF assms(1,2)] by (intro exI[of _ ?N]) (simp add: add_AX)
qed

lemma loop_round:
  assumes "plain_env E" "running M" "code_byte 0 M = 0xE2"
  shows "\<exists>N. exec_round E M = Some (Next N) \<and> running N \<and> emu_mem N = emu_mem M \<and> R_CS (x86 N) = R_CS (x86 M)
    \<and> R_IP (x86 N) = R_IP (x86 M) + 2 + (if R_CX (x86 M) = 1 then 0 else scast (code_byte 1 M))
    \<and> R_AX (x86 N) = R_AX (x86 M) \<and> R_CX (x86 N) = R_CX (x86 M) - 1"
proof -
  let ?M = "regs (set_IP (R_IP (x86 M) + 1)) M" and ?ip = "R_IP (x86 M) + 2"
  let ?to = "?ip + (if R_CX (x86 M) = 1 then 0 else scast (code_byte 1 M))"
  let ?N = "DECODE_CLEAR_SEGOVR (regs (\<lambda>st. set_IP ?to (set_CX (R_CX (x86 M) - 1) st)) M)"
  have "code_byte 0 ?M = code_byte 1 M" by (simp add: code_byte_def add.commute)
  then have "fetch_byte_imm default_funcs ?M = Some (code_byte 1 M, regs (set_IP ?ip) M)"
    using fetch_code[of ?M 0 "set_IP ?ip"] assms(2)
    by (simp add: fetch_byte_imm_def Let_def safe_simps running_def add.assoc)
  then have "x86emuOp_loop default_funcs ?M = Some ?N"
    by (simp add: x86emuOp_loop_def loop_while_def instr_def dec_CX_def regs_def add.commute)
  then have "exec_instr E M = Some ?N"
    using assms by (simp add: exec_instr_at running_def x86emu_optab_def plain_env_def)
  moreover have "running ?N"
    using assms(2) by (simp add: running_def prefixes_cleared safe_simps)
  ultimately show ?thesis
    using exec_round_at[OF assms(1,2)] by (intro exI[of _ ?N]) simp
qed

lemma halt_rounds:
  assumes "plain_env E" "running M" "code_byte 0 M = 0xF4"
  shows "\<exists>N. exec_loop E M = Some N \<and> emu_mem N = emu_mem M \<and> R_IP (x86 N) = R_IP (x86 M) + 1
    \<and> R_AX (x86 N) = R_AX (x86 M) \<and> R_CX (x86 N) = R_CX (x86 M)"
proof -
  let ?N = "DECODE_CLEAR_SEGOVR (X86EMU_halt_sys (regs (set_IP (R_IP (x86 M) + 1)) M))"
  have "exec_instr E M = Some ?N"
    using assms by (simp add: exec_instr_at running_def x86emu_optab_def x86emuOp_halt_def instr_def)
  then have "exec_round E M = Some (Next ?N)"
    by (rule exec_round_at[OF assms(1,2)]) (simp add: X86EMU_halt_sys_def)
  moreover have "exec_round E ?N = Some (Halt ?N)"
    using assms(2) by (simp add: exec_round_def X86EMU_halt_sys_def running_def INTR_HALTED_def)
  ultimately have "exec_loop E M = Some ?N"
    by (subst exec_loop.simps, simp) (subst exec_loop.simps, simp)
  then show ?thesis by (intro exI[of _ ?N]) (simp add: X86EMU_halt_sys_def)
qed

section \<open>A program\<close>

text \<open>\<open>again: ADD AX, w; LOOP again; HLT\<close>\<close>

definition add_program :: "u8 list \<Rightarrow> u16 \<Rightarrow> u16 \<Rightarrow> u16 \<Rightarrow> bool" where
  "add_program m s p w \<longleftrightarrow> m ! unat (seg_addr s (ucast p)) = 0x05
     \<and> word_at m (seg_addr s (ucast (p + 1))) = Some w
     \<and> map (\<lambda>k. m ! unat (seg_addr s (ucast (p + k)))) [3, 4, 5] = [0xE2, 0xFB, 0xF4]"

text \<open>One pass through the loop.\<close>

lemma add_pass:
  assumes "plain_env E" "running M" "add_program (emu_mem M) (R_CS (x86 M)) (R_IP (x86 M)) w"
  shows "\<exists>N. exec_loop E M = exec_loop E N \<and> running N \<and> emu_mem N = emu_mem M \<and> R_CS (x86 N) = R_CS (x86 M)
    \<and> R_IP (x86 N) = R_IP (x86 M) + (if R_CX (x86 M) = 1 then 5 else 0) \<and> R_AX (x86 N) = R_AX (x86 M) + w
    \<and> R_CX (x86 N) = R_CX (x86 M) - 1"
proof -
  have c: "code_byte 0 M = 0x05" "word_at (emu_mem M) (seg_addr (R_CS (x86 M)) (ucast (R_IP (x86 M) + 1))) = Some w"
    using assms(3) by (simp_all add: add_program_def code_byte_def)
  obtain L where L: "exec_round E M = Some (Next L)" "running L" "emu_mem L = emu_mem M" "R_CS (x86 L) = R_CS (x86 M)"
    "R_IP (x86 L) = R_IP (x86 M) + 3" "R_AX (x86 L) = R_AX (x86 M) + w" "R_CX (x86 L) = R_CX (x86 M)"
    using add_round[OF assms(1,2) c] by blast
  have d: "code_byte 0 L = 0xE2" "code_byte 1 L = 0xFB"
    using assms(3) L(3-5) by (simp_all add: add_program_def code_byte_def add.assoc)
  have "(scast (0xFB :: u8) :: u16) = - 5" by (simp add: scast_eq)
  then obtain N where N: "exec_round E L = Some (Next N)" "running N" "emu_mem N = emu_mem L" "R_CS (x86 N) = R_CS (x86 L)"
    "R_IP (x86 N) = R_IP (x86 M) + (if R_CX (x86 M) = 1 then 5 else 0)" "R_AX (x86 N) = R_AX (x86 L)"
    "R_CX (x86 N) = R_CX (x86 L) - 1"
    using loop_round[OF assms(1) L(2) d(1)] L(5,7) d(2) by (auto simp: add.assoc)
  have "exec_loop E M = exec_loop E N"
    by (subst exec_loop.simps, simp add: L(1)) (subst exec_loop.simps, simp add: N(1))
  then show ?thesis using L N by (intro exI[of _ N]) simp
qed

lemma add_passes:
  assumes "plain_env E" "running M" "add_program (emu_mem M) (R_CS (x86 M)) (R_IP (x86 M)) w"
  shows "\<exists>N. exec_loop E M = Some N \<and> R_AX (x86 N) = R_AX (x86 M) + R_CX (x86 M) * w \<and> R_CX (x86 N) = 0
    \<and> R_IP (x86 N) = R_IP (x86 M) + 6 \<and> emu_mem N = emu_mem M"
  using assms(2-)
proof (induction "unat (R_CX (x86 M) - 1)" arbitrary: M rule: less_induct)
  case less
  obtain L where L: "exec_loop E M = exec_loop E L" "running L" "emu_mem L = emu_mem M" "R_CS (x86 L) = R_CS (x86 M)"
    "R_IP (x86 L) = R_IP (x86 M) + (if R_CX (x86 M) = 1 then 5 else 0)" "R_AX (x86 L) = R_AX (x86 M) + w"
    "R_CX (x86 L) = R_CX (x86 M) - 1"
    using add_pass[OF assms(1) less.prems] by blast
  show ?case
  proof (cases "R_CX (x86 M) = 1")
    case True
    have "code_byte 0 L = 0xF4" using less.prems(2) L(3-5) True by (simp add: add_program_def code_byte_def)
    from halt_rounds[OF assms(1) L(2) this] show ?thesis
      using L True by (auto simp: add.assoc)
  next
    case False
    have "R_CX (x86 L) \<noteq> 0" using False by (simp add: L(7))
    then have "unat (R_CX (x86 L) - 1) < unat (R_CX (x86 L))" by (simp add: unat_minus_one unat_gt_0)
    then have "unat (R_CX (x86 L) - 1) < unat (R_CX (x86 M) - 1)" by (simp only: L(7))
    moreover have "add_program (emu_mem L) (R_CS (x86 L)) (R_IP (x86 L)) w"
      using less.prems(2) L(3-5) False by simp
    ultimately obtain N where N: "exec_loop E L = Some N" "R_AX (x86 N) = R_AX (x86 L) + R_CX (x86 L) * w"
      "R_CX (x86 N) = 0" "R_IP (x86 N) = R_IP (x86 L) + 6" "emu_mem N = emu_mem L"
      using less.hyps[OF _ L(2)] by blast
    then show ?thesis using L False by (intro exI[of _ N]) (simp add: algebra_simps)
  qed
qed

text \<open>
  C6. \<open>X86EMU_exec\<close> runs a program to its end: on a machine between two instructions with nothing pending,
  \<open>ADD AX, w; LOOP -5; HLT\<close> halts with CX times \<open>w\<close> added to AX, CX 0, IP past the HLT and the memory as it was,
  for every CX, also 0, which makes 65536 passes.
\<close>

theorem add_program_runs:
  assumes "plain_env E" "block M" "prefixes_clear M" "x86_debug (x86 M) AND DEBUG_EXIT = 0"
    and "add_program (emu_mem M) (R_CS (x86 M)) (R_IP (x86 M)) w"
  shows "\<exists>N. X86EMU_exec E M = Some N \<and> R_AX (x86 N) = R_AX (x86 M) + R_CX (x86 M) * w \<and> R_CX (x86 N) = 0
    \<and> R_IP (x86 N) = R_IP (x86 M) + 6 \<and> emu_mem N = emu_mem M"
proof -
  let ?M = "regs (\<lambda>st. st\<lparr> x86_intr := 0 \<rparr>) M"
  have "running ?M" "add_program (emu_mem ?M) (R_CS (x86 ?M)) (R_IP (x86 ?M)) w"
    using assms(2-) by (simp_all add: running_def prefixes_clear_def safe_simps R_IP_def)
  from add_passes[OF assms(1) this] show ?thesis
    by (simp add: X86EMU_exec_def R_AX_def R_CX_def R_IP_def)
qed

definition add_machine :: "u8 list X86EMU" where
  "add_machine = \<lparr> x86 = reset_regs\<lparr> R_ECX := 7 \<rparr>,
     emu_mem = [0x05, 0x0B, 0x00, 0xE2, 0xFB, 0xF4] @ replicate 0x110000 0 \<rparr>"

lemma add_machine_facts:
  "block add_machine" "prefixes_clear add_machine" "x86_debug (x86 add_machine) AND DEBUG_EXIT = 0"
  "R_CX (x86 add_machine) = 7" "R_AX (x86 add_machine) = 0" "R_IP (x86 add_machine) = 0" "R_CS (x86 add_machine) = 0"
  by (simp_all add: add_machine_def block_def real_mode_block_def prefixes_clear_def reset_regs_def R_CX_def R_AX_def
      R_IP_def x_reg_def)

lemma add_machine_code: "add_program (emu_mem add_machine) 0 0 11"
  by (simp add: add_machine_def add_program_def word_at_def seg_addr_def)

theorem add_program_runs_witness: "\<exists>N. X86EMU_exec nop_env add_machine = Some N \<and> R_AX (x86 N) = 77"
  using add_program_runs[OF nop_machine_facts(3) add_machine_facts(1-3), of 11] add_machine_facts(4-) add_machine_code
  by auto

end
