(* ===== verification/X86StringSpec.thy ===== *)
theory X86StringSpec
  imports X86SafeExec
begin

unbundle bit_operations_syntax

text \<open>
  What the repeated string instructions compute on the block: REP STOSB fills, REP MOVSB copies, REPNE
  SCASB searches and REPE CMPSB compares, in both directions and across the end of a segment.
\<close>

section \<open>Iterated steps\<close>

lemma count_loop_Suc: "count_loop step (Suc n) M = do { M \<leftarrow> count_loop step n M; step M }"
proof (induction n arbitrary: M)
  case (Suc n)
  show ?case
  proof (cases "step M")
    case (Some v)
    have front: "count_loop step (Suc i) M = count_loop step i v" for i by (simp add: Some)
    show ?thesis unfolding front by (rule Suc.IH)
  qed simp
qed (simp add: bind_eq_Some split: bind_splits)

declare count_loop.simps(2) [simp del]

text \<open>
  A loop over CX is the iteration of its step up to the first state that stops it, or CX times.
\<close>

context counted_step
begin

lemma iterate:
  assumes "block M"
  shows "\<exists>N. count_loop step i M = Some N \<and> block N \<and> R_CX (x86 N) = R_CX (x86 M) - of_nat i"
proof (induction i)
  case (Suc i)
  then obtain N where N: "count_loop step i M = Some N" "block N" "R_CX (x86 N) = R_CX (x86 M) - of_nat i" by blast
  show ?case using counts[OF N(2)] N(1,3) by (auto simp: count_loop_Suc)
qed (use assms in simp)

lemma stops:
  assumes "block M"
  shows "\<exists>i N. cx_loop step stop M = Some N \<and> count_loop step i M = Some N \<and> i \<le> unat (R_CX (x86 M))
    \<and> (i = unat (R_CX (x86 M)) \<or> 0 < i \<and> stop (x86 N))
    \<and> (\<forall>j L. 0 < j \<and> j < i \<and> count_loop step j M = Some L \<longrightarrow> \<not> stop (x86 L))"
  using assms
proof (induction "unat (R_CX (x86 M))" arbitrary: M)
  case 0
  then have "R_CX (x86 M) = 0" by (simp add: unat_eq_0)
  then have "cx_loop step stop M = Some M \<and> count_loop step 0 M = Some M \<and> 0 = unat (R_CX (x86 M))"
    by (simp add: cx_loop.simps)
  then show ?case by (metis le_refl not_less_zero)
next
  case (Suc n)
  then have cx: "R_CX (x86 M) \<noteq> 0" by auto
  obtain M' where M': "step M = Some M'" "block M'" "R_CX (x86 M') = R_CX (x86 M) - 1"
    using counts[OF Suc.prems] by blast
  have n: "unat (R_CX (x86 M')) = n" using Suc.hyps(2) cx by (simp add: M'(3) unat_minus_one)
  have front: "count_loop step (Suc j) M = count_loop step j M'" for j
    by (simp add: count_loop.simps(2) M'(1))
  have loop: "cx_loop step stop M = (if stop (x86 M') then Some M' else cx_loop step stop M')"
    using cx M'(1) by (subst cx_loop.simps) simp
  show ?case
  proof (cases "stop (x86 M')")
    case True
    then have "cx_loop step stop M = Some M' \<and> count_loop step (Suc 0) M = Some M' \<and> Suc 0 \<le> unat (R_CX (x86 M))
      \<and> 0 < Suc 0 \<and> stop (x86 M')"
      using Suc.hyps(2)[symmetric] by (simp add: loop front)
    then show ?thesis by (intro exI[of _ "Suc 0"] exI[of _ M']) simp
  next
    case False
    obtain i N where N: "cx_loop step stop M' = Some N" "count_loop step i M' = Some N" "i \<le> n"
      "i = n \<or> 0 < i \<and> stop (x86 N)"
      "\<And>j L. 0 < j \<Longrightarrow> j < i \<Longrightarrow> count_loop step j M' = Some L \<Longrightarrow> \<not> stop (x86 L)"
      using Suc.hyps(1)[OF n[symmetric] M'(2)] n by metis
    have before: "\<not> stop (x86 L)" if "0 < j" "j < Suc i" "count_loop step j M = Some L" for j L
    proof (cases j)
      case (Suc k)
      then have "count_loop step k M' = Some L" using that(3) by (simp add: front)
      then show ?thesis using N(5)[of k L] that(2) Suc False by (cases k) auto
    qed (use that(1) in simp)
    show ?thesis
      using N(1-4) False Suc.hyps(2) before by (intro exI[of _ "Suc i"] exI[of _ N]) (auto simp: loop front)
  qed
qed

text \<open>If the state after the step number \<open>i\<close> stops the loop exactly where \<open>P i\<close> holds, the loop searches.\<close>

lemma search:
  assumes "block M" "R_CX (x86 M) \<noteq> 0"
    and "\<And>i N. count_loop step (Suc i) M = Some N \<Longrightarrow> stop (x86 N) = P i"
  shows "\<exists>k N. cx_loop step stop M = Some N \<and> count_loop step (Suc k) M = Some N \<and> k < unat (R_CX (x86 M))
    \<and> (\<forall>i<k. \<not> P i) \<and> (P k \<or> Suc k = unat (R_CX (x86 M)))"
proof -
  obtain i N where N: "cx_loop step stop M = Some N" "count_loop step i M = Some N" "i \<le> unat (R_CX (x86 M))"
    "i = unat (R_CX (x86 M)) \<or> 0 < i \<and> stop (x86 N)"
    "\<And>j L. 0 < j \<Longrightarrow> j < i \<Longrightarrow> count_loop step j M = Some L \<Longrightarrow> \<not> stop (x86 L)"
    using stops[OF assms(1), of stop] by metis
  have "unat (R_CX (x86 M)) \<noteq> 0" using assms(2) by (simp add: unat_eq_0)
  then obtain k where k: "i = Suc k" using N(4) by (cases i) auto
  have "\<not> P j" if "j < k" for j
  proof -
    obtain L where L: "count_loop step (Suc j) M = Some L" using iterate[OF assms(1), of "Suc j"] by blast
    then show ?thesis using N(5)[of "Suc j" L] that assms(3)[OF L] k by simp
  qed
  then show ?thesis using N(1-4) assms(3)[of k N] k by (intro exI[of _ k] exI[of _ N]) auto
qed

end

section \<open>Bytes of a segment\<close>

abbreviation (input) cell_of :: "u16 \<Rightarrow> u16 \<Rightarrow> nat" where
  "cell_of s p \<equiv> unat (seg_addr s (ucast p))"

text \<open>The data segment of the current prefixes.\<close>

definition data_seg :: "u8 list X86EMU \<Rightarrow> u16" where
  "data_seg M = ucast (fst (get_data_segment M))"

lemma data_seg_base: "fst (get_data_segment M) = ucast (data_seg M)"
proof -
  obtain s M' where "get_data_segment M = (ucast (s :: u16), M')" by (rule data_segment)
  moreover have "ucast (ucast s :: u32) = s" by (rule bit_word_eqI) (auto simp: bit_simps)
  ultimately show ?thesis by (simp add: data_seg_def)
qed

lemma cell_inside: "block M \<Longrightarrow> cell_of s p < length (emu_mem M)"
proof -
  have "unat s < 65536" "unat p < 65536"
    using unsigned_less[of s, where ?'a = nat] unsigned_less[of p, where ?'a = nat] by simp_all
  then show "block M \<Longrightarrow> ?thesis" using block_length[of M] by (simp add: unat_seg_addr)
qed

lemma read_cell:
  assumes "block M"
  shows "rdb (seg_addr s (ucast (p :: u16))) M = Some (emu_mem M ! cell_of s p, M)"
proof (rule byte_mem.rd_cell)
  show "byte_at (emu_mem M) (seg_addr s (ucast p)) = Some (emu_mem M ! cell_of s p)"
    using inside_at(1)[OF assms inside_seg, of s p] by (auto simp: byte_at_def split: if_splits)
qed

lemma write_cell:
  assumes "block M"
  shows "wrb (seg_addr s (ucast (p :: u16))) v M = Some (M\<lparr> emu_mem := (emu_mem M)[cell_of s p := v] \<rparr>)"
proof -
  have "\<not> out_of_range (of_nat 1) (seg_addr s (ucast p)) (emu_mem M)"
    using cell_inside[OF assms, of s p] block_length[OF assms] by (intro in_range) auto
  then show ?thesis using cell_inside[OF assms] by (simp add: wrb_def Let_def)
qed

lemma block_data: "block M \<Longrightarrow> block (snd (get_data_segment M))"
  by (simp add: block_def get_data_segment_def Let_def X86EMU_halt_sys_def)

lemma data_cell:
  assumes "block M"
  shows "fetch_data_byte default_funcs (ucast (p :: u16)) M
    = Some (emu_mem M ! cell_of (data_seg M) p, snd (get_data_segment M))"
proof -
  have "push_bit 4 (ucast (data_seg M)) + ucast p = seg_addr (data_seg M) (ucast p)"
    by (simp add: seg_addr_def)
  moreover have "emu_mem (snd (get_data_segment M)) = emu_mem M"
    by (simp add: get_data_segment_def Let_def X86EMU_halt_sys_def)
  ultimately show ?thesis
    using read_cell[OF block_data[OF assms], of "data_seg M" p]
    by (simp add: fetch_data_byte_def case_prod_beta data_seg_base safe_simps)
qed

text \<open>A string instruction changes CX, SI, DI and the flags; a conflict of overrides halts.\<close>

definition string_frame :: "u8 list X86EMU \<Rightarrow> u8 list X86EMU \<Rightarrow> bool" where
  "string_frame M N \<longleftrightarrow> (\<forall>f \<in> {R_EAX, R_EBX, R_EDX, R_ESP, R_EBP, R_EIP, x86_mode}. f (x86 N) = f (x86 M))
     \<and> (\<forall>f \<in> {R_CS, R_DS, R_SS, R_ES, R_FS, R_GS}. f (x86 N) = f (x86 M))"

lemma string_frame_refl [simp]: "string_frame M M"
  by (simp add: string_frame_def)

lemma string_frame_trans: "string_frame L M \<Longrightarrow> string_frame M N \<Longrightarrow> string_frame L N"
  by (simp add: string_frame_def)

lemma string_frame_same:
  assumes "string_frame M N"
  shows "R_ES (x86 N) = R_ES (x86 M)" "R_EAX (x86 N) = R_EAX (x86 M)" "x86_mode (x86 N) = x86_mode (x86 M)"
    "R_AL (x86 N) = R_AL (x86 M)" "data_seg N = data_seg M"
  using assms by (simp_all add: string_frame_def R_AL_def data_seg_def get_data_segment_def Let_def)

lemma string_frame_steps [simp]:
  "string_frame M (add_SI i N) = string_frame M N" "string_frame M (add_DI i N) = string_frame M N"
  "string_frame M (dec_CX N) = string_frame M N" "string_frame M (N\<lparr> emu_mem := m \<rparr>) = string_frame M N"
  "string_frame M (snd (get_data_segment N)) = string_frame M N"
  "string_frame M (X86EMU_halt_sys N) = string_frame M N"
  by (auto simp: string_frame_def add_SI_def add_DI_def dec_CX_def set_SI_def set_DI_def set_CX_def
      get_data_segment_def Let_def X86EMU_halt_sys_def)

lemma index_simps [simp]:
  "R_DI (x86 (add_DI i M)) = R_DI (x86 M) + i" "R_DI (x86 (add_SI i M)) = R_DI (x86 M)"
  "R_SI (x86 (add_SI i M)) = R_SI (x86 M) + i" "R_SI (x86 (add_DI i M)) = R_SI (x86 M)"
  "R_DI (x86 (dec_CX M)) = R_DI (x86 M)" "R_SI (x86 (dec_CX M)) = R_SI (x86 M)"
  "R_DI (x86 (snd (get_data_segment M))) = R_DI (x86 M)" "R_SI (x86 (snd (get_data_segment M))) = R_SI (x86 M)"
  "emu_mem (add_DI i M) = emu_mem M" "emu_mem (add_SI i M) = emu_mem M" "emu_mem (dec_CX M) = emu_mem M"
  "emu_mem (snd (get_data_segment M)) = emu_mem M" "R_ES (x86 (snd (get_data_segment M))) = R_ES (x86 M)"
  "R_DI (set_CX v st) = R_DI st" "R_SI (set_CX v st) = R_SI st"
  by (simp_all add: R_DI_def R_SI_def add_DI_def add_SI_def dec_CX_def set_DI_def set_SI_def set_CX_def
      get_data_segment_def Let_def X86EMU_halt_sys_def)

lemma zero_flag_moves [simp]:
  "ACCESS_FLAG f (x86 (add_DI i M)) = ACCESS_FLAG f (x86 M)" "ACCESS_FLAG f (x86 (add_SI i M)) = ACCESS_FLAG f (x86 M)"
  "ACCESS_FLAG f (x86 (dec_CX M)) = ACCESS_FLAG f (x86 M)"
  by (simp_all add: ACCESS_FLAG_def add_DI_def add_SI_def dec_CX_def set_DI_def set_SI_def set_CX_def)

text \<open>The place of element number \<open>i\<close>.\<close>

definition place :: "u16 \<Rightarrow> u16 \<Rightarrow> u16 \<Rightarrow> nat \<Rightarrow> nat" where
  "place s p inc i = cell_of s (p + of_nat i * inc)"

lemma block_mem_update: "block M \<Longrightarrow> block (M\<lparr> emu_mem := (emu_mem M)[i := v] \<rparr>)"
  by (simp add: block_def real_mode_block_def)

text \<open>Clearing the prefixes touches the mode only.\<close>

lemma cleared_fields:
  "emu_mem (DECODE_CLEAR_SEGOVR M) = emu_mem M" "emu_mem (clear_mode b M) = emu_mem M"
  "R_CX (x86 (DECODE_CLEAR_SEGOVR M)) = R_CX (x86 M)" "R_CX (x86 (clear_mode b M)) = R_CX (x86 M)"
  "R_DI (x86 (DECODE_CLEAR_SEGOVR M)) = R_DI (x86 M)" "R_DI (x86 (clear_mode b M)) = R_DI (x86 M)"
  "R_SI (x86 (DECODE_CLEAR_SEGOVR M)) = R_SI (x86 M)" "R_SI (x86 (clear_mode b M)) = R_SI (x86 M)"
  "ACCESS_FLAG f (x86 (DECODE_CLEAR_SEGOVR M)) = ACCESS_FLAG f (x86 M)"
  "ACCESS_FLAG f (x86 (clear_mode b M)) = ACCESS_FLAG f (x86 M)"
  by (simp_all add: DECODE_CLEAR_SEGOVR_def clear_mode_def R_CX_def R_DI_def R_SI_def ACCESS_FLAG_def)

lemma rep_mode: "(m AND NOT REP_BITS) AND SYSMODE_SEGMASK = m AND SYSMODE_SEGMASK"
proof -
  have "NOT REP_BITS AND SYSMODE_SEGMASK = SYSMODE_SEGMASK"
    by (simp add: REP_BITS_def SYSMODE_PREFIX_REPE_def SYSMODE_PREFIX_REPNE_def SYSMODE_SEGMASK_def
        SYSMODE_SEG_DS_SS_def SYSMODE_SEGOVR_CS_def SYSMODE_SEGOVR_DS_def SYSMODE_SEGOVR_ES_def
        SYSMODE_SEGOVR_FS_def SYSMODE_SEGOVR_GS_def SYSMODE_SEGOVR_SS_def)
  then show ?thesis by (simp add: and.assoc)
qed

lemma rep_cleared:
  "R_SI (x86 (clear_mode REP_BITS (regs (set_CX 0) M))) = R_SI (x86 M)"
  "R_DI (x86 (clear_mode REP_BITS (regs (set_CX 0) M))) = R_DI (x86 M)"
  "R_ES (x86 (clear_mode REP_BITS (regs (set_CX 0) M))) = R_ES (x86 M)"
  "data_seg (clear_mode REP_BITS (regs (set_CX 0) M)) = data_seg M"
  "emu_mem (clear_mode REP_BITS (regs (set_CX 0) M)) = emu_mem M"
  "R_CX (x86 (clear_mode REP_BITS (regs (set_CX 0) M))) = 0"
  using rep_mode[of "x86_mode (x86 M)"]
  by (simp_all add: clear_mode_def R_SI_def R_DI_def R_CX_def set_CX_def data_seg_def get_data_segment_def Let_def)

section \<open>REP STOSB\<close>

lemma nth_update: "a < length xs \<Longrightarrow> xs[i := v] ! a = (if a = i then v else xs ! a)"
  by (cases "i < length xs") (simp_all add: nth_list_update)

lemma stos_step_at:
  assumes "block M"
  shows "stos_step8 default_funcs M = Some (M\<lparr> emu_mem := (emu_mem M)[cell_of (R_ES (x86 M)) (R_DI (x86 M)) := R_AL (x86 M)] \<rparr>)"
  using write_cell[OF assms] by (simp add: stos_step8_def store_data_byte_abs_def safe_simps)

lemma stos_iterate:
  assumes "block M" "count_loop (\<lambda>M. do { M \<leftarrow> stos_step8 default_funcs M; Some (add_DI inc (dec_CX M)) }) i M = Some N"
  shows "string_frame M N \<and> R_DI (x86 N) = R_DI (x86 M) + of_nat i * inc \<and> length (emu_mem N) = length (emu_mem M)
    \<and> (\<forall>a < length (emu_mem M). emu_mem N ! a
         = (if a \<in> place (R_ES (x86 M)) (R_DI (x86 M)) inc ` {..<i} then R_AL (x86 M) else emu_mem M ! a))"
  using assms(2)
proof (induction i arbitrary: N)
  case (Suc i)
  obtain L where L: "count_loop (\<lambda>M. do { M \<leftarrow> stos_step8 default_funcs M; Some (add_DI inc (dec_CX M)) }) i M = Some L"
    "block L" using stos_loop.iterate[OF assms(1), of inc i] by blast
  note IH = Suc.IH[OF L(1)]
  have "N = add_DI inc (dec_CX (L\<lparr> emu_mem := (emu_mem L)[cell_of (R_ES (x86 L)) (R_DI (x86 L)) := R_AL (x86 L)] \<rparr>))"
    using Suc.prems L by (simp add: count_loop_Suc stos_step_at)
  moreover have "cell_of (R_ES (x86 L)) (R_DI (x86 L)) = place (R_ES (x86 M)) (R_DI (x86 M)) inc i"
    using IH string_frame_same[of M L] by (simp add: place_def)
  ultimately show ?case using IH string_frame_same[of M L]
    by (simp add: lessThan_Suc nth_update distrib_right)
qed simp

text \<open>
  REP STOSB fills: with either repeat prefix it stores AL in the CX cells from ES:DI on, upwards or
  downwards as DF says and wrapping around in the segment, leaves every other byte as it was, moves DI past
  the last cell and uses CX up.
\<close>

theorem rep_stosb_fills:
  assumes "block M" "mode_has REP_BITS M"
  defines "inc \<equiv> str_inc 1 M"
  shows "\<exists>N. x86emuOp_stos_byte default_funcs M = Some N \<and> R_CX (x86 N) = 0
    \<and> R_DI (x86 N) = R_DI (x86 M) + R_CX (x86 M) * inc \<and> length (emu_mem N) = length (emu_mem M)
    \<and> (\<forall>a < length (emu_mem M). emu_mem N ! a
         = (if a \<in> place (R_ES (x86 M)) (R_DI (x86 M)) inc ` {..<unat (R_CX (x86 M))}
            then R_AL (x86 M) else emu_mem M ! a))"
proof -
  let ?step = "\<lambda>M. do { M \<leftarrow> stos_step8 default_funcs M; Some (add_DI inc (dec_CX M)) }"
  obtain N where N: "cx_loop ?step (\<lambda>_. False) M = Some N" "count_loop ?step (unat (R_CX (x86 M))) M = Some N"
    using stos_loop.stops[OF assms(1), of inc "\<lambda>_. False"] by auto
  have cx: "R_CX (x86 N) = 0" using stos_loop.iterate[OF assms(1), of inc "unat (R_CX (x86 M))"] N(2) by simp
  have "x86emuOp_stos_byte default_funcs M = Some (DECODE_CLEAR_SEGOVR (clear_mode REP_BITS N))"
    using assms(2) N(1) by (simp add: x86emuOp_stos_byte_def instr_def inc_def)
  then show ?thesis
    using stos_iterate[OF assms(1) N(2)] cx by (simp add: cleared_fields)
qed

section \<open>REP MOVSB\<close>

lemma place_inj:
  assumes "place s p inc j = place s p inc k" "inc \<in> {1, - 1}" "j < 65536" "k < 65536"
  shows "j = k"
proof -
  have "unat (p + of_nat j * inc) = unat (p + of_nat k * inc)"
    using assms(1) by (simp add: place_def unat_seg_addr)
  then have "p + of_nat j * inc = p + of_nat k * inc" by (simp only: word_unat_eq_iff)
  then have "(of_nat j :: u16) = of_nat k" using assms(2) by auto
  then have "unat (of_nat j :: u16) = unat (of_nat k :: u16)" by simp
  then show ?thesis using assms(3,4) by (simp add: unat_of_nat)
qed

lemma str_inc_1: "str_inc 1 M \<in> {1, - 1}"
  by (simp add: str_inc_def)

lemma movs_step_at:
  assumes "block M"
  shows "movs_step8 default_funcs inc M = Some (add_DI inc (add_SI inc (snd (get_data_segment M)\<lparr> emu_mem :=
    (emu_mem M)[cell_of (R_ES (x86 M)) (R_DI (x86 M)) := emu_mem M ! cell_of (data_seg M) (R_SI (x86 M))] \<rparr>)))"
  using data_cell[OF assms, of "R_SI (x86 M)"] write_cell[OF block_data[OF assms]]
  by (simp add: movs_step8_def store_data_byte_abs_def safe_simps)

lemma movs_iterate:
  fixes M inc
  defines "src \<equiv> place (data_seg M) (R_SI (x86 M)) inc" and "dst \<equiv> place (R_ES (x86 M)) (R_DI (x86 M)) inc"
  assumes "block M" "inc \<in> {1, - 1}" "i < 65536" "\<And>j k. k < j \<Longrightarrow> j < i \<Longrightarrow> dst k \<noteq> src j"
    "count_loop (movs_step8 default_funcs inc) i M = Some N"
  shows "block N \<and> string_frame M N \<and> R_DI (x86 N) = R_DI (x86 M) + of_nat i * inc
    \<and> R_SI (x86 N) = R_SI (x86 M) + of_nat i * inc \<and> R_CX (x86 N) = R_CX (x86 M)
    \<and> (\<forall>j < i. emu_mem N ! dst j = emu_mem M ! src j)
    \<and> (\<forall>a < length (emu_mem M). a \<notin> dst ` {..<i} \<longrightarrow> emu_mem N ! a = emu_mem M ! a)
    \<and> length (emu_mem N) = length (emu_mem M)"
  using assms(5-)
proof (induction i arbitrary: N)
  case (Suc i)
  then obtain L where L: "count_loop (movs_step8 default_funcs inc) i M = Some L"
    by (auto simp: count_loop_Suc bind_eq_Some)
  have IH: "block L" "string_frame M L" "R_DI (x86 L) = R_DI (x86 M) + of_nat i * inc"
    "R_SI (x86 L) = R_SI (x86 M) + of_nat i * inc" "R_CX (x86 L) = R_CX (x86 M)"
    "\<And>j. j < i \<Longrightarrow> emu_mem L ! dst j = emu_mem M ! src j"
    "\<And>a. a < length (emu_mem M) \<Longrightarrow> a \<notin> dst ` {..<i} \<Longrightarrow> emu_mem L ! a = emu_mem M ! a"
    "length (emu_mem L) = length (emu_mem M)"
    using Suc.IH[OF _ _ L] Suc.prems(1,2) by (metis Suc_lessD less_SucI)+
  have places: "cell_of (R_ES (x86 L)) (R_DI (x86 L)) = dst i" "cell_of (data_seg L) (R_SI (x86 L)) = src i"
    using IH(2-4) string_frame_same[of M L] by (simp_all add: place_def src_def dst_def)
  have inside: "dst j < length (emu_mem M)" "src j < length (emu_mem M)" for j
    using cell_inside[OF assms(3)] by (simp_all add: place_def src_def dst_def)
  have "src i \<notin> dst ` {..<i}" using Suc.prems(2)[of _ i] by fastforce
  then have read: "emu_mem L ! src i = emu_mem M ! src i" by (rule IH(7)[OF inside(2)])
  have new: "dst j \<noteq> dst i" if "j < i" for j
    using place_inj[OF _ assms(4), of "R_ES (x86 M)" "R_DI (x86 M)" j i] that Suc.prems(1) by (auto simp: dst_def)
  have N: "N = add_DI inc (add_SI inc (snd (get_data_segment L)\<lparr> emu_mem := (emu_mem L)[dst i := emu_mem M ! src i] \<rparr>))"
    using Suc.prems(3) L movs_step_at[OF IH(1)] by (simp add: count_loop_Suc places read)
  have "block N" using IH(1) by (simp add: N block_def real_mode_block_def)
  moreover have "R_CX (x86 N) = R_CX (x86 M)" using IH(5) by (simp add: N segment_cx)
  moreover have "R_DI (x86 N) = R_DI (x86 M) + of_nat (Suc i) * inc" "R_SI (x86 N) = R_SI (x86 M) + of_nat (Suc i) * inc"
    using IH(3,4) by (simp_all add: N distrib_right)
  moreover have "emu_mem N = (emu_mem L)[dst i := emu_mem M ! src i]" by (simp add: N)
  ultimately show ?case
    using IH(2,6-8) new inside by (auto simp: N lessThan_Suc nth_update less_Suc_eq)
qed (use assms(3) in simp)

text \<open>
  All registers after copying: SI and DI have moved, and the system is halted if the prefixes name
  more than one segment for the source, which \<open>get_data_segment\<close> reports at each read.
\<close>

definition override_conflict :: "u32 \<Rightarrow> bool" where
  "override_conflict mode \<longleftrightarrow> mode AND (SYSMODE_SEGMASK AND NOT SYSMODE_SEG_DS_SS) \<notin>
     {0, SYSMODE_SEGOVR_CS, SYSMODE_SEGOVR_DS, SYSMODE_SEGOVR_ES, SYSMODE_SEGOVR_FS, SYSMODE_SEGOVR_GS,
      SYSMODE_SEGOVR_SS}"

lemmas segment_bits = SYSMODE_SEGMASK_def SYSMODE_SEG_DS_SS_def SYSMODE_SEGOVR_CS_def SYSMODE_SEGOVR_DS_def
  SYSMODE_SEGOVR_ES_def SYSMODE_SEGOVR_FS_def SYSMODE_SEGOVR_GS_def SYSMODE_SEGOVR_SS_def

lemma override_conflict_cong:
  assumes "m AND SYSMODE_SEGMASK = m' AND SYSMODE_SEGMASK"
  shows "override_conflict m = override_conflict m'"
  using arg_cong[OF assms, of "\<lambda>w. w AND NOT SYSMODE_SEG_DS_SS"] by (simp add: override_conflict_def and.assoc)

lemma segment_conflict:
  "snd (get_data_segment M) = (if override_conflict (x86_mode (x86 M)) then X86EMU_halt_sys M else M)"
proof -
  let ?s = "x86_mode (x86 M) AND SYSMODE_SEGMASK"
  let ?x = "x86_mode (x86 M) AND 0x7E" and ?y = "x86_mode (x86 M) AND 1"
  have s: "?s = ?x OR ?y" by (simp add: segment_bits flip: bit.conj_disj_distrib)
  have x: "override_conflict (x86_mode (x86 M)) \<longleftrightarrow> ?x \<notin> {0, 2, 4, 8, 16, 32, 64}"
    by (simp add: override_conflict_def segment_bits)
  have y: "?y = 0 \<or> ?y = 1"
    by (cases "even (x86_mode (x86 M))") (simp_all add: and_one_eq even_iff_mod_2_eq_zero odd_iff_mod_2_eq_one)
  have seg: "?s AND 0x7E = ?x" by (simp add: segment_bits and.assoc)
  have "override_conflict (x86_mode (x86 M)) \<longleftrightarrow>
      ?s \<notin> {0, 1, 2, 3, 4, 5, 8, 9, 16, 17, 32, 33, 64, 65}"
  proof
    assume "override_conflict (x86_mode (x86 M))"
    then show "?s \<notin> {0, 1, 2, 3, 4, 5, 8, 9, 16, 17, 32, 33, 64, 65}"
      unfolding x seg[symmetric] by auto
  next
    assume "?s \<notin> {0, 1, 2, 3, 4, 5, 8, 9, 16, 17, 32, 33, 64, 65}"
    then show "override_conflict (x86_mode (x86 M))" unfolding x s using y by auto
  qed
  then show ?thesis by (simp add: get_data_segment_def Let_def segment_bits)
qed

definition halt_on_conflict :: "x86_regs \<Rightarrow> x86_regs" where
  "halt_on_conflict st =
     (if override_conflict (x86_mode st) then st\<lparr> x86_intr := x86_intr st OR INTR_HALTED \<rparr> else st)"

lemma segment_regs: "x86 (snd (get_data_segment M)) = halt_on_conflict (x86 M)"
  by (simp add: segment_conflict halt_on_conflict_def X86EMU_halt_sys_def)

lemma set_x_reg_same: "set_x_reg (x_reg r) r = r" "set_x_reg v (set_x_reg w r) = set_x_reg v r"
  by (rule bit_word_eqI; auto simp: set_x_reg_def x_reg_def reg_masks bit_simps dest: bit_imp_le_length)+

lemma halt_simps:
  "halt_on_conflict (set_SI v st) = set_SI v (halt_on_conflict st)"
  "halt_on_conflict (set_DI v st) = set_DI v (halt_on_conflict st)"
  "halt_on_conflict (halt_on_conflict st) = halt_on_conflict st"
  "R_SI (halt_on_conflict st) = R_SI st" "R_DI (halt_on_conflict st) = R_DI st"
  by (simp_all add: halt_on_conflict_def set_SI_def set_DI_def R_SI_def R_DI_def or.assoc)

lemma index_sets:
  "set_SI v (set_DI w st) = set_DI w (set_SI v st)" "set_SI v (set_SI w st) = set_SI v st"
  "set_DI v (set_DI w st) = set_DI v st" "set_SI (R_SI st) st = st" "set_DI (R_DI st) st = st"
  by (simp_all add: set_SI_def set_DI_def R_SI_def R_DI_def set_x_reg_same)

lemma movs_registers:
  assumes "block M" "inc \<in> {1, - 1}" "i < 65536"
    and "count_loop (movs_step8 default_funcs inc) i M = Some N"
  shows "block N \<and> x86 N = set_DI (R_DI (x86 M) + of_nat i * inc) (set_SI (R_SI (x86 M) + of_nat i * inc)
    (if i = 0 then x86 M else halt_on_conflict (x86 M)))"
  using assms(3,4)
proof (induction i arbitrary: N)
  case 0
  then show ?case using assms(1) by (simp add: index_sets)
next
  case (Suc i)
  then obtain L where L: "count_loop (movs_step8 default_funcs inc) i M = Some L"
    by (auto simp: count_loop_Suc bind_eq_Some)
  have b: "block L" and x: "x86 L = set_DI (R_DI (x86 M) + of_nat i * inc) (set_SI (R_SI (x86 M) + of_nat i * inc)
      (if i = 0 then x86 M else halt_on_conflict (x86 M)))"
    using Suc.IH[OF _ L] Suc.prems(1) by simp_all
  have N: "N = add_DI inc (add_SI inc (snd (get_data_segment L)\<lparr> emu_mem :=
      (emu_mem L)[cell_of (R_ES (x86 L)) (R_DI (x86 L)) := emu_mem L ! cell_of (data_seg L) (R_SI (x86 L))] \<rparr>))"
    using Suc.prems(2) L movs_step_at[OF b] by (simp add: count_loop_Suc)
  have "block N" using b by (simp add: N block_def real_mode_block_def)
  moreover have "x86 N = set_DI (R_DI (x86 L) + inc) (set_SI (R_SI (x86 L) + inc) (halt_on_conflict (x86 L)))"
    by (simp add: N add_DI_def add_SI_def segment_regs halt_simps index_sets)
      (simp add: R_DI_def R_SI_def set_SI_def set_DI_def halt_on_conflict_def)
  moreover have "R_DI (x86 L) = R_DI (x86 M) + of_nat i * inc" "R_SI (x86 L) = R_SI (x86 M) + of_nat i * inc"
    unfolding x by (simp_all add: R_DI_def R_SI_def set_SI_def set_DI_def)
  moreover have "halt_on_conflict (x86 L) = set_DI (R_DI (x86 M) + of_nat i * inc)
      (set_SI (R_SI (x86 M) + of_nat i * inc) (halt_on_conflict (x86 M)))"
    unfolding x by (simp add: halt_simps)
  ultimately have "x86 N = set_DI (R_DI (x86 M) + of_nat i * inc + inc)
      (set_SI (R_SI (x86 M) + of_nat i * inc + inc) (halt_on_conflict (x86 M)))"
    by (simp only: index_sets)
  moreover have "R_DI (x86 M) + of_nat (Suc i) * inc = R_DI (x86 M) + of_nat i * inc + inc"
    "R_SI (x86 M) + of_nat (Suc i) * inc = R_SI (x86 M) + of_nat i * inc + inc"
    by (simp_all add: distrib_right)
  ultimately show ?case using \<open>block N\<close> by (simp only: nat.distinct if_False simp_thms)
qed

text \<open>What is left of the registers once the prefixes are cleared.\<close>

lemma rep_registers_end:
  "(set_DI d (set_SI e (if z then st\<lparr> x86_mode := m \<rparr> else halt_on_conflict (st\<lparr> x86_mode := m \<rparr>))))
     \<lparr> x86_mode := v \<rparr>
   = (set_DI d (set_SI e st))\<lparr> x86_mode := v,
       x86_intr := (if \<not> z \<and> override_conflict m then x86_intr st OR INTR_HALTED else x86_intr st) \<rparr>"
  by (simp add: halt_on_conflict_def set_DI_def set_SI_def)

lemma cx_keeps: "x86_intr (set_CX v st) = x86_intr st" "x86_mode (set_CX v st) = x86_mode st"
  by (simp_all add: set_CX_def)

lemma rep_registers_mode:
  "x86_mode (set_DI d (set_SI e (if z then st else halt_on_conflict st))) = x86_mode st"
  by (simp add: halt_on_conflict_def set_DI_def set_SI_def)

text \<open>
  C19. REP MOVSB copies: if no byte of the source is overwritten before it is read, the CX bytes from SI on
  in the data segment of the prefixes come out from ES:DI on and every other byte of the memory is as it was.
  Of the registers SI and DI are past the last ones and CX is used up, the prefix bits of the mode are
  cleared, and the system is halted if a byte was copied under two different segment overrides;
  everything else, the flags and the segment registers included, is unchanged.
\<close>

theorem rep_movsb_copies:
  fixes M
  defines "inc \<equiv> str_inc 1 M"
  defines "src \<equiv> place (data_seg M) (R_SI (x86 M)) inc" and "dst \<equiv> place (R_ES (x86 M)) (R_DI (x86 M)) inc"
  assumes "block M" "mode_has REP_BITS M" "\<And>j k. k < j \<Longrightarrow> j < unat (R_CX (x86 M)) \<Longrightarrow> dst k \<noteq> src j"
  shows "\<exists>N. x86emuOp_movs_byte default_funcs M = Some N
    \<and> x86 N = (set_DI (R_DI (x86 M) + R_CX (x86 M) * inc) (set_SI (R_SI (x86 M) + R_CX (x86 M) * inc)
        (set_CX 0 (x86 M))))
        \<lparr> x86_mode := (x86_mode (x86 M) AND NOT REP_BITS) AND NOT SYSMODE_CLRMASK,
          x86_intr := (if R_CX (x86 M) \<noteq> 0 \<and> override_conflict (x86_mode (x86 M))
                       then x86_intr (x86 M) OR INTR_HALTED else x86_intr (x86 M)) \<rparr>
    \<and> length (emu_mem N) = length (emu_mem M)
    \<and> (\<forall>j < unat (R_CX (x86 M)). emu_mem N ! dst j = emu_mem M ! src j)
    \<and> (\<forall>a < length (emu_mem M). a \<notin> dst ` {..<unat (R_CX (x86 M))} \<longrightarrow> emu_mem N ! a = emu_mem M ! a)"
proof -
  let ?n = "unat (R_CX (x86 M))" and ?M = "clear_mode REP_BITS (regs (set_CX 0) M)"
  have n: "?n < 65536" using unsigned_less[of "R_CX (x86 M)", where ?'a = nat] by simp
  have b: "block ?M" using assms(4) by (simp add: safe_simps)
  have same: "R_SI (x86 ?M) = R_SI (x86 M)" "R_DI (x86 ?M) = R_DI (x86 M)" "R_ES (x86 ?M) = R_ES (x86 M)"
    "data_seg ?M = data_seg M" "emu_mem ?M = emu_mem M" "R_CX (x86 ?M) = 0"
    by (simp_all add: rep_cleared)
  obtain N where N: "count_loop (movs_step8 default_funcs inc) ?n ?M = Some N"
    using count_loop_safe[of "movs_step8 default_funcs inc" ?M ?n, OF steps_safe(1) b] by (auto simp: returns_def)
  have run: "x86emuOp_movs_byte default_funcs M = Some (DECODE_CLEAR_SEGOVR N)"
    using assms(5) N by (simp add: x86emuOp_movs_byte_def instr_def inc_def take_count_def Let_def)
  have inc: "inc \<in> {1, - 1}" unfolding inc_def by (rule str_inc_1)
  have c: "override_conflict (x86_mode (x86 M) AND NOT REP_BITS) = override_conflict (x86_mode (x86 M))"
    by (rule override_conflict_cong[OF rep_mode])
  have zero: "?n = 0 \<longleftrightarrow> R_CX (x86 M) = 0" by (rule unat_eq_0)
  let ?st = "(set_CX 0 (x86 M))\<lparr> x86_mode := x86_mode (x86 M) AND NOT REP_BITS \<rparr>"
  have st: "x86 ?M = ?st" by (simp add: clear_mode_def set_CX_def)
  have cx: "of_nat ?n = R_CX (x86 M)" by simp
  have xN: "x86 N = set_DI (R_DI (x86 M) + R_CX (x86 M) * inc) (set_SI (R_SI (x86 M) + R_CX (x86 M) * inc)
      (if R_CX (x86 M) = 0 then ?st else halt_on_conflict ?st))"
    using movs_registers[OF b inc n N, unfolded same zero cx, unfolded st] by (rule conjunct2)
  have mode: "x86_mode (x86 N) = x86_mode (x86 M) AND NOT REP_BITS"
    unfolding xN rep_registers_mode by simp
  have "x86 (DECODE_CLEAR_SEGOVR N) = (x86 N)\<lparr> x86_mode := x86_mode (x86 N) AND NOT SYSMODE_CLRMASK \<rparr>"
    by (simp add: DECODE_CLEAR_SEGOVR_def)
  also have "\<dots> = (set_DI (R_DI (x86 M) + R_CX (x86 M) * inc)
      (set_SI (R_SI (x86 M) + R_CX (x86 M) * inc) (set_CX 0 (x86 M))))
        \<lparr> x86_mode := (x86_mode (x86 M) AND NOT REP_BITS) AND NOT SYSMODE_CLRMASK,
          x86_intr := (if R_CX (x86 M) \<noteq> 0 \<and> override_conflict (x86_mode (x86 M))
                       then x86_intr (x86 M) OR INTR_HALTED else x86_intr (x86 M)) \<rparr>"
    unfolding mode unfolding xN rep_registers_end cx_keeps c by (rule refl)
  finally have regs: "x86 (DECODE_CLEAR_SEGOVR N) = (set_DI (R_DI (x86 M) + R_CX (x86 M) * inc)
      (set_SI (R_SI (x86 M) + R_CX (x86 M) * inc) (set_CX 0 (x86 M))))
        \<lparr> x86_mode := (x86_mode (x86 M) AND NOT REP_BITS) AND NOT SYSMODE_CLRMASK,
          x86_intr := (if R_CX (x86 M) \<noteq> 0 \<and> override_conflict (x86_mode (x86 M))
                       then x86_intr (x86 M) OR INTR_HALTED else x86_intr (x86 M)) \<rparr>" .
  have "length (emu_mem N) = length (emu_mem M) \<and> (\<forall>j < ?n. emu_mem N ! dst j = emu_mem M ! src j)
    \<and> (\<forall>a < length (emu_mem M). a \<notin> dst ` {..<?n} \<longrightarrow> emu_mem N ! a = emu_mem M ! a)"
    using movs_iterate[OF b inc n _ N, unfolded same] assms(6) unfolding src_def dst_def by blast
  then show ?thesis using run regs unfolding cleared_fields(1)[of N, symmetric] by blast
qed

section \<open>REPNE SCASB and REPE CMPSB\<close>

lemma compare_frame: "string_frame M (regs (cmp_flags cmp_byte a b) M)" "block (regs g M) = block M"
proof -
  have "flags_frame 0x8D5 (x86 M) (snd (cmp_byte a b (x86 M)))"
    using cmp_byte_spec[of a b "x86 M"] by (auto simp: cmp_spec_def split: prod.splits)
  then have "cmp_flags cmp_byte a b (x86 M) = (x86 M)\<lparr> R_FLG := R_FLG (cmp_flags cmp_byte a b (x86 M)) \<rparr>"
    by (simp add: cmp_flags_def flags_frame_def)
  then obtain g where g: "cmp_flags cmp_byte a b (x86 M) = (x86 M)\<lparr> R_FLG := g \<rparr>" by blast
  show "string_frame M (regs (cmp_flags cmp_byte a b) M)" by (simp add: string_frame_def g)
qed (simp add: block_def)

lemma compare_flags:
  "ACCESS_FLAG F_ZF (cmp_flags cmp_byte a b st) = (a = b)"
  "R_DI (cmp_flags cmp_byte a b st) = R_DI st" "R_SI (cmp_flags cmp_byte a b st) = R_SI st"
proof -
  have "cmp_spec a b st (cmp_byte a b st)" by (rule cmp_byte_spec)
  then have f: "flags_frame 0x8D5 st (snd (cmp_byte a b st))" "result_flags (a - b) (snd (cmp_byte a b st))"
    by (auto simp: cmp_spec_def split: prod.splits)
  then show "ACCESS_FLAG F_ZF (cmp_flags cmp_byte a b st) = (a = b)"
    by (simp add: cmp_flags_def result_flags_def)
  have "cmp_flags cmp_byte a b st = st\<lparr> R_FLG := R_FLG (cmp_flags cmp_byte a b st) \<rparr>"
    using f(1) by (simp add: cmp_flags_def flags_frame_def)
  then obtain g where "cmp_flags cmp_byte a b st = st\<lparr> R_FLG := g \<rparr>" by blast
  then show "R_DI (cmp_flags cmp_byte a b st) = R_DI st" "R_SI (cmp_flags cmp_byte a b st) = R_SI st"
    by (simp_all add: R_DI_def R_SI_def)
qed

lemma scas_body_at:
  assumes "block M"
  shows "scas_body8 default_funcs M
    = Some (regs (cmp_flags cmp_byte (R_AL (x86 M)) (emu_mem M ! cell_of (R_ES (x86 M)) (R_DI (x86 M)))) M)"
  using read_cell[OF assms] by (simp add: scas_body8_def fetch_data_byte_abs_def safe_simps regs_def)

lemma cmps_body_at:
  assumes "block M"
  shows "cmps_body8 default_funcs M = Some (regs (cmp_flags cmp_byte (emu_mem M ! cell_of (data_seg M) (R_SI (x86 M)))
    (emu_mem M ! cell_of (R_ES (x86 M)) (R_DI (x86 M)))) (snd (get_data_segment M)))"
  using data_cell[OF assms] read_cell[OF block_data[OF assms]]
  by (simp add: cmps_body8_def fetch_data_byte_abs_def safe_simps)

interpretation scas_loop: counted_step "\<lambda>M. do { M \<leftarrow> scas_body8 default_funcs M; Some (add_DI inc (dec_CX M)) }"
  for inc by (rule keeps_cx_counts[OF bodies_keep_cx(5)]) (simp_all add: safe_simps)

interpretation cmps_loop: counted_step
  "\<lambda>M. do { M \<leftarrow> cmps_body8 default_funcs M; Some (add_DI inc (add_SI inc (dec_CX M))) }"
  for inc by (rule keeps_cx_counts[OF bodies_keep_cx(3), where move = "\<lambda>M. add_DI inc (add_SI inc M)"])
    (simp_all add: safe_simps)

lemma scas_iterate:
  assumes "block M" "count_loop (\<lambda>M. do { M \<leftarrow> scas_body8 default_funcs M; Some (add_DI inc (dec_CX M)) }) i M = Some N"
  shows "string_frame M N \<and> R_DI (x86 N) = R_DI (x86 M) + of_nat i * inc \<and> emu_mem N = emu_mem M
    \<and> (0 < i \<longrightarrow> ACCESS_FLAG F_ZF (x86 N)
          = (emu_mem M ! place (R_ES (x86 M)) (R_DI (x86 M)) inc (i - 1) = R_AL (x86 M)))"
  using assms(2)
proof (induction i arbitrary: N)
  case (Suc i)
  obtain L where L: "count_loop (\<lambda>M. do { M \<leftarrow> scas_body8 default_funcs M; Some (add_DI inc (dec_CX M)) }) i M = Some L"
    "block L" using scas_loop.iterate[OF assms(1), of inc i] by blast
  note IH = Suc.IH[OF L(1)]
  let ?b = "emu_mem L ! cell_of (R_ES (x86 L)) (R_DI (x86 L))"
  have "N = add_DI inc (dec_CX (regs (cmp_flags cmp_byte (R_AL (x86 L)) ?b) L))"
    using Suc.prems L by (simp add: count_loop_Suc scas_body_at)
  then show ?case using IH string_frame_same[of M L] string_frame_trans[OF _ compare_frame(1)]
    by (auto simp: place_def compare_flags distrib_right)
qed simp

lemma cmps_iterate:
  assumes "block M"
    "count_loop (\<lambda>M. do { M \<leftarrow> cmps_body8 default_funcs M; Some (add_DI inc (add_SI inc (dec_CX M))) }) i M = Some N"
  shows "string_frame M N \<and> R_DI (x86 N) = R_DI (x86 M) + of_nat i * inc
    \<and> R_SI (x86 N) = R_SI (x86 M) + of_nat i * inc \<and> emu_mem N = emu_mem M
    \<and> (0 < i \<longrightarrow> ACCESS_FLAG F_ZF (x86 N) = (emu_mem M ! place (data_seg M) (R_SI (x86 M)) inc (i - 1)
          = emu_mem M ! place (R_ES (x86 M)) (R_DI (x86 M)) inc (i - 1)))"
  using assms(2)
proof (induction i arbitrary: N)
  case (Suc i)
  obtain L where L: "count_loop (\<lambda>M. do { M \<leftarrow> cmps_body8 default_funcs M; Some (add_DI inc (add_SI inc (dec_CX M))) }) i M
      = Some L" "block L" using cmps_loop.iterate[OF assms(1), of inc i] by blast
  note IH = Suc.IH[OF L(1)]
  let ?a = "emu_mem L ! cell_of (data_seg L) (R_SI (x86 L))" and ?b = "emu_mem L ! cell_of (R_ES (x86 L)) (R_DI (x86 L))"
  have "N = add_DI inc (add_SI inc (dec_CX (regs (cmp_flags cmp_byte ?a ?b) (snd (get_data_segment L)))))"
    using Suc.prems L by (simp add: count_loop_Suc cmps_body_at)
  moreover have "string_frame M (snd (get_data_segment L))" using IH by simp
  ultimately show ?case using IH string_frame_same[of M L] string_frame_trans[OF _ compare_frame(1)]
    by (auto simp: place_def compare_flags distrib_right)
qed simp

text \<open>
  REPNE SCASB searches: it stops at the first byte from ES:DI on that equals AL, or after CX bytes;
  ZF says whether it was found, CX is less by the number of bytes looked at, and DI points past the last one.
\<close>

theorem repne_scasb_finds:
  assumes "block M" "mode_has SYSMODE_PREFIX_REPNE M" "\<not> mode_has SYSMODE_PREFIX_REPE M" "R_CX (x86 M) \<noteq> 0"
  defines "inc \<equiv> str_inc 1 M"
  defines "found \<equiv> \<lambda>i. emu_mem M ! place (R_ES (x86 M)) (R_DI (x86 M)) inc i = R_AL (x86 M)"
  shows "\<exists>N k. x86emuOp_scas_byte default_funcs M = Some N \<and> k < unat (R_CX (x86 M)) \<and> (\<forall>i<k. \<not> found i)
    \<and> (found k \<or> Suc k = unat (R_CX (x86 M))) \<and> ACCESS_FLAG F_ZF (x86 N) = found k
    \<and> R_CX (x86 N) = R_CX (x86 M) - of_nat (Suc k) \<and> R_DI (x86 N) = R_DI (x86 M) + of_nat (Suc k) * inc
    \<and> emu_mem N = emu_mem M"
proof -
  let ?step = "\<lambda>M. do { M \<leftarrow> scas_body8 default_funcs M; Some (add_DI inc (dec_CX M)) }"
  have "stop_differ (x86 N) = found i" if "count_loop ?step (Suc i) M = Some N" for i N
    using scas_iterate[OF assms(1) that] by (simp add: stop_differ_def found_def)
  then obtain k N where N: "cx_loop ?step stop_differ M = Some N" "count_loop ?step (Suc k) M = Some N"
    "k < unat (R_CX (x86 M))" "\<forall>i<k. \<not> found i" "found k \<or> Suc k = unat (R_CX (x86 M))"
    using scas_loop.search[OF assms(1,4), of inc stop_differ found] by blast
  have "x86emuOp_scas_byte default_funcs M = Some (DECODE_CLEAR_SEGOVR (clear_mode SYSMODE_PREFIX_REPNE N))"
    using assms(2,3) N(1) by (simp add: x86emuOp_scas_byte_def instr_def rep_branches_def inc_def)
  then show ?thesis
    using N(3-) scas_iterate[OF assms(1) N(2)] scas_loop.iterate[OF assms(1), of inc "Suc k"] N(2)
    by (intro exI[of _ "DECODE_CLEAR_SEGOVR (clear_mode SYSMODE_PREFIX_REPNE N)"] exI[of _ k])
      (simp add: cleared_fields found_def)
qed

text \<open>
  REPE CMPSB compares: it stops at the first place where the bytes from SI on in the data segment and
  those from ES:DI on differ, or after CX bytes; ZF says whether the last two bytes were equal, and the
  counters are past the last place looked at.
\<close>

theorem repe_cmpsb_compares:
  assumes "block M" "mode_has SYSMODE_PREFIX_REPE M" "R_CX (x86 M) \<noteq> 0"
  defines "inc \<equiv> str_inc 1 M"
  defines "same \<equiv> \<lambda>i. emu_mem M ! place (data_seg M) (R_SI (x86 M)) inc i
    = emu_mem M ! place (R_ES (x86 M)) (R_DI (x86 M)) inc i"
  shows "\<exists>N k. x86emuOp_cmps_byte default_funcs M = Some N \<and> k < unat (R_CX (x86 M)) \<and> (\<forall>i<k. same i)
    \<and> (\<not> same k \<or> Suc k = unat (R_CX (x86 M))) \<and> ACCESS_FLAG F_ZF (x86 N) = same k
    \<and> R_CX (x86 N) = R_CX (x86 M) - of_nat (Suc k) \<and> R_SI (x86 N) = R_SI (x86 M) + of_nat (Suc k) * inc
    \<and> R_DI (x86 N) = R_DI (x86 M) + of_nat (Suc k) * inc \<and> emu_mem N = emu_mem M"
proof -
  let ?step = "\<lambda>M. do { M \<leftarrow> cmps_body8 default_funcs M; Some (add_DI inc (add_SI inc (dec_CX M))) }"
  have "stop_equal (x86 N) = (\<not> same i)" if "count_loop ?step (Suc i) M = Some N" for i N
    using cmps_iterate[OF assms(1) that] by (simp add: stop_equal_def same_def)
  then obtain k N where N: "cx_loop ?step stop_equal M = Some N" "count_loop ?step (Suc k) M = Some N"
    "k < unat (R_CX (x86 M))" "\<forall>i<k. same i" "\<not> same k \<or> Suc k = unat (R_CX (x86 M))"
    using cmps_loop.search[OF assms(1,3), of inc stop_equal "\<lambda>i. \<not> same i"] by blast
  have "x86emuOp_cmps_byte default_funcs M = Some (DECODE_CLEAR_SEGOVR (clear_mode SYSMODE_PREFIX_REPE N))"
    using assms(2) N(1) by (simp add: x86emuOp_cmps_byte_def instr_def rep_branches_def inc_def)
  then show ?thesis
    using N(3-) cmps_iterate[OF assms(1) N(2)] cmps_loop.iterate[OF assms(1), of inc "Suc k"] N(2)
    by (intro exI[of _ "DECODE_CLEAR_SEGOVR (clear_mode SYSMODE_PREFIX_REPE N)"] exI[of _ k])
      (simp add: cleared_fields same_def)
qed

section \<open>Concrete runs\<close>

text \<open>A machine whose prefixes are \<open>md\<close>, with CX = 3 and ES = 0x1000.\<close>

definition rep_machine :: "u32 \<Rightarrow> u8 list X86EMU" where
  "rep_machine md = nop_machine\<lparr> x86 := reset_regs\<lparr> R_ECX := 3, R_ES := 0x1000, x86_mode := md \<rparr> \<rparr>"

lemma rep_machine_facts:
  "block (rep_machine md)" "R_CX (x86 (rep_machine md)) = 3" "R_DI (x86 (rep_machine md)) = 0"
  "R_SI (x86 (rep_machine md)) = 0" "R_ES (x86 (rep_machine md)) = 0x1000" "str_inc (Suc 0) (rep_machine md) = 1"
  "mode_has b (rep_machine md) = (md AND b \<noteq> 0)" "emu_mem (rep_machine md) = replicate 0x110000 0x90"
  by (simp_all add: rep_machine_def nop_machine_def block_def real_mode_block_def reset_regs_def R_CX_def R_DI_def
      R_SI_def x_reg_def str_inc_def ACCESS_FLAG_def mode_has_def)

lemma rep_registers:
  "R_EAX (set_DI v (set_SI w (set_CX u (x86 (rep_machine md))))) = 0"
  "R_FLG (set_DI v (set_SI w (set_CX u (x86 (rep_machine md))))) = 2"
  by (simp_all add: rep_machine_def reset_regs_def set_DI_def set_SI_def set_CX_def)

lemma rep_prefixes:
  "SYSMODE_PREFIX_REPE AND REP_BITS \<noteq> 0" "SYSMODE_PREFIX_REPE AND SYSMODE_PREFIX_REPE \<noteq> 0"
  "SYSMODE_PREFIX_REPNE AND SYSMODE_PREFIX_REPNE \<noteq> 0" "SYSMODE_PREFIX_REPNE AND SYSMODE_PREFIX_REPE = 0"
  by (simp_all add: REP_BITS_def SYSMODE_PREFIX_REPE_def SYSMODE_PREFIX_REPNE_def)

lemma rep_data_seg: "data_seg (rep_machine SYSMODE_PREFIX_REPE) = 0"
  by (simp add: data_seg_def rep_machine_def nop_machine_def reset_regs_def get_data_segment_def Let_def
      SYSMODE_PREFIX_REPE_def SYSMODE_SEGMASK_def
      SYSMODE_SEG_DS_SS_def SYSMODE_SEGOVR_CS_def SYSMODE_SEGOVR_DS_def SYSMODE_SEGOVR_ES_def
      SYSMODE_SEGOVR_FS_def SYSMODE_SEGOVR_GS_def SYSMODE_SEGOVR_SS_def)

lemma rep_apart: "j < 3 \<Longrightarrow> k < 3 \<Longrightarrow> place 0x1000 0 1 k \<noteq> place 0 0 1 j"
  by (simp add: place_def unat_seg_addr unat_of_nat)

lemma rep_source: "replicate 0x110000 (0x90 :: u8) ! place 0 0 1 2 = 0x90"
  by (subst nth_replicate) (simp_all add: place_def seg_addr_def)

theorem rep_stosb_fills_witness:
  "\<exists>N. x86emuOp_stos_byte default_funcs (rep_machine SYSMODE_PREFIX_REPE) = Some N \<and> R_CX (x86 N) = 0
    \<and> R_DI (x86 N) = 3"
  using rep_stosb_fills[of "rep_machine SYSMODE_PREFIX_REPE"] rep_prefixes(1)
  by (auto simp: rep_machine_facts)

theorem rep_movsb_copies_witness:
  "\<exists>N. x86emuOp_movs_byte default_funcs (rep_machine SYSMODE_PREFIX_REPE) = Some N
    \<and> emu_mem N ! place 0x1000 0 1 2 = 0x90 \<and> R_EAX (x86 N) = 0 \<and> R_FLG (x86 N) = 2"
  using rep_movsb_copies[of "rep_machine SYSMODE_PREFIX_REPE"] rep_prefixes(1) rep_apart rep_source
  by (auto simp: rep_machine_facts rep_data_seg rep_registers dest!: spec[of _ 2])

theorem repne_scasb_finds_witness:
  "\<exists>N. x86emuOp_scas_byte default_funcs (rep_machine SYSMODE_PREFIX_REPNE) = Some N \<and> emu_mem N = replicate 0x110000 0x90"
  using repne_scasb_finds[of "rep_machine SYSMODE_PREFIX_REPNE"] rep_prefixes(3,4)
  by (auto simp: rep_machine_facts)

theorem repe_cmpsb_compares_witness:
  "\<exists>N. x86emuOp_cmps_byte default_funcs (rep_machine SYSMODE_PREFIX_REPE) = Some N \<and> emu_mem N = replicate 0x110000 0x90"
  using repe_cmpsb_compares[of "rep_machine SYSMODE_PREFIX_REPE"] rep_prefixes(2)
  by (auto simp: rep_machine_facts)

end
