(* ===== verification/X86Equiv.thy ===== *)
theory X86Equiv
  imports X86SafeTable
begin

unbundle bit_operations_syntax

text \<open>
  Handlers against reference definitions: the short conditional jumps against the condition codes of the
  long ones, and the bit scans against the least and greatest set bit.
\<close>

section \<open>Conditional jumps\<close>

lemmas jump_defs =
  x86emuOp_jump_near_O_def x86emuOp_jump_near_NO_def x86emuOp_jump_near_B_def x86emuOp_jump_near_NB_def
  x86emuOp_jump_near_Z_def x86emuOp_jump_near_NZ_def x86emuOp_jump_near_BE_def x86emuOp_jump_near_NBE_def
  x86emuOp_jump_near_S_def x86emuOp_jump_near_NS_def x86emuOp_jump_near_P_def x86emuOp_jump_near_NP_def
  x86emuOp_jump_near_L_def x86emuOp_jump_near_NL_def x86emuOp_jump_near_LE_def x86emuOp_jump_near_NLE_def

lemma row_70: "map ((!) (x86emu_optab E)) [0x70..<0x80] =
  [x86emuOp_jump_near_O (emu_funcs E), x86emuOp_jump_near_NO (emu_funcs E), x86emuOp_jump_near_B (emu_funcs E),
   x86emuOp_jump_near_NB (emu_funcs E), x86emuOp_jump_near_Z (emu_funcs E), x86emuOp_jump_near_NZ (emu_funcs E),
   x86emuOp_jump_near_BE (emu_funcs E), x86emuOp_jump_near_NBE (emu_funcs E), x86emuOp_jump_near_S (emu_funcs E),
   x86emuOp_jump_near_NS (emu_funcs E), x86emuOp_jump_near_P (emu_funcs E), x86emuOp_jump_near_NP (emu_funcs E),
   x86emuOp_jump_near_L (emu_funcs E), x86emuOp_jump_near_NL (emu_funcs E), x86emuOp_jump_near_LE (emu_funcs E),
   x86emuOp_jump_near_NLE (emu_funcs E)]"
  by (simp add: upt_rec x86emu_optab_def)

lemma upt_16: "[0..<16] = [0, 1, 2, 3, 4, 5, 6, 7, 8, 9, 10, 11, 12, 13, 14, 15]"
  by code_simp

lemma conditions:
  "map (\<lambda>n. long_jump_cond (0x80 + of_nat n)) [0..<16] =
    [ACCESS_FLAG F_OF, \<lambda>st. \<not> ACCESS_FLAG F_OF st, ACCESS_FLAG F_CF, \<lambda>st. \<not> ACCESS_FLAG F_CF st,
     ACCESS_FLAG F_ZF, \<lambda>st. \<not> ACCESS_FLAG F_ZF st, \<lambda>st. ACCESS_FLAG F_CF st \<or> ACCESS_FLAG F_ZF st,
     \<lambda>st. \<not> (ACCESS_FLAG F_CF st \<or> ACCESS_FLAG F_ZF st), ACCESS_FLAG F_SF, \<lambda>st. \<not> ACCESS_FLAG F_SF st,
     ACCESS_FLAG F_PF, \<lambda>st. \<not> ACCESS_FLAG F_PF st, \<lambda>st. ACCESS_FLAG F_SF st \<noteq> ACCESS_FLAG F_OF st,
     \<lambda>st. ACCESS_FLAG F_SF st = ACCESS_FLAG F_OF st,
     \<lambda>st. ACCESS_FLAG F_SF st \<noteq> ACCESS_FLAG F_OF st \<or> ACCESS_FLAG F_ZF st,
     \<lambda>st. ACCESS_FLAG F_SF st = ACCESS_FLAG F_OF st \<and> \<not> ACCESS_FLAG F_ZF st]"
  unfolding upt_16 by (simp add: fun_eq_iff long_jump_cond_def xorl_def) auto

lemma row_conditions:
  "map ((!) (x86emu_optab E)) [0x70..<0x80]
    = map (\<lambda>c. jump_near c (emu_funcs E)) (map (\<lambda>n. long_jump_cond (0x80 + of_nat n)) [0..<16])"
  unfolding row_70 conditions by (simp add: jump_defs[abs_def])

text \<open>
  The sixteen short conditional jumps (0x70 to 0x7f), written as sixteen handlers, test the very
  conditions of the sixteen long ones (0x0f 0x80 to 0x8f), which one handler decodes by a switch.
\<close>

theorem short_jumps_agree:
  assumes "n < 16"
  shows "x86emu_optab E ! (0x70 + n) = jump_near (long_jump_cond (0x80 + of_nat n)) (emu_funcs E)"
  using arg_cong[OF row_conditions, of "\<lambda>xs. xs ! n"] assms nth_upt[of "0x70" n "0x80"]
  by (simp del: upt_rec_numeral list.map)

theorem short_jumps_agree_witness:
  "x86emu_optab \<lparr> emu_funcs = default_funcs, emu_intr = (\<lambda>_. None), emu_oob = 0 \<rparr> ! 0x7c
    = jump_near (long_jump_cond 0x8c) default_funcs"
  using short_jumps_agree[of 12 "\<lparr> emu_funcs = default_funcs, emu_intr = (\<lambda>_. None), emu_oob = 0 \<rparr>"] by simp

section \<open>Bit scans\<close>

lemma shifted_bit: "drop_bit i v AND 1 \<noteq> 0 \<longleftrightarrow> bit v i"
  by (simp add: bit_iff_odd_drop_bit and_one_eq odd_iff_mod_2_eq_one)

lemma bsf_least:
  "bit v k \<Longrightarrow> i \<le> k \<Longrightarrow> k < i + n
    \<Longrightarrow> bit v (bsf_loop v i n) \<and> i \<le> bsf_loop v i n \<and> (\<forall>j. i \<le> j \<and> j < bsf_loop v i n \<longrightarrow> \<not> bit v j)"
proof (induction v i n rule: bsf_loop.induct)
  case (2 v i n)
  show ?case
  proof (cases "bit v i")
    case False
    then have "i \<noteq> k" using "2.prems"(1) by auto
    then have "bit v (bsf_loop v (Suc i) n) \<and> Suc i \<le> bsf_loop v (Suc i) n
      \<and> (\<forall>j. Suc i \<le> j \<and> j < bsf_loop v (Suc i) n \<longrightarrow> \<not> bit v j)"
      using "2.prems" False by (intro "2.IH") (auto simp: shifted_bit)
    moreover have "i \<le> j \<longleftrightarrow> j = i \<or> Suc i \<le> j" for j by auto
    ultimately show ?thesis using False by (auto simp: shifted_bit)
  qed (auto simp: shifted_bit)
qed simp

lemma bsr_greatest: "bit v k \<Longrightarrow> k \<le> i \<Longrightarrow> bit v (bsr_loop v i) \<and> (\<forall>j. bsr_loop v i < j \<and> j \<le> i \<longrightarrow> \<not> bit v j)"
proof (induction v i rule: bsr_loop.induct)
  case (2 v i)
  then show ?case by (cases "bit v (Suc i)") (auto simp: shifted_bit le_Suc_eq)
qed auto

lemma bsf_zero: "bsf_loop 0 i n = i + n"
  by (induction n arbitrary: i) auto

lemma bsr_zero: "bsr_loop 0 i = 0"
  by (induction i) auto

text \<open>
  BSF and BSR find the lowest and the highest set bit of an operand of any width; of the operand 0,
  for which the processor leaves the destination undefined, they store the width and 0.
\<close>

theorem bit_scans_exact:
  fixes v :: "'a::len word"
  shows "bsf_loop v 0 LENGTH('a) = (if v = 0 then LENGTH('a) else LEAST k. bit v k)
    \<and> bsr_loop v (LENGTH('a) - 1) = (if v = 0 then 0 else GREATEST k. bit v k)"
proof (cases "v = 0")
  case False
  then obtain k where k: "bit v k" by (auto simp: bit_eq_iff)
  then have len: "k < LENGTH('a)" by (rule bit_imp_le_length)
  have "bit v (bsf_loop v 0 LENGTH('a)) \<and> (\<forall>j < bsf_loop v 0 LENGTH('a). \<not> bit v j)"
    using bsf_least[OF k, of 0 "LENGTH('a)"] len by simp
  then have "(LEAST k. bit v k) = bsf_loop v 0 LENGTH('a)"
    by (intro Least_equality) (auto simp: not_less[symmetric])
  moreover have "bit v (bsr_loop v (LENGTH('a) - 1)) \<and> (\<forall>j > bsr_loop v (LENGTH('a) - 1). \<not> bit v j)"
    using bsr_greatest[OF k, of "LENGTH('a) - 1"] len bit_imp_le_length[of v] by fastforce
  then have "(GREATEST k. bit v k) = bsr_loop v (LENGTH('a) - 1)"
    by (intro Greatest_equality) (auto simp: not_less[symmetric])
  ultimately show ?thesis using False by simp
qed (simp add: bsf_zero bsr_zero)

end
