(* ===== verification/DbeIds.thy ===== *)
theory DbeIds
  imports Prelude
begin

text \<open>
  The window private of the double buffer extension (\<open>DbeWindowPrivRec\<close> of \<open>dbestruct.h\<close>) and its array of
  buffer names, which is first inline in the record and moves to the heap when it grows (\<open>dbe.c\<close>).
\<close>

section \<open>The record\<close>

text \<open>What \<open>XID *IDs\<close> points to: the inline array, an allocated block, or nothing after a failed realloc.\<close>

datatype id_array = Inline | Heap "xid list" | Null

record dbe_priv =
  pWindow :: nat
  swapAction :: u8
  bufWidth :: u16
  bufHeight :: u16
  bufX :: u16
  bufY :: u16
  nBufferIDs :: nat
  maxAvailableIDs :: nat
  IDs :: id_array
  initIDs :: "xid list"
  pBackBuffer :: "nat option"
  pFrontBuffer :: "nat option"

definition DBE_INIT_MAX_IDS :: nat where "DBE_INIT_MAX_IDS = 2"
definition DBE_INCR_MAX_IDS :: nat where "DBE_INCR_MAX_IDS = 4"
definition DBE_FREE_ID_ELEMENT :: xid where "DBE_FREE_ID_ELEMENT = 0"

lemmas dbe_consts = DBE_INIT_MAX_IDS_def DBE_INCR_MAX_IDS_def DBE_FREE_ID_ELEMENT_def

section \<open>Access\<close>

text \<open>\<open>IDs[i]\<close>, a fault for a null pointer or outside the array.\<close>

definition id_block :: "dbe_priv \<Rightarrow> xid list option" where
  "id_block p = (case IDs p of Inline \<Rightarrow> Some (initIDs p) | Heap xs \<Rightarrow> Some xs | Null \<Rightarrow> None)"

definition with_block :: "xid list \<Rightarrow> dbe_priv \<Rightarrow> dbe_priv" where
  "with_block xs p = (case IDs p of Inline \<Rightarrow> p\<lparr> initIDs := xs \<rparr> | Heap _ \<Rightarrow> p\<lparr> IDs := Heap xs \<rparr> | Null \<Rightarrow> p)"

definition id_at :: "dbe_priv \<Rightarrow> nat \<Rightarrow> xid option" where
  "id_at p i = do { xs \<leftarrow> id_block p; if i < length xs then Some (xs ! i) else None }"

definition set_id :: "nat \<Rightarrow> xid \<Rightarrow> dbe_priv \<Rightarrow> dbe_priv option" where
  "set_id i x p = do { xs \<leftarrow> id_block p; if i < length xs then Some (with_block (xs[i := x]) p) else None }"

text \<open>\<open>for (i = 0; i < n; i++) if (IDs[i] == x) break;\<close>: the index where it stops, with \<open>n - i\<close> to go.\<close>

fun scan_ids :: "xid \<Rightarrow> dbe_priv \<Rightarrow> nat \<Rightarrow> nat \<Rightarrow> nat option" where
  "scan_ids x p i 0 = Some i"
| "scan_ids x p i (Suc k) = do { y \<leftarrow> id_at p i; if y = x then Some i else scan_ids x p (Suc i) k }"

section \<open>Growing and shrinking\<close>

text \<open>
  The reallocation of a full array. \<open>ok\<close>: whether there is memory, \<open>junk\<close>: what is in fresh memory. A
  block that replaces the inline array is filled from the count on with 0 and then gets the first two names.
\<close>

definition grow_ids :: "bool \<Rightarrow> xid \<Rightarrow> dbe_priv \<Rightarrow> (bool \<times> dbe_priv) option" where
  "grow_ids ok junk p =
     (let new = maxAvailableIDs p + DBE_INCR_MAX_IDS
      in if \<not> ok then Some (False, p\<lparr> IDs := Null \<rparr>)
         else if new < nBufferIDs p then None
         else do { xs \<leftarrow> (if maxAvailableIDs p = DBE_INIT_MAX_IDS then Some [] else id_block p);
                   let ys = take new (xs @ replicate (new - length xs) junk);
                   let ys = take (nBufferIDs p) ys @ replicate (new - nBufferIDs p) 0;
                   let ys = (if maxAvailableIDs p = DBE_INIT_MAX_IDS
                             then take DBE_INIT_MAX_IDS (initIDs p) @ drop DBE_INIT_MAX_IDS ys else ys);
                   Some (True, p\<lparr> IDs := Heap ys, maxAvailableIDs := new \<rparr>) })"

text \<open>\<open>memmove\<close> over the name at \<open>i\<close>, the last one freed, the count decremented.\<close>

definition drop_id :: "nat \<Rightarrow> dbe_priv \<Rightarrow> dbe_priv option" where
  "drop_id i p =
     do { xs \<leftarrow> id_block p;
          let n = nBufferIDs p;
          if n \<le> length xs then
            do { let p = with_block (take i xs @ take (n - i - 1) (drop (Suc i) xs) @ drop (n - 1) xs) p;
                 p \<leftarrow> set_id (n - 1) DBE_FREE_ID_ELEMENT p;
                 Some (p\<lparr> nBufferIDs := n - 1 \<rparr>) }
          else None }"

text \<open>Back to the inline array when two names are left.\<close>

definition shrink_ids :: "dbe_priv \<Rightarrow> dbe_priv option" where
  "shrink_ids p =
     (if maxAvailableIDs p > DBE_INIT_MAX_IDS \<and> nBufferIDs p = DBE_INIT_MAX_IDS then
        do { xs \<leftarrow> id_block p;
             if length xs < DBE_INIT_MAX_IDS then None
             else Some (p\<lparr> initIDs := take DBE_INIT_MAX_IDS xs, IDs := Inline,
                           maxAvailableIDs := DBE_INIT_MAX_IDS \<rparr>) }
      else Some p)"

section \<open>The names as a list\<close>

text \<open>The abstraction: the names of a buffer in order. The array holds them, then free elements.\<close>

definition names :: "dbe_priv \<Rightarrow> xid list" where
  "names p = (case id_block p of Some xs \<Rightarrow> take (nBufferIDs p) xs | None \<Rightarrow> [])"

definition ids_wf :: "dbe_priv \<Rightarrow> bool" where
  "ids_wf p \<longleftrightarrow> length (initIDs p) = 2 \<and> 2 \<le> maxAvailableIDs p \<and> (maxAvailableIDs p = 2 \<longleftrightarrow> IDs p = Inline)
     \<and> id_block p = Some (names p @ replicate (maxAvailableIDs p - nBufferIDs p) 0)
     \<and> nBufferIDs p \<le> maxAvailableIDs p \<and> length (names p) = nBufferIDs p \<and> 0 \<notin> set (names p) \<and> distinct (names p)"

lemma ids_wf_block:
  assumes "ids_wf p"
  obtains xs where "id_block p = Some xs" "xs = names p @ replicate (maxAvailableIDs p - nBufferIDs p) 0"
    "length xs = maxAvailableIDs p" "nBufferIDs p = length (names p)" "IDs p \<noteq> Null"
proof (rule that[of "names p @ replicate (maxAvailableIDs p - nBufferIDs p) 0"])
  show "id_block p = Some (names p @ replicate (maxAvailableIDs p - nBufferIDs p) 0)"
    "length (names p @ replicate (maxAvailableIDs p - nBufferIDs p) 0) = maxAvailableIDs p"
    "nBufferIDs p = length (names p)"
    using assms by (simp_all add: ids_wf_def)
  then show "IDs p \<noteq> Null" by (auto simp: id_block_def)
qed simp

lemma id_at_nth: "id_block p = Some xs \<Longrightarrow> i < length xs \<Longrightarrow> id_at p i = Some (xs ! i)"
  by (simp add: id_at_def)

text \<open>The scan finds the first occurrence, or runs to its end.\<close>

lemma scan_ids_spec:
  assumes "id_block p = Some xs" "i + k \<le> length xs"
  shows "\<exists>j. scan_ids x p i k = Some j \<and> i \<le> j \<and> j \<le> i + k \<and> (\<forall>l. i \<le> l \<and> l < j \<longrightarrow> xs ! l \<noteq> x)
    \<and> (j < i + k \<longrightarrow> xs ! j = x)"
  using assms(2)
proof (induction k arbitrary: i)
  case (Suc k)
  show ?case
  proof (cases "xs ! i = x")
    case True
    then show ?thesis using Suc.prems id_at_nth[OF assms(1), of i] by auto
  next
    case False
    obtain j where j: "scan_ids x p (Suc i) k = Some j" "Suc i \<le> j" "j \<le> Suc i + k"
      "\<forall>l. Suc i \<le> l \<and> l < j \<longrightarrow> xs ! l \<noteq> x" "j < Suc i + k \<longrightarrow> xs ! j = x"
      using Suc.IH[of "Suc i"] Suc.prems by auto
    have "xs ! l \<noteq> x" if "i \<le> l" "l < j" for l
      using that j(4) False by (cases "l = i") auto
    then show ?thesis using j False Suc.prems id_at_nth[OF assms(1), of i] by (intro exI[of _ j]) auto
  qed
qed auto

lemma scan_name:
  assumes "ids_wf p"
  shows "x \<in> set (names p) \<Longrightarrow> \<exists>i < nBufferIDs p. scan_ids x p 0 (nBufferIDs p) = Some i \<and> names p ! i = x"
    and "x \<notin> set (names p) \<Longrightarrow> scan_ids x p 0 (nBufferIDs p) = Some (nBufferIDs p)"
proof -
  obtain xs where xs: "id_block p = Some xs" "xs = names p @ replicate (maxAvailableIDs p - nBufferIDs p) 0"
    "length xs = maxAvailableIDs p" "nBufferIDs p = length (names p)" by (rule ids_wf_block[OF assms])
  have le: "0 + nBufferIDs p \<le> length xs" using assms xs(3) by (simp add: ids_wf_def)
  have nth: "xs ! l = names p ! l" if "l < nBufferIDs p" for l using that xs(2,4) by (simp add: nth_append)
  obtain j where j: "scan_ids x p 0 (nBufferIDs p) = Some j" "j \<le> nBufferIDs p" "\<forall>l < j. xs ! l \<noteq> x"
    "j < nBufferIDs p \<longrightarrow> xs ! j = x"
    using scan_ids_spec[OF xs(1) le, of x] by auto
  show "x \<in> set (names p) \<Longrightarrow> \<exists>i < nBufferIDs p. scan_ids x p 0 (nBufferIDs p) = Some i \<and> names p ! i = x"
  proof -
    assume "x \<in> set (names p)"
    then obtain l where l: "l < length (names p)" "names p ! l = x" unfolding in_set_conv_nth by blast
    have n: "l < nBufferIDs p" using l(1) xs(4) by simp
    have "xs ! l = x" using nth[OF n] l(2) by simp
    then have "\<not> l < j" using j(3) by blast
    with n have n: "j < nBufferIDs p" by simp
    then show ?thesis using j(1,4) nth[OF n] by auto
  qed
  show "x \<notin> set (names p) \<Longrightarrow> scan_ids x p 0 (nBufferIDs p) = Some (nBufferIDs p)"
  proof -
    assume "x \<notin> set (names p)"
    have "\<not> j < nBufferIDs p"
    proof
      assume n: "j < nBufferIDs p"
      then have "names p ! j = x" using j(4) nth[OF n] by simp
      moreover have "names p ! j \<in> set (names p)" using n xs(4) by (intro nth_mem) simp
      ultimately show False using \<open>x \<notin> set (names p)\<close> by simp
    qed
    then show ?thesis using j(1,2) by simp
  qed
qed

section \<open>The operations on the list of names\<close>

lemma ids_wfI:
  assumes "length (initIDs p) = 2" "2 \<le> maxAvailableIDs p" "maxAvailableIDs p = 2 \<longleftrightarrow> IDs p = Inline"
    "id_block p = Some (ns @ replicate (maxAvailableIDs p - nBufferIDs p) 0)" "length ns = nBufferIDs p"
    "nBufferIDs p \<le> maxAvailableIDs p" "0 \<notin> set ns" "distinct ns"
  shows "ids_wf p \<and> names p = ns"
proof -
  have "names p = ns" using assms(4,5) by (simp add: names_def)
  then show ?thesis using assms by (simp add: ids_wf_def)
qed

text \<open>What the array operations leave alone.\<close>

definition same_buffer :: "dbe_priv \<Rightarrow> dbe_priv \<Rightarrow> bool" where
  "same_buffer p q \<longleftrightarrow> pWindow q = pWindow p \<and> swapAction q = swapAction p \<and> bufWidth q = bufWidth p
     \<and> bufHeight q = bufHeight p \<and> bufX q = bufX p \<and> bufY q = bufY p
     \<and> pBackBuffer q = pBackBuffer p \<and> pFrontBuffer q = pFrontBuffer p"

lemma id_block_fields [simp]:
  "id_block (p\<lparr> nBufferIDs := k \<rparr>) = id_block p" "id_block (p\<lparr> swapAction := a \<rparr>) = id_block p"
  "id_block (p\<lparr> pBackBuffer := b \<rparr>) = id_block p" "id_block (p\<lparr> pFrontBuffer := f \<rparr>) = id_block p"
  "id_block (p\<lparr> bufWidth := w \<rparr>) = id_block p" "id_block (p\<lparr> bufHeight := h \<rparr>) = id_block p"
  "id_block (p\<lparr> bufX := x \<rparr>) = id_block p" "id_block (p\<lparr> bufY := y \<rparr>) = id_block p"
  by (auto simp: id_block_def split: id_array.split)

lemma with_block_simps:
  "same_buffer p (with_block xs p)" "nBufferIDs (with_block xs p) = nBufferIDs p"
  "maxAvailableIDs (with_block xs p) = maxAvailableIDs p" "IDs p \<noteq> Null \<Longrightarrow> id_block (with_block xs p) = Some xs"
  "IDs (with_block xs p) = Inline \<longleftrightarrow> IDs p = Inline" "IDs (with_block xs p) = Null \<longleftrightarrow> IDs p = Null"
  "initIDs (with_block xs p) = (if IDs p = Inline then xs else initIDs p)"
  by (auto simp: with_block_def same_buffer_def id_block_def split: id_array.splits)

lemma free_slot:
  assumes "ids_wf p"
  shows "scan_ids 0 p 0 (maxAvailableIDs p) = Some (nBufferIDs p)"
proof -
  obtain xs where xs: "id_block p = Some xs" "xs = names p @ replicate (maxAvailableIDs p - nBufferIDs p) 0"
    "length xs = maxAvailableIDs p" "nBufferIDs p = length (names p)" by (rule ids_wf_block[OF assms])
  have z: "0 \<notin> set (names p)" "nBufferIDs p \<le> maxAvailableIDs p" using assms by (simp_all add: ids_wf_def)
  obtain j where j: "scan_ids 0 p 0 (maxAvailableIDs p) = Some j" "j \<le> maxAvailableIDs p" "\<forall>l < j. xs ! l \<noteq> 0"
    "j < maxAvailableIDs p \<longrightarrow> xs ! j = 0"
    using scan_ids_spec[OF xs(1), of 0 "maxAvailableIDs p" 0] xs(3) by auto
  have free: "xs ! l = 0" if "nBufferIDs p \<le> l" "l < maxAvailableIDs p" for l
    using that xs(2,4) by (simp add: nth_append)
  have used: "xs ! l \<noteq> 0" if "l < nBufferIDs p" for l
  proof -
    have "xs ! l = names p ! l" using that xs(2,4) by (simp add: nth_append)
    moreover have "names p ! l \<in> set (names p)" using that xs(4) by (intro nth_mem) simp
    ultimately show ?thesis using z(1) by metis
  qed
  have "j = nBufferIDs p"
  proof (rule antisym)
    show "j \<le> nBufferIDs p" using j(2,3) free[of "nBufferIDs p"] by (meson le_less_linear le_refl order.strict_trans2)
    show "nBufferIDs p \<le> j" using j(4) used[of j] z(2) by (meson le_less_linear order.strict_trans2)
  qed
  then show ?thesis using j(1) by simp
qed

lemma add_id:
  assumes "ids_wf p" "nBufferIDs p < maxAvailableIDs p" "x \<noteq> 0" "x \<notin> set (names p)"
  shows "\<exists>q. set_id (nBufferIDs p) x p = Some q \<and> nBufferIDs q = nBufferIDs p \<and> same_buffer p q
    \<and> ids_wf (q\<lparr> nBufferIDs := Suc (nBufferIDs p) \<rparr>) \<and> names (q\<lparr> nBufferIDs := Suc (nBufferIDs p) \<rparr>) = names p @ [x]
    \<and> names q = names p"
proof -
  obtain xs where xs: "id_block p = Some xs" "xs = names p @ replicate (maxAvailableIDs p - nBufferIDs p) 0"
    "length xs = maxAvailableIDs p" "nBufferIDs p = length (names p)" "IDs p \<noteq> Null" by (rule ids_wf_block[OF assms(1)])
  let ?q = "with_block (xs[nBufferIDs p := x]) p"
  have new: "xs[nBufferIDs p := x] = (names p @ [x]) @ replicate (maxAvailableIDs p - Suc (nBufferIDs p)) 0"
    using assms(2) xs(4) unfolding xs(2)
    by (simp add: list_update_append Suc_diff_Suc[symmetric])
  have len: "length (initIDs ?q) = 2"
    using assms(1) xs(3) by (auto simp: with_block_simps ids_wf_def)
  have "ids_wf (?q\<lparr> nBufferIDs := Suc (nBufferIDs p) \<rparr>) \<and> names (?q\<lparr> nBufferIDs := Suc (nBufferIDs p) \<rparr>) = names p @ [x]"
    using assms xs(4) len new
    by (intro ids_wfI) (simp_all add: with_block_simps xs(5) ids_wf_def)
  moreover have "names ?q = names p"
    unfolding names_def[of ?q] unfolding with_block_simps(2) with_block_simps(4)[OF xs(5)] option.case new using xs(4) by simp
  ultimately show ?thesis
    using assms(2) xs(1,3) by (simp add: set_id_def with_block_simps)
qed

lemma grow_full:
  assumes "ids_wf p" "nBufferIDs p = maxAvailableIDs p"
  shows "\<exists>q. grow_ids True junk p = Some (True, q) \<and> ids_wf q \<and> names q = names p \<and> same_buffer p q
    \<and> nBufferIDs q = nBufferIDs p \<and> nBufferIDs q < maxAvailableIDs q"
proof -
  obtain xs where xs: "id_block p = Some xs" "xs = names p @ replicate (maxAvailableIDs p - nBufferIDs p) 0"
    "length xs = maxAvailableIDs p" "nBufferIDs p = length (names p)" "IDs p \<noteq> Null" by (rule ids_wf_block[OF assms(1)])
  have names: "xs = names p" using xs(2) assms(2) by simp
  let ?ys = "names p @ replicate 4 0" and ?new = "maxAvailableIDs p + 4"
  have grow: "grow_ids True junk p = Some (True, p\<lparr> IDs := Heap ?ys, maxAvailableIDs := ?new \<rparr>)"
  proof (cases "maxAvailableIDs p = 2")
    case True
    then have "initIDs p = names p"
      using assms(1) xs(1) names by (simp add: ids_wf_def id_block_def)
    moreover have "length (names p) = 2" using True assms(2) xs(4) by simp
    ultimately show ?thesis using True assms(2) by (simp add: grow_ids_def dbe_consts) (simp add: numeral_eq_Suc)
  next
    case False
    then show ?thesis using assms(2) xs(1,4) names by (simp add: grow_ids_def dbe_consts)
  qed
  have "ids_wf (p\<lparr> IDs := Heap ?ys, maxAvailableIDs := ?new \<rparr>)
    \<and> names (p\<lparr> IDs := Heap ?ys, maxAvailableIDs := ?new \<rparr>) = names p"
    using assms xs(4) by (intro ids_wfI) (auto simp: id_block_def ids_wf_def)
  then show ?thesis using grow assms(2) by (simp add: same_buffer_def)
qed

lemma remove_id:
  assumes "ids_wf p" "i < nBufferIDs p"
  shows "\<exists>q. drop_id i p = Some q \<and> ids_wf q \<and> names q = take i (names p) @ drop (Suc i) (names p)
    \<and> nBufferIDs q = nBufferIDs p - 1 \<and> same_buffer p q"
proof -
  obtain xs where xs: "id_block p = Some xs" "xs = names p @ replicate (maxAvailableIDs p - nBufferIDs p) 0"
    "length xs = maxAvailableIDs p" "nBufferIDs p = length (names p)" "IDs p \<noteq> Null" by (rule ids_wf_block[OF assms(1)])
  have le: "nBufferIDs p \<le> length xs" using assms(1) xs(3) by (simp add: ids_wf_def)
  let ?n = "nBufferIDs p" and ?ns = "take i (names p) @ drop (Suc i) (names p)"
  let ?ys = "take i xs @ take (?n - i - 1) (drop (Suc i) xs) @ drop (?n - 1) xs"
  let ?q = "with_block (?ys[?n - 1 := 0]) p"
  have ys: "?ys[?n - 1 := 0] = ?ns @ replicate (maxAvailableIDs p - (?n - 1)) 0"
  proof -
    have tl: "drop (?n - 1) xs = last (names p) # replicate (maxAvailableIDs p - ?n) 0"
      using assms(2) xs(4) unfolding xs(2)
      by (cases "names p" rule: rev_cases) simp_all
    have "?ys = ?ns @ last (names p) # replicate (maxAvailableIDs p - ?n) 0"
      using assms(2) xs(4) tl unfolding xs(2) by (simp add: min_def)
    moreover have "?n - 1 = length ?ns" using assms(2) xs(4) by simp
    moreover have "maxAvailableIDs p - (?n - 1) = Suc (maxAvailableIDs p - ?n)"
      using assms(2) le xs(3) by simp
    ultimately show ?thesis by (simp only: list_update_length replicate_Suc)
  qed
  have len: "length ?ys = length xs" using assms(2) le by simp
  have "set_id (?n - 1) 0 (with_block ?ys p) = Some ?q"
    using assms(2) le len xs(5) with_block_simps(4)[of p ?ys] unfolding set_id_def
    by (auto simp: with_block_def split: id_array.splits)
  then have d: "drop_id i p = Some (?q\<lparr> nBufferIDs := ?n - 1 \<rparr>)"
    using xs(1) le by (simp add: drop_id_def dbe_consts Let_def)
  have "set ?ns \<subseteq> set (names p)" by (auto dest: in_set_takeD in_set_dropD)
  moreover have "distinct ?ns"
    using assms(1) by (auto simp: ids_wf_def dest: set_take_disj_set_drop_if_distinct[of _ i "Suc i"])
  ultimately have "ids_wf (?q\<lparr> nBufferIDs := ?n - 1 \<rparr>) \<and> names (?q\<lparr> nBufferIDs := ?n - 1 \<rparr>) = ?ns"
    using assms xs(3,4) len ys
    by (intro ids_wfI) (auto simp: with_block_simps xs(5) ids_wf_def)
  then show ?thesis using d with_block_simps(1)[of p "?ys[?n - 1 := 0]"] by (simp add: same_buffer_def)
qed

lemma shrink_keeps:
  assumes "ids_wf p"
  shows "\<exists>q. shrink_ids p = Some q \<and> ids_wf q \<and> names q = names p \<and> nBufferIDs q = nBufferIDs p \<and> same_buffer p q"
proof (cases "maxAvailableIDs p > 2 \<and> nBufferIDs p = 2")
  case True
  obtain xs where xs: "id_block p = Some xs" "xs = names p @ replicate (maxAvailableIDs p - nBufferIDs p) 0"
    "length xs = maxAvailableIDs p" "nBufferIDs p = length (names p)" by (rule ids_wf_block[OF assms])
  let ?q = "p\<lparr> initIDs := names p, IDs := Inline, maxAvailableIDs := 2 \<rparr>"
  have "take 2 xs = names p" using True xs(2,4) by simp
  then have "shrink_ids p = Some ?q" using True xs(1,3) by (simp add: shrink_ids_def dbe_consts)
  moreover have "ids_wf ?q \<and> names ?q = names p"
    using assms True xs(4) by (intro ids_wfI) (auto simp: id_block_def ids_wf_def)
  ultimately show ?thesis by (simp add: same_buffer_def)
qed (use assms in \<open>auto simp: shrink_ids_def dbe_consts same_buffer_def\<close>)

end
