(* ===== verification/DbeState.thy ===== *)
theory DbeState
  imports DbeIds
begin

text \<open>
  The state of the double buffer extension and what its requests share: window privates on the heap, the
  pixmaps behind them, and the resources that name both (\<open>dbe.c\<close>, \<open>midbe.c\<close>; \<open>resource.d\<close>).
\<close>

section \<open>Data\<close>

datatype dbe_status =
  DbeSuccess | BadRequest | BadValue | BadMatch | BadAlloc | BadIDChoice | BadLength | BadBuffer | OtherError u8

text \<open>The value of a resource with its type: a window private, a back buffer, or something else.\<close>

datatype res_value = WinPriv nat | BackPixmap nat | OtherValue nat

datatype background = ParentRelative | BackgroundNone | BackgroundPixel u32 | BackgroundPixmap nat

record 'i pixmap =
  pixWidth :: u16
  pixHeight :: u16
  pixImage :: 'i

text \<open>A window of the server: \<open>'i\<close> are the contents of a drawable.\<close>

record 'i dbe_window =
  winID :: xid
  winScreen :: nat
  inputOutput :: bool
  winVisual :: xid
  winWidth :: u16
  winHeight :: u16
  winX :: u16
  winY :: u16
  bitGravity :: nat
  backgroundState :: background
  originX :: int
  originY :: int
  winParent :: "nat option"
  winImage :: 'i

text \<open>
  Heap addresses are never used twice. \<open>outOfMemory\<close> says of the next allocations whether they fail;
  when it is used up they succeed. \<open>screenPrivs\<close>: the private of a screen, \<open>False\<close> if it is stubbed.
\<close>

record 'i dbe =
  resources :: "(xid \<times> res_value) list"
  privs :: "nat \<Rightarrow> dbe_priv option"
  windowPriv :: "nat \<Rightarrow> nat option"
  pixmaps :: "nat \<Rightarrow> 'i pixmap option"
  windows :: "nat \<Rightarrow> 'i dbe_window"
  screenPrivs :: "nat \<Rightarrow> bool option"
  nextAddr :: nat
  outOfMemory :: "bool list"

section \<open>The rest of the server\<close>

datatype dix_access = ManageAccess | WriteAccess | DestroyAccess | GetAttrAccess

text \<open>What the background of a window sets a graphics context to.\<close>

datatype paint = Solid u32 | Tiled nat int int

text \<open>
  What the extension calls: lookups with their access checks, the security hook (\<open>None\<close>: granted), the
  identifier range of the client, the visuals of a screen, and drawing.
\<close>

record 'i dbe_env =
  lookupWindow :: "dix_access \<Rightarrow> xid \<Rightarrow> dbe_status + nat"
  lookupDrawable :: "xid \<Rightarrow> dbe_status + nat"
  screenAccess :: "nat \<Rightarrow> dbe_status option"
  resourceAccess :: "dix_access \<Rightarrow> xid \<Rightarrow> res_value \<Rightarrow> dbe_status option"
  createAccess :: "xid \<Rightarrow> nat \<Rightarrow> nat \<Rightarrow> dbe_status option"
  clientRange :: "xid \<Rightarrow> bool"
  allowedDepths :: "nat \<Rightarrow> (u8 \<times> xid list) list"
  numScreens :: nat
  copyArea :: "'i \<Rightarrow> int \<Rightarrow> int \<Rightarrow> int \<Rightarrow> int \<Rightarrow> int \<Rightarrow> int \<Rightarrow> 'i \<Rightarrow> 'i"
  fillRect :: "paint \<Rightarrow> int \<Rightarrow> int \<Rightarrow> 'i \<Rightarrow> 'i"
  newImage :: "u16 \<Rightarrow> u16 \<Rightarrow> 'i"
  changeGC :: "paint \<Rightarrow> bool"
  freshMemory :: xid

section \<open>Allocation\<close>

definition dbe_alloc :: "'i dbe \<Rightarrow> bool \<times> 'i dbe" where
  "dbe_alloc st = (case outOfMemory st of [] \<Rightarrow> (True, st) | f # fs \<Rightarrow> (\<not> f, st\<lparr> outOfMemory := fs \<rparr>))"

definition CreatePixmap :: "'i dbe_env \<Rightarrow> u16 \<Rightarrow> u16 \<Rightarrow> 'i dbe \<Rightarrow> nat option \<times> 'i dbe" where
  "CreatePixmap E w h st =
     (case dbe_alloc st of (ok, st) \<Rightarrow>
        if ok then (Some (nextAddr st),
                    st\<lparr> pixmaps := (pixmaps st)(nextAddr st \<mapsto> \<lparr> pixWidth = w, pixHeight = h, pixImage = newImage E w h \<rparr>),
                        nextAddr := Suc (nextAddr st) \<rparr>)
        else (None, st))"

text \<open>A null pixmap is ignored, a dangling one is a fault. The extension holds the only reference.\<close>

definition dixDestroyPixmap :: "nat option \<Rightarrow> 'i dbe \<Rightarrow> 'i dbe option" where
  "dixDestroyPixmap x st =
     (case x of None \<Rightarrow> Some st
      | Some a \<Rightarrow> do { _ \<leftarrow> pixmaps st a; Some (st\<lparr> pixmaps := (pixmaps st)(a := None) \<rparr>) })"

definition put_priv :: "nat \<Rightarrow> dbe_priv \<Rightarrow> 'i dbe \<Rightarrow> 'i dbe" where
  "put_priv a p st = st\<lparr> privs := (privs st)(a \<mapsto> p) \<rparr>"

text \<open>The private of the screen of a window, with its function pointers, which a stub has not.\<close>

definition screen_funcs :: "nat \<Rightarrow> 'i dbe \<Rightarrow> unit option" where
  "screen_funcs w st = (if screenPrivs st (winScreen (windows st w)) = Some True then Some () else None)"

section \<open>Deletion\<close>

definition miDbeWinPrivDelete :: "nat \<Rightarrow> xid \<Rightarrow> 'i dbe \<Rightarrow> 'i dbe option" where
  "miDbeWinPrivDelete a bufId st =
     do { p \<leftarrow> privs st a;
          if nBufferIDs p \<noteq> 0 then Some st
          else do { st \<leftarrow> dixDestroyPixmap (pFrontBuffer p) st; dixDestroyPixmap (pBackBuffer p) st } }"

definition DbeWindowPrivDelete :: "nat \<Rightarrow> xid \<Rightarrow> 'i dbe \<Rightarrow> (dbe_status \<times> 'i dbe) option" where
  "DbeWindowPrivDelete a buf st =
     do { p \<leftarrow> privs st a;
          i \<leftarrow> scan_ids buf p 0 (nBufferIDs p);
          if i = nBufferIDs p then Some (BadValue, st)
          else do { p \<leftarrow> drop_id i p;
                    p \<leftarrow> shrink_ids p;
                    let st = put_priv a p st;
                    _ \<leftarrow> screen_funcs (pWindow p) st;
                    st \<leftarrow> miDbeWinPrivDelete a buf st;
                    if nBufferIDs p = 0
                    then Some (DbeSuccess, st\<lparr> windowPriv := (windowPriv st)(pWindow p := None),
                                               privs := (privs st)(a := None) \<rparr>)
                    else Some (DbeSuccess, st) } }"

definition DbeDrawableDelete :: "nat \<Rightarrow> xid \<Rightarrow> 'i dbe \<Rightarrow> (dbe_status \<times> 'i dbe) option" where
  "DbeDrawableDelete x buf st = Some (DbeSuccess, st)"

text \<open>The delete function of the type of a resource; those of other extensions leave this state alone.\<close>

definition delete_value :: "res_value \<Rightarrow> xid \<Rightarrow> 'i dbe \<Rightarrow> 'i dbe option" where
  "delete_value v buf st =
     (case v of WinPriv a \<Rightarrow> do { (_, st) \<leftarrow> DbeWindowPrivDelete a buf st; Some st }
      | BackPixmap x \<Rightarrow> do { (_, st) \<leftarrow> DbeDrawableDelete x buf st; Some st }
      | OtherValue _ \<Rightarrow> Some st)"

section \<open>Resources\<close>

text \<open>The newest resource comes first. If there is no memory the value is deleted.\<close>

definition AddResource :: "xid \<Rightarrow> res_value \<Rightarrow> 'i dbe \<Rightarrow> (bool \<times> 'i dbe) option" where
  "AddResource buf v st =
     (case dbe_alloc st of (ok, st) \<Rightarrow>
        if ok then Some (True, st\<lparr> resources := (buf, v) # resources st \<rparr>)
        else do { st \<leftarrow> delete_value v buf st; Some (False, st) })"

text \<open>
  The loop over the resources with an identifier: each is unlinked, then deleted. No delete function adds
  resources, so it ends after as many rounds as there are resources.
\<close>

fun free_rounds :: "nat \<Rightarrow> xid \<Rightarrow> 'i dbe \<Rightarrow> 'i dbe option" where
  "free_rounds 0 buf st = Some st"
| "free_rounds (Suc k) buf st =
     (case find (\<lambda>r. fst r = buf) (resources st) of
        None \<Rightarrow> Some st
      | Some r \<Rightarrow> do { st \<leftarrow> delete_value (snd r) buf (st\<lparr> resources := remove1 r (resources st) \<rparr>);
                       free_rounds k buf st })"

definition FreeResource :: "xid \<Rightarrow> 'i dbe \<Rightarrow> 'i dbe option" where
  "FreeResource buf st = free_rounds (length (resources st)) buf st"

fun is_back :: "res_value \<Rightarrow> bool" where "is_back (BackPixmap _) = True" | "is_back _ = False"
fun is_priv :: "res_value \<Rightarrow> bool" where "is_priv (WinPriv _) = True" | "is_priv _ = False"

text \<open>\<open>ChangeResourceValue(id, dbeDrawableResType, x)\<close>\<close>

fun change_back :: "xid \<Rightarrow> nat \<Rightarrow> (xid \<times> res_value) list \<Rightarrow> (xid \<times> res_value) list" where
  "change_back buf x [] = []"
| "change_back buf x (r # rs) =
     (if fst r = buf \<and> is_back (snd r) then (buf, BackPixmap x) # rs else r # change_back buf x rs)"

text \<open>\<open>dixLookupResourceByType\<close>; both types of the extension have the error \<open>BadBuffer\<close>.\<close>

definition lookup_type ::
  "'i dbe_env \<Rightarrow> (res_value \<Rightarrow> bool) \<Rightarrow> dix_access \<Rightarrow> xid \<Rightarrow> 'i dbe \<Rightarrow> dbe_status + res_value" where
  "lookup_type E is_type mode buf st =
     (case find (\<lambda>r. fst r = buf \<and> is_type (snd r)) (resources st) of
        None \<Rightarrow> Inl BadBuffer
      | Some r \<Rightarrow> (case resourceAccess E mode buf (snd r) of
                     None \<Rightarrow> Inr (snd r)
                   | Some e \<Rightarrow> Inl (if e = BadValue then BadBuffer else e)))"

definition LegalNewID :: "'i dbe_env \<Rightarrow> xid \<Rightarrow> 'i dbe \<Rightarrow> bool" where
  "LegalNewID E buf st \<longleftrightarrow> clientRange E buf \<and> buf \<notin> fst ` set (resources st)"

section \<open>Background\<close>

text \<open>The walk to the first ancestor whose background is not relative to its parent.\<close>

partial_function (option) background_from :: "'i dbe \<Rightarrow> nat \<Rightarrow> int \<Rightarrow> int \<Rightarrow> paint option option" where
  "background_from st w x y =
     (case backgroundState (windows st w) of
        ParentRelative \<Rightarrow> do { parent \<leftarrow> winParent (windows st w);
                               background_from st parent (x - originX (windows st w)) (y - originY (windows st w)) }
      | BackgroundPixel c \<Rightarrow> Some (Some (Solid c))
      | BackgroundPixmap t \<Rightarrow> Some (Some (Tiled t x y))
      | BackgroundNone \<Rightarrow> Some None)"

definition DbeSetupBackgroundPainter :: "'i dbe_env \<Rightarrow> nat \<Rightarrow> 'i dbe \<Rightarrow> paint option option" where
  "DbeSetupBackgroundPainter E w st =
     do { bg \<leftarrow> background_from st w 0 0;
          Some (case bg of None \<Rightarrow> None | Some g \<Rightarrow> if changeGC E g then Some g else None) }"

definition draw_pixmap :: "nat \<Rightarrow> ('i \<Rightarrow> 'i) \<Rightarrow> 'i dbe \<Rightarrow> 'i dbe option" where
  "draw_pixmap x f st =
     do { pm \<leftarrow> pixmaps st x;
          Some (st\<lparr> pixmaps := (pixmaps st)(x \<mapsto> pm\<lparr> pixImage := f (pixImage pm) \<rparr>) \<rparr>) }"

text \<open>A back buffer is filled with the background, if there is one.\<close>

definition clear_back :: "'i dbe_env \<Rightarrow> nat \<Rightarrow> nat \<Rightarrow> 'i dbe \<Rightarrow> 'i dbe option" where
  "clear_back E w x st =
     do { g \<leftarrow> DbeSetupBackgroundPainter E w st;
          case g of None \<Rightarrow> Some st
          | Some g \<Rightarrow> do { pm \<leftarrow> pixmaps st x;
                           draw_pixmap x (fillRect E g (uint (pixWidth pm)) (uint (pixHeight pm))) st } }"

end
