(* ===== verification/DbeRequests.thy ===== *)
theory DbeRequests
  imports DbeState
begin

text \<open>
  The requests and hooks of the double buffer extension (\<open>dbe.c\<close>) over its machine independent
  implementation (\<open>midbe.c\<close>).
\<close>

section \<open>Visuals\<close>

text \<open>Every visual of every depth, with performance level 0.\<close>

definition miDbeGetVisualInfo :: "'i dbe_env \<Rightarrow> nat \<Rightarrow> 'i dbe \<Rightarrow> (xid \<times> u8 \<times> u8) list option \<times> 'i dbe" where
  "miDbeGetVisualInfo E scr st =
     (case dbe_alloc st of (ok, st) \<Rightarrow>
        (if ok then Some (concat (map (\<lambda>(depth, vids). map (\<lambda>v. (v, depth, 0)) vids) (allowedDepths E scr))) else None, st))"

section \<open>Allocating a name\<close>

definition miDbeAllocBackBufferName :: "'i dbe_env \<Rightarrow> nat \<Rightarrow> xid \<Rightarrow> 'i dbe \<Rightarrow> (dbe_status \<times> 'i dbe) option" where
  "miDbeAllocBackBufferName E w bufId st =
     do { a \<leftarrow> windowPriv st w;
          p \<leftarrow> privs st a;
          if nBufferIDs p = 0 then
            (case CreatePixmap E (bufWidth p) (bufHeight p) st of (front, st) \<Rightarrow>
             let p = p\<lparr> pFrontBuffer := front \<rparr>; st = put_priv a p st
             in if front = None then Some (BadAlloc, st)
                else case CreatePixmap E (bufWidth p) (bufHeight p) st of (back, st) \<Rightarrow>
                  let st = put_priv a (p\<lparr> pBackBuffer := back \<rparr>) st
                  in case back of
                       None \<Rightarrow> do { st \<leftarrow> dixDestroyPixmap front st; Some (BadAlloc, st) }
                     | Some b \<Rightarrow>
                         (case createAccess E bufId b w of
                            Some e \<Rightarrow> do { st \<leftarrow> FreeResource bufId st; Some (e, st) }
                          | None \<Rightarrow>
                              do { (ok, st) \<leftarrow> AddResource bufId (BackPixmap b) st;
                                   if \<not> ok then do { st \<leftarrow> FreeResource bufId st; Some (BadAlloc, st) }
                                   else do { _ \<leftarrow> screen_funcs w st;
                                             st \<leftarrow> clear_back E w b st;
                                             Some (DbeSuccess, st) } }))
          else
            do { b \<leftarrow> pBackBuffer p;
                 (ok, st) \<leftarrow> AddResource bufId (BackPixmap b) st;
                 Some (if ok then DbeSuccess else BadAlloc, st) } }"

text \<open>
  The first part of the request: the window private, made for the first name, and a place in its array,
  which is grown when it is full. \<open>None\<close>: no memory.
\<close>

definition new_priv :: "'i dbe_window \<Rightarrow> nat \<Rightarrow> dbe_priv" where
  "new_priv win w =
     \<lparr> pWindow = w, swapAction = 0, bufWidth = winWidth win, bufHeight = winHeight win, bufX = winX win, bufY = winY win,
       nBufferIDs = 0, maxAvailableIDs = DBE_INIT_MAX_IDS, IDs = Inline,
       initIDs = replicate DBE_INIT_MAX_IDS DBE_FREE_ID_ELEMENT, pBackBuffer = None, pFrontBuffer = None \<rparr>"

definition reserve_name :: "'i dbe_env \<Rightarrow> nat \<Rightarrow> 'i dbe \<Rightarrow> ((nat \<times> nat) option \<times> 'i dbe) option" where
  "reserve_name E w st =
     (case windowPriv st w of
        None \<Rightarrow>
          (case dbe_alloc st of (ok, st) \<Rightarrow>
             let a = nextAddr st
             in Some (if ok then (Some (a, 0),
                        put_priv a (new_priv (windows st w) w)
                          (st\<lparr> windowPriv := (windowPriv st)(w \<mapsto> a), nextAddr := Suc a \<rparr>))
                      else (None, st)))
      | Some a \<Rightarrow>
          do { p \<leftarrow> privs st a;
               i \<leftarrow> scan_ids DBE_FREE_ID_ELEMENT p 0 (maxAvailableIDs p);
               if i = maxAvailableIDs p then
                 (case dbe_alloc st of (ok, st) \<Rightarrow>
                    do { (ok, p) \<leftarrow> grow_ids ok (freshMemory E) p;
                         Some (if ok then Some (a, i) else None, put_priv a p st) })
               else Some (Some (a, i), st) })"

text \<open>The end of the request: one more name, and the swap action of the last call.\<close>

definition count_name :: "nat \<Rightarrow> u8 \<Rightarrow> dbe_status \<Rightarrow> 'i dbe \<Rightarrow> (dbe_status \<times> 'i dbe) option" where
  "count_name a act status st =
     do { p \<leftarrow> privs st a;
          Some (status, put_priv a (p\<lparr> nBufferIDs := Suc (nBufferIDs p), swapAction := act \<rparr>) st) }"

text \<open>\<open>out_free\<close>\<close>

definition free_priv :: "nat \<Rightarrow> nat \<Rightarrow> dbe_status \<Rightarrow> 'i dbe \<Rightarrow> (dbe_status \<times> 'i dbe) option" where
  "free_priv w a status st =
     Some (status, st\<lparr> windowPriv := (windowPriv st)(w := None), privs := (privs st)(a := None) \<rparr>)"

definition enter_name ::
  "'i dbe_env \<Rightarrow> nat \<Rightarrow> nat \<Rightarrow> nat \<Rightarrow> xid \<Rightarrow> u8 \<Rightarrow> 'i dbe \<Rightarrow> (dbe_status \<times> 'i dbe) option" where
  "enter_name E w a i buffer act st =
     do { (status, st) \<leftarrow> miDbeAllocBackBufferName E w buffer st;
          if status = DbeSuccess then
            do { p \<leftarrow> privs st a;
                 p \<leftarrow> set_id i buffer p;
                 (ok, st) \<leftarrow> AddResource buffer (WinPriv a) (put_priv a p st);
                 if ok then count_name a act status st
                 else do { p \<leftarrow> privs st a;
                           p \<leftarrow> set_id i DBE_FREE_ID_ELEMENT p;
                           let st = put_priv a p st;
                           if nBufferIDs p = 0 then free_priv w a BadAlloc st else count_name a act status st } }
          else do { p \<leftarrow> privs st a;
                    if nBufferIDs p = 0 then free_priv w a status st else count_name a act status st } }"

definition swap_actions :: "u8 set" where "swap_actions = {0, 1, 2, 3}"

definition ProcDbeAllocateBackBufferName ::
  "'i dbe_env \<Rightarrow> xid \<Rightarrow> xid \<Rightarrow> u8 \<Rightarrow> 'i dbe \<Rightarrow> (dbe_status \<times> 'i dbe) option" where
  "ProcDbeAllocateBackBufferName E window buffer act st =
     (case lookupWindow E ManageAccess window of
        Inl e \<Rightarrow> Some (e, st)
      | Inr w \<Rightarrow>
          if \<not> inputOutput (windows st w) then Some (BadMatch, st)
          else if act \<notin> swap_actions then Some (BadValue, st)
          else if \<not> LegalNewID E buffer st then Some (BadIDChoice, st)
          else do { funcs \<leftarrow> screenPrivs st (winScreen (windows st w));
                    if \<not> funcs then Some (BadMatch, st)
                    else case miDbeGetVisualInfo E (winScreen (windows st w)) st of
                      (None, st) \<Rightarrow> Some (BadAlloc, st)
                    | (Some info, st) \<Rightarrow>
                        if winVisual (windows st w) \<notin> fst ` set info then Some (BadMatch, st)
                        else do { (slot, st) \<leftarrow> reserve_name E w st;
                                  case slot of
                                    None \<Rightarrow> Some (BadAlloc, st)
                                  | Some (a, i) \<Rightarrow> enter_name E w a i buffer act st } })"

section \<open>Deallocating a name\<close>

definition ProcDbeDeallocateBackBufferName :: "'i dbe_env \<Rightarrow> xid \<Rightarrow> 'i dbe \<Rightarrow> (dbe_status \<times> 'i dbe) option" where
  "ProcDbeDeallocateBackBufferName E buffer st =
     (case lookup_type E is_priv DestroyAccess buffer st of
        Inr (WinPriv a) \<Rightarrow>
          (case lookup_type E is_back DestroyAccess buffer st of
             Inl e \<Rightarrow> Some (e, st)
           | Inr _ \<Rightarrow>
               do { p \<leftarrow> privs st a;
                    i \<leftarrow> scan_ids buffer p 0 (nBufferIDs p);
                    if i = nBufferIDs p then Some (BadBuffer, st)
                    else do { st \<leftarrow> FreeResource buffer st; Some (DbeSuccess, st) } })
      | Inr _ \<Rightarrow> None
      | Inl e \<Rightarrow> Some (e, st))"

section \<open>Swapping\<close>

text \<open>All names of a buffer are made to stand for the given pixmap.\<close>

fun alias_from :: "dbe_priv \<Rightarrow> nat \<Rightarrow> nat \<Rightarrow> nat \<Rightarrow> (xid \<times> res_value) list \<Rightarrow> (xid \<times> res_value) list option" where
  "alias_from p x i 0 rs = Some rs"
| "alias_from p x i (Suc k) rs = do { buf \<leftarrow> id_at p i; alias_from p x (Suc i) k (change_back buf x rs) }"

definition miDbeAliasBuffers :: "nat \<Rightarrow> 'i dbe \<Rightarrow> 'i dbe option" where
  "miDbeAliasBuffers a st =
     do { p \<leftarrow> privs st a;
          if nBufferIDs p = 0 then Some st
          else do { x \<leftarrow> pBackBuffer p;
                    rs \<leftarrow> alias_from p x 0 (nBufferIDs p) (resources st);
                    Some (st\<lparr> resources := rs \<rparr>) } }"

text \<open>The whole of one drawable of the size of the window, copied to another.\<close>

definition copy_all :: "'i dbe_env \<Rightarrow> 'i dbe_window \<Rightarrow> 'i \<Rightarrow> 'i \<Rightarrow> 'i" where
  "copy_all E win src = copyArea E src 0 0 (uint (winWidth win)) (uint (winHeight win)) 0 0"

text \<open>The swap of one window, for the actions undefined (0), background (1), untouched (2) and copied (3).\<close>

definition swap_window :: "'i dbe_env \<Rightarrow> nat \<Rightarrow> u8 \<Rightarrow> 'i dbe \<Rightarrow> 'i dbe option" where
  "swap_window E w act st =
     do { a \<leftarrow> windowPriv st w;
          p \<leftarrow> privs st a;
          st \<leftarrow> (if act = 2
                 then do { f \<leftarrow> pFrontBuffer p; draw_pixmap f (copy_all E (windows st w) (winImage (windows st w))) st }
                 else Some st);
          b \<leftarrow> pBackBuffer p;
          back \<leftarrow> pixmaps st b;
          let win = windows st w;
          let st = st\<lparr> windows := (windows st)(w := win\<lparr> winImage := copy_all E win (pixImage back) (winImage win) \<rparr>) \<rparr>;
          if act = 1 then do { _ \<leftarrow> screen_funcs w st; clear_back E w b st }
          else if act = 2 then miDbeAliasBuffers a (put_priv a (p\<lparr> pBackBuffer := pFrontBuffer p, pFrontBuffer := Some b \<rparr>) st)
          else Some st }"

text \<open>The first window of the list is swapped, and the last one moved to its place.\<close>

definition miDbeSwapBuffers ::
  "'i dbe_env \<Rightarrow> (nat \<times> u8) list \<Rightarrow> 'i dbe \<Rightarrow> ((nat \<times> u8) list \<times> 'i dbe) option" where
  "miDbeSwapBuffers E infos st =
     (case infos of
        [] \<Rightarrow> None
      | (w, act) # rest \<Rightarrow>
          do { st \<leftarrow> swap_window E w act st;
               Some (if rest = [] then [] else last rest # butlast rest, st) })"

text \<open>The checks of the request, window by window.\<close>

fun check_swaps :: "'i dbe_env \<Rightarrow> 'i dbe \<Rightarrow> (xid \<times> u8) list \<Rightarrow> dbe_status + (nat \<times> u8) list" where
  "check_swaps E st [] = Inr []"
| "check_swaps E st ((window, act) # rest) =
     (case lookupWindow E WriteAccess window of
        Inl e \<Rightarrow> Inl e
      | Inr w \<Rightarrow>
          if windowPriv st w = None then Inl BadMatch
          else if window \<in> fst ` set rest then Inl BadMatch
          else if act \<notin> swap_actions then Inl BadValue
          else case check_swaps E st rest of Inl e \<Rightarrow> Inl e | Inr infos \<Rightarrow> Inr ((w, act) # infos))"

text \<open>\<open>while (nStuff_i > 0)\<close>: each call handles one window, so the counter bounds the rounds.\<close>

fun swap_rounds :: "'i dbe_env \<Rightarrow> nat \<Rightarrow> (nat \<times> u8) list \<Rightarrow> 'i dbe \<Rightarrow> (dbe_status \<times> 'i dbe) option" where
  "swap_rounds E 0 infos st = Some (DbeSuccess, st)"
| "swap_rounds E (Suc n) infos st =
     do { _ \<leftarrow> screen_funcs (fst (hd infos)) st;
          (infos, st) \<leftarrow> miDbeSwapBuffers E infos st;
          swap_rounds E n infos st }"

text \<open>
  \<open>n\<close> is the count in the request, \<open>swaps\<close> what follows it; 16 is the size of \<open>DbeSwapInfoRec\<close>.
\<close>

definition ProcDbeSwapBuffers ::
  "'i dbe_env \<Rightarrow> u32 \<Rightarrow> (xid \<times> u8) list \<Rightarrow> 'i dbe \<Rightarrow> (dbe_status \<times> 'i dbe) option" where
  "ProcDbeSwapBuffers E n swaps st =
     (if n = 0 then Some (DbeSuccess, st)
      else if unat n > (2 ^ 32 - 1) div 16 \<or> length swaps \<noteq> unat n then Some (BadLength, st)
      else case dbe_alloc st of (ok, st) \<Rightarrow>
        if \<not> ok then Some (BadAlloc, st)
        else case check_swaps E st swaps of
               Inl e \<Rightarrow> Some (e, st)
             | Inr infos \<Rightarrow> swap_rounds E (length infos) infos st)"

section \<open>Destruction and resizing of a window\<close>

text \<open>Both free the first name until the window has no private; the loop need not end.\<close>

partial_function (option) free_names :: "nat \<Rightarrow> 'i dbe \<Rightarrow> 'i dbe option" where
  "free_names w st =
     (case windowPriv st w of
        None \<Rightarrow> Some st
      | Some a \<Rightarrow> do { p \<leftarrow> privs st a;
                       buf \<leftarrow> id_at p 0;
                       st \<leftarrow> FreeResource buf st;
                       free_names w st })"

definition miDbeWindowDestroy :: "nat \<Rightarrow> 'i dbe \<Rightarrow> 'i dbe option" where
  "miDbeWindowDestroy w st = free_names w st"

text \<open>Division of a C \<open>int\<close> by two.\<close>

definition half :: "int \<Rightarrow> int" where "half d = (if d < 0 then - ((- d) div 2) else d div 2)"

text \<open>\<open>GravityTranslate (0, 0, -dx, -dy, dw, dh, gravity)\<close>\<close>

definition GravityTranslate :: "int \<Rightarrow> int \<Rightarrow> int \<Rightarrow> int \<Rightarrow> nat \<Rightarrow> int \<times> int" where
  "GravityTranslate oldx oldy dw dh gravity =
     (if gravity = 2 then (half dw, 0) else if gravity = 3 then (dw, 0)
      else if gravity = 4 then (0, half dh) else if gravity = 5 then (half dw, half dh)
      else if gravity = 6 then (dw, half dh) else if gravity = 7 then (0, dh)
      else if gravity = 8 then (half dw, dh) else if gravity = 9 then (dw, dh)
      else if gravity = 10 then (oldx, oldy) else (0, 0))"

text \<open>One axis of the clipping: where the copy starts, how long it is and where it goes.\<close>

definition clip_axis :: "int \<Rightarrow> int \<Rightarrow> int \<Rightarrow> int \<times> int \<times> int" where
  "clip_axis dest save limit =
     (let (src, save, dest) = (if dest < 0 then (- dest, save + dest, 0) else (0, save, dest))
      in (src, if dest + save > limit then limit - dest else save, dest))"

text \<open>The contents of a new pixmap: background, then what the old one had.\<close>

definition move_contents ::
  "'i dbe_env \<Rightarrow> nat \<Rightarrow> nat \<Rightarrow> paint option \<Rightarrow> (int \<times> int \<times> int \<times> int \<times> int \<times> int) option \<Rightarrow> int \<Rightarrow> int
    \<Rightarrow> 'i dbe \<Rightarrow> 'i dbe option" where
  "move_contents E old new fill copy width height st =
     do { st \<leftarrow> (case fill of None \<Rightarrow> Some st | Some g \<Rightarrow> draw_pixmap new (fillRect E g width height) st);
          case copy of None \<Rightarrow> Some st
          | Some (sx, sy, w, h, dx, dy) \<Rightarrow>
              do { pm \<leftarrow> pixmaps st old; draw_pixmap new (copyArea E (pixImage pm) sx sy w h dx dy) st } }"

text \<open>
  The end of the hook: two new pixmaps get the contents of the old ones and replace them for all the names;
  without memory the buffer of the window is given up.
\<close>

definition new_pixmaps ::
  "'i dbe_env \<Rightarrow> nat \<Rightarrow> nat \<Rightarrow> paint option \<Rightarrow> (int \<times> int \<times> int \<times> int \<times> int \<times> int) option \<Rightarrow> 'i dbe \<Rightarrow> 'i dbe option" where
  "new_pixmaps E w a fill copy st =
     (let win = windows st w; width = uint (winWidth win); height = uint (winHeight win) in
      case CreatePixmap E (winWidth win) (winHeight win) st of (front, st) \<Rightarrow>
      case CreatePixmap E (winWidth win) (winHeight win) st of (back, st) \<Rightarrow>
      if front = None \<or> back = None then
        do { st \<leftarrow> dixDestroyPixmap front st;
             st \<leftarrow> dixDestroyPixmap back st;
             free_names w st }
      else do {
        p \<leftarrow> privs st a;
        oldf \<leftarrow> pFrontBuffer p;
        oldb \<leftarrow> pBackBuffer p;
        st \<leftarrow> move_contents E oldf (the front) fill copy width height st;
        st \<leftarrow> move_contents E oldb (the back) fill copy width height st;
        st \<leftarrow> dixDestroyPixmap (Some oldf) st;
        st \<leftarrow> dixDestroyPixmap (Some oldb) st;
        miDbeAliasBuffers a (put_priv a (p\<lparr> pFrontBuffer := front, pBackBuffer := back \<rparr>) st) })"

definition miDbeWindowPosition :: "'i dbe_env \<Rightarrow> nat \<Rightarrow> 'i dbe \<Rightarrow> 'i dbe option" where
  "miDbeWindowPosition E w st =
     (case windowPriv st w of
        None \<Rightarrow> Some st
      | Some a \<Rightarrow>
          do { p \<leftarrow> privs st a;
               let win = windows st w;
               if bufWidth p = winWidth win \<and> bufHeight p = winHeight win then Some st
               else do {
                 let width = uint (winWidth win);
                 let height = uint (winHeight win);
                 let dw = width - uint (bufWidth p);
                 let dh = height - uint (bufHeight p);
                 let (destx, desty) = GravityTranslate (- (sint (winX win) - sint (bufX p)))
                       (- (sint (winY win) - sint (bufY p))) dw dh (bitGravity win);
                 let clear = (bufWidth p < winWidth win \<or> bufHeight p < winHeight win \<or> bitGravity win = 0);
                 let (sx, savew, destx) = clip_axis destx (uint (bufWidth p)) width;
                 let (sy, saveh, desty) = clip_axis desty (uint (bufHeight p)) height;
                 let st = put_priv a (p\<lparr> bufWidth := winWidth win, bufHeight := winHeight win,
                                          bufX := winX win, bufY := winY win \<rparr>) st;
                 fill \<leftarrow> (if clear then do { _ \<leftarrow> screen_funcs w st; DbeSetupBackgroundPainter E w st } else Some None);
                 let copy = (if bitGravity win = 0 then None else Some (sx, sy, savew, saveh, destx, desty));
                 new_pixmaps E w a fill copy st } })"

section \<open>Queries\<close>

text \<open>The extension is version 1.0.\<close>

definition ProcDbeGetVersion :: "u8 \<times> u8" where "ProcDbeGetVersion = (1, 0)"

text \<open>The window a buffer belongs to, or \<open>None\<close> (0) if there is no such buffer.\<close>

definition ProcDbeGetBackBufferAttributes :: "'i dbe_env \<Rightarrow> xid \<Rightarrow> 'i dbe \<Rightarrow> xid option" where
  "ProcDbeGetBackBufferAttributes E buffer st =
     (case lookup_type E is_priv GetAttrAccess buffer st of
        Inr (WinPriv a) \<Rightarrow> do { p \<leftarrow> privs st a; Some (winID (windows st (pWindow p))) }
      | Inr _ \<Rightarrow> None
      | Inl e \<Rightarrow> Some 0)"

text \<open>The screens of the drawables in the request, or all of them.\<close>

fun lookup_drawables :: "'i dbe_env \<Rightarrow> xid list \<Rightarrow> dbe_status + nat list" where
  "lookup_drawables E [] = Inr []"
| "lookup_drawables E (d # ds) =
     (case lookupDrawable E d of Inl e \<Rightarrow> Inl e
      | Inr scr \<Rightarrow> (case lookup_drawables E ds of Inl e \<Rightarrow> Inl e | Inr scrs \<Rightarrow> Inr (scr # scrs)))"

text \<open>The reply: for each screen the list of its visuals; one allocation for the list, one for the reply buffer.\<close>

fun visual_infos ::
  "'i dbe_env \<Rightarrow> nat list \<Rightarrow> 'i dbe \<Rightarrow> ((dbe_status + (xid \<times> u8 \<times> u8) list list) \<times> 'i dbe) option" where
  "visual_infos E [] st = Some (Inr [], st)"
| "visual_infos E (scr # scrs) st =
     (case screenAccess E scr of
        Some e \<Rightarrow> Some (Inl e, st)
      | None \<Rightarrow>
          if screenPrivs st scr \<noteq> Some True then None
          else case miDbeGetVisualInfo E scr st of
            (None, st) \<Rightarrow> Some (Inl BadAlloc, st)
          | (Some info, st) \<Rightarrow>
              (case dbe_alloc st of (ok, st) \<Rightarrow>
                 if \<not> ok then Some (Inl BadAlloc, st)
                 else do { (rest, st) \<leftarrow> visual_infos E scrs st;
                           Some (case rest of Inl e \<Rightarrow> Inl e | Inr infos \<Rightarrow> Inr (info # infos), st) }))"

definition ProcDbeGetVisualInfo ::
  "'i dbe_env \<Rightarrow> u32 \<Rightarrow> xid list \<Rightarrow> 'i dbe \<Rightarrow> ((dbe_status + (xid \<times> u8 \<times> u8) list list) \<times> 'i dbe) option" where
  "ProcDbeGetVisualInfo E n drawables st =
     (if unat n > (2 ^ 32 - 1) div 4 \<or> length drawables \<noteq> unat n then Some (Inl BadLength, st)
      else if unat n > (2 ^ 32 - 1) div 8 then Some (Inl BadAlloc, st)
      else if n = 0 then visual_infos E [0..<numScreens E] st
      else case dbe_alloc st of (ok, st) \<Rightarrow>
        if \<not> ok then Some (Inl BadAlloc, st)
        else case lookup_drawables E drawables of
               Inl e \<Rightarrow> Some (Inl e, st)
             | Inr scrs \<Rightarrow> visual_infos E scrs st)"

section \<open>Dispatch\<close>

text \<open>The requests by their minor opcodes, and what they reply; the two idiom requests do nothing.\<close>

datatype dbe_request =
  GetVersion
| AllocateBackBufferName xid xid u8
| DeallocateBackBufferName xid
| SwapBuffers u32 "(xid \<times> u8) list"
| BeginIdiom
| EndIdiom
| GetVisualInfo u32 "xid list"
| GetBackBufferAttributes xid
| UnknownRequest

datatype dbe_reply =
  NoReply
| VersionReply u8 u8
| VisualInfoReply "(xid \<times> u8 \<times> u8) list list"
| AttributesReply xid

definition no_reply :: "(dbe_status \<times> 'i dbe) option \<Rightarrow> ((dbe_status \<times> dbe_reply) \<times> 'i dbe) option" where
  "no_reply r = map_option (\<lambda>(s, st). ((s, NoReply), st)) r"

definition ProcDbeDispatch ::
  "'i dbe_env \<Rightarrow> dbe_request \<Rightarrow> 'i dbe \<Rightarrow> ((dbe_status \<times> dbe_reply) \<times> 'i dbe) option" where
  "ProcDbeDispatch E r st =
     (case r of
        GetVersion \<Rightarrow> Some ((DbeSuccess, VersionReply (fst ProcDbeGetVersion) (snd ProcDbeGetVersion)), st)
      | AllocateBackBufferName window buffer act \<Rightarrow> no_reply (ProcDbeAllocateBackBufferName E window buffer act st)
      | DeallocateBackBufferName buffer \<Rightarrow> no_reply (ProcDbeDeallocateBackBufferName E buffer st)
      | SwapBuffers n swaps \<Rightarrow> no_reply (ProcDbeSwapBuffers E n swaps st)
      | BeginIdiom \<Rightarrow> Some ((DbeSuccess, NoReply), st)
      | EndIdiom \<Rightarrow> Some ((DbeSuccess, NoReply), st)
      | GetVisualInfo n drawables \<Rightarrow>
          do { (reply, st) \<leftarrow> ProcDbeGetVisualInfo E n drawables st;
               Some (case reply of Inl e \<Rightarrow> (e, NoReply) | Inr infos \<Rightarrow> (DbeSuccess, VisualInfoReply infos), st) }
      | GetBackBufferAttributes buffer \<Rightarrow>
          do { window \<leftarrow> ProcDbeGetBackBufferAttributes E buffer st; Some ((DbeSuccess, AttributesReply window), st) }
      | UnknownRequest \<Rightarrow> Some ((BadRequest, NoReply), st))"

section \<open>Initialisation\<close>

text \<open>\<open>miDbeInit\<close> sets the function pointers of a screen and always succeeds.\<close>

definition miDbeInit :: "nat \<Rightarrow> 'i dbe \<Rightarrow> bool \<times> 'i dbe" where
  "miDbeInit scr st = (True, st\<lparr> screenPrivs := (screenPrivs st)(scr \<mapsto> True) \<rparr>)"

definition DbeStubScreen :: "nat \<Rightarrow> 'i dbe \<Rightarrow> nat \<Rightarrow> 'i dbe \<times> nat" where
  "DbeStubScreen scr st stubbed = (st\<lparr> screenPrivs := (screenPrivs st)(scr \<mapsto> False) \<rparr>, Suc stubbed)"

definition forget_screens :: "nat list \<Rightarrow> 'i dbe \<Rightarrow> 'i dbe" where
  "forget_screens scrs st = st\<lparr> screenPrivs := (\<lambda>s. if s \<in> set scrs then None else screenPrivs st s) \<rparr>"

text \<open>
  The screens in turn: a private that cannot be allocated undoes those before it. The result is the number
  of stubbed screens, or \<open>None\<close>.
\<close>

fun init_screens :: "nat list \<Rightarrow> nat list \<Rightarrow> nat \<Rightarrow> 'i dbe \<Rightarrow> nat option \<times> 'i dbe" where
  "init_screens before [] stubbed st = (Some stubbed, st)"
| "init_screens before (scr # scrs) stubbed st =
     (case dbe_alloc st of (ok, st) \<Rightarrow>
        if \<not> ok then (None, forget_screens before st)
        else case miDbeInit scr st of (ok, st) \<Rightarrow>
          let (st, stubbed) = (if ok then (st, stubbed) else DbeStubScreen scr st stubbed)
          in init_screens (before @ [scr]) scrs stubbed st)"

text \<open>\<open>registered\<close>: the resource types and private keys exist. The result says whether the extension is added.\<close>

definition DbeExtensionInit :: "'i dbe_env \<Rightarrow> bool \<Rightarrow> bool \<Rightarrow> 'i dbe \<Rightarrow> bool \<times> 'i dbe" where
  "DbeExtensionInit E panoramix registered st =
     (if panoramix \<or> \<not> registered then (False, st)
      else case init_screens [] [0..<numScreens E] 0 st of
             (None, st) \<Rightarrow> (False, st)
           | (Some stubbed, st) \<Rightarrow>
               if stubbed = numScreens E then (False, forget_screens [0..<numScreens E] st)
               else (True, st))"

text \<open>The privates are freed at the end of the server generation; a later use of one is a fault.\<close>

definition DbeResetProc :: "'i dbe_env \<Rightarrow> 'i dbe \<Rightarrow> 'i dbe" where
  "DbeResetProc E st = forget_screens [0..<numScreens E] st"

end
