(* ===== verification/DbeInv.thy ===== *)
theory DbeInv
  imports DbeRequests
begin

text \<open>
  The invariant of the double buffer extension: window privates, buffer names, resources and pixmaps are in
  exact correspondence. The lemmas say how it survives each kind of change to one window private.
\<close>

section \<open>The invariant\<close>

text \<open>A window points to its private, and only to it.\<close>

definition link_wf :: "'i dbe \<Rightarrow> bool" where
  "link_wf st \<longleftrightarrow> (\<forall>w a. windowPriv st w = Some a \<longleftrightarrow> (\<exists>p. privs st a = Some p \<and> pWindow p = w))"

text \<open>A private has a name at least, and two pixmaps.\<close>

definition buffer_wf :: "dbe_priv \<Rightarrow> bool" where
  "buffer_wf p \<longleftrightarrow> ids_wf p \<and> names p \<noteq> []
     \<and> (\<exists>f b. pFrontBuffer p = Some f \<and> pBackBuffer p = Some b \<and> f \<noteq> b)"

definition privs_wf :: "'i dbe \<Rightarrow> bool" where
  "privs_wf st \<longleftrightarrow> (\<forall>a p. privs st a = Some p \<longrightarrow> buffer_wf p \<and> a < nextAddr st)"

text \<open>The names, the back buffer and the pixmaps of the private at an address.\<close>

definition names_at :: "'i dbe \<Rightarrow> nat \<Rightarrow> xid set" where
  "names_at st a = (case privs st a of None \<Rightarrow> {} | Some p \<Rightarrow> set (names p))"

definition back_at :: "'i dbe \<Rightarrow> nat \<Rightarrow> nat option" where
  "back_at st a = (case privs st a of None \<Rightarrow> None | Some p \<Rightarrow> pBackBuffer p)"

definition pixmaps_at :: "'i dbe \<Rightarrow> nat \<Rightarrow> nat set" where
  "pixmaps_at st a = (case privs st a of None \<Rightarrow> {} | Some p \<Rightarrow> set_option (pFrontBuffer p) \<union> set_option (pBackBuffer p))"

text \<open>
  A name has two resources, the private and its back buffer; no name is shared, nor used by anything else.
\<close>

definition resources_wf :: "(nat \<Rightarrow> xid set) \<Rightarrow> (nat \<Rightarrow> nat option) \<Rightarrow> (xid \<times> res_value) list \<Rightarrow> bool" where
  "resources_wf N B rs \<longleftrightarrow> distinct rs
     \<and> (\<forall>buf a. (buf, WinPriv a) \<in> set rs \<longleftrightarrow> buf \<in> N a)
     \<and> (\<forall>buf x. (buf, BackPixmap x) \<in> set rs \<longleftrightarrow> (\<exists>a. buf \<in> N a \<and> B a = Some x))
     \<and> (\<forall>buf a b. buf \<in> N a \<and> buf \<in> N b \<longrightarrow> a = b)
     \<and> (\<forall>buf v a. (buf, OtherValue v) \<in> set rs \<longrightarrow> buf \<notin> N a)"

text \<open>The pixmaps are exactly those of the privates: none is lost and none is shared.\<close>

definition pixmaps_wf :: "(nat \<Rightarrow> nat set) \<Rightarrow> nat set \<Rightarrow> bool" where
  "pixmaps_wf P D \<longleftrightarrow> (\<forall>x. x \<in> D \<longleftrightarrow> (\<exists>a. x \<in> P a)) \<and> (\<forall>x a b. x \<in> P a \<and> x \<in> P b \<longrightarrow> a = b)"

text \<open>What the extension relies on in the server: initialised screens, and a window tree without cycles.\<close>

definition server_wf :: "'i dbe \<Rightarrow> bool" where
  "server_wf st \<longleftrightarrow> (\<forall>w. screenPrivs st (winScreen (windows st w)) = Some True \<and> background_from st w 0 0 \<noteq> None)"

definition dbe_wf :: "'i dbe \<Rightarrow> bool" where
  "dbe_wf st \<longleftrightarrow> link_wf st \<and> privs_wf st \<and> resources_wf (names_at st) (back_at st) (resources st)
     \<and> pixmaps_wf (pixmaps_at st) (dom (pixmaps st)) \<and> (\<forall>x \<in> dom (pixmaps st). x < nextAddr st) \<and> server_wf st"

section \<open>Frames\<close>

text \<open>The background only depends on the windows, and not on their contents.\<close>

lemma background_frame:
  assumes "\<And>w. backgroundState (windows st' w) = backgroundState (windows st w) \<and> winParent (windows st' w) = winParent (windows st w)
    \<and> originX (windows st' w) = originX (windows st w) \<and> originY (windows st' w) = originY (windows st w)"
    "background_from st w x y = Some g"
  shows "background_from st' w x y = Some g"
proof -
  have "st = st \<longrightarrow> background_from st' w x y = Some g"
  proof (rule background_from.raw_induct[of "\<lambda>s w x y g. s = st \<longrightarrow> background_from st' w x y = Some g"
        "(((st, w), x), y)" g, unfolded split_conv])
    fix f s w x y g
    assume f: "\<And>w x y b g. f w x y b = Some g \<Longrightarrow> w = st \<longrightarrow> background_from st' x y b = Some g"
      and g: "(case backgroundState (windows s w) of
        ParentRelative \<Rightarrow> winParent (windows s w) \<bind>
          (\<lambda>parent. f s parent (x - originX (windows s w)) (y - originY (windows s w)))
      | BackgroundNone \<Rightarrow> Some None | BackgroundPixel c \<Rightarrow> Some (Some (Solid c))
      | BackgroundPixmap t \<Rightarrow> Some (Some (Tiled t x y))) = Some g"
    show "s = st \<longrightarrow> background_from st' w x y = Some g"
      using g assms(1)[of w] f by (subst background_from.simps) (auto split: background.splits)
  qed (rule assms(2))
  then show ?thesis by simp
qed

definition same_server :: "'i dbe \<Rightarrow> 'i dbe \<Rightarrow> bool" where
  "same_server st st' \<longleftrightarrow> screenPrivs st' = screenPrivs st \<and> (\<forall>w. \<exists>im. windows st' w = (windows st w)\<lparr> winImage := im \<rparr>)"

lemma same_server_refl [simp]: "screenPrivs st' = screenPrivs st \<Longrightarrow> windows st' = windows st \<Longrightarrow> same_server st st'"
  unfolding same_server_def by (metis dbe_window.surjective dbe_window.update_convs(14))

lemma server_wf_frame: "same_server st st' \<Longrightarrow> server_wf st \<Longrightarrow> server_wf st'"
proof -
  assume s: "same_server st st'" and wf: "server_wf st"
  have "winScreen (windows st' w) = winScreen (windows st w)
    \<and> backgroundState (windows st' w) = backgroundState (windows st w) \<and> winParent (windows st' w) = winParent (windows st w)
    \<and> originX (windows st' w) = originX (windows st w) \<and> originY (windows st' w) = originY (windows st w)" for w
    using s unfolding same_server_def by (metis (no_types, lifting) dbe_window.simps dbe_window.update_convs(14) dbe_window.select_convs dbe_window.surjective)
  then show "server_wf st'"
    using wf s background_frame[of st' st] unfolding server_wf_def same_server_def by (metis option.exhaust)
qed

section \<open>Changes to one private\<close>

lemma wf_privD:
  assumes "dbe_wf st" "privs st a = Some p"
  shows "ids_wf p" "names p \<noteq> []" "nBufferIDs p = length (names p)" "windowPriv st (pWindow p) = Some a" "a < nextAddr st"
  using assms by (auto simp: dbe_wf_def privs_wf_def buffer_wf_def ids_wf_def link_wf_def)

lemma wf_pixmapsE:
  assumes "dbe_wf st" "privs st a = Some p"
  obtains f b where "pFrontBuffer p = Some f" "pBackBuffer p = Some b" "f \<noteq> b" "f \<in> dom (pixmaps st)" "b \<in> dom (pixmaps st)"
proof -
  obtain f b where fb: "pFrontBuffer p = Some f" "pBackBuffer p = Some b" "f \<noteq> b"
    using assms unfolding dbe_wf_def privs_wf_def buffer_wf_def by blast
  then have "f \<in> pixmaps_at st a" "b \<in> pixmaps_at st a" using assms(2) by (simp_all add: pixmaps_at_def)
  then have "f \<in> dom (pixmaps st)" "b \<in> dom (pixmaps st)"
    using assms(1) unfolding dbe_wf_def pixmaps_wf_def by blast+
  with fb show ?thesis by (rule that)
qed

lemma resources_add:
  assumes "resources_wf N B rs" "buf \<notin> fst ` set rs" "B a = Some b"
  shows "resources_wf (N(a := insert buf (N a))) B ((buf, WinPriv a) # (buf, BackPixmap b) # rs)"
proof -
  have fresh: "(buf, v) \<notin> set rs" for v using assms(2) by force
  moreover have "buf \<notin> N c" for c using assms(1) fresh[of "WinPriv c"] unfolding resources_wf_def by blast
  ultimately show ?thesis using assms(1,3) unfolding resources_wf_def by auto (metis option.inject)
qed

lemma resources_back: "resources_wf N B rs \<Longrightarrow> N a = {} \<Longrightarrow> resources_wf N (B(a := y)) rs"
  unfolding resources_wf_def by auto

lemma resources_remove:
  assumes "resources_wf N B rs" "buf \<in> N a"
  shows "resources_wf (N(a := N a - {buf})) B (filter (\<lambda>r. fst r \<noteq> buf) rs)"
  using assms unfolding resources_wf_def by auto

lemma pixmaps_add: "pixmaps_wf P D \<Longrightarrow> P a = {} \<Longrightarrow> X \<inter> D = {} \<Longrightarrow> pixmaps_wf (P(a := X)) (D \<union> X)"
  unfolding pixmaps_wf_def by (auto split: if_splits)

lemma pixmaps_remove: "pixmaps_wf P D \<Longrightarrow> pixmaps_wf (P(a := {})) (D - P a)"
  unfolding pixmaps_wf_def by (auto split: if_splits)

section \<open>Rebinding the names of a buffer\<close>

definition rebind :: "xid set \<Rightarrow> nat \<Rightarrow> xid \<times> res_value \<Rightarrow> xid \<times> res_value" where
  "rebind M x r = (if fst r \<in> M \<and> is_back (snd r) then (fst r, BackPixmap x) else r)"

lemma is_back_iff: "is_back v \<longleftrightarrow> (\<exists>x. v = BackPixmap x)" "is_priv v \<longleftrightarrow> (\<exists>a. v = WinPriv a)"
  by (cases v; simp)+

lemma rebind_simps:
  "fst (rebind M x r) = fst r" "is_back (snd (rebind M x r)) = is_back (snd r)"
  "rebind {b} x (rebind M x r) = rebind (insert b M) x r"
  by (auto simp: rebind_def)

definition backs :: "(xid \<times> res_value) list \<Rightarrow> xid list" where
  "backs rs = map fst (filter (\<lambda>r. is_back (snd r)) rs)"

lemma backs_rebind: "backs (map (rebind M x) rs) = backs rs"
  by (induction rs) (auto simp: backs_def rebind_simps)

lemma resources_backs:
  assumes "resources_wf N B rs"
  shows "distinct (backs rs)"
proof -
  have "x = y" if "(buf, BackPixmap x) \<in> set rs" "(buf, BackPixmap y) \<in> set rs" for buf x y
    using assms that unfolding resources_wf_def by (metis option.inject)
  then have "inj_on fst (set (filter (\<lambda>r. is_back (snd r)) rs))"
    by (auto simp: inj_on_def is_back_iff)
  then show ?thesis using assms by (simp add: backs_def distinct_map resources_wf_def)
qed

lemma rebind_other: "buf \<notin> set (backs rs) \<Longrightarrow> map (rebind {buf} x) rs = rs"
  by (induction rs) (auto simp: backs_def rebind_def split: if_splits)

lemma change_back_map: "distinct (backs rs) \<Longrightarrow> change_back buf x rs = map (rebind {buf} x) rs"
proof (induction rs)
  case (Cons r rs)
  show ?case
  proof (cases "fst r = buf \<and> is_back (snd r)")
    case True
    then have "buf \<notin> set (backs rs)" using Cons.prems by (auto simp: backs_def)
    then have "map (rebind {buf} x) rs = rs" by (rule rebind_other)
    moreover have "rebind {buf} x r = (buf, BackPixmap x)" using True by (simp add: rebind_def)
    ultimately show ?thesis using True by simp
  next
    case False
    then show ?thesis using Cons by (auto simp: rebind_def backs_def split: if_splits)
  qed
qed simp

lemma alias_from_rebind:
  assumes "id_block p = Some xs" "i + k \<le> length xs" "distinct (backs rs)"
  shows "alias_from p x i k (map (rebind M x) rs) = Some (map (rebind (M \<union> set (take k (drop i xs))) x) rs)"
  using assms(2)
proof (induction k arbitrary: i M)
  case (Suc k)
  have "change_back (xs ! i) x (map (rebind M x) rs) = map (rebind (insert (xs ! i) M) x) rs"
    using assms(3) by (simp add: change_back_map backs_rebind rebind_simps)
  moreover have "drop i xs = xs ! i # drop (Suc i) xs" using Suc.prems by (simp add: Cons_nth_drop_Suc)
  ultimately show ?case
    using Suc.IH[of "Suc i" "insert (xs ! i) M"] Suc.prems id_at_nth[OF assms(1), of i] by simp
qed simp

lemma alias_names:
  assumes "ids_wf p" "distinct (backs rs)"
  shows "alias_from p x 0 (nBufferIDs p) rs = Some (map (rebind (set (names p)) x) rs)"
proof -
  obtain xs where xs: "id_block p = Some xs" "xs = names p @ replicate (maxAvailableIDs p - nBufferIDs p) 0"
    "length xs = maxAvailableIDs p" "nBufferIDs p = length (names p)" "IDs p \<noteq> Null" by (rule ids_wf_block[OF assms(1)])
  have "rebind {} x = (\<lambda>r. r)" by (simp add: rebind_def fun_eq_iff)
  moreover have "take (nBufferIDs p) xs = names p" unfolding xs(2) using xs(4) by simp
  moreover have "nBufferIDs p \<le> length xs" using assms(1) xs(3) by (simp add: ids_wf_def)
  ultimately show ?thesis
    using alias_from_rebind[OF xs(1) _ assms(2), of 0 "nBufferIDs p" x "{}"] by simp
qed

lemma resources_rebind:
  assumes "resources_wf N B rs" "B a \<noteq> None"
  shows "resources_wf N (B(a := Some x)) (map (rebind (N a) x) rs)"
proof -
  have one: "u = v" if "(buf, BackPixmap u) \<in> set rs" "(buf, BackPixmap v) \<in> set rs" for buf u v
    using assms that unfolding resources_wf_def by (metis option.inject)
  have "inj_on (rebind (N a) x) (set rs)"
    using one by (fastforce simp: inj_on_def rebind_def is_back_iff split: if_splits)
  then have d: "distinct (map (rebind (N a) x) rs)" using assms by (simp add: distinct_map resources_wf_def)
  have priv: "(buf, WinPriv c) \<in> set (map (rebind (N a) x) rs) \<longleftrightarrow> (buf, WinPriv c) \<in> set rs" for buf c
    by (force simp: rebind_def is_back_iff)
  have other: "(buf, OtherValue v) \<in> set (map (rebind (N a) x) rs) \<longleftrightarrow> (buf, OtherValue v) \<in> set rs" for buf v
    by (force simp: rebind_def is_back_iff)
  have bk: "(buf, BackPixmap y) \<in> set (map (rebind (N a) x) rs) \<longleftrightarrow>
      (if buf \<in> N a then y = x \<and> (\<exists>z. (buf, BackPixmap z) \<in> set rs) else (buf, BackPixmap y) \<in> set rs)" for buf y
    by (force simp: rebind_def is_back_iff image_iff)
  have n: "\<exists>z. (buf, BackPixmap z) \<in> set rs" if "buf \<in> N a" "B a \<noteq> None" for buf
    using assms that unfolding resources_wf_def by blast
  show ?thesis
    using assms d unfolding resources_wf_def priv other bk by auto
qed

section \<open>Freeing a name\<close>

text \<open>Deleting a private does not look at the resources.\<close>

lemma delete_resources:
  "DbeWindowPrivDelete a buf (st\<lparr> resources := rs \<rparr>)
    = map_option (\<lambda>(s, t). (s, t\<lparr> resources := rs \<rparr>)) (DbeWindowPrivDelete a buf st)"
  by (auto simp: DbeWindowPrivDelete_def miDbeWinPrivDelete_def dixDestroyPixmap_def put_priv_def screen_funcs_def Let_def
      split: Option.bind_split option.split)

lemma delete_keeps_resources:
  "DbeWindowPrivDelete a buf st = Some (s, t) \<Longrightarrow> resources t = resources st"
  by (auto simp: DbeWindowPrivDelete_def miDbeWinPrivDelete_def dixDestroyPixmap_def put_priv_def Let_def
      split: option.splits if_splits)

lemma find_first:
  "find P xs = Some x \<Longrightarrow> P x \<and> x \<in> set xs"
  by (induction xs) (auto split: if_splits)

lemma filter_remove1: "\<not> P x \<Longrightarrow> filter P (remove1 x xs) = filter P xs"
  by (induction xs) auto

lemma rounds_backs:
  assumes "\<forall>r \<in> set (resources st). fst r = buf \<longrightarrow> is_back (snd r)" "length (resources st) \<le> k"
  shows "free_rounds k buf st = Some (st\<lparr> resources := filter (\<lambda>r. fst r \<noteq> buf) (resources st) \<rparr>)"
  using assms
proof (induction k arbitrary: st)
  case (Suc k)
  show ?case
  proof (cases "find (\<lambda>r. fst r = buf) (resources st)")
    case None
    then have "filter (\<lambda>r. fst r \<noteq> buf) (resources st) = resources st" by (auto simp: find_None_iff intro: filter_True)
    then show ?thesis using None by simp
  next
    case (Some r)
    have r: "fst r = buf" "r \<in> set (resources st)" using find_first[OF Some] by simp_all
    then obtain x where x: "snd r = BackPixmap x" using Suc.prems(1) by (auto simp: is_back_iff)
    let ?st = "st\<lparr> resources := remove1 r (resources st) \<rparr>"
    have "free_rounds k buf ?st = Some (?st\<lparr> resources := filter (\<lambda>r. fst r \<noteq> buf) (resources ?st) \<rparr>)"
    proof (rule Suc.IH)
      show "\<forall>s \<in> set (resources ?st). fst s = buf \<longrightarrow> is_back (snd s)"
        using Suc.prems(1) set_remove1_subset[of r "resources st"] by auto
    qed (use Suc.prems(2) r(2) in \<open>simp add: length_remove1\<close>)
    then show ?thesis using Some x r(1) by (simp add: delete_value_def DbeDrawableDelete_def filter_remove1)
  qed
qed simp

text \<open>With one private among the resources of a name, freeing the name deletes the private's entry once.\<close>

lemma rounds_priv:
  assumes "distinct (resources st)" "(buf, WinPriv a) \<in> set (resources st)"
    "\<forall>r \<in> set (resources st). fst r = buf \<longrightarrow> r = (buf, WinPriv a) \<or> is_back (snd r)"
    "length (resources st) \<le> k" "DbeWindowPrivDelete a buf st = Some (s, t)"
  shows "free_rounds k buf st = Some (t\<lparr> resources := filter (\<lambda>r. fst r \<noteq> buf) (resources st) \<rparr>)"
  using assms
proof (induction k arbitrary: st t)
  case (Suc k)
  obtain r where r: "find (\<lambda>r. fst r = buf) (resources st) = Some r"
    using Suc.prems(2) find_None_iff[of "\<lambda>r. fst r = buf" "resources st"]
    by (cases "find (\<lambda>r. fst r = buf) (resources st)") auto
  have r': "fst r = buf" "r \<in> set (resources st)" using find_first[OF r] by simp_all
  let ?rs = "remove1 r (resources st)"
  have sub: "set ?rs = set (resources st) - {r}" using Suc.prems(1) by (rule set_remove1_eq)
  have len: "length ?rs \<le> k" using Suc.prems(4) r'(2) by (simp add: length_remove1)
  have keep: "filter (\<lambda>r. fst r \<noteq> buf) ?rs = filter (\<lambda>r. fst r \<noteq> buf) (resources st)"
    by (rule filter_remove1) (use r'(1) in simp)
  show ?case
  proof (cases "r = (buf, WinPriv a)")
    case True
    have "free_rounds k buf (t\<lparr> resources := ?rs \<rparr>)
        = Some (t\<lparr> resources := ?rs \<rparr>\<lparr> resources := filter (\<lambda>r. fst r \<noteq> buf) (resources (t\<lparr> resources := ?rs \<rparr>)) \<rparr>)"
      using Suc.prems(3) sub len True by (intro rounds_backs) auto
    then show ?thesis
      using r True Suc.prems(5) keep by (simp add: delete_value_def delete_resources)
  next
    case False
    then obtain x where x: "snd r = BackPixmap x" using Suc.prems(3) r' by (auto simp: is_back_iff)
    have "free_rounds k buf (st\<lparr> resources := ?rs \<rparr>) = Some (t\<lparr> resources := ?rs \<rparr>\<lparr> resources := filter (\<lambda>r. fst r \<noteq> buf) (resources (st\<lparr> resources := ?rs \<rparr>)) \<rparr>)"
      using Suc.prems False sub len by (intro Suc.IH) (auto simp: delete_resources)
    then show ?thesis using r x r'(1) keep by (simp add: delete_value_def DbeDrawableDelete_def)
  qed
qed (cases "resources st"; simp)

lemma wf_parts:
  assumes "dbe_wf st"
  shows "link_wf st" "privs_wf st" "resources_wf (names_at st) (back_at st) (resources st)"
    "pixmaps_wf (pixmaps_at st) (dom (pixmaps st))" "\<And>x. x \<in> dom (pixmaps st) \<Longrightarrow> x < nextAddr st" "server_wf st"
  using assms by (simp_all add: dbe_wf_def)

lemma wf_screen: "dbe_wf st \<Longrightarrow> windows st' = windows st \<Longrightarrow> screenPrivs st' = screenPrivs st \<Longrightarrow> screen_funcs w st' = Some ()"
  by (simp add: dbe_wf_def server_wf_def screen_funcs_def)

lemma names_remove:
  assumes "ids_wf p" "i < nBufferIDs p" "names p ! i = buf"
  shows "take i (names p) @ drop (Suc i) (names p) = remove1 buf (names p)"
proof -
  have d: "distinct (names p)" "i < length (names p)" using assms by (simp_all add: ids_wf_def)
  have split: "names p = take i (names p) @ buf # drop (Suc i) (names p)"
    using id_take_nth_drop[OF d(2)] assms(3) by simp
  then have "buf \<notin> set (take i (names p))" using d(1) by (metis distinct_append Int_iff empty_iff list.set_intros(1))
  then show ?thesis by (subst (3) split) (simp add: remove1_append)
qed

text \<open>The state without one name of the private at \<open>a\<close>, whose record becomes \<open>q\<close>.\<close>

definition without_name :: "nat \<Rightarrow> dbe_priv \<Rightarrow> xid \<Rightarrow> 'i dbe \<Rightarrow> 'i dbe" where
  "without_name a q buf st =
     (if names q = []
      then st\<lparr> resources := filter (\<lambda>r. fst r \<noteq> buf) (resources st), privs := (privs st)(a := None),
               windowPriv := (windowPriv st)(pWindow q := None),
               pixmaps := (\<lambda>x. if x \<in> pixmaps_at st a then None else pixmaps st x) \<rparr>
      else st\<lparr> resources := filter (\<lambda>r. fst r \<noteq> buf) (resources st), privs := (privs st)(a \<mapsto> q) \<rparr>)"

lemma priv_delete:
  assumes wf: "dbe_wf st" and p: "privs st a = Some p" and buf: "buf \<in> set (names p)"
  shows "\<exists>q st'. DbeWindowPrivDelete a buf st = Some (DbeSuccess, st') \<and> ids_wf q \<and> names q = remove1 buf (names p)
    \<and> same_buffer p q \<and> st'\<lparr> resources := filter (\<lambda>r. fst r \<noteq> buf) (resources st) \<rparr> = without_name a q buf st"
proof -
  have w: "ids_wf p" using wf_privD[OF wf p] by simp
  obtain i where i: "i < nBufferIDs p" "scan_ids buf p 0 (nBufferIDs p) = Some i" "names p ! i = buf"
    using scan_name(1)[OF w buf] by blast
  obtain q1 where q1: "drop_id i p = Some q1" "ids_wf q1" "names q1 = remove1 buf (names p)" "nBufferIDs q1 = nBufferIDs p - 1"
    "same_buffer p q1" using remove_id[OF w i(1)] names_remove[OF w i(1,3)] by auto
  obtain q where q: "shrink_ids q1 = Some q" "ids_wf q" "names q = names q1" "nBufferIDs q = nBufferIDs q1" "same_buffer q1 q"
    using shrink_keeps[OF q1(2)] by blast
  have same: "same_buffer p q" using q1(5) q(5) by (simp add: same_buffer_def)
  have empty: "nBufferIDs q = 0 \<longleftrightarrow> names q = []" using q(2) by (auto simp: ids_wf_def)
  obtain f b where fb: "pFrontBuffer p = Some f" "pBackBuffer p = Some b" "f \<noteq> b" "f \<in> dom (pixmaps st)" "b \<in> dom (pixmaps st)"
    by (rule wf_pixmapsE[OF wf p])
  then have fbq: "pFrontBuffer q = Some f" "pBackBuffer q = Some b" using same by (simp_all add: same_buffer_def)
  have screen: "screen_funcs (pWindow q) (put_priv a q st) = Some ()"
    using wf by (rule wf_screen) (simp_all add: put_priv_def)
  let ?t = "put_priv a q st"
  let ?st' = "if names q = [] then ?t\<lparr> pixmaps := (pixmaps st)(f := None, b := None), windowPriv := (windowPriv st)(pWindow q := None),
      privs := (privs ?t)(a := None) \<rparr> else ?t"
  have del: "DbeWindowPrivDelete a buf st = Some (DbeSuccess, ?st')"
    using p i(1,2) q1(1) q(1) screen empty fb fbq
    by (auto simp: DbeWindowPrivDelete_def Let_def miDbeWinPrivDelete_def dixDestroyPixmap_def put_priv_def)
  have "(\<lambda>x. if x \<in> pixmaps_at st a then None else pixmaps st x) = (pixmaps st)(f := None, b := None)"
    using p fb by (auto simp: pixmaps_at_def)
  then have "?st'\<lparr> resources := filter (\<lambda>r. fst r \<noteq> buf) (resources st) \<rparr> = without_name a q buf st"
    by (simp add: without_name_def put_priv_def)
  then show ?thesis using del q q1 same by metis
qed

lemma wf_without_name:
  assumes wf: "dbe_wf st" and p: "privs st a = Some p" "buf \<in> set (names p)"
    and q: "ids_wf q" "names q = remove1 buf (names p)" "same_buffer p q"
  shows "dbe_wf (without_name a q buf st)"
proof -
  let ?st = "without_name a q buf st"
  have "ids_wf p" by (rule wf_privD(1)[OF wf p(1)])
  then have d: "distinct (names p)" by (simp add: ids_wf_def)
  then have set: "set (names q) = set (names p) - {buf}" using q(2) by simp
  have N: "names_at ?st = (names_at st)(a := names_at st a - {buf})"
  proof
    fix c
    show "names_at ?st c = ((names_at st)(a := names_at st a - {buf})) c"
      using p(1) set by (cases "c = a"; cases "names q = []") (simp_all add: names_at_def without_name_def)
  qed
  have R: "resources ?st = filter (\<lambda>r. fst r \<noteq> buf) (resources st)"
    by (simp add: without_name_def)
  have buf: "buf \<in> names_at st a" using p by (simp add: names_at_def)
  have res: "resources_wf (names_at ?st) (back_at st) (resources ?st)"
    unfolding N R by (rule resources_remove[OF wf_parts(3)[OF wf] buf])
  have srv: "server_wf ?st"
    using wf_parts(6)[OF wf] by (rule server_wf_frame[rotated]) (simp add: without_name_def)
  show ?thesis
  proof (cases "names q = []")
    case False
    have "back_at ?st = back_at st" "pixmaps_at ?st = pixmaps_at st"
      using False p(1) q(3) by (auto simp: back_at_def pixmaps_at_def without_name_def put_priv_def same_buffer_def fun_eq_iff)
    moreover have "link_wf ?st" "privs_wf ?st"
      using wf_parts(1,2)[OF wf] p(1) q False
      unfolding link_wf_def privs_wf_def without_name_def put_priv_def buffer_wf_def same_buffer_def by auto
    moreover have "pixmaps ?st = pixmaps st" "nextAddr ?st = nextAddr st"
      using False by (simp_all add: without_name_def put_priv_def)
    ultimately show ?thesis
      using res srv wf_parts(4,5)[OF wf] by (simp add: dbe_wf_def)
  next
    case True
    have "back_at ?st = (back_at st)(a := None)" "pixmaps_at ?st = (pixmaps_at st)(a := {})"
      using True by (auto simp: back_at_def pixmaps_at_def without_name_def fun_eq_iff)
    moreover have "names_at ?st a = {}" using True by (simp add: names_at_def without_name_def)
    moreover have "link_wf ?st"
    proof -
      have w: "pWindow q = pWindow p" using q(3) by (simp add: same_buffer_def)
      have l: "windowPriv st v = Some c \<longleftrightarrow> (\<exists>r. privs st c = Some r \<and> pWindow r = v)" for v c
        using wf_parts(1)[OF wf] by (simp add: link_wf_def)
      have "windowPriv st (pWindow p) = Some a" using l p(1) by blast
      then have uniq: "pWindow r = pWindow p \<longleftrightarrow> c = a" if "privs st c = Some r" for c r
        using that p(1) l[of "pWindow r" c] by auto
      have "windowPriv ?st v = Some c \<longleftrightarrow> (\<exists>r. privs ?st c = Some r \<and> pWindow r = v)" for v c
      proof -
        have "windowPriv ?st v = Some c \<longleftrightarrow> v \<noteq> pWindow p \<and> windowPriv st v = Some c"
          using True w by (simp add: without_name_def)
        also have "\<dots> \<longleftrightarrow> c \<noteq> a \<and> (\<exists>r. privs st c = Some r \<and> pWindow r = v)"
          using l[of v c] uniq[of c] by metis
        also have "\<dots> \<longleftrightarrow> (\<exists>r. privs ?st c = Some r \<and> pWindow r = v)"
          using True by (simp add: without_name_def)
        finally show ?thesis .
      qed
      then show ?thesis by (simp add: link_wf_def)
    qed
    moreover have "privs_wf ?st"
      using wf_parts(2)[OF wf] True by (simp add: privs_wf_def without_name_def)
    moreover have "dom (pixmaps ?st) = dom (pixmaps st) - pixmaps_at st a" "nextAddr ?st = nextAddr st"
      using True by (auto simp: without_name_def pixmaps_at_def split: if_splits)
    ultimately show ?thesis
      using resources_back[OF res, of a None] srv pixmaps_remove[OF wf_parts(4)[OF wf], of a] wf_parts(5)[OF wf]
      by (simp add: dbe_wf_def)
  qed
qed

text \<open>Freeing a name of a buffer leaves the state without it.\<close>

lemma free_name:
  assumes wf: "dbe_wf st" and p: "privs st a = Some p" "buf \<in> set (names p)"
  shows "\<exists>q. FreeResource buf st = Some (without_name a q buf st) \<and> dbe_wf (without_name a q buf st)
    \<and> ids_wf q \<and> names q = remove1 buf (names p) \<and> same_buffer p q"
proof -
  obtain q st' where q: "DbeWindowPrivDelete a buf st = Some (DbeSuccess, st')" "ids_wf q" "names q = remove1 buf (names p)"
    "same_buffer p q" "st'\<lparr> resources := filter (\<lambda>r. fst r \<noteq> buf) (resources st) \<rparr> = without_name a q buf st"
    using priv_delete[OF wf p] by blast
  have n: "buf \<in> names_at st a" using p by (simp add: names_at_def)
  have r: "resources_wf (names_at st) (back_at st) (resources st)" by (rule wf_parts(3)[OF wf])
  have one: "r' = (buf, WinPriv a) \<or> is_back (snd r')" if "r' \<in> set (resources st)" "fst r' = buf" for r'
    using r n that unfolding resources_wf_def by (cases r'; cases "snd r'") auto
  have "free_rounds (length (resources st)) buf st = Some (st'\<lparr> resources := filter (\<lambda>r. fst r \<noteq> buf) (resources st) \<rparr>)"
    using r n one q(1) by (intro rounds_priv) (auto simp: resources_wf_def)
  then show ?thesis
    using q wf_without_name[OF wf p q(2,3,4)] by (auto simp: FreeResource_def)
qed

end
