(* ===== verification/DbeFrame.thy ===== *)
theory DbeFrame
  imports DbeInv
begin

text \<open>
  Two ways the invariant of the double buffer extension carries over: a change of contents only, and a change
  of one window private together with its resources and pixmaps. The drawing operations are of the first kind.
\<close>

section \<open>Changes of contents\<close>

definition images_only :: "'i dbe \<Rightarrow> 'i dbe \<Rightarrow> bool" where
  "images_only st st' \<longleftrightarrow> resources st' = resources st \<and> privs st' = privs st \<and> windowPriv st' = windowPriv st
     \<and> nextAddr st' = nextAddr st \<and> outOfMemory st' = outOfMemory st \<and> dom (pixmaps st') = dom (pixmaps st)
     \<and> same_server st st'"

lemma same_server_trans: "same_server a b \<Longrightarrow> same_server b c \<Longrightarrow> same_server a c"
  unfolding same_server_def by (metis dbe_window.surjective dbe_window.update_convs(14))

lemma images_only_refl [simp]: "images_only st st"
  by (simp add: images_only_def)

lemma images_only_trans [trans]: "images_only a b \<Longrightarrow> images_only b c \<Longrightarrow> images_only a c"
  by (auto simp: images_only_def intro: same_server_trans)

lemma images_only_wf: "images_only st st' \<Longrightarrow> dbe_wf st \<Longrightarrow> dbe_wf st'"
proof -
  assume i: "images_only st st'" and wf: "dbe_wf st"
  have "server_wf st'"
    using i wf_parts(6)[OF wf] by (intro server_wf_frame[of st st']) (simp_all add: images_only_def)
  moreover have "names_at st' = names_at st" "back_at st' = back_at st" "pixmaps_at st' = pixmaps_at st"
    using i by (simp_all add: images_only_def names_at_def back_at_def pixmaps_at_def fun_eq_iff)
  ultimately show ?thesis
    using i wf unfolding dbe_wf_def link_wf_def privs_wf_def images_only_def by simp
qed

lemma images_onlyD:
  assumes "images_only st st'"
  shows "resources st' = resources st" "privs st' = privs st" "windowPriv st' = windowPriv st" "nextAddr st' = nextAddr st"
    "outOfMemory st' = outOfMemory st" "dom (pixmaps st') = dom (pixmaps st)" "same_server st st'"
  using assms by (simp_all add: images_only_def)

lemma images_screens: "images_only st st' \<Longrightarrow> screenPrivs st' = screenPrivs st"
  by (simp add: images_only_def same_server_def)

lemma draw_ok:
  assumes "x \<in> dom (pixmaps st)"
  shows "\<exists>st'. draw_pixmap x f st = Some st' \<and> images_only st st'"
  using assms by (auto simp: draw_pixmap_def images_only_def)

text \<open>The background of a window is found, also after a change of contents.\<close>

lemma background_offset:
  assumes "background_from st w x y = Some g"
  shows "\<exists>g. background_from st w x' y' = Some g"
proof -
  have "\<forall>x' y'. \<exists>g. background_from st w x' y' = Some g"
  proof (rule background_from.raw_induct[of "\<lambda>st w x y g. \<forall>x' y'. \<exists>g. background_from st w x' y' = Some g"
        "(((st, w), x), y)" g, unfolded split_conv])
    fix f s w x y g
    assume f: "\<And>w x y b g. f w x y b = Some g \<Longrightarrow> \<forall>x' y'. \<exists>g. background_from w x x' y' = Some g"
      and g: "(case backgroundState (windows s w) of
        ParentRelative \<Rightarrow> winParent (windows s w) \<bind>
          (\<lambda>parent. f s parent (x - originX (windows s w)) (y - originY (windows s w)))
      | BackgroundNone \<Rightarrow> Some None | BackgroundPixel c \<Rightarrow> Some (Some (Solid c))
      | BackgroundPixmap t \<Rightarrow> Some (Some (Tiled t x y))) = Some g"
    show "\<forall>x' y'. \<exists>g. background_from s w x' y' = Some g"
      using g f by (subst background_from.simps) (auto split: background.splits Option.bind_splits)
  qed (rule assms)
  then show ?thesis by blast
qed

lemma painter_ok:
  assumes "server_wf st"
  shows "\<exists>g. DbeSetupBackgroundPainter E w st = Some g"
proof -
  obtain bg where "background_from st w 0 0 = Some bg" using assms unfolding server_wf_def by blast
  then show ?thesis by (simp add: DbeSetupBackgroundPainter_def)
qed

lemma clear_ok:
  assumes "server_wf st" "x \<in> dom (pixmaps st)"
  shows "\<exists>st'. clear_back E w x st = Some st' \<and> images_only st st'"
proof -
  obtain g where g: "DbeSetupBackgroundPainter E w st = Some g" using painter_ok[OF assms(1)] by blast
  obtain pm where pm: "pixmaps st x = Some pm" using assms(2) by blast
  show ?thesis
    using g pm draw_ok[OF assms(2)] by (cases g) (simp_all add: clear_back_def)
qed

lemma move_ok:
  assumes "old \<in> dom (pixmaps st)" "new \<in> dom (pixmaps st)"
  shows "\<exists>st'. move_contents E old new fill copy width height st = Some st' \<and> images_only st st'"
proof -
  obtain st1 where st1: "(case fill of None \<Rightarrow> Some st | Some g \<Rightarrow> draw_pixmap new (fillRect E g width height) st) = Some st1"
    "images_only st st1"
    using draw_ok[OF assms(2)] by (cases fill) auto
  have d: "old \<in> dom (pixmaps st1)" "new \<in> dom (pixmaps st1)" using assms images_onlyD(6)[OF st1(2)] by simp_all
  show ?thesis
  proof (cases copy)
    case None
    then show ?thesis using st1 by (simp add: move_contents_def)
  next
    case (Some c)
    obtain sx sy w h dx dy where c: "c = (sx, sy, w, h, dx, dy)" by (rule prod_cases6)
    obtain pm where pm: "pixmaps st1 old = Some pm" using d(1) by blast
    obtain st2 where st2: "draw_pixmap new (copyArea E (pixImage pm) sx sy w h dx dy) st1 = Some st2" "images_only st1 st2"
      using draw_ok[OF d(2)] by blast
    show ?thesis
      using Some c st1 pm st2 images_only_trans[OF st1(2) st2(2)] by (simp add: move_contents_def)
  qed
qed

section \<open>Changes of one private\<close>

text \<open>The private at \<open>a\<close> becomes \<open>q\<close>: it is that of its window already, or a new one for a window without.\<close>

lemma link_put:
  assumes l: "link_wf st"
    and a: "windowPriv st (pWindow q) = Some a \<or> windowPriv st (pWindow q) = None \<and> privs st a = None"
    and st': "privs st' = (privs st)(a \<mapsto> q)" "windowPriv st' = (windowPriv st)(pWindow q \<mapsto> a)"
  shows "link_wf st'"
proof -
  have l: "windowPriv st v = Some c \<longleftrightarrow> (\<exists>r. privs st c = Some r \<and> pWindow r = v)" for v c
    using l by (simp add: link_wf_def)
  have "windowPriv st' v = Some c \<longleftrightarrow> (\<exists>r. privs st' c = Some r \<and> pWindow r = v)" for v c
  proof (cases "c = a")
    case True
    have "windowPriv st v = Some a \<Longrightarrow> v = pWindow q"
      using a l[of v a] l[of "pWindow q" a] by auto
    then show ?thesis using True st' by auto
  next
    case False
    have "v = pWindow q \<Longrightarrow> windowPriv st v \<noteq> Some c" using a False by auto
    then show ?thesis using False st' l[of v c] by auto
  qed
  then show ?thesis by (simp add: link_wf_def)
qed

lemma wf_put:
  assumes wf: "dbe_wf st"
    and a: "windowPriv st (pWindow q) = Some a \<or> windowPriv st (pWindow q) = None \<and> privs st a = None"
    and q: "buffer_wf q"
    and st': "privs st' = (privs st)(a \<mapsto> q)" "windowPriv st' = (windowPriv st)(pWindow q \<mapsto> a)"
      "a < nextAddr st'" "nextAddr st \<le> nextAddr st'" "same_server st st'"
    and rs: "resources_wf ((names_at st)(a := set (names q))) ((back_at st)(a := pBackBuffer q)) (resources st')"
    and pm: "pixmaps_wf ((pixmaps_at st)(a := set_option (pFrontBuffer q) \<union> set_option (pBackBuffer q))) (dom (pixmaps st'))"
      "\<And>x. x \<in> dom (pixmaps st') \<Longrightarrow> x < nextAddr st'"
  shows "dbe_wf st'"
proof -
  have "link_wf st'" using wf_parts(1)[OF wf] a st'(1,2) by (rule link_put)
  moreover have "c < nextAddr st'" if "privs st c = Some r" for c r
    using wf_parts(2)[OF wf] that st'(4) by (auto simp: privs_wf_def intro: order.strict_trans2)
  then have "privs_wf st'"
    using wf_parts(2)[OF wf] q st'(1,3) unfolding privs_wf_def by (metis fun_upd_apply option.inject)
  moreover have "server_wf st'" using st'(5) wf_parts(6)[OF wf] by (rule server_wf_frame)
  moreover have "names_at st' = (names_at st)(a := set (names q))" "back_at st' = (back_at st)(a := pBackBuffer q)"
    "pixmaps_at st' = (pixmaps_at st)(a := set_option (pFrontBuffer q) \<union> set_option (pBackBuffer q))"
    by (simp_all add: st'(1) names_at_def back_at_def pixmaps_at_def fun_eq_iff)
  ultimately show ?thesis using rs pm by (simp add: dbe_wf_def)
qed

lemma same_server_fields [simp]:
  "same_server st (st\<lparr> resources := a \<rparr>)" "same_server st (st\<lparr> privs := b \<rparr>)" "same_server st (st\<lparr> windowPriv := c \<rparr>)"
  "same_server st (st\<lparr> pixmaps := d \<rparr>)" "same_server st (st\<lparr> nextAddr := e \<rparr>)" "same_server st (st\<lparr> outOfMemory := g \<rparr>)"
  by simp_all

lemma same_buffer_wf: "same_buffer p q \<Longrightarrow> ids_wf q \<Longrightarrow> names q \<noteq> [] \<Longrightarrow> buffer_wf p \<Longrightarrow> buffer_wf q"
  by (simp add: buffer_wf_def same_buffer_def)

end
