(* ===== verification/DbeSwap.thy ===== *)
theory DbeSwap
  imports DbeFrame "HOL-Library.Multiset"
begin

text \<open>
  Swapping the buffers of windows: what each swap action does, that no swap faults, and that every window of
  a request is swapped exactly once.
\<close>

section \<open>Making the names stand for another pixmap\<close>

lemma alias_ok:
  assumes "privs st a = Some p" "ids_wf p" "distinct (backs (resources st))" "names p \<noteq> []" "pBackBuffer p = Some x"
  shows "miDbeAliasBuffers a st = Some (st\<lparr> resources := map (rebind (set (names p)) x) (resources st) \<rparr>)"
proof -
  have "length (names p) = nBufferIDs p" using assms(2) by (simp add: ids_wf_def)
  then have "nBufferIDs p \<noteq> 0" using assms(4) by (cases "nBufferIDs p") simp_all
  then show ?thesis using assms(1,5) alias_names[OF assms(2,3)] by (simp add: miDbeAliasBuffers_def)
qed

lemma wf_backs: "dbe_wf st \<Longrightarrow> distinct (backs (resources st))"
  using wf_parts(3) by (rule resources_backs)

lemma ids_wf_pixmaps [simp]:
  "ids_wf (p\<lparr> pBackBuffer := x \<rparr>) = ids_wf p" "names (p\<lparr> pBackBuffer := x \<rparr>) = names p"
  "ids_wf (p\<lparr> pFrontBuffer := x \<rparr>) = ids_wf p" "names (p\<lparr> pFrontBuffer := x \<rparr>) = names p"
  "ids_wf (p\<lparr> bufWidth := u \<rparr>) = ids_wf p" "names (p\<lparr> bufWidth := u \<rparr>) = names p"
  "ids_wf (p\<lparr> bufHeight := u \<rparr>) = ids_wf p" "names (p\<lparr> bufHeight := u \<rparr>) = names p"
  "ids_wf (p\<lparr> bufX := u \<rparr>) = ids_wf p" "names (p\<lparr> bufX := u \<rparr>) = names p"
  "ids_wf (p\<lparr> bufY := u \<rparr>) = ids_wf p" "names (p\<lparr> bufY := u \<rparr>) = names p"
  "ids_wf (p\<lparr> swapAction := v \<rparr>) = ids_wf p" "names (p\<lparr> swapAction := v \<rparr>) = names p"
  by (simp_all add: ids_wf_def names_def cong: option.case_cong)

section \<open>One window\<close>

text \<open>The contents of the window after a swap, whatever the action: those of the back buffer.\<close>

definition show_back :: "'i dbe_env \<Rightarrow> nat \<Rightarrow> 'i \<Rightarrow> 'i dbe \<Rightarrow> 'i dbe" where
  "show_back E w im st =
     st\<lparr> windows := (windows st)(w := (windows st w)\<lparr> winImage := copy_all E (windows st w) im (winImage (windows st w)) \<rparr>) \<rparr>"

lemma show_back_images: "images_only st (show_back E w im st)"
  unfolding images_only_def same_server_def show_back_def
  by simp (metis dbe_window.surjective dbe_window.update_convs(14))

text \<open>
  Untouched: the front pixmap saves the window and the two pixmaps change roles, for all the names.
\<close>

definition exchange :: "'i dbe_env \<Rightarrow> nat \<Rightarrow> nat \<Rightarrow> dbe_priv \<Rightarrow> nat \<Rightarrow> nat \<Rightarrow> 'i pixmap \<Rightarrow> 'i pixmap \<Rightarrow> 'i dbe \<Rightarrow> 'i dbe" where
  "exchange E w a p f b front back st =
     (show_back E w (pixImage back) st)
       \<lparr> pixmaps := (pixmaps st)(f \<mapsto> front\<lparr> pixImage := copy_all E (windows st w) (winImage (windows st w)) (pixImage front) \<rparr>),
         privs := (privs st)(a \<mapsto> p\<lparr> pBackBuffer := Some f, pFrontBuffer := Some b \<rparr>),
         resources := map (rebind (set (names p)) f) (resources st) \<rparr>"

lemma swap_untouched_result:
  assumes wf: "dbe_wf st" and a: "windowPriv st w = Some a" "privs st a = Some p"
    and fb: "pFrontBuffer p = Some f" "pBackBuffer p = Some b" "f \<noteq> b" "pixmaps st f = Some front" "pixmaps st b = Some back"
  shows "swap_window E w 2 st = Some (exchange E w a p f b front back st)"
proof -
  let ?st = "st\<lparr> pixmaps := (pixmaps st)(f \<mapsto> front\<lparr> pixImage := copy_all E (windows st w) (winImage (windows st w)) (pixImage front) \<rparr>) \<rparr>"
  let ?t = "put_priv a (p\<lparr> pBackBuffer := Some f, pFrontBuffer := Some b \<rparr>) (show_back E w (pixImage back) ?st)"
  have "miDbeAliasBuffers a ?t = Some (?t\<lparr> resources := map (rebind (set (names p)) f) (resources ?t) \<rparr>)"
    using wf_privD[OF wf a(2)] wf_backs[OF wf]
    by (subst alias_ok[of _ a "p\<lparr> pBackBuffer := Some f, pFrontBuffer := Some b \<rparr>" f])
      (simp_all add: put_priv_def show_back_def)
  then show ?thesis
    using a fb by (simp add: swap_window_def draw_pixmap_def Let_def exchange_def show_back_def put_priv_def)
qed

lemma exchange_wf:
  assumes wf: "dbe_wf st" and a: "windowPriv st w = Some a" "privs st a = Some p"
    and fb: "pFrontBuffer p = Some f" "pBackBuffer p = Some b" "f \<noteq> b" "pixmaps st f = Some front"
  shows "dbe_wf (exchange E w a p f b front back st)"
proof -
  let ?q = "p\<lparr> pBackBuffer := Some f, pFrontBuffer := Some b \<rparr>"
  have w: "pWindow p = w" using wf_parts(1)[OF wf] a unfolding link_wf_def by (metis option.inject)
  have N: "(names_at st)(a := set (names p)) = names_at st" "names_at st a = set (names p)"
    using a(2) by (simp_all add: names_at_def fun_eq_iff)
  have B: "back_at st a \<noteq> None" using a(2) fb by (simp add: back_at_def)
  have P: "(pixmaps_at st)(a := {f, b}) = pixmaps_at st" using a(2) fb by (auto simp: pixmaps_at_def fun_eq_iff)
  have f: "insert f (dom (pixmaps st)) = dom (pixmaps st)" using fb(4) by auto
  have img: "same_server st (show_back E w (pixImage back) st)" by (rule images_onlyD(7)[OF show_back_images])
  show ?thesis
  proof (rule wf_put[of st ?q a, OF wf])
    show "resources_wf ((names_at st)(a := set (names ?q))) ((back_at st)(a := pBackBuffer ?q))
        (resources (exchange E w a p f b front back st))"
      using resources_rebind[of "names_at st" "back_at st" "resources st" a f] wf_parts(3)[OF wf] B N
      by (simp add: exchange_def)
    show "pixmaps_wf ((pixmaps_at st)(a := set_option (pFrontBuffer ?q) \<union> set_option (pBackBuffer ?q)))
        (dom (pixmaps (exchange E w a p f b front back st)))"
      using wf_parts(4)[OF wf] P by (simp add: exchange_def f insert_commute)
    show "same_server st (exchange E w a p f b front back st)"
      using img by (simp add: exchange_def same_server_def show_back_def)
    show "x < nextAddr (exchange E w a p f b front back st)"
      if "x \<in> dom (pixmaps (exchange E w a p f b front back st))" for x
      using that f wf_parts(5)[OF wf, of x] by (auto simp: exchange_def show_back_def)
    show "buffer_wf ?q" using wf_parts(2)[OF wf] a(2) fb by (auto simp: privs_wf_def buffer_wf_def)
  qed (use w a wf_privD(5)[OF wf a(2)] in \<open>auto simp: exchange_def show_back_def fun_eq_iff\<close>)
qed

lemma swap_ok:
  assumes wf: "dbe_wf st" and a: "windowPriv st w = Some a"
  shows "\<exists>st'. swap_window E w act st = Some st' \<and> dbe_wf st' \<and> windowPriv st' = windowPriv st
    \<and> outOfMemory st' = outOfMemory st \<and> screenPrivs st' = screenPrivs st"
proof -
  obtain p where p: "privs st a = Some p" using wf_parts(1)[OF wf] a unfolding link_wf_def by blast
  obtain f b where fb: "pFrontBuffer p = Some f" "pBackBuffer p = Some b" "f \<noteq> b" "f \<in> dom (pixmaps st)" "b \<in> dom (pixmaps st)"
    by (rule wf_pixmapsE[OF wf p])
  then obtain front bk where pm: "pixmaps st f = Some front" "pixmaps st b = Some bk" by blast
  let ?s = "show_back E w (pixImage bk) st"
  have i: "images_only st ?s" by (rule show_back_images)
  consider "act = 1" | "act = 2" | "act \<noteq> 1" "act \<noteq> 2" by blast
  then show ?thesis
  proof cases
    case 1
    have "b \<in> dom (pixmaps ?s)" using fb(5) images_onlyD(6)[OF i] by simp
    then obtain t where t: "clear_back E w b ?s = Some t" "images_only ?s t"
      using clear_ok wf_parts(6)[OF images_only_wf[OF i wf]] by blast
    have "images_only st t" using i t(2) by (rule images_only_trans)
    moreover have "screen_funcs w ?s = Some ()"
      using wf_parts(6)[OF wf] by (simp add: server_wf_def screen_funcs_def show_back_def)
    ultimately show ?thesis
      using 1 a p fb pm t(1) images_only_wf[OF _ wf] images_onlyD(3,5) images_screens
      by (auto simp: swap_window_def Let_def show_back_def)
  next
    case 2
    then show ?thesis
      using swap_untouched_result[OF wf a p fb(1,2,3) pm] exchange_wf[OF wf a p fb(1,2,3) pm(1)]
      by (simp add: exchange_def show_back_def)
  next
    case 3
    then show ?thesis
      using a p fb pm i images_only_wf[OF i wf] images_onlyD(3,5)[OF i] images_screens[OF i]
      by (auto simp: swap_window_def Let_def show_back_def)
  qed
qed

section \<open>A request\<close>

text \<open>The windows of a request in the order in which they are swapped: the last one takes the first place.\<close>

fun swap_order :: "nat \<Rightarrow> 'a list \<Rightarrow> 'a list" where
  "swap_order n [] = []"
| "swap_order 0 (x # xs) = []"
| "swap_order (Suc n) (x # xs) = x # swap_order n (if xs = [] then [] else last xs # butlast xs)"

lemma rotate_back:
  "length (if xs = [] then [] else last xs # butlast xs) = length xs"
  "mset (if xs = [] then [] else last xs # butlast xs) = mset xs"
  by (cases xs rule: rev_cases; simp)+

lemma swap_order_all: "length xs = n \<Longrightarrow> mset (swap_order n xs) = mset xs"
proof (induction n arbitrary: xs)
  case (Suc n)
  then obtain y ys where ys: "xs = y # ys" "length ys = n" by (cases xs) auto
  then show ?case using Suc.IH[of "if ys = [] then [] else last ys # butlast ys"] rotate_back[of ys] by simp
qed simp

fun swap_all :: "'i dbe_env \<Rightarrow> (nat \<times> u8) list \<Rightarrow> 'i dbe \<Rightarrow> 'i dbe option" where
  "swap_all E [] st = Some st"
| "swap_all E ((w, act) # rest) st = do { st \<leftarrow> swap_window E w act st; swap_all E rest st }"

lemma rounds_ok:
  assumes "dbe_wf st" "length infos = n" "\<forall>i \<in> set infos. windowPriv st (fst i) \<noteq> None"
  shows "\<exists>st'. swap_rounds E n infos st = Some (DbeSuccess, st') \<and> swap_all E (swap_order n infos) st = Some st'
    \<and> dbe_wf st' \<and> windowPriv st' = windowPriv st \<and> outOfMemory st' = outOfMemory st
    \<and> screenPrivs st' = screenPrivs st"
  using assms
proof (induction n arbitrary: infos st)
  case (Suc n)
  obtain w act rest where i: "infos = (w, act) # rest" "length rest = n" using Suc.prems(2) by (cases infos) auto
  obtain a where a: "windowPriv st w = Some a" using Suc.prems(3) i(1) by auto
  obtain t where t: "swap_window E w act st = Some t" "dbe_wf t" "windowPriv t = windowPriv st" "outOfMemory t = outOfMemory st"
    "screenPrivs t = screenPrivs st"
    using swap_ok[OF Suc.prems(1) a] by blast
  let ?next = "if rest = [] then [] else last rest # butlast rest"
  have s: "set ?next = set rest" using rotate_back(2)[of rest] by (metis set_mset_mset)
  have "length ?next = n" "\<forall>i \<in> set ?next. windowPriv t (fst i) \<noteq> None"
    unfolding s using rotate_back(1)[of rest] i Suc.prems(3) t(3) by auto
  from Suc.IH[OF t(2) this] obtain st' where st': "swap_rounds E n ?next t = Some (DbeSuccess, st')"
    "swap_all E (swap_order n ?next) t = Some st'" "dbe_wf st'" "windowPriv st' = windowPriv t" "outOfMemory st' = outOfMemory t"
    "screenPrivs st' = screenPrivs t"
    by blast
  have "screen_funcs w st = Some ()" using Suc.prems(1) by (rule wf_screen) simp_all
  then show ?case using i t st' by (auto simp: miDbeSwapBuffers_def simp del: last.simps butlast.simps)
qed simp

lemma check_swaps_ok:
  assumes "check_swaps E st swaps = Inr infos"
  shows "length infos = length swaps \<and> (\<forall>i \<in> set infos. windowPriv st (fst i) \<noteq> None \<and> snd i \<in> swap_actions)
    \<and> distinct (map fst swaps) \<and> map snd infos = map snd swaps
    \<and> list_all2 (\<lambda>s i. lookupWindow E WriteAccess (fst s) = Inr (fst i)) swaps infos"
  using assms
proof (induction swaps arbitrary: infos)
  case (Cons s rest)
  obtain window act where s: "s = (window, act)" by fastforce
  show ?case
    using Cons.prems Cons.IH s by (auto split: sum.splits if_splits)
qed simp

text \<open>Memory that runs out leaves the invariant.\<close>

lemma wf_memory: "dbe_wf st \<Longrightarrow> dbe_wf (st\<lparr> outOfMemory := m \<rparr>)"
proof -
  assume wf: "dbe_wf st"
  have "server_wf (st\<lparr> outOfMemory := m \<rparr>)" by (rule server_wf_frame[OF _ wf_parts(6)[OF wf]]) simp
  then show ?thesis
    using wf unfolding dbe_wf_def link_wf_def privs_wf_def names_at_def back_at_def pixmaps_at_def by simp
qed

lemma alloc_wf:
  assumes "dbe_alloc st = (ok, st')" "dbe_wf st"
  shows "dbe_wf st' \<and> screenPrivs st' = screenPrivs st"
  using assms wf_memory[OF assms(2)] by (auto simp: dbe_alloc_def split: list.splits)

lemma swap_request_ok:
  assumes wf: "dbe_wf st"
  shows "\<exists>s st'. ProcDbeSwapBuffers E n swaps st = Some (s, st') \<and> dbe_wf st' \<and> screenPrivs st' = screenPrivs st"
proof -
  obtain ok t where t: "dbe_alloc st = (ok, t)" by fastforce
  have wf': "dbe_wf t" "screenPrivs t = screenPrivs st" using alloc_wf[OF t wf] by simp_all
  show ?thesis
  proof (cases "check_swaps E t swaps")
    case (Inr infos)
    have "\<forall>i \<in> set infos. windowPriv t (fst i) \<noteq> None" using check_swaps_ok[OF Inr] by blast
    from rounds_ok[OF wf'(1) refl this, of E] show ?thesis
      using Inr t wf wf' by (auto simp: ProcDbeSwapBuffers_def)
  qed (use wf wf' t in \<open>auto simp: ProcDbeSwapBuffers_def\<close>)
qed

end
