(* ===== verification/DbeAllocate.thy ===== *)
theory DbeAllocate
  imports DbeSwap
begin

text \<open>
  Allocating buffer names when there is memory: the first name of a window makes the private and its two
  pixmaps, a further one only enters the array, which grows when it is full.
\<close>

lemma alloc_memory: "outOfMemory st = [] \<Longrightarrow> dbe_alloc st = (True, st)"
  by (simp add: dbe_alloc_def)

lemma add_memory: "outOfMemory st = [] \<Longrightarrow> AddResource buf v st = Some (True, st\<lparr> resources := (buf, v) # resources st \<rparr>)"
  by (simp add: AddResource_def alloc_memory)

lemma create_memory:
  "outOfMemory st = [] \<Longrightarrow> CreatePixmap E u h st = (Some (nextAddr st),
     st\<lparr> pixmaps := (pixmaps st)(nextAddr st \<mapsto> \<lparr> pixWidth = u, pixHeight = h, pixImage = newImage E u h \<rparr>),
         nextAddr := Suc (nextAddr st) \<rparr>)"
  by (simp add: CreatePixmap_def alloc_memory)

lemma put_priv_fields [simp]:
  "resources (put_priv a p st) = resources st" "privs (put_priv a p st) = (privs st)(a \<mapsto> p)"
  "windowPriv (put_priv a p st) = windowPriv st" "pixmaps (put_priv a p st) = pixmaps st"
  "windows (put_priv a p st) = windows st" "screenPrivs (put_priv a p st) = screenPrivs st"
  "nextAddr (put_priv a p st) = nextAddr st" "outOfMemory (put_priv a p st) = outOfMemory st"
  by (simp_all add: put_priv_def)

section \<open>A further name\<close>

lemma reserve_more:
  assumes wf: "dbe_wf st" and m: "outOfMemory st = []" and a: "windowPriv st w = Some a" "privs st a = Some p"
  shows "\<exists>p1. reserve_name E w st = Some (Some (a, nBufferIDs p), put_priv a p1 st) \<and> ids_wf p1 \<and> names p1 = names p
    \<and> same_buffer p p1 \<and> nBufferIDs p1 = nBufferIDs p \<and> nBufferIDs p1 < maxAvailableIDs p1"
proof -
  have w: "ids_wf p" by (rule wf_privD(1)[OF wf a(2)])
  have slot: "scan_ids DBE_FREE_ID_ELEMENT p 0 (maxAvailableIDs p) = Some (nBufferIDs p)"
    using free_slot[OF w] by (simp add: dbe_consts)
  show ?thesis
  proof (cases "nBufferIDs p = maxAvailableIDs p")
    case True
    obtain p1 where p1: "grow_ids True (freshMemory E) p = Some (True, p1)" "ids_wf p1" "names p1 = names p" "same_buffer p p1"
      "nBufferIDs p1 = nBufferIDs p" "nBufferIDs p1 < maxAvailableIDs p1"
      using grow_full[OF w True] by blast
    then have "reserve_name E w st = Some (Some (a, nBufferIDs p), put_priv a p1 st)"
      using True a slot m by (simp add: reserve_name_def alloc_memory)
    with p1 show ?thesis by blast
  next
    case False
    have "put_priv a p st = st" using a(2) by (simp add: put_priv_def fun_upd_idem)
    then have "reserve_name E w st = Some (Some (a, nBufferIDs p), put_priv a p st)"
      using False a slot by (simp add: reserve_name_def)
    then show ?thesis using w False by (auto simp: ids_wf_def same_buffer_def)
  qed
qed

text \<open>The state with one more name, for the private \<open>q\<close> that holds it.\<close>

definition with_name :: "nat \<Rightarrow> dbe_priv \<Rightarrow> nat \<Rightarrow> xid \<Rightarrow> 'i dbe \<Rightarrow> 'i dbe" where
  "with_name a q b buf st =
     st\<lparr> resources := (buf, WinPriv a) # (buf, BackPixmap b) # resources st, privs := (privs st)(a \<mapsto> q) \<rparr>"

lemma allocate_more:
  assumes wf: "dbe_wf st" and m: "outOfMemory st = []" and a: "windowPriv st w = Some a" "privs st a = Some p"
    and buf: "buf \<noteq> 0" "buf \<notin> fst ` set (resources st)" and b: "pBackBuffer p = Some b"
  shows "\<exists>t q. reserve_name E w st = Some (Some (a, nBufferIDs p), t)
    \<and> enter_name E w a (nBufferIDs p) buf act t = Some (DbeSuccess, with_name a q b buf st)
    \<and> ids_wf q \<and> names q = names p @ [buf] \<and> same_buffer (p\<lparr> swapAction := act \<rparr>) q"
proof -
  obtain p1 where p1: "reserve_name E w st = Some (Some (a, nBufferIDs p), put_priv a p1 st)" "ids_wf p1" "names p1 = names p"
    "same_buffer p p1" "nBufferIDs p1 = nBufferIDs p" "nBufferIDs p1 < maxAvailableIDs p1"
    using reserve_more[OF wf m a] by blast
  have pos: "nBufferIDs p \<noteq> 0" using wf_privD(2,3)[OF wf a(2)] by simp
  have fresh: "buf \<notin> set (names p1)"
  proof
    assume "buf \<in> set (names p1)"
    then have "buf \<in> names_at st a" using a(2) p1(3) by (simp add: names_at_def)
    then have "(buf, WinPriv a) \<in> set (resources st)" using wf_parts(3)[OF wf] unfolding resources_wf_def by blast
    then show False using buf(2) by force
  qed
  obtain q where q: "set_id (nBufferIDs p1) buf p1 = Some q" "nBufferIDs q = nBufferIDs p1" "same_buffer p1 q"
    "ids_wf (q\<lparr> nBufferIDs := Suc (nBufferIDs p1) \<rparr>)" "names (q\<lparr> nBufferIDs := Suc (nBufferIDs p1) \<rparr>) = names p1 @ [buf]"
    using add_id[OF p1(2,6) buf(1) fresh] by blast
  let ?q = "q\<lparr> nBufferIDs := Suc (nBufferIDs q), swapAction := act \<rparr>"
  have b1: "pBackBuffer p1 = Some b" "nBufferIDs p1 \<noteq> 0" using p1(4,5) b pos by (simp_all add: same_buffer_def)
  have "miDbeAllocBackBufferName E w buf (put_priv a p1 st)
      = Some (DbeSuccess, put_priv a p1 st\<lparr> resources := (buf, BackPixmap b) # resources st \<rparr>)"
    using a b1 m by (simp add: miDbeAllocBackBufferName_def add_memory)
  then have "enter_name E w a (nBufferIDs p) buf act (put_priv a p1 st) = Some (DbeSuccess, with_name a ?q b buf st)"
    using m q(1,2) p1(5) by (simp add: enter_name_def add_memory count_name_def with_name_def put_priv_def)
  moreover have "ids_wf ?q" "names ?q = names p @ [buf]"
    using q(2,4,5) p1(3) by simp_all
  moreover have "same_buffer (p\<lparr> swapAction := act \<rparr>) ?q"
    using p1(4) q(3) by (simp add: same_buffer_def)
  ultimately show ?thesis using p1(1) by blast
qed

lemma with_name_wf:
  assumes wf: "dbe_wf st" and a: "privs st a = Some p" "pBackBuffer p = Some b" and buf: "buf \<notin> fst ` set (resources st)"
    and q: "ids_wf q" "names q = names p @ [buf]" "same_buffer (p\<lparr> swapAction := act \<rparr>) q"
  shows "dbe_wf (with_name a q b buf st)"
proof -
  have l: "windowPriv st (pWindow q) = Some a" using wf_privD(4)[OF wf a(1)] q(3) by (simp add: same_buffer_def)
  have N: "(names_at st)(a := set (names q)) = (names_at st)(a := insert buf (names_at st a))"
    using a q(2) by (simp add: names_at_def)
  have B: "(back_at st)(a := pBackBuffer q) = back_at st" "back_at st a = Some b"
    using a q(3) by (simp_all add: back_at_def same_buffer_def fun_eq_iff)
  have P: "(pixmaps_at st)(a := set_option (pFrontBuffer q) \<union> set_option (pBackBuffer q)) = pixmaps_at st"
    using a q(3) by (simp add: pixmaps_at_def same_buffer_def fun_eq_iff)
  show ?thesis
  proof (rule wf_put[of st q a, OF wf])
    show "buffer_wf q"
      using wf_parts(2)[OF wf] a(1) q by (auto simp: privs_wf_def buffer_wf_def same_buffer_def)
    show "resources_wf ((names_at st)(a := set (names q))) ((back_at st)(a := pBackBuffer q))
        (resources (with_name a q b buf st))"
      using resources_add[OF wf_parts(3)[OF wf] buf B(2)] unfolding N B by (simp add: with_name_def)
    show "pixmaps_wf ((pixmaps_at st)(a := set_option (pFrontBuffer q) \<union> set_option (pBackBuffer q)))
        (dom (pixmaps (with_name a q b buf st)))"
      unfolding P using wf_parts(4)[OF wf] by (simp add: with_name_def)
  qed (use l wf_privD(5)[OF wf a(1)] wf_parts(5)[OF wf] in \<open>auto simp: with_name_def fun_eq_iff\<close>)
qed

section \<open>The first name\<close>

text \<open>The private at \<open>nextAddr\<close> and its two pixmaps after it; the contents of the pixmaps are \<open>im\<close> and \<open>im'\<close>.\<close>

definition first_priv :: "'i dbe_window \<Rightarrow> nat \<Rightarrow> nat \<Rightarrow> xid \<Rightarrow> u8 \<Rightarrow> dbe_priv" where
  "first_priv win w a buf act =
     (new_priv win w)\<lparr> swapAction := act, nBufferIDs := 1, initIDs := [buf, 0],
        pFrontBuffer := Some (Suc a), pBackBuffer := Some (Suc (Suc a)) \<rparr>"

definition with_buffer :: "nat \<Rightarrow> xid \<Rightarrow> u8 \<Rightarrow> 'i \<Rightarrow> 'i \<Rightarrow> 'i dbe \<Rightarrow> 'i dbe" where
  "with_buffer w buf act im im' st =
     (let a = nextAddr st; win = windows st w
      in st\<lparr> resources := (buf, WinPriv a) # (buf, BackPixmap (Suc (Suc a))) # resources st,
             privs := (privs st)(a \<mapsto> first_priv win w a buf act),
             windowPriv := (windowPriv st)(w \<mapsto> a),
             pixmaps := (pixmaps st)(Suc a \<mapsto> \<lparr> pixWidth = winWidth win, pixHeight = winHeight win, pixImage = im \<rparr>,
                                     Suc (Suc a) \<mapsto> \<lparr> pixWidth = winWidth win, pixHeight = winHeight win, pixImage = im' \<rparr>),
             nextAddr := Suc (Suc (Suc a)) \<rparr>)"

lemma first_priv_wf:
  assumes "buf \<noteq> 0"
  shows "ids_wf (first_priv win w a buf act)" "names (first_priv win w a buf act) = [buf]"
    "pWindow (first_priv win w a buf act) = w" "pFrontBuffer (first_priv win w a buf act) = Some (Suc a)"
    "pBackBuffer (first_priv win w a buf act) = Some (Suc (Suc a))"
  using assms by (simp_all add: first_priv_def new_priv_def ids_wf_def names_def id_block_def dbe_consts)

lemma clear_result:
  assumes "server_wf st" "pixmaps st x = Some pm"
  shows "\<exists>im. clear_back E w x st = Some (st\<lparr> pixmaps := (pixmaps st)(x \<mapsto> pm\<lparr> pixImage := im \<rparr>) \<rparr>)"
proof -
  obtain g where g: "DbeSetupBackgroundPainter E w st = Some g" using painter_ok[OF assms(1)] by blast
  show ?thesis
  proof (cases g)
    case None
    have "st = st\<lparr> pixmaps := (pixmaps st)(x \<mapsto> pm\<lparr> pixImage := pixImage pm \<rparr>) \<rparr>"
      using assms(2) by (simp add: fun_upd_idem)
    moreover have "clear_back E w x st = Some st" using None g by (simp add: clear_back_def)
    ultimately show ?thesis by (intro exI[of _ "pixImage pm"]) simp
  next
    case (Some c)
    then show ?thesis using g assms(2) by (auto simp: clear_back_def draw_pixmap_def)
  qed
qed

lemma allocate_first:
  assumes wf: "dbe_wf st" and m: "outOfMemory st = []" and none: "windowPriv st w = None"
    and access: "createAccess E buf (Suc (Suc (nextAddr st))) w = None" and buf: "buf \<noteq> 0"
  shows "\<exists>t im im'. reserve_name E w st = Some (Some (nextAddr st, 0), t)
    \<and> enter_name E w (nextAddr st) 0 buf act t = Some (DbeSuccess, with_buffer w buf act im im' st)"
proof -
  let ?a = "nextAddr st" and ?win = "windows st w"
  let ?p = "new_priv ?win w"
  let ?t = "put_priv ?a ?p (st\<lparr> windowPriv := (windowPriv st)(w \<mapsto> ?a), nextAddr := Suc ?a \<rparr>)"
  let ?pm = "\<lparr> pixWidth = winWidth ?win, pixHeight = winHeight ?win, pixImage = newImage E (winWidth ?win) (winHeight ?win) \<rparr>"
  let ?pq = "?p\<lparr> pFrontBuffer := Some (Suc ?a), pBackBuffer := Some (Suc (Suc ?a)) \<rparr>"
  let ?u = "?t\<lparr> pixmaps := (pixmaps st)(Suc ?a \<mapsto> ?pm, Suc (Suc ?a) \<mapsto> ?pm), nextAddr := Suc (Suc (Suc ?a)),
      privs := (privs st)(?a \<mapsto> ?pq), resources := (buf, BackPixmap (Suc (Suc ?a))) # resources st \<rparr>"
  have r: "reserve_name E w st = Some (Some (?a, 0), ?t)"
    using none m by (simp add: reserve_name_def alloc_memory Let_def)
  have srv: "server_wf ?u" by (rule server_wf_frame[OF _ wf_parts(6)[OF wf]]) simp
  then obtain im where c: "clear_back E w (Suc (Suc ?a)) ?u
      = Some (?u\<lparr> pixmaps := (pixmaps ?u)(Suc (Suc ?a) \<mapsto> ?pm\<lparr> pixImage := im \<rparr>) \<rparr>)"
    using clear_result[of ?u "Suc (Suc ?a)" ?pm E w] by auto
  have screen: "screen_funcs w ?u = Some ()" using wf by (rule wf_screen) simp_all
  have p: "nBufferIDs ?p = 0" "bufWidth ?p = winWidth ?win" "bufHeight ?p = winHeight ?win"
    by (simp_all add: new_priv_def)
  have mi: "miDbeAllocBackBufferName E w buf ?t
      = Some (DbeSuccess, ?u\<lparr> pixmaps := (pixmaps ?u)(Suc (Suc ?a) \<mapsto> ?pm\<lparr> pixImage := im \<rparr>) \<rparr>)"
    using m access c screen p
    by (simp add: miDbeAllocBackBufferName_def create_memory add_memory put_priv_def Let_def)
  have set: "set_id 0 buf ?pq = Some (?pq\<lparr> initIDs := [buf, 0] \<rparr>)"
    by (simp add: set_id_def id_block_def with_block_def new_priv_def dbe_consts numeral_2_eq_2)
  have "enter_name E w ?a 0 buf act ?t = Some (DbeSuccess, with_buffer w buf act (pixImage ?pm) im st)"
    using mi set m p(1)
    by (simp add: enter_name_def add_memory count_name_def put_priv_def with_buffer_def Let_def first_priv_def)
      (rule dbe.equality; simp add: new_priv_def)
  with r show ?thesis by blast
qed

lemma with_buffer_wf:
  assumes wf: "dbe_wf st" and none: "windowPriv st w = None" and buf: "buf \<noteq> 0" "buf \<notin> fst ` set (resources st)"
  shows "dbe_wf (with_buffer w buf act im im' st)"
proof -
  let ?a = "nextAddr st" and ?st = "with_buffer w buf act im im' st"
  let ?q = "first_priv (windows st w) w ?a buf act"
  note q = first_priv_wf[OF buf(1), of "windows st w" w ?a act]
  have na: "privs st ?a = None" using wf_privD(5)[OF wf, of ?a] by (cases "privs st ?a") auto
  have empty: "names_at st ?a = {}" "pixmaps_at st ?a = {}" using na by (simp_all add: names_at_def pixmaps_at_def)
  have new: "Suc ?a \<notin> dom (pixmaps st)" "Suc (Suc ?a) \<notin> dom (pixmaps st)"
    using wf_parts(5)[OF wf] by fastforce+
  have R: "resources_wf ((names_at st)(?a := {buf})) ((back_at st)(?a := Some (Suc (Suc ?a)))) (resources ?st)"
    using resources_add[OF resources_back[OF wf_parts(3)[OF wf] empty(1)] buf(2), of "Some (Suc (Suc ?a))" ?a "Suc (Suc ?a)"]
      empty(1) by (simp add: with_buffer_def Let_def)
  have D: "dom (pixmaps ?st) = dom (pixmaps st) \<union> {Suc ?a, Suc (Suc ?a)}" by (auto simp: with_buffer_def Let_def)
  show ?thesis
  proof (rule wf_put[of st ?q ?a, OF wf])
    show "windowPriv st (pWindow ?q) = Some ?a \<or> windowPriv st (pWindow ?q) = None \<and> privs st ?a = None"
      using none na q(3) by simp
    show "buffer_wf ?q" using q by (simp add: buffer_wf_def)
    show "resources_wf ((names_at st)(?a := set (names ?q))) ((back_at st)(?a := pBackBuffer ?q)) (resources ?st)"
      using R q by simp
    show "pixmaps_wf ((pixmaps_at st)(?a := set_option (pFrontBuffer ?q) \<union> set_option (pBackBuffer ?q))) (dom (pixmaps ?st))"
      using pixmaps_add[OF wf_parts(4)[OF wf] empty(2), of "{Suc ?a, Suc (Suc ?a)}"] new q unfolding D
      by (simp add: insert_commute)
    show "x < nextAddr ?st" if "x \<in> dom (pixmaps ?st)" for x
    proof -
      have "x < ?a \<or> x = Suc ?a \<or> x = Suc (Suc ?a)" using that wf_parts(5)[OF wf, of x] unfolding D by blast
      then show ?thesis by (auto simp: with_buffer_def Let_def)
    qed
  qed (use q in \<open>simp_all add: with_buffer_def Let_def\<close>)
qed

end
