(* ===== verification/DbeDestroy.thy ===== *)
theory DbeDestroy
  imports DbeFrame
begin

text \<open>
  The destruction of a window frees its names one by one: it returns, and what is left is the state without
  the buffer, its names, resources and pixmaps. Deallocating the name allocated last undoes the allocation.
\<close>

section \<open>A window without its buffer\<close>

definition without_buffer :: "nat \<Rightarrow> nat \<Rightarrow> 'i dbe \<Rightarrow> 'i dbe" where
  "without_buffer w a st =
     st\<lparr> resources := filter (\<lambda>r. fst r \<notin> names_at st a) (resources st), privs := (privs st)(a := None),
         windowPriv := (windowPriv st)(w := None),
         pixmaps := (\<lambda>x. if x \<in> pixmaps_at st a then None else pixmaps st x) \<rparr>"

lemma first_name:
  assumes "ids_wf p" "names p \<noteq> []"
  shows "id_at p 0 = Some (hd (names p))"
proof -
  obtain xs where xs: "id_block p = Some xs" "xs = names p @ replicate (maxAvailableIDs p - nBufferIDs p) 0"
    by (rule ids_wf_block[OF assms(1)])
  then show ?thesis using assms(2) by (cases "names p") (simp_all add: id_at_def)
qed

lemma without_last_name:
  assumes "privs st a = Some p" "names p = [buf]" "names q = []" "pWindow q = pWindow p"
  shows "without_name a q buf st = without_buffer (pWindow p) a st"
  using assms by (simp add: without_name_def without_buffer_def names_at_def)

lemma without_first_name:
  assumes "privs st a = Some p" "names p = buf # ns" "names q = ns" "ns \<noteq> []" "same_buffer p q"
  shows "without_buffer w a (without_name a q buf st) = without_buffer w a st"
proof -
  let ?st = "without_name a q buf st"
  have "names_at ?st a = set ns" "names_at st a = insert buf (set ns)" "pixmaps_at ?st a = pixmaps_at st a"
    using assms by (simp_all add: without_name_def names_at_def pixmaps_at_def same_buffer_def)
  moreover have "filter (\<lambda>r. fst r \<notin> set ns) (filter (\<lambda>r. fst r \<noteq> buf) rs) = filter (\<lambda>r. fst r \<notin> insert buf (set ns)) rs"
    for rs :: "(xid \<times> res_value) list" by (simp add: conj_commute)
  ultimately show ?thesis
    using assms(3,4) by (simp add: without_buffer_def without_name_def cong: if_cong)
qed

lemma free_all_names:
  assumes "dbe_wf st" "windowPriv st w = Some a"
  shows "free_names w st = Some (without_buffer w a st) \<and> dbe_wf (without_buffer w a st)"
proof -
  obtain p where p: "privs st a = Some p" "pWindow p = w"
    using assms wf_parts(1)[OF assms(1)] unfolding link_wf_def by blast
  show ?thesis
    using assms p
  proof (induction "length (names p)" arbitrary: st p rule: less_induct)
    case less
    have w: "ids_wf p" "names p \<noteq> []" using wf_privD[OF less.prems(1,3)] by simp_all
    then obtain buf ns where ns: "names p = buf # ns" by (cases "names p") auto
    then obtain q where q: "FreeResource buf st = Some (without_name a q buf st)" "dbe_wf (without_name a q buf st)"
      "ids_wf q" "names q = ns" "same_buffer p q"
      using free_name[OF less.prems(1,3), of buf] by auto
    let ?st = "without_name a q buf st"
    have step: "free_names w st = free_names w ?st"
      using less.prems(2,3) first_name[OF w] ns q(1) by (subst free_names.simps) simp
    show ?case
    proof (cases "ns = []")
      case True
      have "?st = without_buffer w a st"
        using without_last_name[of st a p buf q] less.prems(3,4) ns q(4,5) True by (simp add: same_buffer_def)
      moreover have "free_names w (without_buffer w a st) = Some (without_buffer w a st)"
        by (subst free_names.simps) (simp add: without_buffer_def)
      ultimately show ?thesis using step q(2) by simp
    next
      case False
      have "windowPriv ?st w = Some a" "privs ?st a = Some q" "pWindow q = w"
        using less.prems(2,4) q(4,5) False by (simp_all add: without_name_def same_buffer_def)
      then have "free_names w ?st = Some (without_buffer w a ?st) \<and> dbe_wf (without_buffer w a ?st)"
        using less.hyps[of q ?st] q(2,4) ns by simp
      then show ?thesis using step without_first_name[OF less.prems(3) ns q(4) False q(5)] by simp
    qed
  qed
qed

lemma destroy_ok:
  assumes "dbe_wf st"
  shows "\<exists>st'. miDbeWindowDestroy w st = Some st' \<and> dbe_wf st' \<and> windowPriv st' w = None
    \<and> outOfMemory st' = outOfMemory st \<and> screenPrivs st' = screenPrivs st"
proof (cases "windowPriv st w")
  case None
  have "free_names w st = Some st" using None by (subst free_names.simps) simp
  then show ?thesis using assms None by (simp add: miDbeWindowDestroy_def)
next
  case (Some a)
  then show ?thesis using free_all_names[OF assms Some] by (simp add: miDbeWindowDestroy_def without_buffer_def)
qed

end
