(* ===== verification/DbeResize.thy ===== *)
theory DbeResize
  imports DbeAllocate DbeDestroy
begin

text \<open>
  A window with a buffer changes its size: two new pixmaps take the place of the old ones for all its names,
  and when there is no memory for them the buffer is given up. Neither breaks the invariant.
\<close>

lemma create_cases:
  obtains (created) "CreatePixmap E u h st = (Some (nextAddr st),
      st\<lparr> outOfMemory := tl (outOfMemory st),
          pixmaps := (pixmaps st)(nextAddr st \<mapsto> \<lparr> pixWidth = u, pixHeight = h, pixImage = newImage E u h \<rparr>),
          nextAddr := Suc (nextAddr st) \<rparr>)"
  | (failed) "CreatePixmap E u h st = (None, st\<lparr> outOfMemory := tl (outOfMemory st) \<rparr>)" "outOfMemory st \<noteq> []"
proof (cases "outOfMemory st")
  case Nil
  then have "st = st\<lparr> outOfMemory := tl (outOfMemory st) \<rparr>" by simp
  with Nil show ?thesis using created by (simp add: create_memory)
next
  case (Cons f fs)
  then show ?thesis using created failed by (cases f) (simp_all add: CreatePixmap_def dbe_alloc_def)
qed

lemma wf_bump: "dbe_wf st \<Longrightarrow> nextAddr st \<le> n \<Longrightarrow> dbe_wf (st\<lparr> outOfMemory := m, nextAddr := n \<rparr>)"
proof -
  assume wf: "dbe_wf st" and n: "nextAddr st \<le> n"
  let ?st = "st\<lparr> outOfMemory := m, nextAddr := n \<rparr>"
  have "server_wf ?st" by (rule server_wf_frame[OF _ wf_parts(6)[OF wf]]) simp
  moreover have "names_at ?st = names_at st" "back_at ?st = back_at st" "pixmaps_at ?st = pixmaps_at st"
    by (simp_all add: names_at_def back_at_def pixmaps_at_def fun_eq_iff)
  moreover have "c < n" if "privs st c = Some r" for c r using wf_privD(5)[OF wf that] n by simp
  moreover have "x < n" if "x \<in> dom (pixmaps st)" for x using wf_parts(5)[OF wf that] n by simp
  ultimately show ?thesis
    using wf unfolding dbe_wf_def link_wf_def privs_wf_def by simp
qed

text \<open>The new size and position are recorded first.\<close>

definition resized :: "'i dbe_window \<Rightarrow> dbe_priv \<Rightarrow> dbe_priv" where
  "resized win p = p\<lparr> bufWidth := winWidth win, bufHeight := winHeight win, bufX := winX win, bufY := winY win \<rparr>"

lemma resized_simps [simp]:
  "pWindow (resized win p) = pWindow p" "names (resized win p) = names p" "ids_wf (resized win p) = ids_wf p"
  "pFrontBuffer (resized win p) = pFrontBuffer p" "pBackBuffer (resized win p) = pBackBuffer p"
  by (simp_all add: resized_def)

lemma resized_wf:
  assumes wf: "dbe_wf st" and a: "privs st a = Some p"
  shows "dbe_wf (put_priv a (resized win p) st)"
proof (rule wf_put[of st "resized win p" a, OF wf])
  have "(names_at st)(a := set (names p)) = names_at st" "(back_at st)(a := pBackBuffer p) = back_at st"
    "(pixmaps_at st)(a := set_option (pFrontBuffer p) \<union> set_option (pBackBuffer p)) = pixmaps_at st"
    using a by (simp_all add: names_at_def back_at_def pixmaps_at_def fun_eq_iff)
  then show "resources_wf ((names_at st)(a := set (names (resized win p)))) ((back_at st)(a := pBackBuffer (resized win p)))
      (resources (put_priv a (resized win p) st))"
    "pixmaps_wf ((pixmaps_at st)(a := set_option (pFrontBuffer (resized win p)) \<union> set_option (pBackBuffer (resized win p))))
      (dom (pixmaps (put_priv a (resized win p) st)))"
    using wf_parts(3,4)[OF wf] by simp_all
  show "buffer_wf (resized win p)" using wf_parts(2)[OF wf] a by (simp add: privs_wf_def buffer_wf_def)
qed (use wf_privD(4,5)[OF wf a] wf_parts(5)[OF wf] in \<open>auto simp: fun_eq_iff put_priv_def\<close>)

section \<open>The end of the hook\<close>

text \<open>The old pixmaps go and the names stand for the new ones.\<close>

lemma replace_ok:
  assumes wf: "dbe_wf st" and a: "privs st a = Some p" "pFrontBuffer p = Some f" "pBackBuffer p = Some b"
    and new: "x \<noteq> y" "nextAddr st \<le> x" "nextAddr st \<le> y" "x < nextAddr t" "y < nextAddr t"
    and t: "privs t = privs st" "windowPriv t = windowPriv st" "resources t = resources st" "same_server st t"
      "dom (pixmaps t) = dom (pixmaps st) \<union> {x, y}" "nextAddr st \<le> nextAddr t"
  shows "\<exists>t1 st'. dixDestroyPixmap (Some f) t = Some t1
    \<and> do { t2 \<leftarrow> dixDestroyPixmap (Some b) t1;
           miDbeAliasBuffers a (put_priv a (p\<lparr> pFrontBuffer := Some x, pBackBuffer := Some y \<rparr>) t2) } = Some st'
    \<and> dbe_wf st' \<and> privs st' = (privs st)(a \<mapsto> p\<lparr> pFrontBuffer := Some x, pBackBuffer := Some y \<rparr>)
    \<and> windowPriv st' = windowPriv st \<and> outOfMemory st' = outOfMemory t \<and> screenPrivs st' = screenPrivs st"
proof -
  let ?q = "p\<lparr> pFrontBuffer := Some x, pBackBuffer := Some y \<rparr>"
  let ?t = "t\<lparr> pixmaps := (pixmaps t)(f := None, b := None) \<rparr>"
  let ?st = "(put_priv a ?q ?t)\<lparr> resources := map (rebind (set (names p)) y) (resources st) \<rparr>"
  obtain f' b' where "pFrontBuffer p = Some f'" "pBackBuffer p = Some b'" "f' \<noteq> b'" "f' \<in> dom (pixmaps st)" "b' \<in> dom (pixmaps st)"
    by (rule wf_pixmapsE[OF wf a(1)])
  then have fb: "f \<noteq> b" "f \<in> dom (pixmaps st)" "b \<in> dom (pixmaps st)" using a(2,3) by simp_all
  have P: "pixmaps_at st a = {f, b}" using a by (auto simp: pixmaps_at_def)
  have fresh: "x \<notin> dom (pixmaps st)" "y \<notin> dom (pixmaps st)"
    using wf_parts(5)[OF wf] new(2,3) by fastforce+
  obtain pf pb where pm: "pixmaps t f = Some pf" "pixmaps t b = Some pb" using fb t(5) by blast
  have al: "miDbeAliasBuffers a (put_priv a ?q ?t) = Some ?st"
    using wf_privD[OF wf a(1)] wf_backs[OF wf] t(3) by (subst alias_ok[of _ a ?q y]) simp_all
  have D: "dom (pixmaps ?st) = (dom (pixmaps st) - {f, b}) \<union> {x, y}"
    using t(5) fb fresh by (auto simp: put_priv_def split: if_splits)
  have N: "names_at st a = set (names p)" "(names_at st)(a := set (names p)) = names_at st"
    "back_at st a \<noteq> None" using a by (simp_all add: names_at_def back_at_def fun_eq_iff)
  have "dbe_wf ?st"
  proof (rule wf_put[of st ?q a, OF wf])
    show "buffer_wf ?q" using wf_parts(2)[OF wf] a(1) new(1) by (simp add: privs_wf_def buffer_wf_def)
    show "resources_wf ((names_at st)(a := set (names ?q))) ((back_at st)(a := pBackBuffer ?q)) (resources ?st)"
      using resources_rebind[OF wf_parts(3)[OF wf] N(3), of y] N(1,2) by simp
    show "pixmaps_wf ((pixmaps_at st)(a := set_option (pFrontBuffer ?q) \<union> set_option (pBackBuffer ?q))) (dom (pixmaps ?st))"
      using pixmaps_add[OF pixmaps_remove[OF wf_parts(4)[OF wf]], of a a "{x, y}"] fresh unfolding D P
      by (simp add: insert_commute)
    show "z < nextAddr ?st" if "z \<in> dom (pixmaps ?st)" for z
    proof -
      have "z \<in> dom (pixmaps st) \<or> z = x \<or> z = y" using that unfolding D by blast
      moreover have "z \<in> dom (pixmaps st) \<Longrightarrow> z < nextAddr t" using wf_parts(5)[OF wf, of z] t(6) by (rule order.strict_trans2)
      ultimately show ?thesis using new(4,5) by auto
    qed
    show "same_server st ?st" using t(4) by (simp add: same_server_def put_priv_def)
  qed (use wf_privD(4,5)[OF wf a(1)] t in \<open>auto simp: fun_eq_iff put_priv_def\<close>)
  then show ?thesis
    using pm fb(1) al t(1,2,4) by (simp add: dixDestroyPixmap_def put_priv_def same_server_def)
qed


section \<open>The hook\<close>

lemma creates_fail:
  assumes wf: "dbe_wf st" and a: "windowPriv st w = Some a"
    and none: "(case CreatePixmap E u h st of (x, st1) \<Rightarrow> case CreatePixmap E u h st1 of (y, st2) \<Rightarrow> x = None \<or> y = None)"
  shows "\<exists>st'. (case CreatePixmap E u h st of (x, st1) \<Rightarrow> case CreatePixmap E u h st1 of (y, st2) \<Rightarrow>
      do { st \<leftarrow> dixDestroyPixmap x st2; st \<leftarrow> dixDestroyPixmap y st; free_names w st }) = Some st'
    \<and> dbe_wf st' \<and> windowPriv st' w = None \<and> screenPrivs st' = screenPrivs st"
proof -
  let ?bump = "\<lambda>k m. st\<lparr> outOfMemory := m, nextAddr := k \<rparr>"
  have fresh: "(pixmaps st)(nextAddr st := None) = pixmaps st"
    using wf_parts(5)[OF wf, of "nextAddr st"] by (auto simp: fun_upd_idem_iff)
  have free: "\<exists>st'. free_names w (?bump k m) = Some st' \<and> dbe_wf st' \<and> windowPriv st' w = None
      \<and> screenPrivs st' = screenPrivs st" if "nextAddr st \<le> k" for k m
    using free_all_names[OF wf_bump[OF wf that, of m], of w a] a by (simp add: without_buffer_def)
  have "\<exists>k m. nextAddr st \<le> k \<and> (case CreatePixmap E u h st of (x, st1) \<Rightarrow> case CreatePixmap E u h st1 of (y, st2) \<Rightarrow>
      do { st \<leftarrow> dixDestroyPixmap x st2; dixDestroyPixmap y st }) = Some (?bump k m)"
  proof (cases rule: create_cases[where E = E and u = u and h = h and st = st])
    case created
    note x = created
    show ?thesis
    proof (cases rule: create_cases[where E = E and u = u and h = h and st = "snd (CreatePixmap E u h st)"])
      case created
      then show ?thesis using x none by simp
    next
      case failed
      then show ?thesis using x fresh
        by (intro exI[of _ "Suc (nextAddr st)"] exI[of _ "tl (tl (outOfMemory st))"]) (simp add: dixDestroyPixmap_def)
    qed
  next
    case failed
    note x = failed
    show ?thesis
    proof (cases rule: create_cases[where E = E and u = u and h = h and st = "snd (CreatePixmap E u h st)"])
      case created
      then show ?thesis using x fresh
        by (intro exI[of _ "Suc (nextAddr st)"] exI[of _ "tl (tl (outOfMemory st))"]) (simp add: dixDestroyPixmap_def)
    next
      case failed
      then show ?thesis using x
        by (intro exI[of _ "nextAddr st"] exI[of _ "tl (tl (outOfMemory st))"]) (simp add: dixDestroyPixmap_def)
    qed
  qed
  then obtain k m where "nextAddr st \<le> k" "(case CreatePixmap E u h st of (x, st1) \<Rightarrow> case CreatePixmap E u h st1 of (y, st2) \<Rightarrow>
      do { st \<leftarrow> dixDestroyPixmap x st2; dixDestroyPixmap y st }) = Some (?bump k m)" by blast
  then show ?thesis using free[of k m] by (auto split: prod.splits Option.bind_splits)
qed

lemma creates_succeed:
  assumes "\<not> (case CreatePixmap E u h st of (x, st1) \<Rightarrow> case CreatePixmap E u h st1 of (y, st2) \<Rightarrow> x = None \<or> y = None)"
  shows "\<exists>st1 st2. CreatePixmap E u h st = (Some (nextAddr st), st1)
    \<and> CreatePixmap E u h st1 = (Some (Suc (nextAddr st)), st2)
    \<and> privs st2 = privs st \<and> windowPriv st2 = windowPriv st \<and> resources st2 = resources st \<and> same_server st st2
    \<and> dom (pixmaps st2) = dom (pixmaps st) \<union> {nextAddr st, Suc (nextAddr st)}
    \<and> nextAddr st2 = Suc (Suc (nextAddr st)) \<and> outOfMemory st2 = tl (tl (outOfMemory st))"
proof (cases rule: create_cases[where E = E and u = u and h = h and st = st])
  case created
  note x = created
  show ?thesis
  proof (cases rule: create_cases[where E = E and u = u and h = h and st = "snd (CreatePixmap E u h st)"])
    case created
    then show ?thesis using x by auto
  next
    case failed
    then show ?thesis using x assms by simp
  qed
next
  case failed
  then show ?thesis using assms by (simp split: prod.splits)
qed

lemma new_pixmaps_ok:
  assumes wf: "dbe_wf st" and a: "windowPriv st w = Some a" "privs st a = Some p"
  shows "\<exists>st'. new_pixmaps E w a fill copy st = Some st' \<and> dbe_wf st'
    \<and> (outOfMemory st = [] \<longrightarrow> outOfMemory st' = []) \<and> screenPrivs st' = screenPrivs st
    \<and> (windowPriv st' w = None \<or> windowPriv st' = windowPriv st \<and> (\<exists>x y. privs st' = (privs st)(a \<mapsto> p\<lparr> pFrontBuffer := x, pBackBuffer := y \<rparr>)))"
proof (cases "case CreatePixmap E (winWidth (windows st w)) (winHeight (windows st w)) st of (x, st1) \<Rightarrow>
    case CreatePixmap E (winWidth (windows st w)) (winHeight (windows st w)) st1 of (y, st2) \<Rightarrow> x = None \<or> y = None")
  case True
  have "outOfMemory st \<noteq> []" using True by (auto simp: create_memory)
  then show ?thesis
    using creates_fail[OF wf a(1) True] True by (auto simp: new_pixmaps_def Let_def split: prod.splits)
next
  case False
  let ?x = "nextAddr st" and ?y = "Suc (nextAddr st)"
  obtain st1 st2 where c: "CreatePixmap E (winWidth (windows st w)) (winHeight (windows st w)) st = (Some ?x, st1)"
    "CreatePixmap E (winWidth (windows st w)) (winHeight (windows st w)) st1 = (Some ?y, st2)"
    "privs st2 = privs st" "windowPriv st2 = windowPriv st" "resources st2 = resources st" "same_server st st2"
    "dom (pixmaps st2) = dom (pixmaps st) \<union> {?x, ?y}" "nextAddr st2 = Suc (Suc (nextAddr st))"
    "outOfMemory st2 = tl (tl (outOfMemory st))"
    using creates_succeed[OF False] by blast
  obtain f b where fb: "pFrontBuffer p = Some f" "pBackBuffer p = Some b" "f \<noteq> b" "f \<in> dom (pixmaps st)" "b \<in> dom (pixmaps st)"
    by (rule wf_pixmapsE[OF wf a(2)])
  let ?u = "uint (winWidth (windows st w))" and ?h = "uint (winHeight (windows st w))"
  obtain st3 where m3: "move_contents E f ?x fill copy ?u ?h st2 = Some st3" "images_only st2 st3"
    using move_ok[of f st2 ?x E fill copy ?u ?h] fb(4) unfolding c(7) by blast
  note i3 = images_onlyD[OF m3(2)]
  obtain st4 where m4: "move_contents E b ?y fill copy ?u ?h st3 = Some st4" "images_only st3 st4"
    using move_ok[of b st3 ?y E fill copy ?u ?h] fb(5) unfolding i3(6) c(7) by blast
  have i: "images_only st2 st4" using m3(2) m4(2) by (rule images_only_trans)
  note i4 = images_onlyD[OF i]
  have srv: "same_server st st4" using c(6) i4(7) by (rule same_server_trans)
  obtain t1 st' where e: "dixDestroyPixmap (Some f) st4 = Some t1"
    "do { t2 \<leftarrow> dixDestroyPixmap (Some b) t1;
          miDbeAliasBuffers a (put_priv a (p\<lparr> pFrontBuffer := Some ?x, pBackBuffer := Some ?y \<rparr>) t2) } = Some st'"
    "dbe_wf st'" "privs st' = (privs st)(a \<mapsto> p\<lparr> pFrontBuffer := Some ?x, pBackBuffer := Some ?y \<rparr>)"
    "windowPriv st' = windowPriv st" "outOfMemory st' = outOfMemory st4" "screenPrivs st' = screenPrivs st"
    using replace_ok[of st a p f b ?x ?y st4, OF wf a(2) fb(1,2)] c i4 srv by auto
  have "new_pixmaps E w a fill copy st = Some st'"
    using c(1,2,3) a(2) fb(1,2) m3(1) m4(1) e(1,2) by (simp add: new_pixmaps_def Let_def)
  then show ?thesis using e c(9) i4(5) by auto
qed

text \<open>The hook returns; afterwards the window has no buffer, or one of its own size.\<close>

lemma position_ok:
  assumes wf: "dbe_wf st"
  shows "\<exists>st'. miDbeWindowPosition E w st = Some st' \<and> dbe_wf st' \<and> (outOfMemory st = [] \<longrightarrow> outOfMemory st' = [])
    \<and> screenPrivs st' = screenPrivs st
    \<and> (\<forall>a p. windowPriv st' w = Some a \<and> privs st' a = Some p \<longrightarrow>
         bufWidth p = winWidth (windows st w) \<and> bufHeight p = winHeight (windows st w))"
proof (cases "windowPriv st w")
  case None
  then show ?thesis using wf by (simp add: miDbeWindowPosition_def)
next
  case (Some a)
  then obtain p where p: "privs st a = Some p" using wf_parts(1)[OF wf] unfolding link_wf_def by blast
  show ?thesis
  proof (cases "bufWidth p = winWidth (windows st w) \<and> bufHeight p = winHeight (windows st w)")
    case True
    then show ?thesis using wf Some p by (simp add: miDbeWindowPosition_def)
  next
    case False
    let ?st = "put_priv a (resized (windows st w) p) st"
    have wf1: "dbe_wf ?st" using wf p by (rule resized_wf)
    obtain g where g: "DbeSetupBackgroundPainter E w ?st = Some g" using painter_ok[OF wf_parts(6)[OF wf1]] by blast
    have s: "screen_funcs w ?st = Some ()" using wf by (rule wf_screen) simp_all
    have "\<exists>fill copy. miDbeWindowPosition E w st = new_pixmaps E w a fill copy ?st"
      using Some p False g s
      unfolding miDbeWindowPosition_def Let_def resized_def by (simp split: prod.split) blast
    then obtain fill copy where f: "miDbeWindowPosition E w st = new_pixmaps E w a fill copy ?st" by blast
    have a1: "windowPriv ?st w = Some a" "privs ?st a = Some (resized (windows st w) p)" using Some by simp_all
    show ?thesis
      using new_pixmaps_ok[OF wf1 a1, of E fill copy] a1(1) unfolding f by (auto simp: resized_def)
  qed
qed

end
