(* ===== verification/DbeSafe.thy ===== *)
theory DbeSafe
  imports DbeResize
begin

text \<open>
  Every request, hook and freed resource keeps the invariant of the double buffer extension and returns; the
  states the extension can be in, as a step relation.
\<close>

section \<open>Requests\<close>

text \<open>
  0 is not an identifier a client may choose, drawables are on screens, and an access that is refused comes
  with an error.
\<close>

definition env_wf :: "'i dbe_env \<Rightarrow> bool" where
  "env_wf E \<longleftrightarrow> \<not> clientRange E 0 \<and> (\<forall>d scr. lookupDrawable E d = Inr scr \<longrightarrow> scr < numScreens E) \<and> (\<forall>buf b w. createAccess E buf b w \<noteq> Some DbeSuccess)
     \<and> (\<forall>mode window. lookupWindow E mode window \<noteq> Inl DbeSuccess)"

lemma visual_memory:
  assumes "outOfMemory st = []"
  shows "\<exists>info. miDbeGetVisualInfo E scr st = (Some info, st)"
  using assms by (simp add: miDbeGetVisualInfo_def alloc_memory)

text \<open>
  What a request to allocate a name needs so as not to damage the state: memory, and a security hook that
  grants the buffer.
\<close>

definition unhindered :: "'i dbe_env \<Rightarrow> dbe_request \<Rightarrow> 'i dbe \<Rightarrow> bool" where
  "unhindered E r st \<longleftrightarrow> (case r of
     AllocateBackBufferName window buf act \<Rightarrow> outOfMemory st = [] \<and> (\<forall>b w. createAccess E buf b w = None)
   | _ \<Rightarrow> True)"

lemma allocate_checks:
  assumes wf: "dbe_wf st" and m: "outOfMemory st = []" and E: "env_wf E"
  shows "(\<exists>s. ProcDbeAllocateBackBufferName E window buf act st = Some (s, st) \<and> s \<noteq> DbeSuccess)
    \<or> (\<exists>w. lookupWindow E ManageAccess window = Inr w \<and> LegalNewID E buf st
        \<and> ProcDbeAllocateBackBufferName E window buf act st
            = do { (slot, st) \<leftarrow> reserve_name E w st;
                   case slot of None \<Rightarrow> Some (BadAlloc, st) | Some (a, i) \<Rightarrow> enter_name E w a i buf act st })"
proof (cases "lookupWindow E ManageAccess window")
  case (Inl e)
  then show ?thesis using E by (auto simp: ProcDbeAllocateBackBufferName_def env_wf_def)
next
  case (Inr w)
  obtain info where v: "miDbeGetVisualInfo E (winScreen (windows st w)) st = (Some info, st)"
    using visual_memory[OF m] by blast
  have s: "screenPrivs st (winScreen (windows st w)) = Some True"
    using wf_parts(6)[OF wf] by (simp add: server_wf_def)
  show ?thesis using Inr v s by (simp add: ProcDbeAllocateBackBufferName_def)
qed

text \<open>An allocation is refused, the first of the window, or a further one.\<close>

lemma allocate_cases:
  assumes wf: "dbe_wf st" and m: "outOfMemory st = []" and E: "env_wf E"
    and grant: "\<forall>w. lookupWindow E ManageAccess window = Inr w \<and> windowPriv st w = None \<and> LegalNewID E buf st
      \<longrightarrow> createAccess E buf (Suc (Suc (nextAddr st))) w = None"
  obtains (refused) s where "ProcDbeAllocateBackBufferName E window buf act st = Some (s, st)" "s \<noteq> DbeSuccess"
  | (first) w im im' where "ProcDbeAllocateBackBufferName E window buf act st = Some (DbeSuccess, with_buffer w buf act im im' st)"
      "windowPriv st w = None" "buf \<noteq> 0" "buf \<notin> fst ` set (resources st)"
  | (more) a p q b where "ProcDbeAllocateBackBufferName E window buf act st = Some (DbeSuccess, with_name a q b buf st)"
      "privs st a = Some p" "pBackBuffer p = Some b" "buf \<notin> fst ` set (resources st)"
      "ids_wf q" "names q = names p @ [buf]" "same_buffer (p\<lparr> swapAction := act \<rparr>) q"
  using allocate_checks[OF wf m E, of window buf act]
proof (elim disjE exE conjE)
  fix w
  assume l: "lookupWindow E ManageAccess window = Inr w" and w: "LegalNewID E buf st" and r: "ProcDbeAllocateBackBufferName E window buf act st
            = do { (slot, st) \<leftarrow> reserve_name E w st;
                   case slot of None \<Rightarrow> Some (BadAlloc, st) | Some (a, i) \<Rightarrow> enter_name E w a i buf act st }"
  have buf: "buf \<noteq> 0" "buf \<notin> fst ` set (resources st)"
    using w E by (auto simp: LegalNewID_def env_wf_def)
  show thesis
  proof (cases "windowPriv st w")
    case None
    have "createAccess E buf (Suc (Suc (nextAddr st))) w = None" using grant l None w by blast
    then obtain t im im' where "reserve_name E w st = Some (Some (nextAddr st, 0), t)"
      "enter_name E w (nextAddr st) 0 buf act t = Some (DbeSuccess, with_buffer w buf act im im' st)"
      using allocate_first[OF wf m None _ buf(1)] by blast
    then show thesis using first[of w im im'] r None buf by simp
  next
    case (Some a)
    then obtain p where p: "privs st a = Some p" using wf_parts(1)[OF wf] unfolding link_wf_def by blast
    obtain b where b: "pBackBuffer p = Some b" by (rule wf_pixmapsE[OF wf p])
    obtain t q where "reserve_name E w st = Some (Some (a, nBufferIDs p), t)"
      "enter_name E w a (nBufferIDs p) buf act t = Some (DbeSuccess, with_name a q b buf st)"
      "ids_wf q" "names q = names p @ [buf]" "same_buffer (p\<lparr> swapAction := act \<rparr>) q"
      using allocate_more[OF wf m Some p buf b] by blast
    then show thesis using more[of a q b p] r p b buf by simp
  qed
qed (use refused in blast)

lemma allocate_ok:
  assumes "dbe_wf st" "outOfMemory st = []" "env_wf E" and grant: "\<And>b w. createAccess E buf b w = None"
  shows "\<exists>s st'. ProcDbeAllocateBackBufferName E window buf act st = Some (s, st') \<and> dbe_wf st'
    \<and> screenPrivs st' = screenPrivs st"
proof -
  have g: "\<forall>w. lookupWindow E ManageAccess window = Inr w \<and> windowPriv st w = None \<and> LegalNewID E buf st
      \<longrightarrow> createAccess E buf (Suc (Suc (nextAddr st))) w = None" using grant by simp
  show ?thesis
    using assms(1,2,3) g
  proof (cases rule: allocate_cases[where window = window and buf = buf and act = act])
    case (refused s)
    then show ?thesis using assms by blast
  next
    case (first w im im')
    then show ?thesis using with_buffer_wf[OF assms(1) first(2,3,4)] by (simp add: with_buffer_def Let_def)
  next
    case (more a p q b)
    then show ?thesis using with_name_wf[OF assms(1) more(2,3,4,5,6,7)] by (simp add: with_name_def)
  qed
qed

text \<open>What is found under an identifier.\<close>

lemma lookup_cases:
  assumes "lookup_type E is_type mode buf st = Inr v"
  shows "(buf, v) \<in> set (resources st) \<and> is_type v"
proof -
  obtain r where r: "find (\<lambda>r. fst r = buf \<and> is_type (snd r)) (resources st) = Some r" "v = snd r"
    using assms by (auto simp: lookup_type_def split: option.splits)
  then show ?thesis using find_first[OF r(1)] by (cases r) auto
qed

lemma priv_resource:
  assumes "dbe_wf st" "(buf, WinPriv a) \<in> set (resources st)"
  shows "\<exists>p. privs st a = Some p \<and> buf \<in> set (names p)"
proof -
  have "buf \<in> names_at st a" using assms wf_parts(3)[OF assms(1)] unfolding resources_wf_def by blast
  then show ?thesis by (auto simp: names_at_def split: option.splits)
qed

lemma deallocate_ok:
  assumes wf: "dbe_wf st"
  shows "(\<exists>s. ProcDbeDeallocateBackBufferName E buf st = Some (s, st))
    \<or> (\<exists>a p q. ProcDbeDeallocateBackBufferName E buf st = Some (DbeSuccess, without_name a q buf st)
        \<and> dbe_wf (without_name a q buf st) \<and> privs st a = Some p \<and> buf \<in> set (names p) \<and> ids_wf q
        \<and> names q = remove1 buf (names p) \<and> same_buffer p q)"
proof (cases "lookup_type E is_priv DestroyAccess buf st")
  case (Inl e)
  then show ?thesis by (simp add: ProcDbeDeallocateBackBufferName_def)
next
  case (Inr v)
  then obtain a where a: "v = WinPriv a" "(buf, WinPriv a) \<in> set (resources st)"
    using lookup_cases[OF Inr] by (auto simp: is_back_iff)
  obtain p where p: "privs st a = Some p" "buf \<in> set (names p)" using priv_resource[OF wf a(2)] by blast
  obtain i where i: "i < nBufferIDs p" "scan_ids buf p 0 (nBufferIDs p) = Some i"
    using scan_name(1)[OF wf_privD(1)[OF wf p(1)] p(2)] by blast
  obtain q where q: "FreeResource buf st = Some (without_name a q buf st)" "dbe_wf (without_name a q buf st)"
    "ids_wf q" "names q = remove1 buf (names p)" "same_buffer p q"
    using free_name[OF wf p] by blast
  show ?thesis
  proof (cases "lookup_type E is_back DestroyAccess buf st")
    case (Inr x)
    have "ProcDbeDeallocateBackBufferName E buf st = Some (DbeSuccess, without_name a q buf st)"
      using \<open>lookup_type E is_priv DestroyAccess buf st = Inr v\<close> Inr a(1) p(1) i q(1)
      by (simp add: ProcDbeDeallocateBackBufferName_def)
    then show ?thesis using p q by blast
  qed (use Inr a(1) in \<open>simp add: ProcDbeDeallocateBackBufferName_def\<close>)
qed

lemma without_name_screens [simp]: "screenPrivs (without_name a q buf st) = screenPrivs st"
  by (simp add: without_name_def)

lemma visual_infos_ok:
  assumes "\<forall>scr \<in> set scrs. screenPrivs st scr = Some True" "dbe_wf st"
  shows "\<exists>r st'. visual_infos E scrs st = Some (r, st') \<and> dbe_wf st' \<and> screenPrivs st' = screenPrivs st"
  using assms
proof (induction scrs arbitrary: st)
  case (Cons scr scrs)
  obtain ok t where t: "dbe_alloc st = (ok, t)" by fastforce
  obtain ok' u where u: "dbe_alloc t = (ok', u)" by fastforce
  have t': "dbe_wf t" "screenPrivs t = screenPrivs st" using alloc_wf[OF t Cons.prems(2)] by simp_all
  have u': "dbe_wf u" "screenPrivs u = screenPrivs st" using alloc_wf[OF u t'(1)] t'(2) by simp_all
  then obtain r st' where "visual_infos E scrs u = Some (r, st')" "dbe_wf st'" "screenPrivs st' = screenPrivs st"
    using Cons.IH[OF _ u'(1)] Cons.prems(1) by auto
  then show ?case
    using Cons.prems t u t' u' by (auto simp: miDbeGetVisualInfo_def split: option.split)
qed simp

lemma drawables_on_screens:
  assumes "env_wf E" "lookup_drawables E ds = Inr scrs"
  shows "\<forall>scr \<in> set scrs. scr < numScreens E"
  using assms(2)
proof (induction ds arbitrary: scrs)
  case (Cons d ds)
  then show ?case using assms(1) by (auto simp: env_wf_def split: sum.splits)
qed simp

text \<open>The screens have their privates.\<close>

definition screens_ready :: "'i dbe_env \<Rightarrow> 'i dbe \<Rightarrow> bool" where
  "screens_ready E st \<longleftrightarrow> (\<forall>scr < numScreens E. screenPrivs st scr = Some True)"

lemma visual_info_ok:
  assumes "screens_ready E st" "dbe_wf st" "env_wf E"
  shows "\<exists>r st'. ProcDbeGetVisualInfo E n ds st = Some (r, st') \<and> dbe_wf st' \<and> screenPrivs st' = screenPrivs st"
proof -
  obtain ok t where t: "dbe_alloc st = (ok, t)" by fastforce
  have t': "dbe_wf t" "screenPrivs t = screenPrivs st" using alloc_wf[OF t assms(2)] by simp_all
  have all: "\<exists>r st'. visual_infos E [0..<numScreens E] st = Some (r, st') \<and> dbe_wf st' \<and> screenPrivs st' = screenPrivs st"
    using assms by (intro visual_infos_ok) (simp_all add: screens_ready_def)
  have some: "\<exists>r st'. visual_infos E scrs t = Some (r, st') \<and> dbe_wf st' \<and> screenPrivs st' = screenPrivs st"
    if "lookup_drawables E ds = Inr scrs" for scrs
    using visual_infos_ok[of scrs t E] drawables_on_screens[OF assms(3) that] assms(1) t' by (simp add: screens_ready_def)
  show ?thesis
    using all some t t' assms(2) by (auto simp: ProcDbeGetVisualInfo_def split: sum.split)
qed

lemma attributes_ok:
  assumes wf: "dbe_wf st"
  shows "\<exists>window. ProcDbeGetBackBufferAttributes E buf st = Some window"
proof (cases "lookup_type E is_priv GetAttrAccess buf st")
  case (Inr v)
  then obtain a where a: "v = WinPriv a" "(buf, WinPriv a) \<in> set (resources st)"
    using lookup_cases[OF Inr] by (auto simp: is_back_iff)
  then show ?thesis using Inr priv_resource[OF wf a(2)] by (auto simp: ProcDbeGetBackBufferAttributes_def)
qed (simp add: ProcDbeGetBackBufferAttributes_def)

lemma dispatch_ok:
  assumes "dbe_wf st" "unhindered E r st" "env_wf E" "screens_ready E st"
  shows "\<exists>s st'. ProcDbeDispatch E r st = Some (s, st') \<and> dbe_wf st' \<and> screenPrivs st' = screenPrivs st"
proof (cases r)
  case (AllocateBackBufferName window buf act)
  then show ?thesis
    using allocate_ok[OF assms(1) _ assms(3), of buf window act] assms(2)
    by (auto simp: ProcDbeDispatch_def no_reply_def unhindered_def)
next
  case (DeallocateBackBufferName buf)
  then show ?thesis
    using deallocate_ok[OF assms(1), of E buf] assms(1) by (auto simp: ProcDbeDispatch_def no_reply_def)
next
  case (SwapBuffers n swaps)
  then show ?thesis
    using swap_request_ok[OF assms(1), of E n swaps] by (auto simp: ProcDbeDispatch_def no_reply_def)
next
  case (GetVisualInfo n ds)
  then show ?thesis
    using visual_info_ok[OF assms(4,1,3), of n ds] by (auto simp: ProcDbeDispatch_def)
next
  case (GetBackBufferAttributes buf)
  then show ?thesis
    using attributes_ok[OF assms(1), of E buf] assms(1) by (auto simp: ProcDbeDispatch_def)
qed (use assms(1) in \<open>simp_all add: ProcDbeDispatch_def\<close>)

section \<open>Other resources\<close>

text \<open>A client that goes away frees its resources, those of the extension and others, in any order.\<close>

lemma rounds_other:
  assumes "\<forall>r \<in> set (resources st). fst r = buf \<longrightarrow> (\<exists>v. snd r = OtherValue v)" "length (resources st) \<le> k"
  shows "free_rounds k buf st = Some (st\<lparr> resources := filter (\<lambda>r. fst r \<noteq> buf) (resources st) \<rparr>)"
  using assms
proof (induction k arbitrary: st)
  case (Suc k)
  show ?case
  proof (cases "find (\<lambda>r. fst r = buf) (resources st)")
    case None
    then have "filter (\<lambda>r. fst r \<noteq> buf) (resources st) = resources st" by (auto simp: find_None_iff intro: filter_True)
    then show ?thesis using None by simp
  next
    case (Some r)
    have r: "fst r = buf" "r \<in> set (resources st)" using find_first[OF Some] by simp_all
    then obtain v where v: "snd r = OtherValue v" using Suc.prems(1) by blast
    let ?st = "st\<lparr> resources := remove1 r (resources st) \<rparr>"
    have "free_rounds k buf ?st = Some (?st\<lparr> resources := filter (\<lambda>r. fst r \<noteq> buf) (resources ?st) \<rparr>)"
    proof (rule Suc.IH)
      show "\<forall>s \<in> set (resources ?st). fst s = buf \<longrightarrow> (\<exists>v. snd s = OtherValue v)"
        using Suc.prems(1) set_remove1_subset[of r "resources st"] by auto
    qed (use Suc.prems(2) r(2) in \<open>simp add: length_remove1\<close>)
    then show ?thesis using Some v r(1) by (simp add: delete_value_def filter_remove1)
  qed
qed simp

lemma wf_resources:
  assumes "dbe_wf st" "resources_wf (names_at st) (back_at st) rs"
  shows "dbe_wf (st\<lparr> resources := rs \<rparr>)"
proof -
  have "server_wf (st\<lparr> resources := rs \<rparr>)" by (rule server_wf_frame[OF _ wf_parts(6)[OF assms(1)]]) simp
  then show ?thesis
    using assms unfolding dbe_wf_def link_wf_def privs_wf_def names_at_def back_at_def pixmaps_at_def by simp
qed

lemma free_ok:
  assumes wf: "dbe_wf st"
  shows "\<exists>st'. FreeResource buf st = Some st' \<and> dbe_wf st' \<and> screenPrivs st' = screenPrivs st"
proof (cases "\<exists>a. buf \<in> names_at st a")
  case True
  then obtain a p where "privs st a = Some p" "buf \<in> set (names p)" by (auto simp: names_at_def split: option.splits)
  then show ?thesis using free_name[OF wf] by (metis without_name_screens)
next
  case False
  have R: "resources_wf (names_at st) (back_at st) (resources st)" by (rule wf_parts(3)[OF wf])
  have "\<exists>v. snd r = OtherValue v" if "r \<in> set (resources st)" "fst r = buf" for r
    using R False that unfolding resources_wf_def by (cases r; cases "snd r") auto
  then have "FreeResource buf st = Some (st\<lparr> resources := filter (\<lambda>r. fst r \<noteq> buf) (resources st) \<rparr>)"
    unfolding FreeResource_def by (intro rounds_other) auto
  moreover have "resources_wf (names_at st) (back_at st) (filter (\<lambda>r. fst r \<noteq> buf) (resources st))"
    using R False unfolding resources_wf_def by auto
  ultimately show ?thesis using wf_resources[OF wf] by simp
qed

lemma other_ok:
  assumes wf: "dbe_wf st" and buf: "buf \<notin> fst ` set (resources st)"
  shows "dbe_wf (st\<lparr> resources := (buf, OtherValue v) # resources st \<rparr>)"
proof (rule wf_resources[OF wf])
  have R: "resources_wf (names_at st) (back_at st) (resources st)" by (rule wf_parts(3)[OF wf])
  have fresh: "(buf, x) \<notin> set (resources st)" for x using buf by force
  then have "buf \<notin> names_at st a" for a using R unfolding resources_wf_def by blast
  then show "resources_wf (names_at st) (back_at st) ((buf, OtherValue v) # resources st)"
    using R fresh unfolding resources_wf_def by auto
qed

section \<open>The extension as a step relation\<close>

text \<open>No buffers, windows on the screens of the server, and a window tree without cycles.\<close>

definition no_buffers :: "'i dbe_env \<Rightarrow> 'i dbe \<Rightarrow> bool" where
  "no_buffers E st \<longleftrightarrow> resources st = [] \<and> (\<forall>a. privs st a = None \<and> windowPriv st a = None \<and> pixmaps st a = None)
     \<and> (\<forall>w. winScreen (windows st w) < numScreens E \<and> background_from st w 0 0 \<noteq> None)"

text \<open>
  After the initialisation: a request, the destruction or resizing of a window, a resource freed, one of
  another extension added, and a change of the windows by the server. Memory may run out at any time; only
  the requests to allocate a name are taken with memory and with the consent of the security hook, because
  without they leave damaged states, which are not reached here.
\<close>

inductive dbe_step :: "'i dbe_env \<Rightarrow> 'i dbe \<Rightarrow> 'i dbe \<Rightarrow> bool" for E where
  request: "ProcDbeDispatch E r st = Some (s, st') \<Longrightarrow> unhindered E r st \<Longrightarrow> dbe_step E st st'"
| destroy: "miDbeWindowDestroy w st = Some st' \<Longrightarrow> dbe_step E st st'"
| position: "miDbeWindowPosition E w st = Some st' \<Longrightarrow> dbe_step E st st'"
| free: "FreeResource buf st = Some st' \<Longrightarrow> dbe_step E st st'"
| other: "buf \<notin> fst ` set (resources st) \<Longrightarrow> dbe_step E st (st\<lparr> resources := (buf, OtherValue v) # resources st \<rparr>)"
| memory: "dbe_step E st (st\<lparr> outOfMemory := m \<rparr>)"
| server: "server_wf (st\<lparr> windows := ws \<rparr>) \<Longrightarrow> dbe_step E st (st\<lparr> windows := ws \<rparr>)"

inductive dbe_reach :: "'i dbe_env \<Rightarrow> 'i dbe \<Rightarrow> bool" for E where
  start: "no_buffers E st \<Longrightarrow> DbeExtensionInit E False True st = (True, st') \<Longrightarrow> dbe_reach E st'"
| step: "dbe_reach E st \<Longrightarrow> dbe_step E st st' \<Longrightarrow> dbe_reach E st'"

lemma init_screens_ok:
  assumes "init_screens before scrs stubbed st = (Some n, st')"
  shows "\<exists>m. st' = st\<lparr> screenPrivs := (\<lambda>s. if s \<in> set scrs then Some True else screenPrivs st s), outOfMemory := m \<rparr>"
  using assms
proof (induction scrs arbitrary: before st)
  case Nil
  then show ?case by (intro exI[of _ "outOfMemory st"]) simp
next
  case (Cons scr scrs)
  obtain ok t where t: "dbe_alloc st = (ok, t)" by fastforce
  have ok: "ok" using Cons.prems t by (cases ok) auto
  let ?u = "t\<lparr> screenPrivs := (screenPrivs t)(scr \<mapsto> True) \<rparr>"
  obtain m where m: "t = st\<lparr> outOfMemory := m \<rparr>"
  proof
    show "t = st\<lparr> outOfMemory := outOfMemory t \<rparr>" using t by (auto simp: dbe_alloc_def split: list.splits)
  qed
  have "(\<lambda>s. if s \<in> set scrs then Some True else ((screenPrivs st)(scr \<mapsto> True)) s)
      = (\<lambda>s. if s \<in> set (scr # scrs) then Some True else screenPrivs st s)" by auto
  moreover have "init_screens (before @ [scr]) scrs stubbed ?u = (Some n, st')"
    using Cons.prems t ok by (simp add: miDbeInit_def)
  ultimately show ?case using Cons.IH[of "before @ [scr]" ?u] by (auto simp: m cong: if_cong)
qed

lemma start_ready:
  assumes "no_buffers E st" "DbeExtensionInit E False True st = (True, st')"
  shows "dbe_wf st' \<and> screens_ready E st'"
proof -
  obtain n where "init_screens [] [0..<numScreens E] 0 st = (Some n, st')"
    using assms(2) by (auto simp: DbeExtensionInit_def split: prod.splits option.splits if_splits)
  then obtain m where st': "st' = st\<lparr> screenPrivs := (\<lambda>s. if s \<in> set [0..<numScreens E] then Some True else screenPrivs st s),
      outOfMemory := m \<rparr>"
    using init_screens_ok by blast
  have "background_from st' w 0 0 \<noteq> None" for w
    using assms(1) background_frame[of st' st w 0 0] unfolding no_buffers_def st' by fastforce
  then have "server_wf st'" using assms(1) by (simp add: server_wf_def no_buffers_def st')
  then have "dbe_wf st'"
    using assms(1) by (simp add: no_buffers_def dbe_wf_def link_wf_def privs_wf_def resources_wf_def pixmaps_wf_def
        names_at_def back_at_def pixmaps_at_def st' dom_def)
  then show ?thesis by (simp add: st' screens_ready_def)
qed

lemma step_keeps:
  assumes "dbe_step E st st'" "dbe_wf st" "env_wf E" "screens_ready E st"
  shows "dbe_wf st' \<and> screens_ready E st'"
  using assms
proof (induction rule: dbe_step.induct)
  case (request r st s st')
  then show ?case using dispatch_ok[OF request(3,2,4,5)] request(1) by (auto simp: screens_ready_def)
next
  case (destroy w st st')
  then show ?case using destroy_ok[OF destroy(2), of w] by (auto simp: screens_ready_def)
next
  case (position w st st')
  then show ?case using position_ok[OF position(2), of E w] by (auto simp: screens_ready_def)
next
  case (free buf st st')
  then show ?case using free_ok[OF free(2), of buf] by (auto simp: screens_ready_def)
next
  case (other buf st v)
  then show ?case using other_ok by (simp add: screens_ready_def)
next
  case (memory st m)
  then show ?case using wf_memory by (simp add: screens_ready_def)
next
  case (server st ws)
  then show ?case
    unfolding dbe_wf_def link_wf_def privs_wf_def names_at_def back_at_def pixmaps_at_def by (simp add: screens_ready_def)
qed

lemma reach_wf: "dbe_reach E st \<Longrightarrow> env_wf E \<Longrightarrow> dbe_wf st \<and> screens_ready E st"
proof (induction rule: dbe_reach.induct)
  case (start st st')
  show ?case by (rule start_ready[OF start(1,2)])
next
  case (step st st')
  then show ?case using step_keeps[OF step(2)] by simp
qed

end
