(* ===== verification/DbeSpec.thy ===== *)
theory DbeSpec
  imports DbeSafe
begin

text \<open>
  What the double buffer extension promises, over the states it can reach, and what it does when memory or a
  permission is missing. The properties are applied to a server with one window.
\<close>

section \<open>A small server\<close>

text \<open>Images are single pixels; window 1 has the contents 7 on the background 9.\<close>

definition demo_env :: "u32 dbe_env" where
  "demo_env = \<lparr> lookupWindow = (\<lambda>mode window. if window = 1 then Inr 1 else Inl (OtherError 3)),
     lookupDrawable = (\<lambda>d. Inr 0), screenAccess = (\<lambda>scr. None), resourceAccess = (\<lambda>mode buf v. None),
     createAccess = (\<lambda>buf b w. None), clientRange = (\<lambda>buf. buf \<noteq> 0), allowedDepths = (\<lambda>scr. [(24, [33])]),
     numScreens = 1, copyArea = (\<lambda>src sx sy w h dx dy dst. src),
     fillRect = (\<lambda>g w h im. case g of Solid c \<Rightarrow> c | Tiled t x y \<Rightarrow> im), newImage = (\<lambda>w h. 0),
     changeGC = (\<lambda>g. True), freshMemory = 0 \<rparr>"

definition demo_window :: "u32 dbe_window" where
  "demo_window = \<lparr> winID = 1, winScreen = 0, inputOutput = True, winVisual = 33, winWidth = 4, winHeight = 3, winX = 0,
     winY = 0, bitGravity = 1, backgroundState = BackgroundPixel 9, originX = 0, originY = 0, winParent = None, winImage = 7 \<rparr>"

definition demo_start :: "u32 dbe" where
  "demo_start = \<lparr> resources = [], privs = (\<lambda>a. None), windowPriv = (\<lambda>w. None), pixmaps = (\<lambda>x. None),
     windows = (\<lambda>w. demo_window), screenPrivs = (\<lambda>scr. None), nextAddr = 0, outOfMemory = [] \<rparr>"

text \<open>The same after the initialisation of the extension.\<close>

definition demo_state :: "u32 dbe" where
  "demo_state = snd (DbeExtensionInit demo_env False True demo_start)"

lemma demo_state_fields:
  "demo_state = demo_start\<lparr> screenPrivs := [0 \<mapsto> True] \<rparr>"
  "DbeExtensionInit demo_env False True demo_start = (True, demo_state)"
  by (simp_all add: demo_state_def DbeExtensionInit_def demo_env_def alloc_memory miDbeInit_def demo_start_def)

lemma demo_env_wf: "env_wf demo_env"
  by (simp add: env_wf_def demo_env_def)

lemma demo_reach: "dbe_reach demo_env demo_state"
proof (rule dbe_reach.start[OF _ demo_state_fields(2)])
  have "background_from demo_start w 0 0 = Some (Some (Solid 9))" for w
    by (subst background_from.simps) (simp add: demo_start_def demo_window_def)
  then show "no_buffers demo_env demo_start"
    by (simp add: no_buffers_def) (simp add: demo_start_def demo_env_def demo_window_def)
qed

lemma demo_grants: "createAccess demo_env buf b w = None"
  by (simp add: demo_env_def)

lemma demo_unhindered: "unhindered demo_env (AllocateBackBufferName 1 5 2) demo_state"
  by (simp add: unhindered_def demo_env_def demo_state_fields demo_start_def)

lemma demo_wf: "dbe_wf demo_state"
  using reach_wf[OF demo_reach demo_env_wf] by simp

text \<open>The server with the buffer 5 of its window.\<close>

definition demo_buffer :: "u32 dbe" where
  "demo_buffer = with_buffer 1 5 2 0 9 demo_state"

lemma demo_buffer_wf: "dbe_wf demo_buffer"
  unfolding demo_buffer_def by (rule with_buffer_wf[OF demo_wf]) (simp_all add: demo_state_fields demo_start_def)

lemma demo_buffer_fields:
  "windowPriv demo_buffer 1 = Some 0" "outOfMemory demo_buffer = []"
  "privs demo_buffer 0 = Some (first_priv demo_window 1 0 5 2)" "resources demo_buffer = [(5, WinPriv 0), (5, BackPixmap 2)]"
  by (simp_all add: demo_buffer_def with_buffer_def demo_state_fields demo_start_def Let_def numeral_2_eq_2)

section \<open>Lemmas\<close>

lemma rebind_same:
  assumes "resources_wf N B rs" "B a = Some b"
  shows "map (rebind (N a) b) rs = rs"
proof (rule map_idI)
  fix r
  assume "r \<in> set rs"
  have "x = b" if r: "r = (buf, BackPixmap x)" and n: "buf \<in> N a" for buf x
  proof -
    obtain c where "buf \<in> N c" "B c = Some x" using assms(1) \<open>r \<in> set rs\<close> r unfolding resources_wf_def by blast
    moreover from this have "c = a" using assms(1) n unfolding resources_wf_def by blast
    ultimately show ?thesis using assms(2) by simp
  qed
  then show "rebind (N a) b r = r" by (cases r; cases "snd r") (auto simp: rebind_def)
qed

lemma rebind_twice: "rebind M y \<circ> rebind M x = rebind M y"
  by (auto simp: rebind_def fun_eq_iff)

lemma one_swap:
  assumes "outOfMemory st = []" "lookupWindow E WriteAccess window = Inr w" "windowPriv st w \<noteq> None" "act \<in> swap_actions"
    "screen_funcs w st = Some ()"
  shows "ProcDbeSwapBuffers E 1 [(window, act)] st = map_option (\<lambda>st'. (DbeSuccess, st')) (swap_window E w act st)"
  using assms by (simp add: ProcDbeSwapBuffers_def alloc_memory miDbeSwapBuffers_def split: Option.bind_split)

lemma fresh_filter: "buf \<notin> fst ` set rs \<Longrightarrow> filter (\<lambda>r. fst r \<noteq> buf) rs = rs"
  by (rule filter_True) force

lemma deallocate_newest:
  assumes wf: "dbe_wf st" and r: "resources st = (buf, WinPriv a) # (buf, BackPixmap b) # rs"
    and access: "\<And>mode buf v. resourceAccess E mode buf v = None"
  shows "\<exists>p q. ProcDbeDeallocateBackBufferName E buf st = Some (DbeSuccess, without_name a q buf st)
    \<and> privs st a = Some p \<and> names q = remove1 buf (names p) \<and> same_buffer p q"
proof -
  obtain p where p: "privs st a = Some p" "buf \<in> set (names p)"
    using priv_resource[OF wf, of buf a] r by auto
  obtain i where i: "i < nBufferIDs p" "scan_ids buf p 0 (nBufferIDs p) = Some i"
    using scan_name(1)[OF wf_privD(1)[OF wf p(1)] p(2)] by blast
  obtain q where "FreeResource buf st = Some (without_name a q buf st)" "names q = remove1 buf (names p)" "same_buffer p q"
    using free_name[OF wf p] by blast
  moreover have "lookup_type E is_priv mode buf st = Inr (WinPriv a)" "lookup_type E is_back mode buf st = Inr (BackPixmap b)" for mode
    using r access by (simp_all add: lookup_type_def)
  ultimately show ?thesis
    using p(1) i by (intro exI[of _ p] exI[of _ q]) (simp add: ProcDbeDeallocateBackBufferName_def)
qed

lemma demo_allocates_first:
  "\<exists>im im'. ProcDbeDispatch demo_env (AllocateBackBufferName 1 5 2) demo_state
      = Some ((DbeSuccess, NoReply), with_buffer 1 5 2 im im' demo_state)"
proof -
  have s: "outOfMemory demo_state = []" "windowPriv demo_state 1 = None" "resources demo_state = []"
    "windows demo_state 1 = demo_window" "screenPrivs demo_state 0 = Some True"
    by (simp_all add: demo_state_fields demo_start_def)
  obtain t im im' where "reserve_name demo_env 1 demo_state = Some (Some (nextAddr demo_state, 0), t)"
    "enter_name demo_env 1 (nextAddr demo_state) 0 5 2 t = Some (DbeSuccess, with_buffer 1 5 2 im im' demo_state)"
    using allocate_first[OF demo_wf s(1,2), of demo_env 5 2] by (auto simp: demo_env_def)
  then show ?thesis
    using s by (simp add: ProcDbeDispatch_def no_reply_def ProcDbeAllocateBackBufferName_def demo_env_def demo_window_def
        swap_actions_def LegalNewID_def miDbeGetVisualInfo_def alloc_memory) blast
qed

lemma demo_allocates:
  "map_option fst (ProcDbeAllocateBackBufferName demo_env 1 6 0 demo_buffer) = Some DbeSuccess"
proof -
  have b: "pBackBuffer (first_priv demo_window 1 0 5 2) = Some 2" and n: "nBufferIDs (first_priv demo_window 1 0 5 2) = 1"
    by (simp_all add: first_priv_def)
  obtain t q where "reserve_name demo_env 1 demo_buffer = Some (Some (0, 1), t)"
    "enter_name demo_env 1 0 1 6 0 t = Some (DbeSuccess, with_name 0 q 2 6 demo_buffer)"
    using allocate_more[OF demo_buffer_wf demo_buffer_fields(2,1,3) _ _ b, of 6 demo_env 0] n
    by (auto simp: demo_buffer_fields)
  moreover have "windows demo_buffer 1 = demo_window" "screenPrivs demo_buffer 0 = Some True"
    by (simp_all add: demo_buffer_def with_buffer_def demo_state_fields demo_start_def Let_def)
  ultimately show ?thesis
    by (simp add: ProcDbeAllocateBackBufferName_def demo_env_def demo_window_def swap_actions_def LegalNewID_def
        demo_buffer_fields miDbeGetVisualInfo_def alloc_memory)
qed

lemma free_absent: "buf \<notin> fst ` set (resources st) \<Longrightarrow> FreeResource buf st = Some st"
proof -
  assume "buf \<notin> fst ` set (resources st)"
  then have "FreeResource buf st = Some (st\<lparr> resources := filter (\<lambda>r. fst r \<noteq> buf) (resources st) \<rparr>)"
    unfolding FreeResource_def by (intro rounds_other) force+
  then show ?thesis using fresh_filter[of buf "resources st"] \<open>buf \<notin> fst ` set (resources st)\<close> by simp
qed

text \<open>A first name without a resource is never freed.\<close>

lemma free_names_stuck:
  assumes "windowPriv st w = Some a" "privs st a = Some p" "id_at p 0 = Some buf" "buf \<notin> fst ` set (resources st)"
  shows "free_names w st = None"
proof (rule ccontr)
  assume "free_names w st \<noteq> None"
  then obtain r where r: "free_names w st = Some r" by blast
  have "\<not> (w = w \<and> st = st)"
  proof (rule free_names.raw_induct[of "\<lambda>v s r. \<not> (v = w \<and> s = st)" w st r])
    fix f v s r
    assume f: "\<And>v s r. f v s = Some r \<Longrightarrow> \<not> (v = w \<and> s = st)"
      and g: "(case windowPriv s v of None \<Rightarrow> Some s
        | Some a \<Rightarrow> privs s a \<bind> (\<lambda>p. id_at p 0 \<bind> (\<lambda>buf. FreeResource buf s \<bind> f v))) = Some r"
    show "\<not> (v = w \<and> s = st)"
      using g f[of w st r] assms free_absent[OF assms(4)] by auto
  qed (rule r)
  then show False by simp
qed

lemma name_resources:
  assumes "dbe_wf st" "privs st a = Some p" "r \<in> set (resources st)" "fst r \<in> set (names p)"
  shows "r = (fst r, WinPriv a) \<or> is_back (snd r)"
proof -
  have "fst r \<in> names_at st a" using assms(2,4) by (simp add: names_at_def)
  then show ?thesis
    using assms(3) wf_parts(3)[OF assms(1)] unfolding resources_wf_def by (cases r; cases "snd r") auto
qed

text \<open>A private that counts a name too many keeps a free element when its only name is deleted.\<close>

lemma overcounted_delete:
  assumes w: "ids_wf p" and x: "names p = [x]" and p: "privs st a = Some (p\<lparr> nBufferIDs := 2, swapAction := act \<rparr>)"
    and screen: "\<And>q. screen_funcs (pWindow p) (put_priv a q st) = Some ()"
  shows "\<exists>q. DbeWindowPrivDelete a x st = Some (DbeSuccess, put_priv a q st) \<and> id_at q 0 = Some 0"
proof -
  let ?p = "p\<lparr> nBufferIDs := 2, swapAction := act \<rparr>"
  obtain xs where xs: "id_block p = Some xs" "xs = names p @ replicate (maxAvailableIDs p - nBufferIDs p) 0"
    "length xs = maxAvailableIDs p" "nBufferIDs p = length (names p)" "IDs p \<noteq> Null" by (rule ids_wf_block[OF w])
  have "2 \<le> maxAvailableIDs p" using w by (simp add: ids_wf_def)
  then obtain k where k: "maxAvailableIDs p = Suc (Suc k)" by (metis Suc_le_D numeral_2_eq_2 Suc_le_mono)
  have b: "id_block p = Some (x # 0 # replicate k 0)" using xs x k by simp
  let ?q = "(with_block (0 # 0 # replicate k 0) ?p)\<lparr> nBufferIDs := 1 \<rparr>"
  have ne: "IDs ?p \<noteq> Null" using xs(5) by simp
  have b': "id_block ?p = Some (x # 0 # replicate k 0)" using b by simp
  have with_id: "with_block ys (with_block zs ?p) = with_block ys ?p" for ys zs
    by (auto simp: with_block_def split: id_array.splits)
  have "drop_id 0 ?p = Some ?q"
    using b' with_block_simps(4)[OF ne] by (simp add: drop_id_def set_id_def with_id dbe_consts)
  moreover have q: "id_block ?q = Some (0 # 0 # replicate k 0)" using with_block_simps(4)[OF ne] by simp
  moreover have "shrink_ids ?q = Some ?q" by (simp add: shrink_ids_def dbe_consts)
  moreover have "pWindow ?q = pWindow p" using with_block_simps(1)[of ?p] by (simp add: same_buffer_def)
  moreover have "scan_ids x ?p 0 (nBufferIDs ?p) = Some 0" using b' by (simp add: id_at_def numeral_2_eq_2)
  ultimately have "DbeWindowPrivDelete a x st = Some (DbeSuccess, put_priv a ?q st)"
    using p screen by (simp add: DbeWindowPrivDelete_def Let_def miDbeWinPrivDelete_def)
  then show ?thesis using q by (intro exI[of _ ?q]) (simp add: id_at_def)
qed

text \<open>A denied first buffer: the request fails, its two pixmaps remain.\<close>

lemma denied_first:
  assumes wf: "dbe_wf st" and m: "outOfMemory st = []" and none: "windowPriv st w = None"
    and e: "createAccess E buf (Suc (Suc (nextAddr st))) w = Some e" "e \<noteq> DbeSuccess"
    and fresh: "buf \<notin> fst ` set (resources st)"
    and r: "reserve_name E w st = Some (Some (a, i), t)"
  shows "\<exists>st'. enter_name E w a i buf act t = Some (e, st') \<and> windowPriv st' = windowPriv st \<and> privs st' = privs st
    \<and> resources st' = resources st \<and> dom (pixmaps st') = dom (pixmaps st) \<union> {Suc (nextAddr st), Suc (Suc (nextAddr st))}"
proof -
  have t: "a = nextAddr st" "t = put_priv a (new_priv (windows st w) w)
      (st\<lparr> windowPriv := (windowPriv st)(w \<mapsto> a), nextAddr := Suc a \<rparr>)"
    using r none m by (auto simp: reserve_name_def alloc_memory Let_def)
  have na: "privs st (nextAddr st) = None" using wf_privD(5)[OF wf, of "nextAddr st"] by (cases "privs st (nextAddr st)") auto
  have p: "nBufferIDs (new_priv (windows st w) w) = 0" by (simp add: new_priv_def)
  have free: "FreeResource buf s = Some s" if "resources s = resources st" for s :: "'a dbe"
    using that fresh by (intro free_absent) simp
  show ?thesis
    using m none e na p unfolding t
    by (simp add: enter_name_def miDbeAllocBackBufferName_def create_memory Let_def put_priv_def free free_priv_def fun_eq_iff)
      (auto split: if_splits)
qed

text \<open>A request that succeeds had the consent of the hook.\<close>

lemma success_granted:
  assumes wf: "dbe_wf st" and m: "outOfMemory st = []" and E: "env_wf E"
    and ok: "ProcDbeAllocateBackBufferName E window buf act st = Some (DbeSuccess, st1)"
  shows "\<forall>w. lookupWindow E ManageAccess window = Inr w \<and> windowPriv st w = None \<and> LegalNewID E buf st
    \<longrightarrow> createAccess E buf (Suc (Suc (nextAddr st))) w = None"
proof (intro allI impI; elim conjE; rule ccontr)
  fix w
  assume w: "lookupWindow E ManageAccess window = Inr w" "windowPriv st w = None" "LegalNewID E buf st"
    and "createAccess E buf (Suc (Suc (nextAddr st))) w \<noteq> None"
  then obtain e where e: "createAccess E buf (Suc (Suc (nextAddr st))) w = Some e" "e \<noteq> DbeSuccess"
    using E unfolding env_wf_def by blast
  obtain t where t: "reserve_name E w st = Some (Some (nextAddr st, 0), t)"
    using w(2) m by (simp add: reserve_name_def alloc_memory Let_def)
  obtain st' where st': "enter_name E w (nextAddr st) 0 buf act t = Some (e, st')"
    using denied_first[OF wf m w(2) e _ t, of act] w(3) by (auto simp: LegalNewID_def)
  consider s where "ProcDbeAllocateBackBufferName E window buf act st = Some (s, st)" "s \<noteq> DbeSuccess"
    | v where "lookupWindow E ManageAccess window = Inr v"
        "ProcDbeAllocateBackBufferName E window buf act st
          = do { (slot, st) \<leftarrow> reserve_name E v st;
                 case slot of None \<Rightarrow> Some (BadAlloc, st) | Some (a, i) \<Rightarrow> enter_name E v a i buf act st }"
    using allocate_checks[OF wf m E, of window buf act] by blast
  then show False
    by cases (use ok w(1) t st' e(2) in simp_all)
qed

text \<open>A server whose security hook grants no buffer.\<close>

definition demo_denied :: "u32 dbe_env" where
  "demo_denied = demo_env\<lparr> createAccess := (\<lambda>buf b w. Some (OtherError 10)) \<rparr>"

section \<open>The properties\<close>

text \<open>
  C3. Privates, names, resources and pixmaps correspond exactly: no name is shared or stale, and no pixmap is
  lost or used twice. This holds in every state reached by requests, window hooks and freed resources in any
  order, with memory running out at any time, provided that each request to allocate a name is taken with
  memory and with the consent of the security hook (\<open>unhindered\<close>). The proviso is needed: without memory such
  a request can leave a counted name that does not exist, without consent it leaks two pixmaps.
\<close>

theorem dbe_invariant: "dbe_reach E st \<Longrightarrow> env_wf E \<Longrightarrow> dbe_wf st"
  by (simp add: reach_wf)

theorem dbe_invariant_witness:
  "\<exists>im im'. ProcDbeDispatch demo_env (AllocateBackBufferName 1 5 2) demo_state
      = Some ((DbeSuccess, NoReply), with_buffer 1 5 2 im im' demo_state) \<and> dbe_wf (with_buffer 1 5 2 im im' demo_state)"
proof -
  obtain im im' where r: "ProcDbeDispatch demo_env (AllocateBackBufferName 1 5 2) demo_state
      = Some ((DbeSuccess, NoReply), with_buffer 1 5 2 im im' demo_state)"
    using demo_allocates_first by blast
  then show ?thesis using dbe_invariant[OF dbe_reach.step[OF demo_reach dbe_step.request[OF r demo_unhindered]] demo_env_wf] by blast
qed

text \<open>
  C10. In every state reached that way (no request to allocate a name was taken without memory or without the
  consent of the security hook) the destruction and the resizing of any window, the freeing of any resource
  and every request return, without a fault and without looping, also when memory runs out; a request to
  allocate a name does so with memory and consent.
\<close>

theorem dbe_never_faults:
  assumes "dbe_reach E st" "env_wf E" "unhindered E r st"
  shows "\<exists>s st1 st2 st3 st4. ProcDbeDispatch E r st = Some (s, st1) \<and> miDbeWindowDestroy w st = Some st2
    \<and> miDbeWindowPosition E w st = Some st3 \<and> FreeResource buf st = Some st4"
proof -
  have wf: "dbe_wf st" "screens_ready E st" using reach_wf[OF assms(1,2)] by simp_all
  show ?thesis
    using dispatch_ok[OF wf(1) assms(3,2) wf(2)] destroy_ok[OF wf(1), of w] position_ok[OF wf(1), of E w] free_ok[OF wf(1), of buf]
    by blast
qed

theorem dbe_never_faults_witness:
  "\<exists>s st1 st2 st3 st4. ProcDbeDispatch demo_env (AllocateBackBufferName 1 5 2) demo_state = Some (s, st1)
    \<and> miDbeWindowDestroy 1 demo_state = Some st2
    \<and> miDbeWindowPosition demo_env 1 demo_state = Some st3 \<and> FreeResource 5 demo_state = Some st4"
  by (rule dbe_never_faults[OF demo_reach demo_env_wf demo_unhindered])

text \<open>
  C5. In a state with the invariant (\<open>dbe_wf\<close>) the destruction of a window with a buffer returns and leaves the
  state without it: its private, all its names with their resources and its two pixmaps are gone, and nothing
  else has changed. In a state without the invariant it need not return, as after a failed \<open>AddResource\<close>.
\<close>

theorem window_destroy_frees_buffer:
  assumes "dbe_wf st" "windowPriv st w = Some a"
  shows "miDbeWindowDestroy w st = Some (without_buffer w a st) \<and> dbe_wf (without_buffer w a st)"
  using free_all_names[OF assms] by (simp add: miDbeWindowDestroy_def)

theorem window_destroy_frees_buffer_witness:
  "miDbeWindowDestroy 1 demo_buffer = Some (without_buffer 1 0 demo_buffer) \<and> resources (without_buffer 1 0 demo_buffer) = []"
proof
  show "miDbeWindowDestroy 1 demo_buffer = Some (without_buffer 1 0 demo_buffer)"
    using window_destroy_frees_buffer[OF demo_buffer_wf demo_buffer_fields(1)] by (rule conjunct1)
  show "resources (without_buffer 1 0 demo_buffer) = []"
    by (simp add: without_buffer_def demo_buffer_fields names_at_def first_priv_wf)
qed

text \<open>
  C21. When a window has changed its size the hook returns with the invariant, even when memory runs out;
  then the window has no buffer, or one of the new size.
\<close>

theorem window_resize_keeps:
  assumes "dbe_wf st"
  shows "\<exists>st'. miDbeWindowPosition E w st = Some st' \<and> dbe_wf st'
    \<and> (\<forall>a p. windowPriv st' w = Some a \<and> privs st' a = Some p \<longrightarrow>
         bufWidth p = winWidth (windows st w) \<and> bufHeight p = winHeight (windows st w))"
  using position_ok[OF assms, of E w] by blast

theorem window_resize_keeps_witness:
  "\<exists>st'. miDbeWindowPosition demo_env 1 demo_buffer = Some st' \<and> dbe_wf st'"
  using window_resize_keeps[OF demo_buffer_wf, of demo_env 1] by blast

text \<open>
  C15. A swap request whose windows pass the checks swaps each of them exactly once, in an order of the
  server's choice; one that fails a check changes nothing.
\<close>

theorem swap_request_all_windows:
  assumes "dbe_wf st" "outOfMemory st = []" "length swaps = unat n" "0 < unat n" "unat n \<le> (2 ^ 32 - 1) div 16"
  shows "case check_swaps E st swaps of
      Inl e \<Rightarrow> ProcDbeSwapBuffers E n swaps st = Some (e, st)
    | Inr infos \<Rightarrow> (\<exists>order st'. mset order = mset infos \<and> swap_all E order st = Some st'
                      \<and> ProcDbeSwapBuffers E n swaps st = Some (DbeSuccess, st'))"
proof (cases "check_swaps E st swaps")
  case (Inl e)
  then show ?thesis using assms by (auto simp: ProcDbeSwapBuffers_def alloc_memory)
next
  case (Inr infos)
  have i: "\<forall>i \<in> set infos. windowPriv st (fst i) \<noteq> None" using check_swaps_ok[OF Inr] by blast
  obtain st' where "swap_rounds E (length infos) infos st = Some (DbeSuccess, st')"
    "swap_all E (swap_order (length infos) infos) st = Some st'"
    using rounds_ok[OF assms(1) refl i, of E] by blast
  moreover have "mset (swap_order (length infos) infos) = mset infos" by (simp add: swap_order_all)
  ultimately show ?thesis
    using Inr assms(2,3,4,5) by (auto simp: ProcDbeSwapBuffers_def alloc_memory)
qed

theorem swap_request_all_windows_witness:
  "\<exists>st'. ProcDbeSwapBuffers demo_env 1 [(1, 2)] demo_buffer = Some (DbeSuccess, st')"
proof -
  have "check_swaps demo_env demo_buffer [(1, 2)] = Inr [(1, 2)]"
    using demo_buffer_fields(1) by (simp add: demo_env_def swap_actions_def)
  then show ?thesis
    using swap_request_all_windows[OF demo_buffer_wf demo_buffer_fields(2), of "[(1, 2)]" 1 demo_env] by auto
qed

text \<open>
  C12. Two swaps with the action untouched give the window and its back buffer their contents back, and all
  names the pixmaps they stood for; \<open>content\<close> is what a copy of the whole window area transfers.
\<close>

theorem untouched_swaps_restore:
  assumes wf: "dbe_wf st" and m: "outOfMemory st = []" and a: "windowPriv st w = Some a" "privs st a = Some p"
    and win: "lookupWindow E WriteAccess window = Inr w" and b: "pBackBuffer p = Some b" "pixmaps st b = Some back"
    and content: "\<And>src dst. content (copy_all E (windows st w) src dst) = content src"
  shows "\<exists>st1 st2 back2. ProcDbeSwapBuffers E 1 [(window, 2)] st = Some (DbeSuccess, st1)
    \<and> ProcDbeSwapBuffers E 1 [(window, 2)] st1 = Some (DbeSuccess, st2)
    \<and> content (winImage (windows st1 w)) = content (pixImage back)
    \<and> content (winImage (windows st2 w)) = content (winImage (windows st w))
    \<and> pixmaps st2 b = Some back2 \<and> content (pixImage back2) = content (pixImage back)
    \<and> privs st2 = privs st \<and> resources st2 = resources st"
proof -
  obtain f where f: "pFrontBuffer p = Some f" "f \<noteq> b" "f \<in> dom (pixmaps st)"
    using wf_pixmapsE[OF wf a(2)] b(1) by (metis option.inject)
  then obtain front where front: "pixmaps st f = Some front" by blast
  let ?st1 = "exchange E w a p f b front back st"
  let ?p1 = "p\<lparr> pBackBuffer := Some f, pFrontBuffer := Some b \<rparr>"
  let ?front1 = "front\<lparr> pixImage := copy_all E (windows st w) (winImage (windows st w)) (pixImage front) \<rparr>"
  let ?st2 = "exchange E w a ?p1 b f back ?front1 ?st1"
  have wf1: "dbe_wf ?st1" by (rule exchange_wf[OF wf a f(1) b(1) f(2) front])
  have s1: "swap_window E w 2 st = Some ?st1" by (rule swap_untouched_result[OF wf a f(1) b(1) f(2) front b(2)])
  have s2: "swap_window E w 2 ?st1 = Some ?st2"
    using f(2) a b by (intro swap_untouched_result[OF wf1]) (simp_all add: exchange_def show_back_def)
  have screen: "screen_funcs w st = Some ()" "screen_funcs w ?st1 = Some ()"
    using wf_screen[OF wf] wf_screen[OF wf1] by simp_all
  have one: "ProcDbeSwapBuffers E 1 [(window, 2)] st = Some (DbeSuccess, ?st1)"
    "ProcDbeSwapBuffers E 1 [(window, 2)] ?st1 = Some (DbeSuccess, ?st2)"
    using one_swap[OF m win _ _ screen(1), of 2] one_swap[of ?st1 E window w 2, OF _ win _ _ screen(2)] a(1) m s1 s2
    by (simp_all add: swap_actions_def) (simp add: exchange_def show_back_def)
  have copy: "content (copy_all E ((windows st w)\<lparr> winImage := im \<rparr>) src dst) = content src" for im src dst
    using content by (simp add: copy_all_def)
  have "map (rebind (set (names p)) b) (resources st) = resources st"
    using rebind_same[OF wf_parts(3)[OF wf], of a b] a(2) b(1) by (simp add: names_at_def back_at_def)
  then have "resources ?st2 = resources st" by (simp add: exchange_def show_back_def rebind_twice)
  moreover have "privs ?st2 = privs st"
    using a(2) f(1) b(1) by (simp add: exchange_def fun_upd_idem)
  ultimately show ?thesis
    using one content copy by (intro exI[of _ ?st1] exI[of _ ?st2]) (simp add: exchange_def show_back_def)
qed

theorem untouched_swaps_restore_witness:
  "\<exists>st1 st2. ProcDbeSwapBuffers demo_env 1 [(1, 2)] demo_buffer = Some (DbeSuccess, st1)
    \<and> ProcDbeSwapBuffers demo_env 1 [(1, 2)] st1 = Some (DbeSuccess, st2)
    \<and> winImage (windows st1 1) = 9 \<and> winImage (windows st2 1) = 7"
proof -
  have copy: "copy_all demo_env (windows demo_buffer 1) src dst = src" for src dst
    by (simp add: copy_all_def demo_env_def)
  have "pixmaps demo_buffer 2 = Some \<lparr> pixWidth = 4, pixHeight = 3, pixImage = 9 \<rparr>"
    by (simp add: demo_buffer_def with_buffer_def demo_state_fields demo_start_def demo_window_def Let_def numeral_2_eq_2)
  moreover have "winImage (windows demo_buffer 1) = 7"
    by (simp add: demo_buffer_def with_buffer_def demo_state_fields demo_start_def demo_window_def Let_def)
  moreover have "lookupWindow demo_env WriteAccess 1 = Inr 1" by (simp add: demo_env_def)
  moreover have "pBackBuffer (first_priv demo_window 1 0 5 2) = Some 2" by (simp add: first_priv_def)
  ultimately show ?thesis
    using untouched_swaps_restore[OF demo_buffer_wf demo_buffer_fields(2,1,3), of demo_env 1 2
        "\<lparr> pixWidth = 4, pixHeight = 3, pixImage = 9 \<rparr>" "\<lambda>im. im", OF _ _ _ copy] by auto
qed

text \<open>
  C8. Deallocating a name just allocated undoes the allocation: the resources, the pixmaps and the privates
  of the windows are as before, and every private has its names again, in order.
\<close>

theorem allocate_then_deallocate:
  assumes wf: "dbe_wf st" and m: "outOfMemory st = []" and E: "env_wf E"
    and access: "\<And>mode buf v. resourceAccess E mode buf v = None"
    and ok: "ProcDbeAllocateBackBufferName E window buf act st = Some (DbeSuccess, st1)"
  shows "\<exists>st2. ProcDbeDeallocateBackBufferName E buf st1 = Some (DbeSuccess, st2)
    \<and> resources st2 = resources st \<and> pixmaps st2 = pixmaps st \<and> windowPriv st2 = windowPriv st
    \<and> (\<forall>a. map_option names (privs st2 a) = map_option names (privs st a))"
  using wf m E success_granted[OF wf m E ok]
proof (cases rule: allocate_cases[where window = window and buf = buf and act = act])
  case (refused s)
  then show ?thesis using ok by simp
next
  case (first w im im')
  let ?a = "nextAddr st"
  have st1: "st1 = with_buffer w buf act im im' st" using first(1) ok by simp
  have wf1: "dbe_wf st1" unfolding st1 by (rule with_buffer_wf[OF wf first(2,3,4)])
  let ?p = "first_priv (windows st w) w ?a buf act"
  have p: "privs st1 ?a = Some ?p" "resources st1 = (buf, WinPriv ?a) # (buf, BackPixmap (Suc (Suc ?a))) # resources st"
    by (simp_all add: st1 with_buffer_def Let_def)
  obtain q where q: "ProcDbeDeallocateBackBufferName E buf st1 = Some (DbeSuccess, without_name ?a q buf st1)"
    "names q = remove1 buf (names ?p)" "same_buffer ?p q"
    using deallocate_newest[OF wf1 p(2) access] p(1) by auto
  note fp = first_priv_wf[OF first(3), of "windows st w" w ?a act]
  have n: "names q = []" using q(2) by (simp add: fp(2))
  have pw: "pWindow q = w" using q(3) fp(3) by (simp add: same_buffer_def)
  have na: "privs st ?a = None" using wf_privD(5)[OF wf, of ?a] by (cases "privs st ?a") auto
  have new: "pixmaps st (Suc ?a) = None" "pixmaps st (Suc (Suc ?a)) = None"
    using wf_parts(5)[OF wf, of "Suc ?a"] wf_parts(5)[OF wf, of "Suc (Suc ?a)"] by auto
  have P: "pixmaps_at st1 ?a = {Suc ?a, Suc (Suc ?a)}" using p(1) fp(4,5) by (auto simp: pixmaps_at_def)
  have "resources (without_name ?a q buf st1) = resources st"
    using fresh_filter[OF first(4)] p(2) n by (simp add: without_name_def)
  moreover have "pixmaps (without_name ?a q buf st1) = pixmaps st"
    using n P new by (auto simp: without_name_def st1 with_buffer_def Let_def fun_eq_iff)
  moreover have "windowPriv (without_name ?a q buf st1) = windowPriv st" "privs (without_name ?a q buf st1) = privs st"
    using n pw first(2) na by (simp_all add: without_name_def st1 with_buffer_def Let_def fun_eq_iff)
  ultimately show ?thesis using q(1) by auto
next
  case (more a p q b)
  have st1: "st1 = with_name a q b buf st" using more(1) ok by simp
  have wf1: "dbe_wf st1" unfolding st1 by (rule with_name_wf[OF wf more(2,3,4,5,6,7)])
  have p: "privs st1 a = Some q" "resources st1 = (buf, WinPriv a) # (buf, BackPixmap b) # resources st"
    by (simp_all add: st1 with_name_def)
  obtain r where r: "ProcDbeDeallocateBackBufferName E buf st1 = Some (DbeSuccess, without_name a r buf st1)"
    "names r = remove1 buf (names q)"
    using deallocate_newest[OF wf1 p(2) access] p(1) by auto
  have "buf \<notin> set (names p)"
    using more(5,6) by (simp add: ids_wf_def)
  then have n: "names r = names p" "names p \<noteq> []"
    using r(2) more(6) wf_privD(2)[OF wf more(2)] by (simp_all add: remove1_append)
  have "resources (without_name a r buf st1) = resources st"
    using fresh_filter[OF more(4)] p(2) n by (simp add: without_name_def)
  moreover have "map_option names (privs (without_name a r buf st1) c) = map_option names (privs st c)" for c
    using n more(2) by (simp add: without_name_def st1 with_name_def)
  moreover have "pixmaps (without_name a r buf st1) = pixmaps st" "windowPriv (without_name a r buf st1) = windowPriv st"
    using n by (simp_all add: without_name_def st1 with_name_def)
  ultimately show ?thesis using r(1) by blast
qed

theorem allocate_then_deallocate_witness:
  "\<exists>st1 st2. ProcDbeAllocateBackBufferName demo_env 1 6 0 demo_buffer = Some (DbeSuccess, st1)
    \<and> ProcDbeDeallocateBackBufferName demo_env 6 st1 = Some (DbeSuccess, st2) \<and> resources st2 = resources demo_buffer"
proof -
  obtain s st1 where r: "ProcDbeAllocateBackBufferName demo_env 1 6 0 demo_buffer = Some (s, st1)"
    using allocate_ok[OF demo_buffer_wf demo_buffer_fields(2) demo_env_wf] demo_grants by blast
  have "s = DbeSuccess" using r demo_allocates by simp
  then show ?thesis
    using allocate_then_deallocate[OF demo_buffer_wf demo_buffer_fields(2) demo_env_wf _ r[unfolded \<open>s = DbeSuccess\<close>]] r
    by (auto simp: demo_env_def)
qed

text \<open>
  C29. When the security hook denies the first buffer of a window the request fails, but the two pixmaps it
  has made remain: no private owns them and nothing will free them.
\<close>

theorem denied_buffer_leaks:
  assumes wf: "dbe_wf st" and m: "outOfMemory st = []" and none: "windowPriv st w = None"
    and e: "createAccess E buf (Suc (Suc (nextAddr st))) w = Some e" "e \<noteq> DbeSuccess"
    and fresh: "buf \<notin> fst ` set (resources st)"
    and r: "reserve_name E w st = Some (Some (a, i), t)"
  shows "\<exists>st'. enter_name E w a i buf act t = Some (e, st') \<and> windowPriv st' = windowPriv st \<and> privs st' = privs st
    \<and> resources st' = resources st \<and> dom (pixmaps st') = dom (pixmaps st) \<union> {Suc (nextAddr st), Suc (Suc (nextAddr st))}
    \<and> (\<forall>c. pixmaps_at st' c \<inter> {Suc (nextAddr st), Suc (Suc (nextAddr st))} = {})"
proof -
  have owned: "pixmaps_at st c \<subseteq> dom (pixmaps st)" for c
    using wf_parts(4)[OF wf] unfolding pixmaps_wf_def by blast
  have new: "Suc (nextAddr st) \<notin> dom (pixmaps st)" "Suc (Suc (nextAddr st)) \<notin> dom (pixmaps st)"
    using wf_parts(5)[OF wf] by fastforce+
  obtain st' where st': "enter_name E w a i buf act t = Some (e, st')" "windowPriv st' = windowPriv st" "privs st' = privs st"
    "resources st' = resources st" "dom (pixmaps st') = dom (pixmaps st) \<union> {Suc (nextAddr st), Suc (Suc (nextAddr st))}"
    using denied_first[OF wf m none e fresh r] by blast
  have "pixmaps_at st' c = pixmaps_at st c" for c using st'(3) by (simp add: pixmaps_at_def)
  then have "pixmaps_at st' c \<inter> {Suc (nextAddr st), Suc (Suc (nextAddr st))} = {}" for c using owned[of c] new by blast
  then show ?thesis using st' by blast
qed

theorem denied_buffer_leaks_witness:
  "\<exists>st' t. reserve_name demo_denied 1 demo_state = Some (Some (0, 0), t)
    \<and> enter_name demo_denied 1 0 0 5 2 t = Some (OtherError 10, st') \<and> resources st' = [] \<and> dom (pixmaps st') = {1, 2}"
proof -
  have s: "outOfMemory demo_state = []" "windowPriv demo_state 1 = None" "nextAddr demo_state = 0"
    "resources demo_state = []" "dom (pixmaps demo_state) = {}" by (simp_all add: demo_state_fields demo_start_def)
  obtain t where "reserve_name demo_denied 1 demo_state = Some (Some (0, 0), t)"
    by (simp add: reserve_name_def demo_state_fields demo_start_def dbe_alloc_def Let_def)
  then show ?thesis
    using denied_buffer_leaks[OF demo_wf s(1,2), of demo_denied 5 "OtherError 10" 0 0 t 2] s
    by (auto simp: demo_denied_def numeral_2_eq_2)
qed

text \<open>
  C28. When there is no memory for the resource of a second name the request fails but counts the name. Once
  the first name is freed the counted one can not be, and destroying the window never returns.
\<close>

theorem failed_name_blocks_destruction:
  assumes wf: "dbe_wf st" and a: "windowPriv st w = Some a" "privs st a = Some p" "names p = [x]"
    and m: "outOfMemory st = [True]" and z: "0 \<notin> fst ` set (resources st)"
  shows "\<exists>t st'. reserve_name E w st = Some (Some (a, 1), t) \<and> enter_name E w a 1 buf act t = Some (BadAlloc, st')
    \<and> miDbeWindowDestroy w st' = None"
proof -
  let ?p = "p\<lparr> nBufferIDs := 2, swapAction := act \<rparr>"
  let ?st = "put_priv a ?p (st\<lparr> outOfMemory := [] \<rparr>)"
  have w: "ids_wf p" and n: "nBufferIDs p = 1" using wf_privD[OF wf a(2)] a(3) by simp_all
  obtain b where b: "pBackBuffer p = Some b" by (rule wf_pixmapsE[OF wf a(2)])
  have slot: "scan_ids DBE_FREE_ID_ELEMENT p 0 (maxAvailableIDs p) = Some 1" "maxAvailableIDs p \<noteq> 1"
    using free_slot[OF w] w n by (simp_all add: dbe_consts ids_wf_def)
  have "put_priv a p st = st" using a(2) by (simp add: put_priv_def fun_upd_idem)
  then have r: "reserve_name E w st = Some (Some (a, 1), st)" using a slot by (simp add: reserve_name_def)
  have e: "enter_name E w a 1 buf act st = Some (BadAlloc, ?st)"
    using a n b m by (simp add: enter_name_def miDbeAllocBackBufferName_def AddResource_def dbe_alloc_def delete_value_def
        DbeDrawableDelete_def count_name_def put_priv_def numeral_2_eq_2)
  obtain q where q: "DbeWindowPrivDelete a x ?st = Some (DbeSuccess, put_priv a q ?st)" "id_at q 0 = Some 0"
    using overcounted_delete[OF w a(3), of ?st a act] wf_screen[OF wf] by auto
  have R: "resources_wf (names_at st) (back_at st) (resources st)" by (rule wf_parts(3)[OF wf])
  have "x \<in> names_at st a" using a(2,3) by (simp add: names_at_def)
  then have "FreeResource x ?st = Some ((put_priv a q ?st)\<lparr> resources := filter (\<lambda>r. fst r \<noteq> x) (resources st) \<rparr>)"
    using R name_resources[OF wf a(2)] a(3) q(1) unfolding FreeResource_def
    by (intro rounds_priv[of ?st, simplified]) (auto simp: resources_wf_def)
  moreover have "free_names w ((put_priv a q ?st)\<lparr> resources := filter (\<lambda>r. fst r \<noteq> x) (resources st) \<rparr>) = None"
    using a(1) q(2) z by (intro free_names_stuck[of _ w a q 0]) auto
  moreover have "id_at ?p 0 = Some x"
    using first_name[OF w] a(3) by (simp add: id_at_def)
  ultimately have "free_names w ?st = None"
    using a(1) by (subst free_names.simps) simp
  then show ?thesis using r e by (simp add: miDbeWindowDestroy_def)
qed

theorem failed_name_blocks_destruction_witness:
  "\<exists>t st'. reserve_name demo_env 1 (demo_buffer\<lparr> outOfMemory := [True] \<rparr>) = Some (Some (0, 1), t)
    \<and> enter_name demo_env 1 0 1 6 2 t = Some (BadAlloc, st') \<and> miDbeWindowDestroy 1 st' = None"
proof (rule failed_name_blocks_destruction)
  show "dbe_wf (demo_buffer\<lparr> outOfMemory := [True] \<rparr>)"
    using wf_bump[OF demo_buffer_wf order_refl, of "[True]"] by simp
qed (use demo_buffer_fields in \<open>auto simp: first_priv_wf\<close>)

end
