(* ===== verification/KeySym.thy ===== *)
theory KeySym
  imports Prelude "HOL-Library.Multiset"
begin

text \<open>
  Conversion between keysyms and Unicode (\<open>hw/.xquartz/keysym2ucs.c\<close>): the table, the binary searches in it
  and in its copy sorted by character. C integers are \<open>int\<close>, with \<open>take_bit 32\<close> for the conversion to
  unsigned; the sort of the C library is a parameter.
\<close>

unbundle bit_operations_syntax

section \<open>The table\<close>

datatype codepair = Codepair (keysym: int) (ucs: int)

definition keysymtab1 :: "codepair list" where
  "keysymtab1 = [
    Codepair 0x01a1 0x0104, Codepair 0x01a2 0x02d8, Codepair 0x01a3 0x0141, Codepair 0x01a5 0x013d, Codepair 0x01a6 0x015a,
    Codepair 0x01a9 0x0160, Codepair 0x01aa 0x015e, Codepair 0x01ab 0x0164, Codepair 0x01ac 0x0179, Codepair 0x01ae 0x017d,
    Codepair 0x01af 0x017b, Codepair 0x01b1 0x0105, Codepair 0x01b2 0x02db, Codepair 0x01b3 0x0142, Codepair 0x01b5 0x013e,
    Codepair 0x01b6 0x015b, Codepair 0x01b7 0x02c7, Codepair 0x01b9 0x0161, Codepair 0x01ba 0x015f, Codepair 0x01bb 0x0165,
    Codepair 0x01bc 0x017a, Codepair 0x01bd 0x02dd, Codepair 0x01be 0x017e, Codepair 0x01bf 0x017c, Codepair 0x01c0 0x0154,
    Codepair 0x01c3 0x0102, Codepair 0x01c5 0x0139, Codepair 0x01c6 0x0106, Codepair 0x01c8 0x010c, Codepair 0x01ca 0x0118,
    Codepair 0x01cc 0x011a, Codepair 0x01cf 0x010e, Codepair 0x01d0 0x0110, Codepair 0x01d1 0x0143, Codepair 0x01d2 0x0147,
    Codepair 0x01d5 0x0150, Codepair 0x01d8 0x0158, Codepair 0x01d9 0x016e, Codepair 0x01db 0x0170, Codepair 0x01de 0x0162,
    Codepair 0x01e0 0x0155, Codepair 0x01e3 0x0103, Codepair 0x01e5 0x013a, Codepair 0x01e6 0x0107, Codepair 0x01e8 0x010d,
    Codepair 0x01ea 0x0119, Codepair 0x01ec 0x011b, Codepair 0x01ef 0x010f, Codepair 0x01f0 0x0111, Codepair 0x01f1 0x0144,
    Codepair 0x01f2 0x0148, Codepair 0x01f5 0x0151, Codepair 0x01f8 0x0159, Codepair 0x01f9 0x016f, Codepair 0x01fb 0x0171,
    Codepair 0x01fe 0x0163, Codepair 0x01ff 0x02d9, Codepair 0x02a1 0x0126, Codepair 0x02a6 0x0124, Codepair 0x02a9 0x0130,
    Codepair 0x02ab 0x011e, Codepair 0x02ac 0x0134, Codepair 0x02b1 0x0127, Codepair 0x02b6 0x0125, Codepair 0x02b9 0x0131,
    Codepair 0x02bb 0x011f, Codepair 0x02bc 0x0135, Codepair 0x02c5 0x010a, Codepair 0x02c6 0x0108, Codepair 0x02d5 0x0120,
    Codepair 0x02d8 0x011c, Codepair 0x02dd 0x016c, Codepair 0x02de 0x015c, Codepair 0x02e5 0x010b, Codepair 0x02e6 0x0109,
    Codepair 0x02f5 0x0121, Codepair 0x02f8 0x011d, Codepair 0x02fd 0x016d, Codepair 0x02fe 0x015d, Codepair 0x03a2 0x0138,
    Codepair 0x03a3 0x0156, Codepair 0x03a5 0x0128, Codepair 0x03a6 0x013b, Codepair 0x03aa 0x0112, Codepair 0x03ab 0x0122,
    Codepair 0x03ac 0x0166, Codepair 0x03b3 0x0157, Codepair 0x03b5 0x0129, Codepair 0x03b6 0x013c, Codepair 0x03ba 0x0113,
    Codepair 0x03bb 0x0123, Codepair 0x03bc 0x0167, Codepair 0x03bd 0x014a, Codepair 0x03bf 0x014b, Codepair 0x03c0 0x0100,
    Codepair 0x03c7 0x012e, Codepair 0x03cc 0x0116, Codepair 0x03cf 0x012a, Codepair 0x03d1 0x0145, Codepair 0x03d2 0x014c,
    Codepair 0x03d3 0x0136, Codepair 0x03d9 0x0172, Codepair 0x03dd 0x0168, Codepair 0x03de 0x016a, Codepair 0x03e0 0x0101,
    Codepair 0x03e7 0x012f, Codepair 0x03ec 0x0117, Codepair 0x03ef 0x012b, Codepair 0x03f1 0x0146, Codepair 0x03f2 0x014d,
    Codepair 0x03f3 0x0137, Codepair 0x03f9 0x0173, Codepair 0x03fd 0x0169, Codepair 0x03fe 0x016b, Codepair 0x047e 0x203e,
    Codepair 0x04a1 0x3002, Codepair 0x04a2 0x300c, Codepair 0x04a3 0x300d, Codepair 0x04a4 0x3001, Codepair 0x04a5 0x30fb,
    Codepair 0x04a6 0x30f2, Codepair 0x04a7 0x30a1, Codepair 0x04a8 0x30a3, Codepair 0x04a9 0x30a5, Codepair 0x04aa 0x30a7,
    Codepair 0x04ab 0x30a9, Codepair 0x04ac 0x30e3, Codepair 0x04ad 0x30e5, Codepair 0x04ae 0x30e7, Codepair 0x04af 0x30c3,
    Codepair 0x04b0 0x30fc, Codepair 0x04b1 0x30a2, Codepair 0x04b2 0x30a4, Codepair 0x04b3 0x30a6, Codepair 0x04b4 0x30a8,
    Codepair 0x04b5 0x30aa, Codepair 0x04b6 0x30ab, Codepair 0x04b7 0x30ad, Codepair 0x04b8 0x30af, Codepair 0x04b9 0x30b1,
    Codepair 0x04ba 0x30b3, Codepair 0x04bb 0x30b5, Codepair 0x04bc 0x30b7, Codepair 0x04bd 0x30b9, Codepair 0x04be 0x30bb,
    Codepair 0x04bf 0x30bd, Codepair 0x04c0 0x30bf, Codepair 0x04c1 0x30c1, Codepair 0x04c2 0x30c4, Codepair 0x04c3 0x30c6]"

definition keysymtab2 :: "codepair list" where
  "keysymtab2 = [
    Codepair 0x04c4 0x30c8, Codepair 0x04c5 0x30ca, Codepair 0x04c6 0x30cb, Codepair 0x04c7 0x30cc, Codepair 0x04c8 0x30cd,
    Codepair 0x04c9 0x30ce, Codepair 0x04ca 0x30cf, Codepair 0x04cb 0x30d2, Codepair 0x04cc 0x30d5, Codepair 0x04cd 0x30d8,
    Codepair 0x04ce 0x30db, Codepair 0x04cf 0x30de, Codepair 0x04d0 0x30df, Codepair 0x04d1 0x30e0, Codepair 0x04d2 0x30e1,
    Codepair 0x04d3 0x30e2, Codepair 0x04d4 0x30e4, Codepair 0x04d5 0x30e6, Codepair 0x04d6 0x30e8, Codepair 0x04d7 0x30e9,
    Codepair 0x04d8 0x30ea, Codepair 0x04d9 0x30eb, Codepair 0x04da 0x30ec, Codepair 0x04db 0x30ed, Codepair 0x04dc 0x30ef,
    Codepair 0x04dd 0x30f3, Codepair 0x04de 0x309b, Codepair 0x04df 0x309c, Codepair 0x05ac 0x060c, Codepair 0x05bb 0x061b,
    Codepair 0x05bf 0x061f, Codepair 0x05c1 0x0621, Codepair 0x05c2 0x0622, Codepair 0x05c3 0x0623, Codepair 0x05c4 0x0624,
    Codepair 0x05c5 0x0625, Codepair 0x05c6 0x0626, Codepair 0x05c7 0x0627, Codepair 0x05c8 0x0628, Codepair 0x05c9 0x0629,
    Codepair 0x05ca 0x062a, Codepair 0x05cb 0x062b, Codepair 0x05cc 0x062c, Codepair 0x05cd 0x062d, Codepair 0x05ce 0x062e,
    Codepair 0x05cf 0x062f, Codepair 0x05d0 0x0630, Codepair 0x05d1 0x0631, Codepair 0x05d2 0x0632, Codepair 0x05d3 0x0633,
    Codepair 0x05d4 0x0634, Codepair 0x05d5 0x0635, Codepair 0x05d6 0x0636, Codepair 0x05d7 0x0637, Codepair 0x05d8 0x0638,
    Codepair 0x05d9 0x0639, Codepair 0x05da 0x063a, Codepair 0x05e0 0x0640, Codepair 0x05e1 0x0641, Codepair 0x05e2 0x0642,
    Codepair 0x05e3 0x0643, Codepair 0x05e4 0x0644, Codepair 0x05e5 0x0645, Codepair 0x05e6 0x0646, Codepair 0x05e7 0x0647,
    Codepair 0x05e8 0x0648, Codepair 0x05e9 0x0649, Codepair 0x05ea 0x064a, Codepair 0x05eb 0x064b, Codepair 0x05ec 0x064c,
    Codepair 0x05ed 0x064d, Codepair 0x05ee 0x064e, Codepair 0x05ef 0x064f, Codepair 0x05f0 0x0650, Codepair 0x05f1 0x0651,
    Codepair 0x05f2 0x0652, Codepair 0x06a1 0x0452, Codepair 0x06a2 0x0453, Codepair 0x06a3 0x0451, Codepair 0x06a4 0x0454,
    Codepair 0x06a5 0x0455, Codepair 0x06a6 0x0456, Codepair 0x06a7 0x0457, Codepair 0x06a8 0x0458, Codepair 0x06a9 0x0459,
    Codepair 0x06aa 0x045a, Codepair 0x06ab 0x045b, Codepair 0x06ac 0x045c, Codepair 0x06ae 0x045e, Codepair 0x06af 0x045f,
    Codepair 0x06b0 0x2116, Codepair 0x06b1 0x0402, Codepair 0x06b2 0x0403, Codepair 0x06b3 0x0401, Codepair 0x06b4 0x0404,
    Codepair 0x06b5 0x0405, Codepair 0x06b6 0x0406, Codepair 0x06b7 0x0407, Codepair 0x06b8 0x0408, Codepair 0x06b9 0x0409,
    Codepair 0x06ba 0x040a, Codepair 0x06bb 0x040b, Codepair 0x06bc 0x040c, Codepair 0x06be 0x040e, Codepair 0x06bf 0x040f,
    Codepair 0x06c0 0x044e, Codepair 0x06c1 0x0430, Codepair 0x06c2 0x0431, Codepair 0x06c3 0x0446, Codepair 0x06c4 0x0434,
    Codepair 0x06c5 0x0435, Codepair 0x06c6 0x0444, Codepair 0x06c7 0x0433, Codepair 0x06c8 0x0445, Codepair 0x06c9 0x0438,
    Codepair 0x06ca 0x0439, Codepair 0x06cb 0x043a, Codepair 0x06cc 0x043b, Codepair 0x06cd 0x043c, Codepair 0x06ce 0x043d,
    Codepair 0x06cf 0x043e, Codepair 0x06d0 0x043f, Codepair 0x06d1 0x044f, Codepair 0x06d2 0x0440, Codepair 0x06d3 0x0441,
    Codepair 0x06d4 0x0442, Codepair 0x06d5 0x0443, Codepair 0x06d6 0x0436, Codepair 0x06d7 0x0432, Codepair 0x06d8 0x044c,
    Codepair 0x06d9 0x044b, Codepair 0x06da 0x0437, Codepair 0x06db 0x0448, Codepair 0x06dc 0x044d, Codepair 0x06dd 0x0449,
    Codepair 0x06de 0x0447, Codepair 0x06df 0x044a, Codepair 0x06e0 0x042e, Codepair 0x06e1 0x0410, Codepair 0x06e2 0x0411,
    Codepair 0x06e3 0x0426, Codepair 0x06e4 0x0414, Codepair 0x06e5 0x0415, Codepair 0x06e6 0x0424, Codepair 0x06e7 0x0413,
    Codepair 0x06e8 0x0425, Codepair 0x06e9 0x0418, Codepair 0x06ea 0x0419, Codepair 0x06eb 0x041a, Codepair 0x06ec 0x041b]"

definition keysymtab3 :: "codepair list" where
  "keysymtab3 = [
    Codepair 0x06ed 0x041c, Codepair 0x06ee 0x041d, Codepair 0x06ef 0x041e, Codepair 0x06f0 0x041f, Codepair 0x06f1 0x042f,
    Codepair 0x06f2 0x0420, Codepair 0x06f3 0x0421, Codepair 0x06f4 0x0422, Codepair 0x06f5 0x0423, Codepair 0x06f6 0x0416,
    Codepair 0x06f7 0x0412, Codepair 0x06f8 0x042c, Codepair 0x06f9 0x042b, Codepair 0x06fa 0x0417, Codepair 0x06fb 0x0428,
    Codepair 0x06fc 0x042d, Codepair 0x06fd 0x0429, Codepair 0x06fe 0x0427, Codepair 0x06ff 0x042a, Codepair 0x07a1 0x0386,
    Codepair 0x07a2 0x0388, Codepair 0x07a3 0x0389, Codepair 0x07a4 0x038a, Codepair 0x07a5 0x03aa, Codepair 0x07a7 0x038c,
    Codepair 0x07a8 0x038e, Codepair 0x07a9 0x03ab, Codepair 0x07ab 0x038f, Codepair 0x07ae 0x0385, Codepair 0x07af 0x2015,
    Codepair 0x07b1 0x03ac, Codepair 0x07b2 0x03ad, Codepair 0x07b3 0x03ae, Codepair 0x07b4 0x03af, Codepair 0x07b5 0x03ca,
    Codepair 0x07b6 0x0390, Codepair 0x07b7 0x03cc, Codepair 0x07b8 0x03cd, Codepair 0x07b9 0x03cb, Codepair 0x07ba 0x03b0,
    Codepair 0x07bb 0x03ce, Codepair 0x07c1 0x0391, Codepair 0x07c2 0x0392, Codepair 0x07c3 0x0393, Codepair 0x07c4 0x0394,
    Codepair 0x07c5 0x0395, Codepair 0x07c6 0x0396, Codepair 0x07c7 0x0397, Codepair 0x07c8 0x0398, Codepair 0x07c9 0x0399,
    Codepair 0x07ca 0x039a, Codepair 0x07cb 0x039b, Codepair 0x07cc 0x039c, Codepair 0x07cd 0x039d, Codepair 0x07ce 0x039e,
    Codepair 0x07cf 0x039f, Codepair 0x07d0 0x03a0, Codepair 0x07d1 0x03a1, Codepair 0x07d2 0x03a3, Codepair 0x07d4 0x03a4,
    Codepair 0x07d5 0x03a5, Codepair 0x07d6 0x03a6, Codepair 0x07d7 0x03a7, Codepair 0x07d8 0x03a8, Codepair 0x07d9 0x03a9,
    Codepair 0x07e1 0x03b1, Codepair 0x07e2 0x03b2, Codepair 0x07e3 0x03b3, Codepair 0x07e4 0x03b4, Codepair 0x07e5 0x03b5,
    Codepair 0x07e6 0x03b6, Codepair 0x07e7 0x03b7, Codepair 0x07e8 0x03b8, Codepair 0x07e9 0x03b9, Codepair 0x07ea 0x03ba,
    Codepair 0x07eb 0x03bb, Codepair 0x07ec 0x03bc, Codepair 0x07ed 0x03bd, Codepair 0x07ee 0x03be, Codepair 0x07ef 0x03bf,
    Codepair 0x07f0 0x03c0, Codepair 0x07f1 0x03c1, Codepair 0x07f2 0x03c3, Codepair 0x07f3 0x03c2, Codepair 0x07f4 0x03c4,
    Codepair 0x07f5 0x03c5, Codepair 0x07f6 0x03c6, Codepair 0x07f7 0x03c7, Codepair 0x07f8 0x03c8, Codepair 0x07f9 0x03c9,
    Codepair 0x08a1 0x23b7, Codepair 0x08a2 0x250c, Codepair 0x08a3 0x2500, Codepair 0x08a4 0x2320, Codepair 0x08a5 0x2321,
    Codepair 0x08a6 0x2502, Codepair 0x08a7 0x23a1, Codepair 0x08a8 0x23a3, Codepair 0x08a9 0x23a4, Codepair 0x08aa 0x23a6,
    Codepair 0x08ab 0x239b, Codepair 0x08ac 0x239d, Codepair 0x08ad 0x239e, Codepair 0x08ae 0x23a0, Codepair 0x08af 0x23a8,
    Codepair 0x08b0 0x23ac, Codepair 0x08bc 0x2264, Codepair 0x08bd 0x2260, Codepair 0x08be 0x2265, Codepair 0x08bf 0x222b,
    Codepair 0x08c0 0x2234, Codepair 0x08c1 0x221d, Codepair 0x08c2 0x221e, Codepair 0x08c5 0x2207, Codepair 0x08c8 0x223c,
    Codepair 0x08c9 0x2243, Codepair 0x08cd 0x21d4, Codepair 0x08ce 0x21d2, Codepair 0x08cf 0x2261, Codepair 0x08d6 0x221a,
    Codepair 0x08da 0x2282, Codepair 0x08db 0x2283, Codepair 0x08dc 0x2229, Codepair 0x08dd 0x222a, Codepair 0x08de 0x2227,
    Codepair 0x08df 0x2228, Codepair 0x08ef 0x2202, Codepair 0x08f6 0x0192, Codepair 0x08fb 0x2190, Codepair 0x08fc 0x2191,
    Codepair 0x08fd 0x2192, Codepair 0x08fe 0x2193, Codepair 0x09e0 0x25c6, Codepair 0x09e1 0x2592, Codepair 0x09e2 0x2409,
    Codepair 0x09e3 0x240c, Codepair 0x09e4 0x240d, Codepair 0x09e5 0x240a, Codepair 0x09e8 0x2424, Codepair 0x09e9 0x240b,
    Codepair 0x09ea 0x2518, Codepair 0x09eb 0x2510, Codepair 0x09ec 0x250c, Codepair 0x09ed 0x2514, Codepair 0x09ee 0x253c,
    Codepair 0x09ef 0x23ba, Codepair 0x09f0 0x23bb, Codepair 0x09f1 0x2500, Codepair 0x09f2 0x23bc, Codepair 0x09f3 0x23bd]"

definition keysymtab4 :: "codepair list" where
  "keysymtab4 = [
    Codepair 0x09f4 0x251c, Codepair 0x09f5 0x2524, Codepair 0x09f6 0x2534, Codepair 0x09f7 0x252c, Codepair 0x09f8 0x2502,
    Codepair 0x0aa1 0x2003, Codepair 0x0aa2 0x2002, Codepair 0x0aa3 0x2004, Codepair 0x0aa4 0x2005, Codepair 0x0aa5 0x2007,
    Codepair 0x0aa6 0x2008, Codepair 0x0aa7 0x2009, Codepair 0x0aa8 0x200a, Codepair 0x0aa9 0x2014, Codepair 0x0aaa 0x2013,
    Codepair 0x0aae 0x2026, Codepair 0x0aaf 0x2025, Codepair 0x0ab0 0x2153, Codepair 0x0ab1 0x2154, Codepair 0x0ab2 0x2155,
    Codepair 0x0ab3 0x2156, Codepair 0x0ab4 0x2157, Codepair 0x0ab5 0x2158, Codepair 0x0ab6 0x2159, Codepair 0x0ab7 0x215a,
    Codepair 0x0ab8 0x2105, Codepair 0x0abb 0x2012, Codepair 0x0abc 0x2329, Codepair 0x0abe 0x232a, Codepair 0x0ac3 0x215b,
    Codepair 0x0ac4 0x215c, Codepair 0x0ac5 0x215d, Codepair 0x0ac6 0x215e, Codepair 0x0ac9 0x2122, Codepair 0x0aca 0x2613,
    Codepair 0x0acc 0x25c1, Codepair 0x0acd 0x25b7, Codepair 0x0ace 0x25cb, Codepair 0x0acf 0x25af, Codepair 0x0ad0 0x2018,
    Codepair 0x0ad1 0x2019, Codepair 0x0ad2 0x201c, Codepair 0x0ad3 0x201d, Codepair 0x0ad4 0x211e, Codepair 0x0ad6 0x2032,
    Codepair 0x0ad7 0x2033, Codepair 0x0ad9 0x271d, Codepair 0x0adb 0x25ac, Codepair 0x0adc 0x25c0, Codepair 0x0add 0x25b6,
    Codepair 0x0ade 0x25cf, Codepair 0x0adf 0x25ae, Codepair 0x0ae0 0x25e6, Codepair 0x0ae1 0x25ab, Codepair 0x0ae2 0x25ad,
    Codepair 0x0ae3 0x25b3, Codepair 0x0ae4 0x25bd, Codepair 0x0ae5 0x2606, Codepair 0x0ae6 0x2022, Codepair 0x0ae7 0x25aa,
    Codepair 0x0ae8 0x25b2, Codepair 0x0ae9 0x25bc, Codepair 0x0aea 0x261c, Codepair 0x0aeb 0x261e, Codepair 0x0aec 0x2663,
    Codepair 0x0aed 0x2666, Codepair 0x0aee 0x2665, Codepair 0x0af0 0x2720, Codepair 0x0af1 0x2020, Codepair 0x0af2 0x2021,
    Codepair 0x0af3 0x2713, Codepair 0x0af4 0x2717, Codepair 0x0af5 0x266f, Codepair 0x0af6 0x266d, Codepair 0x0af7 0x2642,
    Codepair 0x0af8 0x2640, Codepair 0x0af9 0x260e, Codepair 0x0afa 0x2315, Codepair 0x0afb 0x2117, Codepair 0x0afc 0x2038,
    Codepair 0x0afd 0x201a, Codepair 0x0afe 0x201e, Codepair 0x0ba3 0x003c, Codepair 0x0ba6 0x003e, Codepair 0x0ba8 0x2228,
    Codepair 0x0ba9 0x2227, Codepair 0x0bc0 0x00af, Codepair 0x0bc2 0x22a5, Codepair 0x0bc3 0x2229, Codepair 0x0bc4 0x230a,
    Codepair 0x0bc6 0x005f, Codepair 0x0bca 0x2218, Codepair 0x0bcc 0x2395, Codepair 0x0bce 0x22a4, Codepair 0x0bcf 0x25cb,
    Codepair 0x0bd3 0x2308, Codepair 0x0bd6 0x222a, Codepair 0x0bd8 0x2283, Codepair 0x0bda 0x2282, Codepair 0x0bdc 0x22a2,
    Codepair 0x0bfc 0x22a3, Codepair 0x0cdf 0x2017, Codepair 0x0ce0 0x05d0, Codepair 0x0ce1 0x05d1, Codepair 0x0ce2 0x05d2,
    Codepair 0x0ce3 0x05d3, Codepair 0x0ce4 0x05d4, Codepair 0x0ce5 0x05d5, Codepair 0x0ce6 0x05d6, Codepair 0x0ce7 0x05d7,
    Codepair 0x0ce8 0x05d8, Codepair 0x0ce9 0x05d9, Codepair 0x0cea 0x05da, Codepair 0x0ceb 0x05db, Codepair 0x0cec 0x05dc,
    Codepair 0x0ced 0x05dd, Codepair 0x0cee 0x05de, Codepair 0x0cef 0x05df, Codepair 0x0cf0 0x05e0, Codepair 0x0cf1 0x05e1,
    Codepair 0x0cf2 0x05e2, Codepair 0x0cf3 0x05e3, Codepair 0x0cf4 0x05e4, Codepair 0x0cf5 0x05e5, Codepair 0x0cf6 0x05e6,
    Codepair 0x0cf7 0x05e7, Codepair 0x0cf8 0x05e8, Codepair 0x0cf9 0x05e9, Codepair 0x0cfa 0x05ea, Codepair 0x0da1 0x0e01,
    Codepair 0x0da2 0x0e02, Codepair 0x0da3 0x0e03, Codepair 0x0da4 0x0e04, Codepair 0x0da5 0x0e05, Codepair 0x0da6 0x0e06,
    Codepair 0x0da7 0x0e07, Codepair 0x0da8 0x0e08, Codepair 0x0da9 0x0e09, Codepair 0x0daa 0x0e0a, Codepair 0x0dab 0x0e0b,
    Codepair 0x0dac 0x0e0c, Codepair 0x0dad 0x0e0d, Codepair 0x0dae 0x0e0e, Codepair 0x0daf 0x0e0f, Codepair 0x0db0 0x0e10,
    Codepair 0x0db1 0x0e11, Codepair 0x0db2 0x0e12, Codepair 0x0db3 0x0e13, Codepair 0x0db4 0x0e14, Codepair 0x0db5 0x0e15]"

definition keysymtab5 :: "codepair list" where
  "keysymtab5 = [
    Codepair 0x0db6 0x0e16, Codepair 0x0db7 0x0e17, Codepair 0x0db8 0x0e18, Codepair 0x0db9 0x0e19, Codepair 0x0dba 0x0e1a,
    Codepair 0x0dbb 0x0e1b, Codepair 0x0dbc 0x0e1c, Codepair 0x0dbd 0x0e1d, Codepair 0x0dbe 0x0e1e, Codepair 0x0dbf 0x0e1f,
    Codepair 0x0dc0 0x0e20, Codepair 0x0dc1 0x0e21, Codepair 0x0dc2 0x0e22, Codepair 0x0dc3 0x0e23, Codepair 0x0dc4 0x0e24,
    Codepair 0x0dc5 0x0e25, Codepair 0x0dc6 0x0e26, Codepair 0x0dc7 0x0e27, Codepair 0x0dc8 0x0e28, Codepair 0x0dc9 0x0e29,
    Codepair 0x0dca 0x0e2a, Codepair 0x0dcb 0x0e2b, Codepair 0x0dcc 0x0e2c, Codepair 0x0dcd 0x0e2d, Codepair 0x0dce 0x0e2e,
    Codepair 0x0dcf 0x0e2f, Codepair 0x0dd0 0x0e30, Codepair 0x0dd1 0x0e31, Codepair 0x0dd2 0x0e32, Codepair 0x0dd3 0x0e33,
    Codepair 0x0dd4 0x0e34, Codepair 0x0dd5 0x0e35, Codepair 0x0dd6 0x0e36, Codepair 0x0dd7 0x0e37, Codepair 0x0dd8 0x0e38,
    Codepair 0x0dd9 0x0e39, Codepair 0x0dda 0x0e3a, Codepair 0x0ddf 0x0e3f, Codepair 0x0de0 0x0e40, Codepair 0x0de1 0x0e41,
    Codepair 0x0de2 0x0e42, Codepair 0x0de3 0x0e43, Codepair 0x0de4 0x0e44, Codepair 0x0de5 0x0e45, Codepair 0x0de6 0x0e46,
    Codepair 0x0de7 0x0e47, Codepair 0x0de8 0x0e48, Codepair 0x0de9 0x0e49, Codepair 0x0dea 0x0e4a, Codepair 0x0deb 0x0e4b,
    Codepair 0x0dec 0x0e4c, Codepair 0x0ded 0x0e4d, Codepair 0x0df0 0x0e50, Codepair 0x0df1 0x0e51, Codepair 0x0df2 0x0e52,
    Codepair 0x0df3 0x0e53, Codepair 0x0df4 0x0e54, Codepair 0x0df5 0x0e55, Codepair 0x0df6 0x0e56, Codepair 0x0df7 0x0e57,
    Codepair 0x0df8 0x0e58, Codepair 0x0df9 0x0e59, Codepair 0x0ea1 0x3131, Codepair 0x0ea2 0x3132, Codepair 0x0ea3 0x3133,
    Codepair 0x0ea4 0x3134, Codepair 0x0ea5 0x3135, Codepair 0x0ea6 0x3136, Codepair 0x0ea7 0x3137, Codepair 0x0ea8 0x3138,
    Codepair 0x0ea9 0x3139, Codepair 0x0eaa 0x313a, Codepair 0x0eab 0x313b, Codepair 0x0eac 0x313c, Codepair 0x0ead 0x313d,
    Codepair 0x0eae 0x313e, Codepair 0x0eaf 0x313f, Codepair 0x0eb0 0x3140, Codepair 0x0eb1 0x3141, Codepair 0x0eb2 0x3142,
    Codepair 0x0eb3 0x3143, Codepair 0x0eb4 0x3144, Codepair 0x0eb5 0x3145, Codepair 0x0eb6 0x3146, Codepair 0x0eb7 0x3147,
    Codepair 0x0eb8 0x3148, Codepair 0x0eb9 0x3149, Codepair 0x0eba 0x314a, Codepair 0x0ebb 0x314b, Codepair 0x0ebc 0x314c,
    Codepair 0x0ebd 0x314d, Codepair 0x0ebe 0x314e, Codepair 0x0ebf 0x314f, Codepair 0x0ec0 0x3150, Codepair 0x0ec1 0x3151,
    Codepair 0x0ec2 0x3152, Codepair 0x0ec3 0x3153, Codepair 0x0ec4 0x3154, Codepair 0x0ec5 0x3155, Codepair 0x0ec6 0x3156,
    Codepair 0x0ec7 0x3157, Codepair 0x0ec8 0x3158, Codepair 0x0ec9 0x3159, Codepair 0x0eca 0x315a, Codepair 0x0ecb 0x315b,
    Codepair 0x0ecc 0x315c, Codepair 0x0ecd 0x315d, Codepair 0x0ece 0x315e, Codepair 0x0ecf 0x315f, Codepair 0x0ed0 0x3160,
    Codepair 0x0ed1 0x3161, Codepair 0x0ed2 0x3162, Codepair 0x0ed3 0x3163, Codepair 0x0ed4 0x11a8, Codepair 0x0ed5 0x11a9,
    Codepair 0x0ed6 0x11aa, Codepair 0x0ed7 0x11ab, Codepair 0x0ed8 0x11ac, Codepair 0x0ed9 0x11ad, Codepair 0x0eda 0x11ae,
    Codepair 0x0edb 0x11af, Codepair 0x0edc 0x11b0, Codepair 0x0edd 0x11b1, Codepair 0x0ede 0x11b2, Codepair 0x0edf 0x11b3,
    Codepair 0x0ee0 0x11b4, Codepair 0x0ee1 0x11b5, Codepair 0x0ee2 0x11b6, Codepair 0x0ee3 0x11b7, Codepair 0x0ee4 0x11b8,
    Codepair 0x0ee5 0x11b9, Codepair 0x0ee6 0x11ba, Codepair 0x0ee7 0x11bb, Codepair 0x0ee8 0x11bc, Codepair 0x0ee9 0x11bd,
    Codepair 0x0eea 0x11be, Codepair 0x0eeb 0x11bf, Codepair 0x0eec 0x11c0, Codepair 0x0eed 0x11c1, Codepair 0x0eee 0x11c2,
    Codepair 0x0eef 0x316d, Codepair 0x0ef0 0x3171, Codepair 0x0ef1 0x3178, Codepair 0x0ef2 0x317f, Codepair 0x0ef3 0x3181,
    Codepair 0x0ef4 0x3184, Codepair 0x0ef5 0x3186, Codepair 0x0ef6 0x318d, Codepair 0x0ef7 0x318e, Codepair 0x0ef8 0x11eb]"

definition keysymtab6 :: "codepair list" where
  "keysymtab6 = [
    Codepair 0x0ef9 0x11f0, Codepair 0x0efa 0x11f9, Codepair 0x0eff 0x20a9, Codepair 0x13bc 0x0152, Codepair 0x13bd 0x0153,
    Codepair 0x13be 0x0178, Codepair 0x20ac 0x20ac, Codepair 0xff08 0x0008, Codepair 0xff09 0x0009, Codepair 0xff0a 0x000a,
    Codepair 0xff0d 0x000d, Codepair 0xff13 0x0013, Codepair 0xff1b 0x001b, Codepair 0xff50 0x0001, Codepair 0xff51 0x001c,
    Codepair 0xff52 0x001e, Codepair 0xff53 0x001d, Codepair 0xff54 0x001f, Codepair 0xff55 0x000b, Codepair 0xff56 0x000c,
    Codepair 0xff57 0x0004, Codepair 0xff6a 0x0005, Codepair 0xffff 0x007f]"

definition keysymtab :: "codepair list" where
  "keysymtab = keysymtab1 @ keysymtab2 @ keysymtab3 @ keysymtab4 @ keysymtab5 @ keysymtab6"

lemmas keysymtab_parts = keysymtab1_def keysymtab2_def keysymtab3_def keysymtab4_def keysymtab5_def keysymtab6_def

section \<open>The searches\<close>

text \<open>
  The loop on \<open>min\<close> and \<open>max\<close> over an array; \<open>None\<close>: an access outside of it, \<open>Some None\<close>: not found.
\<close>

definition element :: "'a list \<Rightarrow> int \<Rightarrow> 'a option" where
  "element xs i = (if 0 \<le> i \<and> i < int (length xs) then Some (xs ! nat i) else None)"

function search_table :: "('a \<Rightarrow> int) \<Rightarrow> 'a list \<Rightarrow> int \<Rightarrow> int \<Rightarrow> int \<Rightarrow> 'a option option" where
  "search_table key xs x mn mx =
     (if mx < mn then Some None
      else let mid = (mn + mx) div 2 in
        case element xs mid of
          None \<Rightarrow> None
        | Some e \<Rightarrow> if key e < x then search_table key xs x (mid + 1) mx
                    else if key e > x then search_table key xs x mn (mid - 1)
                    else Some (Some e))"
  by pat_completeness auto
termination
  by (relation "measure (\<lambda>(key, xs, x, mn, mx). nat (mx - mn + 1))") auto

declare search_table.simps [simp del]

definition is_latin1 :: "int \<Rightarrow> bool" where
  "is_latin1 c \<longleftrightarrow> 0x20 \<le> c \<and> c \<le> 0x7e \<or> 0xa0 \<le> c \<and> c \<le> 0xff"

definition keysym2ucs :: "int \<Rightarrow> int option" where
  "keysym2ucs k =
     (if is_latin1 k then Some k
      else if take_bit 32 k AND 0xff000000 = 0x01000000 then Some (k AND 0x00ffffff)
      else case search_table keysym keysymtab k 0 (int (length keysymtab) - 1) of
             None \<Rightarrow> None
           | Some None \<Rightarrow> Some (- 1)
           | Some (Some e) \<Rightarrow> Some (ucs e))"

definition reverse_compare :: "codepair \<Rightarrow> codepair \<Rightarrow> int" where
  "reverse_compare a b = ucs a - ucs b"

text \<open>
  The sorted copy is made by the first call and kept in the static variable, \<open>tab\<close>. \<open>memory\<close>: whether it
  can be allocated; without it, the copy is written to a null pointer. A result above the \<open>int\<close> range is
  converted.
\<close>

type_synonym sorter = "(codepair \<Rightarrow> codepair \<Rightarrow> int) \<Rightarrow> codepair list \<Rightarrow> codepair list"

definition ucs2keysym :: "sorter \<Rightarrow> bool \<Rightarrow> int \<Rightarrow> codepair list option \<Rightarrow> (int \<times> codepair list option) option" where
  "ucs2keysym qsort memory c tab =
     do { reverse \<leftarrow> (case tab of Some r \<Rightarrow> Some r
                      | None \<Rightarrow> if memory then Some (qsort reverse_compare keysymtab) else None);
          if is_latin1 c then Some (c, Some reverse)
          else case search_table ucs reverse c 0 (int (length keysymtab) - 1) of
                 None \<Rightarrow> None
               | Some (Some e) \<Rightarrow> Some (keysym e, Some reverse)
               | Some None \<Rightarrow> Some (signed_take_bit 31 (c OR 0x01000000), Some reverse) }"

section \<open>Binary search\<close>

lemma element_nth: "0 \<le> i \<Longrightarrow> i < int (length xs) \<Longrightarrow> element xs i = Some (xs ! nat i)"
  by (simp add: element_def)

text \<open>In an array sorted by its keys the search finds an element with the key, if there is one.\<close>

lemma search_table_spec:
  assumes "sorted (map key xs)" "0 \<le> mn" "mx < int (length xs)"
  shows "\<exists>r. search_table key xs x mn mx = Some r \<and>
    (case r of Some e \<Rightarrow> e \<in> set xs \<and> key e = x
     | None \<Rightarrow> \<forall>i. mn \<le> int i \<and> int i \<le> mx \<longrightarrow> key (xs ! i) \<noteq> x)"
  using assms
proof (induction key xs x mn mx rule: search_table.induct)
  case (1 key xs x mn mx)
  show ?case
  proof (cases "mx < mn")
    case True
    then show ?thesis by (subst search_table.simps) auto
  next
    case False
    define mid where "mid = (mn + mx) div 2"
    have mid: "mn \<le> mid" "mid \<le> mx" "0 \<le> mid" "mid < int (length xs)" using False "1.prems" by (auto simp: mid_def)
    have e: "element xs mid = Some (xs ! nat mid)" using mid by (simp add: element_nth)
    have le: "key (xs ! i) \<le> key (xs ! j)" if "i \<le> j" "j < length xs" for i j
      using sorted_nth_mono[OF "1.prems"(1), of i j] that by simp
    note rec = search_table.simps[of key xs x mn mx, folded mid_def]
    consider "key (xs ! nat mid) < x" | "key (xs ! nat mid) > x" | "key (xs ! nat mid) = x" by linarith
    then show ?thesis
    proof cases
      case 1
      have low: "key (xs ! i) \<noteq> x" if "int i \<le> mid" for i
      proof -
        have "i \<le> nat mid" "nat mid < length xs" using that mid by linarith+
        then show ?thesis using le[of i "nat mid"] 1 by auto
      qed
      obtain r where r: "search_table key xs x (mid + 1) mx = Some r"
        "case r of Some e \<Rightarrow> e \<in> set xs \<and> key e = x
         | None \<Rightarrow> \<forall>i. mid + 1 \<le> int i \<and> int i \<le> mx \<longrightarrow> key (xs ! i) \<noteq> x"
        using "1.IH"(1)[OF False mid_def e 1] "1.prems" mid by auto
      have "\<forall>i. mn \<le> int i \<and> int i \<le> mx \<longrightarrow> key (xs ! i) \<noteq> x" if "r = None"
      proof (intro allI impI)
        fix i assume i: "mn \<le> int i \<and> int i \<le> mx"
        show "key (xs ! i) \<noteq> x"
        proof (cases "int i \<le> mid")
          case False
          then have "mid + 1 \<le> int i" by simp
          then show ?thesis using r(2) that i by simp
        qed (rule low)
      qed
      then show ?thesis using rec False e 1 r by (cases r) (auto simp: Let_def)
    next
      case 2
      have high: "key (xs ! i) \<noteq> x" if "mid \<le> int i" "int i \<le> mx" for i
      proof -
        have "nat mid \<le> i" "i < length xs" using that mid "1.prems"(3) by linarith+
        then show ?thesis using le[of "nat mid" i] 2 by auto
      qed
      obtain r where r: "search_table key xs x mn (mid - 1) = Some r"
        "case r of Some e \<Rightarrow> e \<in> set xs \<and> key e = x
         | None \<Rightarrow> \<forall>i. mn \<le> int i \<and> int i \<le> mid - 1 \<longrightarrow> key (xs ! i) \<noteq> x"
        using "1.IH"(2)[OF False mid_def e _ 2] 2 "1.prems" mid by auto
      have "\<forall>i. mn \<le> int i \<and> int i \<le> mx \<longrightarrow> key (xs ! i) \<noteq> x" if "r = None"
      proof (intro allI impI)
        fix i assume i: "mn \<le> int i \<and> int i \<le> mx"
        show "key (xs ! i) \<noteq> x"
        proof (cases "mid \<le> int i")
          case False
          then have "int i \<le> mid - 1" by simp
          then show ?thesis using r(2) that i by simp
        qed (use high i in blast)
      qed
      then show ?thesis using rec False e 2 r by (cases r) (auto simp: Let_def)
    next
      case 3
      have "xs ! nat mid \<in> set xs" using mid by (intro nth_mem) auto
      then show ?thesis using rec False e 3 by (auto simp: Let_def)
    qed
  qed
qed

lemma search_whole:
  assumes "sorted (map key xs)"
  shows "\<exists>r. search_table key xs x 0 (int (length xs) - 1) = Some r
    \<and> (case r of Some e \<Rightarrow> e \<in> set xs \<and> key e = x | None \<Rightarrow> \<forall>e \<in> set xs. key e \<noteq> x)"
proof -
  obtain r where r: "search_table key xs x 0 (int (length xs) - 1) = Some r"
    "case r of Some e \<Rightarrow> e \<in> set xs \<and> key e = x
     | None \<Rightarrow> \<forall>i. 0 \<le> int i \<and> int i \<le> int (length xs) - 1 \<longrightarrow> key (xs ! i) \<noteq> x"
    using search_table_spec[OF assms, of 0 "int (length xs) - 1" x] by auto
  then show ?thesis by (cases r) (auto simp: in_set_conv_nth)
qed

section \<open>The order of the table\<close>

fun ascending :: "int \<Rightarrow> int list \<Rightarrow> bool" where
  "ascending lo [] \<longleftrightarrow> True"
| "ascending lo (x # xs) \<longleftrightarrow> lo < x \<and> ascending x xs"

lemma ascending_sorted: "ascending lo xs \<Longrightarrow> sorted_wrt (<) (lo # xs)"
  by (induction xs arbitrary: lo) fastforce+

lemma ascending_append: "ascending lo (xs @ ys) \<longleftrightarrow> ascending lo xs \<and> ascending (last (lo # xs)) ys"
  by (induction xs arbitrary: lo) auto

lemma ascending_parts:
  "ascending 0xff (map keysym keysymtab1)" "ascending (last (0xff # map keysym keysymtab1)) (map keysym keysymtab2)"
  "ascending (last (0xff # map keysym keysymtab2)) (map keysym keysymtab3)"
  "ascending (last (0xff # map keysym keysymtab3)) (map keysym keysymtab4)"
  "ascending (last (0xff # map keysym keysymtab4)) (map keysym keysymtab5)"
  "ascending (last (0xff # map keysym keysymtab5)) (map keysym keysymtab6)"
  by (simp_all add: keysymtab_parts)

lemma last_parts: "keysymtab2 \<noteq> []" "keysymtab3 \<noteq> []" "keysymtab4 \<noteq> []" "keysymtab5 \<noteq> []" "keysymtab1 \<noteq> []"
  by (simp_all add: keysymtab_parts)

lemma keysymtab_ascending: "ascending 0xff (map keysym keysymtab)"
  using ascending_parts last_parts by (simp add: keysymtab_def ascending_append)

lemma keysymtab_sorted: "sorted (map keysym keysymtab)" "distinct (map keysym keysymtab)" "\<forall>e \<in> set keysymtab. 0xff < keysym e"
  using ascending_sorted[OF keysymtab_ascending] strict_sorted_iff[of "map keysym keysymtab"] by auto

definition in_range :: "codepair \<Rightarrow> bool" where
  "in_range e \<longleftrightarrow> keysym e \<le> 0xffff \<and> 0 \<le> ucs e \<and> ucs e \<le> 0xffff"

lemma ranges:
  "list_all in_range keysymtab1" "list_all in_range keysymtab2" "list_all in_range keysymtab3" "list_all in_range keysymtab4"
  "list_all in_range keysymtab5" "list_all in_range keysymtab6"
  by (simp_all add: keysymtab_parts in_range_def)

lemma keysymtab_range: "list_all in_range keysymtab"
  using ranges by (simp add: keysymtab_def)

section \<open>The functions\<close>

lemma top_byte:
  assumes "- (2 ^ 31) \<le> k" "k < (2 ^ 31 :: int)"
  shows "take_bit 32 k AND 0xff000000 = 0x01000000 \<longleftrightarrow> 0x01000000 \<le> k \<and> k \<le> 0x01ffffff"
proof -
  let ?m = "take_bit 32 k"
  have "(0xff000000 :: int) = push_bit 24 (mask 8)" by (simp add: mask_eq_exp_minus_1)
  moreover have "?m AND push_bit 24 (mask 8) = push_bit 24 (drop_bit 24 ?m)"
    by (rule bit_eqI) (auto simp: bit_simps)
  ultimately have "?m AND 0xff000000 = 2 ^ 24 * (?m div 2 ^ 24)"
    by (simp add: push_bit_eq_mult drop_bit_eq_div)
  moreover have "?m = (if k < 0 then k + 2 ^ 32 else k)"
    using assms by (simp add: take_bit_eq_mod mod_pos_pos_trivial) (smt (verit) mod_add_self2 mod_pos_pos_trivial)
  ultimately show ?thesis using assms by (auto split: if_splits)
qed

lemma low_bytes: "(k :: int) AND 0x00ffffff = k mod 2 ^ 24"
proof -
  have "(0x00ffffff :: int) = mask 24" by (simp add: mask_eq_exp_minus_1)
  then have "k AND 0x00ffffff = take_bit 24 k" by (simp only: take_bit_eq_mask)
  then show ?thesis by (simp add: take_bit_eq_mod)
qed

lemma table_element: "e \<in> set keysymtab \<Longrightarrow> 0xff < keysym e \<and> keysym e \<le> 0xffff \<and> 0 \<le> ucs e \<and> ucs e \<le> 0xffff"
  using keysymtab_sorted(3) keysymtab_range by (auto simp: list_all_iff in_range_def)

text \<open>The specification: the table as a finite map, besides the two ranges that need none.\<close>

definition unicode_of :: "int \<Rightarrow> int" where
  "unicode_of k =
     (if is_latin1 k then k
      else if 0x01000000 \<le> k \<and> k \<le> 0x01ffffff then k - 0x01000000
      else case map_of (map (\<lambda>e. (keysym e, ucs e)) keysymtab) k of Some u \<Rightarrow> u | None \<Rightarrow> - 1)"

lemma keysym_search:
  "search_table keysym keysymtab k 0 (int (length keysymtab) - 1) = Some (find (\<lambda>e. keysym e = k) keysymtab)"
proof -
  obtain r where r: "search_table keysym keysymtab k 0 (int (length keysymtab) - 1) = Some r"
    "case r of Some e \<Rightarrow> e \<in> set keysymtab \<and> keysym e = k | None \<Rightarrow> \<forall>e \<in> set keysymtab. keysym e \<noteq> k"
    using search_whole[OF keysymtab_sorted(1), of k] by blast
  have one: "e = e'" if "e \<in> set keysymtab" "e' \<in> set keysymtab" "keysym e = keysym e'" for e e'
    using keysymtab_sorted(2) that by (auto simp: distinct_map dest: inj_onD)
  have "r = find (\<lambda>e. keysym e = k) keysymtab"
  proof (cases r)
    case None
    then have "find (\<lambda>e. keysym e = k) keysymtab = None" using r(2) by (simp add: find_None_iff)
    then show ?thesis using None by simp
  next
    case (Some e)
    then obtain e' where "find (\<lambda>e. keysym e = k) keysymtab = Some e'" "e' \<in> set keysymtab" "keysym e' = k"
      using r(2) by (cases "find (\<lambda>e. keysym e = k) keysymtab") (auto simp: find_None_iff find_Some_iff)
    then show ?thesis using Some r(2) one[of e e'] by simp
  qed
  then show ?thesis using r(1) by simp
qed

lemma find_map_of: "map_of (map (\<lambda>e. (f e, g e)) xs) k = map_option g (find (\<lambda>e. f e = k) xs)"
  by (induction xs) auto

lemma keysym2ucs_unicode:
  assumes "- (2 ^ 31) \<le> k" "k < 2 ^ 31"
  shows "keysym2ucs k = Some (unicode_of k)"
proof -
  have "k AND 0x00ffffff = k - 0x01000000" if k: "0x01000000 \<le> k" "k \<le> 0x01ffffff"
  proof -
    have "k mod 2 ^ 24 = (k - 2 ^ 24) mod 2 ^ 24" by simp
    also have "\<dots> = k - 2 ^ 24" using k by (intro mod_pos_pos_trivial) auto
    finally show ?thesis unfolding low_bytes by simp
  qed
  then show ?thesis
    unfolding keysym2ucs_def top_byte[OF assms] keysym_search unicode_of_def find_map_of
    by (auto split: option.split)
qed

text \<open>What the sort of the C library promises for this comparison.\<close>

definition sorts :: "sorter \<Rightarrow> bool" where
  "sorts qsort \<longleftrightarrow> mset (qsort reverse_compare keysymtab) = mset keysymtab
     \<and> sorted_wrt (\<lambda>a b. reverse_compare a b \<le> 0) (qsort reverse_compare keysymtab)"

lemma reverse_search:
  assumes "sorts qsort"
  shows "\<exists>r. search_table ucs (qsort reverse_compare keysymtab) c 0 (int (length keysymtab) - 1) = Some r
    \<and> (case r of Some e \<Rightarrow> e \<in> set keysymtab \<and> ucs e = c | None \<Rightarrow> \<forall>e \<in> set keysymtab. ucs e \<noteq> c)"
proof -
  let ?r = "qsort reverse_compare keysymtab"
  have m: "mset ?r = mset keysymtab" using assms by (simp add: sorts_def)
  have l: "length ?r = length keysymtab" "set ?r = set keysymtab"
    using mset_eq_length[OF m] mset_eq_setD[OF m] by simp_all
  have "sorted (map ucs ?r)"
    using assms by (simp add: sorts_def reverse_compare_def sorted_map)
  from search_whole[OF this, of c] show ?thesis unfolding l .
qed

lemma table_keysym: "e \<in> set keysymtab \<Longrightarrow> keysym2ucs (keysym e) = Some (ucs e)"
proof -
  assume e: "e \<in> set keysymtab"
  have r: "0xff < keysym e" "keysym e \<le> 0xffff" using table_element[OF e] by simp_all
  have "find (\<lambda>e'. keysym e' = keysym e) keysymtab = Some e"
  proof -
    obtain e' where "find (\<lambda>e'. keysym e' = keysym e) keysymtab = Some e'" "e' \<in> set keysymtab" "keysym e' = keysym e"
      using e by (cases "find (\<lambda>e'. keysym e' = keysym e) keysymtab") (auto simp: find_None_iff find_Some_iff)
    then show ?thesis using e keysymtab_sorted(2) by (auto simp: distinct_map dest: inj_onD)
  qed
  then show ?thesis
    using r by (subst keysym2ucs_unicode) (auto simp: unicode_of_def find_map_of is_latin1_def)
qed

lemma ucs_back:
  assumes q: "sorts qsort" and t: "tab = None \<and> memory \<or> tab = Some (qsort reverse_compare keysymtab)"
    and c: "0 \<le> c" "c < 2 ^ 24"
  shows "\<exists>k. ucs2keysym qsort memory c tab = Some (k, Some (qsort reverse_compare keysymtab)) \<and> keysym2ucs k = Some c"
proof -
  let ?r = "qsort reverse_compare keysymtab"
  obtain r where r: "search_table ucs ?r c 0 (int (length keysymtab) - 1) = Some r"
    "case r of Some e \<Rightarrow> e \<in> set keysymtab \<and> ucs e = c | None \<Rightarrow> \<forall>e \<in> set keysymtab. ucs e \<noteq> c"
    using reverse_search[OF q, of c] by blast
  have tab: "(case tab of Some r \<Rightarrow> Some r | None \<Rightarrow> if memory then Some ?r else None) = Some ?r" using t by auto
  show ?thesis
  proof (cases "is_latin1 c")
    case True
    then show ?thesis using tab by (simp add: ucs2keysym_def keysym2ucs_def)
  next
    case False
    show ?thesis
    proof (cases r)
      case (Some e)
      then show ?thesis using False tab r table_keysym[of e] by (auto simp: ucs2keysym_def)
    next
      case None
      have "take_bit 24 c = c" using c by (intro take_bit_int_eq_self) auto
      then have "\<not> bit c 24" by (metis bit_take_bit_iff less_irrefl)
      then have "bit (c AND 2 ^ 24) n = bit 0 n" for n unfolding bit_and_iff bit_exp_iff by auto
      then have "c AND 2 ^ 24 = 0" by (rule bit_eqI)
      then have "c OR 2 ^ 24 = c + 2 ^ 24" using plus_and_or[of c "2 ^ 24"] by (simp only: add_0)
      moreover have "(2 :: int) ^ 24 = 0x01000000" by simp
      ultimately have "c OR 0x01000000 = c + 0x01000000" by (simp only:)
      moreover have "signed_take_bit 31 (c + 0x01000000) = c + 0x01000000"
        using c by (intro signed_take_bit_int_eq_self) auto
      moreover have "keysym2ucs (c + 0x01000000) = Some c"
        using c by (subst keysym2ucs_unicode) (auto simp: unicode_of_def is_latin1_def)
      ultimately show ?thesis using False None tab r(1) by (simp add: ucs2keysym_def)
    qed
  qed
qed

section \<open>The properties\<close>

text \<open>
  C27. For every \<open>int\<close> the binary search of \<open>keysym2ucs\<close> returns, reads the table inside its bounds only, and its
  result is the character of the table as a finite map, the keysym itself for Latin-1, the low 24 bits of a
  directly encoded character, and -1 for the rest.
\<close>

theorem keysym_search_exact:
  assumes "- (2 ^ 31) \<le> k" "k < 2 ^ 31"
  shows "keysym2ucs k = Some (unicode_of k)"
  using assms by (rule keysym2ucs_unicode)

lemma keysym_search_exact_witness: "keysym2ucs 0x010020ac = Some 0x20ac"
  using keysym_search_exact[of "0x010020ac"] by (simp add: unicode_of_def is_latin1_def)

text \<open>
  C30. \<open>ucs2keysym\<close> followed by \<open>keysym2ucs\<close> gives every 24-bit character back, on the first call, which sorts the
  table by character, and on later ones. The C library's sort only has to permute and to order by the comparison.
\<close>

theorem unicode_roundtrip:
  assumes "sorts qsort" "tab = None \<and> memory \<or> tab = Some (qsort reverse_compare keysymtab)" "0 \<le> c" "c < 2 ^ 24"
  shows "\<exists>k. ucs2keysym qsort memory c tab = Some (k, Some (qsort reverse_compare keysymtab)) \<and> keysym2ucs k = Some c"
  using assms by (rule ucs_back)

lemma unicode_roundtrip_witness:
  "\<exists>k. ucs2keysym (\<lambda>cmp. sort_key ucs) True 0x20ac None = Some (k, Some (sort_key ucs keysymtab)) \<and> keysym2ucs k = Some 0x20ac"
proof -
  have "sorts (\<lambda>cmp. sort_key ucs)"
    using sorted_sort_key[of ucs keysymtab] by (simp add: sorts_def reverse_compare_def sorted_map)
  then show ?thesis using unicode_roundtrip[of "\<lambda>cmp. sort_key ucs" None True "0x20ac"] by simp
qed

end
