(* ===== verification/XList.thy ===== *)
theory XList
  imports Prelude
begin

text \<open>
  The cons cells of the XQuartz back end (\<open>hw/.xquartz/xpr/x-list.c\<close>): lists on a heap of nodes that are taken
  from and returned to a free list. A pointer is a number, 0 is \<open>NULL\<close>; \<open>None\<close> is the access to a null or
  unallocated node, a failed assertion, or a loop over a cyclic list.
\<close>

section \<open>The heap\<close>

type_synonym ptr = nat

record x_list =
  data :: ptr
  link :: ptr

text \<open>
  \<open>brk\<close>: the first node that was never allocated. \<open>noMemory\<close> says of the next allocations whether they fail;
  when it is used up they succeed.
\<close>

record x_heap =
  cells :: "ptr \<Rightarrow> x_list option"
  freelist :: ptr
  brk :: nat
  noMemory :: "bool list"

definition NODES_PER_BLOCK :: nat where "NODES_PER_BLOCK = 508"

definition load :: "ptr \<Rightarrow> x_heap \<Rightarrow> x_list option" where
  "load p h = (if p = 0 then None else cells h p)"

definition store :: "ptr \<Rightarrow> x_list \<Rightarrow> x_heap \<Rightarrow> x_heap option" where
  "store p c h = (if p = 0 \<or> cells h p = None then None else Some (h\<lparr> cells := (cells h)(p \<mapsto> c) \<rparr>))"

definition set_next :: "ptr \<Rightarrow> ptr \<Rightarrow> x_heap \<Rightarrow> x_heap option" where
  "set_next p n h = do { c \<leftarrow> load p h; store p (c\<lparr> link := n \<rparr>) h }"

definition x_calloc :: "x_heap \<Rightarrow> bool \<times> x_heap" where
  "x_calloc h = (case noMemory h of [] \<Rightarrow> (True, h) | f # fs \<Rightarrow> (\<not> f, h\<lparr> noMemory := fs \<rparr>))"

section \<open>Allocation\<close>

definition x_list_free_1 :: "ptr \<Rightarrow> x_heap \<Rightarrow> x_heap option" where
  "x_list_free_1 node h = do { h \<leftarrow> set_next node (freelist h) h; Some (h\<lparr> freelist := node \<rparr>) }"

text \<open>A new block: its nodes in a row, the last one ends the free list.\<close>

definition new_block :: "x_heap \<Rightarrow> x_heap" where
  "new_block h =
     h\<lparr> cells := (\<lambda>a. if brk h \<le> a \<and> a < brk h + NODES_PER_BLOCK
                      then Some \<lparr> data = 0, link = (if Suc a = brk h + NODES_PER_BLOCK then 0 else Suc a) \<rparr>
                      else cells h a),
         freelist := brk h, brk := brk h + NODES_PER_BLOCK \<rparr>"

definition x_list_prepend :: "ptr \<Rightarrow> ptr \<Rightarrow> x_heap \<Rightarrow> (ptr \<times> x_heap) option" where
  "x_list_prepend lst d h =
     do { h \<leftarrow> (if freelist h = 0
                then case x_calloc h of (ok, h) \<Rightarrow> if ok then Some (new_block h) else None
                else Some h);
          let node = freelist h;
          c \<leftarrow> load node h;
          h \<leftarrow> store node \<lparr> data = d, link = lst \<rparr> (h\<lparr> freelist := link c \<rparr>);
          Some (node, h) }"

section \<open>Loops over a list\<close>

partial_function (option) x_list_free :: "ptr \<Rightarrow> x_heap \<Rightarrow> x_heap option" where
  "x_list_free lst h =
     (if lst = 0 then Some h
      else do { c \<leftarrow> load lst h; h \<leftarrow> x_list_free_1 lst h; x_list_free (link c) h })"

partial_function (option) last_node :: "ptr \<Rightarrow> x_heap \<Rightarrow> ptr option" where
  "last_node lst h = do { c \<leftarrow> load lst h; if link c = 0 then Some lst else last_node (link c) h }"

definition x_list_append :: "ptr \<Rightarrow> ptr \<Rightarrow> x_heap \<Rightarrow> (ptr \<times> x_heap) option" where
  "x_list_append lst d h =
     (if lst = 0 then x_list_prepend 0 d h
      else do { l \<leftarrow> last_node lst h;
                (n, h) \<leftarrow> x_list_prepend 0 d h;
                h \<leftarrow> set_next l n h;
                Some (lst, h) })"

partial_function (option) reverse_onto :: "ptr \<Rightarrow> ptr \<Rightarrow> x_heap \<Rightarrow> (ptr \<times> x_heap) option" where
  "reverse_onto lst head h =
     (if lst = 0 then Some (head, h)
      else do { c \<leftarrow> load lst h; h \<leftarrow> set_next lst head h; reverse_onto (link c) lst h })"

definition x_list_reverse :: "ptr \<Rightarrow> x_heap \<Rightarrow> (ptr \<times> x_heap) option" where
  "x_list_reverse lst h = reverse_onto lst 0 h"

partial_function (option) x_list_find :: "ptr \<Rightarrow> ptr \<Rightarrow> x_heap \<Rightarrow> ptr option" where
  "x_list_find lst d h =
     (if lst = 0 then Some 0
      else do { c \<leftarrow> load lst h; if data c = d then Some lst else x_list_find (link c) d h })"

fun nth_node :: "ptr \<Rightarrow> nat \<Rightarrow> x_heap \<Rightarrow> ptr option" where
  "nth_node lst 0 h = Some lst"
| "nth_node lst (Suc n) h = (if lst = 0 then Some lst else do { c \<leftarrow> load lst h; nth_node (link c) n h })"

definition x_list_nth :: "ptr \<Rightarrow> int \<Rightarrow> x_heap \<Rightarrow> ptr option" where
  "x_list_nth lst n h = nth_node lst (nat n) h"

text \<open>The rest of the list and the first element, \<open>NULL\<close> for an empty list.\<close>

definition x_list_pop :: "ptr \<Rightarrow> x_heap \<Rightarrow> (ptr \<times> ptr \<times> x_heap) option" where
  "x_list_pop lst h =
     (if lst = 0 then Some (0, 0, h)
      else do { c \<leftarrow> load lst h; h \<leftarrow> x_list_free_1 lst h; Some (link c, data c, h) })"

partial_function (option) filter_onto ::
  "(ptr \<Rightarrow> ptr \<Rightarrow> bool) \<Rightarrow> ptr \<Rightarrow> ptr \<Rightarrow> ptr \<Rightarrow> x_heap \<Rightarrow> (ptr \<times> x_heap) option" where
  "filter_onto pred user node ret h =
     (if node = 0 then Some (ret, h)
      else do { c \<leftarrow> load node h;
                (ret, h) \<leftarrow> (if pred (data c) user then x_list_prepend ret (data c) h else Some (ret, h));
                c \<leftarrow> load node h;
                filter_onto pred user (link c) ret h })"

definition x_list_filter :: "ptr \<Rightarrow> (ptr \<Rightarrow> ptr \<Rightarrow> bool) \<Rightarrow> ptr \<Rightarrow> x_heap \<Rightarrow> (ptr \<times> x_heap) option" where
  "x_list_filter lst pred user h = do { (ret, h) \<leftarrow> filter_onto pred user lst 0 h; x_list_reverse ret h }"

text \<open>The loop of \<open>x_list_map\<close> drops the result of every \<open>x_list_prepend\<close>.\<close>

partial_function (option) map_onto ::
  "(ptr \<Rightarrow> ptr \<Rightarrow> ptr) \<Rightarrow> ptr \<Rightarrow> ptr \<Rightarrow> ptr \<Rightarrow> x_heap \<Rightarrow> (ptr \<times> x_heap) option" where
  "map_onto f user node ret h =
     (if node = 0 then Some (ret, h)
      else do { c \<leftarrow> load node h;
                (_, h) \<leftarrow> x_list_prepend ret (f (data c) user) h;
                c \<leftarrow> load node h;
                map_onto f user (link c) ret h })"

definition x_list_map :: "ptr \<Rightarrow> (ptr \<Rightarrow> ptr \<Rightarrow> ptr) \<Rightarrow> ptr \<Rightarrow> x_heap \<Rightarrow> (ptr \<times> x_heap) option" where
  "x_list_map lst f user h = do { (ret, h) \<leftarrow> map_onto f user lst 0 h; x_list_reverse ret h }"

partial_function (option) copy_onto :: "ptr \<Rightarrow> ptr \<Rightarrow> x_heap \<Rightarrow> (ptr \<times> x_heap) option" where
  "copy_onto lst copy h =
     (if lst = 0 then Some (copy, h)
      else do { c \<leftarrow> load lst h;
                (copy, h) \<leftarrow> x_list_prepend copy (data c) h;
                c \<leftarrow> load lst h;
                copy_onto (link c) copy h })"

definition x_list_copy :: "ptr \<Rightarrow> x_heap \<Rightarrow> (ptr \<times> x_heap) option" where
  "x_list_copy lst h = do { (copy, h) \<leftarrow> copy_onto lst 0 h; x_list_reverse copy h }"

text \<open>
  \<open>ptr\<close> points to the variable \<open>lst\<close>, here \<open>prev = 0\<close>, or to the link of a node, \<open>prev\<close>.
\<close>

partial_function (option) remove_from :: "ptr \<Rightarrow> ptr \<Rightarrow> ptr \<Rightarrow> x_heap \<Rightarrow> (ptr \<times> x_heap) option" where
  "remove_from d lst prev h =
     do { node \<leftarrow> (if prev = 0 then Some lst else do { c \<leftarrow> load prev h; Some (link c) });
          if node = 0 then Some (lst, h)
          else do { c \<leftarrow> load node h;
                    if data c = d then
                      do { h \<leftarrow> (if prev = 0 then Some h else set_next prev (link c) h);
                           h \<leftarrow> x_list_free_1 node h;
                           remove_from d (if prev = 0 then link c else lst) prev h }
                    else remove_from d lst node h } }"

definition x_list_remove :: "ptr \<Rightarrow> ptr \<Rightarrow> x_heap \<Rightarrow> (ptr \<times> x_heap) option" where
  "x_list_remove lst d h = remove_from d lst 0 h"

partial_function (option) count_nodes :: "ptr \<Rightarrow> u32 \<Rightarrow> x_heap \<Rightarrow> u32 option" where
  "count_nodes lst n h = (if lst = 0 then Some n else do { c \<leftarrow> load lst h; count_nodes (link c) (n + 1) h })"

definition x_list_length :: "ptr \<Rightarrow> x_heap \<Rightarrow> u32 option" where
  "x_list_length lst h = count_nodes lst 0 h"

text \<open>The called function changes a state of the client.\<close>

partial_function (option) x_list_foreach :: "(ptr \<Rightarrow> ptr \<Rightarrow> 's \<Rightarrow> 's) \<Rightarrow> ptr \<Rightarrow> ptr \<Rightarrow> x_heap \<Rightarrow> 's \<Rightarrow> 's option" where
  "x_list_foreach f user lst h s =
     (if lst = 0 then Some s else do { c \<leftarrow> load lst h; x_list_foreach f user (link c) h (f (data c) user s) })"

section \<open>Sorting\<close>

text \<open>The loop of the merge: \<open>out\<close> is the last node of the result, which the smaller head is linked to.\<close>

partial_function (option) merge_onto ::
  "(ptr \<Rightarrow> ptr \<Rightarrow> bool) \<Rightarrow> ptr \<Rightarrow> ptr \<Rightarrow> ptr \<Rightarrow> x_heap \<Rightarrow> x_heap option" where
  "merge_onto lt out lst mid h =
     (if lst \<noteq> 0 \<and> mid \<noteq> 0 then
        do { l \<leftarrow> load lst h; m \<leftarrow> load mid h;
             if lt (data m) (data l)
             then do { h \<leftarrow> set_next out mid h; m \<leftarrow> load mid h; merge_onto lt mid lst (link m) h }
             else do { h \<leftarrow> set_next out lst h; l \<leftarrow> load lst h; merge_onto lt lst (link l) mid h } }
      else set_next out (if lst \<noteq> 0 then lst else mid) h)"

definition merge_nodes :: "(ptr \<Rightarrow> ptr \<Rightarrow> bool) \<Rightarrow> ptr \<Rightarrow> ptr \<Rightarrow> x_heap \<Rightarrow> (ptr \<times> x_heap) option" where
  "merge_nodes lt lst mid h =
     do { l \<leftarrow> load lst h; m \<leftarrow> load mid h;
          if lt (data m) (data l)
          then do { h \<leftarrow> merge_onto lt mid lst (link m) h; Some (mid, h) }
          else do { h \<leftarrow> merge_onto lt lst (link l) mid h; Some (lst, h) } }"

text \<open>The nodes before the middle: \<open>ptr\<close> after \<open>i\<close> steps.\<close>

fun walk :: "nat \<Rightarrow> ptr \<Rightarrow> x_heap \<Rightarrow> ptr option" where
  "walk 0 p h = Some p"
| "walk (Suc i) p h = do { c \<leftarrow> load p h; walk i (link c) h }"

function list_sort_1 :: "(ptr \<Rightarrow> ptr \<Rightarrow> bool) \<Rightarrow> ptr \<Rightarrow> nat \<Rightarrow> x_heap \<Rightarrow> (ptr \<times> x_heap) option" where
  "list_sort_1 lt lst len h =
     (if len < 2 then Some (lst, h)
      else do { p \<leftarrow> walk (len div 2 - 1) lst h;
                c \<leftarrow> load p h;
                h \<leftarrow> set_next p 0 h;
                (lst, h) \<leftarrow> list_sort_1 lt lst (len div 2) h;
                (mid, h) \<leftarrow> list_sort_1 lt (link c) (len - len div 2) h;
                if lst = 0 \<or> mid = 0 then None else merge_nodes lt lst mid h })"
  by pat_completeness auto
termination
  by (relation "measure (\<lambda>(lt, lst, len, h). len)") auto

declare list_sort_1.simps [simp del]

text \<open>The length is an \<open>int\<close>: above its range it is negative and nothing is sorted.\<close>

definition x_list_sort :: "(ptr \<Rightarrow> ptr \<Rightarrow> bool) \<Rightarrow> ptr \<Rightarrow> x_heap \<Rightarrow> (ptr \<times> x_heap) option" where
  "x_list_sort lt lst h = do { n \<leftarrow> x_list_length lst h; list_sort_1 lt lst (nat (sint n)) h }"

end
