(* ===== verification/XHash.thy ===== *)
theory XHash
  imports XList
begin

text \<open>
  The hash tables of the XQuartz back end (\<open>hw/.xquartz/xpr/x-hash.c\<close>). They keep their elements in cons cells:
  an item's value is the data of its cell and its key the link; the list nodes of a bucket point to the items. The client's functions are arguments; those that destroy act on a state of the client.
\<close>

section \<open>The table\<close>

record 's x_hash_table =
  bucket_index :: nat
  total_keys :: u32
  buckets :: "ptr list"
  hash_key :: "(ptr \<Rightarrow> u32) option"
  compare_keys :: "(ptr \<Rightarrow> ptr \<Rightarrow> int) option"
  destroy_key :: "(ptr \<Rightarrow> 's \<Rightarrow> 's) option"
  destroy_value :: "(ptr \<Rightarrow> 's \<Rightarrow> 's) option"

definition SPLIT_THRESHOLD_FACTOR :: u32 where "SPLIT_THRESHOLD_FACTOR = 2"

definition bucket_sizes :: "nat list" where
  "bucket_sizes =
     [29, 53, 97, 193, 389, 769, 1543, 3079, 6151, 12289, 24593, 49157, 98317, 196613, 393241, 786433, 1572869, 3145739,
      6291469, 12582917, 25165843, 50331653, 100663319, 201326611, 402653189, 805306457, 1610612741]"

definition hash_table_total_buckets :: "'s x_hash_table \<Rightarrow> nat" where
  "hash_table_total_buckets t = bucket_sizes ! bucket_index t"

definition hash_table_destroy_item :: "'s x_hash_table \<Rightarrow> ptr \<Rightarrow> ptr \<Rightarrow> 's \<Rightarrow> 's" where
  "hash_table_destroy_item t k v s =
     (let s = (case destroy_key t of Some f \<Rightarrow> f k s | None \<Rightarrow> s)
      in case destroy_value t of Some f \<Rightarrow> f v s | None \<Rightarrow> s)"

definition hash_table_hash_key :: "'s x_hash_table \<Rightarrow> ptr \<Rightarrow> nat" where
  "hash_table_hash_key t k = (case hash_key t of Some f \<Rightarrow> unat (f k) | None \<Rightarrow> k)"

definition hash_table_compare_keys :: "'s x_hash_table \<Rightarrow> ptr \<Rightarrow> ptr \<Rightarrow> bool" where
  "hash_table_compare_keys t k1 k2 = (case compare_keys t of None \<Rightarrow> k1 = k2 | Some f \<Rightarrow> f k1 k2 = 0)"

section \<open>Growing\<close>

text \<open>The nodes of one old bucket move to the new ones.\<close>

partial_function (option) split_bucket ::
  "'s x_hash_table \<Rightarrow> nat \<Rightarrow> ptr \<Rightarrow> ptr list \<Rightarrow> x_heap \<Rightarrow> (ptr list \<times> x_heap) option" where
  "split_bucket t new_size node new h =
     (if node = 0 then Some (new, h)
      else do { c \<leftarrow> load node h;
                item \<leftarrow> load (data c) h;
                let b = hash_table_hash_key t (link item) mod new_size;
                h \<leftarrow> set_next node (new ! b) h;
                split_bucket t new_size (link c) (new[b := node]) h })"

fun split_buckets :: "'s x_hash_table \<Rightarrow> nat \<Rightarrow> ptr list \<Rightarrow> ptr list \<Rightarrow> x_heap \<Rightarrow> (ptr list \<times> x_heap) option" where
  "split_buckets t new_size [] new h = Some (new, h)"
| "split_buckets t new_size (p # old) new h =
     do { (new, h) \<leftarrow> split_bucket t new_size p new h; split_buckets t new_size old new h }"

text \<open>Without memory for the new buckets, and at the largest size, the table stays as it is.\<close>

definition hash_table_split :: "'s x_hash_table \<Rightarrow> x_heap \<Rightarrow> ('s x_hash_table \<times> x_heap) option" where
  "hash_table_split t h =
     (if bucket_index t = length bucket_sizes - 1 then Some (t, h)
      else let new_size = bucket_sizes ! Suc (bucket_index t)
           in case x_calloc h of (ok, h) \<Rightarrow>
                if \<not> ok then Some (t, h)
                else do { (new, h) \<leftarrow> split_buckets t new_size (buckets t) (replicate new_size 0) h;
                          Some (t\<lparr> bucket_index := Suc (bucket_index t), buckets := new \<rparr>, h) })"

section \<open>Creation and destruction\<close>

definition x_hash_table_new ::
  "(ptr \<Rightarrow> u32) option \<Rightarrow> (ptr \<Rightarrow> ptr \<Rightarrow> int) option \<Rightarrow> (ptr \<Rightarrow> 's \<Rightarrow> 's) option \<Rightarrow> (ptr \<Rightarrow> 's \<Rightarrow> 's) option
    \<Rightarrow> x_heap \<Rightarrow> 's x_hash_table option \<times> x_heap" where
  "x_hash_table_new hash compare key_destroy value_destroy h =
     (case x_calloc h of (ok, h) \<Rightarrow>
        if \<not> ok then (None, h)
        else case x_calloc h of (ok, h) \<Rightarrow>
          if \<not> ok then (None, h)
          else (Some \<lparr> bucket_index = 0, total_keys = 0, buckets = replicate (bucket_sizes ! 0) 0, hash_key = hash,
                      compare_keys = compare, destroy_key = key_destroy, destroy_value = value_destroy \<rparr>, h))"

partial_function (option) free_items :: "'s x_hash_table \<Rightarrow> ptr \<Rightarrow> x_heap \<Rightarrow> 's \<Rightarrow> (x_heap \<times> 's) option" where
  "free_items t node h s =
     (if node = 0 then Some (h, s)
      else do { c \<leftarrow> load node h;
                item \<leftarrow> load (data c) h;
                let s = hash_table_destroy_item t (link item) (data item) s;
                h \<leftarrow> x_list_free_1 (data c) h;
                c \<leftarrow> load node h;
                free_items t (link c) h s })"

fun free_buckets :: "'s x_hash_table \<Rightarrow> ptr list \<Rightarrow> x_heap \<Rightarrow> 's \<Rightarrow> (x_heap \<times> 's) option" where
  "free_buckets t [] h s = Some (h, s)"
| "free_buckets t (p # ps) h s =
     do { (h, s) \<leftarrow> free_items t p h s; h \<leftarrow> x_list_free p h; free_buckets t ps h s }"

definition x_hash_table_free :: "'s x_hash_table \<Rightarrow> x_heap \<Rightarrow> 's \<Rightarrow> (x_heap \<times> 's) option" where
  "x_hash_table_free t h s = free_buckets t (buckets t) h s"

definition x_hash_table_size :: "'s x_hash_table \<Rightarrow> u32" where
  "x_hash_table_size t = total_keys t"

section \<open>Lookup and change\<close>

text \<open>The first item of a bucket with the key, 0 when there is none.\<close>

partial_function (option) find_item :: "'s x_hash_table \<Rightarrow> ptr \<Rightarrow> ptr \<Rightarrow> x_heap \<Rightarrow> ptr option" where
  "find_item t k node h =
     (if node = 0 then Some 0
      else do { c \<leftarrow> load node h;
                item \<leftarrow> load (data c) h;
                if hash_table_compare_keys t (link item) k then Some (data c) else find_item t k (link c) h })"

definition hash_table_modify ::
  "'s x_hash_table \<Rightarrow> ptr \<Rightarrow> ptr \<Rightarrow> bool \<Rightarrow> x_heap \<Rightarrow> 's \<Rightarrow> ('s x_hash_table \<times> x_heap \<times> 's) option" where
  "hash_table_modify t k v replace h s =
     do { let hash_value = hash_table_hash_key t k;
          item \<leftarrow> find_item t k (buckets t ! (hash_value mod hash_table_total_buckets t)) h;
          if item \<noteq> 0 then
            do { i \<leftarrow> load item h;
                 if replace then
                   do { let s = hash_table_destroy_item t (link i) (data i) s;
                        h \<leftarrow> store item \<lparr> data = v, link = k \<rparr> h;
                        Some (t, h, s) }
                 else
                   do { let s = hash_table_destroy_item t k (data i) s;
                        h \<leftarrow> store item (i\<lparr> data := v \<rparr>) h;
                        Some (t, h, s) } }
          else
            do { (t, h) \<leftarrow> (if total_keys t + 1 > of_nat (hash_table_total_buckets t) * SPLIT_THRESHOLD_FACTOR
                          then hash_table_split t h else Some (t, h));
                 let b = hash_value mod hash_table_total_buckets t;
                 (item, h) \<leftarrow> x_list_prepend k v h;
                 (node, h) \<leftarrow> x_list_prepend (buckets t ! b) item h;
                 Some (t\<lparr> buckets := (buckets t)[b := node], total_keys := total_keys t + 1 \<rparr>, h, s) } }"

definition x_hash_table_insert where
  "x_hash_table_insert t k v h s = hash_table_modify t k v False h s"

definition x_hash_table_replace where
  "x_hash_table_replace t k v h s = hash_table_modify t k v True h s"

text \<open>\<open>ptr\<close> points into the array, here \<open>prev = 0\<close>, or to the link of the node \<open>prev\<close>.\<close>

partial_function (option) remove_item ::
  "ptr \<Rightarrow> nat \<Rightarrow> ptr \<Rightarrow> 's x_hash_table \<Rightarrow> x_heap \<Rightarrow> 's \<Rightarrow> ('s x_hash_table \<times> x_heap \<times> 's) option" where
  "remove_item k b prev t h s =
     do { node \<leftarrow> (if prev = 0 then Some (buckets t ! b) else do { c \<leftarrow> load prev h; Some (link c) });
          if node = 0 then Some (t, h, s)
          else do { c \<leftarrow> load node h;
                    item \<leftarrow> load (data c) h;
                    if hash_table_compare_keys t (link item) k then
                      do { let s = hash_table_destroy_item t (link item) (data item) s;
                           h \<leftarrow> x_list_free_1 (data c) h;
                           c \<leftarrow> load node h;
                           (t, h) \<leftarrow> (if prev = 0 then Some (t\<lparr> buckets := (buckets t)[b := link c] \<rparr>, h)
                                     else do { h \<leftarrow> set_next prev (link c) h; Some (t, h) });
                           h \<leftarrow> x_list_free_1 node h;
                           Some (t\<lparr> total_keys := total_keys t - 1 \<rparr>, h, s) }
                    else remove_item k b node t h s } }"

definition x_hash_table_remove :: "'s x_hash_table \<Rightarrow> ptr \<Rightarrow> x_heap \<Rightarrow> 's \<Rightarrow> ('s x_hash_table \<times> x_heap \<times> 's) option" where
  "x_hash_table_remove t k h s = remove_item k (hash_table_hash_key t k mod hash_table_total_buckets t) 0 t h s"

text \<open>The value and the stored key, \<open>NULL\<close> twice when there is none.\<close>

definition x_hash_table_lookup :: "'s x_hash_table \<Rightarrow> ptr \<Rightarrow> x_heap \<Rightarrow> (ptr \<times> ptr) option" where
  "x_hash_table_lookup t k h =
     do { item \<leftarrow> find_item t k (buckets t ! (hash_table_hash_key t k mod hash_table_total_buckets t)) h;
          if item = 0 then Some (0, 0) else do { i \<leftarrow> load item h; Some (data i, link i) } }"

partial_function (option) foreach_item :: "(ptr \<Rightarrow> ptr \<Rightarrow> ptr \<Rightarrow> 'c \<Rightarrow> 'c) \<Rightarrow> ptr \<Rightarrow> ptr \<Rightarrow> x_heap \<Rightarrow> 'c \<Rightarrow> 'c option" where
  "foreach_item f user node h s =
     (if node = 0 then Some s
      else do { c \<leftarrow> load node h; item \<leftarrow> load (data c) h; foreach_item f user (link c) h (f (link item) (data item) user s) })"

fun foreach_bucket :: "(ptr \<Rightarrow> ptr \<Rightarrow> ptr \<Rightarrow> 'c \<Rightarrow> 'c) \<Rightarrow> ptr \<Rightarrow> ptr list \<Rightarrow> x_heap \<Rightarrow> 'c \<Rightarrow> 'c option" where
  "foreach_bucket f user [] h s = Some s"
| "foreach_bucket f user (p # ps) h s = do { s \<leftarrow> foreach_item f user p h s; foreach_bucket f user ps h s }"

definition x_hash_table_foreach ::
  "'s x_hash_table \<Rightarrow> (ptr \<Rightarrow> ptr \<Rightarrow> ptr \<Rightarrow> 'c \<Rightarrow> 'c) \<Rightarrow> ptr \<Rightarrow> x_heap \<Rightarrow> 'c \<Rightarrow> 'c option" where
  "x_hash_table_foreach t f user h s = foreach_bucket f user (buckets t) h s"

end
