(* ===== verification/XListInv.thy ===== *)
theory XListInv
  imports XList "HOL-Library.Multiset"
begin

text \<open>
  Lists as sequences of nodes on the heap of cons cells, the allocator as a set of live nodes, and what every
  list operation does to both.
\<close>

section \<open>Paths\<close>

fun path :: "x_heap \<Rightarrow> ptr \<Rightarrow> nat list \<Rightarrow> ptr \<Rightarrow> bool" where
  "path h p [] q \<longleftrightarrow> p = q"
| "path h p (a # as) q \<longleftrightarrow> p = a \<and> a \<noteq> 0 \<and> (\<exists>c. cells h a = Some c \<and> path h (link c) as q)"

abbreviation chain :: "x_heap \<Rightarrow> ptr \<Rightarrow> nat list \<Rightarrow> bool" where
  "chain h p ns \<equiv> path h p ns 0"

definition data_at :: "x_heap \<Rightarrow> nat \<Rightarrow> ptr" where
  "data_at h a = (case cells h a of Some c \<Rightarrow> data c | None \<Rightarrow> 0)"

definition vals :: "x_heap \<Rightarrow> nat list \<Rightarrow> ptr list" where
  "vals h ns = map (data_at h) ns"

lemma vals_simps [simp]:
  "vals h [] = []" "vals h (a # as) = data_at h a # vals h as" "vals h (as @ bs) = vals h as @ vals h bs"
  "vals h (rev as) = rev (vals h as)" "length (vals h as) = length as"
  by (simp_all add: vals_def rev_map)

lemma path_append: "path h p (as @ bs) q \<longleftrightarrow> (\<exists>r. path h p as r \<and> path h r bs q)"
  by (induction as arbitrary: p) auto

lemma path_frame:
  assumes "\<forall>a \<in> set ns. cells h' a = cells h a"
  shows "path h' p ns q = path h p ns q"
  using assms by (induction ns arbitrary: p) auto

lemma vals_frame: "\<forall>a \<in> set ns. cells h' a = cells h a \<Longrightarrow> vals h' ns = vals h ns"
  by (simp add: vals_def data_at_def)

lemma chain_cases:
  assumes "chain h p ns"
  shows "p = 0 \<longleftrightarrow> ns = []"
  using assms by (cases ns) auto

lemma chain_unique: "chain h p as \<Longrightarrow> chain h p bs \<Longrightarrow> as = bs"
proof (induction as arbitrary: p bs)
  case Nil
  then show ?case by (cases bs) auto
next
  case (Cons a as)
  then show ?case by (cases bs) auto
qed

lemma chain_distinct: "chain h p ns \<Longrightarrow> distinct ns"
proof (induction ns arbitrary: p)
  case (Cons a as)
  then obtain c where c: "cells h a = Some c" "chain h (link c) as" by auto
  have "a \<notin> set as"
  proof
    assume "a \<in> set as"
    then obtain xs ys where s: "as = xs @ a # ys" by (auto dest: split_list)
    then have "chain h a (a # ys)" using c(2) by (auto simp: path_append)
    moreover have "chain h a (a # as)" using Cons.prems by auto
    ultimately have "a # ys = a # as" by (rule chain_unique)
    then show False using s by simp
  qed
  then show ?case using Cons.IH c(2) by simp
qed simp

lemma path_mapped: "path h p ns q \<Longrightarrow> a \<in> set ns \<Longrightarrow> \<exists>c. cells h a = Some c \<and> a \<noteq> 0"
  by (induction ns arbitrary: p) auto

lemma data_at_simps: "cells h a = Some c \<Longrightarrow> data_at h a = data c"
  by (simp add: data_at_def)

section \<open>The allocator\<close>

text \<open>The allocated nodes are the free ones and the live ones, \<open>L\<close>.\<close>

definition live :: "x_heap \<Rightarrow> nat set \<Rightarrow> bool" where
  "live h L \<longleftrightarrow> 0 < brk h \<and> (\<forall>a \<in> dom (cells h). 0 < a \<and> a < brk h)
     \<and> (\<exists>fs. chain h (freelist h) fs \<and> set fs \<inter> L = {} \<and> set fs \<union> L = dom (cells h))"

text \<open>Nothing else of the live nodes changes.\<close>

definition same_on :: "nat set \<Rightarrow> x_heap \<Rightarrow> x_heap \<Rightarrow> bool" where
  "same_on A h h' \<longleftrightarrow> (\<forall>a \<in> A. cells h' a = cells h a) \<and> noMemory h' = noMemory h"

lemma same_on_refl [simp]: "same_on A h h"
  by (simp add: same_on_def)

lemma same_on_trans: "same_on A h h' \<Longrightarrow> same_on B h' h'' \<Longrightarrow> C \<subseteq> A \<Longrightarrow> C \<subseteq> B \<Longrightarrow> same_on C h h''"
  by (auto simp: same_on_def subset_iff)

lemma same_on_path: "same_on A h h' \<Longrightarrow> set ns \<subseteq> A \<Longrightarrow> path h' p ns q = path h p ns q"
  by (rule path_frame) (auto simp: same_on_def)

lemma same_on_vals: "same_on A h h' \<Longrightarrow> set ns \<subseteq> A \<Longrightarrow> vals h' ns = vals h ns"
  by (rule vals_frame) (auto simp: same_on_def)

lemma same_on_cell: "same_on A h h' \<Longrightarrow> a \<in> A \<Longrightarrow> cells h' a = cells h a"
  by (simp add: same_on_def)

lemma live_mapped:
  assumes "live h L" "a \<in> L"
  shows "a \<noteq> 0 \<and> (\<exists>c. cells h a = Some c)"
proof -
  have "a \<in> dom (cells h)" using assms unfolding live_def by blast
  then show ?thesis using assms(1) unfolding live_def by auto
qed

lemma load_live: "live h L \<Longrightarrow> a \<in> L \<Longrightarrow> cells h a = Some c \<Longrightarrow> load a h = Some c"
  by (auto simp: load_def dest: live_mapped)

lemma store_ok:
  assumes "live h L" "a \<in> L"
  shows "\<exists>h'. store a c h = Some h' \<and> live h' L \<and> cells h' a = Some c \<and> same_on (L - {a}) h h'"
proof -
  let ?h = "h\<lparr> cells := (cells h)(a \<mapsto> c) \<rparr>"
  obtain fs where fs: "chain h (freelist h) fs" "set fs \<inter> L = {}" "set fs \<union> L = dom (cells h)"
    using assms(1) by (auto simp: live_def)
  have "\<forall>x \<in> set fs. cells ?h x = cells h x" using fs(2) assms(2) by auto
  then have "chain ?h (freelist h) fs" using fs(1) by (simp only: path_frame)
  moreover have "dom (cells ?h) = dom (cells h)" using live_mapped[OF assms] by auto
  ultimately have "live ?h L" using assms(1) fs(2,3) unfolding live_def by auto
  then show ?thesis using live_mapped[OF assms] by (auto simp: store_def same_on_def)
qed

lemma set_next_ok:
  assumes "live h L" "a \<in> L" "cells h a = Some c"
  shows "\<exists>h'. set_next a n h = Some h' \<and> live h' L \<and> cells h' a = Some (c\<lparr> link := n \<rparr>) \<and> same_on (L - {a}) h h'"
  using store_ok[OF assms(1,2)] load_live[OF assms] by (simp add: set_next_def)

lemma free_node_ok:
  assumes "live h L" "a \<in> L"
  shows "\<exists>h'. x_list_free_1 a h = Some h' \<and> live h' (L - {a}) \<and> same_on (L - {a}) h h'"
proof -
  obtain c where c: "cells h a = Some c" "a \<noteq> 0" using live_mapped[OF assms] by blast
  let ?h = "h\<lparr> cells := (cells h)(a \<mapsto> c\<lparr> link := freelist h \<rparr>), freelist := a \<rparr>"
  obtain fs where fs: "chain h (freelist h) fs" "set fs \<inter> L = {}" "set fs \<union> L = dom (cells h)"
    using assms(1) by (auto simp: live_def)
  have "\<forall>x \<in> set fs. cells ?h x = cells h x" using fs(2) assms(2) by auto
  then have "chain ?h (freelist h) fs" using fs(1) by (simp only: path_frame)
  then have "chain ?h a (a # fs)" using c(2) by simp
  moreover have "dom (cells ?h) = dom (cells h)" using c(1) by auto
  moreover have "set (a # fs) \<inter> (L - {a}) = {}" "set (a # fs) \<union> (L - {a}) = dom (cells h)"
    using fs(2,3) assms(2) by auto
  ultimately have "live ?h (L - {a})" using assms(1) unfolding live_def by (intro conjI exI[of _ "a # fs"]) simp_all
  then show ?thesis using c by (auto simp: x_list_free_1_def set_next_def load_def store_def same_on_def)
qed

lemma new_block_chain:
  assumes "0 < brk h"
  shows "chain (new_block h) (brk h) [brk h..<brk h + 508]"
proof -
  have "chain (new_block h) (brk h + i) [brk h + i..<brk h + 508]" if "i < 508" for i
    using that
  proof (induction "508 - i" arbitrary: i rule: less_induct)
    case less
    let ?a = "brk h + i"
    have c: "cells (new_block h) ?a = Some \<lparr> data = 0, link = (if Suc ?a = brk h + 508 then 0 else Suc ?a) \<rparr>"
      using less.prems by (simp add: new_block_def NODES_PER_BLOCK_def)
    have u: "[?a..<brk h + 508] = ?a # [Suc ?a..<brk h + 508]" using less.prems by (simp add: upt_conv_Cons)
    show ?case
    proof (cases "Suc i = 508")
      case True
      then show ?thesis using c u assms by simp
    next
      case False
      then have "chain (new_block h) (brk h + Suc i) [brk h + Suc i..<brk h + 508]"
        using less.prems by (intro less.hyps) auto
      then show ?thesis using c u assms False by simp
    qed
  qed
  from this[of 0] show ?thesis by simp
qed

lemma new_block_ok:
  assumes "live h L" "freelist h = 0"
  shows "live (new_block h) L \<and> freelist (new_block h) \<noteq> 0 \<and> same_on L h (new_block h)"
proof -
  obtain fs where fs: "chain h (freelist h) fs" "set fs \<union> L = dom (cells h)" using assms(1) unfolding live_def by blast
  then have L: "L = dom (cells h)" using assms(2) chain_cases[OF fs(1)] by simp
  have b: "0 < brk h" "\<forall>a \<in> dom (cells h). 0 < a \<and> a < brk h" using assms(1) unfolding live_def by blast+
  have dom: "dom (cells (new_block h)) = {brk h..<brk h + 508} \<union> L"
    unfolding L by (auto simp: new_block_def NODES_PER_BLOCK_def split: if_splits)
  have "chain (new_block h) (freelist (new_block h)) [brk h..<brk h + 508]"
    using new_block_chain[OF b(1)] by (simp add: new_block_def)
  moreover have below: "0 < x \<and> x < brk h" if "x \<in> L" for x using b(2) that unfolding L by blast
  then have "{brk h..<brk h + 508} \<inter> L = {}" by fastforce
  moreover have "brk (new_block h) = brk h + 508" by (simp add: new_block_def NODES_PER_BLOCK_def)
  then have "\<forall>a \<in> dom (cells (new_block h)). 0 < a \<and> a < brk (new_block h)"
    unfolding dom using b(1) below by fastforce
  ultimately have "live (new_block h) L"
    using b(1) dom unfolding live_def by (intro conjI exI[of _ "[brk h..<brk h + 508]"]) (simp_all add: new_block_def)
  moreover have "same_on L h (new_block h)"
    unfolding same_on_def by (auto simp: new_block_def dest: below)
  ultimately show ?thesis using b(1) by (simp add: new_block_def)
qed

lemma take_node:
  assumes "live h L" "freelist h \<noteq> 0"
  shows "\<exists>c h'. load (freelist h) h = Some c \<and> store (freelist h) x (h\<lparr> freelist := link c \<rparr>) = Some h'
    \<and> freelist h \<notin> L \<and> live h' (insert (freelist h) L) \<and> cells h' (freelist h) = Some x \<and> same_on L h h'"
proof -
  let ?a = "freelist h"
  obtain fs where fs: "chain h ?a fs" "set fs \<inter> L = {}" "set fs \<union> L = dom (cells h)"
    using assms(1) by (auto simp: live_def)
  then obtain gs where gs: "fs = ?a # gs" using assms(2) by (cases fs) auto
  then obtain c where c: "cells h ?a = Some c" "chain h (link c) gs" using fs(1) by auto
  let ?h = "h\<lparr> freelist := link c, cells := (cells h)(?a \<mapsto> x) \<rparr>"
  have n: "?a \<notin> set gs" using chain_distinct[OF fs(1)] unfolding gs by simp
  have "?a \<notin> L" using fs(2) gs by auto
  moreover have "\<forall>x \<in> set gs. cells ?h x = cells h x" using n by auto
  then have "chain ?h (link c) gs" using c(2) by (simp only: path_frame)
  moreover have "dom (cells ?h) = dom (cells h)" using c(1) by auto
  moreover have "set gs \<inter> insert ?a L = {}" "set gs \<union> insert ?a L = dom (cells h)" using fs(2,3) n gs by auto
  ultimately have "live ?h (insert ?a L)" using assms(1) unfolding live_def by (intro conjI exI[of _ gs]) simp_all
  then show ?thesis
    using c assms(2) \<open>?a \<notin> L\<close> by (intro exI[of _ c] exI[of _ ?h]) (auto simp: load_def store_def same_on_def)
qed

lemma prepend_ok:
  assumes "live h L" "noMemory h = []"
  shows "\<exists>n h'. x_list_prepend lst d h = Some (n, h') \<and> n \<notin> L \<and> n \<noteq> 0 \<and> live h' (insert n L)
    \<and> cells h' n = Some \<lparr> data = d, link = lst \<rparr> \<and> same_on L h h'"
proof -
  define g where "g = (if freelist h = 0 then new_block h else h)"
  have g: "live g L" "freelist g \<noteq> 0" "same_on L h g"
    using new_block_ok[OF assms(1)] assms(1) by (simp_all add: g_def)
  obtain c h' where h': "load (freelist g) g = Some c"
    "store (freelist g) \<lparr> data = d, link = lst \<rparr> (g\<lparr> freelist := link c \<rparr>) = Some h'"
    "freelist g \<notin> L" "live h' (insert (freelist g) L)" "cells h' (freelist g) = Some \<lparr> data = d, link = lst \<rparr>" "same_on L g h'"
    using take_node[OF g(1,2)] by blast
  have "(if freelist h = 0 then case x_calloc h of (ok, h) \<Rightarrow> if ok then Some (new_block h) else None else Some h) = Some g"
    using assms(2) by (simp add: x_calloc_def g_def)
  then have "x_list_prepend lst d h = Some (freelist g, h')"
    using h'(1,2) by (simp add: x_list_prepend_def Let_def)
  moreover have "same_on L h h'" using g(3) h'(6) by (rule same_on_trans) simp_all
  ultimately show ?thesis using h' g(2) by blast
qed

end
