(* ===== verification/XListSpec.thy ===== *)
theory XListSpec
  imports XListInv
begin

text \<open>
  Every list operation of the XQuartz back end on a list of live nodes: what it returns, which nodes it takes
  or gives back, and that the other lists are left alone. Sorting is the stable sort of the library.
\<close>

section \<open>Reading a list\<close>

lemma load_path: "path h p (a # as) q \<Longrightarrow> \<exists>c. load p h = Some c \<and> p = a \<and> p \<noteq> 0 \<and> cells h a = Some c \<and> path h (link c) as q"
  by (auto simp: load_def)

lemma find_list:
  assumes "chain h p ns"
  shows "x_list_find p d h = Some (case find (\<lambda>a. data_at h a = d) ns of Some a \<Rightarrow> a | None \<Rightarrow> 0)"
  using assms
proof (induction ns arbitrary: p)
  case Nil
  then show ?case by (subst x_list_find.simps) simp
next
  case (Cons a as)
  then obtain c where "load p h = Some c" "p = a" "p \<noteq> 0" "cells h a = Some c" "path h (link c) as 0"
    using load_path by blast
  then show ?case using Cons.IH by (subst x_list_find.simps) (simp add: data_at_def)
qed

lemma nth_list:
  assumes "chain h p ns"
  shows "nth_node p n h = Some (if n < length ns then ns ! n else 0)"
  using assms
proof (induction n arbitrary: p ns)
  case 0
  then show ?case by (cases ns) auto
next
  case (Suc n)
  then show ?case by (cases ns) (auto simp: load_def)
qed

lemma count_list:
  assumes "chain h p ns"
  shows "count_nodes p n h = Some (n + of_nat (length ns))"
  using assms
proof (induction ns arbitrary: p n)
  case Nil
  then show ?case by (subst count_nodes.simps) simp
next
  case (Cons a as)
  then obtain c where "load p h = Some c" "p = a" "p \<noteq> 0" "cells h a = Some c" "path h (link c) as 0"
    using load_path by blast
  then show ?case using Cons.IH by (subst count_nodes.simps) (simp add: algebra_simps)
qed

lemma foreach_list:
  assumes "chain h p ns"
  shows "x_list_foreach f user p h s = Some (fold (\<lambda>d. f d user) (vals h ns) s)"
  using assms
proof (induction ns arbitrary: p s)
  case Nil
  then show ?case by (subst x_list_foreach.simps) simp
next
  case (Cons a as)
  then obtain c where "load p h = Some c" "p = a" "p \<noteq> 0" "cells h a = Some c" "path h (link c) as 0"
    using load_path by blast
  then show ?case using Cons.IH by (subst x_list_foreach.simps) (simp add: data_at_def)
qed

lemma last_list:
  assumes "path h p (as @ [a]) 0"
  shows "last_node p h = Some a"
  using assms
proof (induction as arbitrary: p)
  case Nil
  then show ?case by (subst last_node.simps) (auto simp: load_def)
next
  case (Cons b as)
  then obtain c where "load p h = Some c" "p = b" "p \<noteq> 0" "path h (link c) (as @ [a]) 0"
    using load_path by fastforce
  moreover from this have "link c \<noteq> 0" by (cases as) auto
  ultimately show ?case using Cons.IH by (subst last_node.simps) simp
qed

section \<open>Giving nodes back\<close>

lemma free_list:
  assumes "live h L" "chain h p ns" "set ns \<subseteq> L"
  shows "\<exists>h'. x_list_free p h = Some h' \<and> live h' (L - set ns) \<and> same_on (L - set ns) h h'"
  using assms
proof (induction ns arbitrary: p h L)
  case Nil
  then show ?case by (subst x_list_free.simps) simp
next
  case (Cons a as)
  then obtain c where c: "load p h = Some c" "p = a" "p \<noteq> 0" "cells h a = Some c" "path h (link c) as 0"
    using load_path by blast
  obtain h1 where h1: "x_list_free_1 a h = Some h1" "live h1 (L - {a})" "same_on (L - {a}) h h1"
    using free_node_ok[OF Cons.prems(1), of a] Cons.prems(3) by auto
  have sub: "set as \<subseteq> L - {a}" using Cons.prems(3) chain_distinct[OF Cons.prems(2)] by auto
  then have "path h1 (link c) as 0" using c(5) same_on_path[OF h1(3)] by blast
  then obtain h' where h': "x_list_free (link c) h1 = Some h'" "live h' (L - {a} - set as)" "same_on (L - {a} - set as) h1 h'"
    using Cons.IH[OF h1(2) _ sub] by blast
  have e: "L - {a} - set as = L - set (a # as)" by auto
  have "same_on (L - set (a # as)) h h'" using h1(3) h'(3) by (rule same_on_trans) auto
  then show ?case
    using c h1(1) h'(1,2) unfolding e by (subst x_list_free.simps) simp
qed

lemma pop_list:
  assumes "live h L" "chain h p (a # as)" "set (a # as) \<subseteq> L"
  shows "\<exists>p' h'. x_list_pop p h = Some (p', data_at h a, h') \<and> chain h' p' as \<and> live h' (L - {a}) \<and> same_on (L - {a}) h h'"
proof -
  obtain c where c: "load p h = Some c" "p = a" "p \<noteq> 0" "cells h a = Some c" "path h (link c) as 0"
    using load_path[OF assms(2)] by blast
  obtain h1 where h1: "x_list_free_1 a h = Some h1" "live h1 (L - {a})" "same_on (L - {a}) h h1"
    using free_node_ok[OF assms(1), of a] assms(3) by auto
  have sub: "set as \<subseteq> L - {a}" using assms(3) chain_distinct[OF assms(2)] by auto
  then have "path h1 (link c) as 0" using c(5) same_on_path[OF h1(3)] by blast
  then show ?thesis using c h1 by (simp add: x_list_pop_def data_at_def)
qed

section \<open>Appending and reversing\<close>

lemma append_list:
  assumes "live h L" "noMemory h = []" "chain h p ns" "set ns \<subseteq> L"
  shows "\<exists>p' n h'. x_list_append p d h = Some (p', h') \<and> n \<notin> L \<and> chain h' p' (ns @ [n]) \<and> vals h' (ns @ [n]) = vals h ns @ [d]
    \<and> live h' (insert n L) \<and> same_on (L - set ns) h h'"
proof -
  obtain n h1 where h1: "x_list_prepend 0 d h = Some (n, h1)" "n \<notin> L" "n \<noteq> 0" "live h1 (insert n L)"
    "cells h1 n = Some \<lparr> data = d, link = 0 \<rparr>" "same_on L h h1"
    using prepend_ok[OF assms(1,2)] by blast
  show ?thesis
  proof (cases ns rule: rev_cases)
    case Nil
    then have "p = 0" using assms(3) by simp
    then show ?thesis using h1 Nil by (auto simp: x_list_append_def data_at_def)
  next
    case (snoc as a)
    have l: "last_node p h = Some a" and a: "a \<in> L" "p \<noteq> 0"
      using assms(3,4) snoc last_list[of h p as a] chain_cases[OF assms(3)] by auto
    have p1: "path h1 p (as @ [a]) 0" using assms(3,4) snoc same_on_path[OF h1(6), of ns] by simp
    then obtain c where c: "path h1 p as a" "cells h1 a = Some c" "a \<noteq> 0" by (auto simp: path_append)
    obtain h2 where h2: "set_next a n h1 = Some h2" "live h2 (insert n L)" "cells h2 a = Some (c\<lparr> link := n \<rparr>)"
      "same_on (insert n L - {a}) h1 h2"
      using set_next_ok[OF h1(4) _ c(2)] a(1) by blast
    have d: "a \<notin> set as" using chain_distinct[OF p1] by simp
    have "path h2 p as a" using c(1) d assms(4) snoc same_on_path[OF h2(4), of as] by auto
    moreover have n2: "cells h2 n = Some \<lparr> data = d, link = 0 \<rparr>"
      using same_on_cell[OF h2(4), of n] h1(2,5) a(1) by auto
    ultimately have "chain h2 p (ns @ [n])" using snoc h2(3) c(3) h1(3) by (simp add: path_append)
    moreover have "vals h2 as = vals h as"
      using d assms(4) snoc same_on_vals[OF h2(4), of as] same_on_vals[OF h1(6), of as] by auto
    moreover have "data_at h2 a = data_at h a"
      using h2(3) c(2) same_on_cell[OF h1(6) a(1)] by (simp add: data_at_def)
    moreover have "same_on (L - set ns) h h2" using h1(6) h2(4) snoc by (rule_tac same_on_trans) auto
    ultimately show ?thesis
      using l a(2) h1 h2(1,2) n2 snoc by (auto simp: x_list_append_def data_at_def)
  qed
qed

lemma reverse_onto_list:
  assumes "live h L" "chain h p ns" "chain h q ms" "set ns \<subseteq> L" "set ms \<subseteq> L" "set ns \<inter> set ms = {}"
  shows "\<exists>p' h'. reverse_onto p q h = Some (p', h') \<and> chain h' p' (rev ns @ ms) \<and> vals h' (rev ns @ ms) = vals h (rev ns @ ms)
    \<and> live h' L \<and> same_on (L - set ns) h h'"
  using assms
proof (induction ns arbitrary: p q ms h)
  case Nil
  then show ?case by (subst reverse_onto.simps) simp
next
  case (Cons a as)
  then obtain c where c: "load p h = Some c" "p = a" "p \<noteq> 0" "cells h a = Some c" "path h (link c) as 0"
    using load_path by blast
  obtain h1 where h1: "set_next a q h = Some h1" "live h1 L" "cells h1 a = Some (c\<lparr> link := q \<rparr>)" "same_on (L - {a}) h h1"
    using set_next_ok[OF Cons.prems(1) _ c(4)] Cons.prems(4) by auto
  have d: "a \<notin> set as" "a \<notin> set ms" using chain_distinct[OF Cons.prems(2)] Cons.prems(6) by auto
  have sub: "set as \<subseteq> L - {a}" "set ms \<subseteq> L - {a}" using Cons.prems(4,5) d by auto
  have as: "path h1 (link c) as 0" using c(5) same_on_path[OF h1(4) sub(1)] by blast
  have ms: "path h1 a (a # ms) 0" using Cons.prems(3) same_on_path[OF h1(4) sub(2)] h1(3) c(2,3) by simp
  have v: "vals h1 (rev as @ a # ms) = vals h (rev as @ a # ms)"
    using same_on_vals[OF h1(4) sub(1)] same_on_vals[OF h1(4) sub(2)] h1(3) c(4) by (simp add: data_at_def)
  obtain p' h' where h': "reverse_onto (link c) a h1 = Some (p', h')" "chain h' p' (rev as @ a # ms)"
    "vals h' (rev as @ a # ms) = vals h1 (rev as @ a # ms)" "live h' L" "same_on (L - set as) h1 h'"
    using Cons.IH[OF h1(2) as ms] Cons.prems(4,5,6) d by auto
  have "same_on (L - set (a # as)) h h'" using h1(4) h'(5) by (rule same_on_trans) auto
  then show ?case using c h1(1) h' v by (subst reverse_onto.simps) simp
qed

lemma reverse_list:
  assumes "live h L" "chain h p ns" "set ns \<subseteq> L"
  shows "\<exists>p' h'. x_list_reverse p h = Some (p', h') \<and> chain h' p' (rev ns) \<and> vals h' (rev ns) = rev (vals h ns)
    \<and> live h' L \<and> same_on (L - set ns) h h'"
  using reverse_onto_list[OF assms(1,2) _ assms(3), of 0 "[]"] by (simp add: x_list_reverse_def)

section \<open>Filtering, copying and mapping\<close>

lemma prepend_list:
  assumes "live h L" "noMemory h = []" "chain h q ms" "set ms \<subseteq> L"
  shows "\<exists>n h'. x_list_prepend q d h = Some (n, h') \<and> n \<notin> L \<and> chain h' n (n # ms) \<and> vals h' (n # ms) = d # vals h ms
    \<and> live h' (insert n L) \<and> same_on L h h'"
proof -
  obtain n h' where h': "x_list_prepend q d h = Some (n, h')" "n \<notin> L" "n \<noteq> 0" "live h' (insert n L)"
    "cells h' n = Some \<lparr> data = d, link = q \<rparr>" "same_on L h h'"
    using prepend_ok[OF assms(1,2)] by blast
  then show ?thesis
    using assms(3) same_on_path[OF h'(6) assms(4)] same_on_vals[OF h'(6) assms(4)] by (auto simp: data_at_def)
qed

lemma filter_onto_list:
  assumes "live h L" "noMemory h = []" "chain h p ns" "chain h q ms" "set ns \<subseteq> L" "set ms \<subseteq> L"
  shows "\<exists>q' ks h'. filter_onto pred user p q h = Some (q', h') \<and> chain h' q' (ks @ ms) \<and> set ks \<inter> L = {}
    \<and> vals h' (ks @ ms) = rev (filter (\<lambda>d. pred d user) (vals h ns)) @ vals h ms \<and> live h' (L \<union> set ks) \<and> same_on L h h'"
  using assms
proof (induction ns arbitrary: p q ms h L)
  case Nil
  then show ?case by (subst filter_onto.simps) (auto intro!: exI[of _ "[]"])
next
  case (Cons a as)
  obtain c where c: "load p h = Some c" "p = a" "p \<noteq> 0" "cells h a = Some c" "path h (link c) as 0"
    using load_path[OF Cons.prems(3)] by blast
  have d: "data_at h a = data c" by (rule data_at_simps[OF c(4)])
  have sub: "set as \<subseteq> L" using Cons.prems(5) by simp
  show ?case
  proof (cases "pred (data c) user")
    case True
    obtain n h1 where h1: "x_list_prepend q (data c) h = Some (n, h1)" "n \<notin> L" "chain h1 n (n # ms)"
      "vals h1 (n # ms) = data c # vals h ms" "live h1 (insert n L)" "same_on L h h1"
      using prepend_list[OF Cons.prems(1,2,4,6)] by blast
    have l1: "load p h1 = Some c" using c(2,3,4) same_on_cell[OF h1(6), of a] Cons.prems(5) by (simp add: load_def)
    have as: "path h1 (link c) as 0" "vals h1 as = vals h as"
      using c(5) same_on_path[OF h1(6) sub] same_on_vals[OF h1(6) sub] by simp_all
    have m: "noMemory h1 = []" using h1(6) Cons.prems(2) by (simp add: same_on_def)
    have "set as \<subseteq> insert n L" "set (n # ms) \<subseteq> insert n L" using sub Cons.prems(6) by auto
    from Cons.IH[OF h1(5) m as(1) h1(3) this] obtain q' ks h' where
      h': "filter_onto pred user (link c) n h1 = Some (q', h')" "chain h' q' (ks @ n # ms)" "set ks \<inter> insert n L = {}"
      "vals h' (ks @ n # ms) = rev (filter (\<lambda>d. pred d user) (vals h1 as)) @ vals h1 (n # ms)"
      "live h' (insert n L \<union> set ks)" "same_on (insert n L) h1 h'"
      by blast
    have "same_on L h h'" using h1(6) h'(6) by (rule same_on_trans) auto
    then show ?thesis
      using c True h1(1,2,4) l1 h' as(2) d
      by (subst filter_onto.simps) (auto intro!: exI[of _ q'] exI[of _ "ks @ [n]"])
  next
    case False
    then show ?thesis
      using c Cons.IH[OF Cons.prems(1,2) c(5) Cons.prems(4) sub Cons.prems(6)] d
      by (subst filter_onto.simps) simp
  qed
qed

lemma filter_list:
  assumes "live h L" "noMemory h = []" "chain h p ns" "set ns \<subseteq> L"
  shows "\<exists>q ks h'. x_list_filter p pred user h = Some (q, h') \<and> chain h' q ks \<and> set ks \<inter> L = {}
    \<and> vals h' ks = filter (\<lambda>d. pred d user) (vals h ns) \<and> live h' (L \<union> set ks) \<and> same_on L h h'"
proof -
  obtain q ks h1 where h1: "filter_onto pred user p 0 h = Some (q, h1)" "chain h1 q ks" "set ks \<inter> L = {}"
    "vals h1 ks = rev (filter (\<lambda>d. pred d user) (vals h ns))" "live h1 (L \<union> set ks)" "same_on L h h1"
    using filter_onto_list[OF assms(1,2,3) _ assms(4), of 0 "[]" pred user] by auto
  obtain r h2 where h2: "x_list_reverse q h1 = Some (r, h2)" "chain h2 r (rev ks)" "vals h2 (rev ks) = rev (vals h1 ks)"
    "live h2 (L \<union> set ks)" "same_on (L \<union> set ks - set ks) h1 h2"
    using reverse_list[OF h1(5,2)] by auto
  have "same_on L h h2" using h1(6) h2(5) by (rule same_on_trans) (use h1(3) in auto)
  then show ?thesis using h1 h2 by (intro exI[of _ r] exI[of _ "rev ks"] exI[of _ h2]) (simp add: x_list_filter_def)
qed

text \<open>Copying is filtering with a predicate that always holds.\<close>

lemma copy_is_filter:
  assumes "live h L" "noMemory h = []" "chain h p ns" "set ns \<subseteq> L"
  shows "copy_onto p q h = filter_onto (\<lambda>_ _. True) 0 p q h"
  using assms
proof (induction ns arbitrary: p q h L)
  case Nil
  then show ?case by (subst copy_onto.simps, subst filter_onto.simps) simp
next
  case (Cons a as)
  obtain c where c: "load p h = Some c" "p = a" "p \<noteq> 0" "cells h a = Some c" "path h (link c) as 0"
    using load_path[OF Cons.prems(3)] by blast
  obtain n h1 where h1: "x_list_prepend q (data c) h = Some (n, h1)" "live h1 (insert n L)" "same_on L h h1"
    using prepend_ok[OF Cons.prems(1,2)] by blast
  have "load p h1 = Some c" using c(2,3,4) same_on_cell[OF h1(3), of a] Cons.prems(4) by (simp add: load_def)
  moreover have "path h1 (link c) as 0" using c(5) same_on_path[OF h1(3), of as] Cons.prems(4) by auto
  moreover have "noMemory h1 = []" using h1(3) Cons.prems(2) by (simp add: same_on_def)
  ultimately show ?case
    using c h1(1) Cons.IH[OF h1(2), of "link c" n] Cons.prems(4)
    by (subst copy_onto.simps, subst filter_onto.simps) auto
qed

lemma copy_list:
  assumes "live h L" "noMemory h = []" "chain h p ns" "set ns \<subseteq> L"
  shows "\<exists>q ks h'. x_list_copy p h = Some (q, h') \<and> chain h' q ks \<and> set ks \<inter> L = {}
    \<and> vals h' ks = vals h ns \<and> live h' (L \<union> set ks) \<and> same_on L h h'"
proof -
  have "x_list_copy p h = x_list_filter p (\<lambda>_ _. True) 0 h"
    using copy_is_filter[OF assms] by (simp add: x_list_copy_def x_list_filter_def)
  then show ?thesis using filter_list[OF assms, of "\<lambda>_ _. True" 0] by simp
qed

text \<open>Mapping returns the empty list and loses a node for every element.\<close>

lemma map_onto_lost:
  assumes "live h L" "noMemory h = []" "chain h p ns" "set ns \<subseteq> L"
  shows "\<exists>N h'. map_onto f user p q h = Some (q, h') \<and> finite N \<and> card N = length ns \<and> N \<inter> L = {} \<and> live h' (L \<union> N)
    \<and> same_on L h h'"
  using assms
proof (induction ns arbitrary: p h L)
  case Nil
  then show ?case by (subst map_onto.simps) (auto intro!: exI[of _ "{}"])
next
  case (Cons a as)
  obtain c where c: "load p h = Some c" "p = a" "p \<noteq> 0" "cells h a = Some c" "path h (link c) as 0"
    using load_path[OF Cons.prems(3)] by blast
  obtain n h1 where h1: "x_list_prepend q (f (data c) user) h = Some (n, h1)" "n \<notin> L" "live h1 (insert n L)" "same_on L h h1"
    using prepend_ok[OF Cons.prems(1,2)] by blast
  have l1: "load p h1 = Some c" using c(2,3,4) same_on_cell[OF h1(4), of a] Cons.prems(4) by (simp add: load_def)
  have as: "path h1 (link c) as 0" using c(5) same_on_path[OF h1(4), of as] Cons.prems(4) by auto
  have m: "noMemory h1 = []" using h1(4) Cons.prems(2) by (simp add: same_on_def)
  obtain N h' where h': "map_onto f user (link c) q h1 = Some (q, h')" "finite N" "card N = length as" "N \<inter> insert n L = {}"
    "live h' (insert n L \<union> N)" "same_on (insert n L) h1 h'"
    using Cons.IH[OF h1(3) m as] Cons.prems(4) by auto
  have "same_on L h h'" using h1(4) h'(6) by (rule same_on_trans) auto
  moreover have "card (insert n N) = length (a # as)" using h'(2,3,4) by simp
  ultimately show ?case
    using c h1(1,2) l1 h' by (subst map_onto.simps) (auto intro!: exI[of _ "insert n N"] simp: insert_commute)
qed

end
