(* ===== verification/XListSort.thy ===== *)
theory XListSort
  imports XListSpec
begin

text \<open>
  The two operations that relink nodes: removing the elements with a value, and the merge sort, which is the
  stable sort of the library.
\<close>

section \<open>Nodes that keep their data\<close>

text \<open>The live nodes are \<open>L\<close> and hold the data \<open>d\<close>; relinking keeps this.\<close>

definition holds :: "(nat \<Rightarrow> ptr) \<Rightarrow> nat set \<Rightarrow> x_heap \<Rightarrow> bool" where
  "holds d L h \<longleftrightarrow> live h L \<and> (\<forall>a \<in> L. data_at h a = d a)"

lemma holds_live: "holds d L h \<Longrightarrow> live h L"
  by (simp add: holds_def)

lemma holds_self: "live h L \<Longrightarrow> holds (data_at h) L h"
  by (simp add: holds_def)

lemma holds_vals: "holds d L h \<Longrightarrow> set ns \<subseteq> L \<Longrightarrow> vals h ns = map d ns"
  by (auto simp: holds_def vals_def)

lemma holds_load:
  assumes "holds d L h" "a \<in> L"
  shows "\<exists>c. load a h = Some c \<and> cells h a = Some c \<and> data c = d a \<and> a \<noteq> 0"
proof -
  obtain c where "cells h a = Some c" "a \<noteq> 0" using live_mapped[OF holds_live[OF assms(1)] assms(2)] by blast
  then show ?thesis using assms by (auto simp: load_def holds_def data_at_def)
qed

lemma set_next_holds:
  assumes "holds d L h" "a \<in> L"
  shows "\<exists>h'. set_next a n h = Some h' \<and> holds d L h' \<and> cells h' a = Some \<lparr> data = d a, link = n \<rparr> \<and> same_on (L - {a}) h h'"
proof -
  obtain c where c: "cells h a = Some c" "data c = d a" using holds_load[OF assms] by blast
  obtain h' where h': "set_next a n h = Some h'" "live h' L" "cells h' a = Some (c\<lparr> link := n \<rparr>)" "same_on (L - {a}) h h'"
    using set_next_ok[OF holds_live[OF assms(1)] assms(2) c(1)] by blast
  have "data_at h' x = d x" if "x \<in> L" for x
  proof (cases "x = a")
    case True
    then show ?thesis using h'(3) c(2) by (simp add: data_at_def)
  next
    case False
    then show ?thesis using same_on_cell[OF h'(4), of x] that assms(1) by (simp add: holds_def data_at_def)
  qed
  moreover have "c\<lparr> link := n \<rparr> = \<lparr> data = d a, link = n \<rparr>" using c(2) by simp
  ultimately show ?thesis using h' by (auto simp: holds_def)
qed

lemma free_holds:
  assumes "holds d L h" "a \<in> L"
  shows "\<exists>h'. x_list_free_1 a h = Some h' \<and> holds d (L - {a}) h' \<and> same_on (L - {a}) h h'"
proof -
  obtain h' where h': "x_list_free_1 a h = Some h'" "live h' (L - {a})" "same_on (L - {a}) h h'"
    using free_node_ok[OF holds_live[OF assms(1)] assms(2)] by blast
  then have "\<forall>x \<in> L - {a}. data_at h' x = d x" using assms(1) by (auto simp: holds_def same_on_def data_at_def)
  then show ?thesis using h' by (auto simp: holds_def)
qed

section \<open>Removing\<close>

lemma next_of_prev:
  assumes "chain h lst (as @ bs)"
  shows "(if as = [] then Some lst else do { c \<leftarrow> load (last as) h; Some (link c) }) = Some (case bs of [] \<Rightarrow> 0 | b # _ \<Rightarrow> b)"
proof (cases as rule: rev_cases)
  case Nil
  then show ?thesis using assms by (cases bs) auto
next
  case (snoc xs a)
  then obtain c where "cells h a = Some c" "a \<noteq> 0" "path h (link c) bs 0" using assms by (auto simp: path_append)
  then show ?thesis using snoc by (cases bs) (auto simp: load_def)
qed

lemma unlink_node:
  assumes "holds d L h" "chain h lst (as @ a # b # bs)" "set (as @ a # b # bs) \<subseteq> L" "cells h b = Some c"
  shows "\<exists>h'. set_next a (link c) h = Some h' \<and> holds d L h' \<and> chain h' lst (as @ a # bs) \<and> same_on (L - {a}) h h'"
proof -
  obtain h' where h': "set_next a (link c) h = Some h'" "holds d L h'" "cells h' a = Some \<lparr> data = d a, link = link c \<rparr>"
    "same_on (L - {a}) h h'"
    using set_next_holds[OF assms(1), of a "link c"] assms(3) by auto
  have dist: "a \<notin> set as" "a \<notin> set bs" using chain_distinct[OF assms(2)] by auto
  have p: "path h lst as a" "a \<noteq> 0" "path h (link c) bs 0" using assms(2,4) by (auto simp: path_append)
  have "set as \<subseteq> L - {a}" "set bs \<subseteq> L - {a}" using dist assms(3) by auto
  then have "path h' lst as a" "path h' (link c) bs 0"
    using p(1,3) by (simp_all only: same_on_path[OF h'(4)])
  then show ?thesis using h' p(2) by (auto simp: path_append)
qed

lemma remove_from_list:
  assumes "holds d L h" "chain h lst (as @ bs)" "set (as @ bs) \<subseteq> L"
  shows "\<exists>lst' h'. remove_from x lst (if as = [] then 0 else last as) h = Some (lst', h')
    \<and> chain h' lst' (as @ filter (\<lambda>a. d a \<noteq> x) bs) \<and> holds d (L - {a \<in> set bs. d a = x}) h' \<and> same_on (L - set (as @ bs)) h h'"
  using assms
proof (induction bs arbitrary: as lst h L)
  case Nil
  let ?prev = "if as = [] then 0 else last as"
  have "last as \<noteq> 0" if "as \<noteq> []" using Nil.prems(2,3) that path_mapped[of h lst as 0 "last as"] by simp
  then have "(if ?prev = 0 then Some lst else do { c \<leftarrow> load ?prev h; Some (link c) }) = Some 0"
    using next_of_prev[of h lst as "[]"] Nil.prems(2) by auto
  then have "remove_from x lst ?prev h = Some (lst, h)" by (subst remove_from.simps) simp
  then show ?case using Nil.prems by simp
next
  case (Cons b bs)
  let ?prev = "if as = [] then 0 else last as"
  have "last as \<noteq> 0" if "as \<noteq> []" using Cons.prems(2) that path_mapped[of h lst "as @ b # bs" 0 "last as"] by simp
  then have z: "?prev = 0 \<longleftrightarrow> as = []" by simp
  obtain c where c: "load b h = Some c" "cells h b = Some c" "data c = d b" "b \<noteq> 0"
    using holds_load[OF Cons.prems(1), of b] Cons.prems(3) by auto
  have n: "(if as = [] then Some lst else do { c \<leftarrow> load (last as) h; Some (link c) }) = Some b"
    using next_of_prev[OF Cons.prems(2)] by simp
  have step: "remove_from x lst ?prev h =
      (if d b = x then do { h \<leftarrow> (if as = [] then Some h else set_next (last as) (link c) h);
                            h \<leftarrow> x_list_free_1 b h;
                            remove_from x (if as = [] then link c else lst) ?prev h }
       else remove_from x lst b h)"
    using n z c by (subst remove_from.simps) (auto split: if_splits)
  have dist: "b \<notin> set as" "b \<notin> set bs" using chain_distinct[OF Cons.prems(2)] by auto
  show ?case
  proof (cases "d b = x")
    case True
    let ?lst = "if as = [] then link c else lst"
    have "\<exists>h1. (if as = [] then Some h else set_next (last as) (link c) h) = Some h1 \<and> holds d L h1
      \<and> chain h1 ?lst (as @ bs) \<and> same_on (L - set as) h h1"
    proof (cases as rule: rev_cases)
      case Nil
      then show ?thesis using Cons.prems(1,2) c(2) by auto
    next
      case (snoc ys a)
      obtain h1 where "set_next a (link c) h = Some h1" "holds d L h1" "chain h1 lst (ys @ a # bs)" "same_on (L - {a}) h h1"
        using unlink_node[OF Cons.prems(1) _ _ c(2), of lst ys a bs] Cons.prems(2,3) snoc by auto
      then show ?thesis using snoc by (auto simp: same_on_def)
    qed
    then obtain h1 where h1: "(if as = [] then Some h else set_next (last as) (link c) h) = Some h1" "holds d L h1"
      "chain h1 ?lst (as @ bs)" "same_on (L - set as) h h1" by blast
    obtain h2 where h2: "x_list_free_1 b h1 = Some h2" "holds d (L - {b}) h2" "same_on (L - {b}) h1 h2"
      using free_holds[OF h1(2), of b] Cons.prems(3) by auto
    have sub: "set (as @ bs) \<subseteq> L - {b}" using Cons.prems(3) dist by auto
    then have "chain h2 ?lst (as @ bs)" using h1(3) same_on_path[OF h2(3)] by blast
    from Cons.IH[OF h2(2) this sub] obtain lst' h' where h': "remove_from x ?lst ?prev h2 = Some (lst', h')"
      "chain h' lst' (as @ filter (\<lambda>a. d a \<noteq> x) bs)" "holds d (L - {b} - {a \<in> set bs. d a = x}) h'"
      "same_on (L - {b} - set (as @ bs)) h2 h'"
      by blast
    have "same_on (L - set (as @ b # bs)) h h2" using h1(4) h2(3) by (rule same_on_trans) auto
    then have "same_on (L - set (as @ b # bs)) h h'" using h'(4) by (rule same_on_trans) auto
    moreover have "L - {b} - {a \<in> set bs. d a = x} = L - {a \<in> set (b # bs). d a = x}" using True by auto
    ultimately show ?thesis using step True h1(1) h2(1) h'(1,2,3) by simp
  next
    case False
    have "chain h lst ((as @ [b]) @ bs)" "set ((as @ [b]) @ bs) \<subseteq> L" using Cons.prems(2,3) by simp_all
    from Cons.IH[OF Cons.prems(1) this] obtain lst' h' where "remove_from x lst b h = Some (lst', h')"
      "chain h' lst' (as @ b # filter (\<lambda>a. d a \<noteq> x) bs)" "holds d (L - {a \<in> set bs. d a = x}) h'"
      "same_on (L - set (as @ b # bs)) h h'"
      by auto
    moreover have "{a \<in> set bs. d a = x} = {a \<in> set (b # bs). d a = x}" using False by auto
    ultimately show ?thesis using step False by simp
  qed
qed

section \<open>Sorting\<close>

text \<open>The sort on sequences: \<open>f y x\<close> says that \<open>y\<close> comes before \<open>x\<close>.\<close>

fun mrg :: "('a \<Rightarrow> 'a \<Rightarrow> bool) \<Rightarrow> 'a list \<Rightarrow> 'a list \<Rightarrow> 'a list" where
  "mrg f [] ys = ys"
| "mrg f xs [] = xs"
| "mrg f (x # xs) (y # ys) = (if f y x then y # mrg f (x # xs) ys else x # mrg f xs (y # ys))"

function nsort :: "('a \<Rightarrow> 'a \<Rightarrow> bool) \<Rightarrow> 'a list \<Rightarrow> 'a list" where
  "nsort f ns = (let n = length ns in
     if n < 2 then ns else mrg f (nsort f (take (n div 2) ns)) (nsort f (drop (n div 2) ns)))"
  by pat_completeness auto
termination
  by (relation "measure (\<lambda>(f, ns). length ns)") auto

declare nsort.simps [simp del]

lemma mrg_mset: "mset (mrg f xs ys) = mset xs + mset ys"
  by (induction f xs ys rule: mrg.induct) simp_all

lemma mrg_set: "set (mrg f xs ys) = set xs \<union> set ys"
  by (induction f xs ys rule: mrg.induct) auto

lemma mrg_Nil2 [simp]: "mrg f xs [] = xs"
  by (cases xs) simp_all

lemma nsort_mset: "mset (nsort f ns) = mset ns"
proof (induction f ns rule: nsort.induct)
  case (1 f ns)
  have "mset (take n ns) + mset (drop n ns) = mset ns" for n
    by (metis append_take_drop_id mset_append)
  with 1 show ?case by (subst nsort.simps) (simp add: Let_def mrg_mset)
qed

lemma nsort_set: "set (nsort f ns) = set ns" and nsort_length: "length (nsort f ns) = length ns"
  using nsort_mset[of f ns] by (metis mset_eq_setD, metis mset_eq_length)

text \<open>With a key the merge of two sorted sequences sorts them and keeps the order of equal keys.\<close>

lemma mrg_sorted:
  fixes k :: "'a \<Rightarrow> 'b :: linorder"
  assumes "sorted (map k xs)" "sorted (map k ys)"
  shows "sorted (map k (mrg (\<lambda>y x. k y < k x) xs ys))"
  using assms
proof (induction "\<lambda>y x. k y < k x" xs ys rule: mrg.induct)
  case (3 x xs y ys)
  then show ?case by (fastforce simp: mrg_set)
qed simp_all

lemma mrg_stable:
  fixes k :: "'a \<Rightarrow> 'b :: linorder"
  assumes "sorted (map k xs)" "sorted (map k ys)"
  shows "filter (\<lambda>x. v = k x) (mrg (\<lambda>y x. k y < k x) xs ys) = filter (\<lambda>x. v = k x) xs @ filter (\<lambda>x. v = k x) ys"
  using assms
proof (induction "\<lambda>y x. k y < k x" xs ys rule: mrg.induct)
  case (3 x xs y ys)
  show ?case
  proof (cases "k y < k x")
    case True
    then have "\<forall>z \<in> set (x # xs). k y < k z" using 3(3) by auto
    then have "filter (\<lambda>z. k y = k z) (x # xs) = []" by (auto simp: filter_empty_conv)
    then show ?thesis using 3 True by auto
  qed (use 3 in auto)
qed simp_all

lemma sort_stable: "filter (\<lambda>x. v = k x) (sort_key k xs) = filter (\<lambda>x. v = k x) xs"
  unfolding eq_commute[of v] by (rule sort_key_stable)

lemma nsort_sort_key:
  fixes k :: "'a \<Rightarrow> 'b :: linorder"
  shows "nsort (\<lambda>y x. k y < k x) ns = sort_key k ns"
proof (induction "\<lambda>y x. k y < k x" ns rule: nsort.induct)
  case (1 ns)
  show ?case
  proof (cases "length ns < 2")
    case True
    then show ?thesis by (cases ns) (auto simp: nsort.simps[of _ "[]"] nsort.simps[of _ "[x]" for x])
  next
    case False
    let ?a = "take (length ns div 2) ns" and ?b = "drop (length ns div 2) ns"
    have e: "nsort (\<lambda>y x. k y < k x) ns = mrg (\<lambda>y x. k y < k x) (sort_key k ?a) (sort_key k ?b)"
      using 1 False by (subst nsort.simps) (simp add: Let_def)
    have ab: "?a @ ?b = ns" by simp
    have "sort_key k ns = mrg (\<lambda>y x. k y < k x) (sort_key k ?a) (sort_key k ?b)"
    proof (rule properties_for_sort_key)
      show "mset (mrg (\<lambda>y x. k y < k x) (sort_key k ?a) (sort_key k ?b)) = mset ns"
        using arg_cong[OF ab, of mset] unfolding mrg_mset mset_append mset_sort .
      show "sorted (map k (mrg (\<lambda>y x. k y < k x) (sort_key k ?a) (sort_key k ?b)))" by (rule mrg_sorted) simp_all
      show "filter (\<lambda>x. k v = k x) (mrg (\<lambda>y x. k y < k x) (sort_key k ?a) (sort_key k ?b)) = filter (\<lambda>x. k v = k x) ns" for v
        using arg_cong[OF ab, of "filter (\<lambda>x. k v = k x)"]
        by (simp only: mrg_stable sort_stable filter_append sorted_sort_key)
    qed
    then show ?thesis using e by simp
  qed
qed

lemma insort_key_map: "insort_key k (g x) (map g xs) = map g (insort_key (\<lambda>x. k (g x)) x xs)"
  by (induction xs) auto

lemma sort_key_map: "sort_key k (map g xs) = map g (sort_key (\<lambda>x. k (g x)) xs)"
proof (induction xs)
  case (Cons x xs)
  then show ?case using insort_key_map[of k g x "sort_key (\<lambda>x. k (g x)) xs"] by simp
qed simp

section \<open>Sorting nodes\<close>

text \<open>The order of two nodes by their data \<open>d\<close>.\<close>

abbreviation (input) by_data :: "(ptr \<Rightarrow> ptr \<Rightarrow> bool) \<Rightarrow> (nat \<Rightarrow> ptr) \<Rightarrow> nat \<Rightarrow> nat \<Rightarrow> bool" where
  "by_data lt d \<equiv> \<lambda>y x. lt (d y) (d x)"

lemma link_to:
  assumes "holds d L h" "a \<in> L" "chain h p ns" "set ns \<subseteq> L - {a}" "set ms \<subseteq> L - {a}"
  shows "\<exists>h'. set_next a p h = Some h' \<and> holds d L h' \<and> chain h' a (a # ns) \<and> same_on (L - {a}) h h'
    \<and> (\<forall>q r. path h' q ms r = path h q ms r)"
proof -
  obtain h' where h': "set_next a p h = Some h'" "holds d L h'" "cells h' a = Some \<lparr> data = d a, link = p \<rparr>" "same_on (L - {a}) h h'"
    using set_next_holds[OF assms(1,2)] by blast
  have "path h' p ns 0" using assms(3) same_on_path[OF h'(4) assms(4)] by blast
  moreover have "a \<noteq> 0" using holds_load[OF assms(1,2)] by blast
  ultimately have "chain h' a (a # ns)" using h'(3) by simp
  then show ?thesis using h' same_on_path[OF h'(4) assms(5)] by blast
qed

lemma merge_onto_list:
  assumes "holds d L h" "out \<in> L" "chain h lst xs" "chain h mid ys" "set xs \<subseteq> L" "set ys \<subseteq> L" "distinct (out # xs @ ys)"
  shows "\<exists>h'. merge_onto lt out lst mid h = Some h' \<and> chain h' out (out # mrg (by_data lt d) xs ys) \<and> holds d L h'
    \<and> same_on (L - set (out # xs @ ys)) h h'"
  using assms
proof (induction "by_data lt d" xs ys arbitrary: out lst mid h rule: mrg.induct)
  case (1 ys)
  have "set ys \<subseteq> L - {out}" using "1.prems"(6,7) by auto
  from link_to[OF "1.prems"(1,2,4) this this] obtain h' where
    h': "set_next out mid h = Some h'" "holds d L h'" "chain h' out (out # ys)" "same_on (L - {out}) h h'"
    by blast
  have "lst = 0" using "1.prems"(3) by simp
  then have "merge_onto lt out lst mid h = Some h'" using h'(1) by (subst merge_onto.simps) simp
  then show ?case using h' by (auto simp: same_on_def)
next
  case (2 v va)
  let ?xs = "v # va"
  have "set ?xs \<subseteq> L - {out}" using "2.prems"(5,7) by auto
  from link_to[OF "2.prems"(1,2,3) this this] obtain h' where
    h': "set_next out lst h = Some h'" "holds d L h'" "chain h' out (out # ?xs)" "same_on (L - {out}) h h'"
    by blast
  have "mid = 0" "lst \<noteq> 0" using "2.prems"(3,4) by auto
  then have "merge_onto lt out lst mid h = Some h'" using h'(1) by (subst merge_onto.simps) simp
  then show ?case using h' by (auto simp: same_on_def)
next
  case (3 x xs y ys)
  have x: "lst = x" "x \<in> L" and y: "mid = y" "y \<in> L" using "3.prems"(3-6) by auto
  obtain cx cy where ld: "load x h = Some cx" "data cx = d x" "load y h = Some cy" "data cy = d y" "x \<noteq> 0" "y \<noteq> 0"
    using holds_load[OF "3.prems"(1)] x(2) y(2) by blast
  show ?case
  proof (cases "lt (d y) (d x)")
    case True
    have "set (y # ys) \<subseteq> L - {out}" "set (x # xs) \<subseteq> L - {out}" using "3.prems"(5-7) by auto
    from link_to[OF "3.prems"(1,2,4) this] obtain h1 where h1: "set_next out y h = Some h1" "holds d L h1"
      "chain h1 out (out # y # ys)" "same_on (L - {out}) h h1" "\<forall>q r. path h1 q (x # xs) r = path h q (x # xs) r"
      using y(1) by auto
    obtain c where c: "cells h1 y = Some c" "load y h1 = Some c" "chain h1 (link c) ys" using h1(3) ld(6) by (auto simp: load_def)
    have "chain h1 x (x # xs)" using h1(5) "3.prems"(3) x(1) by blast
    moreover have "set (x # xs) \<subseteq> L" "set ys \<subseteq> L" "distinct (y # (x # xs) @ ys)" using "3.prems"(5-7) by auto
    ultimately obtain h' where h': "merge_onto lt y x (link c) h1 = Some h'" "chain h' y (y # mrg (by_data lt d) (x # xs) ys)"
      "holds d L h'" "same_on (L - set (y # (x # xs) @ ys)) h1 h'"
      using "3.hyps"(1)[OF True h1(2) y(2) _ c(3)] by blast
    have "merge_onto lt out lst mid h = Some h'"
      using ld x(1) y(1) True h1(1) c(2) h'(1) by (subst merge_onto.simps) simp
    moreover obtain e where "cells h1 out = Some e" "link e = y" "out \<noteq> 0" using h1(3) by auto
    then have "chain h' out (out # mrg (by_data lt d) (x # xs) (y # ys))"
      using h'(2) True same_on_cell[OF h'(4), of out] "3.prems"(2,7) by auto
    moreover have "same_on (L - set (out # (x # xs) @ y # ys)) h h'" using h1(4) h'(4) by (rule same_on_trans) auto
    ultimately show ?thesis using h'(3) by blast
  next
    case False
    have "set (x # xs) \<subseteq> L - {out}" "set (y # ys) \<subseteq> L - {out}" using "3.prems"(5-7) by auto
    from link_to[OF "3.prems"(1,2,3) this] obtain h1 where h1: "set_next out x h = Some h1" "holds d L h1"
      "chain h1 out (out # x # xs)" "same_on (L - {out}) h h1" "\<forall>q r. path h1 q (y # ys) r = path h q (y # ys) r"
      using x(1) by auto
    obtain c where c: "cells h1 x = Some c" "load x h1 = Some c" "chain h1 (link c) xs" using h1(3) ld(5) by (auto simp: load_def)
    have "chain h1 y (y # ys)" using h1(5) "3.prems"(4) y(1) by blast
    moreover have "set xs \<subseteq> L" "set (y # ys) \<subseteq> L" "distinct (x # xs @ y # ys)" using "3.prems"(5-7) by auto
    ultimately obtain h' where h': "merge_onto lt x (link c) y h1 = Some h'" "chain h' x (x # mrg (by_data lt d) xs (y # ys))"
      "holds d L h'" "same_on (L - set (x # xs @ y # ys)) h1 h'"
      using "3.hyps"(2)[OF False h1(2) x(2) c(3)] by blast
    have "merge_onto lt out lst mid h = Some h'"
      using ld x(1) y(1) False h1(1) c(2) h'(1) by (subst merge_onto.simps) simp
    moreover obtain e where "cells h1 out = Some e" "link e = x" "out \<noteq> 0" using h1(3) by auto
    then have "chain h' out (out # mrg (by_data lt d) (x # xs) (y # ys))"
      using h'(2) False same_on_cell[OF h'(4), of out] "3.prems"(2,7) by auto
    moreover have "same_on (L - set (out # (x # xs) @ y # ys)) h h'" using h1(4) h'(4) by (rule same_on_trans) auto
    ultimately show ?thesis using h'(3) by blast
  qed
qed

lemma merge_nodes_list:
  assumes "holds d L h" "chain h lst (x # xs)" "chain h mid (y # ys)" "set (x # xs @ y # ys) \<subseteq> L" "distinct (x # xs @ y # ys)"
  shows "\<exists>p h'. merge_nodes lt lst mid h = Some (p, h') \<and> chain h' p (mrg (by_data lt d) (x # xs) (y # ys)) \<and> holds d L h'
    \<and> same_on (L - set (x # xs @ y # ys)) h h'"
proof -
  obtain cx where cx: "load lst h = Some cx" "lst = x" "cells h x = Some cx" "chain h (link cx) xs" using load_path[OF assms(2)] by blast
  obtain cy where cy: "load mid h = Some cy" "mid = y" "cells h y = Some cy" "chain h (link cy) ys" using load_path[OF assms(3)] by blast
  have d: "data cx = d x" "data cy = d y" using assms(1,4) data_at_simps[OF cx(3)] data_at_simps[OF cy(3)] by (simp_all add: holds_def)
  show ?thesis
  proof (cases "lt (d y) (d x)")
    case True
    have "y \<in> L" "set (x # xs) \<subseteq> L" "set ys \<subseteq> L" "distinct (y # (x # xs) @ ys)" using assms(4,5) by auto
    then obtain h' where h': "merge_onto lt mid lst (link cy) h = Some h'" "chain h' y (y # mrg (by_data lt d) (x # xs) ys)"
      "holds d L h'" "same_on (L - set (y # (x # xs) @ ys)) h h'"
      using merge_onto_list[OF assms(1) _ assms(2) cy(4)] cy(2) by metis
    have "same_on (L - set (x # xs @ y # ys)) h h'" using h'(4) by (auto simp: same_on_def)
    then show ?thesis using True cx(1) cy(1,2) d h'(1,2,3) by (simp add: merge_nodes_def)
  next
    case False
    have "x \<in> L" "set xs \<subseteq> L" "set (y # ys) \<subseteq> L" "distinct (x # xs @ y # ys)" using assms(4,5) by auto
    then obtain h' where h': "merge_onto lt lst (link cx) mid h = Some h'" "chain h' x (x # mrg (by_data lt d) xs (y # ys))"
      "holds d L h'" "same_on (L - set (x # xs @ y # ys)) h h'"
      using merge_onto_list[OF assms(1) _ cx(4) assms(3)] cx(2) by metis
    then show ?thesis using False cx(1,2) cy(1) d by (simp add: merge_nodes_def)
  qed
qed

lemma walk_list:
  assumes "chain h p (as @ a # bs)"
  shows "walk (length as) p h = Some a"
  using assms
proof (induction as arbitrary: p)
  case (Cons b as)
  then obtain c where "load p h = Some c" "chain h (link c) (as @ a # bs)" by (auto simp: load_def)
  then show ?case using Cons.IH by simp
qed simp

text \<open>The cut before the middle.\<close>

lemma cut_list:
  assumes "holds d L h" "chain h p ns" "set ns \<subseteq> L" "0 < m" "m < length ns"
  shows "\<exists>q c h'. walk (m - 1) p h = Some q \<and> load q h = Some c \<and> set_next q 0 h = Some h' \<and> holds d L h'
    \<and> chain h' p (take m ns) \<and> chain h' (link c) (drop m ns) \<and> same_on (L - set ns) h h'"
proof -
  define a where "a = ns ! (m - 1)"
  have ns: "ns = take (m - 1) ns @ a # drop m ns" unfolding a_def using assms(4,5) id_take_nth_drop[of "m - 1" ns] by simp
  have tm: "take m ns = take (m - 1) ns @ [a]" unfolding a_def using assms(4,5) take_Suc_conv_app_nth[of "m - 1" ns] by simp
  have ch: "chain h p (take (m - 1) ns @ a # drop m ns)" using assms(2) ns by metis
  have w: "walk (m - 1) p h = Some a" using walk_list[OF ch] assms(4,5) by simp
  obtain c where c: "path h p (take (m - 1) ns) a" "cells h a = Some c" "a \<noteq> 0" "path h (link c) (drop m ns) 0"
    using ch by (auto simp: path_append)
  have a: "a \<in> L" unfolding a_def using assms(3,4,5) by (auto simp: subset_iff)
  obtain h' where h': "set_next a 0 h = Some h'" "holds d L h'" "cells h' a = Some \<lparr> data = d a, link = 0 \<rparr>" "same_on (L - {a}) h h'"
    using set_next_holds[OF assms(1) a] by blast
  have "distinct (take (m - 1) ns @ a # drop m ns)" using chain_distinct[OF ch] .
  then have sub: "set (take (m - 1) ns) \<subseteq> L - {a}" "set (drop m ns) \<subseteq> L - {a}"
    using assms(3) by (auto dest: in_set_takeD in_set_dropD)
  have "chain h' p (take m ns)"
    unfolding tm using c(1,3) same_on_path[OF h'(4) sub(1)] h'(3) by (auto simp: path_append)
  moreover have "chain h' (link c) (drop m ns)" using c(4) same_on_path[OF h'(4) sub(2)] by blast
  moreover have "a \<in> set ns" unfolding a_def using assms(4,5) by simp
  then have "same_on (L - set ns) h h'" using h'(4) by (auto simp: same_on_def)
  ultimately show ?thesis using w c(2,3) h'(1,2) by (auto simp: load_def)
qed

lemma list_sort_1_list:
  assumes "holds d L h" "chain h p ns" "set ns \<subseteq> L"
  shows "\<exists>p' h'. list_sort_1 lt p (length ns) h = Some (p', h') \<and> chain h' p' (nsort (by_data lt d) ns) \<and> holds d L h'
    \<and> same_on (L - set ns) h h'"
  using assms
proof (induction "length ns" arbitrary: ns p h rule: less_induct)
  case less
  show ?case
  proof (cases "length ns < 2")
    case True
    then have "list_sort_1 lt p (length ns) h = Some (p, h)" by (subst list_sort_1.simps) simp
    moreover have "nsort (by_data lt d) ns = ns" using True by (subst nsort.simps) (simp add: Let_def)
    ultimately show ?thesis using less.prems by auto
  next
    case False
    define m where "m = length ns div 2"
    have m: "0 < m" "m < length ns" using False by (auto simp: m_def)
    obtain q c h1 where h1: "walk (m - 1) p h = Some q" "load q h = Some c" "set_next q 0 h = Some h1" "holds d L h1"
      "chain h1 p (take m ns)" "chain h1 (link c) (drop m ns)" "same_on (L - set ns) h h1"
      using cut_list[OF less.prems m] by blast
    have tk: "length (take m ns) = m" "set (take m ns) \<subseteq> L" and dr: "length (drop m ns) = length ns - m" "set (drop m ns) \<subseteq> L"
      using m(2) less.prems(3) by (auto dest: in_set_takeD in_set_dropD)
    have disj: "set (take m ns) \<inter> set (drop m ns) = {}" "distinct (take m ns)" "distinct (drop m ns)"
      using chain_distinct[OF less.prems(2)] by (auto simp: set_take_disj_set_drop_if_distinct)
    have un: "set (take m ns) \<union> set (drop m ns) = set ns" by (metis append_take_drop_id set_append)
    obtain p2 h2 where h2: "list_sort_1 lt p m h1 = Some (p2, h2)" "chain h2 p2 (nsort (by_data lt d) (take m ns))" "holds d L h2"
      "same_on (L - set (take m ns)) h1 h2"
      using less.hyps[OF _ h1(4,5) tk(2)] tk(1) m(2) by auto
    have "set (drop m ns) \<subseteq> L - set (take m ns)" using disj(1) dr(2) by blast
    then have dr2: "chain h2 (link c) (drop m ns)" using h1(6) same_on_path[OF h2(4)] by blast
    obtain p3 h3 where h3: "list_sort_1 lt (link c) (length ns - m) h2 = Some (p3, h3)"
      "chain h3 p3 (nsort (by_data lt d) (drop m ns))" "holds d L h3" "same_on (L - set (drop m ns)) h2 h3"
      using less.hyps[of "drop m ns" h2 "link c", OF _ h2(3) dr2 dr(2), unfolded dr(1)] m by (meson diff_less gr_implies_not0 less_trans)
    have "set (nsort (by_data lt d) (take m ns)) \<subseteq> L - set (drop m ns)" unfolding nsort_set using disj(1) tk(2) by blast
    then have tk3: "chain h3 p2 (nsort (by_data lt d) (take m ns))" using h2(2) same_on_path[OF h3(4)] by blast
    obtain x xs where x: "nsort (by_data lt d) (take m ns) = x # xs"
      using nsort_length[of "by_data lt d" "take m ns"] tk(1) m(1) by (cases "nsort (by_data lt d) (take m ns)") auto
    obtain y ys where y: "nsort (by_data lt d) (drop m ns) = y # ys"
      using nsort_length[of "by_data lt d" "drop m ns"] dr(1) m(2) by (cases "nsort (by_data lt d) (drop m ns)") auto
    have set: "set (x # xs @ y # ys) = set ns"
      using un nsort_set[of "by_data lt d" "take m ns"] nsort_set[of "by_data lt d" "drop m ns"] unfolding x y by auto
    have mset: "mset (x # xs @ y # ys) = mset ns"
      using nsort_mset[of "by_data lt d" "take m ns"] nsort_mset[of "by_data lt d" "drop m ns"] unfolding x y
      by (metis append_Cons append_take_drop_id mset_append)
    then have dist: "distinct (x # xs @ y # ys)" using chain_distinct[OF less.prems(2)] mset_eq_imp_distinct_iff by blast
    obtain p4 h4 where h4: "merge_nodes lt p2 p3 h3 = Some (p4, h4)" "chain h4 p4 (mrg (by_data lt d) (x # xs) (y # ys))"
      "holds d L h4" "same_on (L - set ns) h3 h4"
      using merge_nodes_list[OF h3(3) tk3[unfolded x] h3(2)[unfolded y] _ dist, of lt] less.prems(3) unfolding set by blast
    have nz: "p2 \<noteq> 0" "p3 \<noteq> 0" using tk3 h3(2) x y by auto
    have "list_sort_1 lt p (length ns) h = Some (p4, h4)"
      using False h1(1,2,3) h2(1) h3(1) h4(1) nz by (subst list_sort_1.simps) (simp add: m_def)
    moreover have "nsort (by_data lt d) ns = mrg (by_data lt d) (x # xs) (y # ys)"
      using False x y by (subst nsort.simps) (simp add: Let_def m_def)
    moreover have "same_on (L - set ns) h1 h2" "same_on (L - set ns) h2 h3"
      using h2(4) h3(4) un by (auto simp: same_on_def)
    then have "same_on (L - set ns) h h4" using h1(7) h4(4) by (simp add: same_on_def)
    ultimately show ?thesis using h4(2,3) by simp
  qed
qed

section \<open>The properties\<close>

text \<open>Four nodes: a list of three and a free one.\<close>

definition three_nodes :: x_heap where
  "three_nodes = \<lparr> cells = [1 \<mapsto> \<lparr> data = 15, link = 2 \<rparr>, 2 \<mapsto> \<lparr> data = 3, link = 3 \<rparr>, 3 \<mapsto> \<lparr> data = 5, link = 0 \<rparr>,
                             4 \<mapsto> \<lparr> data = 0, link = 0 \<rparr>],
                   freelist = 4, brk = 5, noMemory = [] \<rparr>"

lemma three_nodes_ok:
  "live three_nodes {1, 2, 3}" "chain three_nodes 1 [1, 2, 3]" "vals three_nodes [1, 2, 3] = [15, 3, 5]" "noMemory three_nodes = []"
proof -
  show "live three_nodes {1, 2, 3}"
    unfolding live_def by (intro conjI exI[of _ "[4]"]) (auto simp: three_nodes_def split: if_splits)
qed (simp_all add: three_nodes_def data_at_def)

text \<open>
  C18. \<open>x_list_sort\<close> with the comparison of a key returns a list of the same nodes, whose elements are the stable
  sort of the library of the elements before; it takes and loses no node and changes no other live one. The list
  must be shorter than the range of its \<open>int\<close> length.
\<close>

theorem x_list_sort_stable:
  assumes "live h L" "chain h p ns" "set ns \<subseteq> L" "length ns < 2 ^ 31"
  shows "\<exists>p' ms h'. x_list_sort (\<lambda>y x. k y < (k x :: 'a :: linorder)) p h = Some (p', h') \<and> chain h' p' ms \<and> set ms = set ns
    \<and> vals h' ms = sort_key k (vals h ns) \<and> live h' L \<and> same_on (L - set ns) h h'"
proof -
  let ?lt = "\<lambda>y x. k y < k x" and ?d = "data_at h"
  let ?ms = "nsort (by_data ?lt ?d) ns"
  have "count_nodes p 0 h = Some (of_nat (length ns))" using count_list[OF assms(2)] by simp
  moreover have "nat (sint (of_nat (length ns) :: u32)) = length ns"
    using assms(4) by (simp add: signed_of_nat signed_take_bit_int_eq_self)
  ultimately have "x_list_sort ?lt p h = list_sort_1 ?lt p (length ns) h"
    by (simp add: x_list_sort_def x_list_length_def)
  then obtain p' h' where h': "x_list_sort ?lt p h = Some (p', h')" "chain h' p' ?ms" "holds ?d L h'" "same_on (L - set ns) h h'"
    using list_sort_1_list[OF holds_self[OF assms(1)] assms(2,3), of ?lt] by auto
  have "?ms = sort_key (\<lambda>a. k (?d a)) ns" by (rule nsort_sort_key)
  moreover have "vals h' ?ms = map ?d ?ms" using holds_vals[OF h'(3), of ?ms] assms(3) by (simp add: nsort_set)
  ultimately have "vals h' ?ms = sort_key k (vals h ns)" by (simp add: vals_def sort_key_map)
  then show ?thesis
    using h'(1,2,4) holds_live[OF h'(3)] by (intro exI[of _ p'] exI[of _ ?ms] exI[of _ h']) (simp add: nsort_set)
qed

lemma x_list_sort_stable_witness:
  "\<exists>p' h'. x_list_sort (\<lambda>y x. y mod 10 < x mod 10) 1 three_nodes = Some (p', h')
     \<and> (\<exists>ms. chain h' p' ms \<and> vals h' ms = [3, 15, 5])"
proof -
  have "sort_key (\<lambda>v. v mod 10) [15, 3, 5] = [3, 15, 5 :: nat]" by simp
  moreover obtain p' ms h' where "x_list_sort (\<lambda>y x. y mod 10 < x mod 10) 1 three_nodes = Some (p', h')" "chain h' p' ms"
    "vals h' ms = sort_key (\<lambda>v. v mod 10) (vals three_nodes [1, 2, 3])"
    using x_list_sort_stable[OF three_nodes_ok(1,2), of "\<lambda>v. v mod 10"] by auto
  ultimately show ?thesis unfolding three_nodes_ok(3) by auto
qed

text \<open>
  C23. \<open>x_list_remove\<close> takes out every node with the value, wherever it stands, also as the first or several in a
  row: the others stay in their order with their values, exactly the removed nodes go back to the allocator, and
  no other live node changes.
\<close>

theorem x_list_remove_all:
  assumes "live h L" "chain h p ns" "set ns \<subseteq> L"
  shows "\<exists>p' h'. x_list_remove p x h = Some (p', h') \<and> chain h' p' (filter (\<lambda>a. data_at h a \<noteq> x) ns)
    \<and> vals h' (filter (\<lambda>a. data_at h a \<noteq> x) ns) = filter (\<lambda>v. v \<noteq> x) (vals h ns)
    \<and> live h' (L - {a \<in> set ns. data_at h a = x}) \<and> same_on (L - set ns) h h'"
proof -
  let ?ms = "filter (\<lambda>a. data_at h a \<noteq> x) ns" and ?L = "L - {a \<in> set ns. data_at h a = x}"
  obtain p' h' where h': "x_list_remove p x h = Some (p', h')" "chain h' p' ?ms" "holds (data_at h) ?L h'" "same_on (L - set ns) h h'"
    using remove_from_list[OF holds_self[OF assms(1)], of p "[]" ns x] assms(2,3) by (auto simp: x_list_remove_def)
  have "set ?ms \<subseteq> ?L" using assms(3) by auto
  then have "vals h' ?ms = map (data_at h) ?ms" by (rule holds_vals[OF h'(3)])
  then have "vals h' ?ms = filter (\<lambda>v. v \<noteq> x) (vals h ns)" by (simp add: vals_def filter_map comp_def)
  then show ?thesis using h' holds_live by blast
qed

lemma x_list_remove_all_witness:
  "\<exists>p' h'. x_list_remove 1 15 three_nodes = Some (p', h') \<and> chain h' p' [2, 3] \<and> vals h' [2, 3] = [3, 5] \<and> live h' {2, 3}"
proof -
  have "filter (\<lambda>a. data_at three_nodes a \<noteq> 15) [1, 2, 3] = [2, 3]" "{1, 2, 3} - {a \<in> set [1, 2, 3]. data_at three_nodes a = 15} = {2, 3}"
    by (auto simp: three_nodes_def data_at_def)
  moreover have "filter (\<lambda>v. v \<noteq> 15) [15, 3, 5] = [3, 5 :: nat]" by simp
  moreover obtain p' h' where "x_list_remove 1 15 three_nodes = Some (p', h')"
    "chain h' p' (filter (\<lambda>a. data_at three_nodes a \<noteq> 15) [1, 2, 3])"
    "vals h' (filter (\<lambda>a. data_at three_nodes a \<noteq> 15) [1, 2, 3]) = filter (\<lambda>v. v \<noteq> 15) (vals three_nodes [1, 2, 3])"
    "live h' ({1, 2, 3} - {a \<in> set [1, 2, 3]. data_at three_nodes a = 15})"
    using x_list_remove_all[OF three_nodes_ok(1,2), of 15] by auto
  ultimately show ?thesis unfolding three_nodes_ok(3) by auto
qed

text \<open>
  C35. \<open>x_list_map\<close> returns the empty list whatever the list and the function are, and loses one node for each
  element: its loop drops what \<open>x_list_prepend\<close> returns.
\<close>

theorem x_list_map_loses:
  assumes "live h L" "noMemory h = []" "chain h p ns" "set ns \<subseteq> L"
  shows "\<exists>N h'. x_list_map p f user h = Some (0, h') \<and> finite N \<and> card N = length ns \<and> N \<inter> L = {} \<and> live h' (L \<union> N) \<and> same_on L h h'"
proof -
  obtain N h' where h': "map_onto f user p 0 h = Some (0, h')" "finite N" "card N = length ns" "N \<inter> L = {}" "live h' (L \<union> N)" "same_on L h h'"
    using map_onto_lost[OF assms] by blast
  have "reverse_onto 0 0 h' = Some (0, h')" by (subst reverse_onto.simps) simp
  then show ?thesis using h' by (auto simp: x_list_map_def x_list_reverse_def)
qed

lemma x_list_map_loses_witness:
  "\<exists>N h'. x_list_map 1 (\<lambda>v _. v) 0 three_nodes = Some (0, h') \<and> card N = 3 \<and> N \<inter> {1, 2, 3} = {} \<and> live h' ({1, 2, 3} \<union> N)"
proof -
  obtain N h' where "x_list_map 1 (\<lambda>v _. v) 0 three_nodes = Some (0, h')" "card N = length [1 :: nat, 2, 3]" "N \<inter> {1, 2, 3} = {}"
    "live h' ({1, 2, 3} \<union> N)"
    using x_list_map_loses[OF three_nodes_ok(1,4,2), of "\<lambda>v _. v" 0] by (metis set_simps subset_refl)
  then show ?thesis by (intro exI[of _ N] exI[of _ h']) simp
qed

end
