(* ===== verification/XHashInv.thy ===== *)
theory XHashInv
  imports XHash XListSort
begin

text \<open>
  The invariant of a hash table on the heap of cons cells, by which nodes, items, buckets and the count of keys
  correspond, and the search of a bucket.
\<close>

section \<open>Nodes and items\<close>

text \<open>The item a node points to, and all cells of a list of nodes.\<close>

definition ent :: "x_heap \<Rightarrow> nat \<Rightarrow> x_list" where
  "ent h n = the (cells h (data_at h n))"

definition own :: "x_heap \<Rightarrow> nat list \<Rightarrow> nat list" where
  "own h ns = ns @ map (data_at h) ns"

lemma own_set: "set (own h ns) = set ns \<union> data_at h ` set ns"
  by (simp add: own_def)

lemma own_union: "set (own h (as @ bs)) = set (own h as) \<union> set (own h bs)"
  by (auto simp: own_set)

lemma own_mset: "mset (own h ns) = mset ns + image_mset (data_at h) (mset ns)"
  by (simp add: own_def)

lemma own_frame:
  assumes "\<forall>a \<in> set (own h ns). cells h' a = cells h a"
  shows "own h' ns = own h ns" "n \<in> set ns \<Longrightarrow> data_at h' n = data_at h n" "n \<in> set ns \<Longrightarrow> ent h' n = ent h n"
proof -
  have d: "data_at h' n = data_at h n" if "n \<in> set ns" for n using assms that by (auto simp: own_set data_at_def)
  then show "own h' ns = own h ns" by (simp add: own_def)
  assume n: "n \<in> set ns"
  show "data_at h' n = data_at h n" using d n .
  show "ent h' n = ent h n" using assms d[OF n] n by (auto simp: own_set ent_def)
qed

lemma own_inj:
  assumes "distinct (own h ns)" "m \<in> set ns" "n \<in> set ns"
  shows "data_at h m = data_at h n \<longleftrightarrow> m = n" "data_at h m \<noteq> n"
  using assms by (auto simp: own_def distinct_map dest: inj_onD)

lemma own_part:
  assumes "distinct (own h ns)" "distinct ms" "set ms \<subseteq> set ns"
  shows "distinct (own h ms)"
proof -
  have "inj_on (data_at h) (set ms)"
  proof (rule inj_onI)
    fix m n assume "m \<in> set ms" "n \<in> set ms" "data_at h m = data_at h n"
    then show "m = n" using own_inj(1)[OF assms(1)] assms(3) by blast
  qed
  moreover have "data_at h m \<notin> set ms" if "m \<in> set ms" for m using own_inj(2)[OF assms(1)] assms(3) that by blast
  ultimately show ?thesis using assms(2) by (auto simp: own_def distinct_map)
qed

lemma load_entry:
  assumes "live h L" "set (own h ns) \<subseteq> L" "n \<in> set ns"
  shows "\<exists>c. load n h = Some c \<and> cells h n = Some c \<and> data c = data_at h n \<and> n \<noteq> 0
    \<and> load (data_at h n) h = Some (ent h n) \<and> cells h (data_at h n) = Some (ent h n) \<and> data_at h n \<noteq> 0"
proof -
  have L: "n \<in> L" "data_at h n \<in> L" using assms(2,3) by (auto simp: own_set)
  obtain c where c: "cells h n = Some c" "n \<noteq> 0" using live_mapped[OF assms(1) L(1)] by blast
  obtain e where e: "cells h (data_at h n) = Some e" "data_at h n \<noteq> 0" using live_mapped[OF assms(1) L(2)] by blast
  show ?thesis using c e data_at_simps[OF c(1)] by (simp add: load_def ent_def)
qed

section \<open>The functions of the client\<close>

text \<open>What the table relies on: the comparison is an equivalence and equal keys have the same hash value.\<close>

definition keys_agree :: "'s x_hash_table \<Rightarrow> bool" where
  "keys_agree t \<longleftrightarrow> equivp (hash_table_compare_keys t)
     \<and> (\<forall>k1 k2. hash_table_compare_keys t k1 k2 \<longrightarrow> hash_table_hash_key t k1 = hash_table_hash_key t k2)"

definition same_funs :: "'s x_hash_table \<Rightarrow> 's x_hash_table \<Rightarrow> bool" where
  "same_funs t t' \<longleftrightarrow> hash_key t' = hash_key t \<and> compare_keys t' = compare_keys t
     \<and> destroy_key t' = destroy_key t \<and> destroy_value t' = destroy_value t"

lemma same_funs_refl [simp]: "same_funs t t"
  by (simp add: same_funs_def)

lemma same_funs_trans: "same_funs t t' \<Longrightarrow> same_funs t' t'' \<Longrightarrow> same_funs t t''"
  by (simp add: same_funs_def)

lemma same_funs_update [simp]:
  "same_funs t (t'\<lparr> buckets := B \<rparr>) = same_funs t t'" "same_funs t (t'\<lparr> total_keys := n \<rparr>) = same_funs t t'"
  "same_funs t (t'\<lparr> bucket_index := i \<rparr>) = same_funs t t'"
  by (simp_all add: same_funs_def)

lemma same_funs_apply:
  assumes "same_funs t t'"
  shows "hash_table_hash_key t' = hash_table_hash_key t" "hash_table_compare_keys t' = hash_table_compare_keys t"
    "hash_table_destroy_item t' = hash_table_destroy_item t" "keys_agree t' = keys_agree t"
proof -
  show h: "hash_table_hash_key t' = hash_table_hash_key t" "hash_table_compare_keys t' = hash_table_compare_keys t"
    "hash_table_destroy_item t' = hash_table_destroy_item t"
    using assms
    by (intro ext, simp add: same_funs_def hash_table_hash_key_def hash_table_compare_keys_def hash_table_destroy_item_def)+
  show "keys_agree t' = keys_agree t" by (simp add: keys_agree_def h)
qed

lemma update_funs [simp]:
  "hash_table_hash_key (t\<lparr> buckets := B \<rparr>) = hash_table_hash_key t" "hash_table_hash_key (t\<lparr> total_keys := n \<rparr>) = hash_table_hash_key t"
  "hash_table_compare_keys (t\<lparr> buckets := B \<rparr>) = hash_table_compare_keys t"
  "hash_table_compare_keys (t\<lparr> total_keys := n \<rparr>) = hash_table_compare_keys t"
  "hash_table_total_buckets (t\<lparr> buckets := B \<rparr>) = hash_table_total_buckets t"
  "hash_table_total_buckets (t\<lparr> total_keys := n \<rparr>) = hash_table_total_buckets t"
  by (rule same_funs_apply, simp)+ (simp_all add: hash_table_total_buckets_def)

section \<open>The invariant\<close>

definition bucket_of :: "'s x_hash_table \<Rightarrow> ptr \<Rightarrow> nat" where
  "bucket_of t k = hash_table_hash_key t k mod hash_table_total_buckets t"

definition table_at :: "'s x_hash_table \<Rightarrow> x_heap \<Rightarrow> nat set \<Rightarrow> nat list list \<Rightarrow> bool" where
  "table_at t h L nss \<longleftrightarrow> live h L \<and> bucket_index t < length bucket_sizes
     \<and> length (buckets t) = hash_table_total_buckets t \<and> list_all2 (chain h) (buckets t) nss
     \<and> distinct (own h (concat nss)) \<and> set (own h (concat nss)) \<subseteq> L
     \<and> (\<forall>b < length nss. \<forall>n \<in> set (nss ! b). bucket_of t (link (ent h n)) = b)
     \<and> total_keys t = of_nat (length (concat nss))
     \<and> (\<forall>m \<in> set (concat nss). \<forall>n \<in> set (concat nss). hash_table_compare_keys t (link (ent h m)) (link (ent h n)) \<longrightarrow> m = n)"

text \<open>The items of the table and the live cells that are not the table's.\<close>

definition content :: "x_heap \<Rightarrow> nat list list \<Rightarrow> x_list multiset" where
  "content h nss = image_mset (ent h) (mset (concat nss))"

definition others :: "x_heap \<Rightarrow> nat set \<Rightarrow> nat list list \<Rightarrow> nat set" where
  "others h L nss = L - set (own h (concat nss))"

lemma bucket_positive: "i < length bucket_sizes \<Longrightarrow> 0 < bucket_sizes ! i"
proof -
  assume "i < length bucket_sizes"
  then have "bucket_sizes ! i \<in> set bucket_sizes" by (rule nth_mem)
  then show ?thesis by (auto simp: bucket_sizes_def)
qed

lemma table_bucket:
  assumes "table_at t h L nss"
  shows "bucket_of t k < length nss" "length (buckets t) = length nss" "length nss = hash_table_total_buckets t"
    "chain h (buckets t ! bucket_of t k) (nss ! bucket_of t k)" "set (nss ! bucket_of t k) \<subseteq> set (concat nss)"
proof -
  have l: "length (buckets t) = hash_table_total_buckets t" "list_all2 (chain h) (buckets t) nss" "bucket_index t < length bucket_sizes"
    using assms by (simp_all add: table_at_def)
  show b: "length (buckets t) = length nss" and e: "length nss = hash_table_total_buckets t"
    using l(1) list_all2_lengthD[OF l(2)] by simp_all
  have "0 < hash_table_total_buckets t" using bucket_positive[OF l(3)] by (simp add: hash_table_total_buckets_def)
  then show k: "bucket_of t k < length nss" using e by (simp add: bucket_of_def)
  show "chain h (buckets t ! bucket_of t k) (nss ! bucket_of t k)" using list_all2_nthD2[OF l(2) k] .
  show "set (nss ! bucket_of t k) \<subseteq> set (concat nss)" using nth_mem[OF k] unfolding set_concat by blast
qed

lemma own_mono: "set ms \<subseteq> set ns \<Longrightarrow> set (own h ms) \<subseteq> set (own h ns)"
  by (auto simp: own_set)

lemma find_item_list:
  assumes "live h L" "chain h p ns" "set (own h ns) \<subseteq> L"
  shows "find_item t k p h =
    Some (case find (\<lambda>n. hash_table_compare_keys t (link (ent h n)) k) ns of Some n \<Rightarrow> data_at h n | None \<Rightarrow> 0)"
  using assms(2,3)
proof (induction ns arbitrary: p)
  case Nil
  then show ?case by (subst find_item.simps) simp
next
  case (Cons a as)
  obtain c where c: "load p h = Some c" "p = a" "p \<noteq> 0" "cells h a = Some c" "chain h (link c) as"
    using load_path[OF Cons.prems(1)] by blast
  have "load (data c) h = Some (ent h a)" "data c = data_at h a"
    using load_entry[OF assms(1) Cons.prems(2), of a] c(4) by auto
  then show ?case using c Cons.IH[OF c(5)] Cons.prems(2) by (subst find_item.simps) (auto simp: own_set)
qed

text \<open>Equal keys are in the bucket of their hash value, at most one.\<close>

lemma table_find:
  assumes "table_at t h L nss" "keys_agree t"
  shows "find (\<lambda>n. hash_table_compare_keys t (link (ent h n)) k) (nss ! bucket_of t k) = None
      \<longleftrightarrow> (\<forall>n \<in> set (concat nss). \<not> hash_table_compare_keys t (link (ent h n)) k)"
    "n \<in> set (concat nss) \<Longrightarrow> hash_table_compare_keys t (link (ent h n)) k \<Longrightarrow>
       find (\<lambda>n. hash_table_compare_keys t (link (ent h n)) k) (nss ! bucket_of t k) = Some n"
proof -
  let ?P = "\<lambda>n. hash_table_compare_keys t (link (ent h n)) k"
  have in_bucket: "n \<in> set (nss ! bucket_of t k)" if n: "n \<in> set (concat nss)" "?P n" for n
  proof -
    obtain b where b: "b < length nss" "n \<in> set (nss ! b)" using n(1) by (auto simp: in_set_conv_nth[of _ nss])
    then have "bucket_of t (link (ent h n)) = b" using assms(1) unfolding table_at_def by blast
    moreover have "bucket_of t (link (ent h n)) = bucket_of t k" using assms(2) n(2) by (simp add: keys_agree_def bucket_of_def)
    ultimately show ?thesis using b(2) by simp
  qed
  then show "find ?P (nss ! bucket_of t k) = None \<longleftrightarrow> (\<forall>n \<in> set (concat nss). \<not> ?P n)"
    using table_bucket(5)[OF assms(1), of k] by (auto simp: find_None_iff)
  assume n: "n \<in> set (concat nss)" "?P n"
  then obtain m where m: "find ?P (nss ! bucket_of t k) = Some m" "m \<in> set (nss ! bucket_of t k)" "?P m"
    using in_bucket[OF n] by (cases "find ?P (nss ! bucket_of t k)") (auto simp: find_None_iff find_Some_iff)
  have "hash_table_compare_keys t (link (ent h m)) (link (ent h n))"
    using assms(2) m(3) n(2) unfolding keys_agree_def by (meson equivp_symp equivp_transp)
  then have "m = n" using assms(1) m(2) n(1) table_bucket(5)[OF assms(1), of k] unfolding table_at_def by blast
  then show "find ?P (nss ! bucket_of t k) = Some n" using m(1) by simp
qed

lemma table_search:
  assumes "table_at t h L nss"
  shows "find_item t k (buckets t ! (hash_table_hash_key t k mod hash_table_total_buckets t)) h =
    Some (case find (\<lambda>n. hash_table_compare_keys t (link (ent h n)) k) (nss ! bucket_of t k) of Some n \<Rightarrow> data_at h n | None \<Rightarrow> 0)"
proof -
  have "set (own h (nss ! bucket_of t k)) \<subseteq> L"
    using own_mono[OF table_bucket(5)[OF assms, of k], of h] assms by (auto simp: table_at_def)
  then show ?thesis
    using find_item_list[OF _ table_bucket(4)[OF assms, of k], of L t k] assms unfolding table_at_def bucket_of_def by blast
qed

section \<open>Looking up\<close>

lemma lookup_found:
  assumes "table_at t h L nss" "keys_agree t" "n \<in> set (concat nss)" "hash_table_compare_keys t (link (ent h n)) k"
  shows "x_hash_table_lookup t k h = Some (data (ent h n), link (ent h n))"
  using table_search[OF assms(1), of k] table_find(2)[OF assms] load_entry[of h L "concat nss" n] assms(1,3)
  by (auto simp: x_hash_table_lookup_def table_at_def)

lemma lookup_missing:
  assumes "table_at t h L nss" "keys_agree t" "\<forall>n \<in> set (concat nss). \<not> hash_table_compare_keys t (link (ent h n)) k"
  shows "x_hash_table_lookup t k h = Some (0, 0)"
  using table_search[OF assms(1), of k] table_find(1)[OF assms(1,2), of k] assms(3)
  by (simp add: x_hash_table_lookup_def)

text \<open>The lookup in terms of the content.\<close>

lemma lookup_content:
  assumes "table_at t h L nss" "keys_agree t"
  shows "e \<in># content h nss \<Longrightarrow> hash_table_compare_keys t (link e) k \<Longrightarrow> x_hash_table_lookup t k h = Some (data e, link e)"
    "\<forall>e \<in># content h nss. \<not> hash_table_compare_keys t (link e) k \<Longrightarrow> x_hash_table_lookup t k h = Some (0, 0)"
  using lookup_found[OF assms] lookup_missing[OF assms] by (auto simp: content_def)

end
