(* ===== verification/XHashSplit.thy ===== *)
theory XHashSplit
  imports XHashInv
begin

text \<open>
  Growing a hash table: the nodes move to the new buckets, the items stay where they are, and the table holds
  what it held.
\<close>

section \<open>Moving nodes on sequences\<close>

definition spread :: "(nat \<Rightarrow> nat) \<Rightarrow> nat list \<Rightarrow> nat list list \<Rightarrow> nat list list" where
  "spread f ns nss = fold (\<lambda>n nss. nss[f n := n # nss ! f n]) ns nss"

lemma spread_simps [simp]:
  "spread f [] nss = nss" "spread f (n # ns) nss = spread f ns (nss[f n := n # nss ! f n])"
  "spread f (ms @ ns) nss = spread f ns (spread f ms nss)"
  by (simp_all add: spread_def)

lemma spread_length [simp]: "length (spread f ns nss) = length nss"
  by (induction ns arbitrary: nss) simp_all

lemma concat_update:
  assumes "b < length nss"
  shows "mset (concat (nss[b := xs])) + mset (nss ! b) = mset (concat nss) + mset xs"
proof -
  have "concat (nss[b := xs]) = concat (take b nss) @ xs @ concat (drop (Suc b) nss)"
    using assms by (simp add: upd_conv_take_nth_drop)
  moreover have "concat nss = concat (take b nss) @ nss ! b @ concat (drop (Suc b) nss)"
    using arg_cong[OF id_take_nth_drop[OF assms], of concat] by simp
  ultimately show ?thesis by simp
qed

lemma concat_push: "b < length nss \<Longrightarrow> mset (concat (nss[b := n # nss ! b])) = add_mset n (mset (concat nss))"
  using concat_update[of b nss "n # nss ! b"] by simp

lemma spread_mset: "\<forall>n \<in> set ns. f n < length nss \<Longrightarrow> mset (concat (spread f ns nss)) = mset ns + mset (concat nss)"
  by (induction ns arbitrary: nss) (simp_all add: concat_push)

lemma spread_placed:
  assumes "\<forall>b < length nss. \<forall>n \<in> set (nss ! b). f n = b" "\<forall>n \<in> set ns. f n < length nss"
  shows "\<forall>b < length nss. \<forall>n \<in> set (spread f ns nss ! b). f n = b"
  using assms
proof (induction ns arbitrary: nss)
  case (Cons a as)
  have "f n = b" if "b < length nss" "n \<in> set (nss[f a := a # nss ! f a] ! b)" for b n
  proof -
    have "n = a \<and> f a = b \<or> n \<in> set (nss ! b)" using that by (cases "b = f a") auto
    then show ?thesis using that(1) Cons.prems(1) by blast
  qed
  then have 1: "\<forall>b < length nss. \<forall>n \<in> set (nss[f a := a # nss ! f a] ! b). f n = b" by blast
  have 2: "\<forall>n \<in> set as. f n < length nss" using Cons.prems(2) by simp
  show ?case using Cons.IH[of "nss[f a := a # nss ! f a]", unfolded length_list_update, OF 1 2] unfolding spread_simps .
qed (simp only: spread_simps)

section \<open>Moving nodes on the heap\<close>

text \<open>
  Of the nodes \<open>N\<close>, the live cells \<open>L\<close> keep their data \<open>d\<close> and the items \<open>e\<close>, which are no nodes of \<open>N\<close>.
\<close>

definition items_stay :: "(nat \<Rightarrow> ptr) \<Rightarrow> (nat \<Rightarrow> x_list) \<Rightarrow> nat set \<Rightarrow> nat set \<Rightarrow> x_heap \<Rightarrow> bool" where
  "items_stay d e N L h \<longleftrightarrow> holds d L h \<and> N \<subseteq> L \<and> (\<forall>n \<in> N. d n \<in> L - N \<and> cells h (d n) = Some (e n))"

lemma items_stay_next:
  assumes "items_stay d e N L h" "a \<in> N"
  shows "\<exists>c. load a h = Some c \<and> cells h a = Some c \<and> data c = d a \<and> a \<noteq> 0 \<and> load (d a) h = Some (e a)"
proof -
  have "a \<in> L" "d a \<in> L" "holds d L h" "cells h (d a) = Some (e a)" using assms by (auto simp: items_stay_def)
  then show ?thesis using holds_load[of d L h a] holds_load[of d L h "d a"] by auto
qed

lemma move_node:
  assumes "items_stay d e N L h" "a \<in> N"
  shows "\<exists>h'. set_next a p h = Some h' \<and> items_stay d e N L h' \<and> cells h' a = Some \<lparr> data = d a, link = p \<rparr>
    \<and> same_on (L - {a}) h h'"
proof -
  obtain h' where h': "set_next a p h = Some h'" "holds d L h'" "cells h' a = Some \<lparr> data = d a, link = p \<rparr>" "same_on (L - {a}) h h'"
    using set_next_holds[of d L h a p] assms by (auto simp: items_stay_def)
  moreover have "cells h' (d n) = Some (e n)" if "n \<in> N" for n
    using assms that same_on_cell[OF h'(4), of "d n"] by (auto simp: items_stay_def)
  ultimately have "items_stay d e N L h'" using assms(1) by (simp add: items_stay_def)
  then show ?thesis using h' by blast
qed

lemma split_bucket_list:
  assumes "items_stay d e N L h" "chain h p ns" "list_all2 (chain h) new nss" "set ns \<subseteq> N" "set (concat nss) \<subseteq> N"
    "distinct ns" "set ns \<inter> set (concat nss) = {}" "length nss = sz" "0 < sz"
  shows "\<exists>new' h'. split_bucket t sz p new h = Some (new', h') \<and> items_stay d e N L h'
    \<and> list_all2 (chain h') new' (spread (\<lambda>n. hash_table_hash_key t (link (e n)) mod sz) ns nss) \<and> same_on (L - set ns) h h'"
  using assms
proof (induction ns arbitrary: p new nss h)
  case Nil
  then show ?case by (subst split_bucket.simps) simp
next
  case (Cons a as)
  let ?f = "\<lambda>n. hash_table_hash_key t (link (e n)) mod sz"
  have aN: "a \<in> N" and asN: "set as \<subseteq> N" using Cons.prems(4) by auto
  obtain c where c: "load p h = Some c" "p = a" "p \<noteq> 0" "cells h a = Some c" "chain h (link c) as"
    using load_path[OF Cons.prems(2)] by blast
  have d: "data c = d a" "load (d a) h = Some (e a)" using items_stay_next[OF Cons.prems(1) aN] c(4) by auto
  let ?b = "?f a"
  have b: "?b < length nss" using Cons.prems(8,9) by simp
  obtain h1 where h1: "set_next a (new ! ?b) h = Some h1" "items_stay d e N L h1"
    "cells h1 a = Some \<lparr> data = d a, link = new ! ?b \<rparr>" "same_on (L - {a}) h h1"
    using move_node[OF Cons.prems(1) aN] by blast
  have NL: "N \<subseteq> L" using Cons.prems(1) by (simp add: items_stay_def)
  have as: "chain h1 (link c) as" using c(5) same_on_path[OF h1(4), of as] asN NL Cons.prems(6) by auto
  have keep: "chain h1 q ms" if "chain h q ms" "ms \<in> set nss" for q ms
  proof -
    have "set ms \<subseteq> set (concat nss)" using that(2) by auto
    then have "set ms \<subseteq> L - {a}" using NL Cons.prems(5,7) by auto
    then show ?thesis using that(1) same_on_path[OF h1(4)] by blast
  qed
  have "list_all2 (chain h1) new nss"
    using Cons.prems(3) keep by (auto simp: list_all2_conv_all_nth)
  moreover have "chain h1 a (a # nss ! ?b)"
    using keep[of "new ! ?b" "nss ! ?b"] list_all2_nthD2[OF Cons.prems(3) b] b h1(3) c(2,3) by simp
  ultimately have new: "list_all2 (chain h1) (new[?b := a]) (nss[?b := a # nss ! ?b])" by (rule list_all2_update_cong)
  have s: "set (concat (nss[?b := a # nss ! ?b])) = insert a (set (concat nss))"
    using mset_eq_setD[of "concat (nss[?b := a # nss ! ?b])" "a # concat nss"] concat_push[OF b] by simp
  from Cons.IH[OF h1(2) as new asN, unfolded s] obtain new' h' where
    h': "split_bucket t sz (link c) (new[?b := a]) h1 = Some (new', h')" "items_stay d e N L h'"
      "list_all2 (chain h') new' (spread ?f as (nss[?b := a # nss ! ?b]))" "same_on (L - set as) h1 h'"
    using aN Cons.prems(5-9) by auto
  have "same_on (L - set (a # as)) h h'" using h1(4) h'(4) by (rule same_on_trans) auto
  moreover have "split_bucket t sz p new h = Some (new', h')"
    using c(1,2,3) d h1(1) h'(1) by (subst split_bucket.simps) (simp add: Let_def)
  ultimately show ?case using h'(2,3) by simp
qed

lemma split_buckets_list:
  assumes "items_stay d e N L h" "list_all2 (chain h) old oss" "list_all2 (chain h) new nss" "set (concat oss) \<subseteq> N"
    "set (concat nss) \<subseteq> N" "distinct (concat oss)" "set (concat oss) \<inter> set (concat nss) = {}" "length nss = sz" "0 < sz"
  shows "\<exists>new' h'. split_buckets t sz old new h = Some (new', h') \<and> items_stay d e N L h'
    \<and> list_all2 (chain h') new' (spread (\<lambda>n. hash_table_hash_key t (link (e n)) mod sz) (concat oss) nss)
    \<and> same_on (L - set (concat oss)) h h'"
  using assms
proof (induction oss arbitrary: old new nss h)
  case (Cons ns oss)
  let ?f = "\<lambda>n. hash_table_hash_key t (link (e n)) mod sz"
  obtain p ps where ps: "old = p # ps" "chain h p ns" "list_all2 (chain h) ps oss"
    using Cons.prems(2) by (cases old) simp_all
  have ns: "set ns \<subseteq> N" "distinct ns" "set ns \<inter> set (concat nss) = {}" using Cons.prems(4,6,7) by auto
  obtain new1 h1 where h1: "split_bucket t sz p new h = Some (new1, h1)" "items_stay d e N L h1"
    "list_all2 (chain h1) new1 (spread ?f ns nss)" "same_on (L - set ns) h h1"
    using split_bucket_list[OF Cons.prems(1) ps(2) Cons.prems(3) ns(1) Cons.prems(5) ns(2,3) Cons.prems(8,9), of t] by blast
  have NL: "N \<subseteq> L" using Cons.prems(1) by (simp add: items_stay_def)
  have keep: "chain h1 q ms" if "chain h q ms" "ms \<in> set oss" for q ms
  proof -
    have "set ms \<subseteq> set (concat oss)" using that(2) by auto
    moreover have "set (concat oss) \<subseteq> N - set ns" using Cons.prems(4,6) by auto
    ultimately have "set ms \<subseteq> L - set ns" using NL by blast
    then show ?thesis using that(1) same_on_path[OF h1(4)] by blast
  qed
  then have ps1: "list_all2 (chain h1) ps oss"
    using ps(3) by (auto simp: list_all2_conv_all_nth)
  have s: "set (concat (spread ?f ns nss)) = set ns \<union> set (concat nss)"
    using arg_cong[OF spread_mset[of ns ?f nss], of set_mset] Cons.prems(8,9) by simp
  have 1: "set (concat oss) \<subseteq> N" "set ns \<union> set (concat nss) \<subseteq> N" "distinct (concat oss)"
    "set (concat oss) \<inter> (set ns \<union> set (concat nss)) = {}" "length (spread ?f ns nss) = sz"
    using Cons.prems(4-8) by auto
  from Cons.IH[OF h1(2) ps1 h1(3), unfolded s, OF 1 Cons.prems(9)] obtain new' h' where
    h': "split_buckets t sz ps new1 h1 = Some (new', h')" "items_stay d e N L h'"
      "list_all2 (chain h') new' (spread ?f (concat oss) (spread ?f ns nss))" "same_on (L - set (concat oss)) h1 h'"
    by blast
  have "same_on (L - set (concat (ns # oss))) h h'" using h1(4) h'(4) by (rule same_on_trans) auto
  then show ?case using h1(1) h' ps(1) by simp
qed simp

section \<open>The table\<close>

lemma table_stays:
  assumes "table_at t h L nss"
  shows "items_stay (data_at h) (ent h) (set (concat nss)) L h"
proof -
  have l: "live h L" "distinct (own h (concat nss))" "set (own h (concat nss)) \<subseteq> L" using assms by (simp_all add: table_at_def)
  have "data_at h n \<in> L - set (concat nss) \<and> cells h (data_at h n) = Some (ent h n)" if "n \<in> set (concat nss)" for n
  proof -
    have "data_at h n \<notin> set (concat nss)" using l(2) that unfolding own_def by auto
    moreover have "data_at h n \<in> L" using l(3) that unfolding own_set by blast
    ultimately show ?thesis using load_entry[OF l(1,3) that] by blast
  qed
  then show ?thesis unfolding items_stay_def using l(3) holds_self[OF l(1)] unfolding own_set by blast
qed

text \<open>What is known of the table after its nodes moved.\<close>

lemma moved_table:
  assumes "table_at t h L nss" "items_stay (data_at h) (ent h) (set (concat nss)) L h'" "mset (concat nss') = mset (concat nss)"
    "same_funs t t'" "bucket_index t' < length bucket_sizes" "length nss' = hash_table_total_buckets t'"
    "list_all2 (chain h') (buckets t') nss'" "total_keys t' = total_keys t"
    "\<forall>b < length nss'. \<forall>n \<in> set (nss' ! b). bucket_of t' (link (ent h n)) = b"
  shows "table_at t' h' L nss' \<and> content h' nss' = content h nss \<and> others h' L nss' = others h L nss"
proof -
  let ?N = "set (concat nss)"
  have s: "set (concat nss') = ?N" using mset_eq_setD[OF assms(3)] .
  have d: "data_at h' n = data_at h n" "ent h' n = ent h n" if "n \<in> ?N" for n
    using assms(2) that by (auto simp: items_stay_def holds_def ent_def)
  have own: "mset (own h' (concat nss')) = mset (own h (concat nss))"
    unfolding own_mset assms(3) using image_mset_cong[of "mset (concat nss)" "data_at h'" "data_at h"] d(1) by (simp only: set_mset_mset)
  have o2: "set (own h' (concat nss')) = set (own h (concat nss))" "distinct (own h' (concat nss'))"
    using mset_eq_setD[OF own] mset_eq_imp_distinct_iff[OF own] assms(1) by (simp_all add: table_at_def)
  have len: "length (concat nss') = length (concat nss)" using mset_eq_length[OF assms(3)] .
  have L: "live h' L" using assms(2) holds_live by (auto simp: items_stay_def)
  have b: "\<forall>b < length nss'. \<forall>n \<in> set (nss' ! b). bucket_of t' (link (ent h' n)) = b"
  proof (intro allI impI ballI)
    fix b n assume bn: "b < length nss'" "n \<in> set (nss' ! b)"
    then have "n \<in> ?N" using s nth_mem[OF bn(1)] by auto
    then show "bucket_of t' (link (ent h' n)) = b" using assms(9) bn d(2) by simp
  qed
  have u: "\<forall>m \<in> ?N. \<forall>n \<in> ?N. hash_table_compare_keys t' (link (ent h' m)) (link (ent h' n)) \<longrightarrow> m = n"
    using assms(1) d(2) same_funs_apply(2)[OF assms(4)] by (simp add: table_at_def)
  have "length (buckets t') = hash_table_total_buckets t'" using list_all2_lengthD[OF assms(7)] assms(6) by simp
  then have "table_at t' h' L nss'"
    using assms(1) L o2 len b u assms(5,7,8) unfolding table_at_def s by simp
  moreover have "content h' nss' = content h nss"
    unfolding content_def assms(3) using image_mset_cong[of "mset (concat nss)" "ent h'" "ent h"] d(2) by (simp only: set_mset_mset)
  ultimately show ?thesis using o2(1) by (simp add: others_def)
qed

lemma calloc_frame:
  assumes "x_calloc h = (ok, h')"
  shows "cells h' = cells h" "freelist h' = freelist h" "brk h' = brk h" "noMemory h = [] \<Longrightarrow> noMemory h' = [] \<and> ok"
  using assms by (auto simp: x_calloc_def split: list.splits)

lemma path_cells: "cells h' = cells h \<Longrightarrow> path h' p ns q = path h p ns q"
  by (rule path_frame) simp

lemma calloc_table:
  assumes "x_calloc h = (ok, h')" "table_at t h L nss"
  shows "table_at t h' L nss \<and> content h' nss = content h nss \<and> others h' L nss = others h L nss"
proof -
  note c = calloc_frame[OF assms(1)]
  have p: "path h' = path h" by (intro ext) (rule path_cells[OF c(1)])
  have d: "data_at h' = data_at h" by (intro ext) (simp add: data_at_def c(1))
  then have e: "ent h' = ent h" "own h' = own h" by (intro ext, simp add: ent_def own_def c(1))+
  have "live h' L = live h L" unfolding live_def c p ..
  then show ?thesis using assms(2) unfolding table_at_def content_def others_def e p by simp
qed

text \<open>The split: whatever the allocation does the table holds what it held, in the same live cells.\<close>

lemma split_table:
  assumes "table_at t h L nss"
  shows "\<exists>t' h' nss'. hash_table_split t h = Some (t', h') \<and> table_at t' h' L nss' \<and> content h' nss' = content h nss
    \<and> others h' L nss' = others h L nss \<and> same_funs t t' \<and> (\<forall>a \<in> others h L nss. cells h' a = cells h a)
    \<and> (noMemory h = [] \<longrightarrow> noMemory h' = [])"
proof -
  obtain ok h1 where h1: "x_calloc h = (ok, h1)" by force
  note c = calloc_frame[OF h1]
  have t1: "table_at t h1 L nss" "content h1 nss = content h nss" "others h1 L nss = others h L nss"
    using calloc_table[OF h1 assms] by simp_all
  consider (last) "bucket_index t = length bucket_sizes - 1" | (fail) "bucket_index t \<noteq> length bucket_sizes - 1" "\<not> ok"
    | (grow) "bucket_index t \<noteq> length bucket_sizes - 1" ok by blast
  then show ?thesis
  proof cases
    case last
    then have "hash_table_split t h = Some (t, h)" by (simp add: hash_table_split_def)
    then show ?thesis using assms by auto
  next
    case fail
    then have "hash_table_split t h = Some (t, h1)" by (simp add: hash_table_split_def h1 Let_def)
    then show ?thesis using t1 c by auto
  next
    case grow
    let ?size = "bucket_sizes ! Suc (bucket_index t)" and ?e = "ent h1" and ?d = "data_at h1"
    let ?f = "\<lambda>n. hash_table_hash_key t (link (?e n)) mod ?size"
    have i: "Suc (bucket_index t) < length bucket_sizes" using grow(1) assms by (auto simp: table_at_def)
    then have pos: "0 < ?size" by (rule bucket_positive)
    have ch: "list_all2 (chain h1) (buckets t) nss" and dist: "distinct (concat nss)"
      using t1(1) by (auto simp: table_at_def own_def)
    have "list_all2 (chain h1) (replicate ?size 0) (replicate ?size [])" by (simp add: list_all2_conv_all_nth)
    moreover have "set (concat (replicate ?size ([] :: nat list))) = {}" by auto
    ultimately obtain new h2 where h2: "split_buckets t ?size (buckets t) (replicate ?size 0) h1 = Some (new, h2)"
      "items_stay ?d ?e (set (concat nss)) L h2" "list_all2 (chain h2) new (spread ?f (concat nss) (replicate ?size []))"
      "same_on (L - set (concat nss)) h1 h2"
      using split_buckets_list[OF table_stays[OF t1(1)] ch _ subset_refl _ dist, of "replicate ?size 0" "replicate ?size []" ?size t] pos
      by (metis Int_empty_right empty_subsetI length_replicate)
    define t2 where "t2 = t\<lparr> bucket_index := Suc (bucket_index t), buckets := new \<rparr>"
    let ?nss = "spread ?f (concat nss) (replicate ?size [])"
    have f: "same_funs t t2" "hash_table_total_buckets t2 = ?size" by (simp_all add: t2_def hash_table_total_buckets_def)
    have m: "mset (concat ?nss) = mset (concat nss)" using spread_mset[of "concat nss" ?f "replicate ?size []"] pos by simp
    have "\<forall>b < length (replicate ?size ([] :: nat list)). \<forall>n \<in> set (?nss ! b). ?f n = b"
      by (rule spread_placed) (use pos in auto)
    then have "\<forall>b < length ?nss. \<forall>n \<in> set (?nss ! b). bucket_of t2 (link (?e n)) = b"
      by (simp add: bucket_of_def same_funs_apply(1)[OF f(1)] f(2))
    then have "table_at t2 h2 L ?nss \<and> content h2 ?nss = content h1 nss \<and> others h2 L ?nss = others h1 L nss"
      using i h2(3) by (intro moved_table[OF t1(1) h2(2) m f(1)]) (simp_all add: f(2), simp_all add: t2_def)
    moreover have "hash_table_split t h = Some (t2, h2)" using grow h1 h2(1) by (simp add: hash_table_split_def Let_def t2_def)
    moreover have "\<forall>a \<in> others h L nss. cells h2 a = cells h a" "noMemory h2 = noMemory h1"
      using h2(4) t1(3) c(1) by (auto simp: same_on_def others_def own_set)
    ultimately show ?thesis using t1 f(1) c(4) by metis
  qed
qed

end
