(* ===== verification/XHashOps.thy ===== *)
theory XHashOps
  imports XHashSplit
begin

text \<open>
  The changes of a hash table: each returns, keeps the invariant, and changes the content and the live cells as a
  finite map with a stored key would.
\<close>

section \<open>Items\<close>

lemma bucket_part:
  assumes "table_at t h L nss"
  shows "set (own h (nss ! bucket_of t k)) \<subseteq> L" "distinct (own h (nss ! bucket_of t k))"
proof -
  have l: "distinct (own h (concat nss))" "set (own h (concat nss)) \<subseteq> L" using assms by (simp_all add: table_at_def)
  show "set (own h (nss ! bucket_of t k)) \<subseteq> L" using own_mono[OF table_bucket(5)[OF assms, of k], of h] l(2) by blast
  have "distinct (nss ! bucket_of t k)"
    using l(1) nth_mem[OF table_bucket(1)[OF assms, of k]] by (auto simp: own_def distinct_concat_iff)
  then show "distinct (own h (nss ! bucket_of t k))" using own_part[OF l(1) _ table_bucket(5)[OF assms]] by blast
qed

lemma image_mset_one:
  assumes "distinct ns" "n \<in> set ns" "\<forall>m \<in> set ns. m \<noteq> n \<longrightarrow> f' m = f m"
  shows "image_mset f' (mset ns) = add_mset (f' n) (image_mset f (mset ns) - {#f n#})"
proof -
  have m: "mset ns = add_mset n (mset (remove1 n ns))" using assms(2) by simp
  have "\<forall>x \<in> set (remove1 n ns). f' x = f x" using assms(1,3) by (simp add: set_remove1_eq)
  then have "image_mset f' (mset (remove1 n ns)) = image_mset f (mset (remove1 n ns))"
    by (intro image_mset_cong) (simp only: set_mset_mset)
  then show ?thesis unfolding m by simp
qed

text \<open>Storing another item of the same key.\<close>

lemma update_item:
  assumes t: "table_at t h L nss" "keys_agree t" and n: "n \<in> set (concat nss)"
    and e: "hash_table_compare_keys t (link e) (link (ent h n))"
  shows "\<exists>h'. store (data_at h n) e h = Some h' \<and> table_at t h' L nss \<and> content h' nss = add_mset e (content h nss - {#ent h n#})
    \<and> others h' L nss = others h L nss \<and> same_on (others h L nss) h h'"
proof -
  let ?N = "set (concat nss)" and ?i = "data_at h n"
  have l: "live h L" "distinct (own h (concat nss))" "set (own h (concat nss)) \<subseteq> L" using t(1) by (simp_all add: table_at_def)
  have i: "?i \<in> L" "?i \<in> set (own h (concat nss))" using n l(3) by (auto simp: own_set)
  obtain h' where h': "store ?i e h = Some h'" "live h' L" "cells h' ?i = Some e" "same_on (L - {?i}) h h'"
    using store_ok[OF l(1) i(1)] by blast
  have node: "cells h' m = cells h m" if "m \<in> ?N" for m
    using same_on_cell[OF h'(4), of m] own_inj(2)[OF l(2) n that] that l(3) by (auto simp: own_set)
  then have d: "data_at h' m = data_at h m" if "m \<in> ?N" for m using that by (simp add: data_at_def)
  have en: "ent h' m = (if m = n then e else ent h m)" if "m \<in> ?N" for m
  proof (cases "m = n")
    case True
    then show ?thesis using d[OF that] h'(3) by (simp add: ent_def)
  next
    case False
    then have "data_at h m \<in> L - {?i}" using own_inj(1)[OF l(2) that n] that l(3) by (auto simp: own_set)
    then show ?thesis using False d[OF that] same_on_cell[OF h'(4)] by (simp add: ent_def)
  qed
  have own: "own h' (concat nss) = own h (concat nss)" unfolding own_def using d by simp
  have "list_all2 (chain h') (buckets t) nss"
  proof -
    have "chain h' q ms" if "chain h q ms" "ms \<in> set nss" for q ms
    proof -
      have "\<forall>a \<in> set ms. cells h' a = cells h a" using node that(2) by auto
      then show ?thesis using that(1) by (simp only: path_frame)
    qed
    then show ?thesis using t(1) by (auto simp: table_at_def list_all2_conv_all_nth)
  qed
  moreover have "bucket_of t (link (ent h' m)) = bucket_of t (link (ent h m))" if "m \<in> ?N" for m
    using en[OF that] e t(2) by (auto simp: keys_agree_def bucket_of_def)
  then have "\<forall>b < length nss. \<forall>m \<in> set (nss ! b). bucket_of t (link (ent h' m)) = b"
    using t(1) unfolding table_at_def by (metis UN_I nth_mem set_concat)
  moreover have "hash_table_compare_keys t (link (ent h' a)) (link (ent h' b)) = hash_table_compare_keys t (link (ent h a)) (link (ent h b))"
    if "a \<in> ?N" "b \<in> ?N" for a b
    using en[OF that(1)] en[OF that(2)] e t(2) unfolding keys_agree_def by (auto dest: equivp_symp equivp_transp)
  then have "\<forall>a \<in> ?N. \<forall>b \<in> ?N. hash_table_compare_keys t (link (ent h' a)) (link (ent h' b)) \<longrightarrow> a = b"
    using t(1) unfolding table_at_def by blast
  ultimately have "table_at t h' L nss" using t(1) h'(2) own unfolding table_at_def by simp
  moreover have "content h' nss = add_mset e (content h nss - {#ent h n#})"
    unfolding content_def using image_mset_one[of "concat nss" n "ent h'" "ent h"] en n l(2) by (simp add: own_def)
  moreover have "same_on (others h L nss) h h'" using h'(4) i(2) by (auto simp: same_on_def others_def)
  ultimately show ?thesis using h'(1) own by (auto simp: others_def)
qed

text \<open>A new item at the head of its bucket.\<close>

lemma add_item:
  assumes t: "table_at t h L nss" "keys_agree t" and new: "\<forall>n \<in> set (concat nss). \<not> hash_table_compare_keys t (link (ent h n)) k"
    and m: "noMemory h = []"
  defines "b \<equiv> bucket_of t k"
  shows "\<exists>item h1 node h2. x_list_prepend k v h = Some (item, h1) \<and> x_list_prepend (buckets t ! b) item h1 = Some (node, h2)
    \<and> table_at (t\<lparr> buckets := (buckets t)[b := node], total_keys := total_keys t + 1 \<rparr>) h2 (insert node (insert item L))
         (nss[b := node # nss ! b])
    \<and> content h2 (nss[b := node # nss ! b]) = add_mset \<lparr> data = v, link = k \<rparr> (content h nss)
    \<and> others h2 (insert node (insert item L)) (nss[b := node # nss ! b]) = others h L nss \<and> same_on (others h L nss) h h2"
proof -
  let ?N = "concat nss" and ?nss = "\<lambda>node. nss[b := node # nss ! b]"
  have l: "live h L" "distinct (own h ?N)" "set (own h ?N) \<subseteq> L" using t(1) by (simp_all add: table_at_def)
  have b: "b < length nss" "length (buckets t) = length nss" "chain h (buckets t ! b) (nss ! b)" "set (nss ! b) \<subseteq> set ?N"
    using table_bucket(1,4,5)[OF t(1), of k] table_bucket(2)[OF t(1)] by (simp_all add: b_def)
  obtain item h1 where h1: "x_list_prepend k v h = Some (item, h1)" "item \<notin> L" "item \<noteq> 0" "live h1 (insert item L)"
    "cells h1 item = Some \<lparr> data = v, link = k \<rparr>" "same_on L h h1"
    using prepend_ok[OF l(1) m] by blast
  have m1: "noMemory h1 = []" using h1(6) m by (simp add: same_on_def)
  obtain node h2 where h2: "x_list_prepend (buckets t ! b) item h1 = Some (node, h2)" "node \<notin> insert item L" "node \<noteq> 0"
    "live h2 (insert node (insert item L))" "cells h2 node = Some \<lparr> data = item, link = buckets t ! b \<rparr>" "same_on (insert item L) h1 h2"
    using prepend_ok[OF h1(4) m1] by blast
  let ?L = "insert node (insert item L)" and ?t = "t\<lparr> buckets := (buckets t)[b := node], total_keys := total_keys t + 1 \<rparr>"
  have s: "same_on L h h2" using h1(6) h2(6) by (rule same_on_trans) auto
  have old: "\<forall>a \<in> set (own h ?N). cells h2 a = cells h a" using s l(3) by (auto simp: same_on_def)
  note fr = own_frame[OF old]
  have item: "data_at h2 node = item" "ent h2 node = \<lparr> data = v, link = k \<rparr>"
    using h2(5) h1(5) same_on_cell[OF h2(6), of item] by (simp_all add: data_at_def ent_def)
  have mm: "mset (concat (?nss node)) = add_mset node (mset ?N)" by (rule concat_push[OF b(1)])
  have sn: "set (concat (?nss node)) = insert node (set ?N)" using arg_cong[OF mm, of set_mset] by simp
  have "own h2 ?N = own h ?N" by (rule fr(1))
  then have own: "mset (own h2 (concat (?nss node))) = mset (node # item # own h ?N)"
    unfolding own_mset[of h2] mm using own_mset[of h2 ?N] item(1) by simp
  have o2: "set (own h2 (concat (?nss node))) = insert node (insert item (set (own h ?N)))"
    using mset_eq_setD[OF own] by simp
  have dist: "distinct (own h2 (concat (?nss node)))"
    using mset_eq_imp_distinct_iff[OF own] l(2,3) h1(2) h2(2) by auto
  have keep: "chain h2 q ms" if "chain h q ms" "set ms \<subseteq> set ?N" for q ms
  proof -
    have "set ms \<subseteq> L" using that(2) l(3) by (auto simp: own_set)
    then show ?thesis using that(1) same_on_path[OF s] by blast
  qed
  have "list_all2 (chain h2) (buckets t) nss"
    using t(1) keep unfolding table_at_def list_all2_conv_all_nth by (metis UN_upper nth_mem set_concat)
  moreover have "chain h2 node (node # nss ! b)" using keep[OF b(3,4)] h2(3,5) by simp
  ultimately have ch: "list_all2 (chain h2) ((buckets t)[b := node]) (?nss node)" by (rule list_all2_update_cong)
  have pl: "bucket_of t (link (ent h2 a)) = i" if i: "i < length nss" "a \<in> set (?nss node ! i)" for i a
  proof (cases "a = node")
    case True
    have "i = b"
    proof (rule ccontr)
      assume "i \<noteq> b"
      then have "node \<in> set ?N" using i True by auto
      then show False using h2(2) l(3) by (auto simp: own_set)
    qed
    then show ?thesis using True item(2) by (simp add: b_def)
  next
    case False
    then have a: "a \<in> set (nss ! i)" using i b(1) by (cases "i = b") auto
    then have "a \<in> set ?N" using i(1) by auto
    then have "ent h2 a = ent h a" by (rule fr(3))
    then show ?thesis using a i(1) t(1) unfolding table_at_def by simp
  qed
  have un: "x = y" if xy: "x \<in> insert node (set ?N)" "y \<in> insert node (set ?N)"
    "hash_table_compare_keys t (link (ent h2 x)) (link (ent h2 y))" for x y
  proof -
    have "\<not> hash_table_compare_keys t k (link (ent h n))" if "n \<in> set ?N" for n
      using new that t(2) unfolding keys_agree_def by (meson equivp_symp)
    then show ?thesis
      using xy new fr(3) item(2) t(1) unfolding table_at_def by (metis insertE x_list.select_convs(2))
  qed
  have len: "length (concat (?nss node)) = Suc (length ?N)" using mset_eq_length[of "concat (?nss node)" "node # ?N"] mm by simp
  have "table_at ?t h2 ?L (?nss node)"
    unfolding table_at_def sn using h2(4) ch pl un len dist o2 l(3) t(1) b(2)
    by (auto simp: table_at_def bucket_of_def)
  moreover have "content h2 (?nss node) = add_mset \<lparr> data = v, link = k \<rparr> (content h nss)"
    unfolding content_def mm using item(2) image_mset_cong[of "mset ?N" "ent h2" "ent h"] fr(3) by (simp only: image_mset_add_mset set_mset_mset)
  moreover have "others h2 ?L (?nss node) = others h L nss" unfolding others_def o2 using h1(2) h2(2) by auto
  moreover have "same_on (others h L nss) h h2" using s by (auto simp: same_on_def others_def)
  ultimately show ?thesis using h1(1) h2(1) by blast
qed

section \<open>Inserting and replacing\<close>

lemma modify_found:
  assumes t: "table_at t h L nss" "keys_agree t" and n: "n \<in> set (concat nss)" "hash_table_compare_keys t (link (ent h n)) k"
  shows "\<exists>h'. hash_table_modify t k v replace h s
      = Some (t, h', hash_table_destroy_item t (if replace then link (ent h n) else k) (data (ent h n)) s)
    \<and> table_at t h' L nss
    \<and> content h' nss = add_mset \<lparr> data = v, link = (if replace then k else link (ent h n)) \<rparr> (content h nss - {#ent h n#})
    \<and> others h' L nss = others h L nss \<and> same_on (others h L nss) h h'"
proof -
  let ?e = "\<lparr> data = v, link = (if replace then k else link (ent h n)) \<rparr>"
  have "hash_table_compare_keys t (link ?e) (link (ent h n))"
    using t(2) n(2) unfolding keys_agree_def by (auto dest: equivp_symp intro: equivp_reflp)
  then obtain h' where h': "store (data_at h n) ?e h = Some h'" "table_at t h' L nss"
    "content h' nss = add_mset ?e (content h nss - {#ent h n#})" "others h' L nss = others h L nss" "same_on (others h L nss) h h'"
    using update_item[OF t n(1)] by blast
  have l: "live h L" "set (own h (concat nss)) \<subseteq> L" using t(1) by (simp_all add: table_at_def)
  have i: "data_at h n \<noteq> 0" "load (data_at h n) h = Some (ent h n)" using load_entry[OF l n(1)] by auto
  have f: "find_item t k (buckets t ! (hash_table_hash_key t k mod hash_table_total_buckets t)) h = Some (data_at h n)"
    using table_search[OF t(1), of k] table_find(2)[OF t n] by simp
  obtain w q where "ent h n = \<lparr> data = w, link = q \<rparr>" by (cases "ent h n")
  then show ?thesis using f i h' by (auto simp: hash_table_modify_def Let_def)
qed

lemma modify_new:
  assumes t: "table_at t h L nss" "keys_agree t" and new: "\<forall>e \<in># content h nss. \<not> hash_table_compare_keys t (link e) k"
    and m: "noMemory h = []"
  shows "\<exists>t' h' L' nss'. hash_table_modify t k v replace h s = Some (t', h', s) \<and> table_at t' h' L' nss' \<and> same_funs t t'
    \<and> content h' nss' = add_mset \<lparr> data = v, link = k \<rparr> (content h nss)
    \<and> others h' L' nss' = others h L nss \<and> same_on (others h L nss) h h'"
proof -
  have f: "find_item t k (buckets t ! (hash_table_hash_key t k mod hash_table_total_buckets t)) h = Some 0"
    using table_search[OF t(1), of k] table_find(1)[OF t, of k] new by (simp add: content_def)
  obtain t1 h1 nss1 where t1: "(if total_keys t + 1 > of_nat (hash_table_total_buckets t) * SPLIT_THRESHOLD_FACTOR
      then hash_table_split t h else Some (t, h)) = Some (t1, h1)" "table_at t1 h1 L nss1" "content h1 nss1 = content h nss"
    "others h1 L nss1 = others h L nss" "same_funs t t1" "\<forall>a \<in> others h L nss. cells h1 a = cells h a" "noMemory h1 = []"
    using split_table[OF t(1)] t(1) m by (cases "total_keys t + 1 > of_nat (hash_table_total_buckets t) * SPLIT_THRESHOLD_FACTOR") auto
  note a = same_funs_apply[OF t1(5)]
  have ag: "keys_agree t1" using a(4) t(2) by simp
  have "\<forall>n \<in> set (concat nss1). \<not> hash_table_compare_keys t1 (link (ent h1 n)) k"
    using new unfolding t1(3)[symmetric] by (simp add: content_def a(2))
  from add_item[OF t1(2) ag this t1(7)] obtain item h2 node h3 where
    h3: "x_list_prepend k v h1 = Some (item, h2)" "x_list_prepend (buckets t1 ! bucket_of t1 k) item h2 = Some (node, h3)"
      "table_at (t1\<lparr> buckets := (buckets t1)[bucket_of t1 k := node], total_keys := total_keys t1 + 1 \<rparr>) h3 (insert node (insert item L))
         (nss1[bucket_of t1 k := node # nss1 ! bucket_of t1 k])"
      "content h3 (nss1[bucket_of t1 k := node # nss1 ! bucket_of t1 k]) = add_mset \<lparr> data = v, link = k \<rparr> (content h1 nss1)"
      "others h3 (insert node (insert item L)) (nss1[bucket_of t1 k := node # nss1 ! bucket_of t1 k]) = others h1 L nss1"
      "same_on (others h1 L nss1) h1 h3"
    by blast
  have "bucket_of t1 k = hash_table_hash_key t k mod hash_table_total_buckets t1" by (simp add: bucket_of_def a(1))
  then have "hash_table_modify t k v replace h s
      = Some (t1\<lparr> buckets := (buckets t1)[bucket_of t1 k := node], total_keys := total_keys t1 + 1 \<rparr>, h3, s)"
    using f t1(1) h3(1,2) by (simp add: hash_table_modify_def Let_def)
  moreover have "same_on (others h L nss) h h3" using h3(6) t1(4,6,7) m by (simp add: same_on_def)
  moreover have "same_funs t (t1\<lparr> buckets := (buckets t1)[bucket_of t1 k := node], total_keys := total_keys t1 + 1 \<rparr>)"
    using t1(5) by simp
  ultimately show ?thesis using h3(3,4,5) t1(3,4) by metis
qed

section \<open>Removing\<close>

lemma remove_item_list:
  assumes l: "live h L" and b: "b < length (buckets t)" and ch: "chain h (buckets t ! b) (as @ bs)"
    and o: "set (own h (as @ bs)) \<subseteq> L" "distinct (own h (as @ bs))"
  shows "case find (\<lambda>n. hash_table_compare_keys t (link (ent h n)) k) bs of
      None \<Rightarrow> remove_item k b (if as = [] then 0 else last as) t h s = Some (t, h, s)
    | Some n \<Rightarrow> \<exists>p h'. remove_item k b (if as = [] then 0 else last as) t h s
          = Some (t\<lparr> buckets := (buckets t)[b := p], total_keys := total_keys t - 1 \<rparr>, h',
                  hash_table_destroy_item t (link (ent h n)) (data (ent h n)) s)
        \<and> chain h' p (as @ remove1 n bs) \<and> holds (data_at h) (L - {data_at h n, n}) h'
        \<and> same_on (L - set (as @ bs) - {data_at h n}) h h'"
  using ch o
proof (induction bs arbitrary: as)
  case Nil
  let ?prev = "if as = [] then 0 else last as"
  have "last as \<noteq> 0" if "as \<noteq> []" using Nil.prems(1) that path_mapped[of h "buckets t ! b" as 0 "last as"] by simp
  then have "(if ?prev = 0 then Some (buckets t ! b) else do { c \<leftarrow> load ?prev h; Some (link c) }) = Some 0"
    using next_of_prev[of h "buckets t ! b" as "[]"] Nil.prems(1) by auto
  then show ?case by (subst remove_item.simps) simp
next
  case (Cons x bs)
  let ?prev = "if as = [] then 0 else last as" and ?p = "buckets t ! b" and ?i = "data_at h x"
  have "last as \<noteq> 0" if "as \<noteq> []" using Cons.prems(1) that path_mapped[of h ?p "as @ x # bs" 0 "last as"] by simp
  then have z: "?prev = 0 \<longleftrightarrow> as = []" by simp
  obtain c where c: "load x h = Some c" "cells h x = Some c" "data c = ?i" "x \<noteq> 0" "load ?i h = Some (ent h x)"
    using load_entry[OF l Cons.prems(2), of x] by auto
  have nxt: "(if as = [] then Some ?p else do { c \<leftarrow> load (last as) h; Some (link c) }) = Some x"
    using next_of_prev[OF Cons.prems(1)] by simp
  show ?case
  proof (cases "hash_table_compare_keys t (link (ent h x)) k")
    case False
    have step: "remove_item k b ?prev t h s = remove_item k b x t h s"
      using nxt z c False by (subst remove_item.simps) (auto split: if_splits)
    have "chain h ?p ((as @ [x]) @ bs)" "set (own h ((as @ [x]) @ bs)) \<subseteq> L" "distinct (own h ((as @ [x]) @ bs))"
      using Cons.prems by simp_all
    note IH = Cons.IH[OF this]
    show ?thesis
    proof (cases "find (\<lambda>n. hash_table_compare_keys t (link (ent h n)) k) bs")
      case None
      then show ?thesis using IH False step by simp
    next
      case (Some n)
      then have "hash_table_compare_keys t (link (ent h n)) k" by (auto simp: find_Some_iff)
      then have "n \<noteq> x" using False by auto
      then show ?thesis using IH False step Some by simp
    qed
  next
    case True
    have xi: "x \<noteq> ?i" "?i \<notin> set (as @ x # bs)" "x \<notin> set as" "x \<notin> set bs" using Cons.prems(3) by (auto simp: own_def)
    have L: "?i \<in> L" "set (as @ x # bs) \<subseteq> L" using Cons.prems(2) by (auto simp: own_set)
    obtain h1 where h1: "x_list_free_1 ?i h = Some h1" "holds (data_at h) (L - {?i}) h1" "same_on (L - {?i}) h h1"
      using free_holds[OF holds_self[OF l] L(1)] by blast
    have sub: "set (as @ x # bs) \<subseteq> L - {?i}" using L(2) xi(2) by blast
    have ch1: "chain h1 ?p (as @ x # bs)" using Cons.prems(1) same_on_path[OF h1(3) sub] by blast
    have c1: "cells h1 x = Some c" "load x h1 = Some c" using same_on_cell[OF h1(3), of x] sub c(2,4) by (simp_all add: load_def)
    have "\<exists>p h2. (if as = [] then Some (t\<lparr> buckets := (buckets t)[b := link c] \<rparr>, h1)
        else do { h \<leftarrow> set_next (last as) (link c) h1; Some (t, h) }) = Some (t\<lparr> buckets := (buckets t)[b := p] \<rparr>, h2)
      \<and> chain h2 p (as @ bs) \<and> holds (data_at h) (L - {?i}) h2 \<and> same_on (L - {?i} - set as) h1 h2"
    proof (cases as rule: rev_cases)
      case Nil
      then show ?thesis using ch1 c1(1) h1(2) by (intro exI[of _ "link c"] exI[of _ h1]) simp
    next
      case (snoc ys a)
      obtain h2 where "set_next a (link c) h1 = Some h2" "holds (data_at h) (L - {?i}) h2" "chain h2 ?p (ys @ a # bs)"
        "same_on (L - {?i} - {a}) h1 h2"
        using unlink_node[OF h1(2) _ _ c1(1), of ?p ys a bs] ch1 sub snoc by auto
      then show ?thesis using snoc by (intro exI[of _ ?p] exI[of _ h2]) (auto simp: same_on_def)
    qed
    then obtain p h2 where h2: "(if as = [] then Some (t\<lparr> buckets := (buckets t)[b := link c] \<rparr>, h1)
        else do { h \<leftarrow> set_next (last as) (link c) h1; Some (t, h) }) = Some (t\<lparr> buckets := (buckets t)[b := p] \<rparr>, h2)"
      "chain h2 p (as @ bs)" "holds (data_at h) (L - {?i}) h2" "same_on (L - {?i} - set as) h1 h2" by blast
    obtain h3 where h3: "x_list_free_1 x h2 = Some h3" "holds (data_at h) (L - {?i} - {x}) h3" "same_on (L - {?i} - {x}) h2 h3"
      using free_holds[OF h2(3), of x] sub by auto
    have "set (as @ bs) \<subseteq> L - {?i} - {x}" using sub xi(3,4) by auto
    then have "chain h3 p (as @ bs)" using h2(2) same_on_path[OF h3(3)] by blast
    moreover have "same_on (L - set (as @ x # bs) - {?i}) h h2" using h1(3) h2(4) by (rule same_on_trans) auto
    then have "same_on (L - set (as @ x # bs) - {?i}) h h3" using h3(3) by (rule same_on_trans) auto
    moreover have "remove_item k b ?prev t h s
        = Some (t\<lparr> buckets := (buckets t)[b := p], total_keys := total_keys t - 1 \<rparr>, h3,
                hash_table_destroy_item t (link (ent h x)) (data (ent h x)) s)"
    proof -
      have "remove_item k b ?prev t h s = do { (t', h') \<leftarrow> (if as = [] then Some (t\<lparr> buckets := (buckets t)[b := link c] \<rparr>, h1)
            else do { h \<leftarrow> set_next (last as) (link c) h1; Some (t, h) });
          h' \<leftarrow> x_list_free_1 x h';
          Some (t'\<lparr> total_keys := total_keys t' - 1 \<rparr>, h', hash_table_destroy_item t (link (ent h x)) (data (ent h x)) s) }"
        using nxt z c(1,3,4,5) True h1(1) c1(2) by (subst remove_item.simps) (auto simp: Let_def split: if_splits)
      then show ?thesis using h2(1) h3(1) by simp
    qed
    moreover have "L - {?i} - {x} = L - {?i, x}" by auto
    ultimately show ?thesis using True h3(2) by auto
  qed
qed

lemma remove_found:
  assumes t: "table_at t h L nss" "keys_agree t" and n: "n \<in> set (concat nss)" "hash_table_compare_keys t (link (ent h n)) k"
  shows "\<exists>t' h' nss'. x_hash_table_remove t k h s = Some (t', h', hash_table_destroy_item t (link (ent h n)) (data (ent h n)) s)
    \<and> table_at t' h' (L - {data_at h n, n}) nss' \<and> same_funs t t' \<and> content h' nss' = content h nss - {#ent h n#}
    \<and> others h' (L - {data_at h n, n}) nss' = others h L nss \<and> same_on (others h L nss) h h'"
proof -
  let ?N = "concat nss" and ?b = "bucket_of t k" and ?i = "data_at h n"
  let ?nss = "nss[?b := remove1 n (nss ! ?b)]"
  have l: "live h L" "distinct (own h ?N)" "set (own h ?N) \<subseteq> L" using t(1) by (simp_all add: table_at_def)
  note b = table_bucket(1,4,5)[OF t(1), of k] table_bucket(2)[OF t(1)]
  have f: "find (\<lambda>n. hash_table_compare_keys t (link (ent h n)) k) (nss ! ?b) = Some n" by (rule table_find(2)[OF t n])
  then have nb: "n \<in> set (nss ! ?b)" by (auto simp: find_Some_iff)
  note part = bucket_part[OF t(1), of k]
  obtain p h' where h': "remove_item k ?b 0 t h s = Some (t\<lparr> buckets := (buckets t)[?b := p], total_keys := total_keys t - 1 \<rparr>, h',
      hash_table_destroy_item t (link (ent h n)) (data (ent h n)) s)"
    "chain h' p (remove1 n (nss ! ?b))" "holds (data_at h) (L - {?i, n}) h'" "same_on (L - set (nss ! ?b) - {?i}) h h'"
    using remove_item_list[OF l(1), of ?b t "[]" "nss ! ?b" k s] b part f by auto
  let ?t = "t\<lparr> buckets := (buckets t)[?b := p], total_keys := total_keys t - 1 \<rparr>" and ?L = "L - {?i, n}"
  have mb: "mset (nss ! ?b) = add_mset n (mset (remove1 n (nss ! ?b)))" using nb by simp
  have mm: "mset ?N = add_mset n (mset (concat ?nss))" using concat_update[OF b(1), of "remove1 n (nss ! ?b)"] unfolding mb by simp
  have dN: "distinct ?N" using l(2) by (simp add: own_def)
  have sN: "set ?N = insert n (set (concat ?nss))" "n \<notin> set (concat ?nss)"
    using mset_eq_setD[of ?N "n # concat ?nss"] mset_eq_imp_distinct_iff[of ?N "n # concat ?nss"] mm dN by simp_all
  have d: "data_at h' m = data_at h m" and e: "ent h' m = ent h m" and iL: "data_at h m \<in> ?L" "m \<in> ?L" if m: "m \<in> set (concat ?nss)" for m
  proof -
    have mN: "m \<in> set ?N" "m \<noteq> n" using m sN by auto
    then have i: "data_at h m \<noteq> ?i" "data_at h m \<notin> set ?N" "?i \<noteq> m" "data_at h m \<noteq> n"
      using own_inj[OF l(2) mN(1) n(1)] own_inj(2)[OF l(2) n(1) mN(1)] l(2) mN(1) by (auto simp: own_def)
    have "m \<in> L" "data_at h m \<in> L" using mN(1) l(3) unfolding own_set by blast+
    then show L: "m \<in> ?L" and dL: "data_at h m \<in> ?L" using mN(2) i by simp_all
    show "data_at h' m = data_at h m" using L h'(3) by (simp add: holds_def)
    moreover have "data_at h m \<in> L - set (nss ! ?b) - {?i}" using dL i(2) b(3) by auto
    ultimately show "ent h' m = ent h m" using same_on_cell[OF h'(4)] by (simp add: ent_def)
  qed
  have own: "mset (own h ?N) = add_mset n (add_mset ?i (mset (own h' (concat ?nss))))"
    unfolding own_mset mm using image_mset_cong[of "mset (concat ?nss)" "data_at h'" "data_at h"] d
    by (simp only: image_mset_add_mset set_mset_mset) simp
  have o2: "set (own h' (concat ?nss)) = set (own h ?N) - {?i, n}" "distinct (own h' (concat ?nss))"
    using mset_eq_setD[of "own h ?N" "n # ?i # own h' (concat ?nss)"]
      mset_eq_imp_distinct_iff[of "own h ?N" "n # ?i # own h' (concat ?nss)"] own l(2)
    by auto
  have sub: "set (own h' (concat ?nss)) \<subseteq> ?L" using o2(1) l(3) by auto
  have pl: "\<forall>i < length nss. \<forall>m \<in> set (nss ! i). bucket_of t (link (ent h m)) = i" using t(1) by (simp add: table_at_def)
  have ch: "list_all2 (chain h') ((buckets t)[?b := p]) ?nss"
  proof (intro list_all2_all_nthI)
    show "length ((buckets t)[?b := p]) = length ?nss" using b(4) by simp
    fix i assume i: "i < length ((buckets t)[?b := p])"
    show "chain h' ((buckets t)[?b := p] ! i) (?nss ! i)"
    proof (cases "i = ?b")
      case True
      then show ?thesis using h'(2) b(1,4) by simp
    next
      case False
      have il: "i < length nss" using i b(4) by simp
      have "m \<notin> set (nss ! ?b)" if "m \<in> set (nss ! i)" for m using pl il b(1) that False by metis
      moreover have "set (nss ! i) \<subseteq> set ?N" using nth_mem[OF il] unfolding set_concat by blast
      then have "set (nss ! i) \<subseteq> L" "?i \<notin> set (nss ! i)" using l(3) own_inj(2)[OF l(2) n(1)] by (auto simp: own_set)
      ultimately have "set (nss ! i) \<subseteq> L - set (nss ! ?b) - {?i}" by blast
      moreover have "chain h (buckets t ! i) (nss ! i)" using t(1) il unfolding table_at_def by (auto dest: list_all2_nthD2)
      ultimately show ?thesis using False same_on_path[OF h'(4)] by simp
    qed
  qed
  have pl': "bucket_of t (link (ent h' m)) = i" if i: "i < length nss" "m \<in> set (?nss ! i)" for i m
  proof -
    have "m \<in> set (nss ! i)" using i set_remove1_subset[of n "nss ! ?b"] by (cases "i = ?b") auto
    moreover have "m \<in> set (concat ?nss)" using i by (metis UN_I length_list_update nth_mem set_concat)
    ultimately show ?thesis using pl i(1) e by simp
  qed
  have un: "x = y" if "x \<in> set (concat ?nss)" "y \<in> set (concat ?nss)" "hash_table_compare_keys t (link (ent h' x)) (link (ent h' y))" for x y
    using that e sN(1) t(1) unfolding table_at_def by auto
  have len: "length ?N = Suc (length (concat ?nss))" using mset_eq_length[of ?N "n # concat ?nss"] mm by simp
  have "table_at ?t h' ?L ?nss"
    unfolding table_at_def using holds_live[OF h'(3)] ch pl' un len o2(2) sub t(1)
    by (auto simp: table_at_def bucket_of_def)
  moreover have "content h nss = add_mset (ent h n) (content h' ?nss)"
    unfolding content_def mm using image_mset_cong[of "mset (concat ?nss)" "ent h'" "ent h"] e by (simp only: image_mset_add_mset set_mset_mset)
  then have "content h' ?nss = content h nss - {#ent h n#}" by simp
  moreover have "others h' ?L ?nss = others h L nss" unfolding others_def o2(1) using n(1) by (auto simp: own_set)
  moreover have "same_on (others h L nss) h h'" using h'(4) b(3) n(1) by (auto simp: same_on_def others_def own_set)
  moreover have "x_hash_table_remove t k h s = Some (?t, h', hash_table_destroy_item t (link (ent h n)) (data (ent h n)) s)"
    using h'(1) by (simp add: x_hash_table_remove_def bucket_of_def)
  moreover have "same_funs t ?t" by simp
  ultimately show ?thesis by blast
qed

lemma remove_missing:
  assumes t: "table_at t h L nss" "keys_agree t" and new: "\<forall>e \<in># content h nss. \<not> hash_table_compare_keys t (link e) k"
  shows "x_hash_table_remove t k h s = Some (t, h, s)"
proof -
  have l: "live h L" using t(1) by (simp add: table_at_def)
  note b = table_bucket(1,4,5)[OF t(1), of k] table_bucket(2)[OF t(1)]
  have "find (\<lambda>n. hash_table_compare_keys t (link (ent h n)) k) (nss ! bucket_of t k) = None"
    using table_find(1)[OF t, of k] new by (simp add: content_def)
  then show ?thesis
    using remove_item_list[OF l, of "bucket_of t k" t "[]" "nss ! bucket_of t k" k s] b bucket_part[OF t(1), of k]
    by (auto simp: x_hash_table_remove_def bucket_of_def)
qed

end
