(* ===== verification/XHashSpec.thy ===== *)
theory XHashSpec
  imports XHashOps
begin

text \<open>
  What a hash table promises: it is a finite map with stored keys, through any growth; walking visits every entry
  once; every key and value handed in is destroyed exactly once; freeing gives all its cells back.
\<close>

section \<open>Walking, freeing and creating\<close>

lemma foreach_item_list:
  assumes "live h L" "chain h p ns" "set (own h ns) \<subseteq> L"
  shows "foreach_item f user p h s = Some (fold (\<lambda>e. f (link e) (data e) user) (map (ent h) ns) s)"
  using assms(2,3)
proof (induction ns arbitrary: p s)
  case Nil
  then show ?case by (subst foreach_item.simps) simp
next
  case (Cons a as)
  obtain c where c: "load p h = Some c" "p = a" "p \<noteq> 0" "cells h a = Some c" "chain h (link c) as"
    using load_path[OF Cons.prems(1)] by blast
  have "load (data c) h = Some (ent h a)"
    using load_entry[OF assms(1) Cons.prems(2), of a] c(4) by auto
  then show ?case using c Cons.IH[OF c(5)] Cons.prems(2) by (subst foreach_item.simps) (auto simp: own_set)
qed

lemma foreach_bucket_list:
  assumes "live h L" "list_all2 (chain h) ps nss" "set (own h (concat nss)) \<subseteq> L"
  shows "foreach_bucket f user ps h s = Some (fold (\<lambda>e. f (link e) (data e) user) (map (ent h) (concat nss)) s)"
  using assms(2,3)
proof (induction nss arbitrary: ps s rule: list.induct)
  case (Cons ns nss)
  obtain p qs where p: "ps = p # qs" "chain h p ns" "list_all2 (chain h) qs nss" using Cons.prems(1) by (cases ps) simp_all
  have "set (own h ns) \<subseteq> L" "set (own h (concat nss)) \<subseteq> L" using Cons.prems(2) by (simp_all add: own_union)
  then show ?case using p Cons.IH[OF p(3)] foreach_item_list[OF assms(1) p(2), of f user s] by simp
qed simp

lemma foreach_table:
  assumes "table_at t h L nss"
  shows "x_hash_table_foreach t f user h s = Some (fold (\<lambda>e. f (link e) (data e) user) (map (ent h) (concat nss)) s)"
  using foreach_bucket_list[of h L "buckets t" nss f user s] assms unfolding x_hash_table_foreach_def table_at_def by blast

lemma free_items_list:
  assumes "live h L" "chain h p ns" "set (own h ns) \<subseteq> L" "distinct (own h ns)"
  shows "\<exists>h'. free_items t p h s = Some (h', fold (\<lambda>e. hash_table_destroy_item t (link e) (data e)) (map (ent h) ns) s)
    \<and> live h' (L - data_at h ` set ns) \<and> same_on (L - data_at h ` set ns) h h'"
  using assms
proof (induction ns arbitrary: p h L s)
  case Nil
  then show ?case by (subst free_items.simps) simp
next
  case (Cons a as)
  let ?i = "data_at h a"
  obtain c where c: "load p h = Some c" "p = a" "p \<noteq> 0" "cells h a = Some c" "chain h (link c) as"
    using load_path[OF Cons.prems(2)] by blast
  have i: "load (data c) h = Some (ent h a)" "data c = ?i" using load_entry[OF Cons.prems(1,3), of a] c(4) by auto
  have L: "?i \<in> L" "a \<in> L" "set (own h as) \<subseteq> L" using Cons.prems(3) by (auto simp: own_set)
  have new: "?i \<notin> set (own h as)" "?i \<noteq> a" "distinct (own h as)" using Cons.prems(4) by (auto simp: own_def)
  obtain h1 where h1: "x_list_free_1 ?i h = Some h1" "live h1 (L - {?i})" "same_on (L - {?i}) h h1"
    using free_node_ok[OF Cons.prems(1) L(1)] by blast
  have sub: "set (own h as) \<subseteq> L - {?i}" using L(3) new(1) by blast
  then have "\<forall>x \<in> set (own h as). cells h1 x = cells h x" using h1(3) by (auto simp: same_on_def)
  note fr = own_frame[OF this]
  have "set as \<subseteq> L - {?i}" using sub by (auto simp: own_set)
  then have as: "chain h1 (link c) as" using c(5) same_on_path[OF h1(3)] by blast
  have "load p h1 = Some c" using same_on_cell[OF h1(3), of a] L(2) new(2) c(2,3,4) by (simp add: load_def)
  moreover obtain h' where h': "free_items t (link c) h1 (hash_table_destroy_item t (link (ent h a)) (data (ent h a)) s)
      = Some (h', fold (\<lambda>e. hash_table_destroy_item t (link e) (data e)) (map (ent h1) as)
          (hash_table_destroy_item t (link (ent h a)) (data (ent h a)) s))"
    "live h' (L - {?i} - data_at h1 ` set as)" "same_on (L - {?i} - data_at h1 ` set as) h1 h'"
    using Cons.IH[OF h1(2) as, unfolded fr(1), OF sub new(3)] by blast
  moreover have e: "map (ent h1) as = map (ent h) as" "data_at h1 ` set as = data_at h ` set as" using fr(2,3) by simp_all
  moreover have "L - {?i} - data_at h ` set as = L - data_at h ` set (a # as)" by auto
  moreover have "same_on (L - data_at h ` set (a # as)) h h'" using h1(3) h'(3) unfolding e(2) by (rule same_on_trans) auto
  ultimately show ?case using c(1,2,3) i h1(1) by (subst free_items.simps) (simp add: Let_def)
qed

lemma free_buckets_list:
  assumes "live h L" "list_all2 (chain h) ps nss" "set (own h (concat nss)) \<subseteq> L" "distinct (own h (concat nss))"
  shows "\<exists>h'. free_buckets t ps h s = Some (h', fold (\<lambda>e. hash_table_destroy_item t (link e) (data e)) (map (ent h) (concat nss)) s)
    \<and> live h' (L - set (own h (concat nss))) \<and> same_on (L - set (own h (concat nss))) h h'"
  using assms
proof (induction nss arbitrary: ps h L s)
  case Nil
  then show ?case by (simp add: own_def)
next
  case (Cons ns nss)
  let ?N = "concat nss" and ?s = "fold (\<lambda>e. hash_table_destroy_item t (link e) (data e)) (map (ent h) ns) s"
  obtain p qs where p: "ps = p # qs" "chain h p ns" "list_all2 (chain h) qs nss" using Cons.prems(2) by (cases ps) simp_all
  have o: "set (own h ns) \<subseteq> L" "distinct (own h ns)" "set (own h ?N) \<subseteq> L" "distinct (own h ?N)"
    "set (own h ns) \<inter> set (own h ?N) = {}"
  proof -
    have m: "mset (own h (concat (ns # nss))) = mset (own h ns @ own h ?N)" by (simp add: own_mset)
    have "distinct (own h ns @ own h ?N)" "set (own h ns @ own h ?N) \<subseteq> L"
      using Cons.prems(3,4) mset_eq_imp_distinct_iff[OF m] mset_eq_setD[OF m] by simp_all
    then show "set (own h ns) \<subseteq> L" "distinct (own h ns)" "set (own h ?N) \<subseteq> L" "distinct (own h ?N)"
      "set (own h ns) \<inter> set (own h ?N) = {}" by auto
  qed
  obtain h1 where h1: "free_items t p h s = Some (h1, ?s)" "live h1 (L - data_at h ` set ns)" "same_on (L - data_at h ` set ns) h h1"
    using free_items_list[OF Cons.prems(1) p(2) o(1,2), of t s] by blast
  have ns: "set ns \<subseteq> L - data_at h ` set ns" using o(1,2) by (auto simp: own_def)
  then have "chain h1 p ns" using p(2) same_on_path[OF h1(3)] by blast
  then obtain h2 where h2: "x_list_free p h1 = Some h2" "live h2 (L - data_at h ` set ns - set ns)"
    "same_on (L - data_at h ` set ns - set ns) h1 h2"
    using free_list[OF h1(2) _ ns, of p] by blast
  have Lo: "L - data_at h ` set ns - set ns = L - set (own h ns)" by (auto simp: own_set)
  have s2: "same_on (L - set (own h ns)) h h2" using h1(3) h2(3) unfolding Lo by (rule same_on_trans) (auto simp: own_set)
  have sub: "set (own h ?N) \<subseteq> L - set (own h ns)" using o(3,5) by blast
  then have "\<forall>x \<in> set (own h ?N). cells h2 x = cells h x" using s2 by (auto simp: same_on_def)
  note fr = own_frame[OF this]
  have "chain h2 q ms" if "chain h q ms" "ms \<in> set nss" for q ms
  proof -
    have "set ms \<subseteq> L - set (own h ns)" using sub that(2) by (auto simp: own_set)
    then show ?thesis using that(1) same_on_path[OF s2] by blast
  qed
  then have "list_all2 (chain h2) qs nss" using p(3) by (auto simp: list_all2_conv_all_nth)
  from Cons.IH[OF h2(2)[unfolded Lo] this, unfolded fr(1), OF sub o(4)] obtain h' where
    h': "free_buckets t qs h2 ?s = Some (h', fold (\<lambda>e. hash_table_destroy_item t (link e) (data e)) (map (ent h2) ?N) ?s)"
      "live h' (L - set (own h ns) - set (own h ?N))" "same_on (L - set (own h ns) - set (own h ?N)) h2 h'"
    by blast
  have e: "map (ent h2) ?N = map (ent h) ?N" using fr(3) by (intro map_cong refl)
  have Ln: "L - set (own h ns) - set (own h ?N) = L - set (own h (concat (ns # nss)))" by (auto simp: own_set)
  have "same_on (L - set (own h (concat (ns # nss)))) h h'" using s2 h'(3) unfolding Ln by (rule same_on_trans) (auto simp: own_set)
  moreover have "free_buckets t ps h s
      = Some (h', fold (\<lambda>e. hash_table_destroy_item t (link e) (data e)) (map (ent h) (concat (ns # nss))) s)"
    using p(1) h1(1) h2(1) h'(1) e by simp
  ultimately show ?case using h'(2) unfolding Ln by blast
qed

lemma free_table:
  assumes "table_at t h L nss"
  shows "\<exists>h'. x_hash_table_free t h s = Some (h', fold (\<lambda>e. hash_table_destroy_item t (link e) (data e)) (map (ent h) (concat nss)) s)
    \<and> live h' (others h L nss) \<and> same_on (others h L nss) h h'"
  using free_buckets_list[of h L "buckets t" nss t s] assms unfolding x_hash_table_free_def table_at_def others_def by blast

lemma new_table:
  assumes "live h L" "noMemory h = []"
  shows "\<exists>t. x_hash_table_new hash cmp dk dv h = (Some t, h) \<and> table_at t h L (replicate 29 []) \<and> hash_key t = hash \<and> compare_keys t = cmp
    \<and> destroy_key t = dk \<and> destroy_value t = dv \<and> content h (replicate 29 []) = {#} \<and> others h L (replicate 29 []) = L"
proof -
  have "concat (replicate 29 ([] :: nat list)) = []" by simp
  moreover have "list_all2 (chain h) (replicate 29 0) (replicate 29 [])" by (simp add: list_all2_conv_all_nth)
  ultimately show ?thesis
    using assms by (auto simp: x_hash_table_new_def x_calloc_def table_at_def hash_table_total_buckets_def bucket_sizes_def
        own_def content_def others_def)
qed

section \<open>The table as a map\<close>

text \<open>The item of a key, if there is one, as the search of the code finds it.\<close>

definition table_map :: "'s x_hash_table \<Rightarrow> x_heap \<Rightarrow> ptr \<Rightarrow> x_list option" where
  "table_map t h k =
     do { item \<leftarrow> find_item t k (buckets t ! (hash_table_hash_key t k mod hash_table_total_buckets t)) h; load item h }"

lemma map_content:
  assumes "table_at t h L nss" "keys_agree t"
  shows "table_map t h k = Some e \<longleftrightarrow> e \<in># content h nss \<and> hash_table_compare_keys t (link e) k"
proof -
  have l: "live h L" "set (own h (concat nss)) \<subseteq> L" using assms(1) by (simp_all add: table_at_def)
  show ?thesis
  proof (cases "find (\<lambda>n. hash_table_compare_keys t (link (ent h n)) k) (nss ! bucket_of t k)")
    case None
    then have "table_map t h k = None" using table_search[OF assms(1), of k] by (simp add: table_map_def load_def)
    then show ?thesis using None table_find(1)[OF assms, of k] by (auto simp: content_def)
  next
    case (Some n)
    have "n \<in> set (nss ! bucket_of t k)" and k: "hash_table_compare_keys t (link (ent h n)) k" using Some by (auto simp: find_Some_iff)
    then have "n \<in> set (concat nss)" using table_bucket(5)[OF assms(1), of k] by blast
    note n = this k
    have "load (data_at h n) h = Some (ent h n)" using load_entry[OF l n(1)] by blast
    then have "table_map t h k = Some (ent h n)" using Some table_search[OF assms(1), of k] by (simp add: table_map_def)
    moreover have "ent h m = ent h n" if "m \<in> set (concat nss)" "hash_table_compare_keys t (link (ent h m)) k" for m
      using table_find(2)[OF assms that] Some by simp
    ultimately have "table_map t h k = Some e \<longleftrightarrow> (\<exists>m \<in> set (concat nss). e = ent h m \<and> hash_table_compare_keys t (link (ent h m)) k)"
      using n by (metis option.inject)
    then show ?thesis by (auto simp: content_def)
  qed
qed

lemma map_missing:
  assumes "table_at t h L nss" "keys_agree t"
  shows "table_map t h k = None \<longleftrightarrow> (\<forall>e \<in># content h nss. \<not> hash_table_compare_keys t (link e) k)"
  using map_content[OF assms, of k] by (metis not_None_eq)

lemma lookup_map:
  assumes "table_at t h L nss" "keys_agree t"
  shows "x_hash_table_lookup t k h = Some (case table_map t h k of Some e \<Rightarrow> (data e, link e) | None \<Rightarrow> (0, 0))"
proof (cases "table_map t h k")
  case None
  then have "\<forall>e \<in># content h nss. \<not> hash_table_compare_keys t (link e) k" using map_missing[OF assms] by blast
  then show ?thesis unfolding None option.case by (rule lookup_content(2)[OF assms])
next
  case (Some e)
  then show ?thesis using lookup_content(1)[OF assms, of e k] map_content[OF assms, of k e] by simp
qed

section \<open>The calls\<close>

datatype table_call = Insert ptr ptr | Replace ptr ptr | Remove ptr

fun table_step :: "table_call \<Rightarrow> 's x_hash_table \<times> x_heap \<times> 's \<Rightarrow> ('s x_hash_table \<times> x_heap \<times> 's) option" where
  "table_step (Insert k v) (t, h, s) = x_hash_table_insert t k v h s"
| "table_step (Replace k v) (t, h, s) = x_hash_table_replace t k v h s"
| "table_step (Remove k) (t, h, s) = x_hash_table_remove t k h s"

text \<open>
  What a call does to the items \<open>M\<close> and the client's state \<open>s\<close>: an insertion keeps the stored key and destroys
  the new one, a replacement the other way round; both destroy the old value.
\<close>

fun call_spec :: "'s x_hash_table \<Rightarrow> table_call \<Rightarrow> x_list multiset \<Rightarrow> 's \<Rightarrow> x_list multiset \<Rightarrow> 's \<Rightarrow> bool" where
  "call_spec t (Insert k v) M s M' s' \<longleftrightarrow>
     (\<exists>e. e \<in># M \<and> hash_table_compare_keys t (link e) k \<and> M' = add_mset \<lparr> data = v, link = link e \<rparr> (M - {#e#})
        \<and> s' = hash_table_destroy_item t k (data e) s)
     \<or> (\<forall>e \<in># M. \<not> hash_table_compare_keys t (link e) k) \<and> M' = add_mset \<lparr> data = v, link = k \<rparr> M \<and> s' = s"
| "call_spec t (Replace k v) M s M' s' \<longleftrightarrow>
     (\<exists>e. e \<in># M \<and> hash_table_compare_keys t (link e) k \<and> M' = add_mset \<lparr> data = v, link = k \<rparr> (M - {#e#})
        \<and> s' = hash_table_destroy_item t (link e) (data e) s)
     \<or> (\<forall>e \<in># M. \<not> hash_table_compare_keys t (link e) k) \<and> M' = add_mset \<lparr> data = v, link = k \<rparr> M \<and> s' = s"
| "call_spec t (Remove k) M s M' s' \<longleftrightarrow>
     (\<exists>e. e \<in># M \<and> hash_table_compare_keys t (link e) k \<and> M' = M - {#e#}
        \<and> s' = hash_table_destroy_item t (link e) (data e) s)
     \<or> (\<forall>e \<in># M. \<not> hash_table_compare_keys t (link e) k) \<and> M' = M \<and> s' = s"

text \<open>A table whose foreign live cells are \<open>O\<close>.\<close>

definition table_good :: "'s x_hash_table \<Rightarrow> x_heap \<Rightarrow> nat set \<Rightarrow> x_list multiset \<Rightarrow> bool" where
  "table_good t h F M \<longleftrightarrow> keys_agree t \<and> noMemory h = [] \<and> (\<exists>L nss. table_at t h L nss \<and> content h nss = M \<and> others h L nss = F)"

lemma table_step_ok:
  assumes "table_good t h F M"
  shows "\<exists>t' h' s' M'. table_step c (t, h, s) = Some (t', h', s') \<and> table_good t' h' F M' \<and> same_funs t t'
    \<and> call_spec t c M s M' s' \<and> same_on F h h'"
proof -
  obtain L nss where t: "table_at t h L nss" "content h nss = M" "others h L nss = F" and ag: "keys_agree t" and m: "noMemory h = []"
    using assms by (auto simp: table_good_def)
  have good: "table_good t' h' F M'" if "table_at t' h' L' nss'" "same_funs t t'" "content h' nss' = M'" "others h' L' nss' = F" "same_on F h h'"
    for t' h' L' nss' M'
    using that ag m same_funs_apply(4)[OF that(2)] unfolding table_good_def same_on_def by auto
  define k where "k = (case c of Insert k v \<Rightarrow> k | Replace k v \<Rightarrow> k | Remove k \<Rightarrow> k)"
  show ?thesis
  proof (cases "\<exists>n \<in> set (concat nss). hash_table_compare_keys t (link (ent h n)) k")
    case True
    then obtain n where n: "n \<in> set (concat nss)" "hash_table_compare_keys t (link (ent h n)) k" by blast
    have e: "ent h n \<in># M" using n(1) unfolding t(2)[symmetric] content_def by simp
    show ?thesis
    proof (cases c)
      case (Insert k' v)
      then have kk: "k' = k" by (simp add: k_def)
      obtain h' where h': "hash_table_modify t k v False h s = Some (t, h', hash_table_destroy_item t k (data (ent h n)) s)"
        "table_at t h' L nss" "content h' nss = add_mset \<lparr> data = v, link = link (ent h n) \<rparr> (M - {#ent h n#})"
        "others h' L nss = F" "same_on F h h'"
        using modify_found[OF t(1) ag n, of v False s] unfolding t(2,3) by auto
      have "call_spec t c M s (add_mset \<lparr> data = v, link = link (ent h n) \<rparr> (M - {#ent h n#})) (hash_table_destroy_item t k (data (ent h n)) s)"
        using Insert kk e n(2) by auto
      then show ?thesis using h' good[OF h'(2) same_funs_refl h'(3,4,5)] Insert kk by (auto simp: x_hash_table_insert_def)
    next
      case (Replace k' v)
      then have kk: "k' = k" by (simp add: k_def)
      obtain h' where h': "hash_table_modify t k v True h s = Some (t, h', hash_table_destroy_item t (link (ent h n)) (data (ent h n)) s)"
        "table_at t h' L nss" "content h' nss = add_mset \<lparr> data = v, link = k \<rparr> (M - {#ent h n#})"
        "others h' L nss = F" "same_on F h h'"
        using modify_found[OF t(1) ag n, of v True s] unfolding t(2,3) by auto
      have "call_spec t c M s (add_mset \<lparr> data = v, link = k \<rparr> (M - {#ent h n#})) (hash_table_destroy_item t (link (ent h n)) (data (ent h n)) s)"
        using Replace kk e n(2) by auto
      then show ?thesis using h' good[OF h'(2) same_funs_refl h'(3,4,5)] Replace kk by (auto simp: x_hash_table_replace_def)
    next
      case (Remove k')
      then have kk: "k' = k" by (simp add: k_def)
      obtain t' h' nss' where h': "x_hash_table_remove t k h s = Some (t', h', hash_table_destroy_item t (link (ent h n)) (data (ent h n)) s)"
        "table_at t' h' (L - {data_at h n, n}) nss'" "same_funs t t'" "content h' nss' = M - {#ent h n#}"
        "others h' (L - {data_at h n, n}) nss' = F" "same_on F h h'"
        using remove_found[OF t(1) ag n, of s] unfolding t(2,3) by auto
      have "call_spec t c M s (M - {#ent h n#}) (hash_table_destroy_item t (link (ent h n)) (data (ent h n)) s)"
        using Remove kk e n(2) by auto
      then show ?thesis using h'(1,3,6) good[OF h'(2,3,4,5,6)] Remove kk by auto
    qed
  next
    case False
    then have no: "\<forall>e \<in># M. \<not> hash_table_compare_keys t (link e) k" unfolding t(2)[symmetric] content_def by auto
    have add: "\<exists>t' h'. hash_table_modify t k v r h s = Some (t', h', s) \<and> table_good t' h' F (add_mset \<lparr> data = v, link = k \<rparr> M)
      \<and> same_funs t t' \<and> same_on F h h'" for v r
      using modify_new[OF t(1) ag no[folded t(2)] m, of v r s] good unfolding t(2,3) by metis
    show ?thesis
    proof (cases c)
      case (Insert k' v)
      then have "k' = k" by (simp add: k_def)
      then show ?thesis using add[of v False] Insert no by (fastforce simp: x_hash_table_insert_def)
    next
      case (Replace k' v)
      then have "k' = k" by (simp add: k_def)
      then show ?thesis using add[of v True] Replace no by (fastforce simp: x_hash_table_replace_def)
    next
      case (Remove k')
      then have "k' = k" by (simp add: k_def)
      then show ?thesis using remove_missing[OF t(1) ag no[folded t(2)], of s] assms Remove no by auto
    qed
  qed
qed

section \<open>The calls on a map\<close>

text \<open>The calls of a table on a map from keys to items, \<open>same\<close> the comparison of keys.\<close>

fun map_step :: "(ptr \<Rightarrow> ptr \<Rightarrow> bool) \<Rightarrow> table_call \<Rightarrow> (ptr \<Rightarrow> x_list option) \<Rightarrow> ptr \<Rightarrow> x_list option" where
  "map_step same (Insert k v) m k' =
     (if same k k' then Some \<lparr> data = v, link = (case m k of Some e \<Rightarrow> link e | None \<Rightarrow> k) \<rparr> else m k')"
| "map_step same (Replace k v) m k' = (if same k k' then Some \<lparr> data = v, link = k \<rparr> else m k')"
| "map_step same (Remove k) m k' = (if same k k' then None else m k')"

lemma map_eqI: "(\<And>e. x = Some e \<longleftrightarrow> y = Some e) \<Longrightarrow> x = y"
  by (metis not_None_eq)

lemma good_map:
  assumes "table_good t h F M"
  shows "table_map t h k = Some e \<longleftrightarrow> e \<in># M \<and> hash_table_compare_keys t (link e) k"
  using assms map_content unfolding table_good_def by blast

lemma good_map_none:
  assumes "table_good t h F M"
  shows "table_map t h k = None \<longleftrightarrow> (\<forall>e \<in># M. \<not> hash_table_compare_keys t (link e) k)"
  using good_map[OF assms, of k] by (metis not_None_eq)

lemma good_lookup:
  assumes "table_good t h F M"
  shows "x_hash_table_lookup t k h = Some (case table_map t h k of Some e \<Rightarrow> (data e, link e) | None \<Rightarrow> (0, 0))"
  using assms lookup_map unfolding table_good_def by blast

text \<open>Keys are unique, so taking out an item takes out all with its key.\<close>

lemma good_minus:
  assumes "table_good t h F M" "x \<in># M" "hash_table_compare_keys t (link x) k"
  shows "e \<in># M - {#x#} \<longleftrightarrow> e \<in># M \<and> \<not> hash_table_compare_keys t (link e) k"
proof -
  obtain L nss where t: "table_at t h L nss" "content h nss = M" and ag: "equivp (hash_table_compare_keys t)"
    using assms(1) by (auto simp: table_good_def keys_agree_def)
  let ?N = "concat nss"
  obtain n where n: "n \<in> set ?N" "x = ent h n" using assms(2) unfolding t(2)[symmetric] content_def by auto
  have d: "distinct ?N" using t(1) by (auto simp: table_at_def own_def)
  have "mset ?N = add_mset n (mset (remove1 n ?N))" using n(1) by simp
  then have "M = add_mset x (image_mset (ent h) (mset (remove1 n ?N)))"
    unfolding t(2)[symmetric] content_def n(2) by (metis image_mset_add_mset)
  then have rest: "M - {#x#} = image_mset (ent h) (mset (remove1 n ?N))" by simp
  have mem: "set (remove1 n ?N) = set ?N - {n}" by (rule set_remove1_eq[OF d])
  have differ: "\<not> hash_table_compare_keys t (link (ent h m)) k" if "m \<in> set ?N - {n}" for m
  proof
    assume "hash_table_compare_keys t (link (ent h m)) k"
    then have "hash_table_compare_keys t (link (ent h m)) (link (ent h n))"
      using assms(3) ag unfolding n(2) by (meson equivp_symp equivp_transp)
    then show False using t(1) that n(1) unfolding table_at_def by blast
  qed
  have "e \<in># M - {#x#} \<longleftrightarrow> e \<in> ent h ` (set ?N - {n})" unfolding rest using mem by (simp only: set_image_mset set_mset_mset)
  moreover have "e \<in># M \<longleftrightarrow> e \<in> ent h ` set ?N" unfolding t(2)[symmetric] content_def by simp
  ultimately show ?thesis using differ assms(3) n by blast
qed

text \<open>Putting at most one item for a key, where the rest \<open>M0\<close> is without that key.\<close>

lemma map_put:
  assumes good: "table_good t h F M" "table_good t' h' F' M'" and f: "same_funs t t'" and M': "M' = mset_set (set_option new) + M0"
    and M0: "\<forall>e. e \<in># M0 \<longleftrightarrow> e \<in># M \<and> \<not> hash_table_compare_keys t (link e) k"
    and new: "\<forall>x. new = Some x \<longrightarrow> hash_table_compare_keys t (link x) k"
  shows "table_map t' h' k' = (if hash_table_compare_keys t k k' then new else table_map t h k')"
proof (rule map_eqI)
  fix e :: x_list
  let ?c = "hash_table_compare_keys t"
  have ag: "equivp ?c" using good(1) by (simp add: table_good_def keys_agree_def)
  have kk: "?c (link e) k \<longleftrightarrow> ?c k k'" if "?c (link e) k'" using that ag by (meson equivp_symp equivp_transp)
  have n: "e \<in># mset_set (set_option new) \<longleftrightarrow> new = Some e" by (cases new) auto
  have "table_map t' h' k' = Some e \<longleftrightarrow> (new = Some e \<or> e \<in># M0) \<and> ?c (link e) k'"
    using good_map[OF good(2)] same_funs_apply(2)[OF f] n by (simp add: M')
  also have "\<dots> \<longleftrightarrow> (if ?c k k' then new = Some e else table_map t h k' = Some e)"
  proof (cases "?c k k'")
    case True
    have "?c (link e) k'" if "new = Some e" using equivp_transp[OF ag] new that True by blast
    then show ?thesis using True M0 kk by auto
  next
    case False
    have "\<not> ?c (link e) k'" if "new = Some e" using equivp_symp[OF ag] equivp_transp[OF ag] new that False by blast
    then show ?thesis using False M0 kk good_map[OF good(1), of k' e] by auto
  qed
  finally show "table_map t' h' k' = Some e \<longleftrightarrow> (if ?c k k' then new else table_map t h k') = Some e" by simp
qed

lemma table_step_map:
  assumes "table_good t h F M"
  shows "\<exists>t' h' s' M'. table_step c (t, h, s) = Some (t', h', s') \<and> table_good t' h' F M' \<and> same_funs t t'
    \<and> call_spec t c M s M' s' \<and> same_on F h h' \<and> table_map t' h' = map_step (hash_table_compare_keys t) c (table_map t h)"
proof -
  let ?c = "hash_table_compare_keys t"
  obtain t' h' s' M' where r: "table_step c (t, h, s) = Some (t', h', s')" "table_good t' h' F M'" "same_funs t t'"
    "call_spec t c M s M' s'" "same_on F h h'"
    using table_step_ok[OF assms] by blast
  have refl: "?c k k" for k using assms by (auto simp: table_good_def keys_agree_def intro: equivp_reflp)
  note put = map_put[OF assms r(2,3)]
  have step: "table_map t' h' k' = map_step ?c c (table_map t h) k'" for k'
  proof -
    define k where "k = (case c of Insert k v \<Rightarrow> k | Replace k v \<Rightarrow> k | Remove k \<Rightarrow> k)"
    show ?thesis
    proof (cases "table_map t h k")
      case None
      then have no: "\<forall>e \<in># M. \<not> ?c (link e) k" using good_map_none[OF assms] by blast
      then have m0: "\<forall>e. e \<in># M \<longleftrightarrow> e \<in># M \<and> \<not> ?c (link e) k" by blast
      show ?thesis
      proof (cases c)
        case (Insert k1 v)
        then have "M' = mset_set (set_option (Some \<lparr> data = v, link = k \<rparr>)) + M" using r(4) no by (auto simp: k_def)
        from put[OF this m0, of k'] show ?thesis using None Insert refl by (simp add: k_def)
      next
        case (Replace k1 v)
        then have "M' = mset_set (set_option (Some \<lparr> data = v, link = k \<rparr>)) + M" using r(4) no by (auto simp: k_def)
        from put[OF this m0, of k'] show ?thesis using Replace refl by (simp add: k_def)
      next
        case (Remove k1)
        then have "M' = mset_set (set_option None) + M" using r(4) no by (auto simp: k_def)
        from put[OF this m0, of k'] show ?thesis using Remove by (simp add: k_def)
      qed
    next
      case (Some x)
      then have x: "x \<in># M" "?c (link x) k" using good_map[OF assms] by blast+
      have one: "y = x" if "y \<in># M" "?c (link y) k" for y using good_map[OF assms, of k y] that Some by simp
      have m0: "\<forall>e. e \<in># M - {#x#} \<longleftrightarrow> e \<in># M \<and> \<not> ?c (link e) k" using good_minus[OF assms x] by blast
      show ?thesis
      proof (cases c)
        case (Insert k1 v)
        then have "k1 = k" by (simp add: k_def)
        then obtain y where "y \<in># M" "?c (link y) k" "M' = add_mset \<lparr> data = v, link = link y \<rparr> (M - {#y#})" using r(4) x Insert by auto
        then have "M' = mset_set (set_option (Some \<lparr> data = v, link = link x \<rparr>)) + (M - {#x#})" using one by simp
        from put[OF this m0, of k'] show ?thesis using Some Insert x(2) by (simp add: k_def)
      next
        case (Replace k1 v)
        then have "k1 = k" by (simp add: k_def)
        then obtain y where "y \<in># M" "?c (link y) k" "M' = add_mset \<lparr> data = v, link = k \<rparr> (M - {#y#})" using r(4) x Replace by auto
        then have "M' = mset_set (set_option (Some \<lparr> data = v, link = k \<rparr>)) + (M - {#x#})" using one by simp
        from put[OF this m0, of k'] show ?thesis using Replace refl by (simp add: k_def)
      next
        case (Remove k1)
        then have "k1 = k" by (simp add: k_def)
        then obtain y where "y \<in># M" "?c (link y) k" "M' = M - {#y#}" using r(4) x Remove by auto
        then have "M' = mset_set (set_option None) + (M - {#x#})" using one by simp
        from put[OF this m0, of k'] show ?thesis using Remove by (simp add: k_def)
      qed
    qed
  qed
  then show ?thesis using r by blast
qed

end
