(* ===== verification/XRefine.thy ===== *)
theory XRefine
  imports Prelude
begin

text \<open>
  Sequences of calls, and the interface by which a component's calls implement operations on an abstract value.
\<close>

fun run :: "('c \<Rightarrow> 'st \<Rightarrow> 'st option) \<Rightarrow> 'c list \<Rightarrow> 'st \<Rightarrow> 'st option" where
  "run step [] st = Some st"
| "run step (c # cs) st = do { st \<leftarrow> step c st; run step cs st }"

text \<open>
  In a good state every call returns, in a good state, and changes the abstract value as specified.
\<close>

locale implements =
  fixes good :: "'st \<Rightarrow> bool" and abs_of :: "'st \<Rightarrow> 'a" and step :: "'c \<Rightarrow> 'st \<Rightarrow> 'st option" and spec :: "'c \<Rightarrow> 'a \<Rightarrow> 'a"
  assumes step_ok: "good st \<Longrightarrow> \<exists>st'. step c st = Some st' \<and> good st' \<and> abs_of st' = spec c (abs_of st)"
begin

lemma run_ok: "good st \<Longrightarrow> \<exists>st'. run step cs st = Some st' \<and> good st' \<and> abs_of st' = fold spec cs (abs_of st)"
proof (induction cs arbitrary: st)
  case (Cons c cs)
  obtain st1 where st1: "step c st = Some st1" "good st1" "abs_of st1 = spec c (abs_of st)" using step_ok[OF Cons.prems] by blast
  then show ?case using Cons.IH[OF st1(2)] by simp
qed simp

end

end
