(* ===== verification/XHashUse.thy ===== *)
theory XHashUse
  imports XHashSpec XRefine
begin

text \<open>
  Hash tables over a whole history of calls: lookups, and who destroys the keys and values.
\<close>

section \<open>Histories\<close>

definition table_state :: "(ptr \<Rightarrow> ptr \<Rightarrow> bool) \<Rightarrow> nat set \<Rightarrow> 's x_hash_table \<times> x_heap \<times> 's \<Rightarrow> bool" where
  "table_state same F st \<longleftrightarrow> (case st of (t, h, s) \<Rightarrow> hash_table_compare_keys t = same \<and> (\<exists>M. table_good t h F M))"

interpretation ht: implements "table_state same F" "\<lambda>(t, h, s). table_map t h" table_step "map_step same" for same F
proof unfold_locales
  fix st :: "'s x_hash_table \<times> x_heap \<times> 's" and c
  assume good: "table_state same F st"
  obtain t h s where st: "st = (t, h, s)" by (cases st)
  obtain M where "table_good t h F M" "hash_table_compare_keys t = same" using good by (auto simp: st table_state_def)
  then show "\<exists>st'. table_step c st = Some st' \<and> table_state same F st'
      \<and> (case st' of (t, h, s) \<Rightarrow> table_map t h) = map_step same c (case st of (t, h, s) \<Rightarrow> table_map t h)"
    using table_step_map[of t h F M c s] same_funs_apply(2) by (fastforce simp: st table_state_def)
qed

lemma new_good:
  assumes "live h F" "noMemory h = []" "x_hash_table_new hash cmp dk dv h = (Some t, h')" "keys_agree t"
  shows "h' = h" "table_good t h F {#}" "destroy_key t = dk" "destroy_value t = dv" "table_map t h = (\<lambda>_. None)"
proof -
  obtain t1 where t1: "x_hash_table_new hash cmp dk dv h = (Some t1, h)" "table_at t1 h F (replicate 29 [])"
    "destroy_key t1 = dk" "destroy_value t1 = dv" "content h (replicate 29 []) = {#}" "others h F (replicate 29 []) = F"
    using new_table[OF assms(1,2)] by blast
  then show e: "h' = h" "destroy_key t = dk" "destroy_value t = dv" using assms(3) by auto
  have "t1 = t" using t1(1) assms(3) by simp
  then show g: "table_good t h F {#}" using t1 assms(2,4) by (auto simp: table_good_def)
  show "table_map t h = (\<lambda>_. None)" using good_map_none[OF g] by auto
qed

text \<open>
  C14. Whatever sequence of insertions, replacements and removals follows the creation of a table, all calls return
  and a lookup gives what the sequence gives on a map that starts empty: the value last given to the key and the
  stored key, the first one for insertions and the last one for replacements. Growth, which the calls trigger, does
  not show. The client's comparison must be an equivalence and its hash value respect it.
\<close>

theorem hash_table_history:
  assumes "live h F" "noMemory h = []" "x_hash_table_new hash cmp dk dv h = (Some t, h')" "keys_agree t"
  shows "\<exists>t1 h1 s1. run table_step cs (t, h', s) = Some (t1, h1, s1)
    \<and> (\<forall>k. x_hash_table_lookup t1 k h1
         = Some (case fold (map_step (hash_table_compare_keys t)) cs (\<lambda>_. None) k of Some e \<Rightarrow> (data e, link e) | None \<Rightarrow> (0, 0)))"
proof -
  note n = new_good[OF assms]
  have "table_state (hash_table_compare_keys t) F (t, h', s)" using n(1,2) by (auto simp: table_state_def)
  from ht.run_ok[OF this, of cs] obtain t1 h1 s1 M where r: "run table_step cs (t, h', s) = Some (t1, h1, s1)" "table_good t1 h1 F M"
    "table_map t1 h1 = fold (map_step (hash_table_compare_keys t)) cs (table_map t h')"
    by (auto simp: table_state_def)
  show ?thesis using r(1) good_lookup[OF r(2)] unfolding r(3) n(1,5) by blast
qed

definition no_nodes :: x_heap where
  "no_nodes = \<lparr> cells = \<lambda>_. None, freelist = 0, brk = 1, noMemory = [] \<rparr>"

lemma no_nodes_live: "live no_nodes {}" "noMemory no_nodes = []"
  by (simp_all add: no_nodes_def live_def)

lemma pointer_keys: "x_hash_table_new None None dk dv no_nodes = (Some t, h') \<Longrightarrow> keys_agree t"
  "x_hash_table_new None None dk dv no_nodes = (Some t, h') \<Longrightarrow> hash_table_compare_keys t = (=)"
proof -
  assume "x_hash_table_new None None dk dv no_nodes = (Some t, h')"
  then have "hash_key t = None" "compare_keys t = None" by (auto simp: x_hash_table_new_def x_calloc_def no_nodes_def)
  then show c: "hash_table_compare_keys t = (=)" by (intro ext) (simp add: hash_table_compare_keys_def)
  show "keys_agree t" by (simp add: keys_agree_def c identity_equivp)
qed

lemma hash_table_history_witness:
  "\<exists>t h' t1 h1. x_hash_table_new None None None None no_nodes = (Some t, h')
     \<and> run table_step [Insert 5 50, Insert 34 340, Insert 5 51, Remove 34] (t, h', ()) = Some (t1, h1, ())
     \<and> x_hash_table_lookup t1 5 h1 = Some (51, 5) \<and> x_hash_table_lookup t1 34 h1 = Some (0, 0)"
proof -
  obtain t :: "unit x_hash_table" where t: "x_hash_table_new None None None None no_nodes = (Some t, no_nodes)"
    using new_table[OF no_nodes_live] by blast
  show ?thesis
    using hash_table_history[OF no_nodes_live t pointer_keys(1)[OF t], of "[Insert 5 50, Insert 34 340, Insert 5 51, Remove 34]" "()"] t
    unfolding pointer_keys(2)[OF t] by fastforce
qed

section \<open>Growth\<close>

text \<open>
  Splitting the buckets, which the code does when there are more than two keys for each, changes no lookup. It
  returns also when there is no memory for the new buckets or the table has its largest size, and then nothing
  changes but what the allocator knows.
\<close>

theorem hash_table_growth_hidden:
  assumes "table_at t h L nss" "keys_agree t"
  shows "\<exists>t' h'. hash_table_split t h = Some (t', h') \<and> (\<forall>k. x_hash_table_lookup t' k h' = x_hash_table_lookup t k h)
    \<and> x_hash_table_size t' = x_hash_table_size t \<and> (\<not> fst (x_calloc h) \<longrightarrow> t' = t \<and> cells h' = cells h)"
proof -
  obtain t' h' nss' where r: "hash_table_split t h = Some (t', h')" "table_at t' h' L nss'" "content h' nss' = content h nss"
    "same_funs t t'"
    using split_table[OF assms(1)] by blast
  note a = same_funs_apply[OF r(4)]
  have ag: "keys_agree t'" using a(4) assms(2) by simp
  have "table_map t' h' k = table_map t h k" for k
    by (rule map_eqI) (simp add: map_content[OF r(2) ag] map_content[OF assms] r(3) a(2))
  then have "x_hash_table_lookup t' k h' = x_hash_table_lookup t k h" for k
    using lookup_map[OF r(2) ag] lookup_map[OF assms] by simp
  moreover have "length (concat nss') = length (concat nss)" using arg_cong[OF r(3), of size] by (simp add: content_def)
  then have "x_hash_table_size t' = x_hash_table_size t" using r(2) assms(1) by (simp add: table_at_def x_hash_table_size_def)
  moreover have "t' = t \<and> cells h' = cells h" if "\<not> fst (x_calloc h)"
    using that r(1) calloc_frame(1)[of h] by (cases "x_calloc h") (auto simp: hash_table_split_def Let_def split: if_splits)
  ultimately show ?thesis using r(1) by blast
qed

lemma hash_table_growth_hidden_witness:
  "\<exists>t t' h'. x_hash_table_new None None None None no_nodes = (Some (t :: unit x_hash_table), no_nodes)
     \<and> hash_table_split t no_nodes = Some (t', h') \<and> (\<forall>k. x_hash_table_lookup t' k h' = x_hash_table_lookup t k no_nodes)"
proof -
  obtain t :: "unit x_hash_table" where t: "x_hash_table_new None None None None no_nodes = (Some t, no_nodes)"
    "table_at t no_nodes {} (replicate 29 [])"
    using new_table[OF no_nodes_live] by blast
  show ?thesis using hash_table_growth_hidden[OF t(2) pointer_keys(1)[OF t(1)]] t(1) by blast
qed

section \<open>Ownership\<close>

text \<open>A client whose destroy functions count what they are called with.\<close>

definition log_key :: "ptr \<Rightarrow> ptr multiset \<times> ptr multiset \<Rightarrow> ptr multiset \<times> ptr multiset" where
  "log_key k s = (add_mset k (fst s), snd s)"

definition log_value :: "ptr \<Rightarrow> ptr multiset \<times> ptr multiset \<Rightarrow> ptr multiset \<times> ptr multiset" where
  "log_value v s = (fst s, add_mset v (snd s))"

text \<open>The keys and values the calls hand to the table.\<close>

fun handed :: "table_call \<Rightarrow> ptr multiset \<times> ptr multiset" where
  "handed (Insert k v) = ({#k#}, {#v#})"
| "handed (Replace k v) = ({#k#}, {#v#})"
| "handed (Remove k) = ({#}, {#})"

definition all_handed :: "table_call list \<Rightarrow> ptr multiset \<times> ptr multiset" where
  "all_handed cs = (\<Sum>c\<leftarrow>cs. fst (handed c), \<Sum>c\<leftarrow>cs. snd (handed c))"

text \<open>The keys and values in the table and those destroyed.\<close>

definition accounted :: "x_list multiset \<Rightarrow> ptr multiset \<times> ptr multiset \<Rightarrow> ptr multiset \<times> ptr multiset" where
  "accounted M s = (image_mset link M + fst s, image_mset data M + snd s)"

lemma destroy_logs:
  assumes "destroy_key t = Some log_key" "destroy_value t = Some log_value"
  shows "hash_table_destroy_item t k v s = (add_mset k (fst s), add_mset v (snd s))"
  using assms by (simp add: hash_table_destroy_item_def log_key_def log_value_def)

lemma call_accounts:
  assumes "call_spec t c M s M' s'" "destroy_key t = Some log_key" "destroy_value t = Some log_value"
  shows "accounted M' s' = (fst (accounted M s) + fst (handed c), snd (accounted M s) + snd (handed c))"
proof -
  have out: "image_mset f M = add_mset (f e) (image_mset f (M - {#e#}))" if "e \<in># M" for e and f :: "x_list \<Rightarrow> ptr"
    using that by (metis image_mset_add_mset insert_DiffM)
  show ?thesis
  proof (cases c)
    case (Insert k v)
    then show ?thesis using assms(1) out[of _ link] out[of _ data] by (auto simp: accounted_def destroy_logs[OF assms(2,3)])
  next
    case (Replace k v)
    then show ?thesis using assms(1) out[of _ link] out[of _ data] by (auto simp: accounted_def destroy_logs[OF assms(2,3)])
  next
    case (Remove k)
    then show ?thesis using assms(1) out[of _ link] out[of _ data] by (auto simp: accounted_def destroy_logs[OF assms(2,3)])
  qed
qed

lemma run_accounts:
  assumes "table_good t h F M" "destroy_key t = Some log_key" "destroy_value t = Some log_value"
  shows "\<exists>t' h' s' M'. run table_step cs (t, h, s) = Some (t', h', s') \<and> table_good t' h' F M' \<and> same_funs t t' \<and> same_on F h h'
    \<and> accounted M' s' = (fst (accounted M s) + fst (all_handed cs), snd (accounted M s) + snd (all_handed cs))"
  using assms
proof (induction cs arbitrary: t h s M)
  case Nil
  then show ?case by (auto simp: all_handed_def)
next
  case (Cons c cs)
  obtain t1 h1 s1 M1 where r: "table_step c (t, h, s) = Some (t1, h1, s1)" "table_good t1 h1 F M1" "same_funs t t1"
    "call_spec t c M s M1 s1" "same_on F h h1"
    using table_step_ok[OF Cons.prems(1)] by blast
  have d: "destroy_key t1 = Some log_key" "destroy_value t1 = Some log_value" using r(3) Cons.prems(2,3) by (simp_all add: same_funs_def)
  obtain t' h' s' M' where q: "run table_step cs (t1, h1, s1) = Some (t', h', s')" "table_good t' h' F M'" "same_funs t1 t'"
    "same_on F h1 h'" "accounted M' s' = (fst (accounted M1 s1) + fst (all_handed cs), snd (accounted M1 s1) + snd (all_handed cs))"
    using Cons.IH[OF r(2) d] by blast
  have "accounted M' s' = (fst (accounted M s) + fst (all_handed (c # cs)), snd (accounted M s) + snd (all_handed (c # cs)))"
    using q(5) call_accounts[OF r(4) Cons.prems(2,3)] by (simp add: all_handed_def add.assoc)
  moreover have "same_on F h h'" using r(5) q(4) by (rule same_on_trans) simp_all
  ultimately show ?case using r(1) q(1,2) same_funs_trans[OF r(3) q(3)] by auto
qed

lemma destroy_all:
  assumes "destroy_key t = Some log_key" "destroy_value t = Some log_value"
  shows "fold (\<lambda>e. hash_table_destroy_item t (link e) (data e)) es s = accounted (mset es) s"
  by (induction es arbitrary: s) (simp_all add: destroy_logs[OF assms] accounted_def)

text \<open>
  C17. A table owns its keys and values: after any sequence of insertions, replacements and removals and then the
  freeing of the table, the client's functions have destroyed every key and every value handed in exactly once,
  and nothing else. All calls return, every list cell of the table is free again and no other live cell changed.
\<close>

theorem hash_table_destroys_once:
  assumes "live h F" "noMemory h = []" "x_hash_table_new hash cmp (Some log_key) (Some log_value) h = (Some t, h')" "keys_agree t"
  shows "\<exists>t1 h1 s1 h2. run table_step cs (t, h', ({#}, {#})) = Some (t1, h1, s1)
    \<and> x_hash_table_free t1 h1 s1 = Some (h2, all_handed cs) \<and> live h2 F \<and> same_on F h h2"
proof -
  note n = new_good[OF assms]
  obtain t1 h1 s1 M where r: "run table_step cs (t, h, ({#}, {#})) = Some (t1, h1, s1)" "table_good t1 h1 F M" "same_funs t t1"
    "same_on F h h1" "accounted M s1 = all_handed cs"
    using run_accounts[OF n(2,3,4), of cs "({#}, {#})"] by (auto simp: accounted_def)
  obtain L nss where t1: "table_at t1 h1 L nss" "content h1 nss = M" "others h1 L nss = F" using r(2) by (auto simp: table_good_def)
  have d: "destroy_key t1 = Some log_key" "destroy_value t1 = Some log_value" using r(3) n(3,4) by (simp_all add: same_funs_def)
  obtain h2 where h2: "x_hash_table_free t1 h1 s1 = Some (h2, accounted (mset (map (ent h1) (concat nss))) s1)" "live h2 F" "same_on F h1 h2"
    using free_table[OF t1(1), of s1] unfolding destroy_all[OF d] t1(3) by blast
  have "mset (map (ent h1) (concat nss)) = M" using t1(2) by (simp only: content_def mset_map)
  then have "x_hash_table_free t1 h1 s1 = Some (h2, all_handed cs)" using h2(1) r(5) by simp
  moreover have "same_on F h h2" using r(4) h2(3) by (rule same_on_trans) simp_all
  ultimately show ?thesis using r(1) h2(2) n(1) by blast
qed

lemma hash_table_destroys_once_witness:
  "\<exists>t t1 h1 s1 h2. x_hash_table_new None None (Some log_key) (Some log_value) no_nodes = (Some t, no_nodes)
     \<and> run table_step [Insert 5 50, Insert 5 51, Replace 5 52, Insert 7 70, Remove 7] (t, no_nodes, ({#}, {#})) = Some (t1, h1, s1)
     \<and> x_hash_table_free t1 h1 s1 = Some (h2, ({#5, 5, 5, 7#}, {#50, 51, 52, 70#}))"
proof -
  obtain t where t: "x_hash_table_new None None (Some log_key) (Some log_value) no_nodes = (Some t, no_nodes)"
    using new_table[OF no_nodes_live] by blast
  have "all_handed [Insert 5 50, Insert 5 51, Replace 5 52, Insert 7 70, Remove 7] = ({#5, 5, 5, 7#}, {#50, 51, 52, 70#})"
    by (simp add: all_handed_def add_mset_commute)
  then show ?thesis
    using hash_table_destroys_once[OF no_nodes_live t pointer_keys(1)[OF t], of "[Insert 5 50, Insert 5 51, Replace 5 52, Insert 7 70, Remove 7]"] t
    by fastforce
qed

end
