(* ===== verification/XHook.thy ===== *)
theory XHook
  imports XHashInv XRefine
begin

text \<open>
  Hooks (\<open>hw/.xquartz/xpr/x-hook.c\<close>): a list of cells that hold a function, as their link, and its data. The
  functions that run do not change the list.
\<close>

section \<open>The operations\<close>

definition x_hook_add :: "ptr \<Rightarrow> ptr \<Rightarrow> ptr \<Rightarrow> x_heap \<Rightarrow> (ptr \<times> x_heap) option" where
  "x_hook_add lst f d h = do { (cell, h) \<leftarrow> x_list_prepend f d h; x_list_prepend lst cell h }"

partial_function (option) hooks_to_delete :: "ptr \<Rightarrow> ptr \<Rightarrow> ptr \<Rightarrow> ptr \<Rightarrow> x_heap \<Rightarrow> (ptr \<times> x_heap) option" where
  "hooks_to_delete f d node to_delete h =
     (if node = 0 then Some (to_delete, h)
      else do { c \<leftarrow> load node h;
                cell \<leftarrow> load (data c) h;
                (to_delete, h) \<leftarrow> (if link cell = f \<and> data cell = d then x_list_prepend to_delete (data c) h
                                  else Some (to_delete, h));
                c \<leftarrow> load node h;
                hooks_to_delete f d (link c) to_delete h })"

partial_function (option) delete_hooks :: "ptr \<Rightarrow> ptr \<Rightarrow> x_heap \<Rightarrow> (ptr \<times> x_heap) option" where
  "delete_hooks node lst h =
     (if node = 0 then Some (lst, h)
      else do { c \<leftarrow> load node h;
                (lst, h) \<leftarrow> x_list_remove lst (data c) h;
                h \<leftarrow> x_list_free_1 (data c) h;
                c \<leftarrow> load node h;
                delete_hooks (link c) lst h })"

definition x_hook_remove :: "ptr \<Rightarrow> ptr \<Rightarrow> ptr \<Rightarrow> x_heap \<Rightarrow> (ptr \<times> x_heap) option" where
  "x_hook_remove lst f d h =
     do { (to_delete, h) \<leftarrow> hooks_to_delete f d lst 0 h;
          (lst, h) \<leftarrow> delete_hooks to_delete lst h;
          h \<leftarrow> x_list_free to_delete h;
          Some (lst, h) }"

text \<open>The call of the function \<open>f\<close> with the run's argument and the hook's data.\<close>

partial_function (option) x_hook_run :: "(ptr \<Rightarrow> ptr \<Rightarrow> ptr \<Rightarrow> 'c \<Rightarrow> 'c) \<Rightarrow> ptr \<Rightarrow> ptr \<Rightarrow> x_heap \<Rightarrow> 'c \<Rightarrow> 'c option" where
  "x_hook_run call lst arg h s =
     (if lst = 0 then Some s
      else do { c \<leftarrow> load lst h; cell \<leftarrow> load (data c) h; x_hook_run call (link c) arg h (call (link cell) arg (data cell) s) })"

partial_function (option) free_cells :: "ptr \<Rightarrow> x_heap \<Rightarrow> x_heap option" where
  "free_cells node h =
     (if node = 0 then Some h
      else do { c \<leftarrow> load node h; h \<leftarrow> x_list_free_1 (data c) h; c \<leftarrow> load node h; free_cells (link c) h })"

definition x_hook_free :: "ptr \<Rightarrow> x_heap \<Rightarrow> x_heap option" where
  "x_hook_free lst h = do { h \<leftarrow> free_cells lst h; x_list_free lst h }"

section \<open>A list of hooks\<close>

definition hooks_at :: "x_heap \<Rightarrow> nat set \<Rightarrow> ptr \<Rightarrow> nat list \<Rightarrow> bool" where
  "hooks_at h L p ns \<longleftrightarrow> live h L \<and> chain h p ns \<and> set (own h ns) \<subseteq> L \<and> distinct (own h ns)"

text \<open>The functions with their data, the last added first.\<close>

definition hooks :: "x_heap \<Rightarrow> nat list \<Rightarrow> (ptr \<times> ptr) list" where
  "hooks h ns = map (\<lambda>n. (link (ent h n), data (ent h n))) ns"

lemma hook_add_list:
  assumes "hooks_at h L p ns" "noMemory h = []"
  shows "\<exists>node cell h'. x_hook_add p f d h = Some (node, h') \<and> hooks_at h' (insert node (insert cell L)) node (node # ns)
    \<and> set (own h' (node # ns)) = insert node (insert cell (set (own h ns)))
    \<and> hooks h' (node # ns) = (f, d) # hooks h ns \<and> {node, cell} \<inter> L = {} \<and> same_on L h h'"
proof -
  have l: "live h L" "chain h p ns" "set (own h ns) \<subseteq> L" "distinct (own h ns)" using assms(1) by (simp_all add: hooks_at_def)
  obtain cell h1 where h1: "x_list_prepend f d h = Some (cell, h1)" "cell \<notin> L" "cell \<noteq> 0" "live h1 (insert cell L)"
    "cells h1 cell = Some \<lparr> data = d, link = f \<rparr>" "same_on L h h1"
    using prepend_ok[OF l(1) assms(2)] by blast
  have m1: "noMemory h1 = []" using h1(6) assms(2) by (simp add: same_on_def)
  obtain node h2 where h2: "x_list_prepend p cell h1 = Some (node, h2)" "node \<notin> insert cell L" "node \<noteq> 0"
    "live h2 (insert node (insert cell L))" "cells h2 node = Some \<lparr> data = cell, link = p \<rparr>" "same_on (insert cell L) h1 h2"
    using prepend_ok[OF h1(4) m1] by blast
  have s: "same_on L h h2" using h1(6) h2(6) by (rule same_on_trans) auto
  then have "\<forall>a \<in> set (own h ns). cells h2 a = cells h a" using l(3) by (auto simp: same_on_def)
  note fr = own_frame[OF this]
  have item: "data_at h2 node = cell" "ent h2 node = \<lparr> data = d, link = f \<rparr>"
    using h2(5) h1(5) same_on_cell[OF h2(6), of cell] by (simp_all add: data_at_def ent_def)
  have "set ns \<subseteq> L" using l(3) by (auto simp: own_set)
  then have "chain h2 node (node # ns)" using l(2) same_on_path[OF s] h2(3,5) by simp
  moreover have own: "mset (own h2 (node # ns)) = mset (node # cell # own h ns)"
    unfolding own_mset using item(1) own_mset[of h2 ns] fr(1) own_mset[of h ns] by simp
  have own2: "set (own h2 (node # ns)) = insert node (insert cell (set (own h ns)))" using mset_eq_setD[OF own] by simp
  have "distinct (own h2 (node # ns))" "set (own h2 (node # ns)) \<subseteq> insert node (insert cell L)"
    using mset_eq_imp_distinct_iff[OF own] own2 l(3,4) h1(2) h2(2) by auto
  ultimately have "hooks_at h2 (insert node (insert cell L)) node (node # ns)" using h2(4) by (simp add: hooks_at_def)
  moreover have "hooks h2 (node # ns) = (f, d) # hooks h ns" using item(2) fr(3) by (simp add: hooks_def)
  ultimately show ?thesis using h1(1,2) h2(1,2) s own2 by (auto simp: x_hook_add_def)
qed

lemma hook_run_list:
  assumes "hooks_at h L p ns"
  shows "x_hook_run call p arg h s = Some (fold (\<lambda>(f, d). call f arg d) (hooks h ns) s)"
proof -
  have l: "live h L" "chain h p ns" "set (own h ns) \<subseteq> L" using assms by (simp_all add: hooks_at_def)
  from l(2,3) show ?thesis
  proof (induction ns arbitrary: p s)
    case Nil
    then show ?case by (subst x_hook_run.simps) (simp add: hooks_def)
  next
    case (Cons a as)
    obtain c where c: "load p h = Some c" "p = a" "p \<noteq> 0" "cells h a = Some c" "chain h (link c) as"
      using load_path[OF Cons.prems(1)] by blast
    have "load (data c) h = Some (ent h a)" using load_entry[OF l(1) Cons.prems(2), of a] c(4) by auto
    then show ?case
      using c Cons.IH[OF c(5)] Cons.prems(2) by (subst x_hook_run.simps) (auto simp: own_set hooks_def)
  qed
qed

lemma free_cells_list:
  assumes "holds d L h" "chain h p ns" "set ns \<subseteq> L" "d ` set ns \<subseteq> L - set ns" "inj_on d (set ns)"
  shows "\<exists>h'. free_cells p h = Some h' \<and> holds d (L - d ` set ns) h' \<and> same_on (L - d ` set ns) h h'"
  using assms
proof (induction ns arbitrary: p h L)
  case Nil
  then show ?case by (subst free_cells.simps) simp
next
  case (Cons a as)
  obtain c where c: "load p h = Some c" "p = a" "p \<noteq> 0" "cells h a = Some c" "chain h (link c) as"
    using load_path[OF Cons.prems(2)] by blast
  have dc: "data c = d a" using data_at_simps[OF c(4)] Cons.prems(1,3) by (simp add: holds_def)
  have L: "d a \<in> L" "d a \<noteq> a" "d a \<notin> set as" "d a \<notin> d ` set as"
    using Cons.prems(4,5) chain_distinct[OF Cons.prems(2)] by (auto simp: inj_on_def)
  obtain h1 where h1: "x_list_free_1 (d a) h = Some h1" "holds d (L - {d a}) h1" "same_on (L - {d a}) h h1"
    using free_holds[OF Cons.prems(1) L(1)] by blast
  have sub: "set as \<subseteq> L - {d a}" "d ` set as \<subseteq> L - {d a} - set as" "inj_on d (set as)"
  proof -
    have ne: "d x \<noteq> d a" if "x \<in> set as" for x using L(4) that by (metis image_eqI)
    show "set as \<subseteq> L - {d a}" "inj_on d (set as)" using Cons.prems(3,5) L(3) by auto
    show "d ` set as \<subseteq> L - {d a} - set as" using Cons.prems(4) ne by auto
  qed
  have as: "chain h1 (link c) as" using c(5) same_on_path[OF h1(3) sub(1)] by blast
  have "load p h1 = Some c" using same_on_cell[OF h1(3), of a] Cons.prems(3) L(2) c(2,3,4) by (simp add: load_def)
  moreover obtain h' where h': "free_cells (link c) h1 = Some h'" "holds d (L - {d a} - d ` set as) h'"
    "same_on (L - {d a} - d ` set as) h1 h'"
    using Cons.IH[OF h1(2) as sub] by blast
  moreover have e: "L - {d a} - d ` set as = L - d ` set (a # as)" by auto
  moreover have "same_on (L - d ` set (a # as)) h h'" using h1(3) h'(3) unfolding e by (rule same_on_trans) auto
  ultimately show ?case using c(1,3) dc h1(1) by (subst free_cells.simps) simp
qed

lemma hook_free_list:
  assumes "hooks_at h L p ns"
  shows "\<exists>h'. x_hook_free p h = Some h' \<and> live h' (L - set (own h ns)) \<and> same_on (L - set (own h ns)) h h'"
proof -
  have l: "live h L" "chain h p ns" "set (own h ns) \<subseteq> L" "distinct (own h ns)" using assms by (simp_all add: hooks_at_def)
  have n: "set ns \<subseteq> L" "data_at h ` set ns \<subseteq> L - set ns" "inj_on (data_at h) (set ns)"
    using l(3,4) by (auto simp: own_def distinct_map)
  obtain h1 where h1: "free_cells p h = Some h1" "holds (data_at h) (L - data_at h ` set ns) h1" "same_on (L - data_at h ` set ns) h h1"
    using free_cells_list[OF holds_self[OF l(1)] l(2) n] by blast
  have s: "set ns \<subseteq> L - data_at h ` set ns" using n by blast
  then have "chain h1 p ns" using l(2) same_on_path[OF h1(3)] by blast
  then obtain h2 where h2: "x_list_free p h1 = Some h2" "live h2 (L - data_at h ` set ns - set ns)"
    "same_on (L - data_at h ` set ns - set ns) h1 h2"
    using free_list[OF holds_live[OF h1(2)] _ s, of p] by blast
  have e: "L - data_at h ` set ns - set ns = L - set (own h ns)" by (auto simp: own_set)
  have "same_on (L - set (own h ns)) h h2" using h1(3) h2(3) unfolding e by (rule same_on_trans) (auto simp: own_set)
  then show ?thesis using h1(1) h2(1,2) unfolding e by (simp add: x_hook_free_def)
qed

section \<open>Removing hooks\<close>

text \<open>The first loop collects the matching cells as a filter does.\<close>

lemma to_delete_is_filter:
  assumes "live h L" "noMemory h = []" "chain h p ns" "set ns \<subseteq> L" "\<forall>n \<in> set ns. data_at h n \<in> L \<and> cells h (data_at h n) = Some (e (data_at h n))"
  shows "hooks_to_delete f d p q h = filter_onto (\<lambda>i _. link (e i) = f \<and> data (e i) = d) 0 p q h"
  using assms
proof (induction ns arbitrary: p q h L)
  case Nil
  then show ?case by (subst hooks_to_delete.simps, subst filter_onto.simps) simp
next
  case (Cons a as)
  obtain c where c: "load p h = Some c" "p = a" "p \<noteq> 0" "cells h a = Some c" "chain h (link c) as"
    using load_path[OF Cons.prems(3)] by blast
  have dc: "data_at h a = data c" by (rule data_at_simps[OF c(4)])
  have i: "load (data c) h = Some (e (data c))"
    using Cons.prems(5) live_mapped[OF Cons.prems(1), of "data c"] dc by (auto simp: load_def)
  have as: "set as \<subseteq> L" using Cons.prems(4) by simp
  show ?case
  proof (cases "link (e (data c)) = f \<and> data (e (data c)) = d")
    case True
    obtain n h1 where h1: "x_list_prepend q (data c) h = Some (n, h1)" "live h1 (insert n L)" "same_on L h h1"
      using prepend_ok[OF Cons.prems(1,2)] by blast
    have "load p h1 = Some c" using c(2,3,4) same_on_cell[OF h1(3), of a] Cons.prems(4) by (simp add: load_def)
    moreover have "chain h1 (link c) as" using c(5) same_on_path[OF h1(3) as] by blast
    moreover have "noMemory h1 = []" using h1(3) Cons.prems(2) by (simp add: same_on_def)
    moreover have "\<forall>n \<in> set as. data_at h1 n = data_at h n" using h1(3) as by (auto simp: same_on_def data_at_def)
    then have "\<forall>m \<in> set as. data_at h1 m \<in> insert n L \<and> cells h1 (data_at h1 m) = Some (e (data_at h1 m))"
      using Cons.prems(5) h1(3) by (auto simp: same_on_def)
    ultimately show ?thesis
      using c i True h1(1) Cons.IH[OF h1(2), of "link c" n] as
      by (subst hooks_to_delete.simps, subst filter_onto.simps) auto
  next
    case False
    then show ?thesis
      using c i Cons.IH[OF Cons.prems(1,2) c(5) as] Cons.prems(5) by (subst hooks_to_delete.simps, subst filter_onto.simps) auto
  qed
qed

lemma delete_hooks_list:
  assumes "holds d L h" "chain h node ks" "chain h lst ns" "set ns \<subseteq> L" "d ` set ns \<subseteq> L - set ns" "inj_on d (set ns)"
    "set ks \<subseteq> L - set ns - d ` set ns" "d ` set ks \<subseteq> d ` set ns" "distinct (map d ks)"
  shows "\<exists>lst' h'. delete_hooks node lst h = Some (lst', h') \<and> chain h' lst' (filter (\<lambda>n. d n \<notin> d ` set ks) ns)
    \<and> holds d (L - d ` set ks - {n \<in> set ns. d n \<in> d ` set ks}) h' \<and> same_on (L - set ns - d ` set ks) h h'"
  using assms
proof (induction ks arbitrary: node lst h L ns)
  case Nil
  then show ?case by (subst delete_hooks.simps) simp
next
  case (Cons a as)
  let ?ns = "filter (\<lambda>n. d n \<noteq> d a) ns" and ?R = "{n \<in> set ns. d n = d a}"
  obtain c where c: "load node h = Some c" "node = a" "node \<noteq> 0" "cells h a = Some c" "chain h (link c) as"
    using load_path[OF Cons.prems(2)] by blast
  have aL: "a \<in> L" "a \<notin> set ns" "a \<notin> d ` set ns" using Cons.prems(7) by auto
  have dc: "data c = d a" using data_at_simps[OF c(4)] Cons.prems(1) aL(1) by (simp add: holds_def)
  obtain lst1 h1 where h1: "x_list_remove lst (d a) h = Some (lst1, h1)" "chain h1 lst1 ?ns" "holds d (L - ?R) h1"
    "same_on (L - set ns) h h1"
    using remove_from_list[OF Cons.prems(1), of lst "[]" ns "d a"] Cons.prems(3,4) by (auto simp: x_list_remove_def)
  have da: "d a \<in> L" "d a \<notin> set ns" using Cons.prems(5,8) by auto
  obtain h2 where h2: "x_list_free_1 (d a) h1 = Some h2" "holds d (L - ?R - {d a}) h2" "same_on (L - ?R - {d a}) h1 h2"
    using free_holds[OF h1(3), of "d a"] da by auto
  let ?L = "L - ?R - {d a}"
  have s2: "same_on (L - set ns - {d a}) h h2" using h1(4) h2(3) by (rule same_on_trans) auto
  have ad: "a \<noteq> d a" using aL(3) Cons.prems(8) by auto
  have load2: "load node h2 = Some c" using same_on_cell[OF s2, of a] aL(1,2) ad c(2,3,4) by (simp add: load_def)
  have as: "set as \<subseteq> L - set ns - {d a}" using Cons.prems(7,8) by auto
  then have ch: "chain h2 (link c) as" using c(5) same_on_path[OF s2] by blast
  have nsL: "set ?ns \<subseteq> ?L" using Cons.prems(4) da(2) by auto
  then have ch2: "chain h2 lst1 ?ns" using h1(2) same_on_path[OF h2(3)] by blast
  have items: "d ` set ?ns \<subseteq> ?L - set ?ns" using Cons.prems(5) by auto
  have inj: "inj_on d (set ?ns)" using Cons.prems(6) by (auto simp: inj_on_def)
  have asL: "set as \<subseteq> ?L - set ?ns - d ` set ?ns" using Cons.prems(7) as by auto
  have "d a \<notin> d ` set as" using Cons.prems(9) by simp
  have das: "d ` set as \<subseteq> d ` set ?ns"
  proof
    fix i assume i: "i \<in> d ` set as"
    then have "i \<noteq> d a" using \<open>d a \<notin> d ` set as\<close> by blast
    moreover obtain n where "n \<in> set ns" "i = d n" using i Cons.prems(8) by auto
    ultimately show "i \<in> d ` set ?ns" by simp
  qed
  obtain lst' h' where h': "delete_hooks (link c) lst1 h2 = Some (lst', h')" "chain h' lst' (filter (\<lambda>n. d n \<notin> d ` set as) ?ns)"
    "holds d (?L - d ` set as - {n \<in> set ?ns. d n \<in> d ` set as}) h'" "same_on (?L - set ?ns - d ` set as) h2 h'"
    using Cons.IH[OF h2(2) ch ch2 nsL items inj asL das] Cons.prems(9) by auto
  have f: "filter (\<lambda>n. d n \<notin> d ` set as) ?ns = filter (\<lambda>n. d n \<notin> d ` set (a # as)) ns"
    unfolding filter_filter by (rule filter_cong) auto
  have e: "?L - d ` set as - {n \<in> set ?ns. d n \<in> d ` set as} = L - d ` set (a # as) - {n \<in> set ns. d n \<in> d ` set (a # as)}" by auto
  have "same_on (L - set ns - d ` set (a # as)) h h'" using s2 h'(4) by (rule same_on_trans) auto
  moreover have "delete_hooks node lst h = Some (lst', h')"
    using c(1,3) dc h1(1) h2(1) load2 h'(1) by (subst delete_hooks.simps) simp
  ultimately show ?case using h'(2,3) unfolding f e by blast
qed

lemma hook_remove_list:
  assumes "hooks_at h L p ns" "noMemory h = []"
  shows "\<exists>p' ns' h'. x_hook_remove p f d h = Some (p', h') \<and> hooks_at h' (L - (set (own h ns) - set (own h' ns'))) p' ns'
    \<and> set (own h' ns') \<subseteq> set (own h ns) \<and> hooks h' ns' = filter (\<lambda>x. x \<noteq> (f, d)) (hooks h ns) \<and> same_on (L - set (own h ns)) h h'"
proof -
  have l: "live h L" "chain h p ns" "set (own h ns) \<subseteq> L" "distinct (own h ns)" using assms(1) by (simp_all add: hooks_at_def)
  let ?D = "data_at h" and ?m = "\<lambda>n. link (ent h n) = f \<and> data (ent h n) = d"
  have n: "set ns \<subseteq> L" "?D ` set ns \<subseteq> L - set ns" "inj_on ?D (set ns)"
    using l(3,4) by (auto simp: own_def distinct_map)
  let ?P = "\<lambda>i. link (the (cells h i)) = f \<and> data (the (cells h i)) = d"
  have c: "cells h (?D n) = Some (ent h n)" if "n \<in> set ns" for n using load_entry[OF l(1,3) that] by blast
  have "?D ` set ns \<subseteq> L" using n(2) by blast
  then have "\<forall>n \<in> set ns. ?D n \<in> L \<and> cells h (?D n) = Some (the (cells h (?D n)))" using c by auto
  then have eq: "hooks_to_delete f d p 0 h = filter_onto (\<lambda>i _. ?P i) 0 p 0 h"
    using to_delete_is_filter[OF l(1) assms(2) l(2) n(1), of "\<lambda>i. the (cells h i)" f d 0] by simp
  obtain q ks h1 where h1: "hooks_to_delete f d p 0 h = Some (q, h1)" "chain h1 q ks" "set ks \<inter> L = {}"
    "vals h1 ks = rev (filter ?P (vals h ns))" "live h1 (L \<union> set ks)" "same_on L h h1"
    using filter_onto_list[OF l(1) assms(2) l(2) _ n(1), of 0 "[]" "\<lambda>i _. ?P i" 0] unfolding eq by auto
  let ?d = "data_at h1" and ?G = "{n \<in> set ns. ?m n}"
  have dn: "?d n = ?D n" if "n \<in> set ns" for n using same_on_cell[OF h1(6), of n] n(1) that by (auto simp: data_at_def)
  have kv: "map ?d ks = rev (map ?D (filter ?m ns))"
    using h1(4) by (simp add: vals_def filter_map comp_def ent_def)
  have ks: "?d ` set ks = ?D ` ?G" "distinct (map ?d ks)"
  proof -
    have "?d ` set ks = set (map ?d ks)" by simp
    also have "\<dots> = ?D ` ?G" unfolding kv by simp
    finally show "?d ` set ks = ?D ` ?G" .
    have "inj_on ?D (set (filter ?m ns))" using n(3) by (auto simp: inj_on_def)
    then show "distinct (map ?d ks)" unfolding kv using chain_distinct[OF l(2)] by (simp add: distinct_map)
  qed
  have "?d ` set ns = ?D ` set ns" "inj_on ?d (set ns) = inj_on ?D (set ns)" using dn by (auto cong: inj_on_cong)
  then have a: "set ns \<subseteq> L \<union> set ks" "?d ` set ns \<subseteq> L \<union> set ks - set ns" "inj_on ?d (set ns)"
    "set ks \<subseteq> L \<union> set ks - set ns - ?d ` set ns" "?d ` set ks \<subseteq> ?d ` set ns"
    using n h1(3) ks(1) by auto
  have ch: "chain h1 p ns" using l(2) same_on_path[OF h1(6) n(1)] by blast
  obtain p' h2 where h2: "delete_hooks q p h1 = Some (p', h2)" "chain h2 p' (filter (\<lambda>n. ?d n \<notin> ?d ` set ks) ns)"
    "holds ?d (L \<union> set ks - ?d ` set ks - {n \<in> set ns. ?d n \<in> ?d ` set ks}) h2" "same_on (L \<union> set ks - set ns - ?d ` set ks) h1 h2"
    using delete_hooks_list[OF holds_self[OF h1(5)] h1(2) ch a ks(2)] by blast
  let ?ns = "filter (\<lambda>n. \<not> ?m n) ns" and ?L = "L - ?D ` ?G - ?G"
  have mem: "?d n \<in> ?d ` set ks \<longleftrightarrow> ?m n" if "n \<in> set ns" for n
    unfolding ks(1) dn[OF that] using that n(3) by (auto simp: inj_on_def)
  have f1: "filter (\<lambda>n. ?d n \<notin> ?d ` set ks) ns = ?ns" by (rule filter_cong) (simp_all add: mem)
  have "{n \<in> set ns. ?d n \<in> ?d ` set ks} = ?G" using mem by auto
  then have L2: "live h2 (L \<union> set ks - ?D ` ?G - ?G)" using holds_live[OF h2(3)] ks(1) by simp
  have ksL: "set ks \<subseteq> L \<union> set ks - ?D ` ?G - ?G" "set ks \<subseteq> L \<union> set ks - set ns - ?d ` set ks"
    using h1(3) n(1,2) ks(1) by auto
  then have "chain h2 q ks" using h1(2) same_on_path[OF h2(4)] by blast
  then obtain h3 where h3: "x_list_free q h2 = Some h3" "live h3 (L \<union> set ks - ?D ` ?G - ?G - set ks)"
    "same_on (L \<union> set ks - ?D ` ?G - ?G - set ks) h2 h3"
    using free_list[OF L2 _ ksL(1), of q] by blast
  have L3: "L \<union> set ks - ?D ` ?G - ?G - set ks = ?L" using h1(3) by auto
  have nsL: "set ?ns \<subseteq> ?L" using n(1,2) by auto
  have ch3: "chain h3 p' ?ns" using h2(2) same_on_path[OF h3(3)[unfolded L3] nsL] unfolding f1 by blast
  have d3: "data_at h3 m = ?D m" if "m \<in> set ?ns" for m
  proof -
    have "m \<in> L \<union> set ks - ?d ` set ks - {n \<in> set ns. ?d n \<in> ?d ` set ks}" using that n(1,2) mem ks(1) by auto
    then have "data_at h2 m = ?d m" using h2(3) by (simp add: holds_def)
    moreover have "data_at h3 m = data_at h2 m" using same_on_cell[OF h3(3)[unfolded L3], of m] nsL that by (auto simp: data_at_def)
    ultimately show ?thesis using dn that by simp
  qed
  have s: "same_on (L - set ns - ?D ` ?G) h h3"
  proof -
    have "same_on (L - set ns - ?D ` ?G) h h2" using h1(6) h2(4) by (rule same_on_trans) (use h1(3) ks(1) in auto)
    then show ?thesis using h3(3)[unfolded L3] by (rule same_on_trans) auto
  qed
  have e3: "ent h3 m = ent h m" if "m \<in> set ?ns" for m
  proof -
    have "?D m \<notin> ?D ` ?G" using that n(3) by (auto simp: inj_on_def)
    then have "?D m \<in> L - set ns - ?D ` ?G" using that n(2) by auto
    then show ?thesis using same_on_cell[OF s] d3[OF that] by (simp add: ent_def)
  qed
  have own: "own h3 ?ns = own h ?ns" unfolding own_def using d3 by simp
  have sub: "set (own h ?ns) \<subseteq> set (own h ns)" by (rule own_mono) auto
  have diff: "set (own h ns) - set (own h ?ns) = ?D ` ?G \<union> ?G"
  proof -
    have "?D n \<notin> ?D ` set ?ns" if "n \<in> ?G" for n using that own_inj(1)[OF l(4)] by auto
    moreover have "?D n \<notin> set ns" if "n \<in> set ns" for n using that n(2) by blast
    ultimately show ?thesis unfolding own_set by auto
  qed
  have "distinct (own h ?ns)" using own_part[OF l(4)] chain_distinct[OF l(2)] by simp
  moreover have "set (own h ?ns) \<subseteq> ?L" using sub l(3) diff by blast
  moreover have "L - (set (own h ns) - set (own h ?ns)) = ?L" unfolding diff by auto
  ultimately have "hooks_at h3 (L - (set (own h ns) - set (own h3 ?ns))) p' ?ns"
    using h3(2) ch3 unfolding hooks_at_def own L3 by simp
  moreover have "hooks h3 ?ns = filter (\<lambda>x. x \<noteq> (f, d)) (hooks h ns)"
    unfolding hooks_def filter_map comp_def using e3 by simp
  moreover have "same_on (L - set (own h ns)) h h3" using s by (auto simp: same_on_def own_set)
  moreover have "x_hook_remove p f d h = Some (p', h3)" using h1(1) h2(1) h3(1) by (simp add: x_hook_remove_def)
  moreover have "set (own h3 ?ns) \<subseteq> set (own h ns)" using sub unfolding own .
  ultimately show ?thesis by blast
qed

section \<open>Histories\<close>

datatype hook_call = AddHook ptr ptr | RemoveHook ptr ptr

fun hook_step :: "hook_call \<Rightarrow> ptr \<times> x_heap \<Rightarrow> (ptr \<times> x_heap) option" where
  "hook_step (AddHook f d) (p, h) = x_hook_add p f d h"
| "hook_step (RemoveHook f d) (p, h) = x_hook_remove p f d h"

text \<open>The last added hook is the first of the list.\<close>

fun hook_spec :: "hook_call \<Rightarrow> (ptr \<times> ptr) list \<Rightarrow> (ptr \<times> ptr) list" where
  "hook_spec (AddHook f d) xs = (f, d) # xs"
| "hook_spec (RemoveHook f d) xs = filter (\<lambda>x. x \<noteq> (f, d)) xs"

text \<open>The hooks a run calls, in order.\<close>

definition called :: "ptr \<times> x_heap \<Rightarrow> (ptr \<times> ptr) list option" where
  "called st = (case st of (p, h) \<Rightarrow> x_hook_run (\<lambda>f _ d xs. xs @ [(f, d)]) p 0 h [])"

definition hooks_good :: "nat set \<Rightarrow> x_heap \<Rightarrow> ptr \<times> x_heap \<Rightarrow> bool" where
  "hooks_good F h0 st \<longleftrightarrow> (case st of (p, h) \<Rightarrow> noMemory h = [] \<and> same_on F h0 h
     \<and> (\<exists>L ns. hooks_at h L p ns \<and> L - set (own h ns) = F))"

lemma called_hooks: "hooks_at h L p ns \<Longrightarrow> called (p, h) = Some (hooks h ns)"
proof -
  assume "hooks_at h L p ns"
  from hook_run_list[OF this, of "\<lambda>f _ d xs. xs @ [(f, d)]" 0 "[]"]
  have "called (p, h) = Some (fold (\<lambda>(f, d) xs. xs @ [(f, d)]) (hooks h ns) [])" by (simp add: called_def)
  moreover have "fold (\<lambda>(f, d) xs. xs @ [(f, d)]) zs acc = acc @ zs" for zs acc :: "(ptr \<times> ptr) list"
    by (induction zs arbitrary: acc) auto
  ultimately show ?thesis by simp
qed

lemma hook_step_ok:
  assumes "hooks_good F h0 st"
  shows "\<exists>st'. hook_step c st = Some st' \<and> hooks_good F h0 st' \<and> called st' = map_option (hook_spec c) (called st)"
proof -
  obtain p h where st: "st = (p, h)" by (cases st)
  obtain L ns where g: "noMemory h = []" "same_on F h0 h" "hooks_at h L p ns" "L - set (own h ns) = F"
    using assms by (auto simp: st hooks_good_def)
  have oL: "set (own h ns) \<subseteq> L" using g(3) by (simp add: hooks_at_def)
  show ?thesis
  proof (cases c)
    case (AddHook f d)
    obtain node cell h' where h': "x_hook_add p f d h = Some (node, h')" "hooks_at h' (insert node (insert cell L)) node (node # ns)"
      "set (own h' (node # ns)) = insert node (insert cell (set (own h ns)))"
      "hooks h' (node # ns) = (f, d) # hooks h ns" "{node, cell} \<inter> L = {}" "same_on L h h'"
      using hook_add_list[OF g(3,1)] by blast
    have "insert node (insert cell L) - set (own h' (node # ns)) = F" unfolding h'(3) using g(4) h'(5) oL by auto
    moreover have "same_on F h0 h'" using g(2) h'(6) by (rule same_on_trans) (use g(4) in auto)
    moreover have "noMemory h' = []" using h'(6) g(1) by (simp add: same_on_def)
    ultimately have "hooks_good F h0 (node, h')" using h'(2) by (auto simp: hooks_good_def)
    then show ?thesis
      using AddHook h'(1,4) called_hooks[OF h'(2)] called_hooks[OF g(3)] by (simp add: st)
  next
    case (RemoveHook f d)
    obtain p' ns' h' where h': "x_hook_remove p f d h = Some (p', h')"
      "hooks_at h' (L - (set (own h ns) - set (own h' ns'))) p' ns'" "set (own h' ns') \<subseteq> set (own h ns)"
      "hooks h' ns' = filter (\<lambda>x. x \<noteq> (f, d)) (hooks h ns)" "same_on (L - set (own h ns)) h h'"
      using hook_remove_list[OF g(3,1)] by blast
    have "L - (set (own h ns) - set (own h' ns')) - set (own h' ns') = F" using g(4) h'(3) by auto
    moreover have "same_on F h0 h'" using g(2) h'(5) by (rule same_on_trans) (use g(4) in auto)
    moreover have "noMemory h' = []" using h'(5) g(1) by (simp add: same_on_def)
    ultimately have "hooks_good F h0 (p', h')" using h'(2) by (auto simp: hooks_good_def)
    then show ?thesis
      using RemoveHook h'(1,4) called_hooks[OF h'(2)] called_hooks[OF g(3)] by (simp add: st)
  qed
qed

interpretation hk: implements "hooks_good F h0" called hook_step "\<lambda>c. map_option (hook_spec c)" for F h0
  by unfold_locales (rule hook_step_ok)

text \<open>
  C22. However hooks are added and removed, all calls return, a run calls exactly the hooks that were added and not
  removed since, with their data and the run's argument, each as often as it was added, the last one first, and
  freeing the list gives all its cells back. No other live cell changes.
\<close>

theorem hooks_history:
  assumes "live h F" "noMemory h = []"
  shows "\<exists>p h1 h2. run hook_step cs (0, h) = Some (p, h1)
    \<and> (\<forall>call arg (s :: 's). x_hook_run call p arg h1 s = Some (fold (\<lambda>(f, d). call f arg d) (fold hook_spec cs []) s))
    \<and> x_hook_free p h1 = Some h2 \<and> live h2 F \<and> same_on F h h2"
proof -
  have e: "hooks_at h F 0 []" using assms(1) by (simp add: hooks_at_def own_def)
  then have "hooks_good F h (0, h)" using assms(2) by (auto simp: hooks_good_def own_def intro!: exI[of _ F] exI[of _ "[]"])
  from hk.run_ok[OF this, of cs] obtain p h1 where r: "run hook_step cs (0, h) = Some (p, h1)" "hooks_good F h (p, h1)"
    "called (p, h1) = fold (\<lambda>c. map_option (hook_spec c)) cs (called (0, h))"
    by auto
  have "fold (\<lambda>c. map_option (hook_spec c)) cs (Some xs) = Some (fold hook_spec cs xs)" for xs
    by (induction cs arbitrary: xs) simp_all
  then have c: "called (p, h1) = Some (fold hook_spec cs [])" using r(3) called_hooks[OF e] by (simp add: hooks_def)
  obtain L ns where g: "hooks_at h1 L p ns" "L - set (own h1 ns) = F" "same_on F h h1" using r(2) by (auto simp: hooks_good_def)
  have "hooks h1 ns = fold hook_spec cs []" using called_hooks[OF g(1)] c by simp
  then have run: "x_hook_run call p arg h1 s = Some (fold (\<lambda>(f, d). call f arg d) (fold hook_spec cs []) s)" for call arg and s :: 's
    using hook_run_list[OF g(1), of call arg s] by simp
  obtain h2 where h2: "x_hook_free p h1 = Some h2" "live h2 F" "same_on F h1 h2" using hook_free_list[OF g(1)] unfolding g(2) by blast
  have "same_on F h h2" using g(3) h2(3) by (rule same_on_trans) simp_all
  then show ?thesis using r(1) run h2(1,2) by blast
qed

lemma hooks_history_witness:
  "\<exists>h p h1. live h {} \<and> run hook_step [AddHook 7 70, AddHook 8 80, AddHook 7 70, RemoveHook 7 70, AddHook 9 90] (0, h) = Some (p, h1)
     \<and> x_hook_run (\<lambda>f arg d xs. xs @ [(f, arg + d)]) p 1 h1 [] = Some [(9, 91), (8, 81)]"
proof -
  let ?h = "\<lparr> cells = \<lambda>_. None, freelist = 0, brk = 1, noMemory = [] \<rparr>"
  have h: "live ?h {}" "noMemory ?h = []" by (simp_all add: live_def)
  let ?cs = "[AddHook 7 70, AddHook 8 80, AddHook 7 70, RemoveHook 7 70, AddHook 9 90]"
  obtain p h1 where r: "run hook_step ?cs (0, ?h) = Some (p, h1)"
    "\<forall>call arg (s :: (ptr \<times> ptr) list). x_hook_run call p arg h1 s = Some (fold (\<lambda>(f, d). call f arg d) (fold hook_spec ?cs []) s)"
    using hooks_history[OF h, of ?cs, where 's = "(ptr \<times> ptr) list"] by blast
  show ?thesis
    using h(1) r(1) r(2)[rule_format, of "\<lambda>f arg d xs. xs @ [(f, arg + d)]" 1 "[]"]
    by (intro exI[of _ ?h] exI[of _ p] exI[of _ h1]) simp
qed

end
