(* ===== verification/Spec2Isabelle.thy ===== *)
theory Spec2Isabelle
  imports NsSelection NsClients NsConfigSpec NsAtoms NsAccess NsIsolation
    X86ShiftSpec X86DivSpec X86Address X86Program X86StringSpec X86Equiv DbeSpec KeySym XHashUse XHook
begin

text \<open>
  Root of the verification library of Xenia, an X server whose server core is written in D and
  whose C code is, among others, the namespace extension, the double buffer extension and the x86
  emulator. The library models these three in full or in large part and imports every theory.

  \<^bold>\<open>The namespace extension\<close> (\<open>source/Xext/namespace\<close>) separates the clients of one server into
  containers. Its parts and the theories that model them:

  \<^item> \<open>NsConfig\<close>: the namespace list and the configuration file (\<open>config.c\<close>: \<open>parseLine\<close>,
    \<open>XnsLoadConfig\<close>, \<open>hex2bin\<close>, \<open>select_ns\<close>; \<open>namespace.c\<close>: lookup and assignment). A pointer to a
    namespace is its position in the list. Allocations fail by their size (\<open>calloc_ok\<close>), and one whose
    result the code does not check is a null dereference where the pointer is used. \<open>NsConfigSpec\<close>
    states what a file means, section by section, proves that the line by line parser implements it, and
    for which files and failures loading ends in a fault, in \<open>FatalError\<close> or in success.
  \<^item> \<open>NsClients\<close>: client creation, authentication and destruction (\<open>hook-clientstate.c\<close>) as a step
    relation; reference counts are exact in every reachable state.
  \<^item> \<open>NsHooks\<close>: the access hooks, one definition per \<open>hook-*.c\<close> file. \<open>NsAccess\<close> proves what
    they guarantee for resources, the real root window, devices and extensions; \<open>NsIsolation\<close>
    for events, window properties and virtual root windows. A property request is followed from its
    filter through \<open>dixLookupWindow\<close> (\<open>dix/dixutils.d\<close>) to the window it is carried out on or its error.
    The guarantees are about confined clients; that the hooks also refuse clients of the root namespace,
    which the documentation calls unrestricted, is shown beside them.
  \<^item> \<open>NsAtoms\<close>: the atom table (\<open>dix/atom.d\<close>) behind the interface \<open>atom_table\<close>. An argument of each
    call says whether its allocations succeed; if not, a new name gets \<open>BAD_RESOURCE\<close>.
    \<open>NsSelection\<close>: renaming of selections (\<open>hook-selection.c\<close>) through it.

  \<^bold>\<open>The double buffer extension\<close> (\<open>source/Xext/doublebuffer\<close>) gives windows back buffers that clients
  draw to under names of their own. A window with a buffer has a private on the heap with an array of
  names and two pixmaps; every name stands for two resources, the private and the back pixmap.

  \<^item> \<open>DbeIds\<close>: the private and its array (\<open>dbestruct.h\<close>), first inline, then on the heap, and its
    operations in \<open>dbe.c\<close>; \<open>names\<close> is the list it stands for, and the lemmas show each operation on the
    list.
  \<^item> \<open>DbeState\<close>: resources, heap, pixmaps and the delete functions; \<open>DbeRequests\<close>: requests, window
    hooks and initialisation (\<open>dbe.c\<close>, \<open>midbe.c\<close>). Lookups, permissions and drawing are the record
    \<open>dbe_env\<close>; the type of images is a parameter. Allocations fail as \<open>outOfMemory\<close> says and succeed when it
    is used up. \<open>None\<close> is a null or dangling pointer or a loop that does not end: the loop that frees the
    names of a window is the partial function \<open>free_names\<close>.
  \<^item> \<open>DbeInv\<close>: the invariant \<open>dbe_wf\<close>, by which privates, names, resources and pixmaps correspond;
    \<open>DbeFrame\<close>, \<open>DbeDestroy\<close>, \<open>DbeSwap\<close>, \<open>DbeAllocate\<close>, \<open>DbeResize\<close>: that each operation returns, keeps
    it and what it computes; \<open>DbeSafe\<close>: the extension as a step relation from its initialisation on. In
    it memory may run out at any time, except that a request to allocate a name is taken only with memory
    and with the consent of the security hook (\<open>unhindered\<close>): otherwise such a request can break the
    invariant. \<open>DbeSpec\<close>: the properties, among them two such failures with their consequences.

  \<^bold>\<open>The x86 emulator\<close> (\<open>source/hw/xfree86/.x86emu\<close>) runs the video BIOS. The machine state
  \<open>X86EMU\<close> is the register file and what the memory functions keep. The theories follow the files:

  \<^item> \<open>X86Regs\<close>, \<open>X86Flags\<close>: registers with their 16 and 8 bit parts, flag macros, parity
    (\<open>x86emu/regs.h\<close>, \<open>prim_ops.c\<close>).
  \<^item> \<open>X86Prim\<close>, \<open>X86Shift\<close>, \<open>X86Mul\<close>: the arithmetic, shift and rotate, multiplication and
    division primitives of \<open>prim_ops.c\<close>, each a function from operands and registers to the result
    and registers. \<open>X86Carry\<close>, \<open>X86Alu\<close>, \<open>X86Rotate\<close>, \<open>X86ShiftSpec\<close>, \<open>X86MulSpec\<close> and
    \<open>X86DivSpec\<close> show which numbers and flags they compute, by contracts that hold for words of
    any width and are shown for the byte, word and long functions; \<open>X86Arith\<close> collects the
    properties of arithmetic, logic and decimal adjustment.
  \<^item> \<open>X86Cond\<close>: the condition switches of the conditional jump and set instructions (\<open>ops2.c\<close>).
  \<^item> \<open>X86Mem\<close>, \<open>X86Io\<close>: default memory functions and function pointers (\<open>sys.c\<close>), stack,
    interrupt entry, string I/O and CPUID. The interface \<open>cell_memory\<close> gives the laws of reading and
    writing, shown for bytes, words and longs of the default memory; \<open>X86Stack\<close> derives what the
    stack, the interrupt entry and repeated input promise.
  \<^item> \<open>X86Decode\<close>: immediates, segments, registers and effective addresses (\<open>decode.c\<close>);
    \<open>X86Address\<close> compares them with the addressing tables of the processor.

  \<^item> \<open>X86Operand\<close>, \<open>X86OpsAlu\<close>, \<open>X86OpsReg\<close>, \<open>X86OpsMove\<close>, \<open>X86OpsString\<close>, \<open>X86OpsFlow\<close>,
    \<open>X86OpsGroup\<close>: the handlers of the one byte opcodes (\<open>ops.c\<close>, \<open>fpu.c\<close>). The handlers repeat a few
    shapes for three widths and four addressing modes; \<open>X86Operand\<close> defines the shapes (\<open>with_modrm\<close>,
    \<open>op_RM_R\<close>, \<open>by_size\<close>, \<open>instr\<close>, the record \<open>width\<close>), each handler is an instance. \<open>X86Ops2\<close>: the
    opcodes after 0x0f (\<open>ops2.c\<close>).
  \<^item> \<open>X86Exec\<close>: the opcode tables and the main loop \<open>X86EMU_exec\<close> (\<open>decode.c\<close>), a round of which is
    \<open>exec_round\<close>: pending interrupts, fetch, dispatch.
  \<^item> \<open>X86Safe\<close>, \<open>X86SafeTable\<close>, \<open>X86SafeExec\<close>: memory safety, row by row over both tables and then for the
    main loop, with the opcodes it fails for listed. \<open>safe_width\<close> is the contract of an operand width,
    interpreted for 8, 16 and 32 bits; \<open>counted_step\<close> that of the body of a repeated instruction,
    interpreted for each loop: such loops terminate.
  \<^item> \<open>X86Frames\<close>: the stack as a list. \<open>stack_width\<close> is the contract of push and pop of one width,
    interpreted for words and longs; calls, software interrupts and returns are proved over it.
    \<open>X86StringSpec\<close>: what the repeated string instructions compute. \<open>X86Program\<close>: a whole program run by
    the main loop. \<open>X86Equiv\<close>: short jumps and bit scans against reference definitions.

  \<^bold>\<open>The helpers of XQuartz\<close> (\<open>source/hw/.xquartz\<close>) are the part of that back end that is plain C:

  \<^item> \<open>KeySym\<close>: the keysym table and its searches in both directions (\<open>keysym2ucs.c\<close>).
  \<^item> \<open>XList\<close>: lists of cons cells that are taken from and returned to a free list (\<open>xpr/x-list.c\<close>), on a
    heap from addresses to cells. \<open>XListInv\<close>: a list as a sequence of nodes and the allocator as a set of
    live nodes, \<open>live\<close>; \<open>XListSpec\<close> and \<open>XListSort\<close>: every operation against its counterpart on sequences,
    with the nodes it takes or gives back and the nodes it leaves alone.
  \<^item> \<open>XHash\<close>: hash tables whose buckets are such lists and whose items are cells too (\<open>xpr/x-hash.c\<close>).
    \<open>XHashInv\<close>: the invariant \<open>table_at\<close>; \<open>XHashSplit\<close>, \<open>XHashOps\<close>: growth and each change keep it; \<open>XHashSpec\<close>:
    each call implements the call on a map; \<open>XHashUse\<close>: histories of calls, and ownership of keys and values.
  \<^item> \<open>XHook\<close>: lists of hooks (\<open>xpr/x-hook.c\<close>). \<open>XRefine\<close>: sequences of calls and the interface
    \<open>implements\<close>, which tables and hooks provide.

  In these theories an allocation fails as \<open>noMemory\<close> says and succeeds when that is used up; where the code
  asserts that it succeeded, \<open>None\<close> is the failed assertion. The locks around the free list are left out.

  \<^bold>\<open>Conventions.\<close> C integers are words of their width. A call that dereferences a null pointer or
  executes another undefined operation has no result: \<open>None\<close>. The memory and port functions are function
  pointers the client sets: the record \<open>sys_funcs\<close>, an argument of every handler, as are the installed
  interrupt handlers and the value of one undefined shift (\<open>emu_env\<close>). Properties of memory use the
  default functions of \<open>sys.c\<close>, \<open>default_funcs\<close>, on a block of at least 0x110000 bytes, the addresses
  real mode reaches. Loops recurse on their counter or on the remaining input and no fuel is used, with
  two exceptions: a loop on CX, which the memory functions of a client could set back, and the main loop
  are partial functions (\<open>cx_loop\<close>, \<open>exec_loop\<close>), where \<open>None\<close> is also a loop that does not end. That
  they return is proved: for every string instruction on the default memory, and for a program.

  \<^bold>\<open>Not modelled.\<close> Log output and the \<open>DEBUG\<close> tracer of the emulator; the bodies of its FPU instructions,
  which need \<open>X86EMU_FPU_PRESENT\<close>, defined nowhere (the escapes decode their operand and do nothing, as
  compiled without it); the branches compiled with \<open>__HAS_LONG_LONG__\<close>, which nothing defines, and those of
  big endian hosts; the byte swapping of requests; the server back ends bound to macOS, Windows
  and foreign consoles, which are calls to those platforms; tests and vendored headers.
\<close>

end
